(* ===== verification/Prelude.thy ===== *)
theory Prelude
  imports Main "HOL-Library.AList" "HOL-Library.Sublist"
begin

text \<open>
  Shared ground of the development: the types that stand for Python values (times, UUIDs,
  dictionaries), errors as values of a sum type, a small state-and-exception monad for code that
  changes a database or a file before it may raise, the string methods the sources call, and the
  list and dictionary lemmas that the component theories use. The named collections
  \<open>eff_simps\<close> and \<open>dict_simps\<close> hold the rewrite rules of the last two.
\<close>

section \<open>Named collections and type synonyms\<close>

named_theorems eff_simps \<open>rewrite rules of the state-and-exception monad\<close>
named_theorems dict_simps \<open>rewrite rules of insertion-ordered dictionaries\<close>

text \<open>
  A UUID is the 128-bit integer Python's \<open>uuid.UUID\<close> wraps; a \<open>datetime\<close> in UTC and a clock
  reading are integers in one fixed unit; a Python \<open>dict\<close> keeps insertion order, so it is an
  association list with distinct keys.
\<close>

type_synonym uuid = int
type_synonym time = int
type_synonym ('k, 'v) dict = "('k \<times> 'v) list"
type_synonym ('e, 'a) res = "'e + 'a"
type_synonym ('s, 'e, 'a) eff = "'s \<Rightarrow> ('e + 'a) \<times> 's"

section \<open>Errors as values\<close>

definition rbind :: "('e, 'a) res \<Rightarrow> ('a \<Rightarrow> ('e, 'b) res) \<Rightarrow> ('e, 'b) res" where
  "rbind r f = (case r of Inl e \<Rightarrow> Inl e | Inr x \<Rightarrow> f x)"

fun rmap :: "('a \<Rightarrow> ('e, 'b) res) \<Rightarrow> 'a list \<Rightarrow> ('e, 'b list) res" where
  "rmap f [] = Inr []"
| "rmap f (x # xs) = rbind (f x) (\<lambda>y. rbind (rmap f xs) (\<lambda>ys. Inr (y # ys)))"

lemma rbind_Inl [simp]: "rbind (Inl e) f = Inl e"
  and rbind_Inr [simp]: "rbind (Inr x) f = f x"
  by (simp_all add: rbind_def)

lemma rbind_eq_Inr: "rbind r f = Inr y \<longleftrightarrow> (\<exists>x. r = Inr x \<and> f x = Inr y)"
  by (cases r) auto

lemma rbind_eq_Inl: "rbind r f = Inl e \<longleftrightarrow> r = Inl e \<or> (\<exists>x. r = Inr x \<and> f x = Inl e)"
  by (cases r) auto

lemma rmap_Inr_all: "\<forall>x \<in> set xs. f x = Inr (g x) \<Longrightarrow> rmap f xs = Inr (map g xs)"
  by (induction xs) auto

lemma rmap_Inr_length: "rmap f xs = Inr ys \<Longrightarrow> length ys = length xs"
  by (induction xs arbitrary: ys) (auto simp: rbind_eq_Inr)

lemma rmap_Inr_nth: "rmap f xs = Inr ys \<Longrightarrow> i < length xs \<Longrightarrow> f (xs ! i) = Inr (ys ! i)"
  by (induction xs arbitrary: ys i) (auto simp: rbind_eq_Inr nth_Cons split: nat.split)

section \<open>State and exceptions\<close>

text \<open>
  A computation takes the state and gives back a result or an error \<^emph>\<open>and\<close> the state it left: what
  was written before a \<open>raise\<close> stays written, as it does in the sources, where no transaction
  spans the statements.
\<close>

definition ereturn :: "'a \<Rightarrow> ('s, 'e, 'a) eff" where
  "ereturn x = (\<lambda>s. (Inr x, s))"

definition eraise :: "'e \<Rightarrow> ('s, 'e, 'a) eff" where
  "eraise e = (\<lambda>s. (Inl e, s))"

definition ebind :: "('s, 'e, 'a) eff \<Rightarrow> ('a \<Rightarrow> ('s, 'e, 'b) eff) \<Rightarrow> ('s, 'e, 'b) eff" where
  "ebind m f = (\<lambda>s. case m s of (Inl e, s') \<Rightarrow> (Inl e, s') | (Inr x, s') \<Rightarrow> f x s')"

definition eread :: "('s \<Rightarrow> 'a) \<Rightarrow> ('s, 'e, 'a) eff" where
  "eread g = (\<lambda>s. (Inr (g s), s))"

definition ewrite :: "('s \<Rightarrow> 's) \<Rightarrow> ('s, 'e, unit) eff" where
  "ewrite g = (\<lambda>s. (Inr (), g s))"

definition eguard :: "bool \<Rightarrow> 'e \<Rightarrow> ('s, 'e, unit) eff" where
  "eguard b e = (\<lambda>s. (if b then Inr () else Inl e, s))"

definition elift :: "('e, 'a) res \<Rightarrow> ('s, 'e, 'a) eff" where
  "elift r = (\<lambda>s. (r, s))"

lemma ereturn_apply [eff_simps]: "ereturn x s = (Inr x, s)"
  and eraise_apply [eff_simps]: "eraise e s = (Inl e, s)"
  and eread_apply [eff_simps]: "eread g s = (Inr (g s), s)"
  and ewrite_apply [eff_simps]: "ewrite h s = (Inr (), h s)"
  and eguard_apply [eff_simps]: "eguard b e s = (if b then Inr () else Inl e, s)"
  and elift_apply [eff_simps]: "elift r s = (r, s)"
  by (simp_all add: ereturn_def eraise_def eread_def ewrite_def eguard_def elift_def)

lemma ebind_apply [eff_simps]:
  "ebind m f s = (case m s of (Inl e, s') \<Rightarrow> (Inl e, s') | (Inr x, s') \<Rightarrow> f x s')"
  by (simp add: ebind_def)

text \<open>The state a computation leaves, and the value it returns.\<close>

abbreviation run_state :: "('s, 'e, 'a) eff \<Rightarrow> 's \<Rightarrow> 's" where
  "run_state m s \<equiv> snd (m s)"

abbreviation run_value :: "('s, 'e, 'a) eff \<Rightarrow> 's \<Rightarrow> ('e, 'a) res" where
  "run_value m s \<equiv> fst (m s)"

section \<open>Dictionaries\<close>

lemma map_of_update [dict_simps]: "map_of (AList.update k v d) = (map_of d)(k \<mapsto> v)"
  by (simp add: update_conv')

lemma map_of_delete [dict_simps]: "map_of (AList.delete k d) = (map_of d)(k := None)"
  by (simp add: delete_conv')

definition dict_keys :: "('k, 'v) dict \<Rightarrow> 'k list" where
  "dict_keys d = map fst d"

definition dict_get :: "('k, 'v) dict \<Rightarrow> 'k \<Rightarrow> 'v \<Rightarrow> 'v" where
  "dict_get d k x = (case map_of d k of None \<Rightarrow> x | Some v \<Rightarrow> v)"

abbreviation dict_ok :: "('k, 'v) dict \<Rightarrow> bool" where
  "dict_ok d \<equiv> distinct (map fst d)"

lemma dict_ok_update [simp]: "dict_ok d \<Longrightarrow> dict_ok (AList.update k v d)"
  by (rule distinct_update)

lemma dict_ok_delete [simp]: "dict_ok d \<Longrightarrow> dict_ok (AList.delete k d)"
  by (rule distinct_delete)

lemma set_update_subset: "set (AList.update k v d) \<subseteq> insert (k, v) (set d)"
  by (induction d) auto

lemma find_append: "find P (xs @ ys) = (case find P xs of None \<Rightarrow> find P ys | Some x \<Rightarrow> Some x)"
  by (induction xs) auto

lemma map_of_fold_update:
  "map_of (fold (\<lambda>r d. AList.update (key r) r d) rs d) n =
     (case find (\<lambda>r. key r = n) (rev rs) of Some r \<Rightarrow> Some r | None \<Rightarrow> map_of d n)"
  by (induction rs arbitrary: d) (auto simp: dict_simps find_append split: option.split)

lemma fold_update_keyed:
  "\<forall>(k, v) \<in> set d. k = key v \<Longrightarrow> \<forall>(k, v) \<in> set (fold (\<lambda>r d. AList.update (key r) r d) rs d). k = key v"
proof (induction rs arbitrary: d)
  case (Cons r rs)
  have "\<forall>(k, v) \<in> set (AList.update (key r) r d). k = key v"
    using Cons.prems set_update_subset [of "key r" r d] by fastforce
  then show ?case by (simp add: Cons.IH)
qed simp

lemma fold_update_dict_ok: "dict_ok d \<Longrightarrow> dict_ok (fold (\<lambda>r d. AList.update (key r) r d) rs d)"
  by (induction rs arbitrary: d) simp_all

lemma map_of_None_fst: "map_of d k = None \<longleftrightarrow> k \<notin> fst ` set d"
  by (rule map_of_eq_None_iff)

section \<open>Strings\<close>

text \<open>
  Characters are the code points 0 to 255. \<open>py_space\<close> is \<open>str.isspace\<close> on them, \<open>py_strip\<close>
  is \<open>str.strip()\<close>, and \<open>py_lower\<close> is \<open>str.lower()\<close>.
\<close>

definition py_space :: "char \<Rightarrow> bool" where
  "py_space c = (let n = (of_char c :: nat) in
     (9 \<le> n \<and> n \<le> 13) \<or> (28 \<le> n \<and> n \<le> 32) \<or> n = 133 \<or> n = 160)"

definition py_lstrip :: "string \<Rightarrow> string" where
  "py_lstrip s = dropWhile py_space s"

definition py_strip :: "string \<Rightarrow> string" where
  "py_strip s = rev (dropWhile py_space (rev (dropWhile py_space s)))"

definition py_lower_char :: "char \<Rightarrow> char" where
  "py_lower_char c = (let n = (of_char c :: nat) in
     if 65 \<le> n \<and> n \<le> 90 \<or> 192 \<le> n \<and> n \<le> 222 \<and> n \<noteq> 215 then char_of (n + 32) else c)"

text \<open>\<open>str.upper\<close> on characters whose capital is one Latin-1 character.\<close>

definition py_upper_char :: "char \<Rightarrow> char" where
  "py_upper_char c = (let n = (of_char c :: nat) in
     if 97 \<le> n \<and> n \<le> 122 \<or> 224 \<le> n \<and> n \<le> 254 \<and> n \<noteq> 247 then char_of (n - 32) else c)"

definition py_lower :: "string \<Rightarrow> string" where
  "py_lower s = map py_lower_char s"

text \<open>\<open>str(n)\<close> for a natural number, as an f-string renders it.\<close>

fun str_nat :: "nat \<Rightarrow> string" where
  "str_nat n = (if n < 10 then [char_of (48 + n)] else str_nat (n div 10) @ [char_of (48 + n mod 10)])"

declare str_nat.simps [simp del]

definition no_edge_space :: "string \<Rightarrow> bool" where
  "no_edge_space s \<longleftrightarrow> s \<noteq> [] \<longrightarrow> \<not> py_space (hd s) \<and> \<not> py_space (last s)"

lemma dropWhile_hd: "xs \<noteq> [] \<Longrightarrow> \<not> P (hd xs) \<Longrightarrow> dropWhile P xs = xs"
  by (cases xs) auto

lemma hd_dropWhile_not: "dropWhile P xs \<noteq> [] \<Longrightarrow> \<not> P (hd (dropWhile P xs))"
  by (rule hd_dropWhile)

lemma py_strip_id: "no_edge_space s \<Longrightarrow> py_strip s = s"
  by (cases "s = []") (auto simp: py_strip_def no_edge_space_def dropWhile_hd hd_rev)

lemma py_strip_edges: "no_edge_space (py_strip s)"
proof (cases "py_strip s = []")
  case True
  then show ?thesis by (simp add: no_edge_space_def)
next
  case False
  let ?l = "dropWhile py_space s"
  let ?r = "dropWhile py_space (rev ?l)"
  from False have r: "?r \<noteq> []" by (simp add: py_strip_def)
  then have last: "\<not> py_space (last (py_strip s))"
    by (simp add: py_strip_def last_rev hd_dropWhile)
  from r have l: "?l \<noteq> []" by (metis dropWhile.simps(1) rev.simps(1))
  obtain pre where "rev ?l = pre @ ?r"
    by (metis takeWhile_dropWhile_id)
  then have "last (rev ?l) = last ?r"
    using r by (metis last_appendR)
  then have "hd ?l = hd (py_strip s)"
    using l r by (simp add: py_strip_def last_rev hd_rev)
  then have "\<not> py_space (hd (py_strip s))"
    using l by (metis hd_dropWhile)
  with last show ?thesis by (simp add: no_edge_space_def)
qed

lemma py_strip_idem [simp]: "py_strip (py_strip s) = py_strip s"
  by (rule py_strip_id) (rule py_strip_edges)

lemma set_py_strip: "set (py_strip s) \<subseteq> set s"
  by (auto simp: py_strip_def dest!: set_dropWhileD)

section \<open>Lists\<close>

lemma filter_eq_nth_ex: "x \<in> set xs \<Longrightarrow> P x \<Longrightarrow> filter P xs \<noteq> []"
  by (auto simp: filter_empty_conv)

lemma find_Some_mem: "find P xs = Some x \<Longrightarrow> x \<in> set xs \<and> P x"
  by (auto simp: find_Some_iff)

lemma find_None_all: "find P xs = None \<longleftrightarrow> (\<forall>x \<in> set xs. \<not> P x)"
  by (auto simp: find_None_iff)

lemma sort_key_snoc_min:
  "\<forall>y \<in> set xs. k x < k y \<Longrightarrow> sort_key k (xs @ [x]) = x # sort_key k xs"
proof (induction xs)
  case Nil
  then show ?case by simp
next
  case (Cons y xs)
  then have "\<not> k y \<le> k x" by (simp add: not_le)
  with Cons show ?case by simp
qed

end
