(* ===== verification/Secrets.thy ===== *)
theory Secrets
  imports Prelude "HOL-Library.Char_ord" "HOL-Library.List_Lexorder"
begin

text \<open>
  \<open>shared/secrets\<close>: the adapter contract (\<open>base.py\<close>), the in-memory adapter
  (\<open>memory.py\<close>), the TTL read cache that wraps any adapter (\<open>cache.py\<close>) and the
  process-wide default adapter (\<open>__init__.py\<close>). The locale \<open>secret_adapter\<close> states what
  a backend promises and \<open>live_secret_adapter\<close> adds that it is available; the cache is proved to
  turn every adapter of the first kind into an adapter of the first kind, and likewise for the
  second, and both locales are interpreted on the in-memory adapter and on the cache around it.
\<close>

section \<open>The adapter interface\<close>

datatype secret_error = SecretBackendError | SecretNotFound | SecretAccessDenied

record 's adapter =
  ad_get :: "string \<Rightarrow> ('s, secret_error, string) eff"
  ad_put :: "string \<Rightarrow> string \<Rightarrow> ('s, secret_error, unit) eff"
  ad_delete :: "string \<Rightarrow> ('s, secret_error, unit) eff"
  ad_list :: "string \<Rightarrow> ('s, secret_error, string list) eff"
  ad_close :: "('s, secret_error, unit) eff"

section \<open>The in-memory adapter\<close>

type_synonym mem_store = "(string, string) dict"

definition mem_init :: "mem_store option \<Rightarrow> mem_store" where
  "mem_init initial = (case initial of None \<Rightarrow> [] | Some d \<Rightarrow> d)"

definition mem_get :: "string \<Rightarrow> (mem_store, secret_error, string) eff" where
  "mem_get path = (\<lambda>st. (case map_of st path of None \<Rightarrow> Inl SecretNotFound | Some v \<Rightarrow> Inr v, st))"

definition mem_put :: "string \<Rightarrow> string \<Rightarrow> (mem_store, secret_error, unit) eff" where
  "mem_put path v = ewrite (AList.update path v)"

definition mem_delete :: "string \<Rightarrow> (mem_store, secret_error, unit) eff" where
  "mem_delete path = ewrite (AList.delete path)"

definition mem_list :: "string \<Rightarrow> (mem_store, secret_error, string list) eff" where
  "mem_list pre = eread (\<lambda>st. sort (filter (prefix pre) (dict_keys st)))"

definition memory_adapter :: "mem_store adapter" where
  "memory_adapter =
     \<lparr>ad_get = mem_get, ad_put = mem_put, ad_delete = mem_delete, ad_list = mem_list,
      ad_close = ereturn ()\<rparr>"

section \<open>The TTL cache\<close>

text \<open>
  \<open>c_clock\<close> is what \<open>time.monotonic()\<close> reads; nothing in the cache writes it, the environment
  advances it between calls. Entries carry the value and the time they go stale.
\<close>

record cache_entry =
  ce_value :: string
  ce_expires_at :: time

record 's cached =
  c_inner :: 's
  c_default_ttl :: time
  c_entries :: "(string, cache_entry) dict"
  c_clock :: time

definition default_ttl_seconds :: time where
  "default_ttl_seconds = 60"

definition cached_init :: "'s \<Rightarrow> time \<Rightarrow> time \<Rightarrow> 's cached" where
  "cached_init inner ttl now =
     \<lparr>c_inner = inner, c_default_ttl = ttl, c_entries = [], c_clock = now\<rparr>"

definition on_inner :: "('s, 'e, 'a) eff \<Rightarrow> ('s cached, 'e, 'a) eff" where
  "on_inner m = (\<lambda>c. case m (c_inner c) of (r, i) \<Rightarrow> (r, c\<lparr>c_inner := i\<rparr>))"

definition cached_get_ttl :: "'s adapter \<Rightarrow> string \<Rightarrow> time option \<Rightarrow>
    ('s cached, secret_error, string) eff" where
  "cached_get_ttl A path ttl = (\<lambda>c.
     let now = c_clock c; miss =
       ebind (on_inner (ad_get A path)) (\<lambda>v.
       ebind (ewrite (\<lambda>c. c\<lparr>c_entries := AList.update path
                \<lparr>ce_value = v,
                 ce_expires_at = now + (case ttl of Some t \<Rightarrow> t | None \<Rightarrow> c_default_ttl c)\<rparr>
                (c_entries c)\<rparr>)) (\<lambda>_.
       ereturn v))
     in case map_of (c_entries c) path of
          Some e \<Rightarrow> if ce_expires_at e > now then (Inr (ce_value e), c) else miss c
        | None \<Rightarrow> miss c)"

definition cached_pop :: "string \<Rightarrow> ('s cached, secret_error, unit) eff" where
  "cached_pop path = ewrite (\<lambda>c. c\<lparr>c_entries := AList.delete path (c_entries c)\<rparr>)"

definition cached_put :: "'s adapter \<Rightarrow> string \<Rightarrow> string \<Rightarrow> ('s cached, secret_error, unit) eff" where
  "cached_put A path v = ebind (on_inner (ad_put A path v)) (\<lambda>_. cached_pop path)"

definition cached_delete :: "'s adapter \<Rightarrow> string \<Rightarrow> ('s cached, secret_error, unit) eff" where
  "cached_delete A path = ebind (on_inner (ad_delete A path)) (\<lambda>_. cached_pop path)"

definition cached_close :: "'s adapter \<Rightarrow> ('s cached, secret_error, unit) eff" where
  "cached_close A = ebind (on_inner (ad_close A)) (\<lambda>_. ewrite (\<lambda>c. c\<lparr>c_entries := []\<rparr>))"

definition cached_adapter :: "'s adapter \<Rightarrow> 's cached adapter" where
  "cached_adapter A =
     \<lparr>ad_get = (\<lambda>p. cached_get_ttl A p None), ad_put = cached_put A, ad_delete = cached_delete A,
      ad_list = (\<lambda>pre. on_inner (ad_list A pre)), ad_close = cached_close A\<rparr>"

definition cached_invalidate :: "string option \<Rightarrow> ('s cached, secret_error, unit) eff" where
  "cached_invalidate path = (case path of
     None \<Rightarrow> ewrite (\<lambda>c. c\<lparr>c_entries := []\<rparr>) | Some p \<Rightarrow> cached_pop p)"

definition cached_stats :: "'s cached \<Rightarrow> nat \<times> nat \<times> time" where
  "cached_stats c =
     (length (c_entries c),
      length (filter (\<lambda>e. ce_expires_at e > c_clock c) (map snd (c_entries c))),
      c_default_ttl c)"

section \<open>The default adapter\<close>

definition known_adapter_names :: "string list" where
  "known_adapter_names = [''vault'', ''aws'', ''azure'', ''gcp'']"

text \<open>
  With no adapter installed the environment hint only changes the wording of the error, never
  the outcome: both branches raise.
\<close>

definition get_default_adapter :: "'s adapter option \<Rightarrow> string \<Rightarrow> (secret_error, 's adapter) res" where
  "get_default_adapter default_adapter hint = (case default_adapter of
     Some A \<Rightarrow> Inr A
   | None \<Rightarrow> let hinted = py_lower (py_strip hint) in
       if hinted \<noteq> [] \<and> hinted \<in> set known_adapter_names then Inl SecretBackendError
       else Inl SecretBackendError)"

definition get_secret :: "'s adapter option \<Rightarrow> string \<Rightarrow> string \<Rightarrow> ('s, secret_error, string) eff" where
  "get_secret d hint path = ebind (elift (get_default_adapter d hint)) (\<lambda>A. ad_get A path)"

definition put_secret :: "'s adapter option \<Rightarrow> string \<Rightarrow> string \<Rightarrow> string \<Rightarrow>
    ('s, secret_error, unit) eff" where
  "put_secret d hint path v = ebind (elift (get_default_adapter d hint)) (\<lambda>A. ad_put A path v)"

definition delete_secret :: "'s adapter option \<Rightarrow> string \<Rightarrow> string \<Rightarrow>
    ('s, secret_error, unit) eff" where
  "delete_secret d hint path = ebind (elift (get_default_adapter d hint)) (\<lambda>A. ad_delete A path)"

definition list_secrets :: "'s adapter option \<Rightarrow> string \<Rightarrow> string \<Rightarrow>
    ('s, secret_error, string list) eff" where
  "list_secrets d hint pre = ebind (elift (get_default_adapter d hint)) (\<lambda>A. ad_list A pre)"

lemmas secret_defs =
  get_secret_def put_secret_def delete_secret_def list_secrets_def get_default_adapter_def

section \<open>The two ways a cached read goes\<close>

definition cache_live :: "'s cached \<Rightarrow> string \<Rightarrow> bool" where
  "cache_live c p = (case map_of (c_entries c) p of None \<Rightarrow> False | Some e \<Rightarrow> ce_expires_at e > c_clock c)"

lemma cached_get_live:
  "cache_live c p \<Longrightarrow> cached_get_ttl A p ttl c = (Inr (ce_value (the (map_of (c_entries c) p))), c)"
  by (auto simp: cached_get_ttl_def cache_live_def Let_def split: option.splits)

lemma cached_get_fetch:
  "\<not> cache_live c p \<Longrightarrow> ad_get A p (c_inner c) = (r, i) \<Longrightarrow> cached_get_ttl A p ttl c =
     (case r of Inl e \<Rightarrow> (Inl e, c\<lparr>c_inner := i\<rparr>)
      | Inr v \<Rightarrow> (Inr v, c\<lparr>c_inner := i, c_entries := AList.update p
          \<lparr>ce_value = v, ce_expires_at = c_clock c + (case ttl of Some t \<Rightarrow> t | None \<Rightarrow> c_default_ttl c)\<rparr>
          (c_entries c)\<rparr>))"
  by (cases "map_of (c_entries c) p"; cases r; cases ttl)
    (simp_all add: cached_get_ttl_def cache_live_def on_inner_def Let_def eff_simps)

section \<open>Sequences of requests\<close>

text \<open>
  A client's requests in order, each preceded by the time that passes before it. \<open>spec_ops\<close> is
  what the same requests give on a plain map, the reference behaviour of a secret store.
\<close>

datatype adapter_op = OpGet string | OpPut string string | OpDelete string
datatype answer = Got "(secret_error, string) res" | Done "(secret_error, unit) res"

fun run_op :: "'s adapter \<Rightarrow> adapter_op \<Rightarrow> 's \<Rightarrow> answer \<times> 's" where
  "run_op A (OpGet p) s = (case ad_get A p s of (r, s') \<Rightarrow> (Got r, s'))"
| "run_op A (OpPut p v) s = (case ad_put A p v s of (r, s') \<Rightarrow> (Done r, s'))"
| "run_op A (OpDelete p) s = (case ad_delete A p s of (r, s') \<Rightarrow> (Done r, s'))"

fun run_ops :: "'s adapter \<Rightarrow> (time \<Rightarrow> 's \<Rightarrow> 's) \<Rightarrow> (time \<times> adapter_op) list \<Rightarrow> 's \<Rightarrow> answer list" where
  "run_ops A tick [] s = []"
| "run_ops A tick ((d, x) # xs) s =
     (case run_op A x (tick d s) of (a, s') \<Rightarrow> a # run_ops A tick xs s')"

definition cache_tick :: "time \<Rightarrow> 's cached \<Rightarrow> 's cached" where
  "cache_tick d c = c\<lparr>c_clock := c_clock c + d\<rparr>"

fun spec_op :: "adapter_op \<Rightarrow> (string \<rightharpoonup> string) \<Rightarrow> answer \<times> (string \<rightharpoonup> string)" where
  "spec_op (OpGet p) m = (Got (case m p of None \<Rightarrow> Inl SecretNotFound | Some v \<Rightarrow> Inr v), m)"
| "spec_op (OpPut p v) m = (Done (Inr ()), m(p \<mapsto> v))"
| "spec_op (OpDelete p) m = (Done (Inr ()), m(p := None))"

fun spec_ops :: "adapter_op list \<Rightarrow> (string \<rightharpoonup> string) \<Rightarrow> answer list" where
  "spec_ops [] m = []"
| "spec_ops (x # xs) m = (case spec_op x m of (a, m') \<Rightarrow> a # spec_ops xs m')"

section \<open>What an adapter promises\<close>

text \<open>
  \<open>contents\<close> is the abstract store behind an adapter. A read that returns a value returns the
  stored one and no read changes the store; a write or a delete either takes effect and returns,
  or raises and leaves the store alone.
\<close>

locale secret_adapter =
  fixes A :: "'s adapter"
    and contents :: "'s \<Rightarrow> string \<rightharpoonup> string"
    and invar :: "'s \<Rightarrow> bool"
  assumes get_ok: "invar s \<Longrightarrow> ad_get A p s = (Inr v, s') \<Longrightarrow> contents s p = Some v"
    and get_frame: "invar s \<Longrightarrow> ad_get A p s = (r, s') \<Longrightarrow> invar s' \<and> contents s' = contents s"
    and put_ok: "invar s \<Longrightarrow> ad_put A p v s = (Inr u, s') \<Longrightarrow>
      invar s' \<and> contents s' = (contents s)(p \<mapsto> v)"
    and put_err: "invar s \<Longrightarrow> ad_put A p v s = (Inl e, s') \<Longrightarrow> invar s' \<and> contents s' = contents s"
    and delete_ok: "invar s \<Longrightarrow> ad_delete A p s = (Inr u, s') \<Longrightarrow>
      invar s' \<and> contents s' = (contents s)(p := None)"
    and delete_err: "invar s \<Longrightarrow> ad_delete A p s = (Inl e, s') \<Longrightarrow>
      invar s' \<and> contents s' = contents s"
begin

definition cached_invar :: "'s cached \<Rightarrow> bool" where
  "cached_invar c \<longleftrightarrow> invar (c_inner c) \<and>
     (\<forall>p e. map_of (c_entries c) p = Some e \<longrightarrow> contents (c_inner c) p = Some (ce_value e))"

lemmas cached_defs = cached_adapter_def cached_get_ttl_def cached_put_def cached_delete_def
  cached_pop_def on_inner_def cached_invar_def Let_def

lemma cached_get_ttl_cases:
  assumes inv: "cached_invar c" and get: "cached_get_ttl A p ttl c = (r, c')"
  shows "cached_invar c' \<and> contents (c_inner c') = contents (c_inner c) \<and>
    (\<forall>v. r = Inr v \<longrightarrow> contents (c_inner c) p = Some v)"
proof (cases "cache_live c p")
  case True
  then obtain e where "map_of (c_entries c) p = Some e"
    by (auto simp: cache_live_def split: option.splits)
  with True inv get show ?thesis by (auto simp: cached_get_live cached_invar_def)
next
  case False
  obtain q i where i: "ad_get A p (c_inner c) = (q, i)" by (cases "ad_get A p (c_inner c)")
  from inv have "invar (c_inner c)" by (simp add: cached_invar_def)
  note fr = get_frame [OF this i] and ok = get_ok [OF this]
  show ?thesis
  proof (cases q)
    case (Inl e)
    with False get i inv fr show ?thesis by (auto simp: cached_get_fetch cached_invar_def)
  next
    case (Inr v)
    with ok i have "contents (c_inner c) p = Some v" by simp
    with Inr False get i inv fr show ?thesis
      by (auto simp: cached_get_fetch cached_invar_def dict_simps split: if_splits)
  qed
qed

text \<open>The cache turns an adapter that keeps the contract into one that keeps it.\<close>

lemma cached_is_adapter:
  "secret_adapter (cached_adapter A) (\<lambda>c. contents (c_inner c)) cached_invar"
proof (unfold_locales, goal_cases)
  case (1 c p v c')
  then show ?case using cached_get_ttl_cases [of c p None "Inr v" c']
    by (simp add: cached_adapter_def)
next
  case (2 c p r c')
  then show ?case using cached_get_ttl_cases [of c p None r c']
    by (simp add: cached_adapter_def)
next
  case (3 c p v u c')
  then show ?case
    by (fastforce simp: cached_defs eff_simps dict_simps split: prod.splits sum.splits dest: put_ok)
next
  case (4 c p v e c')
  then show ?case
    by (fastforce simp: cached_defs eff_simps dict_simps split: prod.splits sum.splits dest: put_err)
next
  case (5 c p u c')
  then show ?case
    by (fastforce simp: cached_defs eff_simps dict_simps split: prod.splits sum.splits dest: delete_ok)
next
  case (6 c p e c')
  then show ?case
    by (fastforce simp: cached_defs eff_simps dict_simps split: prod.splits sum.splits dest: delete_err)
qed

end

text \<open>An adapter that is also available: it answers every request about its store.\<close>

locale live_secret_adapter = secret_adapter +
  assumes get_hit: "invar s \<Longrightarrow> contents s p = Some v \<Longrightarrow> fst (ad_get A p s) = Inr v"
    and get_miss: "invar s \<Longrightarrow> contents s p = None \<Longrightarrow> fst (ad_get A p s) = Inl SecretNotFound"
    and put_live: "invar s \<Longrightarrow> fst (ad_put A p v s) = Inr ()"
    and delete_live: "invar s \<Longrightarrow> fst (ad_delete A p s) = Inr ()"
begin

lemma get_put_same:
  assumes "invar s"
  shows "fst (ad_get A p (snd (ad_put A p v s))) = Inr v"
proof -
  obtain s' where s': "ad_put A p v s = (Inr (), s')"
    using put_live [OF assms] by (metis prod.collapse)
  with put_ok [OF assms this] show ?thesis by (simp add: get_hit)
qed

lemma get_deleted:
  assumes "invar s"
  shows "fst (ad_get A p (snd (ad_delete A p s))) = Inl SecretNotFound"
proof -
  obtain s' where s': "ad_delete A p s = (Inr (), s')"
    using delete_live [OF assms] by (metis prod.collapse)
  with delete_ok [OF assms this] show ?thesis by (simp add: get_miss)
qed

lemma cached_get_hit:
  assumes "cached_invar c" and "contents (c_inner c) p = Some v"
  shows "fst (cached_get_ttl A p ttl c) = Inr v"
proof -
  from assms(1) have inv: "invar (c_inner c)" by (simp add: cached_invar_def)
  obtain i where i: "ad_get A p (c_inner c) = (Inr v, i)"
    using get_hit [OF inv assms(2)] by (metis prod.collapse)
  from assms i show ?thesis
    by (cases "cache_live c p"; cases "map_of (c_entries c) p")
      (auto simp: cached_get_live cached_get_fetch cache_live_def cached_invar_def)
qed

lemma cached_get_miss:
  assumes "cached_invar c" and "contents (c_inner c) p = None"
  shows "fst (cached_get_ttl A p ttl c) = Inl SecretNotFound"
proof -
  from assms(1) have inv: "invar (c_inner c)" by (simp add: cached_invar_def)
  obtain i where i: "ad_get A p (c_inner c) = (Inl SecretNotFound, i)"
    using get_miss [OF inv assms(2)] by (metis prod.collapse)
  from assms have "\<not> cache_live c p" by (fastforce simp: cache_live_def cached_invar_def split: option.splits)
  with i show ?thesis by (simp add: cached_get_fetch)
qed

lemma cached_is_live:
  "live_secret_adapter (cached_adapter A) (\<lambda>c. contents (c_inner c)) cached_invar"
proof (rule live_secret_adapter.intro [OF cached_is_adapter live_secret_adapter_axioms.intro], goal_cases)
  case (1 c p v)
  then show ?case by (simp add: cached_adapter_def cached_get_hit)
next
  case (2 c p)
  then show ?case by (simp add: cached_adapter_def cached_get_miss)
next
  case (3 c p v)
  then have "fst (ad_put A p v (c_inner c)) = Inr ()" by (simp add: cached_invar_def put_live)
  then show ?case
    by (cases "ad_put A p v (c_inner c)") (simp add: cached_defs eff_simps)
next
  case (4 c p)
  then have "fst (ad_delete A p (c_inner c)) = Inr ()" by (simp add: cached_invar_def delete_live)
  then show ?case
    by (cases "ad_delete A p (c_inner c)") (simp add: cached_defs eff_simps)
qed

end

text \<open>An available adapter in an environment whose passing time does not touch the store.\<close>

locale clocked_secret_adapter = live_secret_adapter +
  fixes tick :: "time \<Rightarrow> 'a \<Rightarrow> 'a"
  assumes tick_frame: "invar s \<Longrightarrow> invar (tick d s) \<and> contents (tick d s) = contents s"
begin

lemma run_op_spec:
  assumes "invar s" and "run_op A x s = (a, s')"
  shows "invar s' \<and> (a, contents s') = spec_op x (contents s)"
proof (cases x)
  case (OpGet p)
  with assms show ?thesis
    using get_hit [of s p] get_miss [of s p] get_frame [of s p]
    by (auto split: option.split prod.splits)
next
  case (OpPut p v)
  with assms show ?thesis
    using put_live [of s p v] put_ok [of s p v] by (auto split: prod.splits)
next
  case (OpDelete p)
  with assms show ?thesis
    using delete_live [of s p] delete_ok [of s p] by (auto split: prod.splits)
qed

lemma run_ops_spec: "invar s \<Longrightarrow> run_ops A tick xs s = spec_ops (map snd xs) (contents s)"
proof (induction xs arbitrary: s)
  case Nil
  then show ?case by simp
next
  case (Cons y ys)
  obtain d x where y: "y = (d, x)" by (cases y)
  obtain a s' where r: "run_op A x (tick d s) = (a, s')" by (cases "run_op A x (tick d s)")
  from tick_frame [OF Cons.prems] have t: "invar (tick d s)" "contents (tick d s) = contents s"
    by auto
  from run_op_spec [OF t(1) r] have "invar s'" "spec_op x (contents s) = (a, contents s')"
    by (auto simp: t(2))
  with r y Cons.IH show ?case by simp
qed

end

interpretation mem: live_secret_adapter memory_adapter map_of "\<lambda>_. True"
  by unfold_locales
    (auto simp: memory_adapter_def mem_get_def mem_put_def mem_delete_def eff_simps dict_simps
      split: option.splits)

interpretation cmem: live_secret_adapter "cached_adapter memory_adapter"
  "\<lambda>c. map_of (c_inner c)" mem.cached_invar
  by (rule mem.cached_is_live)

interpretation mem: clocked_secret_adapter memory_adapter map_of "\<lambda>_. True" "\<lambda>_ s. s"
  by unfold_locales auto

interpretation cmem: clocked_secret_adapter "cached_adapter memory_adapter"
  "\<lambda>c. map_of (c_inner c)" mem.cached_invar cache_tick
  by unfold_locales (auto simp: cache_tick_def mem.cached_invar_def)

section \<open>Properties\<close>

lemma cached_init_invar: "mem.cached_invar (cached_init st ttl now)"
  by (simp add: mem.cached_invar_def cached_init_def)

text \<open>
  Claim C7. Read caching is transparent to requests that follow one another and all go through the
  cache: around any adapter that behaves as a map and answers every request (the locale
  \<open>live_secret_adapter\<close>, its laws spelled out as the hypothesis), whatever the TTL, the start
  time and the time that passes between requests, every sequence of reads, writes and deletes is
  answered by the cache exactly as the wrapped adapter alone would answer it.
\<close>

theorem cache_transparent:
  assumes "live_secret_adapter A contents invar" and "invar st"
  shows "run_ops (cached_adapter A) cache_tick xs (cached_init st ttl now) = run_ops A (\<lambda>_ s. s) xs st"
proof -
  let ?inv = "secret_adapter.cached_invar contents invar"
  have ad: "secret_adapter A contents invar" using assms(1) by (rule live_secret_adapter.axioms)
  have inner: "clocked_secret_adapter A contents invar (\<lambda>_ s. s)"
    using assms(1) by (simp add: clocked_secret_adapter_def clocked_secret_adapter_axioms_def)
  have cache: "clocked_secret_adapter (cached_adapter A) (\<lambda>c. contents (c_inner c)) ?inv cache_tick"
    using live_secret_adapter.cached_is_live [OF assms(1)]
    by (simp add: clocked_secret_adapter_def clocked_secret_adapter_axioms_def
        secret_adapter.cached_invar_def [OF ad] cache_tick_def)
  have "?inv (cached_init st ttl now)"
    using assms(2) by (simp add: secret_adapter.cached_invar_def [OF ad] cached_init_def)
  from clocked_secret_adapter.run_ops_spec [OF cache this]
    clocked_secret_adapter.run_ops_spec [OF inner assms(2)]
  show ?thesis by (simp add: cached_init_def)
qed

text \<open>
  The memory adapter satisfies the hypotheses; so does the cache around it, which is why caches may
  be stacked.
\<close>

theorem cache_transparent_witness:
  "run_ops (cached_adapter memory_adapter) cache_tick
     [(0, OpPut ''k'' ''v''), (1, OpGet ''k''), (2, OpGet ''k''), (100, OpDelete ''k''), (0, OpGet ''k'')]
     (cached_init [] 60 0) =
   [Done (Inr ()), Got (Inr ''v''), Got (Inr ''v''), Done (Inr ()), Got (Inl SecretNotFound)] \<and>
   run_ops (cached_adapter (cached_adapter memory_adapter)) cache_tick [(0, OpPut ''k'' ''v''), (1, OpGet ''k'')]
     (cached_init (cached_init [] 60 0) 5 0) =
   run_ops (cached_adapter memory_adapter) (\<lambda>_ s. s) [(0, OpPut ''k'' ''v''), (1, OpGet ''k'')] (cached_init [] 60 0)"
  unfolding cache_transparent [OF mem.live_secret_adapter_axioms TrueI]
    cache_transparent [OF cmem.live_secret_adapter_axioms cached_init_invar]
  by code_simp

end
