(* ===== verification/Cache_Race.thy ===== *)
theory Cache_Race
  imports Secrets
begin

text \<open>
  \<open>CachedAdapter\<close> under concurrent coroutines (\<open>shared/secrets/cache.py\<close>). The lock covers only
  the dictionary accesses: \<open>get\<close> fetches from the backend outside it, and \<open>put\<close> and \<open>delete\<close>
  change the backend before they take it. Each critical section and each backend call is one step
  of the relation \<open>cache_step\<close>, so every interleaving of the coroutines is a run.
\<close>

section \<open>Steps\<close>

text \<open>
  A \<open>get\<close> in flight is waiting for the backend or about to store what it fetched; a \<open>put\<close> or
  \<open>delete\<close> in flight has changed the backend and has yet to drop the cached key.
\<close>

datatype get_phase =
    Fetching string time time
  | Storing string time time string

record cache_sys =
  s_backend :: "string \<rightharpoonup> string"
  s_entries :: "string \<rightharpoonup> cache_entry"
  s_clock :: time
  s_gets :: "nat \<rightharpoonup> get_phase"
  s_writes :: "nat \<rightharpoonup> string"

definition served :: "cache_sys \<Rightarrow> string \<Rightarrow> string \<Rightarrow> bool" where
  "served s p v \<longleftrightarrow> (\<exists>e. s_entries s p = Some e \<and> ce_value e = v \<and> ce_expires_at e > s_clock s)"

definition quiescent :: "cache_sys \<Rightarrow> bool" where
  "quiescent s \<longleftrightarrow> s_gets s = Map.empty \<and> s_writes s = Map.empty"

inductive cache_step :: "time \<Rightarrow> cache_sys \<Rightarrow> cache_sys \<Rightarrow> bool" for T :: time where
  pass_time: "0 \<le> d \<Longrightarrow> cache_step T s (s\<lparr>s_clock := s_clock s + d\<rparr>)"
| get_miss: "s_gets s i = None \<Longrightarrow> \<nexists>v. served s p v \<Longrightarrow> ttl \<le> T \<Longrightarrow>
    cache_step T s (s\<lparr>s_gets := (s_gets s)(i \<mapsto> Fetching p (s_clock s) ttl)\<rparr>)"
| get_fetched: "s_gets s i = Some (Fetching p t ttl) \<Longrightarrow> s_backend s p = Some v \<Longrightarrow>
    cache_step T s (s\<lparr>s_gets := (s_gets s)(i \<mapsto> Storing p t ttl v)\<rparr>)"
| get_raised: "s_gets s i = Some (Fetching p t ttl) \<Longrightarrow>
    cache_step T s (s\<lparr>s_gets := (s_gets s)(i := None)\<rparr>)"
| get_stored: "s_gets s i = Some (Storing p t ttl v) \<Longrightarrow>
    cache_step T s (s\<lparr>s_gets := (s_gets s)(i := None),
      s_entries := (s_entries s)(p \<mapsto> \<lparr>ce_value = v, ce_expires_at = t + ttl\<rparr>)\<rparr>)"
| write_backend: "s_writes s j = None \<Longrightarrow>
    cache_step T s (s\<lparr>s_backend := (s_backend s)(p := w), s_writes := (s_writes s)(j \<mapsto> p)\<rparr>)"
| write_pop: "s_writes s j = Some p \<Longrightarrow>
    cache_step T s (s\<lparr>s_writes := (s_writes s)(j := None), s_entries := (s_entries s)(p := None)\<rparr>)"

definition cache_start :: "(string \<rightharpoonup> string) \<Rightarrow> time \<Rightarrow> cache_sys" where
  "cache_start b now = \<lparr>s_backend = b, s_entries = Map.empty, s_clock = now,
     s_gets = Map.empty, s_writes = Map.empty\<rparr>"

text \<open>The states of a run, the current one first.\<close>

inductive cache_run :: "time \<Rightarrow> cache_sys list \<Rightarrow> bool" for T :: time where
  run_start: "cache_run T [cache_start b now]"
| run_step: "cache_run T (s # h) \<Longrightarrow> cache_step T s t \<Longrightarrow> cache_run T (t # s # h)"

section \<open>Bounded staleness\<close>

text \<open>\<open>held u p v\<close>: the backend held \<open>v\<close> at \<open>p\<close> in state \<open>u\<close>.\<close>

abbreviation held :: "cache_sys \<Rightarrow> string \<Rightarrow> string \<Rightarrow> bool" where
  "held u p v \<equiv> s_backend u p = Some v"

definition fresh_in :: "time \<Rightarrow> cache_sys list \<Rightarrow> string \<Rightarrow> string \<Rightarrow> time \<Rightarrow> bool" where
  "fresh_in T h p v e \<longleftrightarrow> (\<exists>u \<in> set h. held u p v \<and> e \<le> s_clock u + T)"

definition phase_ok :: "time \<Rightarrow> cache_sys list \<Rightarrow> get_phase \<Rightarrow> bool" where
  "phase_ok T h g = (case g of
     Fetching p t ttl \<Rightarrow> t \<le> s_clock (hd h) \<and> ttl \<le> T
   | Storing p t ttl v \<Rightarrow> fresh_in T h p v (t + ttl))"

definition run_inv :: "time \<Rightarrow> cache_sys list \<Rightarrow> bool" where
  "run_inv T h \<longleftrightarrow>
     (\<forall>i g. s_gets (hd h) i = Some g \<longrightarrow> phase_ok T h g) \<and>
     (\<forall>p e. s_entries (hd h) p = Some e \<longrightarrow> fresh_in T h p (ce_value e) (ce_expires_at e))"

lemma fresh_in_mono: "fresh_in T h p v e \<Longrightarrow> fresh_in T (t # h) p v e"
  by (auto simp: fresh_in_def)

lemma cache_step_clock: "cache_step T s t \<Longrightarrow> s_clock s \<le> s_clock t"
  by (induction rule: cache_step.induct) auto

lemma phase_ok_mono:
  assumes "phase_ok T (s # h) g" and "s_clock s \<le> s_clock t"
  shows "phase_ok T (t # s # h) g"
  using assms by (auto simp: phase_ok_def fresh_in_mono split: get_phase.splits)

lemma run_inv_step:
  assumes step: "cache_step T s t" and inv: "run_inv T (s # h)"
  shows "run_inv T (t # s # h)"
proof -
  have keep: "phase_ok T (t # s # h) g" if "s_gets s i = Some g" for i g
    using inv that cache_step_clock [OF step] by (auto simp: run_inv_def intro: phase_ok_mono)
  have entry: "fresh_in T (t # s # h) p (ce_value e) (ce_expires_at e)" if "s_entries s p = Some e" for p e
    using inv that by (auto simp: run_inv_def intro: fresh_in_mono)
  from step keep entry show ?thesis
  proof (cases rule: cache_step.cases)
    case (get_fetched i p u ttl v)
    then have "phase_ok T (t # s # h) (Fetching p u ttl)" using keep by blast
    with get_fetched have "phase_ok T (t # s # h) (Storing p u ttl v)"
      by (auto simp: phase_ok_def fresh_in_def)
    with get_fetched keep entry show ?thesis by (auto simp: run_inv_def)
  next
    case (get_stored i p u ttl v)
    then have "fresh_in T (t # s # h) p v (u + ttl)" using keep by (fastforce simp: phase_ok_def)
    with get_stored keep entry show ?thesis by (auto simp: run_inv_def)
  qed (auto simp: run_inv_def phase_ok_def split: if_splits)
qed

lemma cache_run_inv: "cache_run T h \<Longrightarrow> run_inv T h"
proof (induction rule: cache_run.induct)
  case (run_start b now)
  then show ?case by (simp add: run_inv_def cache_start_def)
next
  case (run_step s h t)
  then show ?case by (blast intro: run_inv_step)
qed

text \<open>
  Claim C28. Staleness is bounded by the largest TTL in use, under every interleaving of reads,
  writes and deletes: a value the cache serves was held by the backend less than \<open>T\<close> time units
  ago.
\<close>

theorem cache_staleness_bounded:
  assumes "cache_run T (s # h)" and "served s p v"
  shows "\<exists>u \<in> set (s # h). held u p v \<and> s_clock s < s_clock u + T"
proof -
  from assms(2) obtain e where e: "s_entries s p = Some e" "ce_value e = v" "ce_expires_at e > s_clock s"
    by (auto simp: served_def)
  from cache_run_inv [OF assms(1)] e have "fresh_in T (s # h) p v (ce_expires_at e)"
    by (auto simp: run_inv_def)
  with e(3) show ?thesis by (force simp: fresh_in_def)
qed

text \<open>
  The interleaving in which a read fetches, a write then completes, and the read stores what it
  fetched before the write.
\<close>

lemma race_run:
  "\<exists>s h. cache_run default_ttl_seconds (s # h) \<and> quiescent s \<and>
     served s ''k'' ''old'' \<and> held s ''k'' ''new''"
proof -
  let ?T = default_ttl_seconds
  let ?s0 = "cache_start [''k'' \<mapsto> ''old''] 0"
  let ?s1 = "?s0\<lparr>s_gets := (s_gets ?s0)(0 \<mapsto> Fetching ''k'' (s_clock ?s0) ?T)\<rparr>"
  let ?s2 = "?s1\<lparr>s_gets := (s_gets ?s1)(0 \<mapsto> Storing ''k'' (s_clock ?s0) ?T ''old'')\<rparr>"
  let ?s3 = "?s2\<lparr>s_backend := (s_backend ?s2)(''k'' \<mapsto> ''new''), s_writes := (s_writes ?s2)(0 \<mapsto> ''k'')\<rparr>"
  let ?s4 = "?s3\<lparr>s_writes := (s_writes ?s3)(0 := None), s_entries := (s_entries ?s3)(''k'' := None)\<rparr>"
  let ?s5 = "?s4\<lparr>s_gets := (s_gets ?s4)(0 := None), s_entries := (s_entries ?s4)
    (''k'' \<mapsto> \<lparr>ce_value = ''old'', ce_expires_at = s_clock ?s0 + ?T\<rparr>)\<rparr>"
  note start = cache_start_def served_def
  have "cache_run ?T [?s0]" by (rule run_start)
  moreover have "cache_step ?T ?s0 ?s1" by (rule get_miss) (auto simp: start)
  moreover have "cache_step ?T ?s1 ?s2" by (rule get_fetched) (auto simp: start)
  moreover have "cache_step ?T ?s2 ?s3" by (rule write_backend) (auto simp: start)
  moreover have "cache_step ?T ?s3 ?s4" by (rule write_pop) (auto simp: start)
  moreover have "cache_step ?T ?s4 ?s5" by (rule get_stored) (auto simp: start)
  ultimately have "cache_run ?T [?s5, ?s4, ?s3, ?s2, ?s1, ?s0]"
    by (blast intro: run_step)
  moreover have "quiescent ?s5" by (simp add: quiescent_def cache_start_def fun_eq_iff)
  moreover have "served ?s5 ''k'' ''old''" by (simp add: start default_ttl_seconds_def)
  moreover have "held ?s5 ''k'' ''new''" by (simp add: cache_start_def)
  ultimately show ?thesis by blast
qed

theorem cache_staleness_bounded_witness:
  "\<exists>s h. cache_run default_ttl_seconds (s # h) \<and> served s ''k'' ''old'' \<and>
     (\<exists>u \<in> set (s # h). held u ''k'' ''old'' \<and> s_clock s < s_clock u + default_ttl_seconds)"
proof -
  obtain s h where r: "cache_run default_ttl_seconds (s # h)" and v: "served s ''k'' ''old''"
    using race_run by blast
  from cache_staleness_bounded [OF r v] r v show ?thesis by blast
qed

text \<open>
  The bound is all the cache gives: dropping the key after a write does not
  make later reads see the write. There is a run with the default TTL that ends with no request
  in flight, in which the backend holds the newly written value and the cache still serves the
  value from before the completed write.
\<close>

theorem cache_serves_overwritten_value:
  "\<exists>s h. cache_run default_ttl_seconds (s # h) \<and> quiescent s \<and>
     (\<exists>p v w. served s p v \<and> held s p w \<and> v \<noteq> w)"
  using race_run by fastforce

end
