(* ===== verification/Hash_Chain.thy ===== *)
theory Hash_Chain
  imports Prelude
begin

text \<open>
  The contract the audit record and the decision ledger share: every entry stores the
  hash of the entry before it and the hash of its own hashed part. The client lemmas are proved
  once: sealing extends a chain, and two chains with the same tip agree on every hashed part
  unless the hash collides.
\<close>

text \<open>
  \<open>core e\<close> is the part of an entry the hash covers and \<open>H\<close> the hash of it; \<open>seal p e\<close> is the
  entry linked to the previous hash \<open>p\<close> with its own hash filled in.
\<close>

locale hash_chain =
  fixes core :: "'e \<Rightarrow> 'c"
    and prev_of :: "'e \<Rightarrow> 'h option"
    and hash_of :: "'e \<Rightarrow> 'h option"
    and H :: "'c \<Rightarrow> 'h"
    and seal :: "'h option \<Rightarrow> 'e \<Rightarrow> 'e"
  assumes prev_core: "core e = core e' \<Longrightarrow> prev_of e = prev_of e'"
    and prev_seal: "prev_of (seal p e) = p"
    and hash_seal: "hash_of (seal p e) = Some (H (core (seal p e)))"
begin

fun links :: "'h option \<Rightarrow> 'e list \<Rightarrow> bool" where
  "links p [] = True"
| "links p (e # es) = (prev_of e = p \<and> hash_of e = Some (H (core e)) \<and> links (hash_of e) es)"

definition tip :: "'h option \<Rightarrow> 'e list \<Rightarrow> 'h option" where
  "tip p es = (if es = [] then p else hash_of (last es))"

fun seal_all :: "'h option \<Rightarrow> 'e list \<Rightarrow> 'e list" where
  "seal_all p [] = []"
| "seal_all p (e # es) = seal p e # seal_all (hash_of (seal p e)) es"

lemma tip_Nil [simp]: "tip p [] = p"
  and tip_snoc [simp]: "tip p (es @ [e]) = hash_of e"
  by (simp_all add: tip_def)

lemma tip_Cons: "tip p (e # es) = tip (hash_of e) es"
  by (simp add: tip_def)

lemma links_append: "links p (es @ fs) \<longleftrightarrow> links p es \<and> links (tip p es) fs"
  by (induction p es rule: links.induct) (auto simp: tip_Cons)

lemma links_snoc_seal: "links p es \<Longrightarrow> links p (es @ [seal (tip p es) e])"
  by (simp add: links_append prev_seal hash_seal)

lemma seal_all_snoc: "seal_all p (es @ [e]) = seal_all p es @ [seal (tip p (seal_all p es)) e]"
  by (induction p es rule: seal_all.induct) (auto simp: tip_Cons)

lemma links_seal_all: "links p (seal_all p es)"
  by (induction p es rule: seal_all.induct) (auto simp: prev_seal hash_seal)

lemma length_seal_all [simp]: "length (seal_all p es) = length es"
  by (induction p es rule: seal_all.induct) auto

lemma seal_all_Nil_iff [simp]: "seal_all p es = [] \<longleftrightarrow> es = []"
  by (cases es) auto

lemma links_lastD:
  assumes "links p (es @ [e])"
  shows "links p es" and "prev_of e = tip p es" and "hash_of e = Some (H (core e))"
  using assms by (auto simp: links_append)

text \<open>Tamper evidence: a chain is determined by its tip, up to collisions of the hash.\<close>

lemma chain_determined:
  assumes "links None es" and "links None fs" and "tip None es = tip None fs"
    and "inj_on H (core ` (set es \<union> set fs))"
  shows "map core es = map core fs"
  using assms
proof (induction es arbitrary: fs rule: rev_induct)
  case Nil
  then show ?case by (cases fs rule: rev_cases) (auto dest: links_lastD)
next
  case (snoc e es)
  show ?case
  proof (cases fs rule: rev_cases)
    case Nil
    with snoc.prems show ?thesis by (auto dest: links_lastD)
  next
    case (snoc fs' f)
    note e = links_lastD [OF snoc.prems(1)]
    note f = links_lastD [OF snoc.prems(2) [unfolded \<open>fs = fs' @ [f]\<close>]]
    from snoc.prems(3) e(3) f(3) snoc have "H (core e) = H (core f)" by simp
    moreover have "core e \<in> core ` (set (es @ [e]) \<union> set fs)"
      and "core f \<in> core ` (set (es @ [e]) \<union> set fs)"
      using snoc by auto
    ultimately have ef: "core e = core f"
      using snoc.prems(4) by (rule inj_onD [rotated])
    with e f have "tip None es = tip None fs'" using prev_core by metis
    moreover have "inj_on H (core ` (set es \<union> set fs'))"
      using snoc.prems(4) snoc by (auto intro: inj_on_subset)
    ultimately have "map core es = map core fs'" using snoc.IH e f by blast
    with ef snoc show ?thesis by simp
  qed
qed

end

end
