(* ===== verification/Decision_Ledger.thy ===== *)
theory Decision_Ledger
  imports Hash_Chain
begin

text \<open>
  \<open>shared/audit/decision_ledger.py\<close> and the writers around it in
  \<open>shared/audit/decision_ledger_io.py\<close>: the promotion gate, the ledger entry, and the append-only
  JSONL file of one \<open>(project_id, run_id)\<close> pair as the characters it holds. Serialisation
  (Pydantic, \<open>json\<close>) and SHA-256 are the parameters collected in \<open>ledger_codec\<close>; what the
  ledger relies on of them is the predicate \<open>codec_ok\<close>, stated for the entries at hand.
\<close>

section \<open>Data\<close>

datatype decision_mark = Accept | Watch | Reject | Decay | Replay
datatype promotion_verdict = Allowed | Denied
datatype work_item_tier = Paper | Preview | Internal | Production | Destructive
datatype gate_reason = Freshness_stale | Replay_failed | Operator_not_confirmed

text \<open>A score is kept as the number literal it serialises to; the ledger never interprets it.\<close>

record candidate =
  cd_candidate_id :: string
  cd_mark :: decision_mark
  cd_score :: "string option"
  cd_rationale :: "string option"

record coherence_mark =
  cm_ensemble_matches_prior_winner :: "bool option"
  cm_recursive_matches_prior_winner :: "bool option"
  cm_latest_rollout_match :: "bool option"
  cm_drift_detected :: bool
  cm_notes :: "string option"

record promotion_gate =
  pg_verdict :: promotion_verdict
  pg_tier :: work_item_tier
  pg_freshness_passed :: bool
  pg_replay_passed :: bool
  pg_operator_confirmed :: bool
  pg_reasons :: "gate_reason list"

record ledger_entry =
  le_entry_id :: uuid
  le_project_id :: string
  le_run_id :: string
  le_actor :: string
  le_rollout_index :: nat
  le_ts :: time
  le_fresh_evidence :: "string list"
  le_search_space_size :: "int option"
  le_trial_count :: nat
  le_effective_trial_count :: "int option"
  le_candidates :: "candidate list"
  le_prior_accepted_winner :: "string option"
  le_prior_watchlist :: "string list"
  le_coherence :: coherence_mark
  le_promotion_gate :: promotion_gate
  le_prev_hash :: "string option"
  le_content_hash :: "string option"

section \<open>The promotion gate\<close>

definition gate_reasons :: "work_item_tier \<Rightarrow> bool \<Rightarrow> bool \<Rightarrow> bool \<Rightarrow> gate_reason list" where
  "gate_reasons tier freshness_passed replay_passed operator_confirmed = (case tier of
     Paper \<Rightarrow> []
   | Preview \<Rightarrow> []
   | Internal \<Rightarrow> (if \<not> freshness_passed then [Freshness_stale] else [])
   | Production \<Rightarrow> (if \<not> freshness_passed then [Freshness_stale] else []) @
                   (if \<not> replay_passed then [Replay_failed] else [])
   | Destructive \<Rightarrow> (if \<not> freshness_passed then [Freshness_stale] else []) @
                    (if \<not> replay_passed then [Replay_failed] else []) @
                    (if \<not> operator_confirmed then [Operator_not_confirmed] else []))"

definition evaluate :: "work_item_tier \<Rightarrow> bool \<Rightarrow> bool \<Rightarrow> bool \<Rightarrow> promotion_gate" where
  "evaluate tier freshness_passed replay_passed operator_confirmed =
     (let reasons = gate_reasons tier freshness_passed replay_passed operator_confirmed in
      \<lparr>pg_verdict = (if reasons = [] then Allowed else Denied), pg_tier = tier,
       pg_freshness_passed = freshness_passed, pg_replay_passed = replay_passed,
       pg_operator_confirmed = operator_confirmed, pg_reasons = reasons\<rparr>)"

section \<open>Serialisation parameters\<close>

text \<open>
  \<open>lc_dump\<close> is \<open>_canon_json(entry.model_dump(mode="json"))\<close>, \<open>lc_dump_body\<close> the same with the
  field \<open>content_hash\<close> left out, \<open>lc_validate\<close> is \<open>LedgerEntry.model_validate_json\<close>, \<open>lc_peek\<close> is
  \<open>json.loads\<close> followed by \<open>.get("content_hash")\<close>, and \<open>lc_sha\<close> the hex SHA-256.
\<close>

datatype json_peek = Peek_decode_error | Peek_not_object | Peek_hash "string option"

record ledger_codec =
  lc_dump :: "ledger_entry \<Rightarrow> string"
  lc_dump_body :: "ledger_entry \<Rightarrow> string"
  lc_validate :: "string \<Rightarrow> ledger_entry option"
  lc_peek :: "string \<Rightarrow> json_peek"
  lc_sha :: "string \<Rightarrow> string"

section \<open>Lines of a file\<close>

abbreviation LF :: char where "LF \<equiv> CHR 0x0A"
abbreviation CR :: char where "CR \<equiv> CHR 0x0D"

definition drop_lf :: "string \<Rightarrow> string" where
  "drop_lf cs = (case cs of [] \<Rightarrow> [] | d # ds \<Rightarrow> if d = LF then ds else cs)"

lemma length_drop_lf [termination_simp]: "length (drop_lf cs) \<le> length cs"
  by (auto simp: drop_lf_def split: list.split)

lemma length_drop_lf_less [termination_simp]: "length (drop_lf cs) < Suc (length cs)"
  using length_drop_lf [of cs] by simp

text \<open>
  \<open>bytes.splitlines()\<close>, and also how a file in text mode is cut into lines: at a line feed, a
  carriage return, or the two together.
\<close>

fun lines_aux :: "string \<Rightarrow> string \<Rightarrow> string list" where
  "lines_aux acc [] = (if acc = [] then [] else [rev acc])"
| "lines_aux acc (c # cs) =
     (if c = LF then rev acc # lines_aux [] cs
      else if c = CR then rev acc # lines_aux [] (drop_lf cs)
      else lines_aux (c # acc) cs)"

definition splitlines :: "string \<Rightarrow> string list" where
  "splitlines s = lines_aux [] s"

section \<open>The ledger file\<close>

text \<open>The content of the JSONL file, \<open>None\<close> while the file does not exist.\<close>

type_synonym ledger_file = "string option"

record decision_ledger =
  dl_project_id :: string
  dl_run_id :: string

datatype ledger_error =
    Project_id_required | Run_id_required
  | Project_mismatch | Run_mismatch | No_candidates
  | Attribute_error | Validation_error

definition decision_ledger_init :: "string \<Rightarrow> string \<Rightarrow> (ledger_error, decision_ledger) res" where
  "decision_ledger_init project_id run_id =
     (if project_id = [] then Inl Project_id_required
      else if run_id = [] then Inl Run_id_required
      else Inr \<lparr>dl_project_id = project_id, dl_run_id = run_id\<rparr>)"

definition compute_content_hash :: "ledger_codec \<Rightarrow> ledger_entry \<Rightarrow> string" where
  "compute_content_hash L e = lc_sha L (lc_dump_body L (e\<lparr>le_content_hash := None\<rparr>))"

definition tail_window :: "string \<Rightarrow> string" where
  "tail_window content =
     (if length content < 4096 then content else drop (length content - 4096) content)"

definition bytes_blank :: "string \<Rightarrow> bool" where
  "bytes_blank s = list_all (\<lambda>c. let n = (of_char c :: nat) in (9 \<le> n \<and> n \<le> 13) \<or> n = 32) s"

text \<open>The loop of \<open>_last_hash_locked\<close> over the reversed lines, with its variable \<open>last\<close>.\<close>

fun scan_last :: "ledger_codec \<Rightarrow> string option \<Rightarrow> string list \<Rightarrow> (ledger_error, string option) res" where
  "scan_last L last_h [] = Inr last_h"
| "scan_last L last_h (line # rest) =
     (if bytes_blank line then scan_last L last_h rest
      else case lc_peek L line of
        Peek_decode_error \<Rightarrow> scan_last L last_h rest
      | Peek_not_object \<Rightarrow> Inl Attribute_error
      | Peek_hash h \<Rightarrow> (case h of
          Some (c # cs) \<Rightarrow> Inr (Some (c # cs))
        | _ \<Rightarrow> scan_last L h rest))"

definition last_hash_locked :: "ledger_codec \<Rightarrow> ledger_file \<Rightarrow> (ledger_error, string option) res" where
  "last_hash_locked L f = (case f of
     None \<Rightarrow> Inr None
   | Some content \<Rightarrow> scan_last L None (rev (splitlines (tail_window content))))"

definition link_entry :: "ledger_codec \<Rightarrow> string option \<Rightarrow> ledger_entry \<Rightarrow> ledger_entry" where
  "link_entry L prev_hash e =
     (let chained = e\<lparr>le_prev_hash := prev_hash\<rparr> in
      chained\<lparr>le_content_hash := Some (compute_content_hash L chained)\<rparr>)"

definition append_entry :: "ledger_codec \<Rightarrow> decision_ledger \<Rightarrow> ledger_entry \<Rightarrow>
    (ledger_file, ledger_error, ledger_entry) eff" where
  "append_entry L d e =
     ebind (eguard (le_project_id e = dl_project_id d) Project_mismatch) (\<lambda>_.
     ebind (eguard (le_run_id e = dl_run_id d) Run_mismatch) (\<lambda>_.
     ebind (eguard (le_candidates e \<noteq> []) No_candidates) (\<lambda>_.
     ebind (\<lambda>f. (last_hash_locked L f, f)) (\<lambda>prev_hash.
     let final = link_entry L prev_hash e in
     ebind (ewrite (\<lambda>f. Some ((case f of None \<Rightarrow> [] | Some content \<Rightarrow> content) @
              lc_dump L final @ [LF]))) (\<lambda>_.
     ereturn final)))))"

definition parse_line :: "ledger_codec \<Rightarrow> string \<Rightarrow> (ledger_error, ledger_entry) res" where
  "parse_line L line = (case lc_validate L line of None \<Rightarrow> Inl Validation_error | Some e \<Rightarrow> Inr e)"

definition entry_lines :: "ledger_file \<Rightarrow> string list" where
  "entry_lines f = (case f of
     None \<Rightarrow> []
   | Some content \<Rightarrow> filter (\<lambda>l. l \<noteq> []) (map py_strip (splitlines content)))"

text \<open>
  \<open>iter_entries\<close> is a generator; \<open>list(iter_entries())\<close> is the model below, and \<open>verify_chain\<close>
  consumes it one entry at a time, so a line after the first fault is never parsed.
\<close>

definition iter_entries :: "ledger_codec \<Rightarrow> ledger_file \<Rightarrow> (ledger_error, ledger_entry list) res" where
  "iter_entries L f = rmap (parse_line L) (entry_lines f)"

definition ledger_tail :: "ledger_codec \<Rightarrow> int \<Rightarrow> ledger_file \<Rightarrow> (ledger_error, ledger_entry list) res" where
  "ledger_tail L n f =
     (if n \<le> 0 then Inr []
      else rbind (iter_entries L f) (\<lambda>es. Inr (drop (length es - nat n) es)))"

datatype chain_fault = Prev_hash_mismatch nat | Content_hash_mismatch nat

fun walk_chain :: "ledger_codec \<Rightarrow> nat \<Rightarrow> string option \<Rightarrow> string list \<Rightarrow>
    (ledger_error, bool \<times> chain_fault option) res" where
  "walk_chain L idx prev_hash [] = Inr (True, None)"
| "walk_chain L idx prev_hash (l # ls) = rbind (parse_line L l) (\<lambda>e.
     if le_prev_hash e \<noteq> prev_hash then Inr (False, Some (Prev_hash_mismatch idx))
     else if le_content_hash e \<noteq> Some (compute_content_hash L e)
       then Inr (False, Some (Content_hash_mismatch idx))
     else walk_chain L (Suc idx) (le_content_hash e) ls)"

definition verify_chain :: "ledger_codec \<Rightarrow> ledger_file \<Rightarrow> (ledger_error, bool \<times> chain_fault option) res" where
  "verify_chain L f = walk_chain L 0 None (entry_lines f)"

text \<open>The appends of one writer, in order; the first that raises stops it.\<close>

fun append_all :: "ledger_codec \<Rightarrow> decision_ledger \<Rightarrow> ledger_entry list \<Rightarrow>
    (ledger_file, ledger_error, ledger_entry list) eff" where
  "append_all L d [] = ereturn []"
| "append_all L d (e # es) =
     ebind (append_entry L d e) (\<lambda>x. ebind (append_all L d es) (\<lambda>xs. ereturn (x # xs)))"

section \<open>Recording and reading promotion decisions\<close>

record safe_promotion_inputs =
  sp_project_id :: string
  sp_run_id :: string
  sp_role :: string
  sp_rollout_index :: nat
  sp_tier :: work_item_tier
  sp_freshness_passed :: bool
  sp_replay_passed :: bool
  sp_operator_confirmed :: bool
  sp_candidates :: "candidate list"
  sp_prior_winner :: "string option"
  sp_fresh_evidence :: "string list"

definition make_candidate :: "string \<Rightarrow> decision_mark \<Rightarrow> string option \<Rightarrow> string option \<Rightarrow> candidate" where
  "make_candidate cid mark rationale score =
     \<lparr>cd_candidate_id = cid, cd_mark = mark, cd_score = score, cd_rationale = rationale\<rparr>"

definition default_coherence :: coherence_mark where
  "default_coherence =
     \<lparr>cm_ensemble_matches_prior_winner = None, cm_recursive_matches_prior_winner = None,
      cm_latest_rollout_match = None, cm_drift_detected = False, cm_notes = None\<rparr>"

definition promotion_candidates :: "safe_promotion_inputs \<Rightarrow> candidate list" where
  "promotion_candidates i =
     (if sp_candidates i = []
      then [make_candidate (sp_role i @ '':rollout-'' @ str_nat (sp_rollout_index i)) Accept
              (Some (sp_role i @ '' rollout outcome recorded'')) None]
      else sp_candidates i)"

definition promotion_entry :: "uuid \<Rightarrow> time \<Rightarrow> safe_promotion_inputs \<Rightarrow> ledger_entry" where
  "promotion_entry entry_id now i =
     \<lparr>le_entry_id = entry_id, le_project_id = sp_project_id i, le_run_id = sp_run_id i,
      le_actor = sp_role i, le_rollout_index = sp_rollout_index i, le_ts = now,
      le_fresh_evidence = sp_fresh_evidence i, le_search_space_size = None, le_trial_count = 1,
      le_effective_trial_count = None, le_candidates = promotion_candidates i,
      le_prior_accepted_winner = sp_prior_winner i, le_prior_watchlist = [],
      le_coherence = default_coherence,
      le_promotion_gate = evaluate (sp_tier i) (sp_freshness_passed i) (sp_replay_passed i)
        (sp_operator_confirmed i),
      le_prev_hash = None, le_content_hash = None\<rparr>"

text \<open>
  Every exception of the write path is caught: the caller sees \<open>None\<close> and the file is as the
  failed append left it. \<open>entry_id\<close> and \<open>now\<close> are what \<open>uuid4()\<close> and the clock give.
\<close>

definition append_promotion_decision :: "ledger_codec \<Rightarrow> uuid \<Rightarrow> time \<Rightarrow> safe_promotion_inputs \<Rightarrow>
    ledger_file \<Rightarrow> ledger_entry option \<times> ledger_file" where
  "append_promotion_decision L entry_id now i f =
     (case decision_ledger_init (sp_project_id i) (sp_run_id i) of
        Inl _ \<Rightarrow> (None, f)
      | Inr d \<Rightarrow>
          if sp_role i = [] then (None, f)
          else case append_entry L d (promotion_entry entry_id now i) f of
            (Inl _, f') \<Rightarrow> (None, f')
          | (Inr e, f') \<Rightarrow> (Some e, f'))"

text \<open>A project directory: its run files with their modification times, in directory order.\<close>

record run_file =
  rf_run_id :: string
  rf_mtime :: time
  rf_content :: string

definition latest_promotion_verdict :: "ledger_codec \<Rightarrow> string \<Rightarrow> run_file list option \<Rightarrow>
    (ledger_error, (promotion_verdict \<times> gate_reason list) option) res" where
  "latest_promotion_verdict L project_id dir = (case dir of
     None \<Rightarrow> Inr None
   | Some files \<Rightarrow> (case sort_key (\<lambda>r. - rf_mtime r) files of
       [] \<Rightarrow> Inr None
     | r # _ \<Rightarrow> (case decision_ledger_init project_id (rf_run_id r) of
         Inl _ \<Rightarrow> Inr None
       | Inr _ \<Rightarrow> rbind (ledger_tail L 1 (Some (rf_content r))) (\<lambda>es. Inr (case es of
           [] \<Rightarrow> None
         | e # _ \<Rightarrow> Some (pg_verdict (le_promotion_gate e), pg_reasons (le_promotion_gate e)))))))"

section \<open>Lemmas on lines\<close>

definition file_of :: "string list \<Rightarrow> string" where
  "file_of ls = concat (map (\<lambda>l. l @ [LF]) ls)"

definition clean_line :: "string \<Rightarrow> bool" where
  "clean_line l \<longleftrightarrow> l \<noteq> [] \<and> hd l = CHR ''{'' \<and> last l = CHR ''}'' \<and> LF \<notin> set l \<and> CR \<notin> set l"

lemma file_of_simps [simp]:
  "file_of [] = []" "file_of (l # ls) = l @ LF # file_of ls" "file_of (ls @ ms) = file_of ls @ file_of ms"
  by (simp_all add: file_of_def)

lemma file_of_last: "ls \<noteq> [] \<Longrightarrow> file_of ls \<noteq> [] \<and> last (file_of ls) = LF"
  by (cases ls rule: rev_cases) auto

lemma lines_aux_clean:
  "LF \<notin> set l \<Longrightarrow> CR \<notin> set l \<Longrightarrow> lines_aux acc (l @ LF # r) = (rev acc @ l) # lines_aux [] r"
  by (induction l arbitrary: acc) auto

lemma splitlines_file_of: "\<forall>l \<in> set ls. clean_line l \<Longrightarrow> splitlines (file_of ls) = ls"
  unfolding splitlines_def by (induction ls) (auto simp: lines_aux_clean clean_line_def)

lemma drop_lf_append: "cs \<noteq> [] \<Longrightarrow> drop_lf (cs @ t) = drop_lf cs @ t"
  by (cases cs) (auto simp: drop_lf_def)

lemma lines_aux_append:
  "s = [] \<and> acc = [] \<or> s \<noteq> [] \<and> last s = LF \<Longrightarrow>
     lines_aux acc (s @ t) = lines_aux acc s @ lines_aux [] t"
proof (induction acc s rule: lines_aux.induct)
  case (1 acc)
  then show ?case by simp
next
  case (2 acc c cs)
  show ?case
  proof (cases "c = LF")
    case True
    with 2 show ?thesis by (cases "cs = []") auto
  next
    case False
    with "2.prems" have cs: "cs \<noteq> []" "last cs = LF" by (auto split: if_splits)
    then have "drop_lf cs = [] \<or> drop_lf cs \<noteq> [] \<and> last (drop_lf cs) = LF"
      by (cases cs) (auto simp: drop_lf_def split: if_splits)
    with False 2 cs show ?thesis by (auto simp: drop_lf_append)
  qed
qed

lemma splitlines_snoc:
  assumes "s = [] \<or> last s = LF" and "clean_line l"
  shows "splitlines (s @ l @ [LF]) = splitlines s @ [l]"
proof -
  have "splitlines (s @ (l @ [LF])) = splitlines s @ splitlines (l @ [LF])"
    unfolding splitlines_def using assms(1) by (intro lines_aux_append) auto
  with assms(2) show ?thesis by (simp add: splitlines_def clean_line_def lines_aux_clean)
qed

lemma clean_not_blank: "clean_line l \<Longrightarrow> \<not> bytes_blank l"
  by (cases l) (auto simp: clean_line_def bytes_blank_def)

lemma clean_strip: "clean_line l \<Longrightarrow> py_strip l = l"
  by (rule py_strip_id) (auto simp: clean_line_def no_edge_space_def py_space_def)

lemma entry_lines_file_of: "\<forall>l \<in> set ls. clean_line l \<Longrightarrow> entry_lines (Some (file_of ls)) = ls"
proof -
  assume "\<forall>l \<in> set ls. clean_line l"
  then have "filter (\<lambda>l. l \<noteq> []) (map py_strip ls) = ls"
    by (induction ls) (auto simp: clean_strip clean_line_def)
  with \<open>\<forall>l \<in> set ls. clean_line l\<close> show ?thesis by (simp add: entry_lines_def splitlines_file_of)
qed

section \<open>The ledger is a hash chain\<close>

abbreviation entry_core :: "ledger_entry \<Rightarrow> ledger_entry" where
  "entry_core e \<equiv> e\<lparr>le_content_hash := None\<rparr>"

interpretation dl: hash_chain entry_core le_prev_hash le_content_hash
  "\<lambda>c. lc_sha L (lc_dump_body L c)" "link_entry L" for L
proof (unfold_locales, goal_cases)
  case (1 e e')
  then show ?case by (metis ledger_entry.ext_inject ledger_entry.surjective ledger_entry.update_convs(17))
next
  case (2 p e)
  then show ?case by (simp add: link_entry_def Let_def)
next
  case (3 p e)
  then show ?case by (simp add: link_entry_def compute_content_hash_def Let_def)
qed

text \<open>
  What the ledger relies on of its serialisers, for a set of entries: an entry is
  written as one line that looks like a JSON object, it is read back as itself, and the
  \<open>content_hash\<close> key of that line is the entry's; a SHA-256 hex digest is never empty.
\<close>

definition codec_ok :: "ledger_codec \<Rightarrow> ledger_entry set \<Rightarrow> bool" where
  "codec_ok L E \<longleftrightarrow>
     (\<forall>e \<in> E. clean_line (lc_dump L e) \<and> lc_validate L (lc_dump L e) = Some e \<and>
        lc_peek L (lc_dump L e) = Peek_hash (le_content_hash e)) \<and>
     (\<forall>x. lc_sha L x \<noteq> [])"

definition fits_window :: "ledger_codec \<Rightarrow> ledger_entry \<Rightarrow> bool" where
  "fits_window L e \<longleftrightarrow> length (lc_dump L e) < 4096"

definition ledger_repr :: "ledger_codec \<Rightarrow> ledger_entry list \<Rightarrow> ledger_file" where
  "ledger_repr L xs = (if xs = [] then None else Some (file_of (map (lc_dump L) xs)))"

definition appendable :: "decision_ledger \<Rightarrow> ledger_entry \<Rightarrow> bool" where
  "appendable d e \<longleftrightarrow>
     le_project_id e = dl_project_id d \<and> le_run_id e = dl_run_id d \<and> le_candidates e \<noteq> []"

lemma codec_ok_mono: "codec_ok L E \<Longrightarrow> F \<subseteq> E \<Longrightarrow> codec_ok L F"
  by (auto simp: codec_ok_def)

lemma tail_window_snoc:
  assumes "length l < 4096" and "f = [] \<or> last f = LF"
  obtains s where "tail_window (f @ l @ [LF]) = s @ l @ [LF]" and "s = [] \<or> last s = LF"
proof (cases "length (f @ l @ [LF]) < 4096")
  case True
  with assms(2) that show ?thesis by (simp add: tail_window_def)
next
  case False
  let ?k = "length (f @ l @ [LF]) - 4096"
  have "tail_window (f @ l @ [LF]) = drop ?k f @ l @ [LF]"
    using False assms(1) by (simp add: tail_window_def)
  moreover have "drop ?k f = [] \<or> last (drop ?k f) = LF"
    using assms(2) by (cases "?k < length f") (auto simp: last_drop)
  ultimately show ?thesis by (rule that)
qed

lemma last_hash_repr:
  assumes ok: "codec_ok L (set xs)" and fit: "\<forall>x \<in> set xs. fits_window L x"
    and links: "dl.links L None xs"
  shows "last_hash_locked L (ledger_repr L xs) = Inr (dl.tip None xs)"
proof (cases xs rule: rev_cases)
  case Nil
  then show ?thesis by (simp add: last_hash_locked_def ledger_repr_def)
next
  case (snoc ys e)
  let ?f = "file_of (map (lc_dump L) ys)"
  let ?l = "lc_dump L e"
  have l: "clean_line ?l" "lc_peek L ?l = Peek_hash (le_content_hash e)" "length ?l < 4096"
    using ok fit snoc by (auto simp: codec_ok_def fits_window_def)
  have "?f = [] \<or> last ?f = LF" using file_of_last [of "map (lc_dump L) ys"] by (cases "ys = []") auto
  then obtain s where s: "tail_window (?f @ ?l @ [LF]) = s @ ?l @ [LF]" "s = [] \<or> last s = LF"
    using tail_window_snoc [OF l(3)] by blast
  have "splitlines (s @ ?l @ [LF]) = splitlines s @ [?l]" by (rule splitlines_snoc [OF s(2) l(1)])
  moreover have "le_content_hash e = Some (lc_sha L (lc_dump_body L (entry_core e)))"
    using dl.links_lastD(3) [of L None ys e] links snoc by simp
  then obtain c cs where "le_content_hash e = Some (c # cs)"
    using ok by (cases "lc_sha L (lc_dump_body L (entry_core e))") (auto simp: codec_ok_def)
  ultimately show ?thesis
    using snoc s l by (simp add: last_hash_locked_def ledger_repr_def clean_not_blank)
qed

lemma append_entry_repr:
  assumes ok: "codec_ok L (set xs)" and fit: "\<forall>x \<in> set xs. fits_window L x"
    and links: "dl.links L None xs" and e: "appendable d e"
  shows "append_entry L d e (ledger_repr L xs) =
    (Inr (link_entry L (dl.tip None xs) e), ledger_repr L (xs @ [link_entry L (dl.tip None xs) e]))"
  using last_hash_repr [OF ok fit links] e
  by (cases "xs = []")
    (simp_all add: append_entry_def appendable_def eff_simps ledger_repr_def Let_def)

lemma append_all_repr:
  assumes "codec_ok L (set (xs @ dl.seal_all L (dl.tip None xs) es))"
    and "\<forall>x \<in> set (xs @ dl.seal_all L (dl.tip None xs) es). fits_window L x"
    and "dl.links L None xs" and "\<forall>e \<in> set es. appendable d e"
  shows "append_all L d es (ledger_repr L xs) =
    (Inr (dl.seal_all L (dl.tip None xs) es), ledger_repr L (xs @ dl.seal_all L (dl.tip None xs) es))"
  using assms
proof (induction es arbitrary: xs)
  case Nil
  then show ?case by (simp add: eff_simps)
next
  case (Cons e es)
  let ?x = "link_entry L (dl.tip None xs) e"
  have step: "append_entry L d e (ledger_repr L xs) = (Inr ?x, ledger_repr L (xs @ [?x]))"
    using Cons.prems by (intro append_entry_repr) (auto intro: codec_ok_mono)
  have links: "dl.links L None (xs @ [?x])"
    using Cons.prems(3) by (rule dl.links_snoc_seal)
  have "append_all L d es (ledger_repr L (xs @ [?x])) =
      (Inr (dl.seal_all L (dl.tip None (xs @ [?x])) es),
       ledger_repr L ((xs @ [?x]) @ dl.seal_all L (dl.tip None (xs @ [?x])) es))"
    using Cons.prems links by (intro Cons.IH) auto
  with step show ?case by (simp add: eff_simps)
qed

lemma walk_chain_links:
  assumes "codec_ok L (set xs)" and "dl.links L p xs"
  shows "walk_chain L i p (map (lc_dump L) xs) = Inr (True, None)"
  using assms
proof (induction xs arbitrary: i p)
  case Nil
  then show ?case by simp
next
  case (Cons x xs)
  then have "walk_chain L (Suc i) (le_content_hash x) (map (lc_dump L) xs) = Inr (True, None)"
    by (intro Cons.IH) (auto intro: codec_ok_mono)
  with Cons.prems show ?case
    by (simp add: codec_ok_def parse_line_def compute_content_hash_def)
qed

lemma walk_chain_true_links:
  "walk_chain L i p ls = Inr (True, None) \<Longrightarrow>
     \<exists>xs. rmap (parse_line L) ls = Inr xs \<and> dl.links L p xs"
  by (induction ls arbitrary: i p)
    (force simp: rbind_eq_Inr compute_content_hash_def split: if_splits)+

lemma entry_lines_repr:
  "codec_ok L (set xs) \<Longrightarrow> entry_lines (ledger_repr L xs) = map (lc_dump L) xs"
  by (auto simp: ledger_repr_def entry_lines_def [of None] codec_ok_def intro!: entry_lines_file_of)

lemma iter_entries_repr: "codec_ok L (set xs) \<Longrightarrow> iter_entries L (ledger_repr L xs) = Inr xs"
proof -
  assume ok: "codec_ok L (set xs)"
  then have "rmap (parse_line L) (map (lc_dump L) xs) = Inr xs"
    by (induction xs) (auto simp: codec_ok_def parse_line_def)
  with ok show ?thesis by (simp add: iter_entries_def entry_lines_repr)
qed

section \<open>What each tier asks for\<close>

definition required_checks :: "work_item_tier \<Rightarrow> gate_reason set" where
  "required_checks tier = (case tier of
     Paper \<Rightarrow> {} | Preview \<Rightarrow> {}
   | Internal \<Rightarrow> {Freshness_stale}
   | Production \<Rightarrow> {Freshness_stale, Replay_failed}
   | Destructive \<Rightarrow> {Freshness_stale, Replay_failed, Operator_not_confirmed})"

definition failed_checks :: "bool \<Rightarrow> bool \<Rightarrow> bool \<Rightarrow> gate_reason set" where
  "failed_checks fr rp oc = {r. case r of Freshness_stale \<Rightarrow> \<not> fr | Replay_failed \<Rightarrow> \<not> rp
     | Operator_not_confirmed \<Rightarrow> \<not> oc}"

section \<open>A small concrete codec\<close>

text \<open>
  Two entries and a codec on which the hypotheses of the theorems hold: an entry is written as
  padding and its content hash in braces, and read back by looking its line up.
\<close>

definition demo_entry :: "nat \<Rightarrow> ledger_entry" where
  "demo_entry n = promotion_entry (int n) 0
     \<lparr>sp_project_id = ''p'', sp_run_id = ''r'', sp_role = ''build'', sp_rollout_index = n,
      sp_tier = Internal, sp_freshness_passed = True, sp_replay_passed = False,
      sp_operator_confirmed = False, sp_candidates = [], sp_prior_winner = None,
      sp_fresh_evidence = []\<rparr>"

definition demo_ledger :: decision_ledger where
  "demo_ledger = \<lparr>dl_project_id = ''p'', dl_run_id = ''r''\<rparr>"

definition demo_body :: "ledger_entry \<Rightarrow> string" where
  "demo_body e = (if le_rollout_index e = 0 then ''a'' else ''b'') @
     (case le_prev_hash e of None \<Rightarrow> ''-'' | Some h \<Rightarrow> h)"

definition demo_dump :: "nat \<Rightarrow> ledger_entry \<Rightarrow> string" where
  "demo_dump pad e = ''{'' @ replicate pad CHR ''x'' @
     (case le_content_hash e of None \<Rightarrow> [] | Some h \<Rightarrow> h) @ ''}''"

definition demo_codec :: "nat \<Rightarrow> ledger_entry list \<Rightarrow> ledger_codec" where
  "demo_codec pad xs =
     \<lparr>lc_dump = demo_dump pad, lc_dump_body = demo_body,
      lc_validate = map_of (map (\<lambda>x. (demo_dump pad x, x)) xs),
      lc_peek = (\<lambda>l. case l of [] \<Rightarrow> Peek_decode_error
        | c # cs \<Rightarrow> if c = CHR ''{'' then Peek_hash (Some (butlast (drop pad cs))) else Peek_decode_error),
      lc_sha = (\<lambda>x. CHR ''h'' # x)\<rparr>"

definition demo_chain :: "ledger_entry list" where
  "demo_chain = [demo_entry 0\<lparr>le_content_hash := Some ''ha-''\<rparr>,
     demo_entry 1\<lparr>le_prev_hash := Some ''ha-'', le_content_hash := Some ''hbha-''\<rparr>]"

definition demo_unlinked :: "ledger_entry list" where
  "demo_unlinked = [demo_entry 0\<lparr>le_content_hash := Some ''ha-''\<rparr>,
     demo_entry 1\<lparr>le_content_hash := Some ''hb-''\<rparr>]"

lemmas demo_simps = demo_entry_def promotion_entry_def demo_ledger_def demo_body_def demo_dump_def
  demo_codec_def link_entry_def compute_content_hash_def promotion_candidates_def make_candidate_def

lemma demo_entry_appendable: "appendable demo_ledger (demo_entry n)"
  by (simp add: appendable_def demo_simps)

lemma demo_seal: "dl.seal_all (demo_codec pad xs) None [demo_entry 0, demo_entry 1] = demo_chain"
  by (simp add: demo_simps demo_chain_def Let_def)

lemma demo_codec_ok: "codec_ok (demo_codec pad demo_chain) (set demo_chain)"
  by (simp add: codec_ok_def demo_chain_def demo_simps clean_line_def)

lemma demo_unlinked_ok: "codec_ok (demo_codec pad demo_unlinked) (set demo_unlinked)"
  by (simp add: codec_ok_def demo_unlinked_def demo_simps clean_line_def)

section \<open>Properties\<close>

text \<open>
  The promotion gate allows exactly what its tier asks for: paper and preview items
  always, internal items on fresh evidence, production items on fresh evidence and a passed
  replay, destructive items only with the operator's confirmation on top; and a denial lists
  precisely the required checks that failed, in the fixed order freshness, replay, operator.
\<close>

theorem gate_verdict_exact:
  "(pg_verdict (evaluate tier fr rp oc) = Allowed \<longleftrightarrow>
      required_checks tier \<inter> failed_checks fr rp oc = {}) \<and>
   pg_reasons (evaluate tier fr rp oc) =
      filter (\<lambda>r. r \<in> required_checks tier \<inter> failed_checks fr rp oc)
        [Freshness_stale, Replay_failed, Operator_not_confirmed]"
  by (cases tier; cases fr; cases rp; cases oc)
    (simp_all add: evaluate_def gate_reasons_def Let_def required_checks_def failed_checks_def)

text \<open>
  Claim C1. Appending works: a single writer that starts from an absent file and appends
  entries of the ledger's own project and run, each shorter than the 4096-byte window that the
  writer looks back, gets every append accepted, reads back exactly the linked entries in order,
  and the chain verifies.
\<close>

theorem ledger_append_verifies:
  assumes "\<forall>e \<in> set es. appendable d e"
    and "codec_ok L (set (dl.seal_all L None es))"
    and "\<forall>x \<in> set (dl.seal_all L None es). fits_window L x"
  shows "\<exists>f. append_all L d es None = (Inr (dl.seal_all L None es), f) \<and>
    iter_entries L f = Inr (dl.seal_all L None es) \<and> verify_chain L f = Inr (True, None)"
proof -
  let ?xs = "dl.seal_all L None es"
  have "append_all L d es (ledger_repr L []) = (Inr ?xs, ledger_repr L ?xs)"
    using append_all_repr [of L "[]" es d] assms by simp
  moreover have "verify_chain L (ledger_repr L ?xs) = Inr (True, None)"
    using assms(2) by (simp add: verify_chain_def entry_lines_repr walk_chain_links dl.links_seal_all)
  ultimately show ?thesis
    using iter_entries_repr [OF assms(2)] by (simp add: ledger_repr_def [of L "[]"])
qed

theorem ledger_append_verifies_witness:
  "\<exists>f. append_all (demo_codec 0 demo_chain) demo_ledger [demo_entry 0, demo_entry 1] None =
      (Inr demo_chain, f) \<and> verify_chain (demo_codec 0 demo_chain) f = Inr (True, None)"
proof -
  let ?L = "demo_codec 0 demo_chain"
  have "\<forall>x \<in> set (dl.seal_all ?L None [demo_entry 0, demo_entry 1]). fits_window ?L x"
    unfolding demo_seal by (simp add: fits_window_def demo_chain_def demo_simps)
  moreover have "codec_ok ?L (set (dl.seal_all ?L None [demo_entry 0, demo_entry 1]))"
    unfolding demo_seal by (rule demo_codec_ok)
  moreover have "\<forall>e \<in> set [demo_entry 0, demo_entry 1]. appendable demo_ledger e"
    by (simp add: demo_entry_appendable)
  ultimately show ?thesis
    using ledger_append_verifies [of "[demo_entry 0, demo_entry 1]" demo_ledger ?L]
    unfolding demo_seal by blast
qed

text \<open>
  Claim C2. Tampering is evident: if two ledger files both verify and end in the same content
  hash, then, unless SHA-256 collides on the entries they hold, they hold the same
  entries up to the stored hash itself.
\<close>

theorem ledger_tamper_evident:
  assumes "verify_chain L f = Inr (True, None)" and "verify_chain L g = Inr (True, None)"
    and "iter_entries L f = Inr es" and "iter_entries L g = Inr fs"
    and "dl.tip None es = dl.tip None fs"
    and "inj_on (\<lambda>c. lc_sha L (lc_dump_body L c)) (entry_core ` (set es \<union> set fs))"
  shows "map entry_core es = map entry_core fs"
proof -
  have "dl.links L None es" "dl.links L None fs"
    using walk_chain_true_links [of L 0 None "entry_lines f"] walk_chain_true_links [of L 0 None "entry_lines g"]
      assms(1-4) by (auto simp: verify_chain_def iter_entries_def)
  then show ?thesis using assms(5,6) by (rule dl.chain_determined)
qed

theorem ledger_tamper_evident_witness:
  "\<exists>f g es fs. f \<noteq> g \<and> iter_entries (demo_codec 0 demo_chain) f = Inr es \<and>
     iter_entries (demo_codec 0 demo_chain) g = Inr fs \<and> es \<noteq> [] \<and>
     map entry_core es = map entry_core fs"
proof -
  let ?L = "demo_codec 0 demo_chain"
  let ?f = "Some (''{ha-}'' @ [LF] @ ''{hbha-}'' @ [LF])"
  let ?g = "Some (''{ha-}'' @ [LF, LF] @ ''{hbha-}'' @ [CR, LF])"
  have lines: "entry_lines ?f = map (demo_dump 0) demo_chain" "entry_lines ?g = map (demo_dump 0) demo_chain"
    by (simp_all add: entry_lines_def splitlines_def drop_lf_def py_strip_def py_space_def
        demo_chain_def demo_dump_def)
  have links: "dl.links ?L None demo_chain"
    by (subst demo_seal [symmetric, of 0 demo_chain]) (rule dl.links_seal_all)
  have walk: "walk_chain ?L 0 None (map (demo_dump 0) demo_chain) = Inr (True, None)"
    using walk_chain_links [OF demo_codec_ok links] by (simp add: demo_codec_def)
  have rd: "rmap (parse_line ?L) (map (demo_dump 0) demo_chain) = Inr demo_chain"
    by (simp add: parse_line_def demo_codec_def demo_chain_def demo_dump_def)
  have inj: "inj_on (\<lambda>c. lc_sha ?L (lc_dump_body ?L c)) (entry_core ` (set demo_chain \<union> set demo_chain))"
    by (simp add: inj_on_def demo_chain_def demo_simps)
  have "map entry_core demo_chain = map entry_core demo_chain"
    by (rule ledger_tamper_evident [of ?L ?f ?g, OF _ _ _ _ refl inj])
      (simp_all only: verify_chain_def iter_entries_def lines walk rd)
  then show ?thesis
    by (intro exI [of _ ?f] exI [of _ ?g] exI [of _ demo_chain])
      (simp only: iter_entries_def lines rd, simp add: demo_chain_def)
qed

text \<open>
  A long entry breaks the chain: when the serialised first entry is 4096 bytes or
  longer, the writer's look-back window starts inside it, the cut line does not parse, and the
  second append is linked to nothing. Both appends are accepted, and the chain
  then fails to verify at entry 1.
\<close>

theorem ledger_long_entry_breaks_chain:
  assumes "appendable d e1" and "appendable d e2"
    and "codec_ok L {link_entry L None e1, link_entry L None e2}"
    and "4096 \<le> length (lc_dump L (link_entry L None e1))"
    and "lc_peek L (drop (length (lc_dump L (link_entry L None e1)) - 4095)
          (lc_dump L (link_entry L None e1))) = Peek_decode_error"
  shows "\<exists>f. append_all L d [e1, e2] None = (Inr [link_entry L None e1, link_entry L None e2], f) \<and>
    verify_chain L f = Inr (False, Some (Prev_hash_mismatch 1))"
proof -
  let ?x1 = "link_entry L None e1" and ?x2 = "link_entry L None e2"
  let ?l = "lc_dump L ?x1"
  let ?r = "drop (length ?l - 4095) ?l"
  have l: "clean_line ?l" using assms(3) by (simp add: codec_ok_def)
  have r: "LF \<notin> set ?r" "CR \<notin> set ?r" using l by (auto simp: clean_line_def dest: in_set_dropD)
  have "tail_window (?l @ [LF]) = ?r @ [LF]"
    using assms(4) by (simp add: tail_window_def)
  then have last: "last_hash_locked L (Some (?l @ [LF])) = Inr None"
    using r assms(5) by (simp add: last_hash_locked_def splitlines_def lines_aux_clean)
  have "append_all L d [e1, e2] None = (Inr [?x1, ?x2], ledger_repr L [?x1, ?x2])"
    using assms(1,2) last
    by (simp add: append_entry_def appendable_def eff_simps Let_def last_hash_locked_def [of L None]
        ledger_repr_def)
  moreover have "verify_chain L (ledger_repr L [?x1, ?x2]) = Inr (False, Some (Prev_hash_mismatch 1))"
    using assms(3)
    by (simp add: verify_chain_def entry_lines_repr parse_line_def codec_ok_def
        dl.prev_seal dl.hash_seal compute_content_hash_def)
  ultimately show ?thesis by blast
qed

theorem ledger_long_entry_breaks_chain_witness:
  "\<exists>f. append_all (demo_codec 4096 demo_unlinked) demo_ledger [demo_entry 0, demo_entry 1] None =
      (Inr demo_unlinked, f) \<and>
    verify_chain (demo_codec 4096 demo_unlinked) f = Inr (False, Some (Prev_hash_mismatch 1))"
proof -
  let ?L = "demo_codec 4096 demo_unlinked"
  have x: "link_entry ?L None (demo_entry 0) = demo_unlinked ! 0"
    "link_entry ?L None (demo_entry 1) = demo_unlinked ! 1"
    by (simp_all add: demo_simps demo_unlinked_def Let_def)
  have xs: "demo_unlinked = [demo_unlinked ! 0, demo_unlinked ! 1]" by (simp add: demo_unlinked_def)
  then have set: "{demo_unlinked ! 0, demo_unlinked ! 1} = set demo_unlinked"
    by (metis empty_set list.simps(15))
  have d: "lc_dump ?L (demo_unlinked ! 0) = CHR ''{'' # replicate 4096 CHR ''x'' @ ''ha-}''"
    by (simp add: demo_unlinked_def demo_codec_def demo_dump_def)
  have rep: "replicate 4091 CHR ''x'' = CHR ''x'' # replicate 4090 CHR ''x''"
    using replicate_Suc [of 4090 "CHR ''x''"] by simp
  have peek: "lc_peek ?L (drop (length (lc_dump ?L (demo_unlinked ! 0)) - 4095)
      (lc_dump ?L (demo_unlinked ! 0))) = Peek_decode_error"
    unfolding d by (simp add: demo_codec_def drop_Cons' rep)
  have ok: "codec_ok ?L {demo_unlinked ! 0, demo_unlinked ! 1}"
    unfolding set by (rule demo_unlinked_ok)
  have "\<exists>f. append_all ?L demo_ledger [demo_entry 0, demo_entry 1] None =
      (Inr [demo_unlinked ! 0, demo_unlinked ! 1], f) \<and>
      verify_chain ?L f = Inr (False, Some (Prev_hash_mismatch 1))"
    using ledger_long_entry_breaks_chain [OF demo_entry_appendable demo_entry_appendable, of ?L 0 1,
      unfolded x, OF ok _ peek] d by simp
  with xs show ?thesis by simp
qed

text \<open>
  A recorded promotion decision is what the next reader is told: after
  \<open>append_promotion_decision\<close> on a well-linked ledger file, the call reports success, the ledger
  still verifies, and \<open>latest_promotion_verdict\<close>, when that run file is the
  most recently modified one of the project, returns exactly the verdict and the reasons that the
  gate computes for the recorded inputs.
\<close>

theorem promotion_decision_round_trip:
  assumes "sp_project_id i \<noteq> []" and "sp_run_id i \<noteq> []" and "sp_role i \<noteq> []"
    and "dl.links L None xs" and "\<forall>x \<in> set xs. fits_window L x"
    and "codec_ok L (set (xs @ [link_entry L (dl.tip None xs) (promotion_entry eid now i)]))"
    and "\<forall>r \<in> set others. rf_mtime r < t"
  shows "\<exists>e content.
    append_promotion_decision L eid now i (ledger_repr L xs) = (Some e, Some content) \<and>
    verify_chain L (Some content) = Inr (True, None) \<and>
    latest_promotion_verdict L (sp_project_id i)
      (Some (others @ [\<lparr>rf_run_id = sp_run_id i, rf_mtime = t, rf_content = content\<rparr>])) =
      Inr (Some (pg_verdict (evaluate (sp_tier i) (sp_freshness_passed i) (sp_replay_passed i)
                   (sp_operator_confirmed i)),
                 pg_reasons (evaluate (sp_tier i) (sp_freshness_passed i) (sp_replay_passed i)
                   (sp_operator_confirmed i))))"
proof -
  let ?p = "promotion_entry eid now i"
  let ?e = "link_entry L (dl.tip None xs) ?p"
  let ?ys = "xs @ [?e]"
  let ?content = "file_of (map (lc_dump L) ?ys)"
  let ?d = "\<lparr>dl_project_id = sp_project_id i, dl_run_id = sp_run_id i\<rparr>"
  let ?r = "\<lparr>rf_run_id = sp_run_id i, rf_mtime = t, rf_content = ?content\<rparr>"
  have ok: "codec_ok L (set xs)" using assms(6) by (rule codec_ok_mono) auto
  have repr: "ledger_repr L ?ys = Some ?content" by (simp add: ledger_repr_def)
  have app: "appendable ?d ?p"
    by (simp add: appendable_def promotion_entry_def promotion_candidates_def)
  have "append_promotion_decision L eid now i (ledger_repr L xs) = (Some ?e, Some ?content)"
    using append_entry_repr [OF ok assms(5,4) app] assms(1-3)
    by (simp add: append_promotion_decision_def decision_ledger_init_def repr)
  moreover have "verify_chain L (Some ?content) = Inr (True, None)"
    using walk_chain_links [OF assms(6) dl.links_snoc_seal [OF assms(4)]] entry_lines_repr [OF assms(6)]
    unfolding repr [symmetric] verify_chain_def by simp
  moreover have "sort_key (\<lambda>r. - rf_mtime r) (others @ [?r]) = ?r # sort_key (\<lambda>r. - rf_mtime r) others"
    by (rule sort_key_snoc_min) (use assms(7) in auto)
  moreover have "ledger_tail L 1 (Some ?content) = Inr [?e]"
    using iter_entries_repr [OF assms(6)] unfolding repr [symmetric] ledger_tail_def by simp
  moreover have "le_promotion_gate ?e = evaluate (sp_tier i) (sp_freshness_passed i) (sp_replay_passed i)
      (sp_operator_confirmed i)"
    by (simp add: link_entry_def promotion_entry_def Let_def)
  ultimately show ?thesis
    using assms(1,2) by (intro exI [of _ ?e] exI [of _ ?content])
      (simp add: latest_promotion_verdict_def decision_ledger_init_def)
qed

definition demo_inputs :: safe_promotion_inputs where
  "demo_inputs = \<lparr>sp_project_id = ''p'', sp_run_id = ''r'', sp_role = ''build'', sp_rollout_index = 0,
      sp_tier = Production, sp_freshness_passed = True, sp_replay_passed = False,
      sp_operator_confirmed = False, sp_candidates = [], sp_prior_winner = None,
      sp_fresh_evidence = []\<rparr>"

theorem promotion_decision_round_trip_witness:
  "\<exists>L e content. append_promotion_decision L 7 0 demo_inputs None = (Some e, Some content) \<and>
    latest_promotion_verdict L ''p''
      (Some [\<lparr>rf_run_id = ''old'', rf_mtime = 3, rf_content = []\<rparr>,
             \<lparr>rf_run_id = ''r'', rf_mtime = 5, rf_content = content\<rparr>]) =
      Inr (Some (Denied, [Replay_failed]))"
proof -
  let ?p = "promotion_entry 7 0 demo_inputs"
  let ?x = "?p\<lparr>le_content_hash := Some ''ha-''\<rparr>"
  let ?L = "demo_codec 0 [?x]"
  let ?o = "[\<lparr>rf_run_id = ''old'', rf_mtime = 3, rf_content = []\<rparr>]"
  have x: "link_entry ?L None ?p = ?x"
    by (simp add: demo_simps demo_inputs_def Let_def)
  have ok: "codec_ok ?L (set ([] @ [link_entry ?L (dl.tip None []) ?p]))"
    unfolding dl.tip_Nil x by (simp add: codec_ok_def demo_dump_def demo_codec_def clean_line_def)
  have "\<exists>e content. append_promotion_decision ?L 7 0 demo_inputs (ledger_repr ?L []) = (Some e, Some content) \<and>
    verify_chain ?L (Some content) = Inr (True, None) \<and>
    latest_promotion_verdict ?L (sp_project_id demo_inputs)
      (Some (?o @ [\<lparr>rf_run_id = sp_run_id demo_inputs, rf_mtime = 5, rf_content = content\<rparr>])) =
      Inr (Some (pg_verdict (evaluate (sp_tier demo_inputs) (sp_freshness_passed demo_inputs)
        (sp_replay_passed demo_inputs) (sp_operator_confirmed demo_inputs)),
        pg_reasons (evaluate (sp_tier demo_inputs) (sp_freshness_passed demo_inputs)
        (sp_replay_passed demo_inputs) (sp_operator_confirmed demo_inputs))))"
    by (rule promotion_decision_round_trip [OF _ _ _ _ _ ok]) (simp_all add: demo_inputs_def)
  then obtain e content where "append_promotion_decision ?L 7 0 demo_inputs None = (Some e, Some content)"
    and "latest_promotion_verdict ?L ''p''
      (Some (?o @ [\<lparr>rf_run_id = ''r'', rf_mtime = 5, rf_content = content\<rparr>])) =
      Inr (Some (Denied, [Replay_failed]))"
    by (auto simp: ledger_repr_def demo_inputs_def evaluate_def gate_reasons_def Let_def)
  then show ?thesis by auto
qed

end
