(* ===== verification/Json.thy ===== *)
theory Json
  imports Prelude
begin

text \<open>
  JSON values as Python holds them after \<open>json.loads\<close>: an object is a \<open>dict\<close> in
  insertion order, and a float is kept as its literal because no modelled code computes with
  one that came from JSON.
\<close>

datatype json =
    JNull
  | JBool bool
  | JInt int
  | JFloat string
  | JStr string
  | JList "json list"
  | JDict "(string \<times> json) list"

definition is_dict :: "json \<Rightarrow> bool" where
  "is_dict j = (case j of JDict _ \<Rightarrow> True | _ \<Rightarrow> False)"

definition is_list :: "json \<Rightarrow> bool" where
  "is_list j = (case j of JList _ \<Rightarrow> True | _ \<Rightarrow> False)"

text \<open>Python truth of a value; the literals of a zero float are \<open>0.0\<close> and \<open>-0.0\<close>.\<close>

definition truthy :: "json \<Rightarrow> bool" where
  "truthy j = (case j of
     JNull \<Rightarrow> False | JBool b \<Rightarrow> b | JInt n \<Rightarrow> n \<noteq> 0
   | JFloat s \<Rightarrow> s \<notin> {''0.0'', ''-0.0''} | JStr s \<Rightarrow> s \<noteq> [] | JList xs \<Rightarrow> xs \<noteq> [] | JDict d \<Rightarrow> d \<noteq> [])"

lemma is_dict_iff: "is_dict j \<longleftrightarrow> (\<exists>d. j = JDict d)"
  by (cases j) (auto simp: is_dict_def)

end
