(* ===== verification/Audit_Record.thy ===== *)
theory Audit_Record
  imports Json Hash_Chain Complex_Main
begin

text \<open>
  \<open>shared/audit/audit_record.py\<close>, \<open>shared/audit/redactor.py\<close> and the paging reader of
  \<open>shared/audit/exporter.py\<close>: the hash-chained audit row, the redactor that rewrites it before it
  is stored, and the writer that inserts it. The table \<open>spine_audit.audit_event\<close> is the
  state, with the constraints its migrations declare and with the view
  \<open>v_audit_chain_integrity\<close> that looks for broken links. Canonical JSON, SHA-256 and the regular
  expressions are the parameters of \<open>audit_codec\<close>.
\<close>

section \<open>The record\<close>

record audit_record =
  ar_event_id :: "int option"
  ar_event_uuid :: uuid
  ar_ts :: time
  ar_project_id :: "int option"
  ar_phase :: "string option"
  ar_role :: string
  ar_subsystem :: string
  ar_action :: string
  ar_subject_type :: "string option"
  ar_subject_id :: "string option"
  ar_actor :: string
  ar_rationale :: "string option"
  ar_metadata :: "(string \<times> json) list"
  ar_prompt_hash :: "string option"
  ar_output_hash :: "string option"
  ar_cost_usd :: "rat option"
  ar_pipeline_version :: "string option"
  ar_correlation_id :: "uuid option"
  ar_parent_event_id :: "int option"
  ar_error_code :: "string option"
  ar_error_message :: "string option"
  ar_prev_event_hash :: "string option"
  ar_content_hash :: "string option"

definition ALLOWED_SUBSYSTEMS :: "string list" where
  "ALLOWED_SUBSYSTEMS = [''plan'', ''build'', ''verify'', ''orchestrator'', ''shared'',
     ''hub'', ''federation'', ''integration'', ''devops'']"

datatype severity = Always | Default | Opt_in

record redaction_rule =
  ru_name :: string
  ru_pattern :: string
  ru_replacement :: string
  ru_fields :: "string list"
  ru_severity :: severity
  ru_flags :: int

text \<open>
  \<open>ac_payload\<close> is the canonical JSON of a record whose excluded fields are blanked,
  \<open>ac_sha\<close> the hex SHA-256, and \<open>ac_subn r s\<close> is \<open>r.compiled().subn(r.replacement, s)\<close>.
\<close>

record audit_codec =
  ac_payload :: "audit_record \<Rightarrow> string"
  ac_sha :: "string \<Rightarrow> string"
  ac_subn :: "redaction_rule \<Rightarrow> string \<Rightarrow> string \<times> nat"

datatype audit_fault = Bad_subsystem | Negative_cost | Stale_content_hash

datatype audit_error =
    Validation_faults "audit_fault list"
  | Content_hash_unset
  | No_db_url
  | Called_process_error

text \<open>\<open>HASHED_EXCLUDE\<close>: the fields the hash does not cover.\<close>

definition audit_core :: "audit_record \<Rightarrow> audit_record" where
  "audit_core r = r\<lparr>ar_event_id := None, ar_event_uuid := 0, ar_content_hash := None\<rparr>"

definition compute_content_hash :: "audit_codec \<Rightarrow> audit_record \<Rightarrow> string" where
  "compute_content_hash C r = ac_sha C (ac_payload C (audit_core r))"

definition field_faults :: "audit_record \<Rightarrow> audit_fault list" where
  "field_faults r =
     (if ar_subsystem r \<notin> set ALLOWED_SUBSYSTEMS then [Bad_subsystem] else []) @
     (case ar_cost_usd r of None \<Rightarrow> [] | Some c \<Rightarrow> if c < 0 then [Negative_cost] else [])"

definition validate_record :: "audit_codec \<Rightarrow> audit_record \<Rightarrow> (audit_error, audit_record) res" where
  "validate_record C r =
     (if field_faults r \<noteq> [] then Inl (Validation_faults (field_faults r))
      else if ar_content_hash r \<notin> {None, Some []} \<and>
              ar_content_hash r \<noteq> Some (compute_content_hash C r)
        then Inl (Validation_faults [Stale_content_hash])
      else Inr r)"

definition chain_to_previous :: "audit_codec \<Rightarrow> audit_record \<Rightarrow> string option \<Rightarrow> audit_record" where
  "chain_to_previous C r prev_hash =
     (let updated = r\<lparr>ar_prev_event_hash := prev_hash, ar_content_hash := None\<rparr> in
      updated\<lparr>ar_content_hash := Some (compute_content_hash C updated)\<rparr>)"

section \<open>Redaction\<close>

record redaction_result =
  rr_redactions_applied :: nat
  rr_rules_matched :: "string list"
  rr_redacted_fields :: "string list"

definition no_redactions :: redaction_result where
  "no_redactions = \<lparr>rr_redactions_applied = 0, rr_rules_matched = [], rr_redacted_fields = []\<rparr>"

definition STRING_FIELDS :: "string list" where
  "STRING_FIELDS = [''rationale'', ''error_message'', ''subject_id'', ''actor'']"

definition default_rule :: "string \<Rightarrow> string \<Rightarrow> severity \<Rightarrow> int \<Rightarrow> redaction_rule" where
  "default_rule name pattern sev flags =
     \<lparr>ru_name = name, ru_pattern = pattern, ru_replacement = ''[REDACTED]'',
      ru_fields = STRING_FIELDS @ [''metadata''], ru_severity = sev, ru_flags = flags\<rparr>"

text \<open>The pattern texts are opaque to the model: \<open>ac_subn\<close> interprets them. 16 is \<open>re.DOTALL\<close>.\<close>

abbreviation bs :: string where "bs \<equiv> [CHR 0x5C]"

definition DEFAULT_RULES :: "redaction_rule list" where
  "DEFAULT_RULES = [
     default_rule ''aws_access_key'' ''AKIA[0-9A-Z]{16}'' Default 0,
     default_rule ''aws_secret_key'' ''(?<![A-Za-z0-9/+=])[A-Za-z0-9/+=]{40}(?![A-Za-z0-9/+=])'' Default 0,
     default_rule ''jwt'' (''eyJ[A-Za-z0-9_-]+'' @ bs @ ''.eyJ[A-Za-z0-9_-]+'' @ bs @ ''.[A-Za-z0-9_-]+'') Default 0,
     default_rule ''github_pat'' ''gh[pousr]_[A-Za-z0-9]{36,}'' Default 0,
     default_rule ''anthropic_key'' (''sk-ant-[A-Za-z0-9_'' @ bs @ ''-]{20,}'') Default 0,
     default_rule ''openai_key'' ''sk-[A-Za-z0-9]{32,}'' Default 0,
     default_rule ''bearer_token'' (''Bearer'' @ bs @ ''s+[A-Za-z0-9_.'' @ bs @ ''-]{16,}'') Default 0,
     default_rule ''credit_card'' (bs @ ''b(?:'' @ bs @ ''d[ -]*?){13,16}'' @ bs @ ''b'') Default 0,
     default_rule ''private_key_pem''
       ''-----BEGIN [A-Z ]+PRIVATE KEY-----.*?-----END [A-Z ]+PRIVATE KEY-----'' Default 16,
     default_rule ''email'' (''[a-zA-Z0-9._%+'' @ bs @ ''-]+@[a-zA-Z0-9.'' @ bs @ ''-]+'' @ bs @ ''.[a-zA-Z]{2,}'') Opt_in 0,
     default_rule ''us_ssn'' (bs @ ''b'' @ bs @ ''d{3}-'' @ bs @ ''d{2}-'' @ bs @ ''d{4}'' @ bs @ ''b'') Opt_in 0,
     default_rule ''us_phone'' (bs @ ''b'' @ bs @ ''(?'' @ bs @ ''d{3}'' @ bs @ '')?['' @ bs @ ''s'' @ bs @ ''-.]?'' @ bs @ ''d{3}['' @ bs @ ''s'' @ bs @ ''-.]?'' @ bs @ ''d{4}'' @ bs @ ''b'') Opt_in 0]"

definition severity_rank :: "severity \<Rightarrow> nat" where
  "severity_rank s = (case s of Opt_in \<Rightarrow> 0 | Default \<Rightarrow> 1 | Always \<Rightarrow> 2)"

definition passes_floor :: "redaction_rule \<Rightarrow> severity \<Rightarrow> bool" where
  "passes_floor rule flr =
     (ru_severity rule = Always \<or> severity_rank flr \<le> severity_rank (ru_severity rule))"

definition append_new :: "'a \<Rightarrow> 'a list \<Rightarrow> 'a list" where
  "append_new x xs = (if x \<in> set xs then xs else xs @ [x])"

fun redact_str :: "audit_codec \<Rightarrow> string \<Rightarrow> redaction_rule list \<Rightarrow> string \<Rightarrow> redaction_result \<Rightarrow>
    string \<times> redaction_result" where
  "redact_str C fld [] out res = (out, res)"
| "redact_str C fld (rule # rules) out res =
     (let (new, n) = ac_subn C rule out in
      if n \<noteq> 0
      then redact_str C fld rules new
        (res\<lparr>rr_redactions_applied := rr_redactions_applied res + n,
            rr_rules_matched := append_new (ru_name rule) (rr_rules_matched res),
            rr_redacted_fields := append_new fld (rr_redacted_fields res)\<rparr>)
      else redact_str C fld rules out res)"

fun redact_value :: "audit_codec \<Rightarrow> redaction_rule list \<Rightarrow> string \<Rightarrow> json \<Rightarrow> redaction_result \<Rightarrow>
    json \<times> redaction_result"
and redact_values :: "audit_codec \<Rightarrow> redaction_rule list \<Rightarrow> string \<Rightarrow> json list \<Rightarrow> redaction_result \<Rightarrow>
    json list \<times> redaction_result"
and redact_items :: "audit_codec \<Rightarrow> redaction_rule list \<Rightarrow> string \<Rightarrow> (string \<times> json) list \<Rightarrow>
    redaction_result \<Rightarrow> (string \<times> json) list \<times> redaction_result" where
  "redact_value C rules fld (JStr s) res = (let (s', r) = redact_str C fld rules s res in (JStr s', r))"
| "redact_value C rules fld (JDict d) res = (let (d', r) = redact_items C rules fld d res in (JDict d', r))"
| "redact_value C rules fld (JList xs) res =
     (let (xs', r) = redact_values C rules (fld @ ''[]'') xs res in (JList xs', r))"
| "redact_value C rules fld v res = (v, res)"
| "redact_values C rules fld [] res = ([], res)"
| "redact_values C rules fld (x # xs) res =
     (let (x', r) = redact_value C rules fld x res; (xs', r') = redact_values C rules fld xs r in
      (x' # xs', r'))"
| "redact_items C rules fld [] res = ([], res)"
| "redact_items C rules fld ((k, v) # d) res =
     (let (v', r) = redact_value C rules (fld @ ''.'' @ k) v res; (d', r') = redact_items C rules fld d r in
      ((k, v') # d', r'))"

definition string_field :: "string \<Rightarrow> audit_record \<Rightarrow> string option" where
  "string_field f r =
     (if f = ''rationale'' then ar_rationale r
      else if f = ''error_message'' then ar_error_message r
      else if f = ''subject_id'' then ar_subject_id r
      else if f = ''actor'' then Some (ar_actor r) else None)"

definition set_string_field :: "string \<times> string \<Rightarrow> audit_record \<Rightarrow> audit_record" where
  "set_string_field u r = (case u of (f, v) \<Rightarrow>
     if f = ''rationale'' then r\<lparr>ar_rationale := Some v\<rparr>
     else if f = ''error_message'' then r\<lparr>ar_error_message := Some v\<rparr>
     else if f = ''subject_id'' then r\<lparr>ar_subject_id := Some v\<rparr>
     else if f = ''actor'' then r\<lparr>ar_actor := v\<rparr> else r)"

definition applicable :: "redaction_rule list \<Rightarrow> string \<Rightarrow> redaction_rule list" where
  "applicable active f = filter (\<lambda>r. f \<in> set (ru_fields r) \<or> ru_fields r = []) active"

text \<open>The loop over \<open>_STRING_FIELDS\<close>; it returns the \<open>updates\<close> dictionary and the summary.\<close>

fun redact_string_fields :: "audit_codec \<Rightarrow> redaction_rule list \<Rightarrow> audit_record \<Rightarrow> string list \<Rightarrow>
    redaction_result \<Rightarrow> (string \<times> string) list \<times> redaction_result" where
  "redact_string_fields C active r [] res = ([], res)"
| "redact_string_fields C active r (f # fs) res = (case string_field f r of
     Some (c # cs) \<Rightarrow>
       (let (new, res1) = redact_str C f (applicable active f) (c # cs) res;
            (upd, res2) = redact_string_fields C active r fs res1 in
        (if new \<noteq> c # cs then (f, new) # upd else upd, res2))
   | _ \<Rightarrow> redact_string_fields C active r fs res)"

definition redact_metadata :: "audit_codec \<Rightarrow> redaction_rule list \<Rightarrow> audit_record \<Rightarrow> redaction_result \<Rightarrow>
    (string \<times> json) list \<times> redaction_result" where
  "redact_metadata C active r res =
     (if ar_metadata r = [] then ([], res)
      else redact_items C (applicable active ''metadata'') ''metadata'' (ar_metadata r) res)"

definition active_rules :: "redaction_rule list option \<Rightarrow> severity \<Rightarrow> redaction_rule list" where
  "active_rules rules flr =
     filter (\<lambda>r. passes_floor r flr) (case rules of Some (r # rs) \<Rightarrow> r # rs | _ \<Rightarrow> DEFAULT_RULES)"

definition redact :: "audit_codec \<Rightarrow> redaction_rule list option \<Rightarrow> severity \<Rightarrow> audit_record \<Rightarrow>
    audit_record \<times> redaction_result" where
  "redact C rules flr r =
     (let active = active_rules rules flr;
          (upd, res1) = redact_string_fields C active r STRING_FIELDS no_redactions;
          (meta, res2) = redact_metadata C active r res1 in
      if upd = [] \<and> meta = ar_metadata r then (r, res2)
      else ((fold set_string_field upd r)\<lparr>ar_metadata := meta, ar_content_hash := None\<rparr>, res2))"

definition redact_text :: "audit_codec \<Rightarrow> redaction_rule list option \<Rightarrow> severity \<Rightarrow> string \<Rightarrow>
    string \<times> redaction_result" where
  "redact_text C rules flr s = redact_str C ''<input>'' (active_rules rules flr) s no_redactions"

text \<open>\<open>custom\<close> is the parsed bundle file, \<open>None\<close> when it does not exist.\<close>

definition load_org_rules :: "redaction_rule list option \<Rightarrow> redaction_rule list" where
  "load_org_rules custom = (case custom of
     None \<Rightarrow> DEFAULT_RULES
   | Some rs \<Rightarrow> map snd (fold (\<lambda>r d. AList.update (ru_name r) r d) rs
       (map (\<lambda>r. (ru_name r, r)) DEFAULT_RULES)))"

section \<open>Writing\<close>

definition redact_enabled :: "string option \<Rightarrow> bool" where
  "redact_enabled env =
     (py_lower (py_strip (case env of None \<Rightarrow> ''true'' | Some v \<Rightarrow> v)) \<notin> {''0'', ''false'', ''no'', ''off''})"

definition apply_redaction :: "audit_codec \<Rightarrow> audit_record \<Rightarrow> audit_record" where
  "apply_redaction C r =
     (let (redacted, summary) = redact C None Default r in
      if rr_redactions_applied summary = 0 then r
      else
        let meta = AList.update ''audit_redacted_fields''
                     (JList (map JStr (rr_redacted_fields summary)))
                     (AList.update ''audit_redactions'' (JInt (int (rr_redactions_applied summary)))
                       (ar_metadata redacted)) in
        chain_to_previous C (redacted\<lparr>ar_metadata := meta, ar_content_hash := None\<rparr>)
          (ar_prev_event_hash redacted))"

text \<open>
  The table: its rows by ascending \<open>event_id\<close> and the last value of the \<open>BIGSERIAL\<close> sequence,
  which a refused insert consumes too.
\<close>

record audit_db =
  ad_rows :: "(int \<times> audit_record) list"
  ad_seq :: int

definition db_accepts :: "audit_db \<Rightarrow> audit_record \<Rightarrow> bool" where
  "db_accepts db r =
     (ar_event_uuid r \<notin> ar_event_uuid ` snd ` set (ad_rows db) \<and>
      ar_subsystem r \<in> set ALLOWED_SUBSYSTEMS \<and>
      (case ar_cost_usd r of None \<Rightarrow> True | Some c \<Rightarrow> 0 \<le> c) \<and>
      (case ar_content_hash r of None \<Rightarrow> False | Some h \<Rightarrow> length h = 64) \<and>
      (case ar_parent_event_id r of None \<Rightarrow> True | Some p \<Rightarrow> p \<in> fst ` set (ad_rows db)))"

definition db_insert :: "audit_record \<Rightarrow> (audit_db, audit_error, int) eff" where
  "db_insert r db =
     (let n = ad_seq db + 1; db' = db\<lparr>ad_seq := n\<rparr> in
      if db_accepts db r then (Inr n, db'\<lparr>ad_rows := ad_rows db @ [(n, r)]\<rparr>)
      else (Inl Called_process_error, db'))"

definition serialize_for_postgres :: "audit_record \<Rightarrow> (audit_error, audit_record) res" where
  "serialize_for_postgres r =
     (if ar_content_hash r = None then Inl Content_hash_unset else Inr (r\<lparr>ar_event_id := None\<rparr>))"

definition write_via_psql :: "audit_codec \<Rightarrow> string option \<Rightarrow> string option \<Rightarrow> bool \<Rightarrow> audit_record \<Rightarrow>
    (audit_db, audit_error, int) eff" where
  "write_via_psql C url redact_env skip_redaction r =
     ebind (eguard (url \<notin> {None, Some []}) No_db_url) (\<lambda>_.
     let r' = (if \<not> skip_redaction \<and> redact_enabled redact_env then apply_redaction C r else r) in
     ebind (elift (serialize_for_postgres r')) db_insert)"

text \<open>
  Two ways the tools write: \<open>_write_audit\<close> of \<open>shared/mcp/tools/orchestrator.py\<close> first
  reads the tip of the table; the others chain to nothing. \<open>answers\<close> says whether the query for
  the tip returns: when it raises, the code takes the empty string for the tip and writes on, with
  a record that is chained to nothing.
\<close>

definition table_tip :: "audit_db \<Rightarrow> string option" where
  "table_tip db = (if ad_rows db = [] then None else ar_content_hash (snd (last (ad_rows db))))"

definition read_tip :: "bool \<Rightarrow> audit_db \<Rightarrow> string option" where
  "read_tip answers db = (if answers then table_tip db else Some [])"

definition tip_write :: "audit_codec \<Rightarrow> string option \<Rightarrow> string option \<Rightarrow> bool \<Rightarrow> audit_record \<Rightarrow>
    (audit_db, audit_error, int) eff" where
  "tip_write C url env answers r =
     ebind (eread (read_tip answers)) (\<lambda>tip. ebind (elift (validate_record C r)) (\<lambda>rec.
     write_via_psql C url env False
       (chain_to_previous C rec (case tip of Some (c # cs) \<Rightarrow> tip | _ \<Rightarrow> None))))"

definition unlinked_write :: "audit_codec \<Rightarrow> string option \<Rightarrow> string option \<Rightarrow> audit_record \<Rightarrow>
    (audit_db, audit_error, int) eff" where
  "unlinked_write C url env r =
     ebind (elift (validate_record C r)) (\<lambda>rec.
     write_via_psql C url env False (chain_to_previous C rec None))"

text \<open>The view \<open>v_audit_chain_integrity\<close>: rows whose link is not the hash of the row before.\<close>

fun integrity_view :: "string option \<Rightarrow> (int \<times> audit_record) list \<Rightarrow> (int \<times> audit_record) list" where
  "integrity_view expected [] = []"
| "integrity_view expected ((i, r) # rows) =
     (if 1 < i \<and> ar_prev_event_hash r \<noteq> expected then [(i, r)] else []) @
     integrity_view (ar_content_hash r) rows"

section \<open>Convenience constructors\<close>

definition blank_record :: "uuid \<Rightarrow> time \<Rightarrow> int option \<Rightarrow> string \<Rightarrow> string \<Rightarrow> string \<Rightarrow> string \<Rightarrow> audit_record" where
  "blank_record uuid now project_id role subsystem action actor =
     \<lparr>ar_event_id = None, ar_event_uuid = uuid, ar_ts = now, ar_project_id = project_id,
      ar_phase = None, ar_role = role, ar_subsystem = subsystem, ar_action = action,
      ar_subject_type = None, ar_subject_id = None, ar_actor = actor, ar_rationale = None,
      ar_metadata = [], ar_prompt_hash = None, ar_output_hash = None, ar_cost_usd = None,
      ar_pipeline_version = None, ar_correlation_id = None, ar_parent_event_id = None,
      ar_error_code = None, ar_error_message = None, ar_prev_event_hash = None,
      ar_content_hash = None\<rparr>"

definition llm_call :: "audit_codec \<Rightarrow> uuid \<Rightarrow> time \<Rightarrow> int option \<Rightarrow> string \<Rightarrow> string \<Rightarrow> string \<Rightarrow> string \<Rightarrow>
    string \<Rightarrow> rat \<Rightarrow> (audit_error, audit_record) res" where
  "llm_call C uuid now project_id role subsystem prompt output model cost =
     validate_record C ((blank_record uuid now project_id role subsystem ''llm_call'' role)
       \<lparr>ar_subject_type := Some ''prompt'', ar_prompt_hash := Some (ac_sha C prompt),
        ar_output_hash := Some (ac_sha C output), ar_cost_usd := Some cost,
        ar_metadata := [(''model'', JStr model)]\<rparr>)"

definition phase_advanced :: "audit_codec \<Rightarrow> uuid \<Rightarrow> time \<Rightarrow> int option \<Rightarrow> string \<Rightarrow> string \<Rightarrow> string \<Rightarrow>
    string option \<Rightarrow> string \<Rightarrow> (audit_error, audit_record) res" where
  "phase_advanced C uuid now project_id from_phase to_phase actor rationale approval_id =
     validate_record C ((blank_record uuid now project_id ''orchestrator'' ''orchestrator'' ''phase_advanced'' actor)
       \<lparr>ar_phase := Some to_phase, ar_subject_type := Some ''approval'',
        ar_subject_id := Some approval_id, ar_rationale := rationale,
        ar_metadata := [(''from_phase'', JStr from_phase), (''to_phase'', JStr to_phase)]\<rparr>)"

definition gate_decision :: "audit_codec \<Rightarrow> uuid \<Rightarrow> time \<Rightarrow> int option \<Rightarrow> string \<Rightarrow> string \<Rightarrow> string \<Rightarrow>
    string option \<Rightarrow> (audit_error, audit_record) res" where
  "gate_decision C uuid now project_id phase decision actor rationale =
     validate_record C ((blank_record uuid now project_id ''orchestrator'' ''orchestrator'' ''gate_check'' actor)
       \<lparr>ar_phase := Some phase, ar_subject_type := Some ''gate'', ar_subject_id := Some phase,
        ar_rationale := rationale, ar_metadata := [(''decision'', JStr decision)]\<rparr>)"

definition directive_dispatched :: "audit_codec \<Rightarrow> uuid \<Rightarrow> time \<Rightarrow> int option \<Rightarrow> string \<Rightarrow> string \<Rightarrow> string \<Rightarrow>
    string \<Rightarrow> string \<Rightarrow> (audit_error, audit_record) res" where
  "directive_dispatched C uuid now project_id phase subsystem role directive_ref actor =
     validate_record C ((blank_record uuid now project_id role subsystem ''directive_dispatched'' actor)
       \<lparr>ar_phase := Some phase, ar_subject_type := Some ''directive'',
        ar_subject_id := Some directive_ref\<rparr>)"

definition approval_granted :: "audit_codec \<Rightarrow> uuid \<Rightarrow> time \<Rightarrow> int option \<Rightarrow> string \<Rightarrow> string \<Rightarrow> string \<Rightarrow>
    (audit_error, audit_record) res" where
  "approval_granted C uuid now project_id phase approver approval_id =
     validate_record C ((blank_record uuid now project_id ''approver'' ''orchestrator'' ''approval_granted'' approver)
       \<lparr>ar_phase := Some phase, ar_subject_type := Some ''approval'', ar_subject_id := Some approval_id\<rparr>)"

section \<open>Export\<close>

text \<open>
  \<open>str.splitlines()\<close> on a list of code points: it cuts at a line feed, a carriage return, or both
  together, and at the other line boundaries of Unicode.
\<close>

type_synonym codes = "nat list"

definition line_boundary :: "nat \<Rightarrow> bool" where
  "line_boundary c \<longleftrightarrow> c \<in> {10, 11, 12, 13, 28, 29, 30, 133, 8232, 8233}"

fun code_lines :: "codes \<Rightarrow> codes \<Rightarrow> codes list" where
  "code_lines cur [] = (if cur = [] then [] else [rev cur])"
| "code_lines cur [c] = (if line_boundary c then [rev cur] else [rev (c # cur)])"
| "code_lines cur (c # d # cs) =
     (if c = 13 \<and> d = 10 then rev cur # code_lines [] cs
      else if line_boundary c then rev cur # code_lines [] (d # cs)
      else code_lines (c # cur) (d # cs))"

text \<open>
  \<open>_stream_rows\<close> pages through the rows that satisfy the filters, in \<open>event_id\<close> order; a row is
  the text that \<open>row_to_json\<close> gives for it. \<open>psql -At\<close> prints each row of a page followed by a line
  feed, and what the code reads back are the non-empty lines of that output. \<open>parse\<close> is
  \<open>json.loads\<close> on one of them, \<open>None\<close> when it raises.
\<close>

definition psql_page :: "codes list \<Rightarrow> nat \<Rightarrow> nat \<Rightarrow> codes" where
  "psql_page rows chunk offset = concat (map (\<lambda>r. r @ [10]) (take chunk (drop offset rows)))"

definition page_lines :: "codes \<Rightarrow> codes list" where
  "page_lines out = filter (\<lambda>l. l \<noteq> []) (code_lines [] out)"

lemma page_lines_Nil [simp]: "page_lines [] = []"
  by (simp add: page_lines_def)

function stream_rows :: "(codes \<Rightarrow> 'r option) \<Rightarrow> codes list \<Rightarrow> nat \<Rightarrow> nat \<Rightarrow> 'r list" where
  "stream_rows parse rows chunk offset =
     (let lines = page_lines (psql_page rows chunk offset) in
      if lines = [] then []
      else List.map_filter parse lines @
        (if length lines < chunk then [] else stream_rows parse rows chunk (offset + chunk)))"
  by pat_completeness auto

termination
proof (relation "measure (\<lambda>(parse, rows, chunk, offset). length rows - offset)", goal_cases)
  case (2 parse rows chunk offset lines)
  have "take chunk (drop offset rows) \<noteq> []"
  proof
    assume "take chunk (drop offset rows) = []"
    then have "psql_page rows chunk offset = []" by (simp only: psql_page_def list.map concat.simps)
    with 2 show False by simp
  qed
  then have "chunk \<noteq> 0" and "offset < length rows" by auto
  then show ?case by simp
qed simp

declare stream_rows.simps [simp del]

section \<open>The audit table is a hash chain\<close>

interpretation ar: hash_chain audit_core ar_prev_event_hash ar_content_hash
  "\<lambda>c. ac_sha C (ac_payload C c)" "\<lambda>p r. chain_to_previous C r p" for C
proof (unfold_locales, goal_cases)
  case (1 e e')
  then have "ar_prev_event_hash (audit_core e) = ar_prev_event_hash (audit_core e')" by simp
  then show ?case by (simp add: audit_core_def)
next
  case (2 p e)
  then show ?case by (simp add: chain_to_previous_def Let_def)
next
  case (3 p e)
  then show ?case by (simp add: chain_to_previous_def compute_content_hash_def audit_core_def Let_def)
qed

section \<open>What redaction leaves alone\<close>

text \<open>
  The frame of a record: everything but the five fields the redactor may rewrite and the hash.
\<close>

definition record_frame :: "audit_record \<Rightarrow> audit_record" where
  "record_frame r = r\<lparr>ar_rationale := None, ar_error_message := None, ar_subject_id := None,
     ar_actor := [], ar_metadata := [], ar_content_hash := None\<rparr>"

lemma redact_str_le: "rr_redactions_applied res \<le> rr_redactions_applied (snd (redact_str C f rules s res))"
proof (induction C f rules s res rule: redact_str.induct)
  case (2 C f rule rules out res)
  then show ?case by (cases "ac_subn C rule out") (fastforce dest: le_trans [rotated])
qed simp

lemma redact_str_same:
  "rr_redactions_applied (snd (redact_str C f rules s res)) = rr_redactions_applied res \<Longrightarrow>
     redact_str C f rules s res = (s, res)"
proof (induction C f rules s res rule: redact_str.induct)
  case (2 C f rule rules out res)
  obtain new n where sub: "ac_subn C rule out = (new, n)" by fastforce
  show ?case
  proof (cases "n = 0")
    case True
    with 2 sub show ?thesis by simp
  next
    case False
    let ?r = "res\<lparr>rr_redactions_applied := rr_redactions_applied res + n,
      rr_rules_matched := append_new (ru_name rule) (rr_rules_matched res),
      rr_redacted_fields := append_new f (rr_redacted_fields res)\<rparr>"
    from False sub "2.prems" redact_str_le [of ?r C f rules new] show ?thesis by simp
  qed
qed simp

lemma redact_value_le:
  "rr_redactions_applied res \<le> rr_redactions_applied (snd (redact_value C rules f v res))"
  "rr_redactions_applied res \<le> rr_redactions_applied (snd (redact_values C rules f vs res))"
  "rr_redactions_applied res \<le> rr_redactions_applied (snd (redact_items C rules f d res))"
proof (induction C rules f v res and C rules f vs res and C rules f d res
    rule: redact_value_redact_values_redact_items.induct)
  case (1 C rules f s res)
  then show ?case using redact_str_le [of res C f rules s] by (auto split: prod.splits)
next
  case (6 C rules f x xs res)
  then show ?case by (simp split: prod.splits) (metis le_trans snd_conv)
next
  case (8 C rules f k v d res)
  then show ?case by (simp split: prod.splits) (metis le_trans snd_conv)
qed (auto split: prod.splits)

lemma redact_value_same:
  "rr_redactions_applied (snd (redact_value C rules f v res)) = rr_redactions_applied res \<Longrightarrow>
     redact_value C rules f v res = (v, res)"
  "rr_redactions_applied (snd (redact_values C rules f vs res)) = rr_redactions_applied res \<Longrightarrow>
     redact_values C rules f vs res = (vs, res)"
  "rr_redactions_applied (snd (redact_items C rules f d res)) = rr_redactions_applied res \<Longrightarrow>
     redact_items C rules f d res = (d, res)"
proof (induction C rules f v res and C rules f vs res and C rules f d res
    rule: redact_value_redact_values_redact_items.induct)
  case (1 C rules f s res)
  then show ?case using redact_str_same [of C f rules s res] by (simp split: prod.splits)
next
  case (6 C rules f x xs res)
  obtain y r where x: "redact_value C rules f x res = (y, r)" by fastforce
  obtain ys r' where xs: "redact_values C rules f xs r = (ys, r')" by fastforce
  have "rr_redactions_applied res \<le> rr_redactions_applied r" "rr_redactions_applied r \<le> rr_redactions_applied r'"
    using redact_value_le(1) [of res C rules f x] redact_value_le(2) [of r C rules f xs] x xs by simp_all
  with 6 x xs show ?case by simp
next
  case (8 C rules f k v d res)
  obtain y r where v: "redact_value C rules (f @ ''.'' @ k) v res = (y, r)" by fastforce
  obtain ys r' where d: "redact_items C rules f d r = (ys, r')" by fastforce
  have "rr_redactions_applied res \<le> rr_redactions_applied r" "rr_redactions_applied r \<le> rr_redactions_applied r'"
    using redact_value_le(1) [of res C rules "f @ ''.'' @ k" v] redact_value_le(3) [of r C rules f d] v d
    by simp_all
  with 8 v d show ?case by simp
qed (auto split: prod.splits)

lemma redact_string_fields_le:
  "rr_redactions_applied res \<le> rr_redactions_applied (snd (redact_string_fields C act r fs res))"
proof (induction C act r fs res rule: redact_string_fields.induct)
  case (2 C act r f fs res)
  show ?case
  proof (cases "string_field f r")
    case None
    with 2 show ?thesis by simp
  next
    case (Some s)
    with 2 redact_str_le [of res C f "applicable act f" s] show ?thesis
      by (cases s) (fastforce split: prod.splits dest: le_trans)+
  qed
qed simp

lemma redact_string_fields_same:
  "rr_redactions_applied (snd (redact_string_fields C act r fs res)) = rr_redactions_applied res \<Longrightarrow>
     redact_string_fields C act r fs res = ([], res)"
proof (induction C act r fs res rule: redact_string_fields.induct)
  case (2 C act r f fs res)
  show ?case
  proof (cases "\<exists>c cs. string_field f r = Some (c # cs)")
    case False
    with 2 show ?thesis by (auto split: option.splits list.splits)
  next
    case True
    then obtain c cs where s: "string_field f r = Some (c # cs)" by blast
    obtain new res1 where str: "redact_str C f (applicable act f) (c # cs) res = (new, res1)" by fastforce
    have "rr_redactions_applied res \<le> rr_redactions_applied res1"
      and "rr_redactions_applied res1 \<le> rr_redactions_applied (snd (redact_string_fields C act r fs res1))"
      using redact_str_le [of res C f "applicable act f" "c # cs"] str redact_string_fields_le by auto
    with "2.prems" s str have "rr_redactions_applied res1 = rr_redactions_applied res"
      by (auto split: prod.splits)
    with str have "new = c # cs" "res1 = res"
      using redact_str_same [of C f "applicable act f" "c # cs" res] by simp_all
    with 2 s str show ?thesis by (auto split: prod.splits)
  qed
qed simp

lemma redact_none:
  assumes "rr_redactions_applied (snd (redact C rules flr r)) = 0"
  shows "fst (redact C rules flr r) = r"
proof -
  let ?act = "active_rules rules flr"
  obtain upd res1 where a: "redact_string_fields C ?act r STRING_FIELDS no_redactions = (upd, res1)"
    by fastforce
  obtain meta res2 where b: "redact_metadata C ?act r res1 = (meta, res2)" by fastforce
  have "rr_redactions_applied res2 = 0"
    using assms a b by (auto simp: redact_def Let_def split: if_splits)
  moreover have "rr_redactions_applied res1 \<le> rr_redactions_applied res2"
    using b redact_value_le(3) [of res1 C "applicable ?act ''metadata''" "''metadata''" "ar_metadata r"]
    by (auto simp: redact_metadata_def split: if_splits)
  ultimately have z: "rr_redactions_applied res1 = 0" "rr_redactions_applied res2 = rr_redactions_applied res1"
    by simp_all
  have "upd = []" using a z redact_string_fields_same [of C ?act r STRING_FIELDS no_redactions]
    by (simp add: no_redactions_def)
  moreover have "meta = ar_metadata r"
    using b z redact_value_same(3) [of C "applicable ?act ''metadata''" "''metadata''" "ar_metadata r" res1]
    by (auto simp: redact_metadata_def split: if_splits)
  ultimately show ?thesis using a b by (simp add: redact_def Let_def)
qed

lemma frame_set_string_field [simp]: "record_frame (set_string_field u r) = record_frame r"
  by (cases u) (simp add: set_string_field_def record_frame_def)

lemma frame_fold [simp]: "record_frame (fold set_string_field upd r) = record_frame r"
  by (induction upd arbitrary: r) simp_all

lemma frame_update [simp]:
  "record_frame (r\<lparr>ar_metadata := m, ar_content_hash := h\<rparr>) = record_frame r"
  "record_frame (r\<lparr>ar_content_hash := h\<rparr>) = record_frame r"
  "record_frame (r\<lparr>ar_metadata := m\<rparr>) = record_frame r"
  by (simp_all add: record_frame_def)

lemma frame_event_id: "record_frame (r\<lparr>ar_event_id := i\<rparr>) = (record_frame r)\<lparr>ar_event_id := i\<rparr>"
  by (simp add: record_frame_def)

lemma redact_frame: "record_frame (fst (redact C rules flr r)) = record_frame r"
  by (simp add: redact_def Let_def split: prod.split)

lemma frame_prev: "record_frame r = record_frame s \<Longrightarrow> ar_prev_event_hash r = ar_prev_event_hash s"
  by (drule arg_cong [where f = ar_prev_event_hash]) (simp add: record_frame_def)

lemma chain_to_own_prev_frame:
  "p = ar_prev_event_hash r \<Longrightarrow> record_frame (chain_to_previous C r p) = record_frame r"
  by (simp add: chain_to_previous_def Let_def record_frame_def)

lemma apply_redaction_frame: "record_frame (apply_redaction C r) = record_frame r"
proof -
  obtain red sm where "redact C None Default r = (red, sm)" by fastforce
  with redact_frame [of C None Default r] show ?thesis
    by (simp add: apply_redaction_def Let_def chain_to_own_prev_frame)
qed

abbreviation hash_valid :: "audit_codec \<Rightarrow> audit_record \<Rightarrow> bool" where
  "hash_valid C r \<equiv> ar_content_hash r = Some (compute_content_hash C r)"

lemma hash_valid_chain [simp]: "hash_valid C (chain_to_previous C r p)"
  using ar.hash_seal [where p = p and e = r] by (simp add: compute_content_hash_def)

lemma prev_chain [simp]: "ar_prev_event_hash (chain_to_previous C r p) = p"
  by (rule ar.prev_seal)

lemma apply_redaction_hash: "hash_valid C r \<Longrightarrow> hash_valid C (apply_redaction C r)"
  by (simp add: apply_redaction_def Let_def split: prod.split)

lemma compute_event_id [simp]:
  "compute_content_hash C (r\<lparr>ar_event_id := i\<rparr>) = compute_content_hash C r"
  by (simp add: compute_content_hash_def audit_core_def)

section \<open>Writes extend the table\<close>

lemma write_via_psqlE:
  assumes "write_via_psql C url env skip r db = (Inr n, db')" and "hash_valid C r"
  obtains row where "ad_rows db' = ad_rows db @ [(n, row)]" and "n = ad_seq db + 1" and "ad_seq db' = n"
    and "hash_valid C row" and "record_frame row = record_frame (r\<lparr>ar_event_id := None\<rparr>)"
    and "length (the (ar_content_hash row)) = 64" and "ar_prev_event_hash row = ar_prev_event_hash r"
proof -
  let ?r = "if \<not> skip \<and> redact_enabled env then apply_redaction C r else r"
  have h: "hash_valid C ?r" using assms(2) by (simp add: apply_redaction_hash)
  have f: "record_frame ?r = record_frame r" by (simp add: apply_redaction_frame)
  have prev: "ar_prev_event_hash ?r = ar_prev_event_hash r" using f by (rule frame_prev)
  have "db_insert (?r\<lparr>ar_event_id := None\<rparr>) db = (Inr n, db')"
    using assms(1) h
    by (auto simp: write_via_psql_def eff_simps serialize_for_postgres_def Let_def split: if_splits)
  then show thesis
  proof (intro that [of "?r\<lparr>ar_event_id := None\<rparr>"], goal_cases)
    case 5
    from f show ?case by (simp only: frame_event_id)
  next
    case 6
    with h show ?case
      by (auto simp: db_insert_def db_accepts_def Let_def compute_content_hash_def split: if_splits)
  qed (use h prev in \<open>auto simp: db_insert_def Let_def split: if_splits\<close>)
qed

lemma write_via_psql_fail:
  "write_via_psql C url env skip r db = (Inl e, db') \<Longrightarrow> ad_rows db' = ad_rows db"
  by (auto simp: write_via_psql_def eff_simps db_insert_def Let_def serialize_for_postgres_def
      split: if_splits)

lemma integrity_view_snoc:
  "integrity_view e (rows @ [(i, r)]) = integrity_view e rows @
     (if 1 < i \<and> ar_prev_event_hash r \<noteq> (if rows = [] then e else ar_content_hash (snd (last rows)))
      then [(i, r)] else [])"
  by (induction e rows rule: integrity_view.induct) auto

text \<open>The invariant of the table: every stored hash is that of the row, and each row links to the last.\<close>

definition audit_db_ok :: "audit_codec \<Rightarrow> audit_db \<Rightarrow> bool" where
  "audit_db_ok C db \<longleftrightarrow> ar.links C None (map snd (ad_rows db)) \<and>
     integrity_view None (ad_rows db) = [] \<and>
     list_all (\<lambda>(i, r). ar_content_hash r \<noteq> Some []) (ad_rows db)"

lemma table_tip_eq: "table_tip db = ar.tip None (map snd (ad_rows db))"
  by (simp add: table_tip_def ar.tip_def last_map)

lemma tip_write_ok:
  assumes "audit_db_ok C db"
  shows "audit_db_ok C (run_state (tip_write C url env True r) db)"
proof (cases "validate_record C r")
  case (Inl e)
  with assms show ?thesis by (simp add: tip_write_def eff_simps)
next
  case (Inr rec)
  let ?rows = "ad_rows db"
  let ?tip = "case table_tip db of Some (c # cs) \<Rightarrow> table_tip db | _ \<Rightarrow> None"
  have tip: "?tip = table_tip db"
  proof (cases ?rows rule: rev_cases)
    case (snoc ys y)
    with assms show ?thesis
      by (cases y) (auto simp: audit_db_ok_def table_tip_def split: option.split list.split)
  qed (simp add: table_tip_def)
  obtain v db' where w: "write_via_psql C url env False (chain_to_previous C rec ?tip) db = (v, db')"
    by fastforce
  then have st: "run_state (tip_write C url env True r) db = db'"
    using Inr by (simp add: tip_write_def read_tip_def eff_simps)
  show ?thesis
  proof (cases v)
    case (Inl e)
    with w write_via_psql_fail have "ad_rows db' = ?rows" by blast
    with assms st show ?thesis by (simp add: audit_db_ok_def)
  next
    case (Inr n)
    with w have "write_via_psql C url env False (chain_to_previous C rec ?tip) db = (Inr n, db')" by simp
    from write_via_psqlE [OF this hash_valid_chain] obtain row
      where row: "ad_rows db' = ?rows @ [(n, row)]" "hash_valid C row"
      "length (the (ar_content_hash row)) = 64" "ar_prev_event_hash row = ?tip"
      by (metis prev_chain)
    then have prev: "ar_prev_event_hash row = table_tip db" using tip by simp
    have "ar.links C None (map snd (ad_rows db'))"
      using assms row prev by (simp add: audit_db_ok_def ar.links_append table_tip_eq compute_content_hash_def)
    with assms row prev st show ?thesis
      by (auto simp: audit_db_ok_def integrity_view_snoc table_tip_def)
  qed
qed

section \<open>Paging\<close>

lemma code_lines_lf:
  "filter (\<lambda>l. l \<noteq> []) (code_lines cur (s @ 10 # t)) =
   filter (\<lambda>l. l \<noteq> []) (code_lines cur s) @ filter (\<lambda>l. l \<noteq> []) (code_lines [] t)"
proof (induction cur s rule: code_lines.induct)
  case (1 cur)
  show ?case by (cases t) (auto simp: line_boundary_def)
next
  case (2 cur c)
  show ?case by (cases t) (auto simp: line_boundary_def)
next
  case (3 cur c d cs)
  then show ?case by auto
qed

lemma page_lines_lf: "page_lines (s @ 10 # t) = page_lines s @ page_lines t"
  unfolding page_lines_def by (rule code_lines_lf)

lemma page_lines_rows: "page_lines (concat (map (\<lambda>r. r @ [10]) rs)) = concat (map page_lines rs)"
  by (induction rs) (simp_all add: page_lines_lf)

lemma code_lines_clean:
  "\<forall>c \<in> set s. \<not> line_boundary c \<Longrightarrow> code_lines cur s = (if cur = [] \<and> s = [] then [] else [rev cur @ s])"
  by (induction cur s rule: code_lines.induct) (auto simp: line_boundary_def)

lemma page_lines_clean:
  "s \<noteq> [] \<Longrightarrow> \<forall>c \<in> set s. \<not> line_boundary c \<Longrightarrow> page_lines s = [s]"
  by (simp add: page_lines_def code_lines_clean)

lemma code_lines_start:
  assumes "cur \<noteq> [] \<or> (s \<noteq> [] \<and> \<not> line_boundary (hd s))"
  shows "filter (\<lambda>l. l \<noteq> []) (code_lines cur s) \<noteq> []"
  using assms by (induction cur s rule: code_lines.induct) (auto simp: line_boundary_def)

lemma map_filter_append: "List.map_filter f (xs @ ys) = List.map_filter f xs @ List.map_filter f ys"
  by (simp add: List.map_filter_def)

lemma length_concat_map: "\<forall>x \<in> set xs. f x \<noteq> [] \<Longrightarrow> length xs \<le> length (concat (map f xs))"
proof (induction xs)
  case (Cons x xs)
  then have "1 \<le> length (f x)" by (cases "f x") auto
  with Cons show ?case by simp
qed simp

text \<open>
  What the paging yields in general: a row begins with a brace, so that every page gives at least as
  many lines as it has rows, and the loop stops exactly behind the last row.
\<close>

lemma stream_rows_drop:
  assumes "1 \<le> chunk" and "\<forall>r \<in> set rows. r \<noteq> [] \<and> \<not> line_boundary (hd r)"
  shows "stream_rows parse rows chunk offset = List.map_filter parse (concat (map page_lines (drop offset rows)))"
  using assms
proof (induction parse rows chunk offset rule: stream_rows.induct)
  case (1 parse rows chunk offset)
  let ?page = "take chunk (drop offset rows)"
  let ?lines = "page_lines (psql_page rows chunk offset)"
  have lines: "?lines = concat (map page_lines ?page)" by (simp add: psql_page_def page_lines_rows)
  have "page_lines r \<noteq> []" if "r \<in> set ?page" for r
  proof -
    from that have "r \<in> set rows" by (meson in_set_takeD in_set_dropD)
    with "1.prems"(2) show ?thesis
      unfolding page_lines_def by (intro code_lines_start) simp
  qed
  then have many: "length ?page \<le> length ?lines" unfolding lines by (intro length_concat_map) blast
  have split: "drop offset rows = ?page @ drop (offset + chunk) rows"
    by (metis append_take_drop_id drop_drop add.commute)
  show ?case
  proof (cases "?lines = []")
    case True
    with many have "?page = []" by (metis le_zero_eq length_0_conv list.size(3))
    with "1.prems"(1) have "drop offset rows = []" by (cases "drop offset rows"; cases chunk) auto
    with True show ?thesis by (subst stream_rows.simps) (simp add: List.map_filter_def)
  next
    case ne: False
    show ?thesis
    proof (cases "length ?lines < chunk")
      case True
      with many have "length ?page < chunk" by simp
      then have "drop (offset + chunk) rows = []" by simp
      with split have "drop offset rows = ?page" by simp
      with lines have "concat (map page_lines (drop offset rows)) = ?lines" by metis
      with ne True show ?thesis by (subst stream_rows.simps) (simp only: Let_def if_False if_True append_Nil2)
    next
      case False
      with ne "1.prems" have "stream_rows parse rows chunk (offset + chunk) =
          List.map_filter parse (concat (map page_lines (drop (offset + chunk) rows)))"
        by (intro "1.IH") auto
      moreover have "concat (map page_lines (drop offset rows)) =
          ?lines @ concat (map page_lines (drop (offset + chunk) rows))"
        using split lines by (metis concat_append map_append)
      ultimately show ?thesis
        using ne False by (subst stream_rows.simps) (simp only: Let_def if_False map_filter_append)
    qed
  qed
qed

section \<open>Properties\<close>

definition empty_audit_db :: audit_db where
  "empty_audit_db = \<lparr>ad_rows = [], ad_seq = 0\<rparr>"

text \<open>A sequence of writes, one after the other, each with whether its query for the tip answers.\<close>

definition tip_writes :: "audit_codec \<Rightarrow> string option \<Rightarrow> string option \<Rightarrow> (bool \<times> audit_record) list \<Rightarrow> audit_db \<Rightarrow> audit_db" where
  "tip_writes C url env ws db = fold (\<lambda>(answers, r). run_state (tip_write C url env answers r)) ws db"

lemma tip_writes_ok:
  "list_all fst ws \<Longrightarrow> audit_db_ok C db \<Longrightarrow> audit_db_ok C (tip_writes C url env ws db)"
  unfolding tip_writes_def by (induction ws arbitrary: db) (auto simp: tip_write_ok)

text \<open>
  Claim C8. Writes that follow one another and whose query for the tip answers keep the audit chain
  whole: whatever records they write into an empty table, in whatever order and whether the redactor
  rewrites them, validation rejects them or an insert is refused, the stored rows form a hash chain
  and the integrity view reports nothing. (A write whose query fails is chained to nothing: see
  \<open>failed_tip_is_flagged\<close>.)
\<close>

theorem tip_writes_keep_chain:
  assumes "list_all fst ws"
  shows "ar.links C None (map snd (ad_rows (tip_writes C url env ws empty_audit_db))) \<and>
    integrity_view None (ad_rows (tip_writes C url env ws empty_audit_db)) = []"
proof -
  have "audit_db_ok C empty_audit_db"
    by (simp add: audit_db_ok_def empty_audit_db_def)
  from tip_writes_ok [OF assms this] show ?thesis by (simp add: audit_db_ok_def)
qed

text \<open>
  A writer that chains to nothing breaks it: a row written with
  \<open>prev_hash=None\<close> into a table that already holds hashed rows is reported by the integrity view
  as if it had been tampered with.
\<close>

lemma unlinked_row_flagged:
  assumes "unlinked_write C url env r db = (Inr n, db')" and "ad_rows db \<noteq> []"
    and "1 \<le> ad_seq db" and "ar_content_hash (snd (last (ad_rows db))) \<noteq> None"
  shows "\<exists>row. integrity_view None (ad_rows db') = integrity_view None (ad_rows db) @ [(n, row)]"
proof -
  from assms(1) obtain rec where
    w: "write_via_psql C url env False (chain_to_previous C rec None) db = (Inr n, db')"
    by (cases "validate_record C r") (auto simp: unlinked_write_def eff_simps)
  obtain row where "ad_rows db' = ad_rows db @ [(n, row)]" and "n = ad_seq db + 1"
    and "ar_prev_event_hash row = None"
    by (rule write_via_psqlE [OF w hash_valid_chain]) (simp only: prev_chain)
  with assms(2-4) show ?thesis by (auto simp: integrity_view_snoc)
qed

theorem unlinked_write_is_flagged:
  assumes "unlinked_write C url env r db = (Inr n, db')" and "ad_rows db \<noteq> []"
    and "1 \<le> ad_seq db" and "ar_content_hash (snd (last (ad_rows db))) \<noteq> None"
  shows "\<exists>row. integrity_view None (ad_rows db') = integrity_view None (ad_rows db) @ [(n, row)]"
  using assms by (rule unlinked_row_flagged)

definition demo_audit_codec :: audit_codec where
  "demo_audit_codec = \<lparr>ac_payload = ar_role, ac_sha = (\<lambda>x. replicate 64 (CHR ''a'')),
     ac_subn = (\<lambda>rule s. (s, 0))\<rparr>"

definition demo_audit_record :: "uuid \<Rightarrow> audit_record" where
  "demo_audit_record u = blank_record u 0 None ''conductor'' ''orchestrator'' ''gate_check'' ''op''"

definition demo_audit_db :: audit_db where
  "demo_audit_db = \<lparr>ad_rows = [(1, (demo_audit_record 1)\<lparr>ar_content_hash := Some (replicate 64 (CHR ''a''))\<rparr>)],
     ad_seq = 1\<rparr>"

lemma demo_no_redaction: "apply_redaction demo_audit_codec r = r"
proof -
  have str: "redact_str demo_audit_codec f rules s res = (s, res)" for f rules s res
    by (induction rules) (simp_all add: demo_audit_codec_def)
  have fields: "redact_string_fields demo_audit_codec act r fs res = ([], res)" for act fs res
    by (induction fs) (auto simp: str split: option.split list.split)
  have items: "redact_value demo_audit_codec rules f v res = (v, res)"
    "redact_values demo_audit_codec rules f vs res = (vs, res)"
    "redact_items demo_audit_codec rules f d res = (d, res)" for rules f v vs d res
    by (induction demo_audit_codec rules f v res and demo_audit_codec rules f vs res and
        demo_audit_codec rules f d res rule: redact_value_redact_values_redact_items.induct)
      (simp_all add: str)
  show ?thesis
    by (simp add: apply_redaction_def redact_def Let_def fields redact_metadata_def items no_redactions_def)
qed

theorem unlinked_write_is_flagged_witness:
  "\<exists>n db' row. unlinked_write demo_audit_codec (Some ''db'') None (demo_audit_record 2) demo_audit_db = (Inr n, db') \<and>
     integrity_view None (ad_rows db') = [(n, row)]"
proof -
  let ?w = "unlinked_write demo_audit_codec (Some ''db'') None (demo_audit_record 2) demo_audit_db"
  have w: "?w = (Inr 2, snd ?w)"
    by (simp add: unlinked_write_def validate_record_def field_faults_def demo_audit_record_def
        blank_record_def ALLOWED_SUBSYSTEMS_def eff_simps write_via_psql_def Let_def demo_no_redaction
        serialize_for_postgres_def chain_to_previous_def db_insert_def db_accepts_def demo_audit_db_def
        compute_content_hash_def, simp add: demo_audit_codec_def)
  show ?thesis
    using unlinked_write_is_flagged [OF w] w by (auto simp: demo_audit_db_def)
qed

lemma demo_tip_write:
  assumes "u \<notin> ar_event_uuid ` snd ` set (ad_rows db)"
  shows "run_state (tip_write demo_audit_codec (Some ''db'') None True (demo_audit_record u)) db =
    (let n = ad_seq db + 1 in
     db\<lparr>ad_seq := n, ad_rows := ad_rows db @ [(n, (demo_audit_record u)
       \<lparr>ar_prev_event_hash := (case table_tip db of Some (c # cs) \<Rightarrow> table_tip db | _ \<Rightarrow> None),
        ar_content_hash := Some (replicate 64 (CHR ''a''))\<rparr>)]\<rparr>)"
proof -
  let ?h = "Some (replicate 64 (CHR ''a''))"
  have hash: "compute_content_hash demo_audit_codec r = replicate 64 (CHR ''a'')" for r
    by (simp add: compute_content_hash_def demo_audit_codec_def)
  have "validate_record demo_audit_codec (demo_audit_record u) = Inr (demo_audit_record u)"
    by (simp add: validate_record_def field_faults_def demo_audit_record_def blank_record_def ALLOWED_SUBSYSTEMS_def)
  moreover have "db_accepts db ((demo_audit_record u)\<lparr>ar_prev_event_hash := p, ar_content_hash := ?h\<rparr>)" for p
    using assms by (simp add: db_accepts_def demo_audit_record_def blank_record_def ALLOWED_SUBSYSTEMS_def)
  moreover have "(demo_audit_record u)\<lparr>ar_prev_event_hash := p, ar_content_hash := ?h, ar_event_id := None\<rparr> =
      (demo_audit_record u)\<lparr>ar_prev_event_hash := p, ar_content_hash := ?h\<rparr>" for p
    by (simp add: demo_audit_record_def blank_record_def)
  ultimately show ?thesis
    by (simp add: tip_write_def read_tip_def eff_simps write_via_psql_def demo_no_redaction hash
        serialize_for_postgres_def chain_to_previous_def db_insert_def Let_def del: replicate.simps)
qed

theorem tip_writes_keep_chain_witness:
  "integrity_view None (ad_rows (tip_writes demo_audit_codec (Some ''db'') None
     [(True, demo_audit_record 1), (True, demo_audit_record 2)] empty_audit_db)) = [] \<and>
   map fst (ad_rows (tip_writes demo_audit_codec (Some ''db'') None
     [(True, demo_audit_record 1), (True, demo_audit_record 2)] empty_audit_db)) = [1, 2]"
proof (rule conjI)
  let ?ws = "[(True, demo_audit_record 1), (True, demo_audit_record 2)]"
  show "integrity_view None (ad_rows (tip_writes demo_audit_codec (Some ''db'') None ?ws empty_audit_db)) = []"
    using tip_writes_keep_chain [of ?ws demo_audit_codec "Some ''db''" None] by simp
  show "map fst (ad_rows (tip_writes demo_audit_codec (Some ''db'') None ?ws empty_audit_db)) = [1, 2]"
  proof -
    have u: "ar_event_uuid (demo_audit_record u) = u" for u
      by (simp add: demo_audit_record_def blank_record_def)
    show ?thesis
      by (simp add: tip_writes_def demo_tip_write u empty_audit_db_def Let_def del: replicate.simps)
  qed
qed

text \<open>
  The path on which the tip cannot be read: the record is written all the same, chained to nothing,
  and the integrity view reports it wherever the table held a hashed row before.
\<close>

theorem failed_tip_is_flagged:
  assumes "tip_write C url env False r db = (Inr n, db')" and "ad_rows db \<noteq> []"
    and "1 \<le> ad_seq db" and "ar_content_hash (snd (last (ad_rows db))) \<noteq> None"
  shows "\<exists>row. integrity_view None (ad_rows db') = integrity_view None (ad_rows db) @ [(n, row)]"
proof -
  have "unlinked_write C url env r db = (Inr n, db')"
    using assms(1) by (simp add: tip_write_def read_tip_def unlinked_write_def eff_simps)
  from unlinked_row_flagged [OF this assms(2-4)] show ?thesis .
qed



text \<open>
  The redactor reports honestly: when its summary counts no redaction the record
  comes back unchanged, and in every case the hashes of prompt and output, the link, the
  identifiers and the classification fields are untouched.
\<close>

theorem redact_reports_honestly:
  "(0 < rr_redactions_applied (snd (redact C rules flr r)) \<or> fst (redact C rules flr r) = r) \<and>
   record_frame (fst (redact C rules flr r)) = record_frame r"
  using redact_none [of C rules flr r] by (auto simp: redact_frame)

text \<open>
  An organisation's redaction rules override the defaults by name and never drop the
  others: the rule in force under a name is the last custom rule of that name, or else the
  default one, and each name occurs once.
\<close>

theorem org_rules_override:
  "map_of (map (\<lambda>r. (ru_name r, r)) (load_org_rules (Some rs))) n =
     (case find (\<lambda>r. ru_name r = n) (rev rs) of
        Some r \<Rightarrow> Some r | None \<Rightarrow> map_of (map (\<lambda>r. (ru_name r, r)) DEFAULT_RULES) n) \<and>
   distinct (map ru_name (load_org_rules (Some rs)))"
proof -
  let ?defaults = "map (\<lambda>r. (ru_name r, r)) DEFAULT_RULES"
  let ?d = "fold (\<lambda>r d. AList.update (ru_name r) r d) rs ?defaults"
  have keyed: "\<forall>(k, v) \<in> set ?d. k = ru_name v"
    by (rule fold_update_keyed) auto
  have dist: "distinct (map fst ?d)"
    by (rule fold_update_dict_ok) (simp add: DEFAULT_RULES_def default_rule_def)
  have val: "map_of ?d n = (case find (\<lambda>r. ru_name r = n) (rev rs) of
      Some r \<Rightarrow> Some r | None \<Rightarrow> map_of ?defaults n)"
    by (rule map_of_fold_update)
  have pairs: "map (\<lambda>r. (ru_name r, r)) (map snd ?d) = ?d"
    unfolding map_map by (rule map_idI) (use keyed in auto)
  then have "map ru_name (map snd ?d) = map fst ?d"
    by (metis (no_types, lifting) fst_conv list.map_comp map_cong comp_apply)
  then show ?thesis
    unfolding load_org_rules_def option.case pairs using val dist by metis
qed

text \<open>
  Claim C40. The exporter's paging is complete: over a table that does not change while it is read and
  whose matching rows hold no line boundary (their JSON text is not empty and has no control
  character and none of U+0085, U+2028 and U+2029, at which \<open>splitlines\<close> would cut it), reading page
  after page with a chunk size of at least one ends and gives every row that parses, once, in order.
\<close>

theorem stream_rows_complete:
  assumes "1 \<le> chunk" and "\<forall>r \<in> set rows. r \<noteq> [] \<and> (\<forall>c \<in> set r. \<not> line_boundary c)"
  shows "stream_rows parse rows chunk 0 = List.map_filter parse rows"
proof -
  from assms(2) have start: "\<forall>r \<in> set rows. r \<noteq> [] \<and> \<not> line_boundary (hd r)"
    by (meson hd_in_set)
  from assms(2) have "concat (map page_lines rows) = rows"
    by (induction rows) (simp_all add: page_lines_clean)
  then show ?thesis by (simp add: stream_rows_drop [OF assms(1) start])
qed

theorem stream_rows_complete_witness:
  "stream_rows (\<lambda>x. if x = [123] then None else Some (length x)) [[123, 125], [123], [123, 49, 125], [123, 233, 50, 125]] 2 0 = [2, 3, 4]"
  using stream_rows_complete [of 2 "[[123, 125], [123], [123, 49, 125], [123, 233, 50, 125]]"
    "\<lambda>x. if x = [123] then None else Some (length x)"]
  by (simp add: List.map_filter_def line_boundary_def)

text \<open>
  A row whose text holds one of the boundaries that JSON leaves unescaped comes back in two pieces,
  neither of which is the row: when neither parses, the row is missing from the export.
\<close>

theorem cut_row_is_lost:
  assumes "1 \<le> chunk" and "a \<noteq> []" and "b \<noteq> []" and "\<forall>c \<in> set (a @ b). \<not> line_boundary c"
    and "line_boundary s" and "s \<noteq> 10" and "s \<noteq> 13" and "parse a = None" and "parse b = None"
  shows "stream_rows parse [a @ s # b] chunk 0 = []"
proof -
  have "code_lines cur (xs @ s # b) = rev cur # code_lines [] b" if "xs = []" for cur xs
    using that assms(3,5-7) by (cases b) simp_all
  then have *: "code_lines cur (xs @ s # b) = (rev cur @ xs) # code_lines [] b"
    if "\<forall>c \<in> set xs. \<not> line_boundary c" for cur xs
    using that
  proof (induction xs arbitrary: cur)
    case (Cons x xs)
    then show ?case by (cases "xs @ s # b") (auto simp: line_boundary_def)
  qed simp
  have "page_lines (a @ s # b) = [a, b]"
    using assms(2-4) * [of a "[]"] by (simp add: page_lines_def code_lines_clean)
  moreover have "a @ s # b \<noteq> [] \<and> \<not> line_boundary (hd (a @ s # b))"
    using assms(2,4) by (cases a) auto
  ultimately show ?thesis
    using stream_rows_drop [OF assms(1), of "[a @ s # b]" parse 0] assms(8,9)
    by (simp add: List.map_filter_def)
qed

end
