(* ===== verification/Bytes.thy ===== *)
theory Bytes
  imports Prelude "HOL-Library.Word"
begin

text \<open>
  Bytes and their text encodings from the Python standard library: a \<open>bytes\<close> object is a
  \<open>string\<close> of characters 0 to 255; \<open>bytes.hex\<close>, \<open>bytes.fromhex\<close> on text without blanks,
  \<open>base64.b64encode\<close> and \<open>base64.b64decode(..., validate=True)\<close>. Each decoder is proved to invert
  its encoder.
\<close>

section \<open>Hexadecimal\<close>

definition hex_char :: "nat \<Rightarrow> char" where
  "hex_char n = char_of (if n < 10 then 48 + n else 87 + n)"

definition hex_val :: "char \<Rightarrow> nat option" where
  "hex_val c = (let n = (of_char c :: nat) in
     if 48 \<le> n \<and> n \<le> 57 then Some (n - 48)
     else if 97 \<le> n \<and> n \<le> 102 then Some (n - 87)
     else if 65 \<le> n \<and> n \<le> 70 then Some (n - 55) else None)"

fun bytes_hex :: "string \<Rightarrow> string" where
  "bytes_hex [] = []"
| "bytes_hex (c # cs) =
     hex_char (of_char c div 16) # hex_char (of_char c mod 16) # bytes_hex cs"

fun bytes_fromhex :: "string \<Rightarrow> string option" where
  "bytes_fromhex [] = Some []"
| "bytes_fromhex [c] = None"
| "bytes_fromhex (c # d # cs) = (case (hex_val c, hex_val d, bytes_fromhex cs) of
     (Some h, Some l, Some bs) \<Rightarrow> Some (char_of (16 * h + l) # bs) | _ \<Rightarrow> None)"

definition is_hex :: "string \<Rightarrow> bool" where
  "is_hex s = list_all (\<lambda>c. hex_val c \<noteq> None) s"

lemma hex_char_cases: "n < 16 \<Longrightarrow> (of_char (hex_char n) :: nat) = (if n < 10 then 48 + n else 87 + n)"
  by (simp add: hex_char_def)

lemma hex_val_char: "n < 16 \<Longrightarrow> hex_val (hex_char n) = Some n"
  by (simp add: hex_val_def hex_char_cases Let_def)

lemma of_char_lt [simp]: "(of_char c :: nat) < 256"
  using range_nat_of_char by auto

lemma bytes_fromhex_hex [simp]: "bytes_fromhex (bytes_hex bs) = Some bs"
  by (induction bs) (simp_all add: hex_val_char div_less_iff_less_mult)

lemma is_hex_bytes_hex [simp]: "is_hex (bytes_hex bs)"
  by (induction bs) (simp_all add: is_hex_def hex_val_char div_less_iff_less_mult)

lemma length_bytes_hex [simp]: "length (bytes_hex bs) = 2 * length bs"
  by (induction bs) simp_all

lemma bytes_hex_inj: "bytes_hex a = bytes_hex b \<Longrightarrow> a = b"
  by (metis bytes_fromhex_hex option.inject)

lemma hex_val_range: "hex_val c = Some n \<Longrightarrow> \<not> py_space c"
  by (auto simp: hex_val_def py_space_def Let_def split: if_splits)

lemma is_hex_no_edge_space: "is_hex s \<Longrightarrow> no_edge_space s"
proof (cases "s = []")
  case False
  assume "is_hex s"
  with False have "hex_val (hd s) \<noteq> None" "hex_val (last s) \<noteq> None"
    by (simp_all add: is_hex_def list_all_iff)
  then show ?thesis by (auto simp: no_edge_space_def dest: hex_val_range)
qed (simp add: no_edge_space_def)

lemma py_strip_hex [simp]: "is_hex s \<Longrightarrow> py_strip s = s"
  by (rule py_strip_id) (rule is_hex_no_edge_space)

lemma is_hex_no_LF: "is_hex s \<Longrightarrow> CHR 0x0A \<notin> set s"
  by (auto simp: is_hex_def list_all_iff hex_val_def)

lemma length_bytes_fromhex: "bytes_fromhex s = Some b \<Longrightarrow> length s = 2 * length b"
  by (induction s arbitrary: b rule: bytes_fromhex.induct) (auto split: option.splits)

lemma bytes_fromhex_is_hex: "is_hex s \<Longrightarrow> even (length s) \<Longrightarrow> \<exists>b. bytes_fromhex s = Some b"
  by (induction s rule: bytes_fromhex.induct) (fastforce simp: is_hex_def)+

section \<open>Base64\<close>

definition b64_char :: "nat \<Rightarrow> char" where
  "b64_char n = char_of
     (if n < 26 then 65 + n else if n < 52 then 71 + n else if n < 62 then n - 4 else if n = 62 then 43 else 47)"

definition b64_val :: "char \<Rightarrow> nat option" where
  "b64_val c = (let n = (of_char c :: nat) in
     if 65 \<le> n \<and> n \<le> 90 then Some (n - 65)
     else if 97 \<le> n \<and> n \<le> 122 then Some (n - 71)
     else if 48 \<le> n \<and> n \<le> 57 then Some (n + 4)
     else if n = 43 then Some 62 else if n = 47 then Some 63 else None)"

abbreviation pad_char :: char where "pad_char \<equiv> CHR ''=''"

fun b64encode :: "string \<Rightarrow> string" where
  "b64encode [] = []"
| "b64encode [a] = (let x = of_char a in [b64_char (x div 4), b64_char (x mod 4 * 16), pad_char, pad_char])"
| "b64encode [a, b] = (let x = of_char a; y = of_char b in
     [b64_char (x div 4), b64_char (x mod 4 * 16 + y div 16), b64_char (y mod 16 * 4), pad_char])"
| "b64encode (a # b # c # cs) = (let x = of_char a; y = of_char b; z = of_char c in
     [b64_char (x div 4), b64_char (x mod 4 * 16 + y div 16), b64_char (y mod 16 * 4 + z div 64),
      b64_char (z mod 64)] @ b64encode cs)"

fun b64decode :: "string \<Rightarrow> string option" where
  "b64decode [] = Some []"
| "b64decode (a # b # c # d # cs) = (case (b64_val a, b64_val b) of
     (Some p, Some q) \<Rightarrow>
       if c = pad_char \<and> d = pad_char \<and> cs = [] then Some [char_of (p * 4 + q div 16)]
       else (case b64_val c of
         None \<Rightarrow> None
       | Some r \<Rightarrow>
           if d = pad_char \<and> cs = [] then Some [char_of (p * 4 + q div 16), char_of (q mod 16 * 16 + r div 4)]
           else (case (b64_val d, b64decode cs) of
             (Some s, Some bs) \<Rightarrow> Some (char_of (p * 4 + q div 16) # char_of (q mod 16 * 16 + r div 4) #
                 char_of (r mod 4 * 64 + s) # bs)
           | _ \<Rightarrow> None))
   | _ \<Rightarrow> None)"
| "b64decode _ = None"

lemma b64_val_char: "n < 64 \<Longrightarrow> b64_val (b64_char n) = Some n"
proof -
  assume "n < 64"
  then have "(of_char (b64_char n) :: nat) =
      (if n < 26 then 65 + n else if n < 52 then 71 + n else if n < 62 then n - 4 else if n = 62 then 43 else 47)"
    by (simp add: b64_char_def)
  with \<open>n < 64\<close> show ?thesis by (auto simp: b64_val_def Let_def split: if_splits)
qed

lemma b64_char_not_pad: "n < 64 \<Longrightarrow> b64_char n \<noteq> pad_char"
  using b64_val_char [of n] by (auto simp: b64_val_def)

lemma b64_regroup1:
  fixes x y :: nat assumes "x < 256" "y < 256"
  shows "x div 4 < 64" "x mod 4 * 16 + y div 16 < 64" "x mod 4 * 16 < 64"
    "x div 4 * 4 + (x mod 4 * 16 + y div 16) div 16 = x" "(x mod 4 * 16 + y div 16) mod 16 = y div 16"
    "x div 4 * 4 + (x mod 4 * 16) div 16 = x"
proof -
  have y: "y div 16 < 16" using assms(2) by (simp add: div_less_iff_less_mult)
  then show "x mod 4 * 16 + y div 16 < 64"
    using mod_less_divisor [of 4 x] by linarith
  show "(x mod 4 * 16 + y div 16) mod 16 = y div 16" using y by simp
  show "x div 4 < 64" using assms(1) by (simp add: div_less_iff_less_mult)
  show "x mod 4 * 16 < 64" using mod_less_divisor [of 4 x] by linarith
  have "(x mod 4 * 16 + y div 16) div 16 = x mod 4" using y by simp
  then show "x div 4 * 4 + (x mod 4 * 16 + y div 16) div 16 = x" by simp
qed simp

lemma b64_regroup2:
  fixes y z :: nat assumes "y < 256" "z < 256"
  shows "y mod 16 * 4 + z div 64 < 64" "y mod 16 * 4 < 64" "z mod 64 < 64"
    "y div 16 * 16 + (y mod 16 * 4 + z div 64) div 4 = y" "(y mod 16 * 4 + z div 64) mod 4 * 64 + z mod 64 = z"
    "y div 16 * 16 + (y mod 16 * 4) div 4 = y"
proof -
  have z: "z div 64 < 4" using assms(2) by (simp add: div_less_iff_less_mult)
  then show "y mod 16 * 4 + z div 64 < 64" "y mod 16 * 4 < 64"
    using mod_less_divisor [of 16 y] by linarith+
  have "(y mod 16 * 4 + z div 64) div 4 = y mod 16" "(y mod 16 * 4 + z div 64) mod 4 = z div 64"
    using z by simp_all
  then show "y div 16 * 16 + (y mod 16 * 4 + z div 64) div 4 = y"
    "(y mod 16 * 4 + z div 64) mod 4 * 64 + z mod 64 = z" by simp_all
qed simp_all

lemmas b64_regroup = b64_regroup1 [OF of_char_lt of_char_lt] b64_regroup2 [OF of_char_lt of_char_lt]
  b64_regroup1 [OF of_char_lt, of 0, simplified] b64_regroup2 [OF of_char_lt, of 0, simplified]

lemma byte_quotients:
  "(of_char c :: nat) div 16 div 16 = 0" "(of_char c :: nat) div 16 mod 16 = of_char c div 16"
  "(of_char c :: nat) div 64 div 4 = 0" "(of_char c :: nat) div 64 mod 4 = of_char c div 64"
  using of_char_lt [of c] by (simp_all add: div_less_iff_less_mult flip: div_mult2_eq)

lemma b64decode_encode [simp]: "b64decode (b64encode bs) = Some bs"
  by (induction bs rule: b64encode.induct)
    (simp_all add: Let_def b64_val_char b64_char_not_pad b64_regroup byte_quotients)

section \<open>Decimal numerals\<close>

definition numeral_value :: "string \<Rightarrow> nat" where
  "numeral_value s = foldl (\<lambda>n c. 10 * n + (of_char c - 48)) 0 s"

lemma numeral_value_str_nat [simp]: "numeral_value (str_nat n) = n"
proof (induction n rule: str_nat.induct)
  case (1 n)
  show ?case
  proof (cases "n < 10")
    case True
    then show ?thesis by (subst str_nat.simps) (simp add: numeral_value_def)
  next
    case False
    moreover have "n mod 10 < 10" by simp
    ultimately show ?thesis
      using "1.IH" by (subst str_nat.simps) (simp add: numeral_value_def)
  qed
qed

lemma str_nat_inj: "str_nat m = str_nat n \<Longrightarrow> m = n"
  by (metis numeral_value_str_nat)

text \<open>Cutting a text at its first line feed is unambiguous.\<close>

lemma cut_at_inj:
  "c \<notin> set a \<Longrightarrow> c \<notin> set b \<Longrightarrow> a @ c # x = b @ c # y \<longleftrightarrow> a = b \<and> x = y"
proof (induction a arbitrary: b)
  case Nil
  then show ?case by (cases b) auto
next
  case (Cons d a)
  then show ?case by (cases b) auto
qed

end
