(* ===== verification/License.thy ===== *)
theory License
  imports Secrets Bytes
begin

text \<open>
  \<open>license/bundle_verifier.py\<close>, \<open>license/feature_flags.py\<close>, the payload schema
  \<open>shared/schemas/license/bundle_v1.py\<close> and the gate
  \<open>shared/api/middleware/feature_flag.py\<close>: the signed license bundle, the process-wide active
  bundle and the gates that read it. Ed25519, SHA-256 and JSON parsing are the parameters of
  \<open>bundle_codec\<close>; the vendor key is read through the adapter interface of \<open>Secrets\<close>. The
  state machine of startup load and periodic re-verification is the relation \<open>license_step\<close>.
\<close>

section \<open>Schema\<close>

datatype license_tier = Free | Founder | Team | Enterprise | Airgapped | Custom
datatype quota_unit = Agents_per_month | Projects | Seats | Tokens_per_day | Runs_per_day

record feature_flag =
  ff_flag_name :: string
  ff_enabled :: bool
  ff_quota_value :: "int option"
  ff_quota_unit :: "quota_unit option"

record license_payload =
  lp_payload_version :: string
  lp_customer :: string
  lp_tier :: license_tier
  lp_bundle_id :: string
  lp_issued_at :: time
  lp_expires_at :: "time option"
  lp_feature_flags :: "feature_flag list"
  lp_notes :: "string option"

record signed_bundle =
  sb_payload_canonical_b64 :: string
  sb_signature_b64 :: string
  sb_signing_key_fingerprint :: string

definition BUNDLE_PAYLOAD_VERSION :: string where
  "BUNDLE_PAYLOAD_VERSION = ''license-bundle-v1''"

definition KNOWN_FEATURE_FLAGS :: "string list" where
  "KNOWN_FEATURE_FLAGS =
     [''federation'', ''hub_admin'', ''remote_mcp'', ''sso_oidc'', ''sso_scim'', ''channel_slack'',
      ''channel_pagerduty'', ''channel_sms'', ''channel_whatsapp'', ''channel_teams'',
      ''integration_github'', ''integration_linear'', ''integration_jira'', ''integration_vanta'',
      ''integration_drata'', ''role_devops'', ''role_customer_support'', ''role_compliance_officer'',
      ''role_security_engineer'', ''role_tech_writer'', ''role_release_manager'',
      ''quota_max_projects'', ''quota_max_concurrent_runs'', ''license_inspector'']"

text \<open>
  The first nine errors are the codes of \<open>BundleVerificationError\<close>. The others are exceptions of
  another class: a Pydantic refusal of the envelope, a key of the wrong length, a vault failure.
\<close>

datatype license_error =
    Cryptography_unavailable | Fingerprint_mismatch | Untrusted_vendor_key | Base64_decode_failed
  | Invalid_signature | Payload_parse_failed | Unknown_payload_version
  | Bad_vendor_pubkey_format | No_active_bundle
  | Envelope_invalid | Bad_key_length | Vault_error secret_error | Unknown_flag

definition is_bundle_error :: "license_error \<Rightarrow> bool" where
  "is_bundle_error e = (case e of
     Envelope_invalid \<Rightarrow> False | Bad_key_length \<Rightarrow> False | Vault_error _ \<Rightarrow> False | Unknown_flag \<Rightarrow> False
   | _ \<Rightarrow> True)"

text \<open>
  \<open>bc_ed_verify k s m\<close> is \<open>Ed25519PublicKey.from_public_bytes(k).verify(s, m)\<close> not raising,
  \<open>bc_parse\<close> is \<open>LicenseBundlePayload.model_validate(json.loads(...))\<close>.
\<close>

record bundle_codec =
  bc_crypto_available :: bool
  bc_trusted_fp :: string
  bc_sha :: "string \<Rightarrow> string"
  bc_ed_verify :: "string \<Rightarrow> string \<Rightarrow> string \<Rightarrow> bool"
  bc_parse :: "string \<Rightarrow> license_payload option"

definition fingerprint :: "bundle_codec \<Rightarrow> string \<Rightarrow> string" where
  "fingerprint C key = bytes_hex (bc_sha C key)"

section \<open>Verification\<close>

definition make_envelope :: "string \<Rightarrow> string \<Rightarrow> string \<Rightarrow> (license_error, signed_bundle) res" where
  "make_envelope p0 s0 fp0 =
     (let p = py_strip p0; s = py_strip s0; fp = py_strip fp0 in
      if p \<noteq> [] \<and> s \<noteq> [] \<and> length fp = 64 \<and> is_hex fp \<and> py_lower fp = fp
      then Inr \<lparr>sb_payload_canonical_b64 = p, sb_signature_b64 = s, sb_signing_key_fingerprint = fp\<rparr>
      else Inl Envelope_invalid)"

definition verify_signature :: "bundle_codec \<Rightarrow> signed_bundle \<Rightarrow> string \<Rightarrow> (license_error, license_payload) res" where
  "verify_signature C env key =
     (if \<not> bc_crypto_available C then Inl Cryptography_unavailable
      else if py_lower (sb_signing_key_fingerprint env) \<noteq> fingerprint C key then Inl Fingerprint_mismatch
      else if fingerprint C key \<noteq> bc_trusted_fp C then Inl Untrusted_vendor_key
      else case (b64decode (sb_payload_canonical_b64 env), b64decode (sb_signature_b64 env)) of
        (Some payload_bytes, Some signature) \<Rightarrow>
          if length key \<noteq> 32 then Inl Bad_key_length
          else if \<not> bc_ed_verify C key signature payload_bytes then Inl Invalid_signature
          else (case bc_parse C payload_bytes of
            None \<Rightarrow> Inl Payload_parse_failed
          | Some payload \<Rightarrow>
              if lp_payload_version payload \<noteq> BUNDLE_PAYLOAD_VERSION then Inl Unknown_payload_version
              else Inr payload)
      | _ \<Rightarrow> Inl Base64_decode_failed)"

record active_bundle =
  ab_payload :: license_payload
  ab_signature_ok :: bool
  ab_last_verified_at :: time
  ab_last_error :: "license_error option"

definition is_currently_valid :: "time \<Rightarrow> active_bundle \<Rightarrow> bool" where
  "is_currently_valid now b =
     (if \<not> ab_signature_ok b then False
      else case lp_expires_at (ab_payload b) of None \<Rightarrow> True | Some t \<Rightarrow> now < t)"

text \<open>A row of \<open>spine_license.bundle\<close>, and the state of the process and the tables it uses.\<close>

record bundle_row =
  br_id :: string
  br_signed_payload :: string
  br_signature :: string
  br_signing_key_fingerprint :: string
  br_issued_at :: time
  br_revoked_at :: "time option"

record 's license_state =
  ls_vault :: 's
  ls_rows :: "bundle_row list"
  ls_active :: "active_bundle option"
  ls_now :: time

definition VENDOR_PUBKEY_VAULT_PATH :: string where
  "VENDOR_PUBKEY_VAULT_PATH = ''license/vendor_pubkey''"

definition decode_pubkey :: "string \<Rightarrow> (license_error, string) res" where
  "decode_pubkey raw =
     (if length raw = 64 \<and> is_hex raw
      then (case bytes_fromhex raw of Some b \<Rightarrow> Inr b | None \<Rightarrow> Inl Bad_vendor_pubkey_format)
      else case b64decode raw of
        Some d \<Rightarrow> if length d = 32 then Inr d else Inl Bad_vendor_pubkey_format
      | None \<Rightarrow> Inl Bad_vendor_pubkey_format)"

definition fetch_vendor_public_key :: "'s adapter option \<Rightarrow> string \<Rightarrow> ('s license_state, license_error, string) eff" where
  "fetch_vendor_public_key A hint st =
     (case get_secret A hint VENDOR_PUBKEY_VAULT_PATH (ls_vault st) of
        (Inl e, v) \<Rightarrow> (Inl (Vault_error e), st\<lparr>ls_vault := v\<rparr>)
      | (Inr raw, v) \<Rightarrow> (decode_pubkey (py_strip raw), st\<lparr>ls_vault := v\<rparr>))"

text \<open>\<open>WHERE revoked_at IS NULL ORDER BY issued_at DESC LIMIT 1\<close>.\<close>

definition latest_row :: "bundle_row list \<Rightarrow> bundle_row option" where
  "latest_row rows = (case sort_key (\<lambda>r. - br_issued_at r) (filter (\<lambda>r. br_revoked_at r = None) rows) of
     [] \<Rightarrow> None | r # _ \<Rightarrow> Some r)"

definition verify_row :: "bundle_codec \<Rightarrow> string \<Rightarrow> bundle_row option \<Rightarrow> (license_error, license_payload) res" where
  "verify_row C key row = (case row of
     None \<Rightarrow> Inl No_active_bundle
   | Some r \<Rightarrow> rbind (make_envelope (b64encode (br_signed_payload r)) (b64encode (br_signature r))
                 (py_lower (br_signing_key_fingerprint r)))
                (\<lambda>env. verify_signature C env key))"

definition load_active_bundle :: "bundle_codec \<Rightarrow> 's adapter option \<Rightarrow> string \<Rightarrow> string option \<Rightarrow>
    ('s license_state, license_error, active_bundle) eff" where
  "load_active_bundle C A hint key_arg =
     ebind (case key_arg of Some k \<Rightarrow> ereturn k | None \<Rightarrow> fetch_vendor_public_key A hint) (\<lambda>key.
     ebind (\<lambda>st. (verify_row C key (latest_row (ls_rows st)), st)) (\<lambda>payload.
     ebind (eread ls_now) (\<lambda>now.
     let bundle = \<lparr>ab_payload = payload, ab_signature_ok = True, ab_last_verified_at = now,
                   ab_last_error = None\<rparr> in
     ebind (ewrite (\<lambda>st. st\<lparr>ls_active := Some bundle\<rparr>)) (\<lambda>_.
     ereturn bundle))))"

definition set_active_bundle :: "active_bundle option \<Rightarrow> 's license_state \<Rightarrow> 's license_state" where
  "set_active_bundle b st = st\<lparr>ls_active := b\<rparr>"

text \<open>One turn of the periodic verifier's loop, after its sleep.\<close>

definition periodic_turn :: "bundle_codec \<Rightarrow> 's adapter option \<Rightarrow> string \<Rightarrow> 's license_state \<Rightarrow> 's license_state" where
  "periodic_turn C A hint st =
     (case load_active_bundle C A hint None st of
        (Inr _, st') \<Rightarrow> st'
      | (Inl e, st') \<Rightarrow>
          if is_bundle_error e
          then (case ls_active st' of
            None \<Rightarrow> st'
          | Some cur \<Rightarrow> st'\<lparr>ls_active := Some (cur\<lparr>ab_signature_ok := False, ab_last_error := Some e\<rparr>)\<rparr>)
          else st')"

section \<open>Gates\<close>

definition active_or_none :: "time \<Rightarrow> active_bundle option \<Rightarrow> active_bundle option" where
  "active_or_none now active = (case active of
     None \<Rightarrow> None | Some b \<Rightarrow> if is_currently_valid now b then Some b else None)"

definition flag_row :: "string \<Rightarrow> active_bundle \<Rightarrow> feature_flag option" where
  "flag_row flag b = find (\<lambda>r. ff_flag_name r = flag) (lp_feature_flags (ab_payload b))"

definition is_enabled :: "time \<Rightarrow> active_bundle option \<Rightarrow> string \<Rightarrow> (license_error, bool) res" where
  "is_enabled now active flag =
     (if flag \<notin> set KNOWN_FEATURE_FLAGS then Inl Unknown_flag
      else case active_or_none now active of
        None \<Rightarrow> Inr (flag = ''license_inspector'')
      | Some b \<Rightarrow> (case flag_row flag b of
          Some r \<Rightarrow> Inr (ff_enabled r) | None \<Rightarrow> Inr (flag = ''license_inspector'')))"

definition is_feature_enabled :: "time \<Rightarrow> active_bundle option \<Rightarrow> string \<Rightarrow> (license_error, bool) res" where
  "is_feature_enabled now active flag =
     (if flag \<notin> set KNOWN_FEATURE_FLAGS then Inl Unknown_flag
      else if active = None then Inr True
      else is_enabled now active flag)"

datatype gate_response = Pass | Payment_required

definition require_feature_flag :: "time \<Rightarrow> active_bundle option \<Rightarrow> string \<Rightarrow> (license_error, gate_response) res" where
  "require_feature_flag now active flag =
     rbind (is_feature_enabled now active flag) (\<lambda>ok. Inr (if ok then Pass else Payment_required))"

definition quota_for_flag :: "time \<Rightarrow> active_bundle option \<Rightarrow> string \<Rightarrow> int option" where
  "quota_for_flag now active flag = (case active_or_none now active of
     None \<Rightarrow> Some 0
   | Some b \<Rightarrow> (case flag_row flag b of Some r \<Rightarrow> ff_quota_value r | None \<Rightarrow> Some 0))"

text \<open>
  \<open>quota_remaining\<close> over its cache; \<open>used\<close> is what \<open>_read_used_value\<close> gives now, \<open>None\<close> when the
  read raises. The clock of the cache and the clock of expiry are read at the same call.
\<close>

type_synonym quota_cache = "(string, time \<times> int option) dict"

definition CACHE_TTL_SECONDS :: time where
  "CACHE_TTL_SECONDS = 60"

definition quota_remaining :: "time \<Rightarrow> active_bundle option \<Rightarrow> int option \<Rightarrow> string \<Rightarrow>
    (quota_cache, license_error, int option) eff" where
  "quota_remaining now active used flag cache =
     (if flag \<notin> set KNOWN_FEATURE_FLAGS then (Inl Unknown_flag, cache)
      else
        let compute = (case quota_for_flag now active flag of
              None \<Rightarrow> (Inr None, AList.update flag (now, None) cache)
            | Some ceiling \<Rightarrow> (case used of
                None \<Rightarrow> (Inr (Some 0), cache)
              | Some u \<Rightarrow> (let remaining = max 0 (ceiling - u) in
                  (Inr (Some remaining), AList.update flag (now, Some remaining) cache))))
        in case map_of cache flag of
          Some (t, v) \<Rightarrow> if now - t < CACHE_TTL_SECONDS then (Inr v, cache) else compute
        | None \<Rightarrow> compute)"

definition invalidate_cache :: "quota_cache \<Rightarrow> quota_cache" where
  "invalidate_cache cache = []"

record license_status =
  st_loaded :: bool
  st_signature_ok :: bool
  st_tier :: "license_tier option"
  st_bundle_id :: "string option"
  st_customer :: "string option"
  st_expires_at :: "time option"
  st_last_error :: "license_error option"
  st_flags :: "feature_flag list"

definition status_snapshot :: "active_bundle option \<Rightarrow> license_status" where
  "status_snapshot active = (case active of
     None \<Rightarrow> \<lparr>st_loaded = False, st_signature_ok = False, st_tier = None, st_bundle_id = None,
       st_customer = None, st_expires_at = None, st_last_error = None, st_flags = []\<rparr>
   | Some b \<Rightarrow> \<lparr>st_loaded = True, st_signature_ok = ab_signature_ok b,
       st_tier = Some (lp_tier (ab_payload b)), st_bundle_id = Some (lp_bundle_id (ab_payload b)),
       st_customer = Some (lp_customer (ab_payload b)), st_expires_at = lp_expires_at (ab_payload b),
       st_last_error = ab_last_error b, st_flags = lp_feature_flags (ab_payload b)\<rparr>)"

section \<open>The license life cycle\<close>

text \<open>
  What happens to the process state over its life: a load at startup or by an operator, a turn
  of the periodic verifier, time passing, and any change of the tables and of the vault, which
  an attacker may have made.
\<close>

inductive license_step :: "bundle_codec \<Rightarrow> 's adapter option \<Rightarrow> string \<Rightarrow> 's license_state \<Rightarrow> 's license_state \<Rightarrow> bool"
  for C :: bundle_codec and A :: "'s adapter option" and hint :: string where
  load: "license_step C A hint st (run_state (load_active_bundle C A hint None) st)"
| turn: "license_step C A hint st (periodic_turn C A hint st)"
| time_passes: "t \<ge> 0 \<Longrightarrow> license_step C A hint st (st\<lparr>ls_now := ls_now st + t\<rparr>)"
| tables_change: "license_step C A hint st (st\<lparr>ls_rows := rows\<rparr>)"
| vault_change: "license_step C A hint st (st\<lparr>ls_vault := v\<rparr>)"

definition license_init :: "'s \<Rightarrow> bundle_row list \<Rightarrow> time \<Rightarrow> 's license_state" where
  "license_init v rows now = \<lparr>ls_vault = v, ls_rows = rows, ls_active = None, ls_now = now\<rparr>"

definition vendor_signed :: "bundle_codec \<Rightarrow> license_payload \<Rightarrow> bool" where
  "vendor_signed C p \<longleftrightarrow> (\<exists>key signature payload_bytes.
     fingerprint C key = bc_trusted_fp C \<and> bc_ed_verify C key signature payload_bytes \<and>
     bc_parse C payload_bytes = Some p)"

section \<open>Lemmas\<close>

lemma verify_signature_iff:
  "verify_signature C env key = Inr p \<longleftrightarrow>
     bc_crypto_available C \<and> py_lower (sb_signing_key_fingerprint env) = fingerprint C key \<and>
     fingerprint C key = bc_trusted_fp C \<and> length key = 32 \<and>
     (\<exists>bytes sig. b64decode (sb_payload_canonical_b64 env) = Some bytes \<and>
        b64decode (sb_signature_b64 env) = Some sig \<and> bc_ed_verify C key sig bytes \<and>
        bc_parse C bytes = Some p) \<and>
     lp_payload_version p = BUNDLE_PAYLOAD_VERSION"
  by (auto simp: verify_signature_def split: option.splits if_splits)

lemma verify_row_signed: "verify_row C key row = Inr p \<Longrightarrow> vendor_signed C p"
  by (auto simp: verify_row_def rbind_eq_Inr verify_signature_iff vendor_signed_def split: option.splits)

lemma fetch_keeps_active:
  "fetch_vendor_public_key A hint st = (r, st') \<Longrightarrow>
     ls_active st' = ls_active st \<and> ls_rows st' = ls_rows st \<and> ls_now st' = ls_now st"
  by (auto simp: fetch_vendor_public_key_def split: prod.splits sum.splits)

lemma load_cases:
  assumes "load_active_bundle C A hint key st = (r, st')"
  obtains (err) e where "r = Inl e" "ls_active st' = ls_active st" "ls_rows st' = ls_rows st" "ls_now st' = ls_now st"
  | (ok) b where "r = Inr b" "ls_active st' = Some b" "vendor_signed C (ab_payload b)" "ab_signature_ok b"
proof (cases key)
  case None
  obtain k st1 where f: "fetch_vendor_public_key A hint st = (k, st1)" by fastforce
  note keep = fetch_keeps_active [OF f]
  show thesis
  proof (cases k)
    case (Inl e)
    with None f keep assms that(1) show thesis
      by (auto simp: load_active_bundle_def eff_simps)
  next
    case (Inr k')
    with None f keep assms that show thesis
      by (cases "verify_row C k' (latest_row (ls_rows st1))")
        (auto simp: load_active_bundle_def eff_simps Let_def dest: verify_row_signed)
  qed
next
  case (Some k)
  with assms that show thesis
    by (cases "verify_row C k (latest_row (ls_rows st))")
      (auto simp: load_active_bundle_def eff_simps Let_def dest: verify_row_signed)
qed

inductive_cases license_stepE: "license_step C A hint st st'"

definition license_ok :: "bundle_codec \<Rightarrow> 's license_state \<Rightarrow> bool" where
  "license_ok C st \<longleftrightarrow> (case ls_active st of None \<Rightarrow> True | Some b \<Rightarrow> vendor_signed C (ab_payload b))"

lemma license_step_ok: "license_step C A hint st st' \<Longrightarrow> license_ok C st \<Longrightarrow> license_ok C st'"
proof (induction rule: license_step.induct)
  case (load st)
  obtain r st' where l: "load_active_bundle C A hint None st = (r, st')" by fastforce
  from this load l show ?case by (cases rule: load_cases) (auto simp: license_ok_def)
next
  case (turn st)
  obtain r st' where l: "load_active_bundle C A hint None st = (r, st')" by fastforce
  from this turn l show ?case
    by (cases rule: load_cases) (auto simp: license_ok_def periodic_turn_def split: option.splits)
qed (simp_all add: license_ok_def)

lemma license_run_ok: "(license_step C A hint)\<^sup>*\<^sup>* st st' \<Longrightarrow> license_ok C st \<Longrightarrow> license_ok C st'"
  by (induction rule: rtranclp_induct) (auto intro: license_step_ok)

lemma is_enabled_invalid:
  "active_or_none now active = None \<Longrightarrow> flag \<in> set KNOWN_FEATURE_FLAGS \<Longrightarrow>
     is_enabled now active flag = Inr (flag = ''license_inspector'')"
  by (simp add: is_enabled_def)

lemma turn_bundle_error:
  assumes "load_active_bundle C A hint None st = (Inl e, st')" and "is_bundle_error e"
  shows "active_or_none now (ls_active (periodic_turn C A hint st)) = None"
  using assms by (auto simp: periodic_turn_def active_or_none_def is_currently_valid_def split: option.split)

section \<open>A concrete license\<close>

definition demo_payload :: license_payload where
  "demo_payload = \<lparr>lp_payload_version = ''license-bundle-v1'', lp_customer = ''acme'', lp_tier = Team,
     lp_bundle_id = ''b1'', lp_issued_at = 0, lp_expires_at = Some 1000,
     lp_feature_flags = [\<lparr>ff_flag_name = ''federation'', ff_enabled = True, ff_quota_value = Some 10,
       ff_quota_unit = Some Projects\<rparr>], lp_notes = None\<rparr>"

definition demo_key :: string where
  "demo_key = replicate 32 (CHR ''k'')"

definition demo_bundle_codec :: bundle_codec where
  "demo_bundle_codec = \<lparr>bc_crypto_available = True, bc_trusted_fp = bytes_hex (replicate 32 (CHR ''k'')),
     bc_sha = (\<lambda>k. k), bc_ed_verify = (\<lambda>k s m. s = ''sig'' \<and> m = ''msg''),
     bc_parse = (\<lambda>m. if m = ''msg'' then Some demo_payload else None)\<rparr>"

definition demo_bundle_row :: bundle_row where
  "demo_bundle_row = \<lparr>br_id = ''b1'', br_signed_payload = ''msg'', br_signature = ''sig'',
     br_signing_key_fingerprint = bytes_hex demo_key, br_issued_at = 0, br_revoked_at = None\<rparr>"

definition demo_vault :: mem_store where
  "demo_vault = [(VENDOR_PUBKEY_VAULT_PATH, bytes_hex demo_key)]"

definition demo_license_state :: "mem_store license_state" where
  "demo_license_state = license_init demo_vault [demo_bundle_row] 5"

abbreviation demo_adapter :: "mem_store adapter option" where
  "demo_adapter \<equiv> Some memory_adapter"

lemma demo_fetch:
  "ls_vault st = demo_vault \<Longrightarrow> fetch_vendor_public_key demo_adapter [] st = (Inr demo_key, st)"
  by (simp add: fetch_vendor_public_key_def secret_defs eff_simps memory_adapter_def mem_get_def
      demo_vault_def decode_pubkey_def demo_key_def)

lemma demo_hex_k: "bytes_hex (replicate n (CHR ''k'')) = concat (replicate n ''6b'')"
  by (induction n) (simp_all add: hex_char_def char_of_eq_iff)

lemma demo_lower: "py_lower (bytes_hex demo_key) = bytes_hex demo_key"
proof -
  have "py_lower (concat (replicate n ''6b'')) = concat (replicate n ''6b'')" for n
    by (induction n) (simp_all add: py_lower_def py_lower_char_def)
  then show ?thesis by (simp add: demo_key_def demo_hex_k)
qed

lemma demo_load:
  "\<exists>st. load_active_bundle demo_bundle_codec demo_adapter [] None demo_license_state =
     (Inr \<lparr>ab_payload = demo_payload, ab_signature_ok = True, ab_last_verified_at = 5, ab_last_error = None\<rparr>, st)"
proof -
  have strip: "py_strip ''bXNn'' = ''bXNn''" "py_strip ''c2ln'' = ''c2ln''"
    by (simp_all add: py_strip_def py_space_def)
  have b64: "b64encode ''msg'' = ''bXNn''" "b64encode ''sig'' = ''c2ln''"
    by (simp_all add: b64_char_def char_of_eq_iff)
  have dec: "b64decode ''bXNn'' = Some ''msg''" "b64decode ''c2ln'' = Some ''sig''"
    unfolding b64 [symmetric] by (rule b64decode_encode)+
  have "verify_row demo_bundle_codec demo_key (Some demo_bundle_row) = Inr demo_payload"
    by (simp add: verify_row_def demo_bundle_row_def make_envelope_def demo_lower b64 strip Let_def del: b64encode.simps b64decode.simps
        add: verify_signature_iff dec demo_key_def)
      (simp add: demo_bundle_codec_def fingerprint_def demo_payload_def BUNDLE_PAYLOAD_VERSION_def
        demo_lower [unfolded demo_key_def])
  then show ?thesis
    by (simp add: load_active_bundle_def eff_simps demo_fetch demo_license_state_def license_init_def
        latest_row_def demo_bundle_row_def Let_def)
qed

section \<open>Properties\<close>

text \<open>
  Claim C4. Only vendor-signed licences are ever active: in every state reachable from a fresh
  process, whatever is written to the bundle table or to the vault in between, the
  payload of the active bundle was parsed from bytes that carry a valid Ed25519 signature of
  a key with the fingerprint built into the Hub.
\<close>

theorem active_bundle_vendor_signed:
  assumes "(license_step C A hint)\<^sup>*\<^sup>* (license_init v rows now) st" and "ls_active st = Some b"
  shows "vendor_signed C (ab_payload b)"
  using license_run_ok [OF assms(1)] assms(2) by (simp add: license_ok_def license_init_def)

theorem active_bundle_vendor_signed_witness:
  "vendor_signed demo_bundle_codec demo_payload"
proof -
  obtain st where l: "load_active_bundle demo_bundle_codec demo_adapter [] None demo_license_state =
     (Inr \<lparr>ab_payload = demo_payload, ab_signature_ok = True, ab_last_verified_at = 5, ab_last_error = None\<rparr>, st)"
    using demo_load by blast
  then have "(license_step demo_bundle_codec demo_adapter [])\<^sup>*\<^sup>* (license_init demo_vault [demo_bundle_row] 5) st"
    using license_step.load [of demo_bundle_codec demo_adapter "[]" demo_license_state]
    by (simp add: r_into_rtranclp demo_license_state_def)
  moreover from l have "ls_active st =
    Some \<lparr>ab_payload = demo_payload, ab_signature_ok = True, ab_last_verified_at = 5, ab_last_error = None\<rparr>"
    by (cases rule: load_cases) auto
  ultimately show ?thesis
    using active_bundle_vendor_signed by fastforce
qed

text \<open>
  The evaluator grants exactly what the bundle grants: for a known flag it answers
  yes just when a bundle is active, not invalidated and not expired and its first row for the flag is
  enabled, or when the flag is \<open>license_inspector\<close> and no valid bundle says otherwise; an
  unknown flag raises.
\<close>

theorem is_enabled_exact:
  "(is_enabled now active flag = Inl Unknown_flag \<longleftrightarrow> flag \<notin> set KNOWN_FEATURE_FLAGS) \<and>
   (is_enabled now active flag = Inr True \<longleftrightarrow> flag \<in> set KNOWN_FEATURE_FLAGS \<and>
     ((\<exists>b r. active = Some b \<and> is_currently_valid now b \<and> flag_row flag b = Some r \<and> ff_enabled r) \<or>
      flag = ''license_inspector'' \<and>
        (\<nexists>b r. active = Some b \<and> is_currently_valid now b \<and> flag_row flag b = Some r)))"
  by (auto simp: is_enabled_def active_or_none_def split: option.splits if_splits)

text \<open>
  Revocation closes the gates: when every bundle row is revoked and the vendor key can be
  read, the next turn of the periodic verifier makes every gated request, but those to
  the license inspector, answer 402, at any later time and for as long as no load succeeds.
\<close>

theorem revocation_closes_gates:
  assumes "ls_active st = Some b" and "fetch_vendor_public_key A hint st = (Inr key, st')"
    and "\<forall>r \<in> set (ls_rows st). br_revoked_at r \<noteq> None"
    and "flag \<in> set KNOWN_FEATURE_FLAGS" and "flag \<noteq> ''license_inspector''"
  shows "require_feature_flag now (ls_active (periodic_turn C A hint st)) flag = Inr Payment_required"
proof -
  have "filter (\<lambda>r. br_revoked_at r = None) (ls_rows st) = []"
    using assms(3) by (simp add: filter_empty_conv)
  then have "load_active_bundle C A hint None st = (Inl No_active_bundle, st')"
    using assms(2) fetch_keeps_active [OF assms(2)]
    by (simp add: load_active_bundle_def eff_simps latest_row_def verify_row_def)
  moreover from this have "ls_active (periodic_turn C A hint st) \<noteq> None"
    using assms(1) fetch_keeps_active [OF assms(2)] by (simp add: periodic_turn_def is_bundle_error_def)
  ultimately show ?thesis
    using turn_bundle_error [of C A hint st No_active_bundle st' now] assms(4,5)
    by (simp add: require_feature_flag_def is_feature_enabled_def is_enabled_invalid is_bundle_error_def)
qed

theorem revocation_closes_gates_witness:
  "require_feature_flag 7 (ls_active (periodic_turn demo_bundle_codec demo_adapter []
      \<lparr>ls_vault = demo_vault, ls_rows = [demo_bundle_row\<lparr>br_revoked_at := Some 6\<rparr>],
       ls_active = Some \<lparr>ab_payload = demo_payload, ab_signature_ok = True, ab_last_verified_at = 5,
         ab_last_error = None\<rparr>, ls_now = 7\<rparr>)) ''federation'' = Inr Payment_required"
  by (rule revocation_closes_gates [OF _ demo_fetch]) (simp_all add: KNOWN_FEATURE_FLAGS_def)

text \<open>
  A failed startup leaves the gates open: when the load at startup raises, for any
  reason including an invalid signature, no bundle is installed, and from then on the HTTP
  gate lets every known flag pass, although the evaluator behind it would refuse all but the license
  inspector.
\<close>

theorem failed_startup_opens_gates:
  assumes "load_active_bundle C A hint key (license_init v rows now0) = (Inl e, st)"
    and "flag \<in> set KNOWN_FEATURE_FLAGS"
  shows "require_feature_flag now (ls_active st) flag = Inr Pass \<and>
    is_enabled now (ls_active st) flag = Inr (flag = ''license_inspector'')"
proof -
  from assms(1) have "ls_active st = None"
    by (cases rule: load_cases) (simp_all add: license_init_def)
  with assms(2) show ?thesis
    by (simp add: require_feature_flag_def is_feature_enabled_def is_enabled_def active_or_none_def)
qed

theorem failed_startup_opens_gates_witness:
  "\<exists>st. load_active_bundle demo_bundle_codec demo_adapter [] None
      (license_init demo_vault [demo_bundle_row\<lparr>br_signature := []\<rparr>] 5) = (Inl Envelope_invalid, st) \<and>
    require_feature_flag 6 (ls_active st) ''federation'' = Inr Pass"
proof -
  let ?st = "license_init demo_vault [demo_bundle_row\<lparr>br_signature := []\<rparr>] 5"
  have "fetch_vendor_public_key demo_adapter [] ?st = (Inr demo_key, ?st)"
    by (rule demo_fetch) (simp add: license_init_def)
  then have l: "load_active_bundle demo_bundle_codec demo_adapter [] None ?st = (Inl Envelope_invalid, ?st)"
    by (simp add: load_active_bundle_def eff_simps latest_row_def verify_row_def make_envelope_def
        license_init_def demo_bundle_row_def py_strip_def [of "[]"] Let_def)
  show ?thesis
    using failed_startup_opens_gates [OF l, of "''federation''" 6] l by (simp add: KNOWN_FEATURE_FLAGS_def)
qed

end
