(* ===== verification/Quota_Ledger.thy ===== *)
theory Quota_Ledger
  imports License Hash_Chain
begin

text \<open>
  \<open>license/quota_ledger.py\<close> and the usage read of \<open>license/feature_flags.py\<close>: the table
  \<open>spine_license.quota_usage\<close> (which declares no uniqueness), the anchor that chains a row to
  the one before, the merge-writer \<open>record_usage\<close> as its read followed by its write, and the
  replay \<open>verify_chain\<close>. SHA-256 is the parameter \<open>S\<close>. Dates are UTC civil dates with
  Python's \<open>isoformat\<close>.
\<close>

section \<open>Dates\<close>

record datetime =
  dt_year :: nat
  dt_month :: nat
  dt_day :: nat
  dt_hour :: nat
  dt_minute :: nat
  dt_second :: nat
  dt_micro :: nat

definition dt_valid :: "datetime \<Rightarrow> bool" where
  "dt_valid d \<longleftrightarrow> 1 \<le> dt_year d \<and> dt_year d \<le> 9999 \<and> 1 \<le> dt_month d \<and> dt_month d \<le> 12 \<and>
     1 \<le> dt_day d \<and> dt_day d \<le> 31 \<and> dt_hour d < 24 \<and> dt_minute d < 60 \<and> dt_second d < 60 \<and>
     dt_micro d < 1000000"

text \<open>The order of dates, as the mixed-radix number of their fields.\<close>

definition dt_key :: "datetime \<Rightarrow> int" where
  "dt_key d = int (((((((dt_year d * 13 + dt_month d) * 32 + dt_day d) * 24 + dt_hour d) * 60 +
     dt_minute d) * 60 + dt_second d) * 1000000) + dt_micro d)"

definition zpad :: "nat \<Rightarrow> nat \<Rightarrow> string" where
  "zpad k n = replicate (k - length (str_nat n)) (CHR ''0'') @ str_nat n"

definition isoformat :: "datetime \<Rightarrow> string" where
  "isoformat d = zpad 4 (dt_year d) @ ''-'' @ zpad 2 (dt_month d) @ ''-'' @ zpad 2 (dt_day d) @ ''T'' @
     zpad 2 (dt_hour d) @ '':'' @ zpad 2 (dt_minute d) @ '':'' @ zpad 2 (dt_second d) @
     (if dt_micro d = 0 then [] else ''.'' @ zpad 6 (dt_micro d)) @ ''+00:00''"

definition str_int :: "int \<Rightarrow> string" where
  "str_int n = (if n < 0 then CHR ''-'' # str_nat (nat (- n)) else str_nat (nat n))"

section \<open>The ledger\<close>

record quota_row =
  q_flag_name :: string
  q_period_start :: datetime
  q_period_end :: datetime
  q_used_value :: int
  q_ledger_anchor :: "string option"

type_synonym quota_table = "quota_row list"

definition GENESIS_ANCHOR_HEX :: string where
  "GENESIS_ANCHOR_HEX = replicate 64 (CHR ''0'')"

definition anchor_payload :: "string \<Rightarrow> string \<Rightarrow> datetime \<Rightarrow> datetime \<Rightarrow> int \<Rightarrow> string" where
  "anchor_payload prev_hex flag st en used =
     prev_hex @ CHR 0x0A # flag @ CHR 0x0A # isoformat st @ CHR 0x0A # isoformat en @ CHR 0x0A # str_int used"

definition anchor :: "(string \<Rightarrow> string) \<Rightarrow> string \<Rightarrow> string \<Rightarrow> datetime \<Rightarrow> datetime \<Rightarrow> int \<Rightarrow> string" where
  "anchor S prev_hex flag st en used = S (anchor_payload prev_hex flag st en used)"

definition default_period :: "datetime \<Rightarrow> datetime \<times> datetime" where
  "default_period now =
     (let start = now\<lparr>dt_day := 1, dt_hour := 0, dt_minute := 0, dt_second := 0, dt_micro := 0\<rparr> in
      (start, if dt_month start = 12 then start\<lparr>dt_year := dt_year start + 1, dt_month := 1\<rparr>
              else start\<lparr>dt_month := dt_month start + 1\<rparr>))"

datatype quota_error = Negative_increment | Empty_period

record usage_report =
  ur_used_value :: int
  ur_ledger_anchor :: string
  ur_created_row :: bool

text \<open>What the first statement of \<open>record_usage\<close> reads, and what the second writes from it.\<close>

record usage_plan =
  up_flag :: string
  up_start :: datetime
  up_end :: datetime
  up_used :: int
  up_anchor :: string
  up_create :: bool

definition prev_hex_of :: "string option \<Rightarrow> string" where
  "prev_hex_of a = (case a of None \<Rightarrow> GENESIS_ANCHOR_HEX
     | Some b \<Rightarrow> if b = [] then GENESIS_ANCHOR_HEX else bytes_hex b)"

definition same_period :: "string \<Rightarrow> datetime \<Rightarrow> datetime \<Rightarrow> quota_row \<Rightarrow> bool" where
  "same_period flag st en r \<longleftrightarrow> q_flag_name r = flag \<and> q_period_start r = st \<and> q_period_end r = en"

definition prior_row :: "string \<Rightarrow> datetime \<Rightarrow> quota_table \<Rightarrow> quota_row option" where
  "prior_row flag st t =
     (case sort_key (\<lambda>r. - dt_key (q_period_end r))
        (filter (\<lambda>r. q_flag_name r = flag \<and> dt_key (q_period_end r) \<le> dt_key st) t) of
        [] \<Rightarrow> None | r # _ \<Rightarrow> Some r)"

definition usage_read :: "(string \<Rightarrow> string) \<Rightarrow> string \<Rightarrow> datetime \<Rightarrow> datetime \<Rightarrow> int \<Rightarrow> quota_table \<Rightarrow> usage_plan" where
  "usage_read S flag st en increment t = (case find (same_period flag st en) t of
     Some r \<Rightarrow>
       let new_used = q_used_value r + increment in
       \<lparr>up_flag = flag, up_start = st, up_end = en, up_used = new_used,
        up_anchor = anchor S (prev_hex_of (q_ledger_anchor r)) flag st en new_used, up_create = False\<rparr>
   | None \<Rightarrow>
       let prev_hex = (case prior_row flag st t of None \<Rightarrow> GENESIS_ANCHOR_HEX
                         | Some r \<Rightarrow> prev_hex_of (q_ledger_anchor r)) in
       \<lparr>up_flag = flag, up_start = st, up_end = en, up_used = increment,
        up_anchor = anchor S prev_hex flag st en increment, up_create = True\<rparr>)"

definition usage_write :: "usage_plan \<Rightarrow> quota_table \<Rightarrow> quota_table" where
  "usage_write p t =
     (if up_create p
      then t @ [\<lparr>q_flag_name = up_flag p, q_period_start = up_start p, q_period_end = up_end p,
                 q_used_value = up_used p, q_ledger_anchor = Some (up_anchor p)\<rparr>]
      else map (\<lambda>r. if same_period (up_flag p) (up_start p) (up_end p) r
                   then r\<lparr>q_used_value := up_used p, q_ledger_anchor := Some (up_anchor p)\<rparr> else r) t)"

definition usage_period :: "datetime option \<Rightarrow> datetime option \<Rightarrow> datetime \<Rightarrow> datetime \<times> datetime" where
  "usage_period st en now = (case (st, en) of (Some s, Some e) \<Rightarrow> (s, e) | _ \<Rightarrow> default_period now)"

definition record_usage :: "(string \<Rightarrow> string) \<Rightarrow> string \<Rightarrow> int \<Rightarrow> datetime option \<Rightarrow> datetime option \<Rightarrow>
    datetime \<Rightarrow> (quota_table \<times> quota_cache, quota_error, usage_report) eff" where
  "record_usage S flag increment period_start period_end now =
     ebind (eguard (0 \<le> increment) Negative_increment) (\<lambda>_.
     let (st, en) = usage_period period_start period_end now in
     ebind (eguard (dt_key st < dt_key en) Empty_period) (\<lambda>_.
     ebind (eread (\<lambda>(t, c). usage_read S flag st en increment t)) (\<lambda>plan.
     ebind (ewrite (\<lambda>(t, c). (usage_write plan t, c))) (\<lambda>_.
     ebind (ewrite (\<lambda>(t, c). (t, invalidate_cache c))) (\<lambda>_.
     ereturn \<lparr>ur_used_value = up_used plan, ur_ledger_anchor = up_anchor plan,
              ur_created_row = up_create plan\<rparr>)))))"

record verify_report =
  vr_ok :: bool
  vr_rows_checked :: nat
  vr_first_bad_row :: "datetime option"

fun replay_rows :: "(string \<Rightarrow> string) \<Rightarrow> string \<Rightarrow> nat \<Rightarrow> string \<Rightarrow> quota_row list \<Rightarrow> verify_report" where
  "replay_rows S flag idx prev_hex [] = \<lparr>vr_ok = True, vr_rows_checked = idx, vr_first_bad_row = None\<rparr>"
| "replay_rows S flag idx prev_hex (r # rs) =
     (let expected = anchor S prev_hex flag (q_period_start r) (q_period_end r) (q_used_value r) in
      if q_ledger_anchor r \<noteq> Some expected
      then \<lparr>vr_ok = False, vr_rows_checked = idx + 1, vr_first_bad_row = Some (q_period_start r)\<rparr>
      else replay_rows S flag (idx + 1) (bytes_hex expected) rs)"

definition flag_rows :: "string \<Rightarrow> quota_table \<Rightarrow> quota_row list" where
  "flag_rows flag t = sort_key (\<lambda>r. dt_key (q_period_start r)) (filter (\<lambda>r. q_flag_name r = flag) t)"

definition verify_chain :: "(string \<Rightarrow> string) \<Rightarrow> string \<Rightarrow> quota_table \<Rightarrow> verify_report" where
  "verify_chain S flag t = replay_rows S flag 0 GENESIS_ANCHOR_HEX (flag_rows flag t)"

definition read_used_value :: "string \<Rightarrow> datetime \<Rightarrow> quota_table \<Rightarrow> int" where
  "read_used_value flag now t = sum_list (map q_used_value (filter (\<lambda>r. q_flag_name r = flag \<and>
     dt_key (q_period_start r) \<le> dt_key now \<and> dt_key now < dt_key (q_period_end r)) t))"

text \<open>Several calls for one flag, each with its increment and period.\<close>

fun record_all :: "(string \<Rightarrow> string) \<Rightarrow> string \<Rightarrow> (int \<times> datetime \<times> datetime) list \<Rightarrow> datetime \<Rightarrow>
    quota_table \<times> quota_cache \<Rightarrow> quota_table \<times> quota_cache" where
  "record_all S flag [] now s = s"
| "record_all S flag ((n, st, en) # us) now s =
     record_all S flag us now (run_state (record_usage S flag n (Some st) (Some en) now) s)"

section \<open>Encoding lemmas\<close>

lemma length_str_nat: "n < 10 ^ k \<Longrightarrow> 0 < k \<Longrightarrow> length (str_nat n) \<le> k"
proof (induction k arbitrary: n)
  case (Suc k)
  show ?case
  proof (cases "n < 10")
    case True
    then show ?thesis by (subst str_nat.simps) simp
  next
    case False
    with Suc.prems have "n div 10 < 10 ^ k" "0 < k"
      by (auto simp: div_less_iff_less_mult mult.commute intro: Nat.gr0I)
    with Suc.IH False show ?thesis by (subst str_nat.simps) simp
  qed
qed simp

lemma length_zpad: "n < 10 ^ k \<Longrightarrow> 0 < k \<Longrightarrow> length (zpad k n) = k"
  using length_str_nat [of n k] by (simp add: zpad_def)

lemma zpad_inj: "zpad k m = zpad k n \<Longrightarrow> m = n"
proof -
  have "numeral_value (zpad k n) = n" for n
  proof -
    have "foldl (\<lambda>n c. 10 * n + (of_char c - 48)) 0 (replicate j (CHR ''0'')) = (0 :: nat)" for j
      by (induction j) simp_all
    then show ?thesis
      using numeral_value_str_nat [of n] by (simp add: zpad_def numeral_value_def)
  qed
  then show "zpad k m = zpad k n \<Longrightarrow> m = n" by metis
qed

lemma str_nat_digits: "set (str_nat n) \<subseteq> set ''0123456789''"
proof (induction n rule: str_nat.induct)
  case (1 n)
  have "char_of (48 + k) \<in> set ''0123456789''" if "k < 10" for k :: nat
  proof -
    from that have "k \<in> {0, 1, 2, 3, 4, 5, 6, 7, 8, 9}" by auto
    then show ?thesis by (auto simp: char_of_eq_iff)
  qed
  from this [of n] this [of "n mod 10"] 1 show ?case
    by (subst str_nat.simps) auto
qed

lemma isoformat_no_LF: "CHR 0x0A \<notin> set (isoformat d)"
proof -
  have "CHR 0x0A \<notin> set (zpad k n)" for k n
    using str_nat_digits [of n] by (auto simp: zpad_def)
  then show ?thesis by (simp add: isoformat_def)
qed

lemma isoformat_inj:
  assumes "dt_valid a" and "dt_valid b" and "isoformat a = isoformat b"
  shows "a = b"
proof -
  have len: "length (zpad 4 (dt_year d)) = 4" "length (zpad 2 (dt_month d)) = 2"
    "length (zpad 2 (dt_day d)) = 2" "length (zpad 2 (dt_hour d)) = 2" "length (zpad 2 (dt_minute d)) = 2"
    "length (zpad 2 (dt_second d)) = 2" "length (zpad 6 (dt_micro d)) = 6" if "dt_valid d" for d
    using that by (auto simp: dt_valid_def intro!: length_zpad)
  have "zpad 4 (dt_year a) = zpad 4 (dt_year b) \<and> zpad 2 (dt_month a) = zpad 2 (dt_month b) \<and>
    zpad 2 (dt_day a) = zpad 2 (dt_day b) \<and> zpad 2 (dt_hour a) = zpad 2 (dt_hour b) \<and>
    zpad 2 (dt_minute a) = zpad 2 (dt_minute b) \<and> zpad 2 (dt_second a) = zpad 2 (dt_second b) \<and>
    dt_micro a = dt_micro b"
    using assms(3) len [OF assms(1)] len [OF assms(2)]
    by (auto simp: isoformat_def append_eq_append_conv dest: zpad_inj split: if_splits)
  then show ?thesis by (intro datetime.equality) (auto dest: zpad_inj)
qed

lemma str_int_inj: "str_int m = str_int n \<Longrightarrow> m = n"
proof -
  have minus: "CHR ''-'' \<notin> set (str_nat k)" for k using str_nat_digits [of k] by auto
  have "CHR ''-'' # str_nat j \<noteq> str_nat k" for j k using minus [of k] by (metis list.set_intros(1))
  then show "str_int m = str_int n \<Longrightarrow> m = n"
    by (auto simp: str_int_def dest: str_nat_inj split: if_splits) (metis)+
qed

lemma anchor_payload_inj:
  assumes "is_hex p" "is_hex p'" "dt_valid s" "dt_valid s'" "dt_valid e" "dt_valid e'"
    and "anchor_payload p flag s e u = anchor_payload p' flag s' e' u'"
  shows "p = p' \<and> s = s' \<and> e = e' \<and> u = u'"
  using assms
  by (auto simp: anchor_payload_def cut_at_inj is_hex_no_LF isoformat_no_LF
      dest: isoformat_inj str_int_inj)

lemma is_hex_genesis [simp]: "is_hex GENESIS_ANCHOR_HEX"
  by (simp add: GENESIS_ANCHOR_HEX_def is_hex_def list_all_iff hex_val_def)

lemma is_hex_prev [simp]: "is_hex (prev_hex_of a)"
  by (simp add: prev_hex_of_def split: option.split)

section \<open>The ledger is a hash chain\<close>

text \<open>
  A row does not store the anchor it is chained to, so an entry of the chain is a row together
  with the anchor before it.
\<close>

definition quota_core :: "string option \<times> quota_row \<Rightarrow> string option \<times> datetime \<times> datetime \<times> int" where
  "quota_core e = (case e of (p, r) \<Rightarrow> (p, q_period_start r, q_period_end r, q_used_value r))"

definition quota_hash :: "(string \<Rightarrow> string) \<Rightarrow> string \<Rightarrow> string option \<times> datetime \<times> datetime \<times> int \<Rightarrow> string" where
  "quota_hash S flag c = (case c of (p, st, en, u) \<Rightarrow> anchor S (prev_hex_of p) flag st en u)"

definition quota_seal :: "(string \<Rightarrow> string) \<Rightarrow> string \<Rightarrow> string option \<Rightarrow> string option \<times> quota_row \<Rightarrow>
    string option \<times> quota_row" where
  "quota_seal S flag p e =
     (p, (snd e)\<lparr>q_ledger_anchor := Some (quota_hash S flag (quota_core (p, snd e)))\<rparr>)"

interpretation ql: hash_chain quota_core fst "\<lambda>e. q_ledger_anchor (snd e)" "quota_hash S flag" "quota_seal S flag"
  for S flag
  by unfold_locales (auto simp: quota_core_def quota_seal_def split: prod.splits)

fun annotate :: "string option \<Rightarrow> quota_row list \<Rightarrow> (string option \<times> quota_row) list" where
  "annotate p [] = []"
| "annotate p (r # rs) = (p, r) # annotate (q_ledger_anchor r) rs"

lemma map_snd_annotate [simp]: "map snd (annotate p rs) = rs"
  by (induction p rs rule: annotate.induct) simp_all

lemma annotate_Nil [simp]: "annotate p rs = [] \<longleftrightarrow> rs = []"
  by (cases rs) simp_all

lemma row_data_annotate:
  "map (\<lambda>r. (q_period_start r, q_period_end r, q_used_value r)) rs =
     map snd (map quota_core (annotate p rs))"
  by (induction p rs rule: annotate.induct) (simp_all add: quota_core_def)

lemma annotate_snoc: "annotate p (rs @ [r]) = annotate p rs @ [(ql.tip p (annotate p rs), r)]"
  by (induction p rs rule: annotate.induct) (auto simp: ql.tip_Cons)

lemma tip_annotate: "ql.tip p (annotate p rs) = (if rs = [] then p else q_ledger_anchor (last rs))"
  by (metis annotate_Nil last_map map_snd_annotate ql.tip_def)

lemma prev_hex_Some [simp]: "b \<noteq> [] \<Longrightarrow> prev_hex_of (Some b) = bytes_hex b"
  and prev_hex_None [simp]: "prev_hex_of None = GENESIS_ANCHOR_HEX"
  by (simp_all add: prev_hex_of_def)

lemma replay_links_both:
  assumes "\<forall>x. S x \<noteq> []"
  shows "(replay_rows S flag i (prev_hex_of p) rs =
      \<lparr>vr_ok = True, vr_rows_checked = i + length rs, vr_first_bad_row = None\<rparr> \<longleftrightarrow>
      ql.links S flag p (annotate p rs)) \<and>
    (vr_ok (replay_rows S flag i (prev_hex_of p) rs) \<longleftrightarrow> ql.links S flag p (annotate p rs))"
proof (induction rs arbitrary: i p)
  case Nil
  show ?case by simp
next
  case (Cons r rs)
  define h where "h = anchor S (prev_hex_of p) flag (q_period_start r) (q_period_end r) (q_used_value r)"
  have hex: "prev_hex_of (Some h) = bytes_hex h" using assms by (simp add: h_def anchor_def)
  have links: "ql.links S flag p (annotate p (r # rs)) \<longleftrightarrow>
      q_ledger_anchor r = Some h \<and> ql.links S flag (Some h) (annotate (Some h) rs)"
    by (auto simp: h_def quota_hash_def quota_core_def)
  have replay: "replay_rows S flag i (prev_hex_of p) (r # rs) =
      (if q_ledger_anchor r = Some h then replay_rows S flag (i + 1) (prev_hex_of (Some h)) rs
       else \<lparr>vr_ok = False, vr_rows_checked = i + 1, vr_first_bad_row = Some (q_period_start r)\<rparr>)"
    unfolding hex by (simp add: Let_def flip: h_def)
  show ?case
    unfolding links replay using Cons [of "i + 1" "Some h"] by simp
qed

lemmas replay_links = replay_links_both [THEN conjunct1] replay_links_both [THEN conjunct2]

section \<open>Recording each period once, in order\<close>

abbreviation of_flag :: "string \<Rightarrow> quota_table \<Rightarrow> quota_row list" where
  "of_flag flag t \<equiv> filter (\<lambda>r. q_flag_name r = flag) t"

definition before :: "quota_row \<Rightarrow> quota_row \<Rightarrow> bool" where
  "before a b \<longleftrightarrow> dt_key (q_period_end a) \<le> dt_key (q_period_start b)"

definition linear_ledger :: "(string \<Rightarrow> string) \<Rightarrow> string \<Rightarrow> quota_table \<Rightarrow> bool" where
  "linear_ledger S flag t \<longleftrightarrow> ql.links S flag None (annotate None (of_flag flag t)) \<and>
     sorted_wrt before (of_flag flag t) \<and>
     list_all (\<lambda>r. dt_key (q_period_start r) < dt_key (q_period_end r)) (of_flag flag t) \<and>
     list_all (\<lambda>r. q_ledger_anchor r \<noteq> Some []) (of_flag flag t)"

lemma sorted_wrt_before_last:
  assumes "sorted_wrt before (rs @ [r])" and "dt_key (q_period_start r) < dt_key (q_period_end r)"
  shows "\<forall>x \<in> set rs. - dt_key (q_period_end r) < - dt_key (q_period_end x)"
  using assms by (auto simp: sorted_wrt_append before_def)

lemma prior_row_linear:
  assumes "linear_ledger S flag t" and "\<forall>r \<in> set (of_flag flag t). dt_key (q_period_end r) \<le> dt_key st"
  shows "prior_row flag st t = (if of_flag flag t = [] then None else Some (last (of_flag flag t)))"
proof -
  have f: "filter (\<lambda>r. q_flag_name r = flag \<and> dt_key (q_period_end r) \<le> dt_key st) t = of_flag flag t"
    using assms(2) by (intro filter_cong) auto
  show ?thesis
  proof (cases "of_flag flag t" rule: rev_cases)
    case Nil
    with f show ?thesis by (simp add: prior_row_def)
  next
    case (snoc rs r)
    have "sort_key (\<lambda>r. - dt_key (q_period_end r)) (rs @ [r]) = r # sort_key (\<lambda>r. - dt_key (q_period_end r)) rs"
      using assms(1) snoc by (intro sort_key_snoc_min sorted_wrt_before_last) (auto simp: linear_ledger_def)
    with f snoc show ?thesis by (simp add: prior_row_def)
  qed
qed

lemma record_fresh_linear:
  assumes S: "\<forall>x. S x \<noteq> []" and lin: "linear_ledger S flag t" and n: "0 \<le> n" and per: "dt_key st < dt_key en"
    and new: "\<forall>r \<in> set (of_flag flag t). dt_key (q_period_end r) \<le> dt_key st"
  obtains r where "run_state (record_usage S flag n (Some st) (Some en) now) (t, c) = (t @ [r], [])"
    and "q_flag_name r = flag" "q_period_start r = st" "q_period_end r = en" "q_used_value r = n"
    and "linear_ledger S flag (t @ [r])"
proof -
  let ?R = "of_flag flag t"
  let ?p = "if ?R = [] then None else q_ledger_anchor (last ?R)"
  let ?a = "anchor S (prev_hex_of ?p) flag st en n"
  let ?r = "\<lparr>q_flag_name = flag, q_period_start = st, q_period_end = en, q_used_value = n,
    q_ledger_anchor = Some ?a\<rparr>"
  have "find (same_period flag st en) t = None"
    using new per by (force simp: find_None_iff same_period_def)
  moreover have "(case prior_row flag st t of None \<Rightarrow> GENESIS_ANCHOR_HEX | Some r \<Rightarrow> prev_hex_of (q_ledger_anchor r)) =
      prev_hex_of ?p"
    by (simp add: prior_row_linear [OF lin new])
  ultimately have st': "run_state (record_usage S flag n (Some st) (Some en) now) (t, c) = (t @ [?r], [])"
    using n per by (simp add: record_usage_def usage_period_def eff_simps usage_read_def usage_write_def
        invalidate_cache_def Let_def)
  have "ql.links S flag None (annotate None (?R @ [?r]))"
    using lin by (simp add: linear_ledger_def annotate_snoc ql.links_append tip_annotate quota_core_def quota_hash_def)
  then have "linear_ledger S flag (t @ [?r])"
    using lin new per S by (auto simp: linear_ledger_def sorted_wrt_append before_def anchor_def)
  with st' show thesis by (intro that [of ?r]) simp_all
qed

lemma linear_flag_rows: "linear_ledger S flag t \<Longrightarrow> flag_rows flag t = of_flag flag t"
proof -
  assume lin: "linear_ledger S flag t"
  let ?R = "of_flag flag t"
  have "sorted_wrt (\<lambda>a b. dt_key (q_period_start a) \<le> dt_key (q_period_start b)) ?R"
    by (rule sorted_wrt_mono_rel [of ?R before]) (use lin in \<open>fastforce simp: linear_ledger_def before_def list_all_iff\<close>)+
  then have "sorted (map (\<lambda>r. dt_key (q_period_start r)) ?R)" by (simp add: sorted_map)
  then show ?thesis by (simp add: flag_rows_def sort_key_id_if_sorted)
qed

lemma linear_verifies:
  assumes "\<forall>x. S x \<noteq> []" and "linear_ledger S flag t"
  shows "verify_chain S flag t =
    \<lparr>vr_ok = True, vr_rows_checked = length (of_flag flag t), vr_first_bad_row = None\<rparr>"
proof -
  have "replay_rows S flag 0 (prev_hex_of None) (of_flag flag t) =
      \<lparr>vr_ok = True, vr_rows_checked = 0 + length (of_flag flag t), vr_first_bad_row = None\<rparr>"
    using assms(2) by (subst replay_links(1) [OF assms(1)]) (simp add: linear_ledger_def)
  then show ?thesis by (simp add: verify_chain_def linear_flag_rows [OF assms(2)])
qed

definition period_before :: "int \<times> datetime \<times> datetime \<Rightarrow> int \<times> datetime \<times> datetime \<Rightarrow> bool" where
  "period_before x y \<longleftrightarrow> dt_key (snd (snd x)) \<le> dt_key (fst (snd y))"

lemma record_all_linear:
  assumes "\<forall>x. S x \<noteq> []" and "linear_ledger S flag t"
    and "\<forall>(n, st, en) \<in> set us. 0 \<le> n \<and> dt_key st < dt_key en" and "sorted_wrt period_before us"
    and "\<forall>r \<in> set (of_flag flag t). \<forall>(n, st, en) \<in> set us. dt_key (q_period_end r) \<le> dt_key st"
  shows "\<exists>t' c'. record_all S flag us now (t, c) = (t', c') \<and> linear_ledger S flag t' \<and>
    map (\<lambda>r. (q_used_value r, q_period_start r, q_period_end r)) (of_flag flag t') =
      map (\<lambda>r. (q_used_value r, q_period_start r, q_period_end r)) (of_flag flag t) @ us"
  using assms
proof (induction us arbitrary: t c)
  case (Cons u us)
  obtain n st en where u: "u = (n, st, en)" by (cases u)
  with Cons.prems have n: "0 \<le> n" "dt_key st < dt_key en"
    and new: "\<forall>r \<in> set (of_flag flag t). dt_key (q_period_end r) \<le> dt_key st" by auto
  obtain r where r: "run_state (record_usage S flag n (Some st) (Some en) now) (t, c) = (t @ [r], [])"
    "q_flag_name r = flag" "q_period_start r = st" "q_period_end r = en" "q_used_value r = n"
    "linear_ledger S flag (t @ [r])"
    using record_fresh_linear [OF Cons.prems(1,2) n new] by metis
  have next_new: "\<forall>x \<in> set (of_flag flag (t @ [r])). \<forall>(n, st, en) \<in> set us. dt_key (q_period_end x) \<le> dt_key st"
    using Cons.prems(4,5) r(2,4) u by (auto simp: period_before_def)
  obtain t' c' where "record_all S flag us now (t @ [r], []) = (t', c') \<and> linear_ledger S flag t' \<and>
    map (\<lambda>r. (q_used_value r, q_period_start r, q_period_end r)) (of_flag flag t') =
      map (\<lambda>r. (q_used_value r, q_period_start r, q_period_end r)) (of_flag flag (t @ [r])) @ us"
    using Cons.IH [OF Cons.prems(1) r(6) _ _ next_new, of "[]"] Cons.prems(3,4) by fastforce
  with r u show ?case by simp
qed simp

section \<open>Properties\<close>

definition demo_day :: "nat \<Rightarrow> nat \<Rightarrow> datetime" where
  "demo_day m d = \<lparr>dt_year = 2026, dt_month = m, dt_day = d, dt_hour = 0, dt_minute = 0, dt_second = 0, dt_micro = 0\<rparr>"

text \<open>
  Claim C21. Recording each period once, in order, keeps the ledger verifiable: starting from a
  table without rows of the flag, usage recorded for successive disjoint periods gives a chain
  that replays without fault over exactly as many rows, and the rows hold exactly the recorded increments
  and periods.
\<close>

theorem usage_once_per_period_verifies:
  assumes "\<forall>x. S x \<noteq> []" and "of_flag flag t = []"
    and "\<forall>(n, st, en) \<in> set us. 0 \<le> n \<and> dt_key st < dt_key en" and "sorted_wrt period_before us"
  shows "\<exists>t' c'. record_all S flag us now (t, c) = (t', c') \<and>
    verify_chain S flag t' = \<lparr>vr_ok = True, vr_rows_checked = length us, vr_first_bad_row = None\<rparr> \<and>
    map (\<lambda>r. (q_used_value r, q_period_start r, q_period_end r)) (flag_rows flag t') = us"
proof -
  have "linear_ledger S flag t" using assms(2) by (simp add: linear_ledger_def)
  then obtain t' c' where r: "record_all S flag us now (t, c) = (t', c')" "linear_ledger S flag t'"
    and rows: "map (\<lambda>r. (q_used_value r, q_period_start r, q_period_end r)) (of_flag flag t') = us"
    using record_all_linear [OF assms(1) _ assms(3,4), of flag t now c] assms(2) by auto
  from rows have "length (of_flag flag t') = length us" by (metis length_map)
  with r rows linear_verifies [OF assms(1) r(2)] show ?thesis
    by (auto simp: linear_flag_rows)
qed

theorem usage_once_per_period_verifies_witness:
  "\<exists>t' c'. record_all (\<lambda>x. CHR ''s'' # x) ''federation''
      [(3, demo_day 1 1, demo_day 2 1), (4, demo_day 2 1, demo_day 3 1)] (demo_day 1 1) ([], []) = (t', c') \<and>
    verify_chain (\<lambda>x. CHR ''s'' # x) ''federation'' t' =
      \<lparr>vr_ok = True, vr_rows_checked = 2, vr_first_bad_row = None\<rparr>"
  using usage_once_per_period_verifies [of "\<lambda>x. CHR ''s'' # x" "''federation''" "[]"
      "[(3, demo_day 1 1, demo_day 2 1), (4, demo_day 2 1, demo_day 3 1)]" "demo_day 1 1" "[]"]
  by (auto simp: demo_day_def dt_key_def period_before_def)

text \<open>
  A second increment breaks the chain: recording usage twice for one flag and period
  re-anchors the row to its own former anchor, which the replay does not know, so the
  verification reports the row as tampered with, unless SHA-256 collides on the two payloads.
\<close>

theorem second_usage_breaks_chain:
  assumes "\<forall>x. S x \<noteq> []" and "0 \<le> m" and "0 \<le> n" and "dt_key st < dt_key en"
    and "S (anchor_payload (bytes_hex (S (anchor_payload GENESIS_ANCHOR_HEX flag st en m))) flag st en (m + n)) \<noteq>
         S (anchor_payload GENESIS_ANCHOR_HEX flag st en (m + n))"
  shows "\<exists>t c. record_all S flag [(m, st, en), (n, st, en)] now ([], []) = (t, c) \<and>
    read_used_value flag st t = m + n \<and>
    verify_chain S flag t = \<lparr>vr_ok = False, vr_rows_checked = 1, vr_first_bad_row = Some st\<rparr>"
  using assms
  by (simp add: record_usage_def usage_period_def eff_simps usage_read_def usage_write_def Let_def
      same_period_def prior_row_def invalidate_cache_def verify_chain_def flag_rows_def anchor_def
      read_used_value_def)

theorem second_usage_breaks_chain_witness:
  "\<exists>t c. record_all (\<lambda>x. CHR ''s'' # x) ''federation'' [(3, demo_day 1 1, demo_day 2 1), (4, demo_day 1 1, demo_day 2 1)]
      (demo_day 1 1) ([], []) = (t, c) \<and>
    vr_ok (verify_chain (\<lambda>x. CHR ''s'' # x) ''federation'' t) = False"
proof -
  let ?S = "\<lambda>x. CHR ''s'' # x :: string"
  let ?p = "anchor_payload GENESIS_ANCHOR_HEX ''federation'' (demo_day 1 1) (demo_day 2 1) 3"
  have "?S (anchor_payload (bytes_hex (?S ?p)) ''federation'' (demo_day 1 1) (demo_day 2 1) (3 + 4)) \<noteq>
      ?S (anchor_payload GENESIS_ANCHOR_HEX ''federation'' (demo_day 1 1) (demo_day 2 1) (3 + 4))"
  proof
    assume "?S (anchor_payload (bytes_hex (?S ?p)) ''federation'' (demo_day 1 1) (demo_day 2 1) (3 + 4)) =
      ?S (anchor_payload GENESIS_ANCHOR_HEX ''federation'' (demo_day 1 1) (demo_day 2 1) (3 + 4))"
    then have "bytes_hex (?S ?p) = GENESIS_ANCHOR_HEX"
      using anchor_payload_inj [of "bytes_hex (?S ?p)" GENESIS_ANCHOR_HEX "demo_day 1 1" "demo_day 1 1"
          "demo_day 2 1" "demo_day 2 1"] by (simp add: dt_valid_def demo_day_def del: bytes_hex.simps)
    then have "hd (bytes_hex (?S ?p)) = hd GENESIS_ANCHOR_HEX" by simp
    then show False by (simp add: GENESIS_ANCHOR_HEX_def hex_char_def char_of_eq_iff)
  qed
  from second_usage_breaks_chain [OF _ _ _ _ this, of "demo_day 1 1"] show ?thesis
    by (auto simp: demo_day_def dt_key_def)
qed

text \<open>
  The anchors make tampering evident: if two tables both replay without fault for a
  flag and end in the same anchor, then, unless SHA-256 collides on the payloads
  replayed, every period and every used value agree.
\<close>

theorem quota_tamper_evident:
  assumes "\<forall>x. S x \<noteq> []" and "vr_ok (verify_chain S flag t)" and "vr_ok (verify_chain S flag t')"
    and "ql.tip None (annotate None (flag_rows flag t)) = ql.tip None (annotate None (flag_rows flag t'))"
    and "inj_on (quota_hash S flag)
      (quota_core ` (set (annotate None (flag_rows flag t)) \<union> set (annotate None (flag_rows flag t'))))"
  shows "map (\<lambda>r. (q_period_start r, q_period_end r, q_used_value r)) (flag_rows flag t) =
    map (\<lambda>r. (q_period_start r, q_period_end r, q_used_value r)) (flag_rows flag t')"
proof -
  let ?a = "annotate None (flag_rows flag t)" and ?b = "annotate None (flag_rows flag t')"
  have "ql.links S flag None ?a" "ql.links S flag None ?b"
    using assms(2,3) replay_links(2) [OF assms(1), of flag 0 None]
    by (simp_all add: verify_chain_def)
  then have "map quota_core ?a = map quota_core ?b"
    using assms(4,5) by (rule ql.chain_determined)
  then show ?thesis unfolding row_data_annotate [of _ None] by simp
qed

theorem quota_tamper_evident_witness:
  "\<exists>t t'. t \<noteq> t' \<and> flag_rows ''federation'' t \<noteq> [] \<and>
    map (\<lambda>r. (q_period_start r, q_period_end r, q_used_value r)) (flag_rows ''federation'' t) =
    map (\<lambda>r. (q_period_start r, q_period_end r, q_used_value r)) (flag_rows ''federation'' t')"
proof -
  let ?S = "\<lambda>x. CHR ''s'' # x :: string"
  let ?a = "anchor ?S GENESIS_ANCHOR_HEX ''federation'' (demo_day 1 1) (demo_day 2 1) 3"
  let ?r = "\<lparr>q_flag_name = ''federation'', q_period_start = demo_day 1 1, q_period_end = demo_day 2 1,
    q_used_value = 3, q_ledger_anchor = Some ?a\<rparr>"
  let ?t = "[?r]" and ?u = "[?r, ?r\<lparr>q_flag_name := ''hub_admin''\<rparr>]"
  have "map (\<lambda>r. (q_period_start r, q_period_end r, q_used_value r)) (flag_rows ''federation'' ?t) =
    map (\<lambda>r. (q_period_start r, q_period_end r, q_used_value r)) (flag_rows ''federation'' ?u)"
    by (rule quota_tamper_evident [of ?S])
      (simp_all add: verify_chain_def flag_rows_def anchor_def)
  then show ?thesis
    by (intro exI [of _ ?t] exI [of _ ?u]) (simp add: flag_rows_def)
qed

text \<open>
  Concurrent increments are lost: the read locks its row only for the one statement,
  so two writers may both read before either writes. Whatever the row held, after the
  interleaving read, read, write, write the first increment is missing.
\<close>

theorem concurrent_usage_lost:
  assumes "find (same_period flag st en) t = Some r" and "0 < m"
  shows "\<exists>r'. find (same_period flag st en)
      (usage_write (usage_read S flag st en n t) (usage_write (usage_read S flag st en m t) t)) = Some r' \<and>
    q_used_value r' = q_used_value r + n \<and> q_used_value r' < q_used_value r + m + n"
proof -
  have upd: "find (same_period flag st en) (map (\<lambda>x. if same_period flag st en x
      then x\<lparr>q_used_value := u, q_ledger_anchor := a\<rparr> else x) t) =
    map_option (\<lambda>x. x\<lparr>q_used_value := u, q_ledger_anchor := a\<rparr>) (find (same_period flag st en) t)" for u a t
    by (induction t) (auto simp: same_period_def)
  show ?thesis
    using assms by (simp add: usage_write_def usage_read_def Let_def upd del: map_map)
qed

theorem concurrent_usage_lost_witness:
  "\<exists>t. read_used_value ''federation'' (demo_day 1 5)
      (usage_write (usage_read (\<lambda>x. x) ''federation'' (demo_day 1 1) (demo_day 2 1) 1 t)
        (usage_write (usage_read (\<lambda>x. x) ''federation'' (demo_day 1 1) (demo_day 2 1) 1 t) t)) = 8 \<and>
    read_used_value ''federation'' (demo_day 1 5) t = 7"
proof -
  let ?r = "\<lparr>q_flag_name = ''federation'', q_period_start = demo_day 1 1, q_period_end = demo_day 2 1,
    q_used_value = 7, q_ledger_anchor = None\<rparr>"
  define w where "w = usage_write (usage_read (\<lambda>x. x) ''federation'' (demo_day 1 1) (demo_day 2 1) 1 [?r])
        (usage_write (usage_read (\<lambda>x. x) ''federation'' (demo_day 1 1) (demo_day 2 1) 1 [?r]) [?r])"
  have "find (same_period ''federation'' (demo_day 1 1) (demo_day 2 1)) [?r] = Some ?r"
    by (simp add: same_period_def)
  from concurrent_usage_lost [OF this, of 1 "\<lambda>x. x" 1]
  obtain r' where r': "find (same_period ''federation'' (demo_day 1 1) (demo_day 2 1)) w = Some r'" "q_used_value r' = 8"
    by (auto simp: w_def)
  have "length w = 1" by (simp add: w_def usage_write_def usage_read_def same_period_def Let_def)
  then obtain x where "w = [x]" by (metis One_nat_def length_0_conv length_Suc_conv)
  with r' have "w = [r']" "same_period ''federation'' (demo_day 1 1) (demo_day 2 1) r'"
    by (simp_all split: if_splits)
  with r' have "read_used_value ''federation'' (demo_day 1 5) w = 8"
    by (simp add: read_used_value_def same_period_def demo_day_def dt_key_def)
  moreover have "read_used_value ''federation'' (demo_day 1 5) [?r] = 7"
    by (simp add: read_used_value_def demo_day_def dt_key_def)
  ultimately show ?thesis unfolding w_def by blast
qed

text \<open>
  The default billing period is the calendar month of the given instant: it contains
  the instant, it is never empty, it starts on the first of that month, and the period after it
  starts where it ends.
\<close>

theorem default_period_contains:
  assumes "dt_valid now"
  shows "dt_key (fst (default_period now)) \<le> dt_key now \<and> dt_key now < dt_key (snd (default_period now)) \<and>
    dt_month (fst (default_period now)) = dt_month now \<and> dt_day (fst (default_period now)) = 1 \<and>
    fst (default_period (snd (default_period now))) = snd (default_period now)"
  using assms by (auto simp: default_period_def dt_valid_def dt_key_def Let_def)

theorem default_period_contains_witness:
  "dt_key (demo_day 12 31) < dt_key (snd (default_period (demo_day 12 31))) \<and>
   dt_year (snd (default_period (demo_day 12 31))) = 2027"
  using default_period_contains [of "demo_day 12 31"]
  by (simp add: dt_valid_def demo_day_def default_period_def)

end
