(* ===== verification/Shamir.thy ===== *)
theory Shamir
  imports Bytes
begin

text \<open>
  \<open>license/shamir.py\<close>: splitting the vendor signing key into hex shares, the checks on shares,
  reconstruction, and the share files. The \<open>pyshamir\<close> package is the parameter \<open>shamir_lib\<close>;
  what it documents of \<open>split\<close> and \<open>combine\<close> is the predicate \<open>lib_ok\<close>. The file
  system is a dictionary from paths to the text of regular files.
\<close>

section \<open>Constants and errors\<close>

definition SECRET_LEN_BYTES :: nat where "SECRET_LEN_BYTES = 32"
definition SHARE_LEN_BYTES :: nat where "SHARE_LEN_BYTES = SECRET_LEN_BYTES + 1"
definition SHARE_LEN_HEX :: nat where "SHARE_LEN_HEX = SHARE_LEN_BYTES * 2"
definition DEFAULT_PARTS :: int where "DEFAULT_PARTS = 5"
definition DEFAULT_THRESHOLD :: int where "DEFAULT_THRESHOLD = 3"

datatype shamir_error =
    Library_unavailable | Bad_secret_length | Bad_share_format | Too_few_shares | Duplicate_shares
  | Combine_failed | Share_file_exists | Share_file_unreadable | File_exists_error

text \<open>
  The installed library, if any: \<open>sl_split secret parts threshold\<close> and \<open>sl_combine\<close>, which gives
  \<open>None\<close> when it raises.
\<close>

record shamir_lib =
  sl_split :: "string \<Rightarrow> int \<Rightarrow> int \<Rightarrow> string list"
  sl_combine :: "string list \<Rightarrow> string option"

definition import_pyshamir :: "shamir_lib option \<Rightarrow> (shamir_error, shamir_lib) res" where
  "import_pyshamir lib = (case lib of None \<Rightarrow> Inl Library_unavailable | Some l \<Rightarrow> Inr l)"

section \<open>Shares\<close>

definition validate_share :: "string \<Rightarrow> (shamir_error, unit) res" where
  "validate_share share_hex =
     (let s = py_strip share_hex in
      if s = [] then Inl Bad_share_format
      else if \<not> is_hex s then Inl Bad_share_format
      else if length s \<noteq> SHARE_LEN_HEX then Inl Bad_share_format
      else if list_all (\<lambda>c. c = CHR ''0'') s then Inl Bad_share_format
      else Inr ())"

definition shares_have_unique_xs :: "string list \<Rightarrow> (shamir_error, unit) res" where
  "shares_have_unique_xs share_bytes =
     (if distinct (map last share_bytes) then Inr () else Inl Duplicate_shares)"

definition split_secret :: "shamir_lib option \<Rightarrow> string \<Rightarrow> int \<Rightarrow> int \<Rightarrow> (shamir_error, string list) res" where
  "split_secret lib secret parts threshold =
     (if length secret \<noteq> SECRET_LEN_BYTES then Inl Bad_secret_length
      else if \<not> (1 < threshold \<and> threshold \<le> parts) then Inl Bad_secret_length
      else rbind (import_pyshamir lib) (\<lambda>l. Inr (map bytes_hex (sl_split l secret parts threshold))))"

definition share_bytes :: "string \<Rightarrow> string" where
  "share_bytes s = (case bytes_fromhex (py_strip s) of Some b \<Rightarrow> b | None \<Rightarrow> [])"

definition combine_shares :: "shamir_lib option \<Rightarrow> string list \<Rightarrow> int \<Rightarrow> (shamir_error, string) res" where
  "combine_shares lib shares_hex threshold =
     (if int (length shares_hex) < threshold then Inl Too_few_shares
      else rbind (rmap validate_share shares_hex) (\<lambda>_.
        let bs = map share_bytes shares_hex in
        rbind (shares_have_unique_xs bs) (\<lambda>_.
        rbind (import_pyshamir lib) (\<lambda>l.
        case sl_combine l bs of
          None \<Rightarrow> Inl Combine_failed
        | Some secret \<Rightarrow> if length secret \<noteq> SECRET_LEN_BYTES then Inl Combine_failed else Inr secret))))"

section \<open>Share files\<close>

type_synonym share_fs = "(string, string) dict"

fun write_shares :: "(string \<times> string) list \<Rightarrow> (share_fs, shamir_error, unit) eff" where
  "write_shares [] = ereturn ()"
| "write_shares ((share, path) # rest) =
     ebind (\<lambda>fs. if map_of fs path = None then (Inr (), AList.update path (py_strip share @ [CHR 0x0A]) fs)
                 else (Inl File_exists_error, fs)) (\<lambda>_. write_shares rest)"

definition write_share_files :: "string list \<Rightarrow> string list \<Rightarrow> (share_fs, shamir_error, string list) eff" where
  "write_share_files shares_hex output_paths =
     ebind (eguard (length shares_hex = length output_paths) Bad_share_format) (\<lambda>_.
     ebind (\<lambda>fs. (if \<exists>p \<in> set output_paths. map_of fs p \<noteq> None then Inl Share_file_exists else Inr (), fs)) (\<lambda>_.
     ebind (write_shares (zip shares_hex output_paths)) (\<lambda>_.
     ereturn output_paths)))"

definition read_and_zeroize_share_file :: "string \<Rightarrow> (share_fs, shamir_error, string) eff" where
  "read_and_zeroize_share_file path fs = (case map_of fs path of
     None \<Rightarrow> (Inl Share_file_unreadable, fs)
   | Some text \<Rightarrow>
       let content = py_strip text in
       if content = [] then (Inl Share_file_unreadable, fs)
       else (Inr content, AList.delete path fs))"

definition read_share_file :: "string \<Rightarrow> (share_fs, shamir_error, string) eff" where
  "read_share_file path fs = (case map_of fs path of
     None \<Rightarrow> (Inl Share_file_unreadable, fs) | Some text \<Rightarrow> (Inr (py_strip text), fs))"

fun read_shares :: "bool \<Rightarrow> string list \<Rightarrow> (share_fs, shamir_error, string list \<times> string list) eff" where
  "read_shares zeroize [] = ereturn ([], [])"
| "read_shares zeroize (p # ps) =
     ebind (if zeroize then read_and_zeroize_share_file p else read_share_file p) (\<lambda>s.
     ebind (read_shares zeroize ps) (\<lambda>(ss, ws).
     ereturn (s # ss, if zeroize then p # ws else ws)))"

definition reconstruct_from_files :: "shamir_lib option \<Rightarrow> string list \<Rightarrow> int \<Rightarrow> bool \<Rightarrow>
    (share_fs, shamir_error, string \<times> string list) eff" where
  "reconstruct_from_files lib share_paths threshold zeroize_files =
     ebind (eguard (\<not> int (length share_paths) < threshold) Too_few_shares) (\<lambda>_.
     ebind (read_shares zeroize_files share_paths) (\<lambda>(shares, wiped).
     ebind (elift (combine_shares lib shares threshold)) (\<lambda>secret.
     ereturn (secret, wiped))))"

definition zeroize_bytes :: "string \<Rightarrow> string" where
  "zeroize_bytes buf = replicate (length buf) (CHR 0x00)"

section \<open>What the library documents\<close>

text \<open>
  For one secret: \<open>split\<close> gives \<open>parts\<close> shares, each one byte longer than the secret and not all
  zero, with pairwise different last bytes, and \<open>combine\<close> of any selection of at least
  \<open>threshold\<close> different ones of them, in any order, gives the secret back.
\<close>

definition lib_ok :: "shamir_lib \<Rightarrow> string \<Rightarrow> int \<Rightarrow> int \<Rightarrow> bool" where
  "lib_ok l secret parts threshold \<longleftrightarrow>
     (let shares = sl_split l secret parts threshold in
      int (length shares) = parts \<and> distinct (map last shares) \<and>
      (\<forall>s \<in> set shares. length s = length secret + 1 \<and> (\<exists>c \<in> set s. c \<noteq> CHR 0x00)) \<and>
      (\<forall>sel. set sel \<subseteq> set shares \<and> distinct sel \<and> threshold \<le> int (length sel) \<longrightarrow>
        sl_combine l sel = Some secret))"

section \<open>Lemmas\<close>

lemma hex_zero: "list_all (\<lambda>c. c = CHR ''0'') (bytes_hex b) \<Longrightarrow> \<forall>c \<in> set b. c = CHR 0x00"
proof (induction b)
  case (Cons c b)
  have zero: "hex_char n = CHR ''0'' \<Longrightarrow> n < 16 \<Longrightarrow> n = 0" for n
    using hex_val_char [of n] by (simp add: hex_val_def)
  from Cons.prems have "(of_char c :: nat) div 16 = 0" "(of_char c :: nat) mod 16 = 0"
    by (auto intro!: zero simp: div_less_iff_less_mult)
  then have "(of_char c :: nat) = 0" by (metis div_mult_mod_eq mult_zero_left add_0)
  then have "char_of (of_char c :: nat) = CHR 0x00" by (simp add: char_of_eq_iff)
  then have "c = CHR 0x00" by simp
  with Cons show ?case by simp
qed simp

lemma validate_hex_share:
  assumes "length b = SHARE_LEN_BYTES" and "\<exists>c \<in> set b. c \<noteq> CHR 0x00"
  shows "validate_share (bytes_hex b) = Inr ()"
proof -
  have "length (bytes_hex b) = SHARE_LEN_HEX" using assms(1) by (simp add: SHARE_LEN_HEX_def)
  moreover from this have "length (bytes_hex b) \<noteq> 0"
    unfolding SHARE_LEN_HEX_def SHARE_LEN_BYTES_def by simp
  then have "bytes_hex b \<noteq> []" by blast
  moreover have "\<not> list_all (\<lambda>c. c = CHR ''0'') (bytes_hex b)" using hex_zero [of b] assms(2) by blast
  ultimately show ?thesis by (simp add: validate_share_def)
qed

lemma share_bytes_hex [simp]: "share_bytes (bytes_hex b) = b"
  by (simp add: share_bytes_def)

lemma combine_selected:
  assumes ok: "lib_ok l secret parts threshold" and len: "length secret = SECRET_LEN_BYTES"
    and sel: "set sel \<subseteq> set (sl_split l secret parts threshold)" "distinct sel" "threshold \<le> int (length sel)"
  shows "combine_shares (Some l) (map bytes_hex sel) threshold = Inr secret"
proof -
  have "\<forall>b \<in> set sel. validate_share (bytes_hex b) = Inr ()"
    using ok sel(1) len by (auto simp: lib_ok_def Let_def SHARE_LEN_BYTES_def intro!: validate_hex_share)
  then have v: "rmap validate_share (map bytes_hex sel) = Inr (map (\<lambda>_. ()) sel)"
    by (subst rmap_Inr_all [where g = "\<lambda>_. ()"]) auto
  have "inj_on last (set (sl_split l secret parts threshold))"
    using ok by (simp add: lib_ok_def Let_def distinct_map)
  then have x: "distinct (map last sel)"
    using sel(1,2) by (simp add: distinct_map inj_on_subset)
  have b: "map share_bytes (map bytes_hex sel) = sel" by (simp add: comp_def)
  have "sl_combine l sel = Some secret" using ok sel by (simp add: lib_ok_def Let_def)
  with v x sel(3) len show ?thesis
    unfolding combine_shares_def b by (simp add: shares_have_unique_xs_def import_pyshamir_def)
qed

lemma write_shares_fresh:
  assumes "distinct (map snd sps)" and "\<forall>p \<in> set (map snd sps). map_of fs p = None"
  shows "\<exists>fs'. write_shares sps fs = (Inr (), fs') \<and>
    map_of fs' = map_of fs ++ map_of (map (\<lambda>(s, p). (p, py_strip s @ [CHR 0x0A])) sps)"
  using assms
proof (induction sps arbitrary: fs)
  case Nil
  then show ?case by (simp add: eff_simps)
next
  case (Cons sp sps)
  obtain s p where sp: "sp = (s, p)" by fastforce
  let ?fs = "AList.update p (py_strip s @ [CHR 0x0A]) fs"
  have "\<forall>q \<in> set (map snd sps). map_of ?fs q = None"
    using Cons.prems sp by (auto simp: dict_simps)
  with Cons obtain fs' where w: "write_shares sps ?fs = (Inr (), fs')"
    "map_of fs' = map_of ?fs ++ map_of (map (\<lambda>(s, p). (p, py_strip s @ [CHR 0x0A])) sps)"
    by (metis (no_types, lifting) distinct.simps(2) list.simps(9))
  have notin: "map_of (map (\<lambda>(s, p). (p, py_strip s @ [CHR 0x0A])) sps) p = None"
    using Cons.prems(1) sp by (force simp: map_of_eq_None_iff)
  have "map_of fs' = map_of fs ++ map_of (map (\<lambda>(s, p). (p, py_strip s @ [CHR 0x0A])) (sp # sps))"
    using w(2) notin sp by (auto simp: dict_simps map_add_def fun_eq_iff split: option.split)
  moreover have "write_shares (sp # sps) fs = (Inr (), fs')"
    using w(1) Cons.prems(2) sp by (simp add: eff_simps)
  ultimately show ?case by blast
qed

lemma read_shares_wipe:
  assumes "distinct ps" and "\<forall>p \<in> set ps. \<exists>t. map_of fs p = Some t \<and> py_strip t \<noteq> []"
  shows "\<exists>fs'. read_shares True ps fs = (Inr (map (\<lambda>p. py_strip (the (map_of fs p))) ps, ps), fs') \<and>
    map_of fs' = (map_of fs) |` (- set ps)"
  using assms
proof (induction ps arbitrary: fs)
  case Nil
  then show ?case by (simp add: eff_simps)
next
  case (Cons p ps)
  then obtain t where t: "map_of fs p = Some t" "py_strip t \<noteq> []" by auto
  let ?fs = "AList.delete p fs"
  have same: "\<forall>q \<in> set ps. map_of ?fs q = map_of fs q"
    using Cons.prems(1) by (auto simp: dict_simps)
  with Cons obtain fs' where r: "read_shares True ps ?fs = (Inr (map (\<lambda>p. py_strip (the (map_of ?fs p))) ps, ps), fs')"
    "map_of fs' = (map_of ?fs) |` (- set ps)" by fastforce
  from same have "map (\<lambda>p. py_strip (the (map_of ?fs p))) ps = map (\<lambda>p. py_strip (the (map_of fs p))) ps" by simp
  moreover have "map_of fs' = (map_of fs) |` (- set (p # ps))"
    using r(2) by (auto simp: dict_simps restrict_map_def fun_eq_iff)
  ultimately show ?case using r(1) t
    by (simp add: eff_simps read_and_zeroize_share_file_def)
qed

section \<open>Properties\<close>

text \<open>
  Claim C20. The key can be recovered: shares made from a 32-byte secret and handed back, any
  selection of at least the threshold of different ones in any order, combine to the secret, and
  nothing is refused on the way.
\<close>

theorem split_combine_round_trip:
  assumes "lib_ok l secret parts threshold" and "length secret = SECRET_LEN_BYTES"
    and "1 < threshold" and "threshold \<le> parts"
    and "set sel \<subseteq> set (sl_split l secret parts threshold)" and "distinct sel" and "threshold \<le> int (length sel)"
  shows "\<exists>shares. split_secret (Some l) secret parts threshold = Inr shares \<and>
    set (map bytes_hex sel) \<subseteq> set shares \<and>
    combine_shares (Some l) (map bytes_hex sel) threshold = Inr secret"
  using assms combine_selected [OF assms(1,2,5,6,7)]
  by (auto simp: split_secret_def import_pyshamir_def)

text \<open>A library that appends the index of the share to the secret meets the documented laws.\<close>

definition demo_lib :: shamir_lib where
  "demo_lib = \<lparr>sl_split = (\<lambda>s n k. map (\<lambda>i. s @ [char_of i]) [1..<Suc (nat n)]),
     sl_combine = (\<lambda>ss. case ss of [] \<Rightarrow> None | x # _ \<Rightarrow> Some (butlast x))\<rparr>"

definition demo_secret :: string where
  "demo_secret = replicate 32 (CHR ''k'')"

lemma length_demo_secret: "length demo_secret = SECRET_LEN_BYTES"
  by (simp add: demo_secret_def SECRET_LEN_BYTES_def)

lemma demo_split: "sl_split demo_lib s 5 3 =
    [s @ [CHR 0x01], s @ [CHR 0x02], s @ [CHR 0x03], s @ [CHR 0x04], s @ [CHR 0x05]]"
proof -
  have "[1..<Suc (nat 5)] = [1, 2, 3, 4, 5]" by (simp add: upt_rec)
  then have "sl_split demo_lib s 5 3 = map (\<lambda>i. s @ [char_of i]) [1 :: nat, 2, 3, 4, 5]"
    by (simp only: demo_lib_def shamir_lib.simps)
  then show ?thesis by (simp add: char_of_eq_iff)
qed

lemma demo_lib_ok: "lib_ok demo_lib demo_secret 5 3"
proof -
  let ?shares = "sl_split demo_lib demo_secret 5 3"
  have all: "\<forall>s \<in> set ?shares. \<exists>c. s = demo_secret @ [c] \<and> c \<noteq> CHR 0x00" by (simp add: demo_split)
  have combine: "sl_combine demo_lib sel = Some demo_secret"
    if sel: "set sel \<subseteq> set ?shares" "3 \<le> int (length sel)" for sel
  proof -
    from sel(2) obtain x xs where x: "sel = x # xs" by (cases sel) auto
    with sel(1) all obtain c where "x = demo_secret @ [c]" by auto
    with x show ?thesis by (simp add: demo_lib_def)
  qed
  have "int (length ?shares) = 5" "distinct (map last ?shares)" by (simp_all add: demo_split)
  moreover have "\<forall>s \<in> set ?shares. length s = length demo_secret + 1 \<and> (\<exists>c \<in> set s. c \<noteq> CHR 0x00)"
    using all by fastforce
  ultimately show ?thesis
    using combine by (simp add: lib_ok_def Let_def)
qed

theorem split_combine_round_trip_witness:
  "combine_shares (Some demo_lib)
     (map bytes_hex [demo_secret @ [CHR 0x04], demo_secret @ [CHR 0x01], demo_secret @ [CHR 0x05]]) 3 = Inr demo_secret"
  using split_combine_round_trip [OF demo_lib_ok,
      of "[demo_secret @ [CHR 0x04], demo_secret @ [CHR 0x01], demo_secret @ [CHR 0x05]]"]
  by (auto simp: demo_split length_demo_secret)

text \<open>
  Recovery through files works and leaves nothing behind: shares written to new,
  pairwise different paths and read back from at least the threshold of them give the secret,
  and exactly the files that were read are gone afterwards.
\<close>

theorem files_round_trip:
  assumes "lib_ok l secret parts threshold" and "length secret = SECRET_LEN_BYTES"
    and "set sel \<subseteq> set (sl_split l secret parts threshold)" and "distinct sel" and "threshold \<le> int (length sel)"
    and "length paths = length sel" and "distinct paths" and "\<forall>p \<in> set paths. map_of fs p = None"
  shows "\<exists>fs' fs''. write_share_files (map bytes_hex sel) paths fs = (Inr paths, fs') \<and>
    reconstruct_from_files (Some l) paths threshold True fs' = (Inr (secret, paths), fs'') \<and>
    map_of fs'' = map_of fs"
proof -
  let ?sps = "zip (map bytes_hex sel) paths"
  let ?m = "map (\<lambda>(s, p). (p, py_strip s @ [CHR 0x0A])) ?sps"
  have snds: "map snd ?sps = paths" using assms(6) by simp
  obtain fs' where w: "write_shares ?sps fs = (Inr (), fs')" "map_of fs' = map_of fs ++ map_of ?m"
    using write_shares_fresh [of ?sps fs] assms(7,8) snds by auto
  have m: "?m = zip paths (map (\<lambda>b. bytes_hex b @ [CHR 0x0A]) sel)"
    using assms(6) by (intro nth_equalityI) auto
  have get: "map_of fs' (paths ! i) = Some (bytes_hex (sel ! i) @ [CHR 0x0A])" if "i < length paths" for i
    using that assms(6,7) w(2) m by (simp add: map_add_def map_of_zip_nth)
  have strip: "py_strip (bytes_hex b @ [CHR 0x0A]) = bytes_hex b" if "b \<noteq> []" for b
  proof -
    from that have ne: "bytes_hex b \<noteq> []" by (cases b) simp_all
    have e: "\<not> py_space (hd (bytes_hex b))" "\<not> py_space (last (bytes_hex b))"
      using is_hex_no_edge_space [OF is_hex_bytes_hex, of b] ne by (auto simp: no_edge_space_def)
    have "dropWhile py_space (bytes_hex b @ [CHR 0x0A]) = bytes_hex b @ [CHR 0x0A]"
      using ne e by (intro dropWhile_hd) simp_all
    moreover have "dropWhile py_space (CHR 0x0A # rev (bytes_hex b)) = rev (bytes_hex b)"
      using ne e by (simp add: py_space_def [of "CHR 0x0A"] dropWhile_hd hd_rev)
    ultimately show ?thesis by (simp add: py_strip_def)
  qed
  have ne: "sel ! i \<noteq> []" if "i < length paths" for i
  proof -
    have "sel ! i \<in> set (sl_split l secret parts threshold)" using assms(3,6) that by auto
    with assms(1) show ?thesis by (auto simp: lib_ok_def Let_def)
  qed
  have "map (\<lambda>p. py_strip (the (map_of fs' p))) paths = map bytes_hex sel"
    using assms(6) get strip ne by (intro nth_equalityI) auto
  moreover have "\<forall>p \<in> set paths. \<exists>t. map_of fs' p = Some t \<and> py_strip t \<noteq> []"
    using get strip ne by (auto simp: in_set_conv_nth) (metis bytes_fromhex.simps(1) bytes_fromhex_hex option.inject)
  ultimately obtain fs'' where r: "read_shares True paths fs' = (Inr (map bytes_hex sel, paths), fs'')"
    "map_of fs'' = (map_of fs') |` (- set paths)"
    using read_shares_wipe [OF assms(7)] by metis
  have "map_of fs'' = map_of fs"
    using r(2) w(2) m assms(6,8)
    by (auto simp: fun_eq_iff restrict_map_def map_add_def split: option.split dest!: map_of_SomeD dest: set_zip_leftD)
  moreover have "reconstruct_from_files (Some l) paths threshold True fs' = (Inr (secret, paths), fs'')"
    using r combine_selected [OF assms(1-5)] assms(5,6) by (simp add: reconstruct_from_files_def eff_simps)
  moreover have "write_share_files (map bytes_hex sel) paths fs = (Inr paths, fs')"
    using w assms(6,8) by (simp add: write_share_files_def eff_simps)
  ultimately show ?thesis by blast
qed

theorem files_round_trip_witness:
  "\<exists>fs' fs''. write_share_files
      (map bytes_hex [demo_secret @ [CHR 0x02], demo_secret @ [CHR 0x03], demo_secret @ [CHR 0x05]])
      [''a'', ''b'', ''c''] [(''x'', ''keep'')] = (Inr [''a'', ''b'', ''c''], fs') \<and>
    reconstruct_from_files (Some demo_lib) [''a'', ''b'', ''c''] 3 True fs' =
      (Inr (demo_secret, [''a'', ''b'', ''c'']), fs'') \<and> map_of fs'' ''x'' = Some ''keep''"
  using files_round_trip [OF demo_lib_ok,
      of "[demo_secret @ [CHR 0x02], demo_secret @ [CHR 0x03], demo_secret @ [CHR 0x05]]"
         "[''a'', ''b'', ''c'']" "[(''x'', ''keep'')]"]
  by (auto simp: demo_split length_demo_secret)

text \<open>
  A failed recovery destroys the shares: the files are wiped before any share is
  checked, so when one of them is malformed the call refuses and every share file given,
  the good ones included, is gone.
\<close>

theorem failed_reconstruction_destroys_shares:
  assumes "distinct paths" and "threshold \<le> int (length paths)"
    and "\<forall>p \<in> set paths. \<exists>t. map_of fs p = Some t \<and> py_strip t \<noteq> []"
    and "bad \<in> set paths" and "validate_share (the (map_of fs bad)) = Inl Bad_share_format"
  shows "\<exists>fs'. reconstruct_from_files lib paths threshold True fs = (Inl Bad_share_format, fs') \<and>
    dom (map_of fs') \<inter> set paths = {}"
proof -
  let ?s = "map (\<lambda>p. py_strip (the (map_of fs p))) paths"
  obtain fs' where r: "read_shares True paths fs = (Inr (?s, paths), fs')" "map_of fs' = (map_of fs) |` (- set paths)"
    using read_shares_wipe [OF assms(1,3)] by blast
  have only: "validate_share x = Inr () \<or> validate_share x = Inl Bad_share_format" for x
    by (simp add: validate_share_def Let_def)
  have "rmap validate_share xs = Inl Bad_share_format" if "\<exists>x \<in> set xs. validate_share x = Inl Bad_share_format" for xs
    using that
  proof (induction xs)
    case (Cons x xs)
    then show ?case using only [of x] by (fastforce simp: rbind_eq_Inl)
  qed simp
  moreover have "validate_share (py_strip (the (map_of fs bad))) = Inl Bad_share_format"
    using assms(5) by (simp add: validate_share_def)
  ultimately have "rmap validate_share ?s = Inl Bad_share_format" using assms(4) by force
  then have "combine_shares lib ?s threshold = Inl Bad_share_format"
    using assms(2) by (simp add: combine_shares_def)
  with r assms(2) show ?thesis
    by (auto simp: reconstruct_from_files_def eff_simps)
qed

theorem failed_reconstruction_destroys_shares_witness:
  "\<exists>fs'. reconstruct_from_files (Some demo_lib) [''a'', ''b'', ''c''] 3 True
      [(''a'', bytes_hex (demo_secret @ [CHR 0x02])), (''b'', ''not hex''), (''c'', bytes_hex (demo_secret @ [CHR 0x05]))]
      = (Inl Bad_share_format, fs') \<and> ''a'' \<notin> dom (map_of fs')"
proof -
  let ?fs = "[(''a'', bytes_hex (demo_secret @ [CHR 0x02])), (''b'', ''not hex''), (''c'', bytes_hex (demo_secret @ [CHR 0x05]))]"
  have ne: "bytes_hex (demo_secret @ [c]) \<noteq> []" for c
    by (metis append_is_Nil_conv bytes_fromhex.simps(1) bytes_fromhex_hex not_Cons_self2 option.inject)
  have b: "py_strip ''not hex'' = ''not hex''" by (simp add: py_strip_def py_space_def)
  then have "validate_share ''not hex'' = Inl Bad_share_format"
    by (simp add: validate_share_def is_hex_def hex_val_def)
  with ne b have "\<exists>fs'. reconstruct_from_files (Some demo_lib) [''a'', ''b'', ''c''] 3 True ?fs = (Inl Bad_share_format, fs') \<and>
    dom (map_of fs') \<inter> set [''a'', ''b'', ''c''] = {}"
    by (intro failed_reconstruction_destroys_shares [where bad = "''b''"]) simp_all
  then show ?thesis by auto
qed

end
