(* ===== verification/Federation.thy ===== *)
theory Federation
  imports Json Bytes
begin

text \<open>
  \<open>federation/hub_registry.py\<close>, \<open>federation/consent.py\<close>, \<open>federation/downstream_router.py\<close> and
  \<open>federation/update_cascade.py\<close> over the three tables of migration V23, with their uniqueness
  and foreign-key constraints. The locale \<open>hub_directory\<close> is what the router and the cascade
  rely on of the registry and the consent engine. Network calls and the
  sanity smoke are parameters.
\<close>

section \<open>Tables\<close>

datatype consent_status = Consent_pending | Consent_active | Consent_suspended | Consent_revoked
datatype rollout_status = Rollout_pending | Rollout_in_progress | Rollout_completed | Rollout_failed
  | Rollout_rolled_back

record hub_record =
  hr_hub_id :: uuid
  hr_name :: string
  hr_base_url :: string
  hr_public_key :: string
  hr_parent_hub_id :: "uuid option"
  hr_consent_status :: consent_status
  hr_registered_at :: time

record consent_row =
  co_child :: uuid
  co_parent :: uuid
  co_class :: string
  co_granted_by :: string
  co_scope :: "(string \<times> json) list"

record update_record =
  ud_id :: uuid
  ud_source_hub_id :: uuid
  ud_target_hub_id :: uuid
  ud_bundle_version :: string
  ud_signature :: string
  ud_rollout_status :: rollout_status
  ud_approved_at :: "time option"
  ud_approved_by :: "string option"
  ud_created_at :: time

record fed_db =
  fd_hubs :: "hub_record list"
  fd_consents :: "consent_row list"
  fd_updates :: "update_record list"
  fd_now :: time

datatype fed_error =
    Hub_id_file_missing | Invalid_uuid | Hub_not_found | Unique_violation | Foreign_key_violation
  | Missing_rationale | Granted_by_required | Policy_type_error | Mandatory_flow_denied
  | Approval_required | Cascade_error | Routing_error | Upstream_call_error

section \<open>The hub registry\<close>

definition uuid_shape :: "string \<Rightarrow> bool" where
  "uuid_shape s \<longleftrightarrow> length s = 36 \<and>
     (\<forall>i < 36. if i \<in> {8, 13, 18, 23} then s ! i = CHR ''-'' else hex_val (s ! i) \<noteq> None)"

definition uuid_value :: "string \<Rightarrow> uuid" where
  "uuid_value s = foldl (\<lambda>n c. 16 * n + int (the (hex_val c))) 0 (filter (\<lambda>c. c \<noteq> CHR ''-'') s)"

text \<open>\<open>file\<close> is the text of the hub_id file, \<open>None\<close> when it is not a regular file.\<close>

definition read_hub_id_file :: "string option \<Rightarrow> (fed_error, uuid) res" where
  "read_hub_id_file file = (case file of
     None \<Rightarrow> Inl Hub_id_file_missing
   | Some text \<Rightarrow>
       let content = py_strip text in
       if content = [] then Inl Hub_id_file_missing
       else if \<not> uuid_shape content then Inl Invalid_uuid
       else Inr (uuid_value content))"

definition get_by_hub_id :: "fed_db \<Rightarrow> uuid \<Rightarrow> hub_record option" where
  "get_by_hub_id db hid = find (\<lambda>h. hr_hub_id h = hid) (fd_hubs db)"

definition list_children :: "fed_db \<Rightarrow> uuid \<Rightarrow> hub_record list" where
  "list_children db p = sort_key hr_registered_at (filter (\<lambda>h. hr_parent_hub_id h = Some p) (fd_hubs db))"

definition hub_insert :: "hub_record \<Rightarrow> (fed_db, fed_error, unit) eff" where
  "hub_insert rec db =
     (if get_by_hub_id db (hr_hub_id rec) \<noteq> None then (Inl Unique_violation, db)
      else if (case hr_parent_hub_id rec of None \<Rightarrow> False
               | Some p \<Rightarrow> p \<noteq> hr_hub_id rec \<and> get_by_hub_id db p = None)
        then (Inl Foreign_key_violation, db)
      else (Inr (), db\<lparr>fd_hubs := fd_hubs db @ [rec\<lparr>hr_registered_at := fd_now db\<rparr>]\<rparr>))"

definition bootstrap_local_hub :: "uuid \<Rightarrow> string \<Rightarrow> string \<Rightarrow> string \<Rightarrow> uuid option \<Rightarrow>
    (fed_db, fed_error, hub_record) eff" where
  "bootstrap_local_hub hid name base_url public_key parent =
     ebind (eread (\<lambda>db. get_by_hub_id db hid)) (\<lambda>existing. case existing of
       Some rec \<Rightarrow> ereturn rec
     | None \<Rightarrow> ebind (eread fd_now) (\<lambda>now.
         let rec = \<lparr>hr_hub_id = hid, hr_name = name, hr_base_url = base_url, hr_public_key = public_key,
                    hr_parent_hub_id = parent, hr_consent_status = Consent_active, hr_registered_at = now\<rparr> in
         ebind (hub_insert rec) (\<lambda>_. ereturn rec)))"

definition bootstrap_hub_id :: "string option \<Rightarrow> string \<Rightarrow> string \<Rightarrow> string \<Rightarrow> uuid option \<Rightarrow>
    (fed_db, fed_error, hub_record) eff" where
  "bootstrap_hub_id file name base_url public_key parent =
     ebind (elift (read_hub_id_file file)) (\<lambda>hid. bootstrap_local_hub hid name base_url public_key parent)"

definition register_child :: "uuid \<Rightarrow> string \<Rightarrow> string \<Rightarrow> string \<Rightarrow> uuid \<Rightarrow> consent_status \<Rightarrow>
    (fed_db, fed_error, hub_record) eff" where
  "register_child child name base_url public_key parent initial_status =
     ebind (eread fd_now) (\<lambda>now.
     let rec = \<lparr>hr_hub_id = child, hr_name = name, hr_base_url = base_url, hr_public_key = public_key,
                hr_parent_hub_id = Some parent, hr_consent_status = initial_status, hr_registered_at = now\<rparr> in
     ebind (hub_insert rec) (\<lambda>_. ereturn rec))"

definition set_consent_status :: "uuid \<Rightarrow> consent_status \<Rightarrow> (fed_db, fed_error, unit) eff" where
  "set_consent_status hid status db =
     (if get_by_hub_id db hid = None then (Inl Hub_not_found, db)
      else (Inr (), db\<lparr>fd_hubs := map (\<lambda>h. if hr_hub_id h = hid then h\<lparr>hr_consent_status := status\<rparr> else h)
                                  (fd_hubs db)\<rparr>))"

section \<open>Consent\<close>

record mandatory_class =
  mc_consent_class :: json
  mc_rationale :: json

type_synonym consent_policy = "mandatory_class list"

definition or_empty :: "json option \<Rightarrow> json" where
  "or_empty j = (case j of None \<Rightarrow> JNull | Some v \<Rightarrow> v)"

fun policy_entries :: "json list \<Rightarrow> (fed_error, mandatory_class list) res" where
  "policy_entries [] = Inr []"
| "policy_entries (JDict raw # rest) =
     (let cls = or_empty (map_of raw ''class''); rat = or_empty (map_of raw ''rationale'') in
      if \<not> truthy cls then policy_entries rest
      else if \<not> truthy rat then Inl Missing_rationale
      else rbind (policy_entries rest) (\<lambda>ms. Inr (\<lparr>mc_consent_class = cls, mc_rationale = rat\<rparr> # ms)))"
| "policy_entries (_ # rest) = Inl Policy_type_error"

definition from_bundle_policy :: "(string \<times> json) list option \<Rightarrow> (fed_error, consent_policy) res" where
  "from_bundle_policy bundle_policy = (case bundle_policy of
     None \<Rightarrow> Inr []
   | Some policy \<Rightarrow>
       let consent_block = or_empty (map_of policy ''consent'') in
       if \<not> truthy consent_block then Inr []
       else (case consent_block of
         JDict block \<Rightarrow>
           let mu = or_empty (map_of block ''mandatory_upward'') in
           if \<not> truthy mu then Inr []
           else (case mu of JList raws \<Rightarrow> policy_entries raws | _ \<Rightarrow> Inl Policy_type_error)
       | _ \<Rightarrow> Inl Policy_type_error))"

definition is_mandatory :: "consent_policy \<Rightarrow> string \<Rightarrow> bool" where
  "is_mandatory pol cls = list_ex (\<lambda>m. mc_consent_class m = JStr cls) pol"

definition mandatory_rationale :: "consent_policy \<Rightarrow> string \<Rightarrow> json option" where
  "mandatory_rationale pol cls = map_option mc_rationale (find (\<lambda>m. mc_consent_class m = JStr cls) pol)"

definition is_allowed :: "consent_policy \<Rightarrow> fed_db \<Rightarrow> uuid \<Rightarrow> string \<Rightarrow> bool" where
  "is_allowed pol db peer cls =
     (if is_mandatory pol cls then True
      else list_ex (\<lambda>r. co_class r = cls \<and> (co_child r = peer \<or> co_parent r = peer)) (fd_consents db))"

definition consent_grant :: "uuid \<Rightarrow> uuid \<Rightarrow> string \<Rightarrow> string \<Rightarrow> (string \<times> json) list \<Rightarrow> (fed_db, fed_error, unit) eff" where
  "consent_grant child parent cls granted_by scope =
     ebind (eguard (granted_by \<noteq> []) Granted_by_required) (\<lambda>_.
     (\<lambda>db. if get_by_hub_id db child = None \<or> get_by_hub_id db parent = None
           then (Inl Foreign_key_violation, db)
           else (Inr (), db\<lparr>fd_consents := fd_consents db @
             [\<lparr>co_child = child, co_parent = parent, co_class = cls, co_granted_by = granted_by, co_scope = scope\<rparr>]\<rparr>)))"

definition consent_revoke :: "consent_policy \<Rightarrow> uuid \<Rightarrow> uuid \<Rightarrow> string \<Rightarrow> (fed_db, fed_error, unit) eff" where
  "consent_revoke pol child parent cls =
     ebind (eguard (\<not> is_mandatory pol cls) Mandatory_flow_denied) (\<lambda>_.
     ewrite (\<lambda>db. db\<lparr>fd_consents := filter (\<lambda>r. \<not> (co_child r = child \<and> co_parent r = parent \<and> co_class r = cls))
       (fd_consents db)\<rparr>))"

section \<open>The downstream router\<close>

text \<open>\<open>net h path\<close> is the answer of the child at \<open>h\<close>'s base URL, \<open>None\<close> when the call raises.\<close>

type_synonym network = "hub_record \<Rightarrow> string \<Rightarrow> json option"

definition call_child :: "consent_policy \<Rightarrow> network \<Rightarrow> fed_db \<Rightarrow> uuid \<Rightarrow> string \<Rightarrow> string \<Rightarrow> (fed_error, json) res" where
  "call_child pol net db child path cls = (case get_by_hub_id db child of
     None \<Rightarrow> Inl Routing_error
   | Some h \<Rightarrow>
       if hr_consent_status h \<noteq> Consent_active then Inl Routing_error
       else if \<not> is_allowed pol db child cls then Inl Routing_error
       else (case net h path of None \<Rightarrow> Inl Upstream_call_error | Some j \<Rightarrow> Inr j))"

record child_call_outcome =
  oc_hub_id :: uuid
  oc_ok :: bool
  oc_data :: "json option"
  oc_error :: "fed_error option"

text \<open>
  The calls of a broadcast are independent reads, so their results do not depend on the order in
  which they finish; the outcomes are listed here in the order of the children.
\<close>

definition broadcast :: "consent_policy \<Rightarrow> network \<Rightarrow> fed_db \<Rightarrow> uuid \<Rightarrow> string \<Rightarrow> string \<Rightarrow> hub_record list option \<Rightarrow>
    child_call_outcome list" where
  "broadcast pol net db local path cls children =
     map (\<lambda>c. case call_child pol net db (hr_hub_id c) path cls of
            Inr d \<Rightarrow> \<lparr>oc_hub_id = hr_hub_id c, oc_ok = True, oc_data = Some d, oc_error = None\<rparr>
          | Inl e \<Rightarrow> \<lparr>oc_hub_id = hr_hub_id c, oc_ok = False, oc_data = None, oc_error = Some e\<rparr>)
       (case children of Some cs \<Rightarrow> cs | None \<Rightarrow> list_children db local)"

section \<open>The update cascade\<close>

text \<open>
  \<open>cc_verifier\<close> is the field \<open>signature_verifier\<close>; \<open>cc_smoke v\<close> is the sanity smoke of a bundle
  version, \<open>None\<close> when it raises; \<open>cc_new_id\<close> is the UUID that \<open>uuid4()\<close> gives for a child's row.
\<close>

record cascade =
  cc_local_hub_id :: uuid
  cc_policy :: consent_policy
  cc_net :: network
  cc_verifier :: "string \<Rightarrow> string \<Rightarrow> string \<Rightarrow> bool"
  cc_smoke :: "string \<Rightarrow> bool option"
  cc_new_id :: "uuid \<Rightarrow> uuid"

record cascade_outcome =
  out_update_id :: uuid
  out_status :: rollout_status
  out_attempted :: nat
  out_succeeded :: nat
  out_failed :: nat

definition fetch_update :: "fed_db \<Rightarrow> uuid \<Rightarrow> (fed_error, update_record) res" where
  "fetch_update db uid = (case find (\<lambda>u. ud_id u = uid) (fd_updates db) of
     None \<Rightarrow> Inl Cascade_error | Some u \<Rightarrow> Inr u)"

definition set_status :: "uuid \<Rightarrow> rollout_status \<Rightarrow> (time \<times> string) option \<Rightarrow> fed_db \<Rightarrow> fed_db" where
  "set_status uid status approval db = db\<lparr>fd_updates := map (\<lambda>u.
     if ud_id u \<noteq> uid then u
     else (case approval of
       Some (at, who) \<Rightarrow> u\<lparr>ud_rollout_status := status, ud_approved_at := Some at, ud_approved_by := Some who\<rparr>
     | None \<Rightarrow> u\<lparr>ud_rollout_status := status\<rparr>)) (fd_updates db)\<rparr>"

definition insert_child_update :: "uuid \<Rightarrow> uuid \<Rightarrow> uuid \<Rightarrow> update_record \<Rightarrow> (fed_db, fed_error, unit) eff" where
  "insert_child_update new_id source target parent_rec db =
     (if find (\<lambda>u. ud_id u = new_id) (fd_updates db) \<noteq> None then (Inl Unique_violation, db)
      else if get_by_hub_id db source = None \<or> get_by_hub_id db target = None then (Inl Foreign_key_violation, db)
      else (Inr (), db\<lparr>fd_updates := fd_updates db @
        [\<lparr>ud_id = new_id, ud_source_hub_id = source, ud_target_hub_id = target,
          ud_bundle_version = ud_bundle_version parent_rec, ud_signature = ud_signature parent_rec,
          ud_rollout_status = Rollout_pending, ud_approved_at = None, ud_approved_by = None,
          ud_created_at = fd_now db\<rparr>]\<rparr>))"

text \<open>
  The loop over the children, with its three counters. The notification of a child is a call
  whose failure is swallowed and which writes nothing here.
\<close>

fun cascade_loop :: "cascade \<Rightarrow> update_record \<Rightarrow> hub_record list \<Rightarrow> fed_db \<Rightarrow> (nat \<times> nat \<times> nat) \<times> fed_db" where
  "cascade_loop C rec [] db = ((0, 0, 0), db)"
| "cascade_loop C rec (child # rest) db =
     (if hr_consent_status child \<noteq> Consent_active then cascade_loop C rec rest db
      else if \<not> is_allowed (cc_policy C) db (hr_hub_id child) ''update_push'' then cascade_loop C rec rest db
      else case insert_child_update (cc_new_id C (hr_hub_id child)) (cc_local_hub_id C) (hr_hub_id child) rec db of
        (Inr _, db1) \<Rightarrow>
          (let notify = call_child (cc_policy C) (cc_net C) db1 (hr_hub_id child)
                 ''/api/v2/federation/cascade/notify'' ''update_push'' in
           case cascade_loop C rec rest db1 of ((a, s, f), db') \<Rightarrow> ((Suc a, Suc s, f), db'))
      | (Inl _, db1) \<Rightarrow> (case cascade_loop C rec rest db1 of ((a, s, f), db') \<Rightarrow> ((Suc a, s, Suc f), db')))"

definition cascade_to_children :: "cascade \<Rightarrow> update_record \<Rightarrow> (fed_db, fed_error, cascade_outcome) eff" where
  "cascade_to_children C rec db =
     (case cascade_loop C rec (list_children db (cc_local_hub_id C)) db of ((a, s, f), db') \<Rightarrow>
       (Inr \<lparr>out_update_id = ud_id rec, out_status = Rollout_completed, out_attempted = a,
             out_succeeded = s, out_failed = f\<rparr>, db'))"

definition approve_and_apply :: "cascade \<Rightarrow> uuid \<Rightarrow> string \<Rightarrow> string \<Rightarrow> (fed_db, fed_error, cascade_outcome) eff" where
  "approve_and_apply C uid approved_by rationale =
     ebind (eguard (approved_by \<noteq> []) Approval_required) (\<lambda>_.
     ebind (eguard (rationale \<noteq> []) Approval_required) (\<lambda>_.
     ebind (\<lambda>db. (fetch_update db uid, db)) (\<lambda>rec.
     ebind (eguard (ud_rollout_status rec = Rollout_pending) Cascade_error) (\<lambda>_.
     ebind (ewrite (\<lambda>db. set_status uid Rollout_in_progress (Some (fd_now db, approved_by)) db)) (\<lambda>_.
     if cc_smoke C (ud_bundle_version rec) \<noteq> Some True
     then ebind (ewrite (set_status uid Rollout_failed None)) (\<lambda>_. eraise Cascade_error)
     else ebind (ewrite (set_status uid Rollout_completed None)) (\<lambda>_. cascade_to_children C rec))))))"

definition reject_update :: "uuid \<Rightarrow> string \<Rightarrow> string \<Rightarrow> (fed_db, fed_error, cascade_outcome) eff" where
  "reject_update uid rejected_by rationale =
     ebind (eguard (rejected_by \<noteq> [] \<and> rationale \<noteq> []) Approval_required) (\<lambda>_.
     ebind (ewrite (\<lambda>db. set_status uid Rollout_rolled_back (Some (fd_now db, rejected_by)) db)) (\<lambda>_.
     ereturn \<lparr>out_update_id = uid, out_status = Rollout_rolled_back, out_attempted = 0, out_succeeded = 0, out_failed = 0\<rparr>))"

definition pull_pending :: "cascade \<Rightarrow> fed_db \<Rightarrow> update_record list" where
  "pull_pending C db = sort_key ud_created_at (filter (\<lambda>u. ud_target_hub_id u = cc_local_hub_id C \<and>
     ud_rollout_status u = Rollout_pending) (fd_updates db))"

section \<open>The directory interface\<close>

text \<open>
  What the cascade and the router use: looking a hub up, listing the children of a hub, and
  asking whether a peer allows a class of traffic. In a sound database the children of a
  hub are exactly the registered hubs that name it as their parent.
\<close>

locale hub_directory =
  fixes lookup :: "'db \<Rightarrow> uuid \<Rightarrow> hub_record option"
    and children :: "'db \<Rightarrow> uuid \<Rightarrow> hub_record list"
    and allowed :: "'db \<Rightarrow> uuid \<Rightarrow> string \<Rightarrow> bool"
    and sound :: "'db \<Rightarrow> bool"
  assumes lookup_id: "lookup db i = Some h \<Longrightarrow> hr_hub_id h = i"
    and children_iff: "sound db \<Longrightarrow>
      h \<in> set (children db p) \<longleftrightarrow> lookup db (hr_hub_id h) = Some h \<and> hr_parent_hub_id h = Some p"
    and children_distinct: "sound db \<Longrightarrow> distinct (map hr_hub_id (children db p))"
begin

definition targets :: "'db \<Rightarrow> uuid \<Rightarrow> string \<Rightarrow> hub_record list" where
  "targets db p cls = filter (\<lambda>h. hr_consent_status h = Consent_active \<and> allowed db (hr_hub_id h) cls)
     (children db p)"

lemma targets_iff:
  "sound db \<Longrightarrow> h \<in> set (targets db p cls) \<longleftrightarrow> lookup db (hr_hub_id h) = Some h \<and>
     hr_parent_hub_id h = Some p \<and> hr_consent_status h = Consent_active \<and> allowed db (hr_hub_id h) cls"
  by (auto simp: targets_def children_iff)

lemma targets_distinct: "sound db \<Longrightarrow> distinct (map hr_hub_id (targets db p cls))"
  using children_distinct by (simp add: targets_def distinct_map_filter)

lemma children_same_id:
  "sound db \<Longrightarrow> h \<in> set (children db p) \<Longrightarrow> k \<in> set (children db q) \<Longrightarrow> hr_hub_id h = hr_hub_id k \<Longrightarrow> h = k"
  by (auto simp: children_iff)

end

section \<open>The invariant of the tables\<close>

definition fed_ok :: "fed_db \<Rightarrow> bool" where
  "fed_ok db \<longleftrightarrow> distinct (map hr_hub_id (fd_hubs db)) \<and>
     (\<forall>h \<in> set (fd_hubs db). \<forall>p. hr_parent_hub_id h = Some p \<longrightarrow> p \<in> hr_hub_id ` set (fd_hubs db)) \<and>
     (\<forall>r \<in> set (fd_consents db). {co_child r, co_parent r} \<subseteq> hr_hub_id ` set (fd_hubs db)) \<and>
     distinct (map ud_id (fd_updates db)) \<and>
     (\<forall>u \<in> set (fd_updates db). {ud_source_hub_id u, ud_target_hub_id u} \<subseteq> hr_hub_id ` set (fd_hubs db))"

lemma get_by_hub_id_None: "get_by_hub_id db i = None \<longleftrightarrow> i \<notin> hr_hub_id ` set (fd_hubs db)"
  by (auto simp: get_by_hub_id_def find_None_all)

lemma get_by_hub_id_Some:
  "distinct (map hr_hub_id (fd_hubs db)) \<Longrightarrow> get_by_hub_id db i = Some h \<longleftrightarrow> h \<in> set (fd_hubs db) \<and> hr_hub_id h = i"
proof -
  assume d: "distinct (map hr_hub_id (fd_hubs db))"
  show ?thesis
  proof
    assume "get_by_hub_id db i = Some h"
    then show "h \<in> set (fd_hubs db) \<and> hr_hub_id h = i" by (auto simp: get_by_hub_id_def dest: find_Some_mem)
  next
    assume h: "h \<in> set (fd_hubs db) \<and> hr_hub_id h = i"
    then obtain k where k: "get_by_hub_id db i = Some k"
      by (cases "get_by_hub_id db i") (auto simp: get_by_hub_id_None)
    then have "k \<in> set (fd_hubs db) \<and> hr_hub_id k = i" by (auto simp: get_by_hub_id_def dest: find_Some_mem)
    with h d have "k = h" by (auto simp: distinct_map inj_on_def)
    with k show "get_by_hub_id db i = Some h" by simp
  qed
qed

interpretation fd: hub_directory get_by_hub_id list_children "is_allowed pol" fed_ok for pol
proof (unfold_locales, goal_cases)
  case (1 db i h)
  then show ?case by (auto simp: get_by_hub_id_def dest: find_Some_mem)
next
  case (2 db h p)
  then show ?case by (auto simp: fed_ok_def list_children_def get_by_hub_id_Some)
next
  case (3 db p)
  have "distinct (map hr_hub_id (filter (\<lambda>h. hr_parent_hub_id h = Some p) (fd_hubs db)))"
    using 3 by (simp add: fed_ok_def distinct_map_filter)
  then show ?case by (simp add: list_children_def distinct_map)
qed

section \<open>Lemmas on the cascade\<close>

definition child_row :: "cascade \<Rightarrow> update_record \<Rightarrow> fed_db \<Rightarrow> hub_record \<Rightarrow> update_record" where
  "child_row C rec db h =
     \<lparr>ud_id = cc_new_id C (hr_hub_id h), ud_source_hub_id = cc_local_hub_id C, ud_target_hub_id = hr_hub_id h,
      ud_bundle_version = ud_bundle_version rec, ud_signature = ud_signature rec,
      ud_rollout_status = Rollout_pending, ud_approved_at = None, ud_approved_by = None,
      ud_created_at = fd_now db\<rparr>"

definition wants :: "cascade \<Rightarrow> fed_db \<Rightarrow> hub_record \<Rightarrow> bool" where
  "wants C db h \<longleftrightarrow> hr_consent_status h = Consent_active \<and>
     is_allowed (cc_policy C) db (hr_hub_id h) ''update_push''"

lemma with_updates [simp]:
  "get_by_hub_id (db\<lparr>fd_updates := us\<rparr>) i = get_by_hub_id db i"
  "is_allowed pol (db\<lparr>fd_updates := us\<rparr>) i cls = is_allowed pol db i cls"
  "wants C (db\<lparr>fd_updates := us\<rparr>) h = wants C db h"
  "child_row C rec (db\<lparr>fd_updates := us\<rparr>) h = child_row C rec db h"
  "list_children (db\<lparr>fd_updates := us\<rparr>) p = list_children db p"
  by (simp_all add: get_by_hub_id_def is_allowed_def wants_def child_row_def list_children_def)

text \<open>The rows a run of the loop adds: one per wanting child at most, all pending, with new ids.\<close>

definition cascade_rows :: "cascade \<Rightarrow> update_record \<Rightarrow> fed_db \<Rightarrow> hub_record list \<Rightarrow> update_record list \<Rightarrow> bool" where
  "cascade_rows C rec db cs rows \<longleftrightarrow>
     (\<forall>u \<in> set rows. (\<exists>h \<in> set cs. wants C db h \<and> u = child_row C rec db h) \<and>
        get_by_hub_id db (ud_target_hub_id u) \<noteq> None) \<and>
     (rows \<noteq> [] \<longrightarrow> get_by_hub_id db (cc_local_hub_id C) \<noteq> None) \<and>
     (distinct (map ud_id (fd_updates db)) \<longrightarrow> distinct (map ud_id (fd_updates db @ rows)))"

lemma child_row_fields [simp]:
  "ud_id (child_row C rec db h) = cc_new_id C (hr_hub_id h)"
  "ud_source_hub_id (child_row C rec db h) = cc_local_hub_id C"
  "ud_target_hub_id (child_row C rec db h) = hr_hub_id h"
  "ud_rollout_status (child_row C rec db h) = Rollout_pending"
  by (simp_all add: child_row_def)

lemma cascade_rows_skip: "cascade_rows C rec db cs rows \<Longrightarrow> cascade_rows C rec db (c # cs) rows"
  unfolding cascade_rows_def by (meson list.set_intros(2))

lemma cascade_rows_add:
  assumes "cascade_rows C rec (db\<lparr>fd_updates := fd_updates db @ [child_row C rec db c]\<rparr>) cs rows"
    and "wants C db c" and "cc_new_id C (hr_hub_id c) \<notin> ud_id ` set (fd_updates db)"
    and "get_by_hub_id db (cc_local_hub_id C) \<noteq> None" and "get_by_hub_id db (hr_hub_id c) \<noteq> None"
  shows "cascade_rows C rec db (c # cs) (child_row C rec db c # rows)"
proof -
  have ids: "ud_id (child_row C rec db c) = cc_new_id C (hr_hub_id c)"
    "ud_target_hub_id (child_row C rec db c) = hr_hub_id c" by (simp_all add: child_row_def)
  have "distinct (map ud_id (fd_updates db)) \<longrightarrow> distinct (map ud_id (fd_updates db @ child_row C rec db c # rows))"
    using assms(1,3) ids(1) by (simp add: cascade_rows_def)
  moreover have "\<forall>u \<in> set (child_row C rec db c # rows). (\<exists>h \<in> set (c # cs). wants C db h \<and> u = child_row C rec db h) \<and>
      get_by_hub_id db (ud_target_hub_id u) \<noteq> None"
  proof
    fix u assume "u \<in> set (child_row C rec db c # rows)"
    then consider "u = child_row C rec db c" | "u \<in> set rows" by auto
    then show "(\<exists>h \<in> set (c # cs). wants C db h \<and> u = child_row C rec db h) \<and> get_by_hub_id db (ud_target_hub_id u) \<noteq> None"
    proof cases
      case 1
      with assms(2,5) ids(2) show ?thesis by auto
    next
      case 2
      with assms(1) show ?thesis unfolding cascade_rows_def with_updates by (meson list.set_intros(2))
    qed
  qed
  ultimately show ?thesis using assms(4) unfolding cascade_rows_def by blast
qed

lemma cascade_loop_frame:
  "\<exists>rows. snd (cascade_loop C rec cs db) = db\<lparr>fd_updates := fd_updates db @ rows\<rparr> \<and> cascade_rows C rec db cs rows"
proof (induction C rec cs db rule: cascade_loop.induct)
  case (1 C rec db)
  show ?case by (intro exI [of _ "[]"]) (simp add: cascade_rows_def)
next
  case (2 C rec child rest db)
  let ?i = "insert_child_update (cc_new_id C (hr_hub_id child)) (cc_local_hub_id C) (hr_hub_id child) rec db"
  let ?P = "\<lambda>cs. \<exists>rows. snd (cascade_loop C rec rest db) = db\<lparr>fd_updates := fd_updates db @ rows\<rparr> \<and> cascade_rows C rec db cs rows"
  show ?case
  proof (cases "wants C db child")
    case False
    then have "cascade_loop C rec (child # rest) db = cascade_loop C rec rest db" by (simp add: wants_def)
    moreover have "?P rest"
    proof (cases "hr_consent_status child = Consent_active")
      case True
      with False have "\<not> is_allowed (cc_policy C) db (hr_hub_id child) ''update_push''" by (simp add: wants_def)
      with True 2(2) show ?thesis by blast
    qed (use 2(1) in blast)
    ultimately show ?thesis using cascade_rows_skip by metis
  next
    case True
    then have a: "\<not> hr_consent_status child \<noteq> Consent_active"
      "\<not> \<not> is_allowed (cc_policy C) db (hr_hub_id child) ''update_push''" by (simp_all add: wants_def)
    show ?thesis
    proof (cases "fst ?i")
      case (Inl e)
      then have i: "?i = (Inl e, db)" by (auto simp: insert_child_update_def split: if_splits)
      with True have "snd (cascade_loop C rec (child # rest) db) = snd (cascade_loop C rec rest db)"
        by (simp add: wants_def split_beta)
      moreover have "?P rest" using 2(3) [OF a i [symmetric]] by blast
      ultimately show ?thesis using cascade_rows_skip by metis
    next
      case (Inr x)
      let ?db = "db\<lparr>fd_updates := fd_updates db @ [child_row C rec db child]\<rparr>"
      have i: "?i = (Inr x, ?db)"
        using Inr by (auto simp: insert_child_update_def child_row_def split: if_splits)
      have fresh: "cc_new_id C (hr_hub_id child) \<notin> ud_id ` set (fd_updates db)"
        and reg: "get_by_hub_id db (cc_local_hub_id C) \<noteq> None" "get_by_hub_id db (hr_hub_id child) \<noteq> None"
        using Inr by (auto simp: insert_child_update_def find_None_all split: if_splits)
      have s: "snd (cascade_loop C rec (child # rest) db) = snd (cascade_loop C rec rest ?db)"
        using True i by (simp add: wants_def split_beta)
      obtain rows where rows: "snd (cascade_loop C rec rest ?db) = ?db\<lparr>fd_updates := fd_updates ?db @ rows\<rparr>"
        "cascade_rows C rec ?db rest rows"
        using 2(4) [OF a i [symmetric]] by blast
      have "snd (cascade_loop C rec (child # rest) db) = db\<lparr>fd_updates := fd_updates db @ child_row C rec db child # rows\<rparr>"
        using s rows(1) by simp
      with cascade_rows_add [OF rows(2) True fresh reg] show ?thesis by blast
    qed
  qed
qed

lemma cascade_loop_all:
  assumes "distinct (map (\<lambda>h. cc_new_id C (hr_hub_id h)) (filter (wants C db) cs))"
    and "\<forall>h \<in> set (filter (wants C db) cs). cc_new_id C (hr_hub_id h) \<notin> ud_id ` set (fd_updates db)"
    and "get_by_hub_id db (cc_local_hub_id C) \<noteq> None" and "\<forall>h \<in> set cs. get_by_hub_id db (hr_hub_id h) \<noteq> None"
  shows "cascade_loop C rec cs db =
    ((length (filter (wants C db) cs), length (filter (wants C db) cs), 0),
     db\<lparr>fd_updates := fd_updates db @ map (child_row C rec db) (filter (wants C db) cs)\<rparr>)"
  using assms
proof (induction cs arbitrary: db)
  case Nil
  then show ?case by simp
next
  case (Cons child rest)
  show ?case
  proof (cases "wants C db child")
    case False
    with Cons show ?thesis by (auto simp: wants_def)
  next
    case True
    let ?db = "db\<lparr>fd_updates := fd_updates db @ [child_row C rec db child]\<rparr>"
    have "insert_child_update (cc_new_id C (hr_hub_id child)) (cc_local_hub_id C) (hr_hub_id child) rec db = (Inr (), ?db)"
    proof -
      have "find (\<lambda>u. ud_id u = cc_new_id C (hr_hub_id child)) (fd_updates db) = None"
        using Cons.prems(2) True by (force simp: find_None_all)
      with Cons.prems(3,4) show ?thesis by (simp add: insert_child_update_def child_row_def)
    qed
    moreover have "cascade_loop C rec rest ?db =
      ((length (filter (wants C db) rest), length (filter (wants C db) rest), 0),
       ?db\<lparr>fd_updates := fd_updates ?db @ map (child_row C rec db) (filter (wants C db) rest)\<rparr>)"
    proof -
      have "\<forall>h \<in> set (filter (wants C db) rest). cc_new_id C (hr_hub_id h) \<notin> ud_id ` set (fd_updates ?db)"
      proof
        fix h assume h: "h \<in> set (filter (wants C db) rest)"
        with Cons.prems(1) True have "cc_new_id C (hr_hub_id h) \<noteq> cc_new_id C (hr_hub_id child)"
          by (simp add: image_iff) metis
        with h Cons.prems(2) show "cc_new_id C (hr_hub_id h) \<notin> ud_id ` set (fd_updates ?db)" by simp
      qed
      with Cons.IH [of ?db] Cons.prems True show ?thesis by simp
    qed
    ultimately show ?thesis using True by (simp add: wants_def [of C db child])
  qed
qed

lemma set_status_ids [simp]: "map ud_id (fd_updates (set_status uid s a db)) = map ud_id (fd_updates db)"
  by (auto simp: set_status_def split: option.split)

lemma set_status_frame [simp]:
  "fd_hubs (set_status uid s a db) = fd_hubs db" "fd_consents (set_status uid s a db) = fd_consents db"
  "fd_now (set_status uid s a db) = fd_now db"
  by (simp_all add: set_status_def)

lemma set_status_as_update: "set_status uid s a db = db\<lparr>fd_updates := fd_updates (set_status uid s a db)\<rparr>"
  by (simp add: set_status_def)

lemma set_status_other: "u \<in> set (fd_updates db) \<Longrightarrow> ud_id u \<noteq> uid \<Longrightarrow> u \<in> set (fd_updates (set_status uid s a db))"
  by (force simp: set_status_def)

lemma set_status_mem:
  "u \<in> set (fd_updates (set_status uid s a db)) \<Longrightarrow> \<exists>v \<in> set (fd_updates db). ud_id v = ud_id u \<and>
     ud_source_hub_id v = ud_source_hub_id u \<and> ud_target_hub_id v = ud_target_hub_id u \<and>
     ud_signature v = ud_signature u \<and> (ud_id u \<noteq> uid \<longrightarrow> u = v)"
  unfolding set_status_def by (fastforce split: option.split_asm if_split_asm)

section \<open>The life of the tables\<close>

text \<open>
  Every operation of the three components as a step, with an outside party that offers a new
  pending update and with time passing.
\<close>

inductive fed_step :: "fed_db \<Rightarrow> fed_db \<Rightarrow> bool" where
  boot: "fed_step db (run_state (bootstrap_local_hub i n u k p) db)"
| register: "fed_step db (run_state (register_child i n u k p s) db)"
| status: "fed_step db (run_state (set_consent_status i s) db)"
| grant: "fed_step db (run_state (consent_grant c p cls who scope) db)"
| revoke: "fed_step db (run_state (consent_revoke pol c p cls) db)"
| approve: "fed_step db (run_state (approve_and_apply C uid who why) db)"
| reject: "fed_step db (run_state (reject_update uid who why) db)"
| offer: "fed_step db (run_state (insert_child_update uid src tgt rec) db)"
| tick: "0 \<le> t \<Longrightarrow> fed_step db (db\<lparr>fd_now := fd_now db + t\<rparr>)"

text \<open>No update leaves the state \<open>pending\<close> without a named approver or rejecter.\<close>

definition attributed :: "fed_db \<Rightarrow> bool" where
  "attributed db \<longleftrightarrow> (\<forall>u \<in> set (fd_updates db).
     ud_rollout_status u \<noteq> Rollout_pending \<longrightarrow> ud_approved_by u \<notin> {None, Some []})"

lemma fed_ok_hubs_snoc:
  "fed_ok db \<Longrightarrow> hub_insert rec db = (r, db') \<Longrightarrow> fed_ok db' \<and> fd_updates db' = fd_updates db"
  by (auto simp: hub_insert_def fed_ok_def get_by_hub_id_None split: if_splits option.splits)

lemma fed_ok_map_hubs:
  assumes "\<And>h. hr_hub_id (f h) = hr_hub_id h" and "\<And>h. hr_parent_hub_id (f h) = hr_parent_hub_id h" and "fed_ok db"
  shows "fed_ok (db\<lparr>fd_hubs := map f (fd_hubs db)\<rparr>)"
  using assms(3) by (simp add: fed_ok_def image_image assms(1,2) comp_def)

lemma fed_ok_updates:
  assumes "fed_ok db" and "distinct (map ud_id us)"
    and "\<forall>u \<in> set us. {ud_source_hub_id u, ud_target_hub_id u} \<subseteq> hr_hub_id ` set (fd_hubs db)"
  shows "fed_ok (db\<lparr>fd_updates := us\<rparr>)"
  using assms by (simp add: fed_ok_def)

lemma fed_ok_set_status: "fed_ok db \<Longrightarrow> fed_ok (set_status uid s a db)"
proof (subst set_status_as_update, rule fed_ok_updates)
  assume ok: "fed_ok db"
  show "\<forall>u \<in> set (fd_updates (set_status uid s a db)).
      {ud_source_hub_id u, ud_target_hub_id u} \<subseteq> hr_hub_id ` set (fd_hubs db)"
  proof
    fix u assume "u \<in> set (fd_updates (set_status uid s a db))"
    from set_status_mem [OF this] ok show "{ud_source_hub_id u, ud_target_hub_id u} \<subseteq> hr_hub_id ` set (fd_hubs db)"
      unfolding fed_ok_def by metis
  qed
qed (simp_all add: fed_ok_def)

lemma attributed_set_status:
  "attributed db \<Longrightarrow> a = Some (t, who) \<and> who \<noteq> [] \<or> a = None \<and> (\<forall>u \<in> set (fd_updates db). ud_id u = uid \<longrightarrow> ud_approved_by u \<notin> {None, Some []}) \<Longrightarrow>
     attributed (set_status uid s a db)"
  by (auto simp: attributed_def set_status_def)

lemma approved_after_set:
  assumes "u \<in> set (fd_updates (set_status uid s (Some (t, who)) db))" and "ud_id u = uid"
  shows "ud_approved_by u = Some who"
proof (rule ccontr)
  assume "ud_approved_by u \<noteq> Some who"
  moreover have "\<forall>v \<in> set (fd_updates (set_status uid s (Some (t, who)) db)). ud_id v = uid \<longrightarrow> ud_approved_by v = Some who"
    by (simp add: set_status_def del: if_image_distrib)
  ultimately show False using assms by blast
qed

lemma cascade_to_children_ok:
  assumes "fed_ok db" and "attributed db"
  shows "fed_ok (run_state (cascade_to_children C rec) db) \<and> attributed (run_state (cascade_to_children C rec) db)"
proof -
  have run: "run_state (cascade_to_children C rec) db =
      snd (cascade_loop C rec (list_children db (cc_local_hub_id C)) db)"
    by (simp add: cascade_to_children_def split_beta)
  obtain rows where upd: "run_state (cascade_to_children C rec) db = db\<lparr>fd_updates := fd_updates db @ rows\<rparr>"
    and rows: "cascade_rows C rec db (list_children db (cc_local_hub_id C)) rows"
    using cascade_loop_frame unfolding run by blast
  have dist: "distinct (map ud_id (fd_updates db @ rows))"
    using rows assms(1) by (simp add: cascade_rows_def fed_ok_def)
  have new: "u \<in> set rows \<Longrightarrow> ud_rollout_status u = Rollout_pending \<and> ud_source_hub_id u = cc_local_hub_id C" for u
    using rows unfolding cascade_rows_def by (metis child_row_fields(2,4))
  have "\<forall>u \<in> set rows. {ud_source_hub_id u, ud_target_hub_id u} \<subseteq> hr_hub_id ` set (fd_hubs db)"
  proof
    fix u assume u: "u \<in> set rows"
    then have "rows \<noteq> []" by auto
    with rows u new [OF u] show "{ud_source_hub_id u, ud_target_hub_id u} \<subseteq> hr_hub_id ` set (fd_hubs db)"
      by (simp add: cascade_rows_def get_by_hub_id_None)
  qed
  then have "fed_ok (db\<lparr>fd_updates := fd_updates db @ rows\<rparr>)"
    using assms(1) dist by (intro fed_ok_updates) (auto simp: fed_ok_def)
  moreover have "attributed (db\<lparr>fd_updates := fd_updates db @ rows\<rparr>)"
    using assms(2) new by (auto simp: attributed_def)
  ultimately show ?thesis using upd by simp
qed

lemma approve_ok:
  assumes "fed_ok db" and "attributed db"
  shows "fed_ok (run_state (approve_and_apply C uid who why) db) \<and>
    attributed (run_state (approve_and_apply C uid who why) db)"
proof (cases "who \<noteq> [] \<and> why \<noteq> [] \<and> (\<exists>rec. fetch_update db uid = Inr rec \<and> ud_rollout_status rec = Rollout_pending)")
  case False
  then have "run_state (approve_and_apply C uid who why) db = db"
    by (cases "fetch_update db uid") (auto simp: approve_and_apply_def eff_simps)
  with assms show ?thesis by simp
next
  case True
  then obtain rec where f: "fetch_update db uid = Inr rec" "ud_rollout_status rec = Rollout_pending" by blast
  let ?db1 = "set_status uid Rollout_in_progress (Some (fd_now db, who)) db"
  have ok1: "fed_ok ?db1" using assms(1) by (rule fed_ok_set_status)
  have at1: "attributed ?db1" using assms(2) True by (intro attributed_set_status [where t = "fd_now db" and who = who]) auto
  have at2: "attributed (set_status uid s None ?db1)" for s
  proof (rule attributed_set_status [OF at1], intro disjI2 conjI ballI impI)
    fix u assume "u \<in> set (fd_updates ?db1)" "ud_id u = uid"
    from approved_after_set [OF this] True show "ud_approved_by u \<notin> {None, Some []}" by simp
  qed simp
  have ok2: "fed_ok (set_status uid s None ?db1)" for s using ok1 by (rule fed_ok_set_status)
  show ?thesis
  proof (cases "cc_smoke C (ud_bundle_version rec) = Some True")
    case smoke: True
    have "run_state (approve_and_apply C uid who why) db =
        run_state (cascade_to_children C rec) (set_status uid Rollout_completed None ?db1)"
      using True f smoke by (simp add: approve_and_apply_def eff_simps split: prod.split sum.split)
    with cascade_to_children_ok [OF ok2 at2] show ?thesis by simp
  next
    case smoke: False
    have "run_state (approve_and_apply C uid who why) db = set_status uid Rollout_failed None ?db1"
      using True f smoke by (simp add: approve_and_apply_def eff_simps)
    with ok2 at2 show ?thesis by simp
  qed
qed

lemma fed_step_ok: "fed_step db db' \<Longrightarrow> fed_ok db \<and> attributed db \<Longrightarrow> fed_ok db' \<and> attributed db'"
proof (induction rule: fed_step.induct)
  case (boot db i n u k p)
  let ?rec = "\<lparr>hr_hub_id = i, hr_name = n, hr_base_url = u, hr_public_key = k, hr_parent_hub_id = p,
    hr_consent_status = Consent_active, hr_registered_at = fd_now db\<rparr>"
  obtain r db1 where "hub_insert ?rec db = (r, db1)" by fastforce
  with boot fed_ok_hubs_snoc [of db ?rec r db1] show ?case
    by (cases r) (auto simp: bootstrap_local_hub_def eff_simps Let_def attributed_def split: option.split)
next
  case (register db i n u k p s)
  let ?rec = "\<lparr>hr_hub_id = i, hr_name = n, hr_base_url = u, hr_public_key = k, hr_parent_hub_id = Some p,
    hr_consent_status = s, hr_registered_at = fd_now db\<rparr>"
  obtain r db1 where "hub_insert ?rec db = (r, db1)" by fastforce
  with register fed_ok_hubs_snoc [of db ?rec r db1] show ?case
    by (cases r) (auto simp: register_child_def eff_simps Let_def attributed_def)
next
  case (status db i s)
  let ?f = "\<lambda>h. if hr_hub_id h = i then h\<lparr>hr_consent_status := s\<rparr> else h"
  have "fed_ok (db\<lparr>fd_hubs := map ?f (fd_hubs db)\<rparr>)"
    using status by (intro fed_ok_map_hubs) simp_all
  with status show ?case by (simp add: set_consent_status_def attributed_def)
next
  case (grant db c p cls who scope)
  then show ?case
    by (auto simp: consent_grant_def eff_simps fed_ok_def attributed_def get_by_hub_id_None)
next
  case (revoke db pol c p cls)
  then show ?case by (auto simp: consent_revoke_def eff_simps fed_ok_def attributed_def)
next
  case (approve db C uid who why)
  then show ?case by (simp add: approve_ok)
next
  case (reject db uid who why)
  then show ?case
    by (auto simp: reject_update_def eff_simps intro!: fed_ok_set_status attributed_set_status)
next
  case (offer db uid src tgt rec)
  then show ?case
    by (auto simp: insert_child_update_def fed_ok_def attributed_def get_by_hub_id_None find_None_all)
next
  case (tick t db)
  then show ?case by (simp add: fed_ok_def attributed_def)
qed

section \<open>Properties\<close>

definition empty_fed_db :: fed_db where
  "empty_fed_db = \<lparr>fd_hubs = [], fd_consents = [], fd_updates = [], fd_now = 0\<rparr>"

text \<open>
  Claim C19. The federation tables stay sound through any sequence of operations: hub and update
  ids are unique, every reference points at a registered hub, and no update has left the
  pending state without a named approver or rejecter.
\<close>

theorem federation_invariant:
  assumes "fed_step\<^sup>*\<^sup>* empty_fed_db db"
  shows "fed_ok db \<and> attributed db"
  using assms
proof (induction rule: rtranclp_induct)
  case base
  show ?case by (simp add: empty_fed_db_def fed_ok_def attributed_def)
next
  case (step db db')
  then show ?case using fed_step_ok by blast
qed

theorem federation_invariant_witness:
  "\<exists>db. fd_hubs db \<noteq> [] \<and> fed_ok db \<and> attributed db"
proof -
  let ?db = "run_state (bootstrap_local_hub 7 ''root'' ''u'' ''k'' None) empty_fed_db"
  have "fed_step\<^sup>*\<^sup>* empty_fed_db ?db" by (rule r_into_rtranclp) (rule fed_step.boot)
  from federation_invariant [OF this] show ?thesis
    by (intro exI [of _ ?db])
      (simp add: bootstrap_local_hub_def eff_simps empty_fed_db_def get_by_hub_id_def hub_insert_def Let_def)
qed

text \<open>
  Claim C3. An approved update reaches exactly the children that want it: in a sound database with
  fresh ids, let a named approver approve, with a rationale, a pending update whose signature
  verifies under the registered key of its source hub and whose bundle passes the sanity smoke.
  Then the approval succeeds, the update's own row becomes completed and carries the approver,
  every other row is kept, and one pending row is added for each active child of this hub that allows
  \<open>update_push\<close>, and for nobody else; the outcome counts them. The signature is a condition on
  the update, not a guard of the code: \<open>approve_and_apply\<close> never calls its verifier.
\<close>

theorem approved_update_reaches_consenting_children:
  assumes "fed_ok db" and "get_by_hub_id db (cc_local_hub_id C) \<noteq> None"
    and "who \<noteq> []" and "why \<noteq> []" and "fetch_update db uid = Inr rec"
    and "ud_rollout_status rec = Rollout_pending" and "cc_smoke C (ud_bundle_version rec) = Some True"
    and "inj (cc_new_id C)" and "range (cc_new_id C) \<inter> ud_id ` set (fd_updates db) = {}"
    and "get_by_hub_id db (ud_source_hub_id rec) = Some src"
    and "cc_verifier C payload (ud_signature rec) (hr_public_key src)"
  shows "\<exists>out db'. approve_and_apply C uid who why db = (Inr out, db') \<and>
    fd_updates db' = map (\<lambda>u. if ud_id u = uid then u\<lparr>ud_rollout_status := Rollout_completed,
        ud_approved_at := Some (fd_now db), ud_approved_by := Some who\<rparr> else u) (fd_updates db) @
      map (child_row C rec db) (fd.targets (cc_policy C) db (cc_local_hub_id C) ''update_push'') \<and>
    out_attempted out = length (fd.targets (cc_policy C) db (cc_local_hub_id C) ''update_push'') \<and>
    out_succeeded out = out_attempted out \<and> out_failed out = 0"
proof -
  let ?us = "map (\<lambda>u. if ud_id u = uid then u\<lparr>ud_rollout_status := Rollout_completed,
    ud_approved_at := Some (fd_now db), ud_approved_by := Some who\<rparr> else u) (fd_updates db)"
  let ?db = "db\<lparr>fd_updates := ?us\<rparr>"
  let ?cs = "list_children db (cc_local_hub_id C)"
  let ?T = "fd.targets (cc_policy C) db (cc_local_hub_id C) ''update_push''"
  have "wants C ?db = wants C db" by (rule ext) simp
  then have T: "filter (wants C ?db) ?cs = ?T" by (simp add: fd.targets_def) (simp add: wants_def [abs_def])
  have two: "set_status uid Rollout_completed None (set_status uid Rollout_in_progress (Some (fd_now db, who)) db) = ?db"
    by (auto simp: set_status_def)
  have ids: "map ud_id ?us = map ud_id (fd_updates db)" by auto
  then have set_ids: "ud_id ` set ?us = ud_id ` set (fd_updates db)" by (metis list.set_map)
  have dist: "distinct (map (\<lambda>h. cc_new_id C (hr_hub_id h)) (filter (wants C ?db) ?cs))"
    using fd.targets_distinct [OF assms(1), of "cc_policy C" "cc_local_hub_id C" "''update_push''"] assms(8)
    unfolding T by (auto simp: distinct_map inj_on_def)
  have fresh: "\<forall>h \<in> set (filter (wants C ?db) ?cs). cc_new_id C (hr_hub_id h) \<notin> ud_id ` set (fd_updates ?db)"
    using assms(9) set_ids by auto
  have reg: "\<forall>h \<in> set ?cs. get_by_hub_id ?db (hr_hub_id h) \<noteq> None"
    using fd.children_iff [OF assms(1)] by auto
  have loc: "get_by_hub_id ?db (cc_local_hub_id C) \<noteq> None" using assms(2) by simp
  have "cascade_loop C rec ?cs ?db = ((length ?T, length ?T, 0), ?db\<lparr>fd_updates := ?us @ map (child_row C rec db) ?T\<rparr>)"
    using cascade_loop_all [OF dist fresh loc reg, of rec] unfolding T by simp
  then have "cascade_to_children C rec ?db =
      (Inr \<lparr>out_update_id = ud_id rec, out_status = Rollout_completed, out_attempted = length ?T,
        out_succeeded = length ?T, out_failed = 0\<rparr>, ?db\<lparr>fd_updates := ?us @ map (child_row C rec db) ?T\<rparr>)"
    by (simp add: cascade_to_children_def)
  then have "approve_and_apply C uid who why db =
      (Inr \<lparr>out_update_id = ud_id rec, out_status = Rollout_completed, out_attempted = length ?T,
        out_succeeded = length ?T, out_failed = 0\<rparr>, ?db\<lparr>fd_updates := ?us @ map (child_row C rec db) ?T\<rparr>)"
    using assms(3-7) by (simp add: approve_and_apply_def eff_simps two)
  then show ?thesis by simp
qed

definition demo_hub :: "uuid \<Rightarrow> uuid option \<Rightarrow> consent_status \<Rightarrow> hub_record" where
  "demo_hub i p s = \<lparr>hr_hub_id = i, hr_name = ''h'', hr_base_url = ''u'', hr_public_key = ''k'',
     hr_parent_hub_id = p, hr_consent_status = s, hr_registered_at = i\<rparr>"

definition demo_update :: "rollout_status \<Rightarrow> update_record" where
  "demo_update s = \<lparr>ud_id = 100, ud_source_hub_id = 1, ud_target_hub_id = 1, ud_bundle_version = ''v2'',
     ud_signature = ''sig'', ud_rollout_status = s, ud_approved_at = None, ud_approved_by = None, ud_created_at = 0\<rparr>"

definition demo_fed_db :: "rollout_status \<Rightarrow> fed_db" where
  "demo_fed_db s = \<lparr>fd_hubs = [demo_hub 1 None Consent_active, demo_hub 2 (Some 1) Consent_active,
       demo_hub 3 (Some 1) Consent_suspended, demo_hub 4 (Some 1) Consent_active],
     fd_consents = [\<lparr>co_child = 2, co_parent = 1, co_class = ''update_push'', co_granted_by = ''op'', co_scope = []\<rparr>],
     fd_updates = [demo_update s], fd_now = 9\<rparr>"

definition demo_cascade :: cascade where
  "demo_cascade = \<lparr>cc_local_hub_id = 1, cc_policy = [], cc_net = (\<lambda>h p. None),
     cc_verifier = (\<lambda>p s k. p = ''v2 bundle'' \<and> s = ''sig'' \<and> k = ''k''), cc_smoke = (\<lambda>v. Some True), cc_new_id = (\<lambda>i. 2 * i + 201)\<rparr>"

lemma demo_fed_ok: "fed_ok (demo_fed_db s)"
  by (simp add: fed_ok_def demo_fed_db_def demo_hub_def demo_update_def)

theorem approved_update_reaches_consenting_children_witness:
  "\<exists>out db'. approve_and_apply demo_cascade 100 ''op'' ''ok'' (demo_fed_db Rollout_pending) = (Inr out, db') \<and>
    map ud_target_hub_id (fd_updates db') = [1, 2] \<and> out_attempted out = 1"
proof -
  have t: "fd.targets (cc_policy demo_cascade) (demo_fed_db Rollout_pending) 1 ''update_push'' = [demo_hub 2 (Some 1) Consent_active]"
    by (simp add: fd.targets_def list_children_def demo_fed_db_def demo_hub_def is_allowed_def is_mandatory_def demo_cascade_def)
  have odd: "range (\<lambda>i :: int. 2 * i + 201) \<inter> {100} = {}" by (auto, presburger)
  show ?thesis
    using approved_update_reaches_consenting_children [OF demo_fed_ok [of Rollout_pending], of demo_cascade "''op''" "''ok''" 100 "demo_update Rollout_pending"
        "demo_hub 1 None Consent_active" "''v2 bundle''"] t odd
    by (auto simp: demo_cascade_def demo_fed_db_def demo_update_def demo_hub_def get_by_hub_id_def fetch_update_def inj_def child_row_def)
qed

text \<open>
  A refused or failed approval is contained: whenever \<open>approve_and_apply\<close> raises, no
  row is added for any child and at most the row of the update itself changes, and that
  one only when it was pending, ending as failed with the approver's name.
\<close>

theorem failed_approval_contained:
  assumes "approve_and_apply C uid who why db = (Inl e, db')"
  shows "db' = db \<or>
    (\<exists>rec. fetch_update db uid = Inr rec \<and> ud_rollout_status rec = Rollout_pending \<and>
      cc_smoke C (ud_bundle_version rec) \<noteq> Some True \<and> who \<noteq> [] \<and> why \<noteq> [] \<and>
      db' = db\<lparr>fd_updates := map (\<lambda>u. if ud_id u = uid then u\<lparr>ud_rollout_status := Rollout_failed,
        ud_approved_at := Some (fd_now db), ud_approved_by := Some who\<rparr> else u) (fd_updates db)\<rparr>)"
proof -
  have two: "set_status uid Rollout_failed None (set_status uid Rollout_in_progress (Some (fd_now db, who)) db) =
    db\<lparr>fd_updates := map (\<lambda>u. if ud_id u = uid then u\<lparr>ud_rollout_status := Rollout_failed,
        ud_approved_at := Some (fd_now db), ud_approved_by := Some who\<rparr> else u) (fd_updates db)\<rparr>"
    by (auto simp: set_status_def)
  show ?thesis
  proof (cases "fetch_update db uid")
    case (Inl e')
    with assms show ?thesis by (auto simp: approve_and_apply_def eff_simps split: if_splits)
  next
    case (Inr rec)
    with assms show ?thesis
      by (auto simp: approve_and_apply_def eff_simps two cascade_to_children_def split: if_splits prod.splits)
  qed
qed

theorem failed_approval_contained_witness:
  "fd_updates (run_state (approve_and_apply (demo_cascade\<lparr>cc_smoke := \<lambda>v. None\<rparr>) 100 ''op'' ''ok'') (demo_fed_db Rollout_pending)) =
     [(demo_update Rollout_failed)\<lparr>ud_approved_at := Some 9, ud_approved_by := Some ''op''\<rparr>]"
proof -
  let ?C = "demo_cascade\<lparr>cc_smoke := \<lambda>v. None\<rparr>"
  obtain r db' where r: "approve_and_apply ?C 100 ''op'' ''ok'' (demo_fed_db Rollout_pending) = (r, db')" by fastforce
  then have e: "r = Inl Cascade_error" and ne: "fd_updates db' \<noteq> fd_updates (demo_fed_db Rollout_pending)"
    by (auto simp: approve_and_apply_def eff_simps fetch_update_def demo_fed_db_def demo_update_def set_status_def)
  from failed_approval_contained [OF r [unfolded e]] ne r show ?thesis
    by (auto simp: demo_fed_db_def demo_update_def)
qed

text \<open>
  A delegated call leaves this hub only with consent: an answer can come back from
  \<open>call_child\<close>, and a broadcast outcome can be successful, only for a registered hub whose status is
  active and for a class that is mandatory or has a consent record naming the hub.
\<close>

theorem delegated_calls_need_consent:
  "(\<exists>j. call_child pol net db child path cls = Inr j) \<longleftrightarrow>
     (\<exists>h. get_by_hub_id db child = Some h \<and> hr_consent_status h = Consent_active \<and>
       (is_mandatory pol cls \<or>
        (\<exists>r \<in> set (fd_consents db). co_class r = cls \<and> (co_child r = child \<or> co_parent r = child))) \<and>
       net h path \<noteq> None)"
  by (auto simp: call_child_def is_allowed_def list_ex_iff split: option.splits)

text \<open>
  Consent is read without direction: a record by which a hub consents towards its own
  parent also opens traffic towards that parent as a peer, for the same class, although the
  parent never consented to anything.
\<close>

theorem consent_leaks_to_parent:
  assumes "consent_grant child parent cls who scope db = (Inr (), db')"
    and "\<forall>r \<in> set (fd_consents db). co_child r \<noteq> parent \<and> co_parent r \<noteq> parent"
    and "\<not> is_mandatory pol cls"
  shows "is_allowed pol db parent cls = False \<and> is_allowed pol db' parent cls = True"
  using assms by (auto simp: consent_grant_def eff_simps is_allowed_def list_ex_iff split: if_splits)

theorem consent_leaks_to_parent_witness:
  "\<exists>db'. consent_grant 4 3 ''telemetry'' ''op'' [] (demo_fed_db Rollout_pending) = (Inr (), db') \<and>
     is_allowed [] db' 3 ''telemetry'' = True"
proof -
  let ?g = "consent_grant 4 3 ''telemetry'' ''op'' [] (demo_fed_db Rollout_pending)"
  have g: "?g = (Inr (), snd ?g)"
    by (simp add: consent_grant_def eff_simps get_by_hub_id_def demo_fed_db_def demo_hub_def)
  from consent_leaks_to_parent [OF g, of "[]"] g show ?thesis
    by (intro exI [of _ "snd ?g"]) (simp add: demo_fed_db_def is_mandatory_def)
qed

text \<open>
  Mandatory flows cannot be switched off from below: revoking a class the bundle
  declares mandatory raises and changes nothing, and the class stays allowed for every peer; any
  other class is denied to a peer once the records that name it are revoked.
\<close>

theorem revoke_respects_policy:
  "(is_mandatory pol cls \<and> consent_revoke pol child parent cls db = (Inl Mandatory_flow_denied, db) \<and>
      is_allowed pol db peer cls) \<or>
   (\<not> is_mandatory pol cls \<and> (\<exists>db'. consent_revoke pol child parent cls db = (Inr (), db') \<and>
      fd_consents db' = filter (\<lambda>r. \<not> (co_child r = child \<and> co_parent r = parent \<and> co_class r = cls)) (fd_consents db) \<and>
      (is_allowed pol db' peer cls \<longleftrightarrow> (\<exists>r \<in> set (fd_consents db). co_class r = cls \<and>
         (co_child r = peer \<or> co_parent r = peer) \<and> \<not> (co_child r = child \<and> co_parent r = parent)))))"
  by (auto simp: consent_revoke_def eff_simps is_allowed_def list_ex_iff)

text \<open>
  Rejection does not look at the state: rejecting an update that has already been
  completed rewrites it to rolled back and names the rejecter as its approver.
\<close>

theorem reject_overwrites_completed:
  assumes "who \<noteq> []" and "why \<noteq> []" and "u \<in> set (fd_updates db)" and "ud_rollout_status u = Rollout_completed"
  shows "\<exists>out db'. reject_update (ud_id u) who why db = (Inr out, db') \<and>
    u\<lparr>ud_rollout_status := Rollout_rolled_back, ud_approved_at := Some (fd_now db), ud_approved_by := Some who\<rparr>
      \<in> set (fd_updates db')"
  using assms by (auto simp: reject_update_def eff_simps set_status_def)

theorem reject_overwrites_completed_witness:
  "\<exists>out db'. reject_update 100 ''op'' ''no'' (demo_fed_db Rollout_completed) = (Inr out, db') \<and>
    (demo_update Rollout_rolled_back)\<lparr>ud_approved_at := Some 9, ud_approved_by := Some ''op''\<rparr> \<in> set (fd_updates db')"
  using reject_overwrites_completed [of "''op''" "''no''" "demo_update Rollout_completed" "demo_fed_db Rollout_completed"]
  by (auto simp: demo_fed_db_def demo_update_def)

end
