(* ===== verification/Regex.thy ===== *)
theory Regex
  imports Prelude
begin

text \<open>
  The fragment of Python's \<open>re\<close> module that the planning sources use: character classes,
  concatenation, ordered alternatives and greedy repetition, matched by backtracking, with
  \<open>match\<close>, \<open>search\<close> between word boundaries and \<open>finditer\<close>. A matcher gives the rests of
  the input it can leave, in the order in which Python tries them, so that the first one is
  Python's match. Characters are the code points 0 to 255.
\<close>

section \<open>Character classes\<close>

definition in_range :: "nat \<Rightarrow> nat \<Rightarrow> char \<Rightarrow> bool" where
  "in_range a b c = (a \<le> (of_char c :: nat) \<and> (of_char c :: nat) \<le> b)"

definition re_digit :: "char \<Rightarrow> bool" where
  "re_digit = in_range 48 57"

definition re_upper :: "char \<Rightarrow> bool" where
  "re_upper = in_range 65 90"

definition re_lower :: "char \<Rightarrow> bool" where
  "re_lower = in_range 97 122"

text \<open>\<open>\w\<close>: the alphanumeric code points (with the Latin-1 ones) and the underscore.\<close>

definition re_word :: "char \<Rightarrow> bool" where
  "re_word c = (re_digit c \<or> re_upper c \<or> re_lower c \<or>
     (of_char c :: nat) \<in> {95, 170, 178, 179, 181, 185, 186, 188, 189, 190} \<or>
     in_range 192 255 c \<and> (of_char c :: nat) \<notin> {215, 247})"

section \<open>Patterns\<close>

datatype re =
    RSet "char \<Rightarrow> bool"
  | REmpty
  | RSeq re re
  | RAlt re re
  | RStar re

function re_rests :: "re \<Rightarrow> string \<Rightarrow> string list" where
  "re_rests (RSet P) s = (case s of [] \<Rightarrow> [] | c # cs \<Rightarrow> if P c then [cs] else [])"
| "re_rests REmpty s = [s]"
| "re_rests (RSeq a b) s = concat (map (re_rests b) (re_rests a s))"
| "re_rests (RAlt a b) s = re_rests a s @ re_rests b s"
| "re_rests (RStar a) s =
     concat (map (\<lambda>t. if length t < length s then re_rests (RStar a) t else []) (re_rests a s)) @ [s]"
  by pat_completeness auto
termination
  by (relation "measures [size \<circ> fst, length \<circ> snd]") auto

declare re_rests.simps(5) [simp del]

definition RPlus :: "re \<Rightarrow> re" where
  "RPlus a = RSeq a (RStar a)"

definition ROpt :: "re \<Rightarrow> re" where
  "ROpt a = RAlt a REmpty"

fun RUpto :: "nat \<Rightarrow> re \<Rightarrow> re" where
  "RUpto 0 a = REmpty"
| "RUpto (Suc n) a = ROpt (RSeq a (RUpto n a))"

fun RTimes :: "nat \<Rightarrow> re \<Rightarrow> re" where
  "RTimes 0 a = REmpty"
| "RTimes (Suc n) a = RSeq a (RTimes n a)"

fun RStr :: "string \<Rightarrow> re" where
  "RStr [] = REmpty"
| "RStr (c # cs) = RSeq (RSet (\<lambda>d. d = c)) (RStr cs)"

text \<open>
  \<open>pattern.match(s)\<close> for a pattern that ends in \<open>$\<close>: the rest is empty, or one newline,
  because \<open>$\<close> also matches before a final newline.
\<close>

definition re_match_end :: "re \<Rightarrow> string \<Rightarrow> bool" where
  "re_match_end r s = list_ex (\<lambda>t. t = [] \<or> t = [CHR 0x0A]) (re_rests r s)"

text \<open>\<open>[m.group(0) for m in pattern.finditer(s)]\<close>, for a pattern that consumes something.\<close>

function re_finditer :: "re \<Rightarrow> string \<Rightarrow> string list" where
  "re_finditer r [] = []"
| "re_finditer r (c # cs) = (case re_rests r (c # cs) of
     [] \<Rightarrow> re_finditer r cs
   | t # _ \<Rightarrow> if length t < length (c # cs)
       then take (length (c # cs) - length t) (c # cs) # re_finditer r t
       else re_finditer r cs)"
  by pat_completeness auto
termination
  by (relation "measure (length \<circ> snd)") auto

text \<open>
  \<open>re.search\<close> of alternatives between two \<open>\b\<close>, ignoring case: the alternatives begin
  and end with word characters, so a boundary is an end of the text or a character that is not a
  word character.
\<close>

fun kw_search_from :: "string list \<Rightarrow> bool \<Rightarrow> string \<Rightarrow> bool" where
  "kw_search_from alts prev [] = False"
| "kw_search_from alts prev (c # cs) =
     ((\<not> prev \<and> list_ex (\<lambda>a. py_lower (take (length a) (c # cs)) = a \<and>
          (case drop (length a) (c # cs) of [] \<Rightarrow> True | d # _ \<Rightarrow> \<not> re_word d)) alts) \<or>
      kw_search_from alts (re_word c) cs)"

definition kw_search :: "string list \<Rightarrow> string \<Rightarrow> bool" where
  "kw_search alts s = kw_search_from alts False s"

section \<open>What a match returns\<close>

lemma re_rests_suffix: "t \<in> set (re_rests r s) \<Longrightarrow> suffix t s"
proof (induction r s arbitrary: t rule: re_rests.induct)
  case (1 P s)
  then show ?case by (auto split: list.splits if_splits intro: suffix_ConsI)
next
  case (3 a b s)
  then obtain u where "u \<in> set (re_rests a s)" "t \<in> set (re_rests b u)" by auto
  with 3 show ?case by (meson suffix_order.trans)
next
  case (5 a s)
  then consider "t = s" | u where "u \<in> set (re_rests a s)" "length u < length s" "t \<in> set (re_rests (RStar a) u)"
    by (subst (asm) re_rests.simps) (auto split: if_splits)
  then show ?case
  proof cases
    case 2
    then have "suffix t u" "suffix u s" using "5.IH" by blast+
    then show ?thesis by (meson suffix_order.trans)
  qed simp
qed auto

lemma re_finditer_infix: "m \<in> set (re_finditer r s) \<Longrightarrow> m \<noteq> [] \<and> set m \<subseteq> set s"
proof (induction r s rule: re_finditer.induct)
  case (2 r c cs)
  show ?case
  proof (cases "re_rests r (c # cs)")
    case Nil
    with 2 show ?thesis by auto
  next
    case (Cons t ts)
    then have "set t \<subseteq> set (c # cs)"
      using re_rests_suffix [of t r "c # cs"] set_mono_suffix by fastforce
    with Cons 2 show ?thesis
      by (auto split: if_splits dest: in_set_takeD simp: take_Cons')
  qed
qed simp

section \<open>Numerals\<close>

text \<open>
  \<open>str.split(sep)\<close> for a one-character separator, and \<open>int(s)\<close>: blanks around, a sign,
  and digits that single underscores may separate; anything else raises \<open>ValueError\<close>.
\<close>

fun py_split :: "char \<Rightarrow> string \<Rightarrow> string list" where
  "py_split sep [] = [[]]"
| "py_split sep (c # cs) = (if c = sep then [] # py_split sep cs
     else case py_split sep cs of [] \<Rightarrow> [[c]] | x # xs \<Rightarrow> (c # x) # xs)"

fun int_digits :: "bool \<Rightarrow> int \<Rightarrow> string \<Rightarrow> int option" where
  "int_digits prev acc [] = (if prev then Some acc else None)"
| "int_digits prev acc (c # cs) =
     (if re_digit c then int_digits True (10 * acc + int (of_char c - 48)) cs
      else if c = CHR ''_'' \<and> prev then int_digits False acc cs else None)"

definition py_int :: "string \<Rightarrow> int option" where
  "py_int s = (case py_strip s of [] \<Rightarrow> None
     | c # cs \<Rightarrow> if c = CHR ''-'' then map_option uminus (int_digits False 0 cs)
         else if c = CHR ''+'' then int_digits False 0 cs else int_digits False 0 (c # cs))"

lemma str_nat_re_digits: "c \<in> set (str_nat n) \<Longrightarrow> re_digit c"
proof (induction n rule: str_nat.induct)
  case (1 n)
  show ?case
  proof (cases "n < 10")
    case True
    with 1(2) show ?thesis by (simp add: str_nat.simps [of n] re_digit_def in_range_def)
  next
    case False
    with 1(2) have "c \<in> set (str_nat (n div 10)) \<or> c = char_of (48 + n mod 10)"
      by (auto simp: str_nat.simps [of n])
    moreover have "re_digit (char_of (48 + n mod 10))"
      by (auto simp: re_digit_def in_range_def)
    ultimately show ?thesis using 1(1) False by blast
  qed
qed

lemma str_nat_nonempty [simp]: "str_nat n \<noteq> []"
  by (subst str_nat.simps) simp

abbreviation digits_value :: "int \<Rightarrow> string \<Rightarrow> int" where
  "digits_value \<equiv> foldl (\<lambda>a c. 10 * a + int (of_char c - 48))"

lemma int_digits_value:
  "\<forall>c \<in> set s. re_digit c \<Longrightarrow> int_digits prev acc s = (if s = [] \<and> \<not> prev then None else Some (digits_value acc s))"
  by (induction s arbitrary: prev acc) auto

lemma digits_value_str_nat: "digits_value 0 (str_nat n) = int n"
proof (induction n rule: str_nat.induct)
  case (1 n)
  show ?case
  proof (cases "n < 10")
    case True
    then show ?thesis by (simp add: str_nat.simps [of n])
  next
    case False
    with 1 have "digits_value 0 (str_nat n) = 10 * int (n div 10) + int (n mod 10)"
      by (simp add: str_nat.simps [of n])
    then show ?thesis by presburger
  qed
qed

lemma digit_plain: "re_digit c \<Longrightarrow> \<not> py_space c \<and> c \<noteq> CHR ''.'' \<and> c \<noteq> CHR ''-'' \<and> c \<noteq> CHR ''+''"
  by (auto simp: re_digit_def in_range_def py_space_def Let_def)

lemma py_int_str_nat: "py_int (str_nat n) = Some (int n)"
proof -
  have d: "\<forall>c \<in> set (str_nat n). re_digit c" using str_nat_re_digits by blast
  then have strip: "py_strip (str_nat n) = str_nat n"
    using digit_plain by (intro py_strip_id) (simp add: no_edge_space_def)
  obtain c cs where cs: "str_nat n = c # cs" by (cases "str_nat n") auto
  then have "c \<noteq> CHR ''-''" "c \<noteq> CHR ''+''" using d digit_plain by auto
  then have "py_int (str_nat n) = int_digits False 0 (str_nat n)" using strip by (simp add: py_int_def cs)
  also have "\<dots> = Some (int n)" using d by (simp add: int_digits_value digits_value_str_nat)
  finally show ?thesis .
qed

lemma py_split_none: "sep \<notin> set s \<Longrightarrow> py_split sep s = [s]"
  by (induction s) auto

end
