(* ===== verification/Roadmap.thy ===== *)
theory Roadmap
  imports Regex
begin

text \<open>
  The roadmap artifact of \<open>plan/artifacts/roadmap_v1.py\<close> with the shared types of
  \<open>plan/artifacts/_base.py\<close>, and the sections of the PRD and TRD artifacts that the decomposer
  reads. A pydantic model is a record with a constructor function: it strips the text fields, as
  \<open>str_strip_whitespace\<close> asks, runs the field validators and raises \<open>Validation_error\<close> with
  the label of the first field that fails. Money is kept in whole dollars, because the only amounts built are the
  integral ones of the sizing table.
\<close>

section \<open>Shared types\<close>

datatype priority = P0 | P1 | P2 | P3

datatype tshirt = XS | S | M | L | XL

datatype story_status = Backlog | In_design | In_progress | Done | Wont_do

datatype artifact_status = Draft | Approved | Rejected | Superseded

datatype plan_error =
    Validation_error string
  | Project_id_mismatch
  | Key_error
  | Index_error
  | Unpack_error
  | Recursion_error

definition EMPTY_SENTINELS :: "string list" where
  "EMPTY_SENTINELS = ['''', ''tbd'', ''todo'', ''fixme'', ''n/a'', ''na'', ''?'', ''...'']"

definition is_empty_or_tbd :: "string option \<Rightarrow> bool" where
  "is_empty_or_tbd value = (case value of None \<Rightarrow> True
     | Some v \<Rightarrow> py_lower (py_strip v) \<in> set EMPTY_SENTINELS)"

section \<open>Sections of the PRD and the TRD\<close>

datatype integration_direction = Inbound | Outbound | Bidirectional

record prd =
  prd_project_id :: string
  prd_project_name :: string
  prd_problem_statement :: string
  prd_must :: "string list"
  prd_should :: "string list"
  prd_could :: "string list"

record component =
  cp_name :: string
  cp_responsibility :: string
  cp_technology :: "string option"

record integration =
  ig_name :: string
  ig_direction :: integration_direction
  ig_protocol :: string
  ig_auth :: string

record trd =
  trd_project_id :: string
  trd_system_overview :: string
  trd_components :: "component list"
  trd_data_flow :: string
  trd_integrations :: "integration list"
  trd_performance :: string
  trd_security :: string
  trd_scalability :: string
  trd_observability :: string
  trd_cost :: string

section \<open>The roadmap\<close>

record story =
  st_id :: string
  st_title :: string
  st_status :: story_status
  st_priority :: priority
  st_size :: tshirt
  st_estimate_cost :: nat
  st_estimate_duration :: string
  st_dependencies :: "string list"

record epic =
  ep_id :: string
  ep_title :: string
  ep_description :: string
  ep_stories :: "story list"

record initiative =
  in_id :: string
  in_title :: string
  in_tier :: nat
  in_priority :: priority
  in_why :: string
  in_epics :: "epic list"

record sprint =
  sp_number :: nat
  sp_name :: string
  sp_goal :: string
  sp_stories :: "string list"

record roadmap =
  rm_project_id :: string
  rm_prd_ref :: string
  rm_trd_ref :: string
  rm_initiatives :: "initiative list"
  rm_epics :: "epic list"
  rm_stories :: "story list"
  rm_sprint_plan :: "sprint list"
  rm_created_by :: string
  rm_status :: artifact_status

abbreviation digits :: re where
  "digits \<equiv> RPlus (RSet re_digit)"

definition INIT_RE :: re where
  "INIT_RE = RSeq (RStr ''INIT-'') digits"

definition EPIC_RE :: re where
  "EPIC_RE = RSeq (RStr ''EPIC-'') (RSeq digits (RSeq (RStr ''.'') digits))"

definition STORY_RE :: re where
  "STORY_RE = RSeq (RStr ''STORY-'')
     (RSeq digits (RSeq (RStr ''.'') (RSeq digits (RSeq (RStr ''.'') digits))))"

definition check_id :: "re \<Rightarrow> string \<Rightarrow> string \<Rightarrow> (plan_error, string) res" where
  "check_id pattern label value =
     (if re_match_end pattern value then Inr value else Inl (Validation_error label))"

definition check_text :: "string \<Rightarrow> string \<Rightarrow> (plan_error, string) res" where
  "check_text label value =
     (if is_empty_or_tbd (Some value) then Inl (Validation_error label) else Inr value)"

definition make_story ::
  "string \<Rightarrow> string \<Rightarrow> priority \<Rightarrow> tshirt \<Rightarrow> nat \<Rightarrow> string \<Rightarrow> (plan_error, story) res" where
  "make_story sid title prio sz cost duration =
     rbind (check_id STORY_RE ''Story.id'' (py_strip sid)) (\<lambda>i.
     rbind (check_text ''Story field'' (py_strip title)) (\<lambda>t.
     rbind (check_text ''Story field'' (py_strip duration)) (\<lambda>d.
       Inr \<lparr>st_id = i, st_title = t, st_status = Backlog, st_priority = prio, st_size = sz,
            st_estimate_cost = cost, st_estimate_duration = d, st_dependencies = []\<rparr>)))"

definition make_epic :: "string \<Rightarrow> string \<Rightarrow> string \<Rightarrow> story list \<Rightarrow> (plan_error, epic) res" where
  "make_epic eid title description stories =
     rbind (check_id EPIC_RE ''Epic.id'' (py_strip eid)) (\<lambda>i.
     rbind (check_text ''Epic field'' (py_strip title)) (\<lambda>t.
     rbind (check_text ''Epic field'' (py_strip description)) (\<lambda>d.
       Inr \<lparr>ep_id = i, ep_title = t, ep_description = d, ep_stories = stories\<rparr>)))"

definition make_initiative ::
  "string \<Rightarrow> string \<Rightarrow> nat \<Rightarrow> priority \<Rightarrow> string \<Rightarrow> epic list \<Rightarrow> (plan_error, initiative) res" where
  "make_initiative iid title tier prio why epics =
     rbind (check_id INIT_RE ''Initiative.id'' (py_strip iid)) (\<lambda>i.
     rbind (check_text ''Initiative field'' (py_strip title)) (\<lambda>t.
     if tier < 1 \<or> 4 < tier then Inl (Validation_error ''Initiative.tier'') else
     rbind (check_text ''Initiative field'' (py_strip why)) (\<lambda>w.
       Inr \<lparr>in_id = i, in_title = t, in_tier = tier, in_priority = prio, in_why = w, in_epics = epics\<rparr>)))"

definition make_sprint :: "nat \<Rightarrow> string \<Rightarrow> string \<Rightarrow> string list \<Rightarrow> (plan_error, sprint) res" where
  "make_sprint number name goal stories =
     (if number < 1 then Inl (Validation_error ''Sprint.number'') else
     rbind (check_text ''Sprint field'' (py_strip name)) (\<lambda>n.
     rbind (check_text ''Sprint field'' (py_strip goal)) (\<lambda>g.
     rbind (rmap (check_id STORY_RE ''Sprint.stories entry'') (map py_strip stories)) (\<lambda>ss.
       Inr \<lparr>sp_number = number, sp_name = n, sp_goal = g, sp_stories = ss\<rparr>))))"

definition make_roadmap ::
  "string \<Rightarrow> string \<Rightarrow> string \<Rightarrow> initiative list \<Rightarrow> sprint list \<Rightarrow> string \<Rightarrow> (plan_error, roadmap) res" where
  "make_roadmap pid prd_ref trd_ref initiatives sprints created_by =
     rbind (check_text ''Required Roadmap field'' (py_strip pid)) (\<lambda>p.
     rbind (check_text ''Required Roadmap field'' (py_strip prd_ref)) (\<lambda>r.
     rbind (check_text ''Required Roadmap field'' (py_strip trd_ref)) (\<lambda>t.
       Inr \<lparr>rm_project_id = p, rm_prd_ref = r, rm_trd_ref = t, rm_initiatives = initiatives,
            rm_epics = concat (map in_epics initiatives),
            rm_stories = concat (map ep_stories (concat (map in_epics initiatives))),
            rm_sprint_plan = sprints, rm_created_by = py_strip created_by, rm_status = Draft\<rparr>)))"

section \<open>What the validators accept\<close>

lemma check_id_Inr [simp]: "check_id r l v = Inr w \<longleftrightarrow> w = v \<and> re_match_end r v"
  by (auto simp: check_id_def)

lemma check_text_Inr [simp]: "check_text l v = Inr w \<longleftrightarrow> w = v \<and> \<not> is_empty_or_tbd (Some v)"
  by (auto simp: check_text_def)

lemma rmap_check_id: "rmap (check_id r l) xs = Inr ys \<Longrightarrow> ys = xs"
  by (induction xs arbitrary: ys) (auto simp: rbind_eq_Inr)

lemma make_sprint_stories:
  "make_sprint n nm g ss = Inr sp \<Longrightarrow> sp_stories sp = map py_strip ss \<and> sp_number sp = n"
  by (auto simp: make_sprint_def rbind_eq_Inr dest: rmap_check_id split: if_splits)

lemma make_story_fields:
  "make_story i t p z c d = Inr s \<Longrightarrow>
     st_id s = py_strip i \<and> st_title s = py_strip t \<and> st_dependencies s = [] \<and> re_match_end STORY_RE (st_id s)"
  by (auto simp: make_story_def rbind_eq_Inr)

end
