(* ===== verification/Story_Graph.thy ===== *)
theory Story_Graph
  imports Roadmap "HOL-Library.List_Lexorder" "HOL-Library.Char_ord"
begin

text \<open>
  \<open>plan/decomposer/dependency_detection.py\<close> and the sprint sequencing of
  \<open>plan/decomposer/decomposer.py\<close>: the edges between stories, the depth-first search that finds
  their cycles, and the topological sort that fills the sprints. A Python \<open>set\<close> of strings is a
  list without repetitions where its order does not matter, because the code sorts it before use.
  The knowledge graph is an argument: \<open>None\<close> when it is not reachable, and otherwise the function
  \<open>_kg_impact_for\<close> computes from the references of a story. The recursion limit of the
  interpreter is an argument of the search, and running into it is the error value.
\<close>

section \<open>Edges\<close>

datatype dep_reason =
    Kg_impact "string list"
  | B_tests_a "string list"
  | B_uses_a_schema "string list"
  | Text_overlap "string list"
  | Cycle "string list"

datatype confidence = High | Medium | Low

record story_dependency =
  sd_from_story_id :: string
  sd_to_story_id :: string
  sd_reason :: dep_reason
  sd_confidence :: confidence

abbreviation re_ident_cont :: "char \<Rightarrow> bool" where
  "re_ident_cont c \<equiv> re_lower c \<or> re_digit c \<or> c = CHR ''_''"

abbreviation re_camel :: re where
  "re_camel \<equiv> RSeq (RSet re_upper) (RPlus (RSet (\<lambda>c. re_lower c \<or> re_upper c \<or> re_digit c)))"

abbreviation re_snake :: re where
  "re_snake \<equiv> RSeq (RSet (\<lambda>c. re_lower c \<or> c = CHR ''_'')) (RPlus (RSet re_ident_cont))"

definition IDENT_RE :: re where
  "IDENT_RE =
     RAlt (RSeq re_camel (RStar (RSeq (RStr ''.'') re_camel)))
    (RAlt (RSeq re_snake (RPlus (RSeq (RStr ''.'') re_snake)))
    (RAlt (RSeq (RSet (\<lambda>c. re_lower c \<or> c = CHR ''_''))
            (RSeq (RTimes 3 (RSet re_ident_cont)) (RStar (RSet re_ident_cont))))
          (RSeq (RPlus (RSet (\<lambda>c. re_word c \<or> c = CHR ''/'')))
            (RSeq (RStr ''.'') (RSeq (RSet re_lower) (RUpto 3 (RSet re_lower)))))))"

definition TEST_KW :: "string list" where
  "TEST_KW = [''test'', ''tests'', ''spec'', ''specs'', ''coverage'', ''coverages'', ''fixture'', ''fixtures'']"

definition SCHEMA_KW :: "string list" where
  "SCHEMA_KW = [''schema'', ''model'', ''table'', ''migration'', ''entity'']"

definition extract_refs :: "string \<Rightarrow> string list" where
  "extract_refs text = remdups (map py_lower (re_finditer IDENT_RE text))"

definition meet :: "string list \<Rightarrow> string list \<Rightarrow> string list" where
  "meet xs ys = filter (\<lambda>x. x \<in> set ys) xs"

definition first3 :: "string list \<Rightarrow> string list" where
  "first3 xs = take 3 (sort xs)"

definition edge_between ::
  "story \<Rightarrow> story \<Rightarrow> string list \<Rightarrow> string list \<Rightarrow> string list \<Rightarrow> bool \<Rightarrow> story_dependency option" where
  "edge_between a b a_refs b_refs a_impact have_kg =
     (let edge = (\<lambda>r c. Some \<lparr>sd_from_story_id = st_id a, sd_to_story_id = st_id b,
                              sd_reason = r, sd_confidence = c\<rparr>);
          hit = meet b_refs a_impact;
          overlap = meet a_refs b_refs;
          conf = (if have_kg then High else Medium) in
      if a_impact \<noteq> [] \<and> hit \<noteq> [] then edge (Kg_impact (first3 hit)) High
      else if overlap = [] then None
      else if kw_search TEST_KW (st_title b) \<and> \<not> kw_search TEST_KW (st_title a)
        then edge (B_tests_a (first3 overlap)) conf
      else if kw_search SCHEMA_KW (st_title a) \<and> \<not> kw_search SCHEMA_KW (st_title b)
        then edge (B_uses_a_schema (first3 overlap)) conf
      else if \<not> have_kg then edge (Text_overlap (first3 overlap)) Low
      else None)"

text \<open>\<open>refs\<close> is a dictionary by story id, in which the last story with an id wins.\<close>

definition refs_of :: "story list \<Rightarrow> string \<Rightarrow> string list" where
  "refs_of stories i = (case map_of (rev (map (\<lambda>s. (st_id s, extract_refs (st_title s))) stories)) i of
     None \<Rightarrow> [] | Some rs \<Rightarrow> rs)"

definition heuristic_edges ::
  "(string list \<Rightarrow> string list) option \<Rightarrow> story list \<Rightarrow> story_dependency list" where
  "heuristic_edges kg stories =
     (let ixs = enumerate 0 stories in
      concat (map (\<lambda>(i, a).
        let a_refs = refs_of stories (st_id a) in
        if a_refs = [] then [] else
        let a_impact = (case kg of None \<Rightarrow> [] | Some f \<Rightarrow> f a_refs) in
        concat (map (\<lambda>(j, b).
          let b_refs = refs_of stories (st_id b) in
          if i = j \<or> b_refs = [] then [] else
          (case edge_between a b a_refs b_refs a_impact (kg \<noteq> None) of None \<Rightarrow> [] | Some e \<Rightarrow> [e])) ixs)) ixs))"

section \<open>Cycles\<close>

definition graph_of :: "story_dependency list \<Rightarrow> string list \<Rightarrow> string \<Rightarrow> string list" where
  "graph_of edges nodes u =
     map sd_to_story_id (filter (\<lambda>e. sd_from_story_id e = u \<and> sd_from_story_id e \<in> set nodes \<and>
       sd_to_story_id e \<in> set nodes) edges)"

record dfs_state =
  ds_cycles :: "string list list"
  ds_visiting :: "string set"
  ds_visited :: "string set"
  ds_stack :: "string list"

definition dfs_enter :: "string \<Rightarrow> dfs_state \<Rightarrow> dfs_state" where
  "dfs_enter u s = s\<lparr>ds_visiting := insert u (ds_visiting s), ds_stack := ds_stack s @ [u]\<rparr>"

definition dfs_leave :: "string \<Rightarrow> dfs_state \<Rightarrow> dfs_state" where
  "dfs_leave u s = s\<lparr>ds_stack := butlast (ds_stack s), ds_visiting := ds_visiting s - {u},
     ds_visited := insert u (ds_visited s)\<rparr>"

definition dfs_report :: "string \<Rightarrow> dfs_state \<Rightarrow> dfs_state" where
  "dfs_report v s = s\<lparr>ds_cycles := ds_cycles s @ [dropWhile (\<lambda>x. x \<noteq> v) (ds_stack s) @ [v]]\<rparr>"

function dfs :: "(string \<Rightarrow> string list) \<Rightarrow> nat \<Rightarrow> string \<Rightarrow> dfs_state \<Rightarrow> dfs_state option"
  and dfs_succs :: "(string \<Rightarrow> string list) \<Rightarrow> nat \<Rightarrow> string list \<Rightarrow> dfs_state \<Rightarrow> dfs_state option" where
  "dfs g 0 u s = None"
| "dfs g (Suc n) u s = map_option (dfs_leave u) (dfs_succs g n (g u) (dfs_enter u s))"
| "dfs_succs g n [] s = Some s"
| "dfs_succs g n (v # vs) s =
     (if v \<in> ds_visiting s then dfs_succs g n vs (dfs_report v s)
      else if v \<in> ds_visited s then dfs_succs g n vs s
      else case dfs g n v s of None \<Rightarrow> None | Some s' \<Rightarrow> dfs_succs g n vs s')"
  by pat_completeness auto
termination
  by (relation "measures [\<lambda>x. case x of Inl (g, n, u, s) \<Rightarrow> n | Inr (g, n, vs, s) \<Rightarrow> n,
        \<lambda>x. case x of Inl _ \<Rightarrow> 0 | Inr (g, n, vs, s) \<Rightarrow> Suc (length vs)]") auto

fun dfs_roots :: "(string \<Rightarrow> string list) \<Rightarrow> nat \<Rightarrow> string list \<Rightarrow> dfs_state \<Rightarrow> dfs_state option" where
  "dfs_roots g n [] s = Some s"
| "dfs_roots g n (r # rs) s =
     (if r \<in> ds_visited s then dfs_roots g n rs s
      else case dfs g n r s of None \<Rightarrow> None | Some s' \<Rightarrow> dfs_roots g n rs s')"

definition dfs_start :: dfs_state where
  "dfs_start = \<lparr>ds_cycles = [], ds_visiting = {}, ds_visited = {}, ds_stack = []\<rparr>"

definition find_cycles ::
  "nat \<Rightarrow> story_dependency list \<Rightarrow> string list \<Rightarrow> (plan_error, string list list) res" where
  "find_cycles limit edges nodes = (case dfs_roots (graph_of edges nodes) limit nodes dfs_start of
     None \<Rightarrow> Inl Recursion_error | Some s \<Rightarrow> Inr (ds_cycles s))"

definition cycle_edge :: "string list \<Rightarrow> story_dependency" where
  "cycle_edge c = \<lparr>sd_from_story_id = hd c, sd_to_story_id = last c, sd_reason = Cycle c, sd_confidence = High\<rparr>"

definition detect_dependencies ::
  "nat \<Rightarrow> (string list \<Rightarrow> string list) option \<Rightarrow> story list \<Rightarrow> (plan_error, story_dependency list) res" where
  "detect_dependencies limit kg stories =
     (if stories = [] then Inr [] else
      let edges = heuristic_edges kg stories in
      rbind (find_cycles limit edges (map st_id stories)) (\<lambda>cs. Inr (edges @ map cycle_edge cs)))"

section \<open>Dependencies and sprints\<close>

definition is_cycle_edge :: "story_dependency \<Rightarrow> bool" where
  "is_cycle_edge e = (case sd_reason e of Cycle _ \<Rightarrow> True | _ \<Rightarrow> False)"

text \<open>\<open>by_id\<close> holds the last story with an id, and that one is mutated.\<close>

fun update_first :: "('a \<Rightarrow> bool) \<Rightarrow> ('a \<Rightarrow> 'a) \<Rightarrow> 'a list \<Rightarrow> 'a list" where
  "update_first P f [] = []"
| "update_first P f (x # xs) = (if P x then f x # xs else x # update_first P f xs)"

definition add_dependency :: "string \<Rightarrow> story \<Rightarrow> story" where
  "add_dependency d s =
     (if d \<in> set (st_dependencies s) then s else s\<lparr>st_dependencies := st_dependencies s @ [d]\<rparr>)"

definition apply_dependency :: "story_dependency \<Rightarrow> story list \<Rightarrow> story list" where
  "apply_dependency e stories =
     (if is_cycle_edge e \<or> sd_from_story_id e \<notin> st_id ` set stories then stories
      else rev (update_first (\<lambda>s. st_id s = sd_to_story_id e) (add_dependency (sd_from_story_id e)) (rev stories)))"

definition apply_dependencies :: "story list \<Rightarrow> story_dependency list \<Rightarrow> story list" where
  "apply_dependencies stories edges = fold apply_dependency edges stories"

definition MAX_STORIES_PER_SPRINT :: nat where "MAX_STORIES_PER_SPRINT = 8"
definition DEFAULT_SPRINT_COUNT :: nat where "DEFAULT_SPRINT_COUNT = 3"

definition live_edges :: "string list \<Rightarrow> story_dependency list \<Rightarrow> (string \<times> string) list" where
  "live_edges ids edges = map (\<lambda>e. (sd_from_story_id e, sd_to_story_id e))
     (filter (\<lambda>e. \<not> is_cycle_edge e \<and> sd_from_story_id e \<in> set ids \<and> sd_to_story_id e \<in> set ids) edges)"

definition bump :: "string \<Rightarrow> (string, int) dict \<Rightarrow> (string, int) dict" where
  "bump v d = AList.update v (dict_get d v 0 + 1) d"

definition in_degrees :: "string list \<Rightarrow> (string \<times> string) list \<Rightarrow> (string, int) dict" where
  "in_degrees ids es = fold (bump \<circ> snd) es (fold (\<lambda>i. AList.update i 0) ids [])"

definition adjacent :: "(string \<times> string) list \<Rightarrow> string \<Rightarrow> string list" where
  "adjacent es u = map snd (filter (\<lambda>e. fst e = u) es)"

definition relax :: "string \<Rightarrow> (string, int) dict \<times> string list \<Rightarrow> (string, int) dict \<times> string list" where
  "relax v x = (let d = dict_get (fst x) v 0 - 1 in
     (AList.update v d (fst x), if d = 0 then sort (snd x @ [v]) else snd x))"

definition positives :: "(string, int) dict \<Rightarrow> nat" where
  "positives d = length (filter (\<lambda>x. 0 < snd x) d)"

lemma positives_update:
  "positives (AList.update v (dict_get d v 0 - 1) d) + (if dict_get d v 0 = 1 then 1 else 0) = positives d"
  by (induction d) (auto simp: positives_def dict_get_def)

lemma relax_measure: "length (snd (relax v x)) + positives (fst (relax v x)) = length (snd x) + positives (fst x)"
  using positives_update [of v "fst x"] by (auto simp: relax_def Let_def)

lemma fold_relax_measure:
  "length (snd (fold relax vs x)) + positives (fst (fold relax vs x)) = length (snd x) + positives (fst x)"
  by (induction vs arbitrary: x) (simp_all add: relax_measure)

function kahn ::
  "(string \<Rightarrow> string list) \<Rightarrow> (string, int) dict \<Rightarrow> string list \<Rightarrow> string list \<Rightarrow> string list" where
  "kahn adj d [] ordered = ordered"
| "kahn adj d (nxt # ready) ordered =
     (let x = fold relax (sort (adj nxt)) (d, ready) in kahn adj (fst x) (snd x) (ordered @ [nxt]))"
  by pat_completeness auto
termination
proof (relation "measure (\<lambda>(adj, d, ready, ordered). length ready + positives d)", goal_cases)
  case (2 adj d nxt ready ordered x)
  then show ?case
    using fold_relax_measure [of "sort (adj nxt)" "(d, ready)"] by simp
qed simp

definition add_survivors :: "string list \<Rightarrow> string list \<Rightarrow> string list" where
  "add_survivors ids ordered = fold (\<lambda>i acc. if i \<in> set acc then acc else acc @ [i]) ids ordered"

definition story_order :: "string list \<Rightarrow> (string \<times> string) list \<Rightarrow> string list" where
  "story_order ids es =
     (let d = in_degrees ids es;
          ready = sort (map fst (filter (\<lambda>x. snd x = 0) d)) in
      add_survivors ids (kahn (adjacent es) d ready []))"

fun sprint_chunks :: "nat \<Rightarrow> nat \<Rightarrow> string list \<Rightarrow> (plan_error, sprint list \<times> string list) res" where
  "sprint_chunks 0 i ordered = Inr ([], ordered)"
| "sprint_chunks (Suc n) i ordered =
     (let chunk = take MAX_STORIES_PER_SPRINT ordered in
      if chunk = [] then Inr ([], []) else
      rbind (make_sprint (i + 1) (''Sprint '' @ str_nat (i + 1))
        (''Deliver '' @ str_nat (length chunk) @ '' stories (slice '' @ str_nat (i + 1) @ ''/'' @
          str_nat DEFAULT_SPRINT_COUNT @ '').'') chunk) (\<lambda>sp.
      rbind (sprint_chunks n (i + 1) (drop MAX_STORIES_PER_SPRINT ordered)) (\<lambda>r.
        Inr (sp # fst r, snd r))))"

definition sequence_sprints ::
  "story list \<Rightarrow> story_dependency list \<Rightarrow> (plan_error, sprint list) res" where
  "sequence_sprints stories edges =
     (let ids = map st_id stories;
          ordered = story_order ids (live_edges ids edges) in
      rbind (sprint_chunks DEFAULT_SPRINT_COUNT 0 ordered) (\<lambda>r.
        if snd r = [] then Inr (fst r) else
        rbind (make_sprint (length (fst r) + 1) ''Backlog overflow''
          (''Stories beyond default '' @ str_nat DEFAULT_SPRINT_COUNT @ ''-sprint horizon.'') (snd r)) (\<lambda>sp.
          Inr (fst r @ [sp]))))"

section \<open>The cycle search\<close>

abbreviation edge_rel :: "(string \<Rightarrow> string list) \<Rightarrow> (string \<times> string) set" where
  "edge_rel g \<equiv> {(u, v). v \<in> set (g u)}"

definition is_cycle :: "(string \<Rightarrow> string list) \<Rightarrow> string list \<Rightarrow> bool" where
  "is_cycle g c \<longleftrightarrow> 2 \<le> length c \<and> hd c = last c \<and> successively (\<lambda>a b. b \<in> set (g a)) c"

text \<open>
  What holds whenever the search is about to look at a node: the stack is a walk over different
  nodes and is what is being visited, the reported paths are cycles, and as long as none is
  reported no infinite walk starts at a visited node.
\<close>

definition dfs_inv :: "(string \<Rightarrow> string list) \<Rightarrow> dfs_state \<Rightarrow> bool" where
  "dfs_inv g s \<longleftrightarrow> ds_visiting s = set (ds_stack s) \<and> distinct (ds_stack s) \<and>
     successively (\<lambda>a b. b \<in> set (g a)) (ds_stack s) \<and>
     (\<forall>c \<in> set (ds_cycles s). is_cycle g c) \<and>
     (ds_cycles s = [] \<longrightarrow> ds_visited s \<subseteq> Wellfounded.acc ((edge_rel g)\<inverse>))"

definition dfs_grows :: "dfs_state \<Rightarrow> dfs_state \<Rightarrow> bool" where
  "dfs_grows s s' \<longleftrightarrow> ds_visiting s' = ds_visiting s \<and> ds_stack s' = ds_stack s \<and>
     ds_visited s \<subseteq> ds_visited s' \<and> (ds_cycles s' = [] \<longrightarrow> ds_cycles s = [])"

lemma dfs_grows_refl [simp]: "dfs_grows s s"
  and dfs_grows_trans: "dfs_grows s t \<Longrightarrow> dfs_grows t u \<Longrightarrow> dfs_grows s u"
  and dfs_grows_report: "dfs_grows s (dfs_report v s)"
  by (auto simp: dfs_grows_def dfs_report_def)

lemma successively_dropWhile: "successively P xs \<Longrightarrow> successively P (dropWhile Q xs)"
  by (induction xs) (auto simp: successively_Cons)

lemma dfs_inv_report:
  assumes "dfs_inv g s" and "v \<in> ds_visiting s" and "v \<in> set (g (last (ds_stack s)))"
  shows "dfs_inv g (dfs_report v s)"
proof -
  let ?c = "dropWhile (\<lambda>x. x \<noteq> v) (ds_stack s)"
  have v: "v \<in> set (ds_stack s)" using assms by (simp add: dfs_inv_def)
  then have ne: "?c \<noteq> []" by auto
  moreover have "hd ?c = v" using hd_dropWhile [OF ne] by simp
  moreover have "last ?c = last (ds_stack s)" by (metis last_appendR ne takeWhile_dropWhile_id)
  moreover have "successively (\<lambda>a b. b \<in> set (g a)) ?c"
    using assms(1) by (simp add: dfs_inv_def successively_dropWhile)
  ultimately have "successively (\<lambda>a b. b \<in> set (g a)) (?c @ [v])" "hd (?c @ [v]) = v" "2 \<le> length (?c @ [v])"
    using assms(3) by (simp_all add: successively_append_iff Suc_le_eq)
  then have "is_cycle g (?c @ [v])" by (simp add: is_cycle_def)
  then show ?thesis using assms(1) by (auto simp: dfs_inv_def dfs_report_def)
qed

lemma dfs_inv_enter:
  assumes "dfs_inv g s" and "u \<notin> ds_visiting s" and "ds_stack s = [] \<or> u \<in> set (g (last (ds_stack s)))"
  shows "dfs_inv g (dfs_enter u s)"
  using assms by (auto simp: dfs_inv_def dfs_enter_def successively_append_iff)

lemma dfs_inv_leave:
  assumes "dfs_inv g s'" and "dfs_grows (dfs_enter u s) s'" and "u \<notin> ds_visiting s" and "dfs_inv g s"
    and "ds_cycles s' = [] \<longrightarrow> set (g u) \<subseteq> ds_visited s'"
  shows "dfs_inv g (dfs_leave u s') \<and> dfs_grows s (dfs_leave u s')"
proof -
  have vis: "ds_cycles s' = [] \<Longrightarrow> ds_visited s' \<subseteq> Wellfounded.acc ((edge_rel g)\<inverse>)"
    using assms(1) by (simp add: dfs_inv_def)
  have acc: "ds_cycles s' = [] \<Longrightarrow> u \<in> Wellfounded.acc ((edge_rel g)\<inverse>)"
    using vis assms(5) by (blast intro: accI)
  have st: "ds_stack s' = ds_stack s @ [u]" "ds_visiting s' = insert u (ds_visiting s)"
    "ds_visited s \<subseteq> ds_visited s'" "ds_cycles s' = [] \<Longrightarrow> ds_cycles s = []"
    using assms(2) by (simp_all add: dfs_grows_def dfs_enter_def)
  have "dfs_inv g (dfs_leave u s')"
    using assms(1,3,4) st vis acc by (simp add: dfs_inv_def dfs_leave_def)
  moreover have "dfs_grows s (dfs_leave u s')"
    using assms(3) st by (auto simp: dfs_grows_def dfs_leave_def)
  ultimately show ?thesis ..
qed

lemma dfs_correct:
  "dfs g n u s = Some s' \<Longrightarrow> dfs_inv g s \<Longrightarrow> u \<notin> ds_visiting s \<Longrightarrow>
     ds_stack s = [] \<or> u \<in> set (g (last (ds_stack s))) \<Longrightarrow>
     dfs_inv g s' \<and> dfs_grows s s' \<and> u \<in> ds_visited s'"
  "dfs_succs g n vs s = Some s' \<Longrightarrow> dfs_inv g s \<Longrightarrow> ds_stack s \<noteq> [] \<Longrightarrow>
     set vs \<subseteq> set (g (last (ds_stack s))) \<Longrightarrow>
     dfs_inv g s' \<and> dfs_grows s s' \<and> (ds_cycles s' = [] \<longrightarrow> set vs \<subseteq> ds_visited s')"
proof (induction g n u s and g n vs s arbitrary: s' and s' rule: dfs_dfs_succs.induct)
  case (2 g n u s)
  then obtain t where t: "dfs_succs g n (g u) (dfs_enter u s) = Some t" and s': "s' = dfs_leave u t" by auto
  have "dfs_inv g t \<and> dfs_grows (dfs_enter u s) t \<and> (ds_cycles t = [] \<longrightarrow> set (g u) \<subseteq> ds_visited t)"
    using 2 t by (intro "2.IH") (auto simp: dfs_inv_enter, simp_all add: dfs_enter_def)
  with 2 s' show ?case using dfs_inv_leave [of g t u s] by (simp add: dfs_leave_def)
next
  case (4 g n v vs s)
  show ?case
  proof (cases "v \<in> ds_visiting s")
    case True
    have g: "dfs_grows s (dfs_report v s)" by (rule dfs_grows_report)
    have rep: "dfs_succs g n vs (dfs_report v s) = Some s'" using 4(5) True by simp
    have inv: "dfs_inv g (dfs_report v s)" using 4(6-8) True by (simp add: dfs_inv_report)
    have "ds_stack (dfs_report v s) = ds_stack s" by (simp add: dfs_report_def)
    then have "dfs_inv g s' \<and> dfs_grows (dfs_report v s) s'"
      using 4(1) [OF True rep inv] 4(7,8) by simp
    moreover from this have "ds_cycles s' \<noteq> []" by (auto simp: dfs_grows_def dfs_report_def)
    ultimately show ?thesis using g dfs_grows_trans by blast
  next
    case False
    show ?thesis
    proof (cases "v \<in> ds_visited s")
      case True
      then have "dfs_inv g s' \<and> dfs_grows s s' \<and> (ds_cycles s' = [] \<longrightarrow> set vs \<subseteq> ds_visited s')"
        using 4(2) [OF False True] 4(5-8) False by simp
      with True show ?thesis by (auto simp: dfs_grows_def)
    next
      case nv: False
      with False 4(5) obtain t where t: "dfs g n v s = Some t" and r: "dfs_succs g n vs t = Some s'"
        by (auto split: option.splits)
      have st: "dfs_inv g t \<and> dfs_grows s t \<and> v \<in> ds_visited t"
        using 4(3) [OF False nv t 4(6) False] 4(8) by simp
      then have "ds_stack t = ds_stack s" by (simp add: dfs_grows_def)
      then have rest: "dfs_inv g s' \<and> dfs_grows t s' \<and> (ds_cycles s' = [] \<longrightarrow> set vs \<subseteq> ds_visited s')"
        using 4(4) [OF False nv t r] st 4(7,8) by simp
      then have "v \<in> ds_visited s'" using st by (auto simp: dfs_grows_def)
      with st rest dfs_grows_trans [of s t s'] show ?thesis by simp
    qed
  qed
qed auto


lemma dfs_roots_correct:
  "dfs_roots g n rs s = Some s' \<Longrightarrow> dfs_inv g s \<Longrightarrow> ds_stack s = [] \<Longrightarrow>
     dfs_inv g s' \<and> dfs_grows s s' \<and> set rs \<subseteq> ds_visited s'"
proof (induction rs arbitrary: s)
  case (Cons r rs)
  show ?case
  proof (cases "r \<in> ds_visited s")
    case True
    with Cons.IH [of s] Cons.prems show ?thesis by (auto simp: dfs_grows_def)
  next
    case False
    with Cons.prems(1) obtain t where t: "dfs g n r s = Some t" and rest: "dfs_roots g n rs t = Some s'"
      by (auto split: option.splits)
    have "r \<notin> ds_visiting s" using Cons.prems(2,3) by (simp add: dfs_inv_def)
    with t Cons.prems have st: "dfs_inv g t \<and> dfs_grows s t \<and> r \<in> ds_visited t"
      by (intro dfs_correct(1)) simp_all
    then have "dfs_inv g s' \<and> dfs_grows t s' \<and> set rs \<subseteq> ds_visited s'"
      using Cons.IH [OF rest] Cons.prems(3) by (simp add: dfs_grows_def)
    moreover from this have "r \<in> ds_visited s'" using st by (auto simp: dfs_grows_def)
    ultimately show ?thesis using st dfs_grows_trans [of s t s'] by simp
  qed
qed simp

lemma is_cycle_trancl:
  assumes "is_cycle g c"
  shows "(hd c, hd c) \<in> (edge_rel g)\<^sup>+"
proof -
  have walk: "successively (\<lambda>a b. b \<in> set (g a)) (x # xs) \<Longrightarrow> xs \<noteq> [] \<Longrightarrow> (x, last xs) \<in> (edge_rel g)\<^sup>+" for x xs
  proof (induction xs arbitrary: x)
    case (Cons y ys)
    then have xy: "(x, y) \<in> edge_rel g" by simp
    show ?case
    proof (cases "ys = []")
      case False
      with Cons have "(y, last ys) \<in> (edge_rel g)\<^sup>+" by (simp add: successively_Cons)
      with xy False show ?thesis by (simp add: trancl_into_trancl2)
    qed (use xy in auto)
  qed simp
  obtain x y zs where c: "c = x # y # zs"
    using assms by (cases c; cases "tl c") (auto simp: is_cycle_def)
  have "(x, last (y # zs)) \<in> (edge_rel g)\<^sup>+" using walk assms by (simp only: c is_cycle_def) blast
  moreover have "last (y # zs) = x" using assms by (simp add: c is_cycle_def)
  ultimately show ?thesis by (simp only: c list.sel)
qed

lemma dfs_enough_fuel:
  "dfs_inv g s \<Longrightarrow> u \<notin> ds_visiting s \<Longrightarrow> u \<in> N \<Longrightarrow> ds_visiting s \<subseteq> N \<Longrightarrow> finite N \<Longrightarrow>
     ds_stack s = [] \<or> u \<in> set (g (last (ds_stack s))) \<Longrightarrow> \<forall>x. set (g x) \<subseteq> N \<Longrightarrow>
     card (N - ds_visiting s) \<le> n \<Longrightarrow> \<exists>s'. dfs g n u s = Some s'"
  "dfs_inv g s \<Longrightarrow> ds_stack s \<noteq> [] \<Longrightarrow> set vs \<subseteq> set (g (last (ds_stack s))) \<Longrightarrow>
     ds_visiting s \<subseteq> N \<Longrightarrow> finite N \<Longrightarrow> \<forall>x. set (g x) \<subseteq> N \<Longrightarrow>
     card (N - ds_visiting s) \<le> n \<Longrightarrow> \<exists>s'. dfs_succs g n vs s = Some s'"
proof (induction g n u s and g n vs s rule: dfs_dfs_succs.induct)
  case (1 g u s)
  then have "N - ds_visiting s = {}" by simp
  with 1 show ?case by blast
next
  case (2 g n u s)
  have eq: "N - ds_visiting (dfs_enter u s) = (N - ds_visiting s) - {u}" by (auto simp: dfs_enter_def)
  have "card (N - ds_visiting (dfs_enter u s)) \<le> n"
    unfolding eq using 2(3,4,6,9) by (subst card_Diff_singleton) auto
  moreover have "dfs_inv g (dfs_enter u s)" using 2 by (simp add: dfs_inv_enter)
  ultimately have "\<exists>s'. dfs_succs g n (g u) (dfs_enter u s) = Some s'"
    using 2 by (intro "2.IH") (simp_all add: dfs_enter_def)
  then show ?case by auto
next
  case (4 g n v vs s)
  have v: "v \<in> N" "v \<in> set (g (last (ds_stack s)))" using 4(7,10) by auto
  consider "v \<in> ds_visiting s" | "v \<notin> ds_visiting s" "v \<in> ds_visited s" | "v \<notin> ds_visiting s" "v \<notin> ds_visited s"
    by blast
  then show ?case
  proof cases
    case 1
    have "dfs_inv g (dfs_report v s)" using 1 v 4(5) by (simp add: dfs_inv_report)
    then have "\<exists>s'. dfs_succs g n vs (dfs_report v s) = Some s'"
      using 1 4(6-11) by (intro 4(1)) (simp_all add: dfs_report_def)
    with 1 show ?thesis by simp
  next
    case 2
    with 4(5-11) have "\<exists>s'. dfs_succs g n vs s = Some s'" by (intro 4(2)) simp_all
    with 2 show ?thesis by simp
  next
    case 3
    with v 4(5-11) have "\<exists>t. dfs g n v s = Some t" by (intro 4(3)) simp_all
    then obtain t where t: "dfs g n v s = Some t" ..
    then have st: "dfs_inv g t \<and> dfs_grows s t"
      using dfs_correct(1) [OF t 4(5) 3(1)] v by simp
    then have "\<exists>s'. dfs_succs g n vs t = Some s'"
      using 3 t 4(5-11) by (intro 4(4)) (simp_all add: dfs_grows_def)
    with 3 t show ?thesis by simp
  qed
qed auto


definition dependency_rel :: "story_dependency list \<Rightarrow> string list \<Rightarrow> (string \<times> string) set" where
  "dependency_rel edges nodes = {(sd_from_story_id e, sd_to_story_id e) | e. e \<in> set edges \<and>
     sd_from_story_id e \<in> set nodes \<and> sd_to_story_id e \<in> set nodes}"

lemma edge_rel_graph_of: "edge_rel (graph_of edges nodes) = dependency_rel edges nodes"
  by (auto simp: graph_of_def dependency_rel_def)

lemma dfs_inv_start: "dfs_inv g dfs_start"
  by (simp add: dfs_inv_def dfs_start_def)

lemma dfs_roots_enough_fuel:
  assumes "\<forall>x. set (g x) \<subseteq> N" and "finite N" and "card N \<le> n"
  shows "dfs_inv g s \<Longrightarrow> ds_stack s = [] \<Longrightarrow> set rs \<subseteq> N \<Longrightarrow> \<exists>s'. dfs_roots g n rs s = Some s'"
proof (induction rs arbitrary: s)
  case (Cons r rs)
  have v: "ds_visiting s = {}" using Cons.prems by (simp add: dfs_inv_def)
  then have "\<exists>t. dfs g n r s = Some t"
    using assms Cons.prems by (intro dfs_enough_fuel(1) [where N = N]) simp_all
  then obtain t where t: "dfs g n r s = Some t" ..
  have "dfs_inv g t \<and> dfs_grows s t" using dfs_correct(1) [OF t Cons.prems(1)] v Cons.prems(2) by simp
  then have "\<exists>s'. dfs_roots g n rs t = Some s'"
    using Cons.prems by (intro Cons.IH) (simp_all add: dfs_grows_def)
  moreover have "\<exists>s'. dfs_roots g n rs s = Some s'" using Cons.prems by (intro Cons.IH) simp_all
  ultimately show ?case using t by simp
qed simp

lemma find_cycles_acyclic:
  assumes "find_cycles limit edges nodes = Inr []"
  shows "acyclic (dependency_rel edges nodes)"
proof -
  let ?g = "graph_of edges nodes"
  obtain s where s: "dfs_roots ?g limit nodes dfs_start = Some s" "ds_cycles s = []"
    using assms by (auto simp: find_cycles_def split: option.splits)
  then have acc: "set nodes \<subseteq> Wellfounded.acc ((edge_rel ?g)\<inverse>)"
    using dfs_roots_correct [OF s(1) dfs_inv_start] by (auto simp: dfs_inv_def dfs_start_def)
  have "x \<in> Wellfounded.acc ((edge_rel ?g)\<inverse>)" for x
  proof (cases "x \<in> set nodes")
    case False
    then have "?g x = []" by (auto simp: graph_of_def filter_empty_conv)
    then show ?thesis by (auto intro: acc.intros)
  qed (use acc in blast)
  then have "wf ((edge_rel ?g)\<inverse>)" by (intro acc_wfI) blast
  then have "acyclic ((edge_rel ?g)\<inverse>)" by (rule wf_acyclic)
  then show ?thesis by (simp only: acyclic_converse edge_rel_graph_of)
qed

text \<open>
  Claim C32. The cycle search decides exactly whether the stories depend on each other in a circle:
  with a recursion limit of at least the number of different stories it returns, it returns no
  path if and only if the dependency relation is acyclic, and every path it returns is a closed
  walk along detected edges.
\<close>

theorem cycle_search_exact:
  assumes "card (set nodes) \<le> limit"
  shows "\<exists>cs. find_cycles limit edges nodes = Inr cs \<and>
    (cs = [] \<longleftrightarrow> acyclic (dependency_rel edges nodes)) \<and>
    list_all (is_cycle (graph_of edges nodes)) cs"
proof -
  let ?g = "graph_of edges nodes"
  have "\<forall>x. set (?g x) \<subseteq> set nodes" by (auto simp: graph_of_def)
  then obtain s where s: "dfs_roots ?g limit nodes dfs_start = Some s"
    using dfs_roots_enough_fuel [of ?g "set nodes" limit dfs_start nodes] assms dfs_inv_start
    by (auto simp: dfs_start_def)
  then have fc: "find_cycles limit edges nodes = Inr (ds_cycles s)" by (simp add: find_cycles_def)
  have cyc: "\<forall>c \<in> set (ds_cycles s). is_cycle ?g c"
    using dfs_roots_correct [OF s dfs_inv_start] by (simp add: dfs_start_def dfs_inv_def)
  have "\<not> acyclic (dependency_rel edges nodes)" if "ds_cycles s \<noteq> []"
  proof -
    from that cyc have "is_cycle ?g (hd (ds_cycles s))" by simp
    from is_cycle_trancl [OF this] show ?thesis
      unfolding edge_rel_graph_of by (auto simp: acyclic_def)
  qed
  then show ?thesis using fc cyc find_cycles_acyclic by (auto simp: list_all_iff)
qed

definition demo_edge :: "string \<Rightarrow> string \<Rightarrow> story_dependency" where
  "demo_edge u v = \<lparr>sd_from_story_id = u, sd_to_story_id = v, sd_reason = Text_overlap [''cart''], sd_confidence = Low\<rparr>"

theorem cycle_search_exact_witness:
  "find_cycles 2 [demo_edge ''a'' ''b'', demo_edge ''b'' ''a''] [''a'', ''b''] = Inr [[''a'', ''b'', ''a'']] \<and>
   \<not> acyclic (dependency_rel [demo_edge ''a'' ''b'', demo_edge ''b'' ''a''] [''a'', ''b''])"
proof -
  have "find_cycles 2 [demo_edge ''a'' ''b'', demo_edge ''b'' ''a''] [''a'', ''b''] = Inr [[''a'', ''b'', ''a'']]"
    by code_simp
  then show ?thesis
    using cycle_search_exact [of "[''a'', ''b'']" 2 "[demo_edge ''a'' ''b'', demo_edge ''b'' ''a'']"] by simp
qed


section \<open>The topological sort\<close>

definition open_preds :: "(string \<times> string) list \<Rightarrow> string set \<Rightarrow> string \<Rightarrow> int" where
  "open_preds es done v = int (length (filter (\<lambda>e. snd e = v \<and> fst e \<notin> done) es))"

definition topo :: "(string \<times> string) list \<Rightarrow> string list \<Rightarrow> bool" where
  "topo es xs \<longleftrightarrow> (\<forall>ys z zs. xs = ys @ z # zs \<longrightarrow> (\<forall>u. (u, z) \<in> set es \<longrightarrow> u \<in> set ys))"

lemma open_preds_zero: "open_preds es X v = 0 \<longleftrightarrow> (\<forall>u. (u, v) \<in> set es \<longrightarrow> u \<in> X)"
  by (auto simp: open_preds_def filter_empty_conv)

lemma open_preds_insert:
  "u \<notin> X \<Longrightarrow> open_preds es X v = open_preds es (insert u X) v + int (count_list (adjacent es u) v)"
  by (induction es) (auto simp: open_preds_def adjacent_def)

lemma topo_snoc:
  assumes "topo es xs" and "\<forall>u. (u, z) \<in> set es \<longrightarrow> u \<in> set xs"
  shows "topo es (xs @ [z])"
  unfolding topo_def
proof (intro allI impI)
  fix ys w ws u
  assume eq: "xs @ [z] = ys @ w # ws" and "(u, w) \<in> set es"
  with assms show "u \<in> set ys"
    by (cases ws rule: rev_cases) (auto simp: topo_def)
qed

lemma topo_preds: "topo es xs \<Longrightarrow> v \<in> set xs \<Longrightarrow> (u, v) \<in> set es \<Longrightarrow> u \<in> set xs"
  unfolding topo_def by (metis in_set_conv_decomp Un_iff set_append)

lemma dict_get_update [dict_simps]: "dict_get (AList.update k x d) w y = (if w = k then x else dict_get d w y)"
  by (simp add: dict_get_def dict_simps)

definition kahn_inv :: "(string \<times> string) list \<Rightarrow> string set \<Rightarrow> (string, int) dict \<Rightarrow> string list \<Rightarrow> string list \<Rightarrow> bool" where
  "kahn_inv es I d ready ordered \<longleftrightarrow>
     (\<forall>v \<in> I. dict_get d v 0 = open_preds es (set ordered) v) \<and> distinct (ordered @ ready) \<and>
     set ready = {v \<in> I. v \<notin> set ordered \<and> dict_get d v 0 = 0} \<and> set ordered \<subseteq> I \<and> topo es ordered"

lemma fold_relax_inv:
  assumes "\<forall>v \<in> I. dict_get d v 0 = open_preds es X v + int (count_list ws v)"
    and "distinct r" and "set r = {v \<in> I. v \<notin> X \<and> dict_get d v 0 = 0}"
    and "set ws \<subseteq> I" and "set ws \<inter> X = {}" and "fold relax ws (d, r) = (d', r')"
  shows "(\<forall>v \<in> I. dict_get d' v 0 = open_preds es X v) \<and> distinct r' \<and>
    set r' = {v \<in> I. v \<notin> X \<and> dict_get d' v 0 = 0}"
  using assms
proof (induction ws arbitrary: d r)
  case (Cons w ws)
  let ?x = "relax w (d, r)"
  have w: "w \<in> I" "w \<notin> X" and pos: "0 < dict_get d w 0"
    using Cons.prems(1,4,5) by (auto simp: open_preds_def)
  have d: "\<forall>v \<in> I. dict_get (fst ?x) v 0 = open_preds es X v + int (count_list ws v)"
    using Cons.prems(1) by (auto simp: relax_def Let_def dict_simps)
  have r: "distinct (snd ?x)"
    using Cons.prems(2,3) pos by (auto simp: relax_def Let_def)
  have s: "set (snd ?x) = {v \<in> I. v \<notin> X \<and> dict_get (fst ?x) v 0 = 0}"
    using Cons.prems(3) pos w by (auto simp: relax_def Let_def dict_simps split: if_splits)
  show ?case
    using Cons.IH [OF d r s] Cons.prems(4-6) by simp
qed simp

lemma kahn_step_inv:
  assumes inv: "kahn_inv es I d (nxt # ready) ordered" and "set es \<subseteq> I \<times> I"
    and x: "fold relax (sort (adjacent es nxt)) (d, ready) = (d', r')"
  shows "kahn_inv es I d' r' (ordered @ [nxt])"
proof -
  let ?X = "insert nxt (set ordered)"
  have ready: "set (nxt # ready) = {v \<in> I. v \<notin> set ordered \<and> dict_get d v 0 = 0}"
      "distinct (nxt # ready)" "distinct ordered" "set ordered \<subseteq> I"
    using inv by (simp_all add: kahn_inv_def)
  then have "nxt \<in> I \<and> nxt \<notin> set ordered \<and> dict_get d nxt 0 = 0"
    by (metis (mono_tags, lifting) list.set_intros(1) mem_Collect_eq)
  moreover have "\<forall>v \<in> I. dict_get d v 0 = open_preds es (set ordered) v" "topo es ordered"
    using inv by (simp_all add: kahn_inv_def)
  ultimately have nxt: "nxt \<in> I" "nxt \<notin> set ordered" "open_preds es (set ordered) nxt = 0" "topo es ordered"
    by (metis, metis, metis, metis)
  have "(nxt, v) \<in> set es \<Longrightarrow> v \<notin> ?X" for v
    using topo_preds [OF nxt(4)] nxt(2,3) by (auto simp: open_preds_zero)
  then have disj: "set (sort (adjacent es nxt)) \<inter> ?X = {}" by (fastforce simp: adjacent_def)
  have sub: "set (sort (adjacent es nxt)) \<subseteq> I" using assms(2) by (auto simp: adjacent_def)
  have cnt: "count_list (sort (adjacent es nxt)) v = count_list (adjacent es nxt) v" for v
    by (simp add: count_list_eq_length_filter filter_sort)
  have deg: "\<forall>v \<in> I. dict_get d v 0 = open_preds es ?X v + int (count_list (sort (adjacent es nxt)) v)"
    using inv open_preds_insert [OF nxt(2)] unfolding kahn_inv_def cnt by simp
  have set_r: "set ready = {v \<in> I. v \<notin> ?X \<and> dict_get d v 0 = 0}"
    using ready(1,2) by auto
  have "(\<forall>v \<in> I. dict_get d' v 0 = open_preds es ?X v) \<and> distinct r' \<and>
    set r' = {v \<in> I. v \<notin> ?X \<and> dict_get d' v 0 = 0}"
    by (rule fold_relax_inv [OF deg _ set_r sub disj x]) (use ready in simp)
  moreover have "topo es (ordered @ [nxt])" using nxt by (simp add: topo_snoc open_preds_zero)
  ultimately show ?thesis using nxt ready by (auto simp: kahn_inv_def)
qed

lemma kahn_correct:
  "kahn_inv es I d ready ordered \<Longrightarrow> set es \<subseteq> I \<times> I \<Longrightarrow>
     (\<exists>d'. kahn_inv es I d' [] (kahn (adjacent es) d ready ordered))"
proof (induction "adjacent es" d ready ordered rule: kahn.induct)
  case (2 d nxt ready ordered)
  obtain d' r' where x: "fold relax (sort (adjacent es nxt)) (d, ready) = (d', r')" by fastforce
  have "\<exists>d''. kahn_inv es I d'' [] (kahn (adjacent es) d' r' (ordered @ [nxt]))"
    using 2(1) [OF refl] kahn_step_inv [OF 2(2,3) x] 2(3) x by simp
  then show ?case by (simp add: x)
qed auto

lemma kahn_complete:
  assumes "kahn_inv es I d [] ordered" and "set es \<subseteq> I \<times> I" and "acyclic (set es)" and "finite I"
  shows "set ordered = I"
proof (rule ccontr)
  assume "set ordered \<noteq> I"
  then obtain x where x: "x \<in> I - set ordered" using assms(1) by (auto simp: kahn_inv_def)
  have "wf (set es)" using assms(3) by (simp add: finite_acyclic_wf)
  then obtain z where z: "z \<in> I - set ordered" "\<And>y. (y, z) \<in> set es \<Longrightarrow> y \<notin> I - set ordered"
    using x by (metis wfE_min)
  then have "open_preds es (set ordered) z = 0" using assms(2) by (auto simp: open_preds_zero)
  with z assms(1) show False by (auto simp: kahn_inv_def)
qed


lemma fold_update_zero:
  "dict_get d v 0 = (0 :: int) \<Longrightarrow> dict_get (fold (\<lambda>i. AList.update i 0) ids d) v 0 = 0"
  by (induction ids arbitrary: d) (simp_all add: dict_simps)

lemma fold_update_keys:
  "fst ` set (fold (\<lambda>i. AList.update i (0 :: int)) ids d) = fst ` set d \<union> set ids"
  by (induction ids arbitrary: d) (auto simp: dom_update)

lemma fold_bump_get: "dict_get (fold (bump \<circ> snd) es d) v 0 = dict_get d v 0 + open_preds es {} v"
  by (induction es arbitrary: d) (auto simp: open_preds_def bump_def dict_simps)

lemma fold_bump_keys: "snd ` set es \<subseteq> fst ` set d \<Longrightarrow> fst ` set (fold (bump \<circ> snd) es d) = fst ` set d"
proof (induction es arbitrary: d)
  case (Cons e es)
  have k: "fst ` set (bump (snd e) d) = fst ` set d" using Cons.prems by (auto simp: bump_def dom_update)
  with Cons show ?case by simp
qed simp

lemma fold_bump_ok: "dict_ok d \<Longrightarrow> dict_ok (fold (bump \<circ> snd) es d)"
  by (induction es arbitrary: d) (simp_all add: bump_def)

lemma fold_zero_ok: "dict_ok d \<Longrightarrow> dict_ok (fold (\<lambda>i. AList.update i (0 :: int)) ids d)"
  by (induction ids arbitrary: d) simp_all

lemma in_degrees_spec:
  assumes "set es \<subseteq> set ids \<times> set ids"
  shows "dict_ok (in_degrees ids es)" and "fst ` set (in_degrees ids es) = set ids"
    and "dict_get (in_degrees ids es) v 0 = open_preds es {} v"
proof -
  let ?z = "fold (\<lambda>i. AList.update i (0 :: int)) ids []"
  have z: "fst ` set ?z = set ids" by (simp add: fold_update_keys)
  show "dict_ok (in_degrees ids es)" by (simp add: in_degrees_def fold_bump_ok fold_zero_ok)
  show "fst ` set (in_degrees ids es) = set ids"
    using assms z by (subst in_degrees_def, subst fold_bump_keys) auto
  show "dict_get (in_degrees ids es) v 0 = open_preds es {} v"
  proof -
    have "dict_get ?z v 0 = 0" by (rule fold_update_zero) (simp add: dict_get_def)
    then show ?thesis by (simp only: in_degrees_def fold_bump_get add_0)
  qed
qed

lemma kahn_inv_start:
  assumes "set es \<subseteq> set ids \<times> set ids"
  shows "kahn_inv es (set ids) (in_degrees ids es) (sort (map fst (filter (\<lambda>x. snd x = 0) (in_degrees ids es)))) []"
proof -
  let ?d = "in_degrees ids es"
  have ok: "dict_ok ?d" by (rule in_degrees_spec(1) [OF assms])
  have mem: "(k, 0) \<in> set ?d \<longleftrightarrow> k \<in> set ids \<and> dict_get ?d k 0 = 0" for k
  proof -
    have "(k, 0) \<in> set ?d \<longleftrightarrow> map_of ?d k = Some 0" using ok by (simp add: map_of_eq_Some_iff)
    moreover have "k \<in> set ids \<longleftrightarrow> map_of ?d k \<noteq> None"
      using in_degrees_spec(2) [OF assms] by (simp add: map_of_eq_None_iff)
    ultimately show ?thesis by (cases "map_of ?d k") (simp_all add: dict_get_def)
  qed
  have "set (map fst (filter (\<lambda>x. snd x = 0) ?d)) = {k. (k, 0) \<in> set ?d}" by force
  moreover have "distinct (map fst (filter (\<lambda>x. snd x = 0) ?d))" by (rule distinct_map_filter [OF ok])
  ultimately show ?thesis
    using mem in_degrees_spec(3) [OF assms] by (simp add: kahn_inv_def topo_def)
qed

lemma add_survivors_props:
  "distinct xs \<Longrightarrow> distinct (add_survivors ids xs) \<and> set (add_survivors ids xs) = set xs \<union> set ids \<and>
     (set ids \<subseteq> set xs \<longrightarrow> add_survivors ids xs = xs)"
  unfolding add_survivors_def by (induction ids arbitrary: xs) auto

lemma story_order_props:
  assumes "set es \<subseteq> set ids \<times> set ids"
  shows "distinct (story_order ids es)" and "set (story_order ids es) = set ids"
    and "acyclic (set es) \<Longrightarrow> topo es (story_order ids es)"
proof -
  let ?k = "kahn (adjacent es) (in_degrees ids es) (sort (map fst (filter (\<lambda>x. snd x = 0) (in_degrees ids es)))) []"
  obtain d where inv: "kahn_inv es (set ids) d [] ?k"
    using kahn_correct [OF kahn_inv_start [OF assms] assms] by blast
  then have k: "distinct ?k" "set ?k \<subseteq> set ids" "topo es ?k" by (simp_all add: kahn_inv_def)
  have so: "story_order ids es = add_survivors ids ?k" by (simp add: story_order_def Let_def)
  show "distinct (story_order ids es)" "set (story_order ids es) = set ids"
    using add_survivors_props [OF k(1)] k(2) so by auto
  show "topo es (story_order ids es)" if "acyclic (set es)"
    using kahn_complete [OF inv assms that] add_survivors_props [OF k(1), of ids] k(3) so by simp
qed


section \<open>The sprint plan\<close>

definition valid_story_id :: "string \<Rightarrow> bool" where
  "valid_story_id i \<longleftrightarrow> re_match_end STORY_RE i \<and> py_strip i = i"

lemma py_strip_Cons:
  assumes "\<not> py_space c"
  shows "\<exists>r. py_strip (c # cs) = c # r"
proof (cases "dropWhile py_space (rev cs)")
  case Nil
  then have "dropWhile py_space (rev cs @ [c]) = [c]"
    using assms by (simp add: dropWhile_append)
  with assms show ?thesis by (simp add: py_strip_def)
next
  case (Cons x xs)
  then have "\<exists>x \<in> set cs. \<not> py_space x" by (metis dropWhile_eq_Nil_conv list.distinct(1) set_rev)
  with Cons have "dropWhile py_space (rev cs @ [c]) = (x # xs) @ [c]" by (auto simp: dropWhile_append)
  with assms show ?thesis by (simp add: py_strip_def)
qed

lemma labelled_text_ok:
  assumes "c \<in> {CHR ''S'', CHR ''D'', CHR ''B''}"
  shows "check_text l (py_strip (c # cs)) = Inr (py_strip (c # cs))"
proof -
  have "\<not> py_space c" using assms by (auto simp: py_space_def Let_def)
  then obtain r where "py_strip (c # cs) = c # r" using py_strip_Cons by blast
  moreover from this have "py_strip (c # r) = c # r" by (metis py_strip_idem)
  moreover have "py_lower_char (CHR ''S'') = CHR ''s''" "py_lower_char (CHR ''D'') = CHR ''d''"
    "py_lower_char (CHR ''B'') = CHR ''b''" by code_simp+
  ultimately show ?thesis
    using assms by (auto simp: is_empty_or_tbd_def EMPTY_SENTINELS_def py_lower_def)
qed

lemma rmap_check_ids:
  "\<forall>i \<in> set ss. valid_story_id i \<Longrightarrow> rmap (check_id STORY_RE l) (map py_strip ss) = Inr ss"
  by (induction ss) (auto simp: valid_story_id_def check_id_def)

lemma make_sprint_ok:
  assumes "1 \<le> n" and "c \<in> {CHR ''S'', CHR ''D'', CHR ''B''}" and "d \<in> {CHR ''S'', CHR ''D'', CHR ''B''}"
    and "\<forall>i \<in> set ss. valid_story_id i"
  shows "\<exists>sp. make_sprint n (c # cs) (d # ds) ss = Inr sp \<and> sp_stories sp = ss \<and> sp_number sp = n"
  using assms by (simp add: make_sprint_def labelled_text_ok rmap_check_ids)

definition plan_shape :: "nat \<Rightarrow> sprint list \<Rightarrow> bool" where
  "plan_shape i sps \<longleftrightarrow> map sp_number sps = [Suc i..<Suc i + length sps] \<and>
     list_all (\<lambda>sp. length (sp_stories sp) \<le> MAX_STORIES_PER_SPRINT) sps"

lemma sprint_chunks_ok:
  "\<forall>x \<in> set ordered. valid_story_id x \<Longrightarrow> \<exists>sps rest. sprint_chunks n i ordered = Inr (sps, rest) \<and>
     concat (map sp_stories sps) @ rest = ordered \<and> length sps \<le> n \<and> (rest \<noteq> [] \<longrightarrow> length sps = n) \<and>
     plan_shape i sps"
proof (induction n arbitrary: i ordered)
  case 0
  then show ?case by (simp add: plan_shape_def)
next
  case (Suc n)
  let ?chunk = "take MAX_STORIES_PER_SPRINT ordered"
  show ?case
  proof (cases "?chunk = []")
    case True
    then have "ordered = []" by (simp add: MAX_STORIES_PER_SPRINT_def)
    then show ?thesis by (simp add: plan_shape_def)
  next
    case False
    have valid: "\<forall>x \<in> set ?chunk. valid_story_id x" using Suc.prems by (auto dest: in_set_takeD)
    have "\<exists>sp. make_sprint (i + 1) (''Sprint '' @ str_nat (i + 1)) (''Deliver '' @ str_nat (length ?chunk) @
        '' stories (slice '' @ str_nat (i + 1) @ ''/'' @ str_nat DEFAULT_SPRINT_COUNT @ '').'') ?chunk = Inr sp \<and>
        sp_stories sp = ?chunk \<and> sp_number sp = i + 1"
      using valid by (simp only: append_Cons) (rule make_sprint_ok, simp_all)
    then obtain sp where sp: "make_sprint (i + 1) (''Sprint '' @ str_nat (i + 1)) (''Deliver '' @ str_nat (length ?chunk) @
        '' stories (slice '' @ str_nat (i + 1) @ ''/'' @ str_nat DEFAULT_SPRINT_COUNT @ '').'') ?chunk = Inr sp"
      "sp_stories sp = ?chunk" "sp_number sp = i + 1" by blast
    have "\<forall>x \<in> set (drop MAX_STORIES_PER_SPRINT ordered). valid_story_id x"
      using Suc.prems by (auto dest: in_set_dropD)
    from Suc.IH [OF this, of "i + 1"] obtain sps rest where
      r: "sprint_chunks n (i + 1) (drop MAX_STORIES_PER_SPRINT ordered) = Inr (sps, rest)"
        "concat (map sp_stories sps) @ rest = drop MAX_STORIES_PER_SPRINT ordered" "length sps \<le> n"
        "plan_shape (i + 1) sps" "rest \<noteq> [] \<longrightarrow> length sps = n" by blast
    have "sprint_chunks (Suc n) i ordered = Inr (sp # sps, rest)"
      using False sp(1) r(1) by (simp only: sprint_chunks.simps Let_def if_False rbind_Inr fst_conv snd_conv)
    moreover have "plan_shape i (sp # sps)"
      using r(4) sp(2,3) by (simp add: plan_shape_def upt_conv_Cons del: upt_Suc)
    ultimately show ?thesis using sp(2) r(2,3,5) by simp
  qed
qed

lemma sequence_sprints_ok:
  assumes "\<forall>s \<in> set stories. valid_story_id (st_id s)"
  shows "\<exists>sps. sequence_sprints stories edges = Inr sps \<and>
    concat (map sp_stories sps) = story_order (map st_id stories) (live_edges (map st_id stories) edges) \<and>
    map sp_number sps = [1..<Suc (length sps)] \<and> length sps \<le> Suc DEFAULT_SPRINT_COUNT \<and>
    list_all (\<lambda>sp. length (sp_stories sp) \<le> MAX_STORIES_PER_SPRINT) (take DEFAULT_SPRINT_COUNT sps)"
proof -
  let ?ids = "map st_id stories"
  let ?o = "story_order ?ids (live_edges ?ids edges)"
  have "set (live_edges ?ids edges) \<subseteq> set ?ids \<times> set ?ids" by (auto simp: live_edges_def)
  then have "set ?o = set ?ids" by (rule story_order_props(2))
  then have valid: "\<forall>x \<in> set ?o. valid_story_id x" using assms by auto
  from sprint_chunks_ok [OF valid] obtain sps rest where
    r: "sprint_chunks DEFAULT_SPRINT_COUNT 0 ?o = Inr (sps, rest)" "concat (map sp_stories sps) @ rest = ?o"
      "length sps \<le> DEFAULT_SPRINT_COUNT" "plan_shape 0 sps" "rest \<noteq> [] \<longrightarrow> length sps = DEFAULT_SPRINT_COUNT" by blast
  show ?thesis
  proof (cases "rest = []")
    case True
    with r show ?thesis by (simp add: sequence_sprints_def Let_def plan_shape_def)
  next
    case False
    have "\<forall>i \<in> set rest. valid_story_id i" using valid by (simp flip: r(2))
    then obtain sp where sp: "make_sprint (length sps + 1) ''Backlog overflow''
        (''Stories beyond default '' @ str_nat DEFAULT_SPRINT_COUNT @ ''-sprint horizon.'') rest = Inr sp"
      "sp_stories sp = rest" "sp_number sp = length sps + 1"
      using make_sprint_ok [of "length sps + 1" "CHR ''B''" "CHR ''S''" rest] by fastforce
    have "sequence_sprints stories edges = Inr (sps @ [sp])"
      using r(1) sp(1) False by (simp add: sequence_sprints_def Let_def)
    moreover have "take DEFAULT_SPRINT_COUNT (sps @ [sp]) = sps" using False r(5) by simp
    ultimately show ?thesis using r(2-4) sp(2,3) by (simp add: plan_shape_def)
  qed
qed


lemma sequence_sprints_sound:
  assumes "\<forall>s \<in> set stories. valid_story_id (st_id s)" and "sequence_sprints stories edges = Inr sps"
  shows "distinct (concat (map sp_stories sps))" and "set (concat (map sp_stories sps)) = st_id ` set stories"
proof -
  let ?ids = "map st_id stories"
  have "set (live_edges ?ids edges) \<subseteq> set ?ids \<times> set ?ids" by (auto simp: live_edges_def)
  note order = story_order_props(1,2) [OF this]
  have "concat (map sp_stories sps) = story_order ?ids (live_edges ?ids edges)"
    using sequence_sprints_ok [OF assms(1), of edges] assms(2) by auto
  with order show "distinct (concat (map sp_stories sps))" "set (concat (map sp_stories sps)) = st_id ` set stories"
    by simp_all
qed

text \<open>
  Claim C33. No story is lost and none is planned twice: for stories with well-formed ids, whatever
  the dependencies and even if they are circular, the sprint plan is built, the sprints are
  numbered from 1, there are at most four of them, the first three hold at most eight stories each,
  and together they hold the id of every story exactly once.
\<close>

theorem sprint_plan_complete:
  assumes "\<forall>s \<in> set stories. valid_story_id (st_id s)"
  shows "\<exists>sps. sequence_sprints stories edges = Inr sps \<and>
    distinct (concat (map sp_stories sps)) \<and> set (concat (map sp_stories sps)) = st_id ` set stories \<and>
    map sp_number sps = [1..<Suc (length sps)] \<and> length sps \<le> 4 \<and>
    list_all (\<lambda>sp. length (sp_stories sp) \<le> 8) (take 3 sps)"
proof -
  obtain sps where sps: "sequence_sprints stories edges = Inr sps"
      "map sp_number sps = [1..<Suc (length sps)]" "length sps \<le> Suc DEFAULT_SPRINT_COUNT"
      "list_all (\<lambda>sp. length (sp_stories sp) \<le> MAX_STORIES_PER_SPRINT) (take DEFAULT_SPRINT_COUNT sps)"
    using sequence_sprints_ok [OF assms] by blast
  show ?thesis
    using sequence_sprints_sound [OF assms sps(1)] sps(2-4)
    unfolding DEFAULT_SPRINT_COUNT_def MAX_STORIES_PER_SPRINT_def
    by (intro exI [of _ sps] conjI sps(1)) simp_all
qed

definition demo_story :: "string \<Rightarrow> string \<Rightarrow> story" where
  "demo_story i t = \<lparr>st_id = i, st_title = t, st_status = Backlog, st_priority = P0, st_size = XS,
     st_estimate_cost = 1, st_estimate_duration = ''<1 day'', st_dependencies = []\<rparr>"

lemma demo_ids_valid: "valid_story_id ''STORY-1.1.1''" "valid_story_id ''STORY-1.1.2''"
  by code_simp+

theorem sprint_plan_complete_witness:
  "\<exists>sps. sequence_sprints [demo_story ''STORY-1.1.1'' ''cart'', demo_story ''STORY-1.1.2'' ''cart tests'']
      [demo_edge ''STORY-1.1.2'' ''STORY-1.1.1''] = Inr sps \<and> length sps \<le> 4 \<and>
    set (concat (map sp_stories sps)) = {''STORY-1.1.1'', ''STORY-1.1.2''}"
  using sprint_plan_complete [of "[demo_story ''STORY-1.1.1'' ''cart'', demo_story ''STORY-1.1.2'' ''cart tests'']"
      "[demo_edge ''STORY-1.1.2'' ''STORY-1.1.1'']"] demo_ids_valid
  by (auto simp: demo_story_def)

lemma detect_dependencies_acyclic:
  assumes "detect_dependencies limit kg stories = Inr deps" and "\<forall>e \<in> set deps. \<not> is_cycle_edge e"
  shows "acyclic (set (live_edges (map st_id stories) deps))"
proof (cases "stories = []")
  case False
  let ?ids = "map st_id stories" and ?es = "heuristic_edges kg stories"
  obtain cs where cs: "find_cycles limit ?es ?ids = Inr cs" and deps: "deps = ?es @ map cycle_edge cs"
    using assms(1) False by (auto simp: detect_dependencies_def Let_def rbind_eq_Inr)
  have "cs = []" using assms(2) by (cases cs) (auto simp: deps is_cycle_edge_def cycle_edge_def)
  with cs have "acyclic (dependency_rel ?es ?ids)" by (simp add: find_cycles_acyclic)
  moreover have "set (live_edges ?ids deps) \<subseteq> dependency_rel ?es ?ids"
    using \<open>cs = []\<close> by (auto simp: live_edges_def dependency_rel_def deps)
  ultimately show ?thesis by (rule acyclic_subset)
qed (simp add: live_edges_def acyclic_def)

text \<open>
  Claim C34. When no circle is reported the plan respects every dependency: for the dependencies
  detected among stories with well-formed ids, if none of them is a cycle report, each story comes
  strictly after the stories it depends on, sprint by sprint in the order of the plan.
\<close>

theorem sprint_plan_respects_dependencies:
  assumes "\<forall>s \<in> set stories. valid_story_id (st_id s)"
    and "detect_dependencies limit kg stories = Inr deps" and "\<forall>e \<in> set deps. \<not> is_cycle_edge e"
    and "e \<in> set deps" and "sd_from_story_id e \<in> st_id ` set stories"
    and "sequence_sprints stories deps = Inr sps"
    and "concat (map sp_stories sps) = before @ sd_to_story_id e # after"
  shows "sd_from_story_id e \<in> set before"
proof -
  let ?ids = "map st_id stories"
  let ?es = "live_edges ?ids deps"
  have sub: "set ?es \<subseteq> set ?ids \<times> set ?ids" by (auto simp: live_edges_def)
  have ord: "concat (map sp_stories sps) = story_order ?ids ?es"
    using sequence_sprints_ok [OF assms(1), of deps] assms(6) by auto
  then have "sd_to_story_id e \<in> set ?ids"
    using story_order_props(2) [OF sub] assms(7) by (metis in_set_conv_decomp)
  then have "(sd_from_story_id e, sd_to_story_id e) \<in> set ?es"
    using assms(3-5) by (force simp: live_edges_def)
  moreover have "topo ?es (story_order ?ids ?es)"
    by (rule story_order_props(3) [OF sub detect_dependencies_acyclic [OF assms(2,3)]])
  ultimately show ?thesis using assms(7) unfolding ord topo_def by blast
qed


definition demo_stories :: "story list" where
  "demo_stories = [demo_story ''STORY-1.1.1'' ''Cart'', demo_story ''STORY-1.1.2'' ''Cart test'']"

definition demo_dep :: story_dependency where
  "demo_dep = \<lparr>sd_from_story_id = ''STORY-1.1.1'', sd_to_story_id = ''STORY-1.1.2'',
     sd_reason = B_tests_a [''cart''], sd_confidence = High\<rparr>"

lemma demo_detect: "detect_dependencies 2 (Some (\<lambda>_. [])) demo_stories = Inr [demo_dep]"
  by code_simp

theorem sprint_plan_respects_dependencies_witness:
  "\<exists>sps before after. sequence_sprints demo_stories [demo_dep] = Inr sps \<and>
     concat (map sp_stories sps) = before @ ''STORY-1.1.2'' # after \<and> ''STORY-1.1.1'' \<in> set before"
proof -
  have valid: "\<forall>s \<in> set demo_stories. valid_story_id (st_id s)"
    by (simp add: demo_stories_def demo_story_def demo_ids_valid)
  obtain sps where sps: "sequence_sprints demo_stories [demo_dep] = Inr sps"
      "concat (map sp_stories sps) = story_order (map st_id demo_stories) (live_edges (map st_id demo_stories) [demo_dep])"
    using sequence_sprints_ok [OF valid] by blast
  have "set (concat (map sp_stories sps)) = set (map st_id demo_stories)"
    unfolding sps(2) by (rule story_order_props(2)) (auto simp: live_edges_def)
  then have "''STORY-1.1.2'' \<in> set (concat (map sp_stories sps))"
    by (simp add: demo_stories_def demo_story_def)
  then obtain bef aft where split: "concat (map sp_stories sps) = bef @ ''STORY-1.1.2'' # aft"
    by (meson in_set_conv_decomp)
  have "\<forall>e \<in> set [demo_dep]. \<not> is_cycle_edge e" by (simp add: demo_dep_def is_cycle_edge_def)
  moreover have "sd_from_story_id demo_dep \<in> st_id ` set demo_stories" "sd_to_story_id demo_dep = ''STORY-1.1.2''"
      "sd_from_story_id demo_dep = ''STORY-1.1.1''"
    by (simp_all add: demo_dep_def demo_stories_def demo_story_def)
  ultimately have "''STORY-1.1.1'' \<in> set bef"
    using sprint_plan_respects_dependencies [OF valid demo_detect, of demo_dep sps bef aft] sps(1) split by simp
  with sps(1) split show ?thesis by blast
qed

section \<open>The text-only fallback\<close>

lemma edge_between_text_only:
  "meet a_refs b_refs \<noteq> [] \<Longrightarrow>
     \<exists>e. edge_between a b a_refs b_refs [] False = Some e \<and> sd_from_story_id e = st_id a \<and> sd_to_story_id e = st_id b"
  by (simp add: edge_between_def Let_def)

lemma heuristic_edges_text_only:
  assumes "i < length stories" and "j < length stories" and "i \<noteq> j"
    and "x \<in> set (refs_of stories (st_id (stories ! i)))" and "x \<in> set (refs_of stories (st_id (stories ! j)))"
  shows "\<exists>e \<in> set (heuristic_edges None stories).
    sd_from_story_id e = st_id (stories ! i) \<and> sd_to_story_id e = st_id (stories ! j)"
proof -
  let ?a = "stories ! i" and ?b = "stories ! j"
  let ?ra = "refs_of stories (st_id ?a)" and ?rb = "refs_of stories (st_id ?b)"
  have ne: "?ra \<noteq> []" "?rb \<noteq> []" "meet ?ra ?rb \<noteq> []"
    using assms(4,5) by (auto simp: meet_def filter_empty_conv)
  then obtain e where e: "edge_between ?a ?b ?ra ?rb [] False = Some e"
      "sd_from_story_id e = st_id ?a" "sd_to_story_id e = st_id ?b"
    using edge_between_text_only by blast
  have mem: "(k, stories ! k) \<in> set (enumerate 0 stories)" if "k < length stories" for k
    using that by (simp add: in_set_enumerate_eq)
  have "e \<in> set (heuristic_edges None stories)"
    unfolding heuristic_edges_def Let_def set_concat set_map
    using mem [OF assms(1)] mem [OF assms(2)] assms(3) ne e(1)
    by (fastforce intro!: bexI [where x = "(i, ?a)"] bexI [where x = "(j, ?b)"])
  with e show ?thesis by blast
qed

text \<open>
  Without the knowledge graph every shared word is a circle: in the text-only fallback
  two different stories that mention one common identifier always depend on each other in both
  directions, so whenever the search returns it reports a cycle.
\<close>

theorem text_only_overlap_is_circular:
  assumes "i < length stories" and "j < length stories" and "i \<noteq> j"
    and "x \<in> set (refs_of stories (st_id (stories ! i)))" and "x \<in> set (refs_of stories (st_id (stories ! j)))"
    and "detect_dependencies limit None stories = Inr deps"
  shows "\<exists>e \<in> set deps. is_cycle_edge e"
proof (rule ccontr)
  let ?ids = "map st_id stories"
  assume "\<not> ?thesis"
  then have ac: "acyclic (set (live_edges ?ids deps))" and nc: "\<forall>e \<in> set deps. \<not> is_cycle_edge e"
    using detect_dependencies_acyclic [OF assms(6)] by blast+
  have "stories \<noteq> []" using assms(1) by auto
  then have sub: "set (heuristic_edges None stories) \<subseteq> set deps"
    using assms(6) by (auto simp: detect_dependencies_def Let_def rbind_eq_Inr)
  have live: "(st_id (stories ! k), st_id (stories ! l)) \<in> set (live_edges ?ids deps)"
    if "k < length stories" "l < length stories" "k \<noteq> l"
      "x \<in> set (refs_of stories (st_id (stories ! k)))" "x \<in> set (refs_of stories (st_id (stories ! l)))" for k l
  proof -
    note kl = that
    obtain e where "e \<in> set deps" "sd_from_story_id e = st_id (stories ! k)" "sd_to_story_id e = st_id (stories ! l)"
      using heuristic_edges_text_only [OF kl] sub by blast
    then show ?thesis using nc kl(1,2) by (auto simp: live_edges_def intro!: rev_image_eqI [of e])
  qed
  have "(st_id (stories ! i), st_id (stories ! i)) \<in> (set (live_edges ?ids deps))\<^sup>+"
    using live [OF assms(1-5)] live [OF assms(2,1) _ assms(5,4)] assms(3) by (auto intro: trancl_into_trancl r_into_trancl)
  with ac show False by (simp add: acyclic_def)
qed

theorem text_only_overlap_is_circular_witness:
  "\<exists>deps. detect_dependencies 2 None demo_stories = Inr deps \<and> (\<exists>e \<in> set deps. is_cycle_edge e)"
proof -
  have "\<not> isl (detect_dependencies 2 None demo_stories)" by code_simp
  then obtain deps where d: "detect_dependencies 2 None demo_stories = Inr deps"
    by (cases "detect_dependencies 2 None demo_stories") auto
  have "length demo_stories = 2" "''cart'' \<in> set (refs_of demo_stories (st_id (demo_stories ! 0)))"
    "''cart'' \<in> set (refs_of demo_stories (st_id (demo_stories ! 1)))" by code_simp+
  with d text_only_overlap_is_circular [of 0 demo_stories 1 "''cart''" 2 deps] show ?thesis by auto
qed

end
