(* ===== verification/Decomposer.thy ===== *)
theory Decomposer
  imports Story_Graph Json "HOL-Library.Multiset"
begin

text \<open>
  \<open>plan/decomposer/decomposer.py\<close> with \<open>sizing.py\<close> and \<open>id_allocator.py\<close>: the shape of the
  initiatives drawn from the PRD and the TRD, the stable ids, the size of each story, and the whole
  of \<open>decompose\<close> over the dependency search and the sprint sequencing of the theory before.
  SHA-256 is an argument. The em dash that two texts contain has no character among the code
  points 0 to 255; the model writes 0x97 for it, which like the em dash is neither a word character
  nor a blank.
\<close>

section \<open>Sizing\<close>

record sizing_result =
  sz_size :: tshirt
  sz_estimated_cost_usd :: nat
  sz_estimated_duration_hours :: nat
  sz_estimated_duration_label :: string
  sz_rationale :: "string list"

definition SIZE_COST_USD :: "tshirt \<Rightarrow> nat" where
  "SIZE_COST_USD s = (case s of XS \<Rightarrow> 1 | S \<Rightarrow> 5 | M \<Rightarrow> 25 | L \<Rightarrow> 100 | XL \<Rightarrow> 500)"

definition SIZE_HOURS :: "tshirt \<Rightarrow> nat" where
  "SIZE_HOURS s = (case s of XS \<Rightarrow> 4 | S \<Rightarrow> 16 | M \<Rightarrow> 60 | L \<Rightarrow> 180 | XL \<Rightarrow> 600)"

definition SIZE_DURATION :: "tshirt \<Rightarrow> string" where
  "SIZE_DURATION s = (case s of XS \<Rightarrow> ''<1 day'' | S \<Rightarrow> ''1-3 days'' | M \<Rightarrow> ''1-2 weeks''
     | L \<Rightarrow> ''3-6 weeks'' | XL \<Rightarrow> ''release-scale'')"

definition SECURITY_KW :: "string list" where
  "SECURITY_KW = [''auth'', ''oauth'', ''jwt'', ''password'', ''secret'', ''encrypt'', ''decrypt'', ''tls'',
     ''mtls'', ''rbac'', ''acl'', ''permission'', ''capability'', ''vault'', ''kms'', ''pii'', ''gdpr'',
     ''hipaa'', ''compliance'']"

definition NOVEL_MODEL_KW :: "string list" where
  "NOVEL_MODEL_KW = [''schema'', ''migration'', ''entity'', ''table'', ''column'', ''index'', ''partition'',
     ''foreign-key'', ''foreign key'', ''new-model'', ''new model'', ''newmodel'']"

definition INTEGRATION_KW :: "string list" where
  "INTEGRATION_KW = [''webhook'', ''api'', ''rest'', ''grpc'', ''sqs'', ''kafka'', ''pubsub'', ''sns'', ''s3'',
     ''stripe'', ''twilio'', ''sendgrid'', ''slack'', ''github'', ''jira'', ''linear'', ''integration'',
     ''third-party'', ''third party'']"

definition DISTRIBUTED_KW :: "string list" where
  "DISTRIBUTED_KW = [''distributed'', ''async'', ''queue'', ''saga'', ''consensus'', ''leader'', ''shard'',
     ''replica'', ''raft'', ''paxos'']"

text \<open>\<open>len(text.split())\<close>: the number of maximal runs of characters that are not blanks.\<close>

fun word_count_from :: "bool \<Rightarrow> string \<Rightarrow> nat" where
  "word_count_from inside [] = 0"
| "word_count_from inside (c # cs) =
     (if py_space c then word_count_from False cs
      else (if inside then 0 else 1) + word_count_from True cs)"

definition points_to_size :: "nat \<Rightarrow> tshirt" where
  "points_to_size points =
     (if points \<le> 0 then XS else if points \<le> 2 then S else if points \<le> 5 then M
      else if points \<le> 9 then L else XL)"

fun flatten_parts :: "json \<Rightarrow> string list" where
  "flatten_parts (JStr s) = [s]"
| "flatten_parts (JDict d) = concat (map (\<lambda>kv. flatten_parts (snd kv)) d)"
| "flatten_parts (JList xs) = concat (map flatten_parts xs)"
| "flatten_parts j = []"

fun join_with :: "string \<Rightarrow> string list \<Rightarrow> string" where
  "join_with sep [] = []"
| "join_with sep [x] = x"
| "join_with sep (x # y # xs) = x @ sep @ join_with sep (y # xs)"

definition flatten_trd :: "json option \<Rightarrow> string" where
  "flatten_trd section = (case section of None \<Rightarrow> [] | Some j \<Rightarrow>
     if truthy j then join_with '' '' (flatten_parts j) else [])"

definition brief_points :: "nat \<Rightarrow> nat \<times> string list" where
  "brief_points word_count =
     (if word_count > 200 then (3, [''long brief ('' @ str_nat word_count @ '' words)''])
      else if word_count > 80 then (1, [''medium brief ('' @ str_nat word_count @ '' words)'']) else (0, []))"

definition impact_points :: "nat \<Rightarrow> nat \<times> string list" where
  "impact_points impact_count =
     (if impact_count > 50 then (5, [''KG impact: '' @ str_nat impact_count @ '' nodes (large blast radius)''])
      else if impact_count > 15 then (3, [''KG impact: '' @ str_nat impact_count @ '' nodes''])
      else if impact_count > 3 then (1, [''KG impact: '' @ str_nat impact_count @ '' nodes'']) else (0, []))"

definition kw_points :: "string list \<Rightarrow> string \<Rightarrow> nat \<Rightarrow> string \<Rightarrow> nat \<times> string list" where
  "kw_points kws haystack points note = (if kw_search kws haystack then (points, [note]) else (0, []))"

definition estimate_size :: "string \<Rightarrow> json option \<Rightarrow> string list option \<Rightarrow> sizing_result" where
  "estimate_size story_text trd_section kg_impact =
     (let text = py_strip story_text;
          haystack = text @ '' '' @ flatten_trd trd_section;
          scores = [brief_points (word_count_from False text),
                    impact_points (case kg_impact of None \<Rightarrow> 0 | Some xs \<Rightarrow> length xs),
                    kw_points SECURITY_KW haystack 2 ''security/auth touch'',
                    kw_points NOVEL_MODEL_KW haystack 2 ''novel data model'',
                    kw_points INTEGRATION_KW haystack 2 ''external integration'',
                    kw_points DISTRIBUTED_KW haystack 3 ''distributed / async''];
          size = points_to_size (sum_list (map fst scores));
          rationale = concat (map snd scores) in
      \<lparr>sz_size = size, sz_estimated_cost_usd = SIZE_COST_USD size,
       sz_estimated_duration_hours = SIZE_HOURS size, sz_estimated_duration_label = SIZE_DURATION size,
       sz_rationale = (if rationale = [] then [''base heuristic (no strong signals)''] else rationale)\<rparr>)"

section \<open>The shape of the roadmap\<close>

datatype epic_kind = Component_kind | Integration_kind | Nfr_kind | Default_kind

record epic_shape =
  es_title :: string
  es_description :: string
  es_stories :: "string list"
  es_kind :: epic_kind

record init_shape =
  is_title :: string
  is_why :: string
  is_tier :: nat
  is_priority :: priority
  is_epics :: "epic_shape list"

definition em_dash :: string where "em_dash = [CHR 0x97]"

definition tier_by_priority :: "priority \<Rightarrow> nat" where
  "tier_by_priority p = (case p of P0 \<Rightarrow> 1 | P1 \<Rightarrow> 2 | P2 \<Rightarrow> 3 | P3 \<Rightarrow> 4)"

definition direction_value :: "integration_direction \<Rightarrow> string" where
  "direction_value d = (case d of Inbound \<Rightarrow> ''inbound'' | Outbound \<Rightarrow> ''outbound'' | Bidirectional \<Rightarrow> ''bidirectional'')"

definition has_text :: "string option \<Rightarrow> bool" where
  "has_text t = (case t of None \<Rightarrow> False | Some s \<Rightarrow> s \<noteq> [])"

definition epic_from_component :: "component \<Rightarrow> epic_shape" where
  "epic_from_component c =
     (let tech = (if has_text (cp_technology c) then '' ('' @ the (cp_technology c) @ '')'' else []) in
      \<lparr>es_title = ''Build '' @ cp_name c @ tech, es_description = cp_responsibility c,
       es_stories = [''Scaffold '' @ cp_name c @ '' module + interfaces'',
         ''Implement '' @ cp_name c @ '' core: '' @ py_strip (take 60 (cp_responsibility c)),
         ''Add '' @ cp_name c @ '' unit + integration tests''] @
         (if has_text (cp_technology c) then [''Wire '' @ cp_name c @ '' to '' @ the (cp_technology c)] else []),
       es_kind = Component_kind\<rparr>)"

definition epic_from_integration :: "integration \<Rightarrow> epic_shape" where
  "epic_from_integration i =
     \<lparr>es_title = ''Integrate '' @ ig_name i @ '' ('' @ direction_value (ig_direction i) @ '')'',
      es_description = ig_protocol i @ '' integration, auth='' @ ig_auth i,
      es_stories = [''Wire '' @ ig_name i @ '' '' @ direction_value (ig_direction i) @ '' client + auth ('' @ ig_auth i @ '')'',
        ''Add '' @ ig_name i @ '' integration tests + retries''],
      es_kind = Integration_kind\<rparr>"

definition nfr_concerns :: "trd \<Rightarrow> (string \<times> string) list" where
  "nfr_concerns t = [(''performance'', trd_performance t), (''security'', trd_security t),
     (''scalability'', trd_scalability t), (''observability'', trd_observability t), (''cost'', trd_cost t)]"

definition epic_from_nfr :: "string \<Rightarrow> string \<Rightarrow> epic_shape" where
  "epic_from_nfr concern val =
     \<lparr>es_title = ''NFR: '' @ concern, es_description = val,
      es_stories = [''Implement '' @ concern @ '' controls '' @ em_dash @ '' '' @ take 60 val,
        ''Add '' @ concern @ '' test/coverage and dashboards''],
      es_kind = Nfr_kind\<rparr>"

definition epics_from_nfrs :: "trd \<Rightarrow> epic_shape list" where
  "epics_from_nfrs t = map (\<lambda>(concern, val). epic_from_nfr concern (py_strip val))
     (filter (\<lambda>(concern, val). py_strip val \<noteq> []) (nfr_concerns t))"

definition default_epic :: epic_shape where
  "default_epic = \<lparr>es_title = ''Initial scaffolding'',
     es_description = ''Bootstrap repo, CI, and skeleton modules.'',
     es_stories = [''Bootstrap repository + CI pipeline''], es_kind = Default_kind\<rparr>"

definition epic_candidates_from_trd :: "trd \<Rightarrow> epic_shape list" where
  "epic_candidates_from_trd t =
     (let out = map epic_from_component (trd_components t) @ map epic_from_integration (trd_integrations t) @
                epics_from_nfrs t in
      if out = [] then [default_epic] else out)"

fun chunks_of :: "nat \<Rightarrow> 'a list \<Rightarrow> 'a list list" where
  "chunks_of n xs = (if n = 0 \<or> xs = [] then [] else take n xs # chunks_of n (drop n xs))"

declare chunks_of.simps [simp del]

definition cluster_goals :: "string list \<Rightarrow> nat \<Rightarrow> string list list" where
  "cluster_goals goals n = (if length goals \<le> n then [goals] else chunks_of n goals)"

definition initiative_title :: "string \<Rightarrow> string list \<Rightarrow> nat \<Rightarrow> nat \<Rightarrow> string" where
  "initiative_title label cluster cidx ctotal =
     (let raw = take 60 (takeWhile (\<lambda>c. c \<noteq> CHR ''.'') (hd cluster));
          head = py_strip (if raw = [] then ''initiative'' else raw);
          suff = (if ctotal > 1 then '' ('' @ str_nat cidx @ ''/'' @ str_nat ctotal @ '')'' else []) in
      ''['' @ label @ ''] '' @ head @ suff)"

definition initiative_why :: "prd \<Rightarrow> string list \<Rightarrow> string" where
  "initiative_why p cluster =
     prd_problem_statement p @ '' '' @ em_dash @ '' covers: '' @ join_with ''; '' (take 3 cluster)"

definition prd_tiers :: "prd \<Rightarrow> (string \<times> string list \<times> priority) list" where
  "prd_tiers p = [(''MUST'', prd_must p, P0), (''SHOULD'', prd_should p, P1), (''COULD'', prd_could p, P2)]"

text \<open>One pass of the inner loop: the state is the cursor into the pool and the shape so far.\<close>

definition add_cluster ::
  "prd \<Rightarrow> epic_shape list \<Rightarrow> nat \<Rightarrow> string \<Rightarrow> priority \<Rightarrow> nat \<Rightarrow> nat \<times> string list \<Rightarrow>
   nat \<times> init_shape list \<Rightarrow> nat \<times> init_shape list" where
  "add_cluster p pool nonempty label prio nclusters ic st =
     (let tk = max 1 (length pool div max 1 (nclusters * nonempty)) in
      (fst st + tk, snd st @
        [\<lparr>is_title = initiative_title label (snd ic) (fst ic) nclusters, is_why = initiative_why p (snd ic),
          is_tier = tier_by_priority prio, is_priority = prio,
          is_epics = take tk (drop (fst st) pool)\<rparr>]))"

definition add_tier ::
  "prd \<Rightarrow> epic_shape list \<Rightarrow> nat \<Rightarrow> string \<times> string list \<times> priority \<Rightarrow>
   nat \<times> init_shape list \<Rightarrow> nat \<times> init_shape list" where
  "add_tier p pool nonempty tier st =
     (case tier of (label, goals, prio) \<Rightarrow>
        if goals = [] then st else
        let clusters = cluster_goals goals 4 in
        fold (add_cluster p pool nonempty label prio (length clusters)) (enumerate 1 clusters) st)"

definition extend_first :: "epic_shape list \<Rightarrow> init_shape list \<Rightarrow> init_shape list" where
  "extend_first leftover shape = (case shape of [] \<Rightarrow> [] | i # is \<Rightarrow> i\<lparr>is_epics := is_epics i @ leftover\<rparr> # is)"

definition initiatives_from_prd :: "prd \<Rightarrow> trd \<Rightarrow> init_shape list" where
  "initiatives_from_prd p t =
     (let pool = epic_candidates_from_trd t;
          nonempty = max 1 (length (filter (\<lambda>(l, gs, pr). gs \<noteq> []) (prd_tiers p)));
          st = fold (add_tier p pool nonempty) (prd_tiers p) (0, []);
          shape = extend_first (drop (fst st) pool) (snd st) in
      if shape = [] then
        [\<lparr>is_title = prd_project_name p @ '' delivery'',
          is_why = (if prd_problem_statement p = [] then ''Initial decomposition.'' else prd_problem_statement p),
          is_tier = 1, is_priority = P0, is_epics = (if pool = [] then [default_epic] else pool)\<rparr>]
      else shape)"

section \<open>Stable ids\<close>

record allocation =
  al_assigned :: "(string, string) dict"
  al_retired_ids :: "string list"

definition canonical_hash :: "(string \<Rightarrow> string) \<Rightarrow> string list \<Rightarrow> string" where
  "canonical_hash sha parts = sha (join_with [CHR 0x1F] (map (\<lambda>p. py_lower (py_strip p)) parts))"

definition index_story :: "(string \<Rightarrow> string) \<Rightarrow> string \<Rightarrow> story \<Rightarrow> (string, string) dict \<Rightarrow> (string, string) dict" where
  "index_story sha eid s out = AList.update (canonical_hash sha [''story'', eid, st_title s]) (st_id s) out"

definition index_epic :: "(string \<Rightarrow> string) \<Rightarrow> string \<Rightarrow> epic \<Rightarrow> (string, string) dict \<Rightarrow> (string, string) dict" where
  "index_epic sha iid e out = fold (index_story sha (ep_id e)) (ep_stories e)
     (AList.update (canonical_hash sha [''epic'', iid, ep_title e, ep_description e]) (ep_id e) out)"

definition index_initiative :: "(string \<Rightarrow> string) \<Rightarrow> initiative \<Rightarrow> (string, string) dict \<Rightarrow> (string, string) dict" where
  "index_initiative sha i out = fold (index_epic sha (in_id i)) (in_epics i)
     (AList.update (canonical_hash sha [''init'', in_title i, in_why i]) (in_id i) out)"

definition existing_index :: "(string \<Rightarrow> string) \<Rightarrow> roadmap option \<Rightarrow> (string, string) dict" where
  "existing_index sha existing = (case existing of None \<Rightarrow> []
     | Some r \<Rightarrow> fold (index_initiative sha) (rm_initiatives r) [])"

definition max_index :: "(string, string) dict \<Rightarrow> string \<Rightarrow> nat" where
  "max_index prior pfx = fold (\<lambda>sid out. if prefix pfx sid
      then (case py_int (hd (py_split (CHR ''.'') (drop (length pfx) sid))) of
              None \<Rightarrow> out | Some n \<Rightarrow> max out (nat n)) else out) (map snd prior) 0"

text \<open>\<open>prior.get(h) or f"..."\<close>\<close>

definition pick_id :: "(string, string) dict \<Rightarrow> string \<Rightarrow> string \<Rightarrow> string" where
  "pick_id prior h minted = (case map_of prior h of Some (c # cs) \<Rightarrow> c # cs | _ \<Rightarrow> minted)"

definition next_slot :: "(string, string) dict \<Rightarrow> string \<Rightarrow> nat \<Rightarrow> nat" where
  "next_slot prior h n = (if map_of prior h = None then n + 1 else n)"

type_synonym claims = "(string, string) dict"

fun allocate_stories ::
  "(string \<Rightarrow> string) \<Rightarrow> claims \<Rightarrow> string \<Rightarrow> string \<Rightarrow> nat \<Rightarrow> string list \<Rightarrow> claims \<Rightarrow> claims" where
  "allocate_stories sha prior epic_id pfx next [] assigned = assigned"
| "allocate_stories sha prior epic_id pfx next (title # ts) assigned =
     (let sh = canonical_hash sha [''story'', epic_id, title] in
      allocate_stories sha prior epic_id pfx (next_slot prior sh next) ts
        (AList.update sh (pick_id prior sh (pfx @ str_nat next)) assigned))"

definition story_prefix :: "string \<Rightarrow> (plan_error, string) res" where
  "story_prefix epic_id = (case py_split (CHR ''-'') epic_id of
     _ # s # _ \<Rightarrow> (case py_split (CHR ''.'') s of
         [n2, m] \<Rightarrow> Inr (''STORY-'' @ n2 @ ''.'' @ m @ ''.'') | _ \<Rightarrow> Inl Unpack_error)
   | _ \<Rightarrow> Inl Index_error)"

fun allocate_epics ::
  "(string \<Rightarrow> string) \<Rightarrow> claims \<Rightarrow> string \<Rightarrow> string \<Rightarrow> nat \<Rightarrow> epic_shape list \<Rightarrow> claims \<Rightarrow> (plan_error, claims) res" where
  "allocate_epics sha prior init_id pfx next [] assigned = Inr assigned"
| "allocate_epics sha prior init_id pfx next (e # es) assigned =
     (let eh = canonical_hash sha [''epic'', init_id, es_title e, es_description e];
          epic_id = pick_id prior eh (pfx @ str_nat next) in
      rbind (story_prefix epic_id) (\<lambda>sp.
        allocate_epics sha prior init_id pfx (next_slot prior eh next) es
          (allocate_stories sha prior epic_id sp (max_index prior sp + 1) (es_stories e)
            (AList.update eh epic_id assigned))))"

definition epic_prefix :: "string \<Rightarrow> (plan_error, string) res" where
  "epic_prefix init_id = (case py_split (CHR ''-'') init_id of
     _ # n # _ \<Rightarrow> Inr (''EPIC-'' @ n @ ''.'') | _ \<Rightarrow> Inl Index_error)"

fun allocate_inits ::
  "(string \<Rightarrow> string) \<Rightarrow> claims \<Rightarrow> nat \<Rightarrow> init_shape list \<Rightarrow> claims \<Rightarrow> (plan_error, claims) res" where
  "allocate_inits sha prior next [] assigned = Inr assigned"
| "allocate_inits sha prior next (i # is) assigned =
     (let ih = canonical_hash sha [''init'', is_title i, is_why i];
          init_id = pick_id prior ih (''INIT-'' @ str_nat next) in
      rbind (epic_prefix init_id) (\<lambda>ep.
      rbind (allocate_epics sha prior init_id ep (max_index prior ep + 1) (is_epics i)
              (AList.update ih init_id assigned)) (\<lambda>assigned'.
        allocate_inits sha prior (next_slot prior ih next) is assigned')))"

text \<open>Every hash that is seen is assigned, so \<open>seen\<close> is the set of keys of \<open>assigned\<close>.\<close>

definition allocate_ids ::
  "(string \<Rightarrow> string) \<Rightarrow> init_shape list \<Rightarrow> roadmap option \<Rightarrow> (plan_error, allocation) res" where
  "allocate_ids sha shape existing =
     (let prior = existing_index sha existing in
      rbind (allocate_inits sha prior (max_index prior ''INIT-'' + 1) shape []) (\<lambda>assigned.
        Inr \<lparr>al_assigned = assigned,
             al_retired_ids = map snd (filter (\<lambda>(h, sid). h \<notin> fst ` set assigned) prior)\<rparr>))"

section \<open>Decomposition\<close>

definition lookup_id :: "claims \<Rightarrow> string \<Rightarrow> (plan_error, string) res" where
  "lookup_id assigned h = (case map_of assigned h of None \<Rightarrow> Inl Key_error | Some i \<Rightarrow> Inr i)"

definition opt_json :: "string option \<Rightarrow> json" where
  "opt_json t = (case t of None \<Rightarrow> JNull | Some s \<Rightarrow> JStr s)"

definition component_json :: "component \<Rightarrow> json" where
  "component_json c = JDict [(''name'', JStr (cp_name c)), (''responsibility'', JStr (cp_responsibility c)),
     (''technology'', opt_json (cp_technology c))]"

definition integration_json :: "integration \<Rightarrow> json" where
  "integration_json i = JDict [(''name'', JStr (ig_name i)), (''direction'', JStr (direction_value (ig_direction i))),
     (''protocol'', JStr (ig_protocol i)), (''auth'', JStr (ig_auth i))]"

definition trd_slice_for :: "epic_kind \<Rightarrow> trd \<Rightarrow> json" where
  "trd_slice_for kind t = (case kind of
     Component_kind \<Rightarrow> JDict [(''components'', JList (map component_json (trd_components t)))]
   | Integration_kind \<Rightarrow> JDict [(''integrations'', JList (map integration_json (trd_integrations t)))]
   | Nfr_kind \<Rightarrow> JDict [(''nfrs'', JDict (map (\<lambda>(k, v). (k, JStr v)) (nfr_concerns t)))]
   | Default_kind \<Rightarrow> JDict [(''architecture'', JDict [(''system_overview'', JStr (trd_system_overview t)),
        (''components'', JList (map component_json (trd_components t))), (''data_flow'', JStr (trd_data_flow t))])])"

definition materialise_story ::
  "(string \<Rightarrow> string) \<Rightarrow> claims \<Rightarrow> trd \<Rightarrow> priority \<Rightarrow> epic_kind \<Rightarrow> string \<Rightarrow> string \<Rightarrow> (plan_error, story) res" where
  "materialise_story sha assigned t prio kind epic_id title =
     rbind (lookup_id assigned (canonical_hash sha [''story'', epic_id, title])) (\<lambda>sid.
       let sz = estimate_size title (Some (trd_slice_for kind t)) None in
       make_story sid title prio (sz_size sz) (sz_estimated_cost_usd sz) (sz_estimated_duration_label sz))"

definition materialise_epic ::
  "(string \<Rightarrow> string) \<Rightarrow> claims \<Rightarrow> trd \<Rightarrow> priority \<Rightarrow> string \<Rightarrow> epic_shape \<Rightarrow> (plan_error, epic) res" where
  "materialise_epic sha assigned t prio init_id e =
     rbind (lookup_id assigned (canonical_hash sha [''epic'', init_id, es_title e, es_description e])) (\<lambda>eid.
     rbind (rmap (materialise_story sha assigned t prio (es_kind e) eid) (es_stories e)) (\<lambda>ss.
       make_epic eid (es_title e) (es_description e) ss))"

definition materialise_initiative ::
  "(string \<Rightarrow> string) \<Rightarrow> claims \<Rightarrow> trd \<Rightarrow> init_shape \<Rightarrow> (plan_error, initiative) res" where
  "materialise_initiative sha assigned t i =
     rbind (lookup_id assigned (canonical_hash sha [''init'', is_title i, is_why i])) (\<lambda>iid.
     rbind (rmap (materialise_epic sha assigned t (is_priority i) iid) (is_epics i)) (\<lambda>es.
       make_initiative iid (is_title i) (is_tier i) (is_priority i) (is_why i) es))"

definition materialise ::
  "(string \<Rightarrow> string) \<Rightarrow> init_shape list \<Rightarrow> allocation \<Rightarrow> trd \<Rightarrow> (plan_error, initiative list) res" where
  "materialise sha shape alloc t = rmap (materialise_initiative sha (al_assigned alloc) t) shape"

definition all_stories :: "initiative list \<Rightarrow> story list" where
  "all_stories is = concat (map ep_stories (concat (map in_epics is)))"

text \<open>
  The stories in the flat list are the objects inside the epics; the updated ones are put back
  where they came from.
\<close>

fun put_epics :: "epic list \<Rightarrow> story list \<Rightarrow> epic list \<times> story list" where
  "put_epics [] ss = ([], ss)"
| "put_epics (e # es) ss = (let n = length (ep_stories e); r = put_epics es (drop n ss) in
     (e\<lparr>ep_stories := take n ss\<rparr> # fst r, snd r))"

fun put_stories :: "initiative list \<Rightarrow> story list \<Rightarrow> initiative list" where
  "put_stories [] ss = []"
| "put_stories (i # is) ss = (let r = put_epics (in_epics i) ss in
     i\<lparr>in_epics := fst r\<rparr> # put_stories is (snd r))"

definition decompose ::
  "(string \<Rightarrow> string) \<Rightarrow> nat \<Rightarrow> (string list \<Rightarrow> string list) option \<Rightarrow> prd \<Rightarrow> trd \<Rightarrow> roadmap option \<Rightarrow>
   (plan_error, roadmap) res" where
  "decompose sha limit kg p t existing =
     (if prd_project_id p \<noteq> trd_project_id t then Inl Project_id_mismatch else
      let shape = initiatives_from_prd p t in
      rbind (allocate_ids sha shape existing) (\<lambda>alloc.
      rbind (materialise sha shape alloc t) (\<lambda>initiatives.
      let stories = all_stories initiatives in
      rbind (detect_dependencies limit kg stories) (\<lambda>deps.
      let stories' = apply_dependencies stories deps in
      rbind (sequence_sprints stories' deps) (\<lambda>sprints.
        make_roadmap (prd_project_id p) (''prd-v1:'' @ prd_project_id p) (''trd-v1:'' @ trd_project_id t)
          (put_stories initiatives stories') sprints
          (if al_retired_ids alloc = [] then ''planner''
           else ''planner (retired='' @ join_with '','' (al_retired_ids alloc) @ '')''))))))"


section \<open>No epic is lost\<close>

definition placed :: "epic_shape list \<Rightarrow> nat \<times> init_shape list \<Rightarrow> bool" where
  "placed pool st \<longleftrightarrow> concat (map is_epics (snd st)) = take (fst st) pool"

lemma placed_add_cluster: "placed pool st \<Longrightarrow> placed pool (add_cluster p pool n l pr k ic st)"
  by (simp add: placed_def add_cluster_def Let_def take_add)

lemma placed_fold_cluster: "placed pool st \<Longrightarrow> placed pool (fold (add_cluster p pool n l pr k) ics st)"
  by (induction ics arbitrary: st) (simp_all add: placed_add_cluster)

lemma placed_add_tier: "placed pool st \<Longrightarrow> placed pool (add_tier p pool n tier st)"
  by (simp add: add_tier_def placed_fold_cluster Let_def split: prod.split)

lemma placed_fold_tier: "placed pool st \<Longrightarrow> placed pool (fold (add_tier p pool n) tiers st)"
  by (induction tiers arbitrary: st) (simp_all add: placed_add_tier)

lemma extend_first_epics:
  "shape \<noteq> [] \<Longrightarrow> mset (concat (map is_epics (extend_first xs shape))) = mset (concat (map is_epics shape)) + mset xs"
  by (cases shape) (simp_all add: extend_first_def)

lemma extend_first_Nil: "extend_first xs shape = [] \<longleftrightarrow> shape = []"
  by (cases shape) (simp_all add: extend_first_def)

lemma pool_not_empty: "epic_candidates_from_trd t \<noteq> []"
  by (simp add: epic_candidates_from_trd_def Let_def)

lemma shape_covers_pool:
  "mset (concat (map is_epics (initiatives_from_prd p t))) = mset (epic_candidates_from_trd t)"
proof -
  let ?pool = "epic_candidates_from_trd t"
  let ?n = "max 1 (length (filter (\<lambda>(l, gs, pr). gs \<noteq> []) (prd_tiers p)))"
  let ?st = "fold (add_tier p ?pool ?n) (prd_tiers p) (0, [])"
  have pl: "concat (map is_epics (snd ?st)) = take (fst ?st) ?pool"
    using placed_fold_tier [of ?pool "(0, [])" p ?n "prd_tiers p"] by (simp add: placed_def)
  show ?thesis
  proof (cases "snd ?st = []")
    case True
    then show ?thesis
      by (simp add: initiatives_from_prd_def Let_def extend_first_Nil pool_not_empty)
  next
    case False
    then have "initiatives_from_prd p t = extend_first (drop (fst ?st) ?pool) (snd ?st)"
      by (simp only: initiatives_from_prd_def Let_def extend_first_Nil if_False)
    then have "mset (concat (map is_epics (initiatives_from_prd p t))) =
        mset (take (fst ?st) ?pool) + mset (drop (fst ?st) ?pool)"
      by (simp only: extend_first_epics [OF False] pl)
    also have "\<dots> = mset ?pool" by (metis append_take_drop_id mset_append)
    finally show ?thesis .
  qed
qed

section \<open>Ids\<close>

lemma fold_increasing: "(\<And>x n. n \<le> f x n) \<Longrightarrow> n \<le> fold f xs (n :: nat)"
  by (induction xs arbitrary: n) (auto intro: order_trans)

lemma max_index_ge:
  assumes "sid \<in> snd ` set prior" and "prefix pfx sid"
    and "py_int (hd (py_split (CHR ''.'') (drop (length pfx) sid))) = Some n"
  shows "nat n \<le> max_index prior pfx"
proof -
  let ?f = "\<lambda>sid out. if prefix pfx sid
      then (case py_int (hd (py_split (CHR ''.'') (drop (length pfx) sid))) of
              None \<Rightarrow> out | Some n \<Rightarrow> max out (nat n)) else out"
  have inc: "out \<le> ?f x out" for x out by (simp split: option.split)
  obtain ys zs where "map snd prior = ys @ sid # zs"
    using assms(1) by (metis image_set split_list)
  then have "max_index prior pfx = fold ?f zs (?f sid (fold ?f ys 0))" by (simp add: max_index_def)
  moreover have "nat n \<le> ?f sid (fold ?f ys 0)" using assms(2,3) by simp
  moreover have "?f sid (fold ?f ys 0) \<le> fold ?f zs (?f sid (fold ?f ys 0))" by (rule fold_increasing) (rule inc)
  ultimately show ?thesis by linarith
qed

lemma minted_fresh: "max_index prior pfx < k \<Longrightarrow> pfx @ str_nat k \<notin> snd ` set prior"
proof
  assume k: "max_index prior pfx < k" and mem: "pfx @ str_nat k \<in> snd ` set prior"
  have "CHR ''.'' \<notin> set (str_nat k)" using str_nat_re_digits digit_plain by blast
  then have "py_int (hd (py_split (CHR ''.'') (drop (length pfx) (pfx @ str_nat k)))) = Some (int k)"
    by (simp add: py_split_none py_int_str_nat)
  from max_index_ge [OF mem _ this] k show False by simp
qed

text \<open>An assignment keeps the id a hash had before, and gives a new hash an id nobody had.\<close>

definition keeps_id :: "claims \<Rightarrow> string \<Rightarrow> string \<Rightarrow> bool" where
  "keeps_id prior h i = (case map_of prior h of None \<Rightarrow> i \<notin> snd ` set prior | Some j \<Rightarrow> i = j \<or> j = [])"

definition keeps_ids :: "claims \<Rightarrow> claims \<Rightarrow> bool" where
  "keeps_ids prior assigned \<longleftrightarrow> (\<forall>(h, i) \<in> set assigned. keeps_id prior h i)"

lemma keeps_id_pick: "max_index prior pfx < k \<Longrightarrow> keeps_id prior h (pick_id prior h (pfx @ str_nat k))"
  using minted_fresh [of prior pfx k]
  by (simp add: keeps_id_def pick_id_def split: option.split list.split)

lemma keeps_ids_pick:
  assumes "keeps_ids prior assigned" and "max_index prior pfx < k"
  shows "keeps_ids prior (AList.update h (pick_id prior h (pfx @ str_nat k)) assigned)"
  using assms(1) set_update_subset [of h "pick_id prior h (pfx @ str_nat k)" assigned] keeps_id_pick [OF assms(2)]
  unfolding keeps_ids_def by fast

lemma next_slot_gt: "m < n \<Longrightarrow> m < next_slot prior h n"
  by (simp add: next_slot_def)

lemma keeps_ids_stories:
  "keeps_ids prior assigned \<Longrightarrow> max_index prior pfx < k \<Longrightarrow>
     keeps_ids prior (allocate_stories sha prior eid pfx k ts assigned)"
  by (induction ts arbitrary: k assigned) (simp_all add: Let_def keeps_ids_pick next_slot_gt)

lemma keeps_ids_epics:
  "allocate_epics sha prior iid pfx k es assigned = Inr assigned' \<Longrightarrow> keeps_ids prior assigned \<Longrightarrow>
     max_index prior pfx < k \<Longrightarrow> keeps_ids prior assigned'"
  by (induction es arbitrary: k assigned)
    (auto simp: Let_def rbind_eq_Inr keeps_ids_pick keeps_ids_stories next_slot_gt)

lemma keeps_ids_inits:
  "allocate_inits sha prior k is assigned = Inr assigned' \<Longrightarrow> keeps_ids prior assigned \<Longrightarrow>
     max_index prior ''INIT-'' < k \<Longrightarrow> keeps_ids prior assigned'"
proof (induction "is" arbitrary: k assigned)
  case (Cons i "is")
  let ?h = "canonical_hash sha [''init'', is_title i, is_why i]"
  let ?id = "pick_id prior ?h (''INIT-'' @ str_nat k)"
  obtain ep mid where ep: "epic_prefix ?id = Inr ep"
    and mid: "allocate_epics sha prior ?id ep (max_index prior ep + 1) (is_epics i) (AList.update ?h ?id assigned) = Inr mid"
    and rest: "allocate_inits sha prior (next_slot prior ?h k) is mid = Inr assigned'"
    using Cons.prems(1) by (auto simp: Let_def rbind_eq_Inr)
  have "keeps_ids prior (AList.update ?h ?id assigned)" by (rule keeps_ids_pick [OF Cons.prems(2,3)])
  with mid have "keeps_ids prior mid" by (rule keeps_ids_epics) simp
  with rest Cons.prems(3) show ?case by (intro Cons.IH [OF rest]) (simp_all add: next_slot_gt)
qed simp



definition demo_prior :: roadmap where
  "demo_prior = \<lparr>rm_project_id = ''p'', rm_prd_ref = ''r'', rm_trd_ref = ''t'',
     rm_initiatives = [\<lparr>in_id = ''INIT-3'', in_title = ''a'', in_tier = 1, in_priority = P0, in_why = ''w'', in_epics = []\<rparr>],
     rm_epics = [], rm_stories = [], rm_sprint_plan = [], rm_created_by = ''planner'', rm_status = Draft\<rparr>"

definition demo_shape :: "string \<Rightarrow> init_shape" where
  "demo_shape title = \<lparr>is_title = title, is_why = ''w'', is_tier = 1, is_priority = P0, is_epics = []\<rparr>"


section \<open>The whole decomposition\<close>

lemma rmap_map: "rmap f xs = Inr ys \<Longrightarrow> (\<And>x y. f x = Inr y \<Longrightarrow> g y = h x) \<Longrightarrow> map g ys = map h xs"
  by (induction xs arbitrary: ys) (auto simp: rbind_eq_Inr)

lemma rmap_all: "rmap f xs = Inr ys \<Longrightarrow> (\<And>x y. f x = Inr y \<Longrightarrow> P y) \<Longrightarrow> \<forall>y \<in> set ys. P y"
  by (induction xs arbitrary: ys) (auto simp: rbind_eq_Inr)

lemma rmap_Inr_mem: "rmap f xs = Inr ys \<Longrightarrow> x \<in> set xs \<Longrightarrow> \<exists>y. f x = Inr y"
  by (induction xs arbitrary: ys) (auto simp: rbind_eq_Inr)

lemma materialise_story_fields:
  "materialise_story sha as t pr k eid title = Inr s \<Longrightarrow> st_title s = py_strip title \<and> valid_story_id (st_id s)"
  by (auto simp: materialise_story_def rbind_eq_Inr Let_def valid_story_id_def dest!: make_story_fields)

lemma materialise_epic_fields:
  assumes "materialise_epic sha as t pr iid e = Inr ep"
  shows "ep_title ep = py_strip (es_title e)" and "map st_title (ep_stories ep) = map py_strip (es_stories e)"
    and "\<forall>s \<in> set (ep_stories ep). valid_story_id (st_id s)"
    and "\<not> is_empty_or_tbd (Some (py_strip (es_description e)))"
proof -
  obtain eid ss where ss: "rmap (materialise_story sha as t pr (es_kind e) eid) (es_stories e) = Inr ss"
    and ep: "make_epic eid (es_title e) (es_description e) ss = Inr ep"
    using assms by (auto simp: materialise_epic_def rbind_eq_Inr)
  from ep show "ep_title ep = py_strip (es_title e)" "\<not> is_empty_or_tbd (Some (py_strip (es_description e)))"
    by (auto simp: make_epic_def rbind_eq_Inr)
  have "ep_stories ep = ss" using ep by (auto simp: make_epic_def rbind_eq_Inr)
  then show "map st_title (ep_stories ep) = map py_strip (es_stories e)"
    "\<forall>s \<in> set (ep_stories ep). valid_story_id (st_id s)"
    using rmap_map [OF ss, of st_title py_strip] rmap_all [OF ss, of "\<lambda>s. valid_story_id (st_id s)"]
      materialise_story_fields by blast+
qed

lemma materialise_initiative_fields:
  assumes "materialise_initiative sha as t i = Inr ini"
  shows "map ep_title (in_epics ini) = map (py_strip \<circ> es_title) (is_epics i)"
    and "map (\<lambda>e. map st_title (ep_stories e)) (in_epics ini) = map (\<lambda>e. map py_strip (es_stories e)) (is_epics i)"
    and "\<forall>e \<in> set (in_epics ini). \<forall>s \<in> set (ep_stories e). valid_story_id (st_id s)"
    and "\<forall>e \<in> set (is_epics i). \<not> is_empty_or_tbd (Some (py_strip (es_description e)))"
proof -
  obtain iid where es: "rmap (materialise_epic sha as t (is_priority i) iid) (is_epics i) = Inr (in_epics ini)"
    using assms by (auto simp: materialise_initiative_def make_initiative_def rbind_eq_Inr split: if_splits)
  show "map ep_title (in_epics ini) = map (py_strip \<circ> es_title) (is_epics i)"
    by (rule rmap_map [OF es]) (simp add: materialise_epic_fields(1))
  show "map (\<lambda>e. map st_title (ep_stories e)) (in_epics ini) = map (\<lambda>e. map py_strip (es_stories e)) (is_epics i)"
    by (rule rmap_map [OF es]) (rule materialise_epic_fields(2))
  show "\<forall>e \<in> set (in_epics ini). \<forall>s \<in> set (ep_stories e). valid_story_id (st_id s)"
    by (rule rmap_all [OF es]) (rule materialise_epic_fields(3))
  show "\<forall>e \<in> set (is_epics i). \<not> is_empty_or_tbd (Some (py_strip (es_description e)))"
    using rmap_Inr_mem [OF es] materialise_epic_fields(4) by blast
qed

definition all_epics :: "initiative list \<Rightarrow> epic list" where
  "all_epics is = concat (map in_epics is)"

lemma materialise_fields:
  assumes "materialise sha shape alloc t = Inr is"
  shows "map ep_title (all_epics is) = map (py_strip \<circ> es_title) (concat (map is_epics shape))"
    and "map st_title (all_stories is) = map py_strip (concat (map es_stories (concat (map is_epics shape))))"
    and "\<forall>s \<in> set (all_stories is). valid_story_id (st_id s)"
proof -
  note m = assms [unfolded materialise_def]
  have "map (\<lambda>i. map ep_title (in_epics i)) is = map (\<lambda>i. map (py_strip \<circ> es_title) (is_epics i)) shape"
    by (rule rmap_map [OF m]) (rule materialise_initiative_fields(1))
  then show "map ep_title (all_epics is) = map (py_strip \<circ> es_title) (concat (map is_epics shape))"
    by (simp add: all_epics_def map_concat comp_def)
  have "map (\<lambda>i. map (\<lambda>e. map st_title (ep_stories e)) (in_epics i)) is =
      map (\<lambda>i. map (\<lambda>e. map py_strip (es_stories e)) (is_epics i)) shape"
    by (rule rmap_map [OF m]) (rule materialise_initiative_fields(2))
  then have "concat (concat (map (\<lambda>i. map (\<lambda>e. map st_title (ep_stories e)) (in_epics i)) is)) =
      concat (concat (map (\<lambda>i. map (\<lambda>e. map py_strip (es_stories e)) (is_epics i)) shape))" by simp
  then show "map st_title (all_stories is) = map py_strip (concat (map es_stories (concat (map is_epics shape))))"
    by (simp add: all_stories_def map_concat comp_def)
  have "\<forall>i \<in> set is. \<forall>e \<in> set (in_epics i). \<forall>s \<in> set (ep_stories e). valid_story_id (st_id s)"
    by (rule rmap_all [OF m]) (rule materialise_initiative_fields(3))
  then show "\<forall>s \<in> set (all_stories is). valid_story_id (st_id s)" by (auto simp: all_stories_def)
qed


lemma st_fields_add_dependency [simp]: "st_id (add_dependency d s) = st_id s" "st_title (add_dependency d s) = st_title s"
  by (simp_all add: add_dependency_def)

lemma map_update_first: "(\<And>x. g (f x) = g x) \<Longrightarrow> map g (update_first P f xs) = map g xs"
  by (induction xs) simp_all

lemma map_apply_dependencies:
  assumes "\<And>d s. g (add_dependency d s) = g s"
  shows "map g (apply_dependencies ss es) = map g ss"
proof -
  have "map g (apply_dependency e ss) = map g ss" for e ss
    using map_update_first [of g "add_dependency (sd_from_story_id e)" "\<lambda>s. st_id s = sd_to_story_id e" "rev ss"] assms
    by (simp add: apply_dependency_def flip: rev_map)
  then show ?thesis unfolding apply_dependencies_def by (induction es arbitrary: ss) simp_all
qed

lemma put_epics_props:
  "length (concat (map ep_stories es)) \<le> length ss \<Longrightarrow>
     concat (map ep_stories (fst (put_epics es ss))) @ snd (put_epics es ss) = ss \<and>
     map ep_title (fst (put_epics es ss)) = map ep_title es \<and>
     length (snd (put_epics es ss)) = length ss - length (concat (map ep_stories es))"
  by (induction es arbitrary: ss) (simp_all add: Let_def)

lemma put_stories_props:
  "length ss = length (all_stories is) \<Longrightarrow>
     all_stories (put_stories is ss) = ss \<and> map ep_title (all_epics (put_stories is ss)) = map ep_title (all_epics is)"
proof (induction "is" arbitrary: ss)
  case (Cons i "is")
  let ?r = "put_epics (in_epics i) ss"
  have r: "concat (map ep_stories (fst ?r)) @ snd ?r = ss" "map ep_title (fst ?r) = map ep_title (in_epics i)"
      "length (snd ?r) = length ss - length (concat (map ep_stories (in_epics i)))"
    using put_epics_props [of "in_epics i" ss] Cons.prems by (simp_all add: all_stories_def)
  then have "length (snd ?r) = length (all_stories is)" using Cons.prems by (simp add: all_stories_def)
  from Cons.IH [OF this] r show ?case by (simp add: all_stories_def all_epics_def Let_def)
qed (simp add: all_stories_def)

lemma mset_concat_map: "mset (concat (map f xs)) = sum_mset (image_mset (mset \<circ> f) (mset xs))"
  by (induction xs) simp_all

lemma decompose_cases:
  assumes "decompose sha limit kg p t existing = Inr rm"
  obtains alloc "is" deps where "materialise sha (initiatives_from_prd p t) alloc t = Inr is"
    and "sequence_sprints (rm_stories rm) deps = Inr (rm_sprint_plan rm)"
    and "rm_stories rm = apply_dependencies (all_stories is) deps"
    and "map ep_title (rm_epics rm) = map ep_title (all_epics is)"
proof -
  have "prd_project_id p = trd_project_id t" using assms by (cases "prd_project_id p = trd_project_id t") (simp_all add: decompose_def)
  then obtain alloc "is" deps sprints cb where m: "materialise sha (initiatives_from_prd p t) alloc t = Inr is"
    and sp: "sequence_sprints (apply_dependencies (all_stories is) deps) deps = Inr sprints"
    and rm: "make_roadmap (prd_project_id p) (''prd-v1:'' @ prd_project_id p) (''trd-v1:'' @ trd_project_id t)
        (put_stories is (apply_dependencies (all_stories is) deps)) sprints cb = Inr rm"
    using assms unfolding decompose_def Let_def by (simp only: rbind_eq_Inr if_False not_True_eq_False simp_thms) blast
  let ?ss = "apply_dependencies (all_stories is) deps"
  have "length ?ss = length (all_stories is)"
    using map_apply_dependencies [of st_id "all_stories is" deps] by (metis length_map st_fields_add_dependency(1))
  note put = put_stories_props [OF this]
  have "rm_stories rm = all_stories (put_stories is ?ss)" "rm_epics rm = all_epics (put_stories is ?ss)"
      "rm_sprint_plan rm = sprints"
    using rm by (auto simp: make_roadmap_def rbind_eq_Inr all_stories_def all_epics_def)
  with put m sp that show thesis by simp
qed

text \<open>
  Claim C35. The decomposition loses nothing: whenever it returns a roadmap, the epics are exactly the
  candidates of the TRD, one for each component, integration and filled-in concern, the stories are
  exactly the stories of those candidates, and the sprint plan holds the id of every story and
  repeats none.
\<close>

theorem decompose_loses_nothing:
  assumes "decompose sha limit kg p t existing = Inr rm"
  shows "mset (map ep_title (rm_epics rm)) = mset (map (py_strip \<circ> es_title) (epic_candidates_from_trd t)) \<and>
    mset (map st_title (rm_stories rm)) = mset (map py_strip (concat (map es_stories (epic_candidates_from_trd t)))) \<and>
    set (concat (map sp_stories (rm_sprint_plan rm))) = st_id ` set (rm_stories rm) \<and>
    distinct (concat (map sp_stories (rm_sprint_plan rm)))"
proof -
  obtain alloc "is" deps where m: "materialise sha (initiatives_from_prd p t) alloc t = Inr is"
    and sp: "sequence_sprints (rm_stories rm) deps = Inr (rm_sprint_plan rm)"
    and ss: "rm_stories rm = apply_dependencies (all_stories is) deps"
    and ep: "map ep_title (rm_epics rm) = map ep_title (all_epics is)"
    by (rule decompose_cases [OF assms])
  let ?shape = "initiatives_from_prd p t" and ?pool = "epic_candidates_from_trd t"
  note f = materialise_fields [OF m]
  have titles: "map st_title (rm_stories rm) = map st_title (all_stories is)"
    and ids: "map st_id (rm_stories rm) = map st_id (all_stories is)"
    unfolding ss by (rule map_apply_dependencies, simp)+
  have pool: "mset (concat (map is_epics ?shape)) = mset ?pool" by (rule shape_covers_pool)
  then have "mset (map (py_strip \<circ> es_title) (concat (map is_epics ?shape))) = mset (map (py_strip \<circ> es_title) ?pool)"
    by (simp only: mset_map)
  moreover have "mset (concat (map es_stories (concat (map is_epics ?shape)))) = mset (concat (map es_stories ?pool))"
    using pool by (simp only: mset_concat_map)
  then have "mset (map py_strip (concat (map es_stories (concat (map is_epics ?shape))))) =
      mset (map py_strip (concat (map es_stories ?pool)))" by (simp only: mset_map)
  moreover have "\<forall>s \<in> set (rm_stories rm). valid_story_id (st_id s)"
    using f(3) ids by (metis (no_types, lifting) image_iff image_set)
  then have "set (concat (map sp_stories (rm_sprint_plan rm))) = st_id ` set (rm_stories rm) \<and>
      distinct (concat (map sp_stories (rm_sprint_plan rm)))"
    using sequence_sprints_sound [OF _ sp] by blast
  ultimately show ?thesis unfolding ep titles f(1,2) by blast
qed


definition demo_prd :: prd where
  "demo_prd = \<lparr>prd_project_id = ''p'', prd_project_name = ''P'', prd_problem_statement = ''x'',
     prd_must = [''g''], prd_should = [], prd_could = []\<rparr>"

definition demo_trd :: trd where
  "demo_trd = \<lparr>trd_project_id = ''p'', trd_system_overview = ''o'', trd_components = [], trd_data_flow = ''d'',
     trd_integrations = [], trd_performance = [], trd_security = [], trd_scalability = [],
     trd_observability = [], trd_cost = []\<rparr>"

lemma detect_single: "detect_dependencies (Suc n) kg [s] = Inr []"
  by (simp add: detect_dependencies_def heuristic_edges_def find_cycles_def graph_of_def Let_def dfs_start_def
      dfs_enter_def dfs_leave_def)

definition demo_init :: init_shape where
  "demo_init = \<lparr>is_title = ''[MUST] g'', is_why = ''x '' @ em_dash @ '' covers: g'',
     is_tier = 1, is_priority = P0, is_epics = [default_epic]\<rparr>"

definition demo_alloc :: allocation where
  "demo_alloc = \<lparr>al_assigned =
      [(canonical_hash id [''init'', is_title demo_init, is_why demo_init], ''INIT-1''),
       (canonical_hash id [''epic'', ''INIT-1'', es_title default_epic, es_description default_epic], ''EPIC-1.1''),
       (canonical_hash id [''story'', ''EPIC-1.1'', ''Bootstrap repository + CI pipeline''], ''STORY-1.1.1'')],
     al_retired_ids = []\<rparr>"

lemma demo_shape_eq: "initiatives_from_prd demo_prd demo_trd = [demo_init]" by code_simp

lemma demo_alloc_eq: "allocate_ids id [demo_init] None = Inr demo_alloc" by code_simp

lemma demo_lookups:
  "lookup_id (al_assigned demo_alloc) (canonical_hash id [''init'', is_title demo_init, is_why demo_init]) = Inr ''INIT-1''"
  "lookup_id (al_assigned demo_alloc)
     (canonical_hash id [''epic'', ''INIT-1'', es_title default_epic, es_description default_epic]) = Inr ''EPIC-1.1''"
  "lookup_id (al_assigned demo_alloc)
     (canonical_hash id [''story'', ''EPIC-1.1'', ''Bootstrap repository + CI pipeline'']) = Inr ''STORY-1.1.1''"
  by code_simp+

lemma demo_texts:
  "check_id STORY_RE ''Story.id'' (py_strip ''STORY-1.1.1'') = Inr ''STORY-1.1.1''"
  "check_text ''Story field'' (py_strip ''Bootstrap repository + CI pipeline'') = Inr ''Bootstrap repository + CI pipeline''"
  "\<not> isl (make_epic ''EPIC-1.1'' (es_title default_epic) (es_description default_epic) [])"
  "\<not> isl (make_initiative ''INIT-1'' (is_title demo_init) 1 P0 (is_why demo_init) [])"
  "\<not> isl (make_roadmap ''p'' ''prd-v1:p'' ''trd-v1:p'' [] [] ''planner'')"
  by code_simp+

lemma make_not_isl:
  "isl (make_epic i t d ss) = isl (make_epic i t d [])"
  "isl (make_initiative i t n pr w es) = isl (make_initiative i t n pr w [])"
  "isl (make_roadmap pid r1 r2 is sps cb) = isl (make_roadmap pid r1 r2 [] [] cb)"
  by (simp_all add: make_epic_def make_initiative_def make_roadmap_def check_id_def check_text_def)

lemma duration_ok: "\<exists>d. check_text l (py_strip (SIZE_DURATION z)) = Inr d"
proof -
  have "\<forall>z \<in> {XS, S, M, L, XL}. \<not> is_empty_or_tbd (Some (py_strip (SIZE_DURATION z)))" by code_simp
  then show ?thesis by (cases z) (auto simp: check_text_def)
qed

lemma demo_materialise: "\<exists>i s. materialise id [demo_init] demo_alloc demo_trd = Inr [i] \<and> all_stories [i] = [s]"
proof -
  let ?t = "''Bootstrap repository + CI pipeline''"
  obtain s where s: "materialise_story id (al_assigned demo_alloc) demo_trd P0 Default_kind ''EPIC-1.1'' ?t = Inr s"
  proof -
    let ?sz = "estimate_size ?t (Some (trd_slice_for Default_kind demo_trd)) None"
    have "sz_estimated_duration_label ?sz = SIZE_DURATION (sz_size ?sz)" by (simp add: estimate_size_def Let_def)
    then obtain d where "check_text ''Story field'' (py_strip (sz_estimated_duration_label ?sz)) = Inr d"
      using duration_ok by metis
    with that show thesis
      by (simp only: materialise_story_def demo_lookups make_story_def demo_texts rbind_Inr Let_def)
  qed
  obtain e where e: "make_epic ''EPIC-1.1'' (es_title default_epic) (es_description default_epic) [s] = Inr e"
    using demo_texts(3) make_not_isl(1) by (metis isl_def old.sum.exhaust)
  obtain i where i: "make_initiative ''INIT-1'' (is_title demo_init) 1 P0 (is_why demo_init) [e] = Inr i"
    using demo_texts(4) make_not_isl(2) by (metis isl_def old.sum.exhaust)
  have fields: "es_stories default_epic = [?t]" "es_kind default_epic = Default_kind" "is_epics demo_init = [default_epic]"
      "is_priority demo_init = P0" "is_tier demo_init = 1"
    by (simp_all add: default_epic_def demo_init_def)
  have "materialise_epic id (al_assigned demo_alloc) demo_trd P0 ''INIT-1'' default_epic = Inr e"
    by (simp only: materialise_epic_def demo_lookups fields rbind_Inr rmap.simps s e)
  then have "materialise id [demo_init] demo_alloc demo_trd = Inr [i]"
    by (simp only: materialise_def materialise_initiative_def demo_lookups fields rbind_Inr rmap.simps i)
  moreover have "all_stories [i] = [s]"
    using e i by (auto simp: all_stories_def make_epic_def make_initiative_def rbind_eq_Inr split: if_splits)
  ultimately show ?thesis by blast
qed

theorem decompose_loses_nothing_witness:
  "\<exists>rm. decompose id 1 None demo_prd demo_trd None = Inr rm \<and>
     mset (map ep_title (rm_epics rm)) = {#''Initial scaffolding''#} \<and>
     mset (map st_title (rm_stories rm)) = {#''Bootstrap repository + CI pipeline''#}"
proof -
  obtain i s where m: "materialise id [demo_init] demo_alloc demo_trd = Inr [i]" "all_stories [i] = [s]"
    using demo_materialise by blast
  have "\<forall>x \<in> set (apply_dependencies [s] []). valid_story_id (st_id x)"
    using materialise_fields(3) [OF m(1)] m(2) by (simp add: apply_dependencies_def)
  then obtain sps where sps: "sequence_sprints (apply_dependencies [s] []) [] = Inr sps"
    using sequence_sprints_ok by blast
  obtain rm where rm: "make_roadmap ''p'' ''prd-v1:p'' ''trd-v1:p'' (put_stories [i] (apply_dependencies [s] [])) sps ''planner'' = Inr rm"
    using demo_texts(5) make_not_isl(3) by (metis isl_def old.sum.exhaust)
  have run: "decompose id 1 None demo_prd demo_trd None = Inr rm"
  proof -
    have f: "prd_project_id demo_prd = ''p''" "trd_project_id demo_trd = ''p''" "al_retired_ids demo_alloc = []"
      "''prd-v1:'' @ ''p'' = ''prd-v1:p''" "''trd-v1:'' @ ''p'' = ''trd-v1:p''"
      by (simp_all add: demo_prd_def demo_trd_def demo_alloc_def)
    show ?thesis
      unfolding decompose_def Let_def demo_shape_eq demo_alloc_eq m detect_single [of 0, unfolded One_nat_def [symmetric]]
        sps rbind_Inr f by (simp only: rm m sps rbind_Inr simp_thms if_True if_False)
  qed
  have "map (py_strip \<circ> es_title) (epic_candidates_from_trd demo_trd) = [''Initial scaffolding'']"
    "map py_strip (concat (map es_stories (epic_candidates_from_trd demo_trd))) = [''Bootstrap repository + CI pipeline'']"
    by code_simp+
  with decompose_loses_nothing [OF run] run show ?thesis by simp
qed

text \<open>
  A placeholder in a concern blocks the roadmap: the TRD accepts any text for performance,
  security, scalability, observability and cost, but when one of them reads \<open>TBD\<close>, \<open>n/a\<close> or another
  of the placeholder words, the epic built from it is refused, and \<open>decompose\<close> raises for every
  PRD and every knowledge graph.
\<close>

theorem placeholder_concern_blocks_roadmap:
  assumes "(concern, val) \<in> set (nfr_concerns t)" and "py_strip val \<noteq> []" and "is_empty_or_tbd (Some val)"
  shows "\<exists>e. decompose sha limit kg p t existing = Inl e"
proof (cases "decompose sha limit kg p t existing")
  case (Inr rm)
  then obtain alloc "is" where m: "materialise sha (initiatives_from_prd p t) alloc t = Inr is"
    by (rule decompose_cases)
  let ?e = "epic_from_nfr concern (py_strip val)"
  have "?e \<in> set (epics_from_nfrs t)" using assms(1,2) by (force simp: epics_from_nfrs_def)
  then have "?e \<in> set (epic_candidates_from_trd t)" by (auto simp: epic_candidates_from_trd_def Let_def)
  then have "?e \<in> set (concat (map is_epics (initiatives_from_prd p t)))"
    using shape_covers_pool mset_eq_setD by metis
  then obtain i where i: "i \<in> set (initiatives_from_prd p t)" "?e \<in> set (is_epics i)" by auto
  obtain ini where "materialise_initiative sha (al_assigned alloc) t i = Inr ini"
    using rmap_Inr_mem [OF m [unfolded materialise_def] i(1)] by blast
  from materialise_initiative_fields(4) [OF this] i(2) have "\<not> is_empty_or_tbd (Some (py_strip (es_description ?e)))" by blast
  with assms(3) show ?thesis by (simp add: epic_from_nfr_def is_empty_or_tbd_def)
qed blast

theorem placeholder_concern_blocks_roadmap_witness:
  "\<exists>e. decompose id 1 None demo_prd (demo_trd\<lparr>trd_cost := ''TBD''\<rparr>) None = Inl e"
proof (rule placeholder_concern_blocks_roadmap)
  show "(''cost'', ''TBD'') \<in> set (nfr_concerns (demo_trd\<lparr>trd_cost := ''TBD''\<rparr>))" by (simp add: nfr_concerns_def)
  show "py_strip ''TBD'' \<noteq> []" "is_empty_or_tbd (Some ''TBD'')" by code_simp+
qed

end
