(* ===== verification/Pipeline_Manifest.thy ===== *)
theory Pipeline_Manifest
  imports Json Regex "HOL-Library.List_Lexorder" "HOL-Library.Char_ord"
begin

text \<open>
  \<open>plan/pipeline/manifest_loader.py\<close> and \<open>plan/pipeline/capability_checker.py\<close>: the merge of the
  shipped pipeline manifest with the overlays of the organisation, the team and the project, and the
  capability check on the result. A YAML document is a \<open>json\<close> value, with string keys and with
  its timestamps as text; ids are compared as such values. Every exception that an ill-shaped
  document causes (\<open>AttributeError\<close>, \<open>TypeError\<close>, pydantic's \<open>ValidationError\<close>) is the one error
  \<open>Shape_error\<close>. The files, SHA-256, the canonical JSON text, \<open>str\<close> of a list or mapping and
  pydantic's conversion to \<open>int\<close> are the fields of \<open>pipe_env\<close>.
\<close>

section \<open>Documents\<close>

type_synonym obj = "(string \<times> json) list"

datatype pipe_error =
    Shape_error
  | Capability_denied string string
  | Project_not_found
  | No_manifest_snapshot
  | Snapshot_unreadable
  | Migration_blocked
  | Database_error

record pipe_env =
  pe_default :: json
  pe_bundle :: "string option \<Rightarrow> json"
  pe_project_meta :: "string \<Rightarrow> json"
  pe_team :: "json \<Rightarrow> json"
  pe_sha :: "string \<Rightarrow> string"
  pe_canonical :: "obj \<Rightarrow> string"
  pe_repr :: "json \<Rightarrow> string"
  pe_lax_int :: "json \<Rightarrow> int option"

text \<open>\<open>d.get(k)\<close> on a mapping, and the idioms \<open>x or {}\<close> and \<open>for y in x or []\<close> on any value.\<close>

definition jget :: "obj \<Rightarrow> string \<Rightarrow> json" where
  "jget d k = (case map_of d k of None \<Rightarrow> JNull | Some v \<Rightarrow> v)"

definition as_obj :: "json \<Rightarrow> (pipe_error, obj) res" where
  "as_obj j = (case j of JDict d \<Rightarrow> Inr d | _ \<Rightarrow> Inl Shape_error)"

definition or_obj :: "json \<Rightarrow> (pipe_error, obj) res" where
  "or_obj j = (if truthy j then as_obj j else Inr [])"

definition or_list :: "json \<Rightarrow> (pipe_error, json list) res" where
  "or_list j = (if \<not> truthy j then Inr [] else case j of
     JList xs \<Rightarrow> Inr xs
   | JDict d \<Rightarrow> Inr (map (JStr \<circ> fst) d)
   | JStr s \<Rightarrow> Inr (map (\<lambda>c. JStr [c]) s)
   | _ \<Rightarrow> Inl Shape_error)"

definition hashable :: "json \<Rightarrow> bool" where
  "hashable j = (\<not> is_list j \<and> \<not> is_dict j)"

definition rcheck :: "bool \<Rightarrow> (pipe_error, unit) res" where
  "rcheck b = (if b then Inr () else Inl Shape_error)"

fun rfold :: "('a \<Rightarrow> 's \<Rightarrow> ('e, 's) res) \<Rightarrow> 'a list \<Rightarrow> 's \<Rightarrow> ('e, 's) res" where
  "rfold f [] s = Inr s"
| "rfold f (x # xs) s = rbind (f x s) (rfold f xs)"

section \<open>Merging\<close>

lemma sum_size_items: "(\<Sum>x\<leftarrow>d. Suc (size (snd x))) = sum_list (map (size_prod (\<lambda>x. 0) size) d)"
  by (induction d) auto

function deep_merge :: "obj \<Rightarrow> obj \<Rightarrow> obj" where
  "deep_merge dst [] = dst"
| "deep_merge dst ((k, v) # src) =
     deep_merge (AList.update k (case v of
         JDict sv \<Rightarrow> (case map_of dst k of Some (JDict dv) \<Rightarrow> JDict (deep_merge dv sv) | _ \<Rightarrow> v)
       | _ \<Rightarrow> v) dst) src"
  by pat_completeness auto
termination
  by (relation "measure (\<lambda>(dst, src). size_list (\<lambda>x. Suc (size (snd x))) src)")
    (auto simp: size_list_conv_sum_list sum_size_items o_def split_beta)

text \<open>\<open>_deep_merge(dst, src)\<close> where \<open>dst\<close> may be any value: only a mapping can be written to.\<close>

definition merge_json :: "json \<Rightarrow> json \<Rightarrow> (pipe_error, json) res" where
  "merge_json dst src = rbind (or_obj src) (\<lambda>s.
     if s = [] then Inr dst else rbind (as_obj dst) (\<lambda>d. Inr (JDict (deep_merge d s))))"

definition obj_id :: "json \<Rightarrow> (pipe_error, json) res" where
  "obj_id j = rbind (as_obj j) (\<lambda>d. Inr (jget d ''id''))"

text \<open>Merge a patch into every phase with the given id.\<close>

definition patch_phases :: "(json \<Rightarrow> (pipe_error, json) res) \<Rightarrow> string \<Rightarrow> json list \<Rightarrow> (pipe_error, json list) res" where
  "patch_phases f pid phases =
     rmap (\<lambda>p. rbind (obj_id p) (\<lambda>i. if i = JStr pid then f p else Inr p)) phases"

fun keep_phases :: "json \<Rightarrow> json list \<Rightarrow> (pipe_error, json list) res" where
  "keep_phases rm [] = Inr []"
| "keep_phases rm (p # ps) =
     rbind (obj_id p) (\<lambda>i.
     rbind (or_list rm) (\<lambda>rs.
     rbind (rcheck (list_all hashable rs \<and> hashable i)) (\<lambda>_.
     rbind (keep_phases rm ps) (\<lambda>ps'. Inr (if i \<in> set rs then ps' else p # ps')))))"

definition append_phase :: "json \<Rightarrow> json list \<Rightarrow> (pipe_error, json list) res" where
  "append_phase new out =
     (if out = [] then Inr [new] else
      rbind (obj_id new) (\<lambda>i. rbind (rmap obj_id out) (\<lambda>is.
        Inr (if i \<in> set is then out else out @ [new]))))"

definition phases_apply :: "json list \<Rightarrow> json \<Rightarrow> (pipe_error, json list) res" where
  "phases_apply base po_json =
     rbind (or_obj po_json) (\<lambda>po.
     rbind (keep_phases (jget po ''remove'') base) (\<lambda>out.
     rbind (or_obj (jget po ''modify'')) (\<lambda>mods.
     rbind (rfold (\<lambda>(pid, patch). patch_phases (\<lambda>p. merge_json p patch) pid) mods out) (\<lambda>out'.
     rbind (or_list (jget po ''append'')) (\<lambda>news. rfold append_phase news out')))))"

definition merge_gate :: "json \<Rightarrow> json \<Rightarrow> (pipe_error, json) res" where
  "merge_gate patch p = rbind (as_obj p) (\<lambda>d.
     let gate = (case map_of d ''gate'' of None \<Rightarrow> JDict [] | Some g \<Rightarrow> g) in
     rbind (merge_json gate patch) (\<lambda>g. Inr (JDict (AList.update ''gate'' g d))))"

definition gates_apply :: "json list \<Rightarrow> json \<Rightarrow> (pipe_error, json list) res" where
  "gates_apply phases gates = rbind (or_obj gates) (\<lambda>gs.
     rfold (\<lambda>(pid, patch). patch_phases (merge_gate patch) pid) gs phases)"

definition append_project_type :: "json \<Rightarrow> obj \<Rightarrow> (pipe_error, obj) res" where
  "append_project_type new out = (case new of
     JDict d \<Rightarrow> (case map_of d ''id'' of
         Some (JStr tid) \<Rightarrow> Inr (if tid \<noteq> [] \<and> map_of out tid = None
           then AList.update tid (JDict (filter (\<lambda>kv. fst kv \<noteq> ''id'') d)) out else out)
       | Some j \<Rightarrow> if truthy j then Inl Shape_error else Inr out
       | None \<Rightarrow> Inr out)
   | _ \<Rightarrow> Inr out)"

definition modify_project_type :: "string \<times> json \<Rightarrow> obj \<Rightarrow> (pipe_error, obj) res" where
  "modify_project_type tp out =
     (let cur = (case map_of out (fst tp) of None \<Rightarrow> JDict [] | Some j \<Rightarrow> j) in
      rbind (merge_json cur (snd tp)) (\<lambda>j. Inr (AList.update (fst tp) j out)))"

definition project_types_apply :: "json \<Rightarrow> json \<Rightarrow> (pipe_error, json) res" where
  "project_types_apply base po_json =
     rbind (or_obj base) (\<lambda>out.
     rbind (or_obj po_json) (\<lambda>po.
     rbind (or_list (jget po ''append'')) (\<lambda>news.
     rbind (rfold append_project_type news out) (\<lambda>out'.
     rbind (or_obj (jget po ''modify'')) (\<lambda>mods.
     rbind (rfold modify_project_type mods out') (\<lambda>out''. Inr (JDict out'')))))))"

section \<open>Capabilities of an overlay\<close>

definition contains_key :: "json \<Rightarrow> string \<Rightarrow> (pipe_error, bool) res" where
  "contains_key j k = (if \<not> truthy j then Inr False else case j of
     JDict d \<Rightarrow> Inr (map_of d k \<noteq> None)
   | JList xs \<Rightarrow> Inr (JStr k \<in> set xs)
   | JStr s \<Rightarrow> Inr (list_ex (prefix k) (suffixes s))
   | _ \<Rightarrow> Inl Shape_error)"

definition narrow_grant :: "json \<Rightarrow> string \<times> json \<Rightarrow> (pipe_error, string \<times> json) res" where
  "narrow_grant ov_grants g =
     rbind (contains_key ov_grants (fst g)) (\<lambda>c.
     rbind (or_list (snd g)) (\<lambda>base_principals.
     if \<not> c then Inr (fst g, JList base_principals) else
     rbind (as_obj ov_grants) (\<lambda>ov.
     rbind (or_list (jget ov (fst g))) (\<lambda>ov_set.
     rbind (rcheck (list_all hashable ov_set \<and> list_all hashable base_principals)) (\<lambda>_.
       Inr (fst g, JList (filter (\<lambda>p. p \<in> set ov_set) base_principals)))))))"

definition capabilities_narrow :: "json \<Rightarrow> json \<Rightarrow> (pipe_error, json) res" where
  "capabilities_narrow base overlay =
     rbind (or_obj base) (\<lambda>out.
     if \<not> truthy overlay then Inr (JDict out) else
     rbind (or_obj (jget out ''grants'')) (\<lambda>base_grants.
     rbind (as_obj overlay) (\<lambda>ov.
     rbind (rmap (narrow_grant (jget ov ''grants'')) base_grants) (\<lambda>narrowed.
       Inr (JDict (AList.update ''grants'' (JDict narrowed) out))))))"

section \<open>The override hierarchy\<close>

definition overlay_section :: "bool \<Rightarrow> (obj \<Rightarrow> (pipe_error, obj) res) \<Rightarrow> obj \<Rightarrow> (pipe_error, obj) res" where
  "overlay_section b f merged = (if b then f merged else Inr merged)"

definition apply_overlay :: "json \<Rightarrow> string \<Rightarrow> obj \<times> string list \<Rightarrow> (pipe_error, obj \<times> string list) res" where
  "apply_overlay overlay tag mc =
     (if \<not> truthy overlay then Inr mc else
      rbind (as_obj overlay) (\<lambda>ov.
      rbind (as_obj (if truthy (jget ov ''pipeline_overrides'') then jget ov ''pipeline_overrides'' else overlay)) (\<lambda>po.
      rbind (overlay_section (truthy (jget po ''phases'')) (\<lambda>m.
          rbind (or_list (jget m ''phases'')) (\<lambda>ps.
          rbind (phases_apply ps (jget po ''phases'')) (\<lambda>ps'. Inr (AList.update ''phases'' (JList ps') m)))) (fst mc)) (\<lambda>m1.
      rbind (overlay_section (truthy (jget po ''project_types'')) (\<lambda>m.
          rbind (project_types_apply (jget m ''project_types'') (jget po ''project_types'')) (\<lambda>j.
            Inr (AList.update ''project_types'' j m))) m1) (\<lambda>m2.
      rbind (overlay_section (truthy (jget po ''tier_routing'')) (\<lambda>m.
          rbind (merge_json (case map_of m ''tier_routing'' of None \<Rightarrow> JDict [] | Some j \<Rightarrow> j) (jget po ''tier_routing''))
            (\<lambda>j. Inr (AList.update ''tier_routing'' j m))) m2) (\<lambda>m3.
      rbind (overlay_section (truthy (jget po ''gates'')) (\<lambda>m.
          rbind (or_list (jget m ''phases'')) (\<lambda>ps.
          rbind (gates_apply ps (jget po ''gates'')) (\<lambda>ps'. Inr (AList.update ''phases'' (JList ps') m)))) m3) (\<lambda>m4.
      rbind (overlay_section (map_of ov ''capabilities'' \<noteq> None) (\<lambda>m.
          rbind (capabilities_narrow (jget m ''capabilities'') (jget ov ''capabilities'')) (\<lambda>j.
            Inr (AList.update ''capabilities'' j m))) m4) (\<lambda>m5.
        Inr (m5, snd mc @ [tag])))))))))"

record manifest =
  m_version :: int
  m_org_bundle :: string
  m_phases :: "obj list"
  m_project_types :: obj
  m_tier_routing :: obj
  m_overrides :: obj
  m_capabilities :: obj
  m_audit :: obj
  m_resolved_version :: string
  m_inheritance_chain :: "string list"
  m_extra :: obj

definition declared_fields :: "string list" where
  "declared_fields = [''version'', ''org_bundle'', ''phases'', ''project_types'', ''tier_routing'', ''overrides'',
     ''capabilities'', ''audit'', ''resolved_version'', ''inheritance_chain'']"

definition dict_field :: "obj \<Rightarrow> string \<Rightarrow> (pipe_error, obj) res" where
  "dict_field d k = (case map_of d k of None \<Rightarrow> Inr [] | Some j \<Rightarrow> as_obj j)"

definition make_manifest :: "pipe_env \<Rightarrow> obj \<Rightarrow> string \<Rightarrow> string list \<Rightarrow> (pipe_error, manifest) res" where
  "make_manifest E d resolved chain =
     (case (map_option (pe_lax_int E) (map_of d ''version''), map_of d ''org_bundle'', map_of d ''phases'') of
        (Some (Some v), Some (JStr ob), Some (JList ps)) \<Rightarrow>
          rbind (rmap as_obj ps) (\<lambda>phases.
          rbind (dict_field d ''project_types'') (\<lambda>pt.
          rbind (dict_field d ''tier_routing'') (\<lambda>tr.
          rbind (dict_field d ''overrides'') (\<lambda>ovr.
          rbind (dict_field d ''capabilities'') (\<lambda>caps.
          rbind (dict_field d ''audit'') (\<lambda>au.
            Inr \<lparr>m_version = v, m_org_bundle = ob, m_phases = phases, m_project_types = pt, m_tier_routing = tr,
                 m_overrides = ovr, m_capabilities = caps, m_audit = au, m_resolved_version = resolved,
                 m_inheritance_chain = chain,
                 m_extra = filter (\<lambda>kv. fst kv \<notin> set declared_fields) d\<rparr>))))))
      | _ \<Rightarrow> Inl Shape_error)"

definition py_str :: "pipe_env \<Rightarrow> json \<Rightarrow> string" where
  "py_str E j = (case j of JStr s \<Rightarrow> s | JNull \<Rightarrow> ''None'' | JBool b \<Rightarrow> if b then ''True'' else ''False''
     | JInt n \<Rightarrow> if n < 0 then CHR ''-'' # str_nat (nat (- n)) else str_nat (nat n)
     | JFloat s \<Rightarrow> s | _ \<Rightarrow> pe_repr E j)"

definition bundle_tag :: "pipe_env \<Rightarrow> json \<Rightarrow> string option \<Rightarrow> (pipe_error, string) res" where
  "bundle_tag E bundle bundle_id =
     rbind (as_obj bundle) (\<lambda>b. rbind (or_obj (jget b ''identity'')) (\<lambda>ident.
       let j = jget ident ''bundle_id'' in
       Inr (''org-bundle:'' @ (if truthy j then py_str E j
         else case bundle_id of Some (c # cs) \<Rightarrow> c # cs | _ \<Rightarrow> ''active''))))"

definition team_overrides :: "pipe_env \<Rightarrow> string option \<Rightarrow> json" where
  "team_overrides E project_id = (case project_id of
     Some (c # cs) \<Rightarrow> (case pe_project_meta E (c # cs) of
        JDict d \<Rightarrow> if truthy (jget d ''team_id'') then pe_team E (jget d ''team_id'') else JDict []
      | _ \<Rightarrow> JDict [])
   | _ \<Rightarrow> JDict [])"

definition opt_text :: "string option \<Rightarrow> string \<Rightarrow> string" where
  "opt_text t dflt = (case t of Some (c # cs) \<Rightarrow> c # cs | _ \<Rightarrow> dflt)"

definition load_pipeline ::
  "pipe_env \<Rightarrow> string option \<Rightarrow> string option \<Rightarrow> json \<Rightarrow> (pipe_error, manifest) res" where
  "load_pipeline E project_id bundle_id project_overrides =
     rbind (as_obj (pe_default E)) (\<lambda>base.
     let bundle = pe_bundle E bundle_id;
         team = team_overrides E project_id in
     rbind (if truthy bundle then rbind (bundle_tag E bundle bundle_id) (\<lambda>tag.
              apply_overlay bundle tag (base, [''default:sdlc-pipeline-default.yaml'']))
            else Inr (base, [''default:sdlc-pipeline-default.yaml''])) (\<lambda>mc1.
     rbind (apply_overlay team (''team:'' @ opt_text project_id []) mc1) (\<lambda>mc2.
     rbind (apply_overlay project_overrides (''project:'' @ opt_text project_id ''inline'') mc2) (\<lambda>mc3.
     let body = filter (\<lambda>kv. fst kv \<notin> {''resolved_version'', ''inheritance_chain''}) (fst mc3) in
       make_manifest E (fst mc3) (''sha256:'' @ pe_sha E (pe_canonical E body)) (snd mc3)))))"


section \<open>Capability checks\<close>

definition KNOWN_CAPABILITIES :: "string list" where
  "KNOWN_CAPABILITIES = [''can_modify_sdlc_pipeline'', ''can_modify_cost_policy'', ''can_grant_capabilities'',
     ''can_override_security'']"

definition principal_kinds :: "string list" where
  "principal_kinds = [''role'', ''user'', ''group'']"

definition principal_char :: "char \<Rightarrow> bool" where
  "principal_char c = (re_upper c \<or> re_lower c \<or> re_digit c \<or> c \<in> {CHR ''_'', CHR ''-'', CHR ''*''})"

definition PRINCIPAL_RE :: re where
  "PRINCIPAL_RE = RSeq (RAlt (RStr ''role'') (RAlt (RStr ''user'') (RStr ''group'')))
     (RSeq (RStr '':'') (RPlus (RSet principal_char)))"

text \<open>\<open>s.partition(sep)\<close>: the text before the first separator and the text after it.\<close>

definition py_partition :: "char \<Rightarrow> string \<Rightarrow> string \<times> string" where
  "py_partition sep s = (takeWhile (\<lambda>c. c \<noteq> sep) s, drop 1 (dropWhile (\<lambda>c. c \<noteq> sep) s))"

definition parse_actor :: "string \<Rightarrow> (pipe_error, string \<times> string) res" where
  "parse_actor actor =
     (if actor = [] then Inl (Capability_denied actor ''(unknown)'')
      else if CHR '':'' \<in> set actor then
        (if fst (py_partition (CHR '':'') actor) \<notin> set principal_kinds then Inl (Capability_denied actor ''(unknown)'')
         else Inr (py_partition (CHR '':'') actor))
      else Inr (''user'', actor))"

definition principal_matches :: "string \<Rightarrow> string \<Rightarrow> string \<Rightarrow> bool" where
  "principal_matches kind name pr =
     (re_match_end PRINCIPAL_RE pr \<and> fst (py_partition (CHR '':'') pr) = kind \<and>
      (snd (py_partition (CHR '':'') pr) = ''*'' \<or> snd (py_partition (CHR '':'') pr) = name))"

text \<open>\<open>any(...)\<close> stops at the first match; a principal that is not a string makes the match raise.\<close>

fun any_principal :: "string \<Rightarrow> string \<Rightarrow> json list \<Rightarrow> (pipe_error, bool) res" where
  "any_principal kind name [] = Inr False"
| "any_principal kind name (p # ps) = (case p of
     JStr s \<Rightarrow> if principal_matches kind name s then Inr True else any_principal kind name ps
   | _ \<Rightarrow> Inl Shape_error)"

definition check_capability :: "string \<Rightarrow> string \<Rightarrow> manifest \<Rightarrow> (pipe_error, bool) res" where
  "check_capability actor cap m =
     (if cap \<notin> set KNOWN_CAPABILITIES then Inr False else
      case parse_actor actor of
        Inl _ \<Rightarrow> Inr False
      | Inr (kind, name) \<Rightarrow>
          rbind (or_obj (jget (m_capabilities m) ''grants'')) (\<lambda>grants.
          rbind (or_list (jget grants cap)) (\<lambda>principals. any_principal kind name principals)))"

definition require_capability :: "string \<Rightarrow> string \<Rightarrow> manifest \<Rightarrow> (pipe_error, unit) res" where
  "require_capability actor cap m =
     (if cap \<notin> set KNOWN_CAPABILITIES then Inl (Capability_denied actor cap) else
      rbind (check_capability actor cap m) (\<lambda>b. if b then Inr () else Inl (Capability_denied actor cap)))"

definition list_grants :: "manifest \<Rightarrow> (pipe_error, (string \<times> json list) list) res" where
  "list_grants m = rbind (or_obj (jget (m_capabilities m) ''grants'')) (\<lambda>grants.
     rmap (\<lambda>cap. rbind (or_list (jget grants cap)) (\<lambda>ps. Inr (cap, ps)))
       (sort (remdups (map fst grants @ KNOWN_CAPABILITIES))))"

definition assert_rationale :: "string \<Rightarrow> string \<Rightarrow> string option \<Rightarrow> (pipe_error, string) res" where
  "assert_rationale actor cap rationale = (case rationale of
     None \<Rightarrow> Inl (Capability_denied actor cap)
   | Some r \<Rightarrow> if length (py_strip r) < 8 then Inl (Capability_denied actor cap) else Inr (py_strip r))"

section \<open>Overlays narrow\<close>

text \<open>The principals a capabilities section grants a capability to.\<close>

definition principals_of :: "json \<Rightarrow> string \<Rightarrow> json list" where
  "principals_of caps cap = (case caps of
     JDict c \<Rightarrow> (case jget c ''grants'' of
        JDict g \<Rightarrow> (case or_list (jget g cap) of Inr ps \<Rightarrow> ps | Inl _ \<Rightarrow> [])
      | _ \<Rightarrow> [])
   | _ \<Rightarrow> [])"

lemma or_list_JList [simp]: "or_list (JList xs) = Inr xs"
  by (simp add: or_list_def truthy_def)

lemma or_obj_Inr: "or_obj j = Inr d \<longleftrightarrow> (j = JDict d \<or> \<not> truthy j \<and> d = [])"
  by (cases j) (auto simp: or_obj_def as_obj_def truthy_def)

lemma jget_update [simp]: "jget (AList.update k v d) k' = (if k' = k then v else jget d k')"
  by (simp add: jget_def dict_simps)

lemma rmap_map_of:
  assumes "rmap f d = Inr d'" and "\<And>x y. f x = Inr y \<Longrightarrow> fst y = fst x"
  shows "map_of d' k = (case map_of d k of None \<Rightarrow> None | Some v \<Rightarrow> Some (snd (projr (f (k, v)))))"
  using assms(1)
proof (induction d arbitrary: d')
  case (Cons x d)
  then obtain y ys where "f x = Inr y" "rmap f d = Inr ys" "d' = y # ys" by (auto simp: rbind_eq_Inr)
  with Cons.IH assms(2) [of x y] show ?case by (cases x; cases y) auto
qed simp

lemma narrow_grant_fst: "narrow_grant ov g = Inr g' \<Longrightarrow> fst g' = fst g"
  by (auto simp: narrow_grant_def rbind_eq_Inr split: if_splits)

lemma narrow_grant_subset:
  "narrow_grant ov (k, j) = Inr (k', j') \<Longrightarrow> \<exists>ps ps'. or_list j = Inr ps \<and> j' = JList ps' \<and> set ps' \<subseteq> set ps"
  by (auto simp: narrow_grant_def rbind_eq_Inr split: if_splits)

lemma or_list_JNull [simp]: "or_list JNull = Inr []"
  by (simp add: or_list_def truthy_def)

lemma principals_of_update [simp]:
  "principals_of (JDict (AList.update ''grants'' (JDict g) c)) cap =
     (case or_list (jget g cap) of Inr ps \<Rightarrow> ps | Inl _ \<Rightarrow> [])"
  by (simp add: principals_of_def)

lemma capabilities_narrow_subset:
  assumes "capabilities_narrow base ov = Inr j"
  shows "set (principals_of j cap) \<subseteq> set (principals_of base cap)"
proof -
  obtain out where out: "or_obj base = Inr out" using assms by (auto simp: capabilities_narrow_def rbind_eq_Inr)
  have base: "principals_of base cap = principals_of (JDict out) cap"
    using out by (auto simp: or_obj_Inr principals_of_def jget_def truthy_def split: json.splits)
  show ?thesis
  proof (cases "truthy ov")
    case False
    then show ?thesis using assms out by (simp add: base capabilities_narrow_def)
  next
    case True
    then obtain bg o' narrowed where bg: "or_obj (jget out ''grants'') = Inr bg"
      and n: "rmap (narrow_grant (jget o' ''grants'')) bg = Inr narrowed"
      and j: "j = JDict (AList.update ''grants'' (JDict narrowed) out)"
      using assms out by (auto simp: capabilities_narrow_def rbind_eq_Inr)
    have look: "map_of narrowed cap = (case map_of bg cap of None \<Rightarrow> None
        | Some v \<Rightarrow> Some (snd (projr (narrow_grant (jget o' ''grants'') (cap, v)))))"
      by (rule rmap_map_of [OF n narrow_grant_fst])
    show ?thesis
    proof (cases "map_of bg cap")
      case None
      then have "jget narrowed cap = JNull" using look by (simp add: jget_def)
      then show ?thesis by (simp add: j)
    next
      case (Some v)
      then obtain g where g: "narrow_grant (jget o' ''grants'') (cap, v) = Inr g"
        using n rmap_Inr_nth [OF n] by (metis in_set_conv_nth map_of_SomeD)
      obtain k' j' where "g = (k', j')" by (cases g)
      with g obtain ps ps' where ps: "or_list v = Inr ps" "j' = JList ps'" "set ps' \<subseteq> set ps"
        using narrow_grant_subset by blast
      have "jget out ''grants'' = JDict bg" using bg Some by (auto simp: or_obj_Inr)
      moreover have "jget narrowed cap = JList ps'" "jget bg cap = v"
        using look Some g \<open>g = (k', j')\<close> ps(2) by (simp_all add: jget_def)
      ultimately have "principals_of (JDict out) cap = ps" "principals_of j cap = ps'"
        using ps(1) by (simp_all add: j principals_of_def)
      then show ?thesis unfolding base using ps(3) by simp
    qed
  qed
qed

lemma overlay_section_keeps:
  assumes "overlay_section b f m = Inr m'" and "\<And>m m'. f m = Inr m' \<Longrightarrow> jget m' k = jget m k"
  shows "jget m' k = jget m k"
  using assms by (auto simp: overlay_section_def split: if_splits)

lemma apply_overlay_narrows:
  assumes "apply_overlay ov tag mc = Inr mc'"
  shows "set (principals_of (jget (fst mc') ''capabilities'') cap) \<subseteq> set (principals_of (jget (fst mc) ''capabilities'') cap)"
proof (cases "truthy ov")
  case False
  with assms show ?thesis by (simp add: apply_overlay_def)
next
  case True
  then obtain ovd po m1 m2 m3 m4 where
    s1: "overlay_section (truthy (jget po ''phases'')) (\<lambda>m. rbind (or_list (jget m ''phases'')) (\<lambda>ps.
          rbind (phases_apply ps (jget po ''phases'')) (\<lambda>ps'. Inr (AList.update ''phases'' (JList ps') m)))) (fst mc) = Inr m1"
    and s2: "overlay_section (truthy (jget po ''project_types'')) (\<lambda>m.
          rbind (project_types_apply (jget m ''project_types'') (jget po ''project_types'')) (\<lambda>j.
            Inr (AList.update ''project_types'' j m))) m1 = Inr m2"
    and s3: "overlay_section (truthy (jget po ''tier_routing'')) (\<lambda>m.
          rbind (merge_json (case map_of m ''tier_routing'' of None \<Rightarrow> JDict [] | Some j \<Rightarrow> j) (jget po ''tier_routing''))
            (\<lambda>j. Inr (AList.update ''tier_routing'' j m))) m2 = Inr m3"
    and s4: "overlay_section (truthy (jget po ''gates'')) (\<lambda>m. rbind (or_list (jget m ''phases'')) (\<lambda>ps.
          rbind (gates_apply ps (jget po ''gates'')) (\<lambda>ps'. Inr (AList.update ''phases'' (JList ps') m)))) m3 = Inr m4"
    and s5: "overlay_section (map_of ovd ''capabilities'' \<noteq> None) (\<lambda>m.
          rbind (capabilities_narrow (jget m ''capabilities'') (jget ovd ''capabilities'')) (\<lambda>j.
            Inr (AList.update ''capabilities'' j m))) m4 = Inr (fst mc')"
    using assms unfolding apply_overlay_def by (auto simp only: rbind_eq_Inr simp_thms if_False fst_conv sum.inject)
  have "jget m1 ''capabilities'' = jget (fst mc) ''capabilities''"
    by (rule overlay_section_keeps [OF s1]) (auto simp: rbind_eq_Inr)
  moreover have "jget m2 ''capabilities'' = jget m1 ''capabilities''"
    by (rule overlay_section_keeps [OF s2]) (auto simp: rbind_eq_Inr)
  moreover have "jget m3 ''capabilities'' = jget m2 ''capabilities''"
    by (rule overlay_section_keeps [OF s3]) (auto simp: rbind_eq_Inr)
  moreover have "jget m4 ''capabilities'' = jget m3 ''capabilities''"
    by (rule overlay_section_keeps [OF s4]) (auto simp: rbind_eq_Inr)
  moreover have "set (principals_of (jget (fst mc') ''capabilities'') cap) \<subseteq> set (principals_of (jget m4 ''capabilities'') cap)"
  proof (cases "map_of ovd ''capabilities'' = None")
    case True
    with s5 show ?thesis by (simp add: overlay_section_def)
  next
    case False
    with s5 obtain j where j: "capabilities_narrow (jget m4 ''capabilities'') (jget ovd ''capabilities'') = Inr j"
        "fst mc' = AList.update ''capabilities'' j m4"
      by (auto simp: overlay_section_def rbind_eq_Inr)
    from capabilities_narrow_subset [OF j(1)] show ?thesis by (simp add: j(2))
  qed
  ultimately show ?thesis by simp
qed


lemma make_manifest_caps:
  assumes "make_manifest E d r ch = Inr m"
  shows "principals_of (JDict (m_capabilities m)) cap = principals_of (jget d ''capabilities'') cap"
proof -
  have "dict_field d ''capabilities'' = Inr (m_capabilities m)"
    using assms by (auto simp: make_manifest_def rbind_eq_Inr split: option.splits json.splits)
  then show ?thesis
    by (auto simp: dict_field_def as_obj_def jget_def principals_of_def split: option.splits json.splits)
qed

lemma load_pipeline_narrows:
  assumes "load_pipeline E pid bid po = Inr m"
  shows "\<exists>base. pe_default E = JDict base \<and>
    set (principals_of (JDict (m_capabilities m)) cap) \<subseteq> set (principals_of (jget base ''capabilities'') cap)"
proof -
  let ?c0 = "[''default:sdlc-pipeline-default.yaml'']"
  obtain base mc1 mc2 mc3 where base: "as_obj (pe_default E) = Inr base"
    and o1: "(if truthy (pe_bundle E bid) then rbind (bundle_tag E (pe_bundle E bid) bid) (\<lambda>tag.
        apply_overlay (pe_bundle E bid) tag (base, ?c0)) else Inr (base, ?c0)) = Inr mc1"
    and o2: "apply_overlay (team_overrides E pid) (''team:'' @ opt_text pid []) mc1 = Inr mc2"
    and o3: "apply_overlay po (''project:'' @ opt_text pid ''inline'') mc2 = Inr mc3"
    and m: "\<exists>r. make_manifest E (fst mc3) r (snd mc3) = Inr m"
    using assms unfolding load_pipeline_def Let_def by (simp only: rbind_eq_Inr) blast
  have "set (principals_of (jget (fst mc1) ''capabilities'') cap) \<subseteq> set (principals_of (jget base ''capabilities'') cap)"
    using o1 apply_overlay_narrows [of "pe_bundle E bid" _ "(base, ?c0)" mc1 cap]
    by (auto simp: rbind_eq_Inr split: if_splits)
  moreover note apply_overlay_narrows [OF o2, of cap] apply_overlay_narrows [OF o3, of cap]
  moreover have "principals_of (JDict (m_capabilities m)) cap = principals_of (jget (fst mc3) ''capabilities'') cap"
    using m make_manifest_caps by blast
  moreover have "pe_default E = JDict base" using base by (simp add: as_obj_def split: json.splits)
  ultimately show ?thesis by auto
qed

lemma any_principal_True:
  "any_principal kind name ps = Inr True \<Longrightarrow> \<exists>s. JStr s \<in> set ps \<and> principal_matches kind name s"
  by (induction ps) (auto split: json.splits if_splits)

lemma check_capability_principals:
  assumes "check_capability actor cap m = Inr True"
  shows "\<exists>kind name s. parse_actor actor = Inr (kind, name) \<and>
    JStr s \<in> set (principals_of (JDict (m_capabilities m)) cap) \<and> principal_matches kind name s"
proof -
  obtain kind name where p: "parse_actor actor = Inr (kind, name)"
    using assms by (auto simp: check_capability_def split: if_splits sum.splits)
  then obtain g ps where g: "or_obj (jget (m_capabilities m) ''grants'') = Inr g" "or_list (jget g cap) = Inr ps"
      "any_principal kind name ps = Inr True"
    using assms by (auto simp: check_capability_def rbind_eq_Inr split: if_splits)
  obtain s where s: "JStr s \<in> set ps" "principal_matches kind name s" using any_principal_True [OF g(3)] by blast
  then have "g \<noteq> []" using g(2) by (auto simp: jget_def)
  then have "principals_of (JDict (m_capabilities m)) cap = ps"
    using g(1,2) by (auto simp: principals_of_def or_obj_Inr)
  with p s show ?thesis by blast
qed

text \<open>
  No overlay widens a grant: whoever holds a capability in a loaded manifest, whatever the
  organisation bundle, the team file and the project overrides say, holds it through a principal that
  the shipped default manifest already lists for that capability.
\<close>

theorem overlays_never_widen_grants:
  assumes "load_pipeline E pid bid po = Inr m" and "check_capability actor cap m = Inr True"
  shows "\<exists>base kind name pr. pe_default E = JDict base \<and> parse_actor actor = Inr (kind, name) \<and>
    JStr pr \<in> set (principals_of (jget base ''capabilities'') cap) \<and> principal_matches kind name pr"
  using load_pipeline_narrows [OF assms(1), of cap] check_capability_principals [OF assms(2)] by blast

text \<open>The section \<open>capabilities\<close> of \<open>plan/artifacts/sdlc-pipeline-default.yaml\<close>, lines 215 to 220.\<close>

definition shipped_capabilities :: json where
  "shipped_capabilities =
     (let entry = (\<lambda>cap scope. JDict [(''capability'', JStr cap), (''scope'', JStr scope)]) in
      JDict [(''phases'', entry ''can_modify_sdlc_pipeline'' ''org''),
             (''project_types'', entry ''can_modify_sdlc_pipeline'' ''team''),
             (''tier_routing'', entry ''can_modify_cost_policy'' ''team''),
             (''overrides'', entry ''can_modify_sdlc_pipeline'' ''project''),
             (''audit'', entry ''system_only'' ''org'')])"

lemma no_principal_no_capability:
  assumes "pe_default E = JDict base" and "jget base ''capabilities'' = shipped_capabilities"
    and "load_pipeline E pid bid po = Inr m"
  shows "check_capability actor cap m \<noteq> Inr True \<and> require_capability actor cap m \<noteq> Inr ()"
proof -
  have "principals_of shipped_capabilities cap = []"
    by (simp add: shipped_capabilities_def principals_of_def jget_def)
  then have "check_capability actor cap m \<noteq> Inr True"
    using load_pipeline_narrows [OF assms(3), of cap] check_capability_principals [of actor cap m] assms(1,2) by force
  then show ?thesis
    by (cases "check_capability actor cap m") (auto simp: require_capability_def split: if_splits)
qed

text \<open>
  With the shipped default nobody ever holds a capability: its \<open>capabilities\<close> section has no
  \<open>grants\<close>, an organisation bundle's grants are only ever intersected with it, and so for every bundle,
  team file and project override every capability check on the loaded manifest answers no.
\<close>

theorem shipped_default_grants_nobody:
  assumes "pe_default E = JDict base" and "jget base ''capabilities'' = shipped_capabilities"
    and "load_pipeline E pid bid po = Inr m"
  shows "check_capability actor cap m \<noteq> Inr True \<and> require_capability actor cap m \<noteq> Inr ()"
  by (rule no_principal_no_capability [OF assms])

definition demo_pipe_env :: "json \<Rightarrow> json \<Rightarrow> pipe_env" where
  "demo_pipe_env caps bundle = \<lparr>pe_default = JDict [(''version'', JInt 1), (''org_bundle'', JStr ''d''),
       (''phases'', JList []), (''capabilities'', caps)],
     pe_bundle = (\<lambda>_. bundle), pe_project_meta = (\<lambda>_. JDict []), pe_team = (\<lambda>_. JDict []),
     pe_sha = (\<lambda>s. s), pe_canonical = (\<lambda>_. ''c''), pe_repr = (\<lambda>_. ''r''),
     pe_lax_int = (\<lambda>j. case j of JInt n \<Rightarrow> Some n | _ \<Rightarrow> None)\<rparr>"

definition demo_grants :: json where
  "demo_grants = JDict [(''grants'', JDict [(''can_modify_sdlc_pipeline'', JList [JStr ''role:pm'', JStr ''user:*''])])]"

definition demo_manifest :: "obj \<Rightarrow> string list \<Rightarrow> manifest" where
  "demo_manifest d chain = \<lparr>m_version = 1, m_org_bundle = ''d'', m_phases = [], m_project_types = [], m_tier_routing = [],
     m_overrides = [], m_capabilities = d, m_audit = [], m_resolved_version = ''sha256:c'',
     m_inheritance_chain = chain, m_extra = []\<rparr>"

theorem overlays_never_widen_grants_witness:
  "\<exists>m kind name pr. load_pipeline (demo_pipe_env demo_grants (JDict [(''capabilities'',
        JDict [(''grants'', JDict [(''can_modify_sdlc_pipeline'', JList [JStr ''role:pm'', JStr ''role:ceo''])])])])) None None JNull = Inr m \<and>
     check_capability ''role:pm'' ''can_modify_sdlc_pipeline'' m = Inr True \<and>
     check_capability ''role:ceo'' ''can_modify_sdlc_pipeline'' m = Inr False \<and>
     JStr pr \<in> set (principals_of demo_grants ''can_modify_sdlc_pipeline'') \<and> principal_matches kind name pr"
proof -
  let ?E = "demo_pipe_env demo_grants (JDict [(''capabilities'',
        JDict [(''grants'', JDict [(''can_modify_sdlc_pipeline'', JList [JStr ''role:pm'', JStr ''role:ceo''])])])])"
  let ?m = "demo_manifest [(''grants'', JDict [(''can_modify_sdlc_pipeline'', JList [JStr ''role:pm''])])]
     [''default:sdlc-pipeline-default.yaml'', ''org-bundle:active'']"
  have load: "load_pipeline ?E None None JNull = Inr ?m" by code_simp
  have yes: "check_capability ''role:pm'' ''can_modify_sdlc_pipeline'' ?m = Inr True"
    and no: "check_capability ''role:ceo'' ''can_modify_sdlc_pipeline'' ?m = Inr False" by code_simp+
  from overlays_never_widen_grants [OF load yes] obtain base kind name pr where
    b: "pe_default ?E = JDict base" and pr: "JStr pr \<in> set (principals_of (jget base ''capabilities'') ''can_modify_sdlc_pipeline'')"
      "principal_matches kind name pr" by blast
  have "jget base ''capabilities'' = demo_grants" using b by (auto simp: demo_pipe_env_def jget_def)
  with load yes no pr show ?thesis by metis
qed

theorem shipped_default_grants_nobody_witness:
  "\<exists>m. load_pipeline (demo_pipe_env shipped_capabilities (JDict [(''capabilities'', demo_grants)])) None None JNull = Inr m \<and>
     check_capability ''role:pm'' ''can_modify_sdlc_pipeline'' m \<noteq> Inr True"
proof -
  let ?E = "demo_pipe_env shipped_capabilities (JDict [(''capabilities'', demo_grants)])"
  have "\<not> isl (load_pipeline ?E None None JNull)" by code_simp
  then obtain m where m: "load_pipeline ?E None None JNull = Inr m" by (cases "load_pipeline ?E None None JNull") auto
  have "pe_default ?E = JDict [(''version'', JInt 1), (''org_bundle'', JStr ''d''),
       (''phases'', JList []), (''capabilities'', shipped_capabilities)]" by (simp add: demo_pipe_env_def)
  from shipped_default_grants_nobody [OF this _ m] m show ?thesis by (auto simp: jget_def)
qed

end
