(* ===== verification/Pipeline_Lock.thy ===== *)
theory Pipeline_Lock
  imports Pipeline_Manifest Audit_Record "HOL-Library.Multiset"
begin

text \<open>
  \<open>plan/pipeline/project_lock.py\<close>, \<open>plan/pipeline/phase_evolution.py\<close> and the version hash of
  \<open>plan/pipeline/versioning.py\<close>: pinning a project to a pipeline version, the events between two
  versions, and the migration of a locked project. The state is the table
  \<open>spine_lifecycle.project\<close> with the columns these modules use, next to the audit table, into which
  they write through the unlinked writer of the theory of audit records. What psql makes of a value
  bound with \<open>\set\<close>, the text of a \<open>jsonb\<close> value and \<open>json.loads\<close> are the fields of
  \<open>lock_env\<close>; a line feed in a value ends the line of its \<open>\set\<close>, so that psql runs what follows as a script of its
  own, and \<open>le_broken\<close> is whatever that script prints and leaves. Where Python iterates over a set the model takes the order of the older manifest.
\<close>

section \<open>State\<close>

record project_row =
  pj_uuid :: string
  pj_id :: string
  pj_version :: "string option"
  pj_snapshot :: "string option"
  pj_status :: string
  pj_phase :: string

record lock_db =
  lk_projects :: "project_row list"
  lk_audit :: audit_db

record lock_env =
  le_pipe :: pipe_env
  le_codec :: audit_codec
  le_url :: "string option"
  le_redact_env :: "string option"
  le_bind :: "string \<Rightarrow> string"
  le_broken :: "string list \<Rightarrow> lock_db \<Rightarrow> string option \<times> lock_db"
  le_jsonb :: "string \<Rightarrow> string option"
  le_loads :: "string \<Rightarrow> obj option"
  le_uuid :: "nat \<Rightarrow> uuid"
  le_now :: time

type_synonym 'a lock_eff = "(lock_db, pipe_error, 'a) eff"

section \<open>Versions\<close>

definition manifest_body :: "manifest \<Rightarrow> obj" where
  "manifest_body m =
     [(''version'', JInt (m_version m)), (''org_bundle'', JStr (m_org_bundle m)),
      (''phases'', JList (map JDict (m_phases m))), (''project_types'', JDict (m_project_types m)),
      (''tier_routing'', JDict (m_tier_routing m)), (''overrides'', JDict (m_overrides m)),
      (''capabilities'', JDict (m_capabilities m)), (''audit'', JDict (m_audit m))] @ m_extra m"

definition compute_pipeline_version :: "pipe_env \<Rightarrow> manifest \<Rightarrow> string" where
  "compute_pipeline_version E m = ''sha256:'' @ pe_sha E (pe_canonical E (manifest_body m))"

definition snapshot_of :: "pipe_env \<Rightarrow> manifest \<Rightarrow> string" where
  "snapshot_of E m = pe_canonical E (manifest_body m)"

section \<open>Locking\<close>

definition row_matches :: "lock_env \<Rightarrow> string \<Rightarrow> project_row \<Rightarrow> bool" where
  "row_matches L pid r = (pj_uuid r = le_bind L pid \<or> pj_id r = le_bind L pid)"

definition need_db :: "lock_env \<Rightarrow> unit lock_eff" where
  "need_db L = eguard (le_url L \<noteq> None \<and> le_url L \<noteq> Some []) Database_error"

text \<open>
  \<open>_psql_bound\<close>: the statement sees the bound values when each of them stays on its line, and otherwise the
  script is broken, with \<open>None\<close> for a failure of psql and else what it prints.
\<close>

definition one_line :: "string \<Rightarrow> bool" where
  "one_line s = (CHR 0x0A \<notin> set s)"

definition psql_bound :: "lock_env \<Rightarrow> string list \<Rightarrow> (string \<Rightarrow> 'a lock_eff) \<Rightarrow> 'a lock_eff \<Rightarrow> 'a lock_eff" where
  "psql_bound L values broken statement =
     ebind (need_db L) (\<lambda>_ db.
       if list_all one_line values then statement db
       else (case le_broken L values db of
           (None, db') \<Rightarrow> (Inl Database_error, db')
         | (Some out, db') \<Rightarrow> broken (py_strip out) db'))"

lemma psql_bound_one_line:
  "list_all one_line values \<Longrightarrow> psql_bound L values broken statement = ebind (need_db L) (\<lambda>_. statement)"
  by (simp add: psql_bound_def)

text \<open>The best-effort audit write: whatever it raises is dropped.\<close>

definition lock_audit :: "lock_env \<Rightarrow> string \<Rightarrow> string \<Rightarrow> obj \<Rightarrow> string \<Rightarrow> string option \<Rightarrow> unit lock_eff" where
  "lock_audit L action pid metadata actor rationale = ewrite (\<lambda>db.
     let a = lk_audit db;
         rec = (blank_record (le_uuid L (length (ad_rows a))) (le_now L) (py_int pid) ''orchestrator'' ''orchestrator''
                  action actor)\<lparr>ar_rationale := rationale, ar_metadata := metadata\<rparr> in
     db\<lparr>lk_audit := run_state (unlinked_write (le_codec L) (le_url L) (le_redact_env L) rec) a\<rparr>)"

definition lock_project_to_pipeline :: "lock_env \<Rightarrow> string \<Rightarrow> manifest \<Rightarrow> string lock_eff" where
  "lock_project_to_pipeline L pid m =
     (let version = compute_pipeline_version (le_pipe L) m;
          snap = snapshot_of (le_pipe L) m in
      ebind (psql_bound L [version, snap, pid] (\<lambda>_. ereturn ()) (case le_jsonb L (le_bind L snap) of
        None \<Rightarrow> eraise Database_error
      | Some stored \<Rightarrow> ewrite (\<lambda>db. db\<lparr>lk_projects := map (\<lambda>r. if row_matches L pid r
          then r\<lparr>pj_version := Some (le_bind L version), pj_snapshot := Some stored\<rparr> else r) (lk_projects db)\<rparr>))) (\<lambda>_.
      ebind (lock_audit L ''project_locked'' pid
        [(''pipeline_version'', JStr version), (''manifest_hash'', JStr version)] ''system''
        (Some ''project locked at start (FR-8 / STORY-1.7.5)'')) (\<lambda>_. ereturn version)))"

definition opt_str :: "string option \<Rightarrow> string" where
  "opt_str t = (case t of None \<Rightarrow> [] | Some s \<Rightarrow> s)"

definition stored_chain :: "obj \<Rightarrow> (pipe_error, string list) res" where
  "stored_chain body = (case map_of body ''inheritance_chain'' of
     None \<Rightarrow> Inr []
   | Some (JList xs) \<Rightarrow> rmap (\<lambda>j. case j of JStr s \<Rightarrow> Inr s | _ \<Rightarrow> Inl Shape_error) xs
   | Some _ \<Rightarrow> Inl Shape_error)"

definition stored_version :: "obj \<Rightarrow> string \<Rightarrow> (pipe_error, string) res" where
  "stored_version body version = (case map_of body ''resolved_version'' of
     None \<Rightarrow> Inr version | Some (JStr s) \<Rightarrow> Inr s | Some _ \<Rightarrow> Inl Shape_error)"

definition read_lock :: "lock_env \<Rightarrow> string \<Rightarrow> manifest lock_eff" where
  "read_lock L out =
     (let raw = py_strip out;
          version = fst (py_partition (CHR ''|'') raw);
          snap = snd (py_partition (CHR ''|'') raw) in
      if raw = [] then eraise Project_not_found
      else if snap = [] then eraise No_manifest_snapshot
      else (case le_loads L snap of
            None \<Rightarrow> eraise Snapshot_unreadable
          | Some body \<Rightarrow> elift (
              rbind (stored_version body version) (\<lambda>v.
              rbind (stored_chain body) (\<lambda>ch. make_manifest (le_pipe L) body v ch)))))"

definition get_locked_pipeline :: "lock_env \<Rightarrow> string \<Rightarrow> manifest lock_eff" where
  "get_locked_pipeline L pid =
     psql_bound L [pid] (read_lock L)
       (ebind (eread (\<lambda>db. find (row_matches L pid) (lk_projects db))) (\<lambda>row. case row of
          None \<Rightarrow> eraise Project_not_found
        | Some r \<Rightarrow> read_lock L (opt_str (pj_version r) @ ''|'' @ opt_str (pj_snapshot r))))"

definition sort_ids :: "json list \<Rightarrow> (pipe_error, json list) res" where
  "sort_ids js =
     (if length js \<le> 1 then Inr js
      else if list_all (\<lambda>j. case j of JStr _ \<Rightarrow> True | _ \<Rightarrow> False) js
        then Inr (map JStr (sort (map (\<lambda>j. case j of JStr s \<Rightarrow> s | _ \<Rightarrow> []) js)))
      else if list_all (\<lambda>j. case j of JInt _ \<Rightarrow> True | _ \<Rightarrow> False) js
        then Inr (map JInt (sort (map (\<lambda>j. case j of JInt n \<Rightarrow> n | _ \<Rightarrow> 0) js)))
      else Inl Shape_error)"

definition by_id :: "obj list \<Rightarrow> (json, obj) dict" where
  "by_id ps = fold (\<lambda>p. AList.update (jget p ''id'') p) ps []"

record manifest_diff =
  md_phases_added :: "json list"
  md_phases_removed :: "json list"
  md_phases_modified :: "json list"
  md_tier_routing_changed :: bool
  md_capabilities_changed :: bool

definition diff_manifests :: "manifest \<Rightarrow> manifest \<Rightarrow> (pipe_error, manifest_diff) res" where
  "diff_manifests old new =
     (let po = by_id (m_phases old); pn = by_id (m_phases new) in
      rbind (rcheck (list_all (\<lambda>p. hashable (jget p ''id'')) (m_phases old @ m_phases new))) (\<lambda>_.
      rbind (sort_ids (filter (\<lambda>k. map_of po k = None) (map fst pn))) (\<lambda>added.
      rbind (sort_ids (filter (\<lambda>k. map_of pn k = None) (map fst po))) (\<lambda>removed.
      rbind (sort_ids (filter (\<lambda>k. map_of pn k \<noteq> None \<and> map_of pn k \<noteq> map_of po k) (map fst po))) (\<lambda>modified.
        Inr \<lparr>md_phases_added = added, md_phases_removed = removed, md_phases_modified = modified,
             md_tier_routing_changed = (m_tier_routing old \<noteq> m_tier_routing new),
             md_capabilities_changed = (m_capabilities old \<noteq> m_capabilities new)\<rparr>)))))"

definition diff_json :: "manifest_diff \<Rightarrow> json" where
  "diff_json d = JDict [(''phases_added'', JList (md_phases_added d)), (''phases_removed'', JList (md_phases_removed d)),
     (''phases_modified'', JList (md_phases_modified d)), (''tier_routing_changed'', JBool (md_tier_routing_changed d)),
     (''capabilities_changed'', JBool (md_capabilities_changed d))]"

record migration_result =
  mr_project_id :: string
  mr_from_version :: string
  mr_to_version :: string
  mr_diff :: manifest_diff

definition migrate_locked_project ::
  "lock_env \<Rightarrow> string \<Rightarrow> manifest \<Rightarrow> string \<Rightarrow> string option \<Rightarrow> migration_result lock_eff" where
  "migrate_locked_project L pid new actor rationale0 =
     ebind (elift (assert_rationale actor ''can_modify_sdlc_pipeline'' rationale0)) (\<lambda>rationale.
     ebind (elift (require_capability actor ''can_modify_sdlc_pipeline'' new)) (\<lambda>_.
     ebind (get_locked_pipeline L pid) (\<lambda>old.
     ebind (elift (diff_manifests old new)) (\<lambda>diff.
     let from_v = compute_pipeline_version (le_pipe L) old in
     ebind (lock_project_to_pipeline L pid new) (\<lambda>to_v.
     ebind (lock_audit L ''project_pipeline_migrated'' pid
       [(''from_version'', JStr from_v), (''to_version'', JStr to_v), (''diff'', diff_json diff)] actor (Some rationale)) (\<lambda>_.
       ereturn \<lparr>mr_project_id = pid, mr_from_version = from_v, mr_to_version = to_v, mr_diff = diff\<rparr>))))))"

definition is_pipeline_drifted :: "lock_env \<Rightarrow> string \<Rightarrow> manifest option \<Rightarrow> bool lock_eff" where
  "is_pipeline_drifted L pid current =
     ebind (get_locked_pipeline L pid) (\<lambda>locked.
     ebind (elift (case current of Some m \<Rightarrow> Inr m
        | None \<Rightarrow> load_pipeline (le_pipe L) (Some pid) None JNull)) (\<lambda>cur.
       ereturn (compute_pipeline_version (le_pipe L) locked \<noteq> compute_pipeline_version (le_pipe L) cur)))"

section \<open>Evolution events\<close>

datatype evolution_type =
    Phase_added | Phase_removed | Phase_renamed | Phase_reordered | Gate_changed | Rollback_changed

record evolution_event =
  ev_type :: evolution_type
  ev_version_old :: string
  ev_version_new :: string
  ev_phase_id :: string
  ev_affected :: "string list"
  ev_auto_migratable :: bool
  ev_rationale :: string
  ev_detail :: obj

definition phase_map :: "manifest \<Rightarrow> (json, obj) dict" where
  "phase_map m = by_id (filter (\<lambda>p. truthy (jget p ''id'')) (m_phases m))"

definition phase_order :: "manifest \<Rightarrow> json list" where
  "phase_order m = filter truthy (map (\<lambda>p. jget p ''id'') (m_phases m))"

definition or_text :: "pipe_env \<Rightarrow> json \<Rightarrow> string" where
  "or_text E j = py_strip (if truthy j then py_str E j else [])"

definition label_for :: "pipe_env \<Rightarrow> obj \<Rightarrow> string" where
  "label_for E p =
     (let text = (\<lambda>k. case jget p k of JStr s \<Rightarrow> py_strip s | _ \<Rightarrow> []) in
      if text ''label'' \<noteq> [] then text ''label''
      else if text ''name'' \<noteq> [] then text ''name''
      else or_text E (jget p ''id''))"

definition phase_signature :: "pipe_env \<Rightarrow> obj \<Rightarrow> string \<times> string \<times> string" where
  "phase_signature E p = (label_for E p, or_text E (jget p ''subsystem''), or_text E (jget p ''artifact''))"

fun detect_renames :: "pipe_env \<Rightarrow> obj list \<Rightarrow> obj list \<Rightarrow> (obj \<times> obj) list \<times> obj list \<times> obj list" where
  "detect_renames E [] rems = ([], [], rems)"
| "detect_renames E (a # adds) rems =
     (let sig = phase_signature E a in
      if sig = ([], [], []) then (let (rn, al, rl) = detect_renames E adds rems in (rn, a # al, rl))
      else case find (\<lambda>r. phase_signature E r = sig) rems of
        Some r \<Rightarrow> (let (rn, al, rl) = detect_renames E adds (remove1 r rems) in ((r, a) # rn, al, rl))
      | None \<Rightarrow> (let (rn, al, rl) = detect_renames E adds rems in (rn, a # al, rl)))"

definition can_auto_migrate :: "evolution_type \<Rightarrow> bool" where
  "can_auto_migrate t = (t \<in> {Phase_added, Phase_reordered})"

definition mk_event ::
  "evolution_type \<Rightarrow> string \<Rightarrow> string \<Rightarrow> json \<Rightarrow> string \<Rightarrow> obj \<Rightarrow> (pipe_error, evolution_event) res" where
  "mk_event t vo vn pid rationale detail = (case pid of
     JStr s \<Rightarrow> Inr \<lparr>ev_type = t, ev_version_old = vo, ev_version_new = vn, ev_phase_id = s, ev_affected = [],
       ev_auto_migratable = can_auto_migrate t, ev_rationale = rationale, ev_detail = detail\<rparr>
   | _ \<Rightarrow> Inl Shape_error)"

definition rename_event :: "pipe_env \<Rightarrow> string \<Rightarrow> string \<Rightarrow> obj \<times> obj \<Rightarrow> (pipe_error, evolution_event) res" where
  "rename_event E vo vn on =
     (let old = fst on; new = snd on in
      mk_event Phase_renamed vo vn (jget new ''id'')
        (''phase id changed ('' @ pe_repr E (jget old ''id'') @ '' -> '' @ pe_repr E (jget new ''id'') @ ''); label='' @
          pe_repr E (JStr (label_for E new)) @ '', subsystem/artifact unchanged'')
        [(''from'', jget old ''id''), (''to'', jget new ''id''), (''label'', JStr (label_for E new)),
         (''from_label'', JStr (label_for E old)), (''subsystem'', JStr (or_text E (jget new ''subsystem''))),
         (''artifact'', JStr (or_text E (jget new ''artifact'')))])"

text \<open>The first position at which the common phases stand in a different order.\<close>

fun first_moved :: "json list \<Rightarrow> json list \<Rightarrow> json option" where
  "first_moved old [] = None"
| "first_moved [] (n # new) = Some n"
| "first_moved (x # old) (n # new) = (if x \<noteq> n then Some n else first_moved old new)"

definition reorder_events ::
  "pipe_env \<Rightarrow> string \<Rightarrow> string \<Rightarrow> json list \<Rightarrow> json list \<Rightarrow> (pipe_error, evolution_event list) res" where
  "reorder_events E vo vn oo no =
     (if oo \<noteq> no \<and> oo \<noteq> [] \<and> no \<noteq> [] then
        (case first_moved oo no of None \<Rightarrow> Inr []
         | Some pid \<Rightarrow> rbind (mk_event Phase_reordered vo vn pid (''phase order changed at '' @ pe_repr E pid)
             [(''old_order'', JList oo), (''new_order'', JList no)]) (\<lambda>e. Inr [e]))
      else Inr [])"

definition change_events ::
  "pipe_env \<Rightarrow> string \<Rightarrow> string \<Rightarrow> json \<times> obj \<times> obj \<Rightarrow> (pipe_error, evolution_event list) res" where
  "change_events E vo vn x =
     (let pid = fst x; old = fst (snd x); new = snd (snd x) in
      rbind (if jget old ''gate'' \<noteq> jget new ''gate'' then
          rbind (mk_event Gate_changed vo vn pid (''gate on '' @ pe_repr E pid @ '' changed'')
            [(''old_gate'', jget old ''gate''), (''new_gate'', jget new ''gate'')]) (\<lambda>e. Inr [e]) else Inr []) (\<lambda>gs.
      rbind (if jget old ''rollback_to'' \<noteq> jget new ''rollback_to'' then
          rbind (mk_event Rollback_changed vo vn pid (''rollback_to on '' @ pe_repr E pid @ '' changed'')
            [(''old_rollback_to'', jget old ''rollback_to''), (''new_rollback_to'', jget new ''rollback_to'')])
            (\<lambda>e. Inr [e]) else Inr []) (\<lambda>rs. Inr (gs @ rs))))"

definition detect_evolution_events :: "pipe_env \<Rightarrow> manifest \<Rightarrow> manifest \<Rightarrow> (pipe_error, evolution_event list) res" where
  "detect_evolution_events E old new =
     (let vo = compute_pipeline_version E old; vn = compute_pipeline_version E new in
      if vo = vn then Inr [] else
      let om = phase_map old; nm = phase_map new;
          added = map snd (filter (\<lambda>kp. map_of om (fst kp) = None) nm);
          removed = map snd (filter (\<lambda>kp. map_of nm (fst kp) = None) om);
          (renames, adds_left, rems_left) = detect_renames E added removed;
          common = map (\<lambda>kp. (fst kp, snd kp, the (map_of nm (fst kp)))) (filter (\<lambda>kp. map_of nm (fst kp) \<noteq> None) om) in
      rbind (rcheck (list_all hashable (phase_order old @ phase_order new))) (\<lambda>_.
      rbind (rmap (rename_event E vo vn) renames) (\<lambda>e1.
      rbind (rmap (\<lambda>p. mk_event Phase_added vo vn (jget p ''id'') (''new phase '' @ pe_repr E (jget p ''id'')) []) adds_left) (\<lambda>e2.
      rbind (rmap (\<lambda>p. mk_event Phase_removed vo vn (jget p ''id'')
          (''phase '' @ pe_repr E (jget p ''id'') @ '' removed'') []) rems_left) (\<lambda>e3.
      rbind (reorder_events E vo vn (filter (\<lambda>k. map_of nm k \<noteq> None) (phase_order old))
          (filter (\<lambda>k. map_of om k \<noteq> None) (phase_order new))) (\<lambda>e4.
      rbind (rmap (change_events E vo vn) common) (\<lambda>e5.
        Inr (e1 @ e2 @ e3 @ e4 @ concat e5))))))))"

definition text_lines :: "string \<Rightarrow> string list" where
  "text_lines s = map (map char_of) (code_lines [] (map of_char s))"

definition affected_projects :: "lock_env \<Rightarrow> evolution_event \<Rightarrow> string list lock_eff" where
  "affected_projects L ev = psql_bound L [ev_version_old ev]
     (\<lambda>out. ereturn (filter (\<lambda>s. py_strip s \<noteq> []) (text_lines out)))
     (eread (\<lambda>db. filter (\<lambda>s. py_strip s \<noteq> []) (map pj_uuid
       (filter (\<lambda>r. pj_version r = Some (le_bind L (ev_version_old ev)) \<and> pj_status r \<in> {''active'', ''paused''}) (lk_projects db)))))"

record migration_plan =
  mp_project_id :: string
  mp_event :: evolution_event
  mp_steps :: "string list"
  mp_requires_user_action :: bool
  mp_blockers :: "string list"

definition current_phase_of :: "lock_env \<Rightarrow> string \<Rightarrow> string lock_eff" where
  "current_phase_of L pid = psql_bound L [pid] ereturn (eread (\<lambda>db.
     case find (row_matches L pid) (lk_projects db) of None \<Rightarrow> [] | Some r \<Rightarrow> py_strip (pj_phase r)))"

definition make_migration_plan :: "lock_env \<Rightarrow> evolution_event \<Rightarrow> string \<Rightarrow> migration_plan lock_eff" where
  "make_migration_plan L ev pid =
     ebind (current_phase_of L pid) (\<lambda>cur.
     let E = le_pipe L;
         old_id = jget (ev_detail ev) ''from''; new_id = jget (ev_detail ev) ''to'' in
     ereturn \<lparr>mp_project_id = pid, mp_event = ev,
       mp_steps = [''capability_check actor (require can_modify_sdlc_pipeline)'',
           ''diff lock vs target version '' @ ev_version_new ev] @
         (if ev_type ev = Phase_renamed \<and> JStr cur = old_id
          then [''rewrite project.current_phase: '' @ py_str E old_id @ '' -> '' @ py_str E new_id,
                ''rewrite phase_history.phase rows for this project (same swap)''] else []) @
         (if ev_type ev = Gate_changed
          then [''surface gate change for '' @ pe_repr E (JStr (ev_phase_id ev)) @ '' to operator''] else []) @
         [''project_lock.migrate_locked_project(...) writes lock + audit''],
       mp_requires_user_action = (\<not> ev_auto_migratable ev \<or> ev_type ev \<in> {Phase_renamed, Gate_changed}),
       mp_blockers = (if ev_type ev = Phase_removed \<and> cur = ev_phase_id ev
         then [''project is currently in '' @ [CHR 0x27] @ ev_phase_id ev @ [CHR 0x27] @ '', which the new manifest removes''] else [])\<rparr>)"

datatype migration_outcome = Dry_run string evolution_type "string list" | Migrated migration_result

definition execute_migration ::
  "lock_env \<Rightarrow> migration_plan \<Rightarrow> string \<Rightarrow> string option \<Rightarrow> bool \<Rightarrow> migration_outcome lock_eff" where
  "execute_migration L plan actor rationale dry_run =
     ebind (eguard (mp_blockers plan = []) Migration_blocked) (\<lambda>_.
     if dry_run then ereturn (Dry_run (mp_project_id plan) (ev_type (mp_event plan)) (mp_steps plan)) else
     ebind (elift (load_pipeline (le_pipe L) (Some (mp_project_id plan)) None JNull)) (\<lambda>m.
     ebind (migrate_locked_project L (mp_project_id plan) m actor rationale) (\<lambda>r. ereturn (Migrated r))))"

record evolution_summary =
  er_from :: string
  er_to :: string
  er_event_count :: nat
  er_auto_migratable_count :: nat
  er_manual_review_count :: nat
  er_events :: "evolution_event list"

text \<open>A project locked to a version, \<open>None\<close> when the query returns no text.\<close>

definition project_locked_to :: "lock_env \<Rightarrow> string \<Rightarrow> string option lock_eff" where
  "project_locked_to L ver = psql_bound L [ver] (\<lambda>out. ereturn (if out = [] then None else Some out)) (eread (\<lambda>db.
     case find (\<lambda>r. pj_version r = Some (le_bind L ver)) (lk_projects db) of
       None \<Rightarrow> None | Some r \<Rightarrow> (let s = py_strip (pj_uuid r) in if s = [] then None else Some s)))"

fun fill_affected :: "lock_env \<Rightarrow> evolution_event list \<Rightarrow> evolution_event list lock_eff" where
  "fill_affected L [] = ereturn []"
| "fill_affected L (ev # evs) =
     ebind (affected_projects L ev) (\<lambda>ps.
     ebind (fill_affected L evs) (\<lambda>rest. ereturn (ev\<lparr>ev_affected := ps\<rparr> # rest)))"

text \<open>\<open>None\<close> is the answer that no project is locked to one of the versions.\<close>

definition evolution_report :: "lock_env \<Rightarrow> string \<Rightarrow> string \<Rightarrow> evolution_summary option lock_eff" where
  "evolution_report L old new =
     ebind (project_locked_to L old) (\<lambda>a.
     ebind (project_locked_to L new) (\<lambda>b.
     case (a, b) of
       (Some pa, Some pb) \<Rightarrow>
         ebind (get_locked_pipeline L pa) (\<lambda>ma.
         ebind (get_locked_pipeline L pb) (\<lambda>mb.
         ebind (elift (detect_evolution_events (le_pipe L) ma mb)) (\<lambda>evs0.
         ebind (fill_affected L evs0) (\<lambda>evs.
           ereturn (Some \<lparr>er_from = old, er_to = new, er_event_count = length evs,
             er_auto_migratable_count = length (filter ev_auto_migratable evs),
             er_manual_review_count = length (filter (\<lambda>e. \<not> ev_auto_migratable e) evs), er_events = evs\<rparr>)))))
     | _ \<Rightarrow> ereturn None))"

section \<open>Renames\<close>

text \<open>
  The rename heuristic loses nothing and pairs everything it can: renamed and added phases
  together are the phases that are new, renamed and removed ones together those that are gone, counted
  with multiplicity; the two sides of a rename have the same non-empty signature of label, subsystem and
  artifact; and no added phase left over has the signature of a removed phase left over, unless it is empty.
\<close>

theorem renames_partition:
  assumes "detect_renames E adds rems = (rn, al, rl)"
  shows "mset (map snd rn) + mset al = mset adds \<and> mset (map fst rn) + mset rl = mset rems \<and>
    (\<forall>(r, a) \<in> set rn. phase_signature E r = phase_signature E a \<and> phase_signature E a \<noteq> ([], [], [])) \<and>
    (\<forall>a \<in> set al. \<forall>r \<in> set rl. phase_signature E a = phase_signature E r \<longrightarrow> phase_signature E a = ([], [], []))"
  using assms
proof (induction E adds rems arbitrary: rn al rl rule: detect_renames.induct)
  case (2 E a adds rems)
  let ?sig = "phase_signature E a"
  consider (empty) "?sig = ([], [], [])" | (new) "?sig \<noteq> ([], [], [])" "find (\<lambda>r. phase_signature E r = ?sig) rems = None"
    | (renamed) r where "?sig \<noteq> ([], [], [])" "find (\<lambda>r. phase_signature E r = ?sig) rems = Some r"
    by (cases "find (\<lambda>r. phase_signature E r = ?sig) rems") auto
  then show ?case
  proof cases
    case empty
    then obtain al' where d: "detect_renames E adds rems = (rn, al', rl)" "al = a # al'"
      using "2.prems" by (auto simp: Let_def split: prod.splits)
    show ?thesis using "2.IH"(1) [OF refl empty d(1)] d(2) empty by (auto simp: Let_def)
  next
    case new
    then obtain al' where d: "detect_renames E adds rems = (rn, al', rl)" "al = a # al'"
      using "2.prems" by (auto simp: Let_def split: prod.splits)
    have ih: "mset (map snd rn) + mset al' = mset adds" "mset (map fst rn) + mset rl = mset rems"
      "\<forall>(r, a) \<in> set rn. phase_signature E r = phase_signature E a \<and> phase_signature E a \<noteq> ([], [], [])"
      "\<forall>a \<in> set al'. \<forall>r \<in> set rl. phase_signature E a = phase_signature E r \<longrightarrow> phase_signature E a = ([], [], [])"
      using "2.IH"(2) [OF refl new d(1)] by blast+
    have "set rl \<subseteq> set rems" by (metis ih(2) mset_subset_eq_add_right set_mset_mono set_mset_mset)
    then have "\<forall>r \<in> set rl. ?sig \<noteq> phase_signature E r" using new(2) by (auto simp: find_None_all)
    with ih d(2) show ?thesis by auto
  next
    case (renamed r)
    then obtain rn' where d: "detect_renames E adds (remove1 r rems) = (rn', al, rl)" "rn = (r, a) # rn'"
      using "2.prems" by (auto simp: Let_def split: prod.splits)
    have r: "r \<in> set rems" "phase_signature E r = ?sig" using find_Some_mem [OF renamed(2)] by auto
    show ?thesis using "2.IH"(3) [OF refl renamed d(1)] d(2) r renamed(1) by auto
  qed
qed simp


section \<open>Migration\<close>

lemma need_db_state [simp]: "snd (need_db L db) = db"
  by (simp add: need_db_def eff_simps)

lemma read_lock_state [simp]: "snd (read_lock L out db) = db"
  by (simp add: read_lock_def eff_simps Let_def split: option.splits)

lemma get_locked_state: "one_line pid \<Longrightarrow> snd (get_locked_pipeline L pid db) = db"
  by (simp add: get_locked_pipeline_def psql_bound_one_line need_db_def eff_simps split: option.splits)

lemma get_locked_cases: "one_line pid \<Longrightarrow> \<exists>v. get_locked_pipeline L pid db = (v, db)"
  by (metis get_locked_state prod.collapse)

text \<open>
  Documented of the texts that are bound: compact JSON escapes a line feed, and a digest is printed in hexadecimal
  digits, so a version and a snapshot stay on their line.
\<close>

definition bound_texts_ok :: "lock_env \<Rightarrow> bool" where
  "bound_texts_ok L \<longleftrightarrow> (\<forall>m. one_line (compute_pipeline_version (le_pipe L) m) \<and> one_line (snapshot_of (le_pipe L) m))"

lemma lock_audit_value: "fst (lock_audit L action pid md actor rat db) = Inr ()"
  by (simp add: lock_audit_def eff_simps)

lemma lock_audit_projects [simp]: "lk_projects (snd (lock_audit L action pid md actor rat db)) = lk_projects db"
  by (simp add: lock_audit_def eff_simps Let_def)

lemma lock_audit_cases: "\<exists>db'. lock_audit L action pid md actor rat db = (Inr (), db') \<and> lk_projects db' = lk_projects db"
  by (metis lock_audit_projects lock_audit_value prod.collapse)

definition relock :: "lock_env \<Rightarrow> string \<Rightarrow> string \<Rightarrow> string \<Rightarrow> project_row \<Rightarrow> project_row" where
  "relock L pid version stored r = (if row_matches L pid r
     then r\<lparr>pj_version := Some version, pj_snapshot := Some stored\<rparr> else r)"

lemma relock_frame [simp]:
  "pj_uuid (relock L pid v st r) = pj_uuid r" "pj_id (relock L pid v st r) = pj_id r"
  "pj_phase (relock L pid v st r) = pj_phase r" "pj_status (relock L pid v st r) = pj_status r"
  by (simp_all add: relock_def)

lemma lock_project_ok:
  assumes "bound_texts_ok L" and "one_line pid"
    and "le_url L = Some url" and "url \<noteq> []" and "le_jsonb L (le_bind L (snapshot_of (le_pipe L) m)) = Some stored"
  shows "\<exists>db'. lock_project_to_pipeline L pid m db = (Inr (compute_pipeline_version (le_pipe L) m), db') \<and>
    lk_projects db' = map (relock L pid (le_bind L (compute_pipeline_version (le_pipe L) m)) stored) (lk_projects db)"
proof -
  let ?v = "compute_pipeline_version (le_pipe L) m"
  let ?db = "db\<lparr>lk_projects := map (relock L pid (le_bind L ?v) stored) (lk_projects db)\<rparr>"
  obtain db' where audit: "lock_audit L ''project_locked'' pid [(''pipeline_version'', JStr ?v), (''manifest_hash'', JStr ?v)]
      ''system'' (Some ''project locked at start (FR-8 / STORY-1.7.5)'') ?db = (Inr (), db')" "lk_projects db' = lk_projects ?db"
    using lock_audit_cases by blast
  have "lock_project_to_pipeline L pid m db = (Inr ?v, db')"
    using assms audit(1)
    by (simp add: lock_project_to_pipeline_def psql_bound_one_line bound_texts_ok_def need_db_def eff_simps
        relock_def [abs_def] Let_def)
  with audit(2) show ?thesis by simp
qed

lemma lock_project_cases:
  assumes "bound_texts_ok L" and "one_line pid"
  shows "(\<exists>e. lock_project_to_pipeline L pid m db = (Inl e, db)) \<or>
   (\<exists>stored db'. lock_project_to_pipeline L pid m db = (Inr (compute_pipeline_version (le_pipe L) m), db') \<and>
      le_jsonb L (le_bind L (snapshot_of (le_pipe L) m)) = Some stored \<and>
      lk_projects db' = map (relock L pid (le_bind L (compute_pipeline_version (le_pipe L) m)) stored) (lk_projects db))"
proof (cases "le_url L \<noteq> None \<and> le_url L \<noteq> Some [] \<and> le_jsonb L (le_bind L (snapshot_of (le_pipe L) m)) \<noteq> None")
  case True
  then show ?thesis using lock_project_ok [OF assms] by blast
next
  case False
  then show ?thesis
    using assms by (auto simp: lock_project_to_pipeline_def psql_bound_one_line bound_texts_ok_def need_db_def eff_simps
        Let_def split: option.splits)
qed

lemma migrate_locked_cases:
  assumes "bound_texts_ok L" and "one_line pid"
  shows "(\<exists>e. migrate_locked_project L pid new actor rat db = (Inl e, db)) \<or>
   (\<exists>r db' stored. migrate_locked_project L pid new actor rat db = (Inr r, db') \<and>
      (\<exists>t. rat = Some t \<and> 8 \<le> length (py_strip t)) \<and> require_capability actor ''can_modify_sdlc_pipeline'' new = Inr () \<and>
      mr_project_id r = pid \<and> mr_to_version r = compute_pipeline_version (le_pipe L) new \<and>
      le_jsonb L (le_bind L (snapshot_of (le_pipe L) new)) = Some stored \<and>
      lk_projects db' = map (relock L pid (le_bind L (compute_pipeline_version (le_pipe L) new)) stored) (lk_projects db))"
proof (cases "migrate_locked_project L pid new actor rat db")
  case (Pair v db')
  obtain g where g: "get_locked_pipeline L pid db = (g, db)" using get_locked_cases [OF assms(2)] by blast
  show ?thesis
  proof (cases "\<exists>t old d. assert_rationale actor ''can_modify_sdlc_pipeline'' rat = Inr t \<and>
      require_capability actor ''can_modify_sdlc_pipeline'' new = Inr () \<and> g = Inr old \<and> diff_manifests old new = Inr d")
    case False
    then show ?thesis
      by (auto simp: migrate_locked_project_def eff_simps g Let_def split: sum.splits)
  next
    case True
    then obtain t old d where ok: "assert_rationale actor ''can_modify_sdlc_pipeline'' rat = Inr t"
      "require_capability actor ''can_modify_sdlc_pipeline'' new = Inr ()" "g = Inr old" "diff_manifests old new = Inr d" by blast
    have rat: "\<exists>t. rat = Some t \<and> 8 \<le> length (py_strip t)"
      using ok(1) by (auto simp: assert_rationale_def split: option.splits if_splits)
    from lock_project_cases [OF assms, of new db] show ?thesis
    proof (elim disjE exE conjE)
      fix e assume "lock_project_to_pipeline L pid new db = (Inl e, db)"
      with ok g show ?thesis by (simp add: migrate_locked_project_def eff_simps Let_def)
    next
      fix stored db1
      assume l: "lock_project_to_pipeline L pid new db = (Inr (compute_pipeline_version (le_pipe L) new), db1)"
        "le_jsonb L (le_bind L (snapshot_of (le_pipe L) new)) = Some stored"
        "lk_projects db1 = map (relock L pid (le_bind L (compute_pipeline_version (le_pipe L) new)) stored) (lk_projects db)"
      let ?a = "lock_audit L ''project_pipeline_migrated'' pid
       [(''from_version'', JStr (compute_pipeline_version (le_pipe L) old)),
        (''to_version'', JStr (compute_pipeline_version (le_pipe L) new)), (''diff'', diff_json d)] actor (Some t) db1"
      obtain db2 where a: "?a = (Inr (), db2)" "lk_projects db2 = lk_projects db1" using lock_audit_cases by blast
      have "migrate_locked_project L pid new actor rat db = (Inr \<lparr>mr_project_id = pid,
          mr_from_version = compute_pipeline_version (le_pipe L) old,
          mr_to_version = compute_pipeline_version (le_pipe L) new, mr_diff = d\<rparr>, db2)"
        using ok g l(1) a(1) by (simp add: migrate_locked_project_def eff_simps Let_def)
      with rat ok(2) l(2,3) a(2) show ?thesis by simp
    qed
  qed
qed


text \<open>
  Under the shipped default manifest a locked project can never be migrated: for every
  organisation bundle and team file, every actor and every rationale, \<open>execute_migration\<close> without
  \<open>dry_run\<close> raises and leaves the database as it was.
\<close>

theorem shipped_default_never_migrates:
  assumes "pe_default (le_pipe L) = JDict base" and "jget base ''capabilities'' = shipped_capabilities"
  shows "isl (run_value (execute_migration L plan actor rat False) db) \<and>
    run_state (execute_migration L plan actor rat False) db = db"
proof (cases "mp_blockers plan = []")
  case True
  show ?thesis
  proof (cases "load_pipeline (le_pipe L) (Some (mp_project_id plan)) None JNull")
    case (Inr m)
    have "require_capability actor ''can_modify_sdlc_pipeline'' m \<noteq> Inr ()"
      using no_principal_no_capability [OF assms Inr] by blast
    then obtain e where "require_capability actor ''can_modify_sdlc_pipeline'' m = Inl e"
      by (cases "require_capability actor ''can_modify_sdlc_pipeline'' m") auto
    then have "\<exists>e. migrate_locked_project L (mp_project_id plan) m actor rat db = (Inl e, db)"
      unfolding migrate_locked_project_def ebind_apply elift_apply
      by (cases "assert_rationale actor ''can_modify_sdlc_pipeline'' rat") auto
    then show ?thesis
      using True Inr by (auto simp: execute_migration_def eff_simps)
  qed (use True in \<open>simp add: execute_migration_def eff_simps\<close>)
qed (simp add: execute_migration_def eff_simps)

lemma row_matches_relock [simp]: "row_matches L pid (relock L pid v st r) = row_matches L pid r"
  by (simp add: row_matches_def)

lemma find_relock:
  "find (row_matches L pid) (map (relock L pid v st) rows) = map_option (relock L pid v st) (find (row_matches L pid) rows)"
  by (induction rows) auto

lemma current_phase_relock:
  assumes "current_phase_of L pid db = (Inr cur, db)" and "lk_projects db' = map (relock L pid v st) (lk_projects db)"
    and "one_line pid"
  shows "current_phase_of L pid db' = (Inr cur, db')"
  using assms by (auto simp: current_phase_of_def psql_bound_one_line need_db_def eff_simps find_relock split: option.splits if_splits)

text \<open>
  A renamed phase strands the project: when its current phase is the renamed one, the
  plan announces that \<open>project.current_phase\<close> is rewritten to the new id, and executing that plan
  re-locks the project but leaves the current phase at the id the new manifest no longer has.
\<close>

theorem rename_migration_strands_project:
  assumes "ev_type ev = Phase_renamed" and "jget (ev_detail ev) ''from'' = JStr old"
    and "jget (ev_detail ev) ''to'' = JStr new" and "current_phase_of L pid db = (Inr old, db)"
    and "make_migration_plan L ev pid db = (Inr plan, db)"
    and "execute_migration L plan actor rat False db = (Inr out, db')" and "bound_texts_ok L" and "one_line pid"
  shows "''rewrite project.current_phase: '' @ old @ '' -> '' @ new \<in> set (mp_steps plan) \<and>
    current_phase_of L pid db' = (Inr old, db')"
proof
  have plan: "mp_project_id plan = pid" "''rewrite project.current_phase: '' @ old @ '' -> '' @ new \<in> set (mp_steps plan)"
    using assms(1,2,3,5) by (auto simp: make_migration_plan_def assms(4) eff_simps Let_def py_str_def)
  then show "''rewrite project.current_phase: '' @ old @ '' -> '' @ new \<in> set (mp_steps plan)" by simp
  obtain m where m: "load_pipeline (le_pipe L) (Some pid) None JNull = Inr m"
    using assms(6) plan(1) by (auto simp: execute_migration_def eff_simps split: if_splits sum.splits prod.splits)
  obtain r where mig: "migrate_locked_project L pid m actor rat db = (Inr r, db')"
    using assms(6) plan(1) m by (auto simp: execute_migration_def eff_simps split: if_splits sum.splits prod.splits)
  have "\<exists>v st. lk_projects db' = map (relock L pid v st) (lk_projects db)"
    using migrate_locked_cases [OF assms(7,8), of m actor rat db] unfolding mig by (simp del: map_eq_conv) blast
  then show "current_phase_of L pid db' = (Inr old, db')" using current_phase_relock [OF assms(4) _ assms(8)] by blast
qed

section \<open>A lock is read back\<close>

text \<open>A manifest as \<open>load_pipeline\<close> makes it: its extra fields are distinct and not declared ones.\<close>

definition manifest_ok :: "manifest \<Rightarrow> bool" where
  "manifest_ok m = (distinct (map fst (m_extra m)) \<and> set (map fst (m_extra m)) \<inter> set declared_fields = {})"

lemma make_manifest_ok: "make_manifest E d r ch = Inr m \<Longrightarrow> dict_ok d \<Longrightarrow> manifest_ok m"
  by (auto simp: make_manifest_def rbind_eq_Inr manifest_ok_def distinct_map_filter split: option.splits json.splits)

lemma map_of_mset_eq: "mset xs = mset ys \<Longrightarrow> distinct (map fst ys) \<Longrightarrow> map_of xs = map_of ys"
  by (metis map_of_inject_set mset_eq_imp_distinct_iff mset_eq_setD mset_map)

lemma manifest_body_keys: "manifest_ok m \<Longrightarrow> distinct (map fst (manifest_body m))"
  by (auto simp: manifest_ok_def manifest_body_def declared_fields_def)

lemma rmap_as_obj: "rmap as_obj (map JDict ds) = Inr ds"
  by (induction ds) (auto simp: as_obj_def)

lemma filter_extra: "manifest_ok m \<Longrightarrow> filter (\<lambda>kv. fst kv \<notin> set declared_fields) (manifest_body m) = m_extra m"
  by (auto simp: manifest_body_def manifest_ok_def declared_fields_def filter_id_conv image_iff disjoint_iff)

lemma make_manifest_body:
  assumes "mset body = mset (manifest_body m)" and "manifest_ok m" and "pe_lax_int E (JInt (m_version m)) = Some (m_version m)"
  shows "\<exists>ex. mset ex = mset (m_extra m) \<and>
    make_manifest E body v ch = Inr (m\<lparr>m_resolved_version := v, m_inheritance_chain := ch, m_extra := ex\<rparr>)"
proof -
  have mo: "map_of body = map_of (manifest_body m)" using map_of_mset_eq [OF assms(1) manifest_body_keys [OF assms(2)]] .
  let ?ex = "filter (\<lambda>kv. fst kv \<notin> set declared_fields) body"
  have "mset ?ex = mset (m_extra m)" using filter_extra [OF assms(2)] assms(1) by (metis mset_filter)
  moreover have "make_manifest E body v ch = Inr (m\<lparr>m_resolved_version := v, m_inheritance_chain := ch, m_extra := ?ex\<rparr>)"
    using assms(3) by (cases m) (simp add: make_manifest_def dict_field_def mo manifest_body_def rmap_as_obj as_obj_def)
  ultimately show ?thesis by blast
qed

lemma compute_version_mset:
  assumes "\<And>d d'. mset d = mset d' \<Longrightarrow> pe_canonical E d = pe_canonical E d'" and "mset ex = mset (m_extra m)"
  shows "compute_pipeline_version E (m\<lparr>m_resolved_version := v, m_inheritance_chain := ch, m_extra := ex\<rparr>) =
    compute_pipeline_version E m"
  using assms(1) [of "manifest_body (m\<lparr>m_resolved_version := v, m_inheritance_chain := ch, m_extra := ex\<rparr>)" "manifest_body m"] assms(2)
  by (simp add: compute_pipeline_version_def manifest_body_def)

lemma raw_row_parts:
  assumes "CHR ''|'' \<notin> set sha" and "snap \<noteq> []" and "\<not> py_space (last snap)"
  shows "py_partition (CHR ''|'') (py_strip ((''sha256:'' @ sha) @ ''|'' @ snap)) = (''sha256:'' @ sha, snap)"
proof -
  have "no_edge_space ((''sha256:'' @ sha) @ ''|'' @ snap)"
    using assms(2,3) by (simp add: no_edge_space_def py_space_def)
  then have "py_strip ((''sha256:'' @ sha) @ ''|'' @ snap) = (''sha256:'' @ sha) @ ''|'' @ snap" by (rule py_strip_id)
  then show ?thesis
    using assms(1) by (simp add: py_partition_def takeWhile_append2 dropWhile_append2 takeWhile_append dropWhile_append)
qed

text \<open>
  Claim C27. A lock is read back: after a project that exists is locked to a manifest, reading the lock
  returns a manifest of the same version, and the project is not drifted with respect to the manifest it
  was locked to. It needs an id without a line feed, that psql binds the version and the snapshot text unchanged (they hold no
  backslash), that \<open>jsonb\<close> keeps the items of the snapshot in some order, that the canonical text
  does not depend on that order, and that the digest is printed without a bar.
\<close>

theorem locked_project_not_drifted:
  assumes "lock_project_to_pipeline L pid m db = (Inr version, db')" and "\<exists>r \<in> set (lk_projects db). row_matches L pid r"
    and "manifest_ok m" and "pe_lax_int (le_pipe L) (JInt (m_version m)) = Some (m_version m)"
    and bind: "le_bind L version = version" "le_bind L (snapshot_of (le_pipe L) m) = snapshot_of (le_pipe L) m"
    and jsonb: "le_jsonb L (snapshot_of (le_pipe L) m) = Some stored" "stored \<noteq> []" "\<not> py_space (last stored)"
    and loads: "le_loads L stored = Some body" "mset body = mset (manifest_body m)"
    and sorted_keys: "\<And>d d'. mset d = mset d' \<Longrightarrow> pe_canonical (le_pipe L) d = pe_canonical (le_pipe L) d'"
    and sha: "CHR ''|'' \<notin> set (pe_sha (le_pipe L) (snapshot_of (le_pipe L) m))"
    and lines: "bound_texts_ok L" "one_line pid"
  shows "\<exists>m'. get_locked_pipeline L pid db' = (Inr m', db') \<and> m_resolved_version m' = version \<and>
      compute_pipeline_version (le_pipe L) m' = version \<and> is_pipeline_drifted L pid (Some m) db' = (Inr False, db')"
proof -
  have v: "version = compute_pipeline_version (le_pipe L) m"
    and rows: "lk_projects db' = map (relock L pid version stored) (lk_projects db)"
    using assms(1) lock_project_cases [OF lines, of m db] bind jsonb(1) by (auto simp del: map_eq_conv)
  obtain r where r: "find (row_matches L pid) (lk_projects db) = Some r" "row_matches L pid r"
    using assms(2) by (metis find_None_all find_Some_mem not_None_eq)
  have parts: "py_partition (CHR ''|'') (py_strip (version @ ''|'' @ stored)) = (version, stored)"
    using raw_row_parts [of "pe_sha (le_pipe L) (snapshot_of (le_pipe L) m)" stored] sha jsonb(2,3)
    by (simp add: v compute_pipeline_version_def snapshot_of_def)
  have chain: "map_of body ''inheritance_chain'' = None" "map_of body ''resolved_version'' = None"
    using map_of_mset_eq [OF loads(2) manifest_body_keys [OF assms(3)]] assms(3)
    by (auto simp: manifest_body_def manifest_ok_def declared_fields_def map_of_eq_None_iff)
  obtain ex where ex: "mset ex = mset (m_extra m)"
    "make_manifest (le_pipe L) body version [] = Inr (m\<lparr>m_resolved_version := version, m_inheritance_chain := [], m_extra := ex\<rparr>)"
    using make_manifest_body [OF loads(2) assms(3,4)] by blast
  have "le_url L \<noteq> None \<and> le_url L \<noteq> Some []"
    using assms(1) by (auto simp: lock_project_to_pipeline_def psql_bound_def need_db_def eff_simps Let_def split: if_splits)
  then have get: "get_locked_pipeline L pid db' =
      (Inr (m\<lparr>m_resolved_version := version, m_inheritance_chain := [], m_extra := ex\<rparr>), db')"
    using r jsonb(2) loads(1) chain ex(2) parts
    by (simp add: get_locked_pipeline_def psql_bound_one_line lines(2) read_lock_def need_db_def eff_simps rows find_relock
        relock_def opt_str_def Let_def stored_version_def stored_chain_def) (auto simp: py_partition_def)
  with compute_version_mset [OF sorted_keys ex(1)] v show ?thesis
    by (simp add: is_pipeline_drifted_def eff_simps)
qed

section \<open>Examples\<close>

definition demo_pipe_manifest :: manifest where
  "demo_pipe_manifest = demo_manifest [(''grants'', JDict [(''can_modify_sdlc_pipeline'', JList [JStr ''role:pm'', JStr ''user:*''])])]
     [''default:sdlc-pipeline-default.yaml'']"

definition demo_lock_env :: "json \<Rightarrow> lock_env" where
  "demo_lock_env caps = \<lparr>le_pipe = demo_pipe_env caps JNull, le_codec = demo_audit_codec, le_url = Some ''db'',
     le_redact_env = None, le_bind = (\<lambda>s. s), le_broken = (\<lambda>vs db. (None, db)), le_jsonb = Some,
     le_loads = (\<lambda>s. if s = ''c'' then Some (manifest_body demo_pipe_manifest) else None), le_uuid = int, le_now = 0\<rparr>"

definition demo_lock_db :: lock_db where
  "demo_lock_db = \<lparr>lk_projects = [\<lparr>pj_uuid = ''u1'', pj_id = ''1'', pj_version = Some ''v'', pj_snapshot = Some ''c'',
     pj_status = ''active'', pj_phase = ''plan''\<rparr>], lk_audit = demo_audit_db\<rparr>"

definition demo_rename :: evolution_event where
  "demo_rename = \<lparr>ev_type = Phase_renamed, ev_version_old = ''v'', ev_version_new = ''w'', ev_phase_id = ''design'',
     ev_affected = [], ev_auto_migratable = False, ev_rationale = [], ev_detail = [(''from'', JStr ''plan''), (''to'', JStr ''design'')]\<rparr>"

definition demo_plan :: migration_plan where
  "demo_plan = \<lparr>mp_project_id = ''1'', mp_event = demo_rename,
     mp_steps = [''capability_check actor (require can_modify_sdlc_pipeline)'', ''diff lock vs target version w'',
       ''rewrite project.current_phase: plan -> design'', ''rewrite phase_history.phase rows for this project (same swap)'',
       ''project_lock.migrate_locked_project(...) writes lock + audit''],
     mp_requires_user_action = True, mp_blockers = []\<rparr>"

definition demo_added :: evolution_event where
  "demo_added = demo_rename\<lparr>ev_type := Phase_added, ev_auto_migratable := True, ev_detail := []\<rparr>"

definition demo_add_plan :: migration_plan where
  "demo_add_plan = \<lparr>mp_project_id = ''1'', mp_event = demo_added,
     mp_steps = [''capability_check actor (require can_modify_sdlc_pipeline)'', ''diff lock vs target version w'',
       ''project_lock.migrate_locked_project(...) writes lock + audit''],
     mp_requires_user_action = False, mp_blockers = []\<rparr>"

lemma demo_texts_ok: "bound_texts_ok (demo_lock_env caps)"
  by (simp add: bound_texts_ok_def demo_lock_env_def demo_pipe_env_def one_line_def compute_pipeline_version_def snapshot_of_def)

lemma demo_one_line: "one_line ''1''"
  by (simp add: one_line_def)

lemma demo_lock_load: "load_pipeline (le_pipe (demo_lock_env demo_grants)) (Some ''1'') None JNull = Inr demo_pipe_manifest"
  by code_simp

lemma demo_require: "require_capability ''role:pm'' ''can_modify_sdlc_pipeline'' demo_pipe_manifest = Inr ()"
  by code_simp

lemma demo_get: "get_locked_pipeline (demo_lock_env caps) ''1'' demo_lock_db = (Inr
    (demo_pipe_manifest\<lparr>m_resolved_version := ''v'', m_inheritance_chain := []\<rparr>), demo_lock_db)"
  by code_simp

lemma demo_lock: "\<exists>db'. lock_project_to_pipeline (demo_lock_env demo_grants) ''1'' demo_pipe_manifest demo_lock_db =
    (Inr (compute_pipeline_version (le_pipe (demo_lock_env demo_grants)) demo_pipe_manifest), db')"
proof -
  have "le_url (demo_lock_env demo_grants) = Some ''db''"
    "le_jsonb (demo_lock_env demo_grants) (le_bind (demo_lock_env demo_grants)
       (snapshot_of (le_pipe (demo_lock_env demo_grants)) demo_pipe_manifest)) = Some ''c''"
    by code_simp+
  from lock_project_ok [OF demo_texts_ok demo_one_line this(1) _ this(2)] show ?thesis by blast
qed

lemma demo_executes:
  assumes "mp_project_id plan = ''1''" and "mp_blockers plan = []"
  shows "\<exists>r db'. execute_migration (demo_lock_env demo_grants) plan ''role:pm'' (Some ''long enough'') False demo_lock_db =
    (Inr (Migrated r), db')"
proof -
  let ?L = "demo_lock_env demo_grants"
  have parts: "assert_rationale ''role:pm'' ''can_modify_sdlc_pipeline'' (Some ''long enough'') = Inr ''long enough''"
    "\<not> isl (diff_manifests (demo_pipe_manifest\<lparr>m_resolved_version := ''v'', m_inheritance_chain := []\<rparr>) demo_pipe_manifest)"
    by code_simp+
  then obtain d where d: "diff_manifests (demo_pipe_manifest\<lparr>m_resolved_version := ''v'', m_inheritance_chain := []\<rparr>) demo_pipe_manifest = Inr d"
    by (metis sum.collapse(2))
  obtain db1 where l: "lock_project_to_pipeline ?L ''1'' demo_pipe_manifest demo_lock_db =
      (Inr (compute_pipeline_version (le_pipe ?L) demo_pipe_manifest), db1)"
    using demo_lock by blast
  show ?thesis
    using parts(1) d l demo_lock_load demo_require demo_get
    by (auto simp: execute_migration_def migrate_locked_project_def eff_simps assms Let_def lock_audit_def)
qed

theorem renames_partition_witness:
  "detect_renames (demo_pipe_env JNull JNull) [[(''id'', JStr ''b''), (''label'', JStr ''L'')], [(''id'', JStr ''c'')]]
      [[(''id'', JStr ''a''), (''label'', JStr ''L'')]] =
     ([([(''id'', JStr ''a''), (''label'', JStr ''L'')], [(''id'', JStr ''b''), (''label'', JStr ''L'')])], [[(''id'', JStr ''c'')]], []) \<and>
   mset (map snd [([(''id'', JStr ''a''), (''label'', JStr ''L'')], [(''id'', JStr ''b''), (''label'', JStr ''L'')])]) + mset [[(''id'', JStr ''c'')]] =
     mset [[(''id'', JStr ''b''), (''label'', JStr ''L'')], [(''id'', JStr ''c'')]]"
proof -
  have d: "detect_renames (demo_pipe_env JNull JNull) [[(''id'', JStr ''b''), (''label'', JStr ''L'')], [(''id'', JStr ''c'')]]
      [[(''id'', JStr ''a''), (''label'', JStr ''L'')]] =
     ([([(''id'', JStr ''a''), (''label'', JStr ''L'')], [(''id'', JStr ''b''), (''label'', JStr ''L'')])], [[(''id'', JStr ''c'')]], [])"
    by code_simp
  from renames_partition [OF d] d show ?thesis by blast
qed


theorem shipped_default_never_migrates_witness:
  "isl (run_value (execute_migration (demo_lock_env shipped_capabilities) demo_plan ''role:pm'' (Some ''long enough'') False) demo_lock_db)"
proof -
  have "pe_default (le_pipe (demo_lock_env shipped_capabilities)) = JDict [(''version'', JInt 1), (''org_bundle'', JStr ''d''),
       (''phases'', JList []), (''capabilities'', shipped_capabilities)]" by (simp add: demo_lock_env_def demo_pipe_env_def)
  from shipped_default_never_migrates [OF this] show ?thesis by (simp add: jget_def)
qed

theorem rename_migration_strands_project_witness:
  "\<exists>r db'. execute_migration (demo_lock_env demo_grants) demo_plan ''role:pm'' (Some ''long enough'') False demo_lock_db =
      (Inr (Migrated r), db') \<and> ''rewrite project.current_phase: '' @ ''plan'' @ '' -> '' @ ''design'' \<in> set (mp_steps demo_plan) \<and>
      current_phase_of (demo_lock_env demo_grants) ''1'' db' = (Inr ''plan'', db')"
proof -
  let ?L = "demo_lock_env demo_grants"
  obtain r db' where e: "execute_migration ?L demo_plan ''role:pm'' (Some ''long enough'') False demo_lock_db =
      (Inr (Migrated r), db')" using demo_executes [of demo_plan] by (auto simp: demo_plan_def)
  have ev: "ev_type demo_rename = Phase_renamed" "jget (ev_detail demo_rename) ''from'' = JStr ''plan''"
    "jget (ev_detail demo_rename) ''to'' = JStr ''design''" by (simp_all add: demo_rename_def jget_def)
  have cur: "current_phase_of ?L ''1'' demo_lock_db = (Inr ''plan'', demo_lock_db)" by code_simp
  have plan: "make_migration_plan ?L demo_rename ''1'' demo_lock_db = (Inr demo_plan, demo_lock_db)" by code_simp
  from rename_migration_strands_project [OF ev cur plan e demo_texts_ok demo_one_line] e show ?thesis by blast
qed

theorem locked_project_not_drifted_witness:
  "\<exists>db'. lock_project_to_pipeline (demo_lock_env demo_grants) ''1'' demo_pipe_manifest demo_lock_db = (Inr ''sha256:c'', db') \<and>
     is_pipeline_drifted (demo_lock_env demo_grants) ''1'' (Some demo_pipe_manifest) db' = (Inr False, db')"
proof -
  let ?L = "demo_lock_env demo_grants"
  have v: "compute_pipeline_version (le_pipe ?L) demo_pipe_manifest = ''sha256:c''" "snapshot_of (le_pipe ?L) demo_pipe_manifest = ''c''"
    by code_simp+
  obtain db' where l: "lock_project_to_pipeline ?L ''1'' demo_pipe_manifest demo_lock_db = (Inr ''sha256:c'', db')"
    using demo_lock v by metis
  have row: "\<exists>r \<in> set (lk_projects demo_lock_db). row_matches ?L ''1'' r"
    by (simp add: demo_lock_db_def row_matches_def demo_lock_env_def)
  have ok: "manifest_ok demo_pipe_manifest" by (simp add: manifest_ok_def demo_pipe_manifest_def demo_manifest_def)
  have lax: "pe_lax_int (le_pipe ?L) (JInt (m_version demo_pipe_manifest)) = Some (m_version demo_pipe_manifest)"
    and bind: "le_bind ?L ''sha256:c'' = ''sha256:c''" "le_bind ?L (snapshot_of (le_pipe ?L) demo_pipe_manifest) = snapshot_of (le_pipe ?L) demo_pipe_manifest"
    and jsonb: "le_jsonb ?L (snapshot_of (le_pipe ?L) demo_pipe_manifest) = Some ''c''" "''c'' \<noteq> []" "\<not> py_space (last ''c'')"
    and loads: "le_loads ?L ''c'' = Some (manifest_body demo_pipe_manifest)"
    and sha: "CHR ''|'' \<notin> set (pe_sha (le_pipe ?L) (snapshot_of (le_pipe ?L) demo_pipe_manifest))"
    by (simp_all only: v) (simp_all add: demo_lock_env_def demo_pipe_env_def py_space_def)
  have canon: "\<And>d d'. mset d = mset d' \<Longrightarrow> pe_canonical (le_pipe ?L) d = pe_canonical (le_pipe ?L) d'"
    by (simp add: demo_lock_env_def demo_pipe_env_def)
  from locked_project_not_drifted [OF l row ok lax bind jsonb loads refl canon sha demo_texts_ok demo_one_line] l show ?thesis by blast
qed

end
