(* ===== verification/Approval_Token.thy ===== *)
theory Approval_Token
  imports Secrets Bytes Json
begin

text \<open>
  \<open>orchestrator/lib/approval.py\<close>: the key of the phase gates in the vault and the HMAC-signed
  approval tokens. Python's lenient decoders are modelled as they are: \<open>bytes.fromhex\<close> skips ASCII
  blanks between pairs, and \<open>urlsafe_b64decode\<close> drops characters outside the alphabet. HMAC-SHA256,
  the JSON text of a payload, \<open>str\<close> of a JSON value and the reading and printing of instants are the
  fields of \<open>token_env\<close>. Times are microseconds since the epoch. The tables that \<open>grant\<close> and
  \<open>revoke\<close> write are in the theory of the lifecycle tools.
\<close>

section \<open>Text encodings\<close>

definition ascii_space :: "char \<Rightarrow> bool" where
  "ascii_space c = (c = CHR '' '' \<or> 9 \<le> (of_char c :: nat) \<and> of_char c \<le> (13 :: nat))"

fun py_fromhex :: "string \<Rightarrow> string option" where
  "py_fromhex [] = Some []"
| "py_fromhex (c # cs) =
     (if ascii_space c then py_fromhex cs else case cs of
        [] \<Rightarrow> None
      | d # ds \<Rightarrow> (case (hex_val c, hex_val d, py_fromhex ds) of
          (Some h, Some l, Some bs) \<Rightarrow> Some (char_of (16 * h + l) # bs) | _ \<Rightarrow> None))"

definition url_char :: "char \<Rightarrow> char" where
  "url_char c = (if c = CHR ''+'' then CHR ''-'' else if c = CHR ''/'' then CHR ''_'' else c)"

definition unurl_char :: "char \<Rightarrow> char" where
  "unurl_char c = (if c = CHR ''-'' then CHR ''+'' else if c = CHR ''_'' then CHR ''/'' else c)"

definition b64url :: "string \<Rightarrow> string" where
  "b64url raw = rev (dropWhile (\<lambda>c. c = pad_char) (rev (map url_char (b64encode raw))))"

text \<open>
  \<open>binascii.a2b_base64\<close> outside strict mode: the position in the group of four, the bits left over
  and the number of padding characters seen; what is outside the alphabet is skipped, enough padding
  ends the input.
\<close>

fun a2b_base64 :: "nat \<Rightarrow> nat \<Rightarrow> nat \<Rightarrow> string \<Rightarrow> string option" where
  "a2b_base64 q left pads [] = (if q = 0 then Some [] else None)"
| "a2b_base64 q left pads (c # cs) =
     (if c = pad_char then
        (if 2 \<le> q \<and> 4 \<le> q + (pads + 1) then Some []
         else a2b_base64 q left (if 2 \<le> q then pads + 1 else pads) cs)
      else case b64_val c of
        None \<Rightarrow> a2b_base64 q left pads cs
      | Some v \<Rightarrow>
          (if q = 0 then a2b_base64 1 v 0 cs
           else if q = 1 then map_option (Cons (char_of (left * 4 + v div 16))) (a2b_base64 2 (v mod 16) 0 cs)
           else if q = 2 then map_option (Cons (char_of (left * 16 + v div 4))) (a2b_base64 3 (v mod 4) 0 cs)
           else map_option (Cons (char_of (left * 64 + v))) (a2b_base64 0 0 0 cs)))"

definition is_ascii :: "string \<Rightarrow> bool" where
  "is_ascii s = list_all (\<lambda>c. (of_char c :: nat) < 128) s"

definition b64url_decode :: "string \<Rightarrow> string option" where
  "b64url_decode s = (if is_ascii s
     then a2b_base64 0 0 0 (map unurl_char (s @ replicate ((4 - length s mod 4) mod 4) pad_char)) else None)"

section \<open>The key\<close>

definition HMAC_KEY_VAULT_PATH :: string where
  "HMAC_KEY_VAULT_PATH = ''spine/approval/hmac_key''"

definition DEFAULT_TTL_HOURS :: int where
  "DEFAULT_TTL_HOURS = 168"

definition KEY_BYTES :: nat where
  "KEY_BYTES = 32"

definition PAYLOAD_FIELDS :: "string list" where
  "PAYLOAD_FIELDS = [''project_id'', ''phase'', ''approver'', ''issued_at'', ''expires_at'']"

text \<open>The codes of \<open>ApprovalError\<close>; \<open>Unexpected\<close> is any other exception.\<close>

datatype approval_error =
    Key_missing | Key_access_denied | Key_backend_error | Key_malformed | Key_exists
  | Psql_error | Approval_not_found | Unexpected

definition key_error :: "secret_error \<Rightarrow> approval_error" where
  "key_error e = (case e of SecretNotFound \<Rightarrow> Key_missing | SecretAccessDenied \<Rightarrow> Key_access_denied
     | SecretBackendError \<Rightarrow> Key_backend_error)"

definition write_error :: "secret_error \<Rightarrow> approval_error" where
  "write_error e = (if e = SecretAccessDenied then Key_access_denied else Key_backend_error)"

definition emap_error :: "('e \<Rightarrow> 'f) \<Rightarrow> ('s, 'e, 'a) eff \<Rightarrow> ('s, 'f, 'a) eff" where
  "emap_error f m = (\<lambda>s. case m s of (Inl e, s') \<Rightarrow> (Inl (f e), s') | (Inr x, s') \<Rightarrow> (Inr x, s'))"

definition load_key :: "'s adapter option \<Rightarrow> string \<Rightarrow> string \<Rightarrow> ('s, approval_error, string) eff" where
  "load_key A hint path =
     ebind (emap_error key_error (get_secret A hint path)) (\<lambda>v.
     elift (case py_fromhex (py_strip v) of None \<Rightarrow> Inl Key_malformed | Some k \<Rightarrow> Inr k))"

definition cmd_genkey :: "'s adapter option \<Rightarrow> string \<Rightarrow> string \<Rightarrow> string \<Rightarrow> ('s, approval_error, unit) eff" where
  "cmd_genkey A hint path random_bytes = (\<lambda>s.
     case get_secret A hint path s of
       (Inr _, s') \<Rightarrow> (Inl Key_exists, s')
     | (Inl SecretNotFound, s') \<Rightarrow> emap_error write_error (put_secret A hint path (bytes_hex random_bytes)) s'
     | (Inl e, s') \<Rightarrow> (Inl (write_error e), s'))"

section \<open>Tokens\<close>

record token_env =
  tk_hmac :: "string \<Rightarrow> string \<Rightarrow> string"
  tk_dumps :: "(string \<times> string) list \<Rightarrow> string"
  tk_loads :: "string \<Rightarrow> json option"
  tk_str :: "json \<Rightarrow> string"
  tk_iso :: "time \<Rightarrow> string"
  tk_when :: "string \<Rightarrow> time option"

definition second :: time where
  "second = 1000000"

text \<open>The instants a \<open>datetime\<close> in UTC can hold, from the year 1 to the end of the year 9999.\<close>

definition datetime_range :: "time \<Rightarrow> bool" where
  "datetime_range t = (- 62135596800 * second \<le> t \<and> t < 253402300800 * second)"

definition whole_second :: "time \<Rightarrow> time" where
  "whole_second t = t - t mod second"

definition token_payload :: "token_env \<Rightarrow> time \<Rightarrow> string \<Rightarrow> string \<Rightarrow> string \<Rightarrow> int \<Rightarrow> (string \<times> string) list" where
  "token_payload E now project_id phase approver ttl_hours =
     [(''project_id'', project_id), (''phase'', phase), (''approver'', approver),
      (''issued_at'', tk_iso E (whole_second now)),
      (''expires_at'', tk_iso E (whole_second now + ttl_hours * 3600 * second))]"

definition sign_payload :: "token_env \<Rightarrow> string \<Rightarrow> (string \<times> string) list \<Rightarrow> string" where
  "sign_payload E key payload =
     (let payload_b64 = b64url (tk_dumps E payload) in payload_b64 @ ''.'' @ b64url (tk_hmac E key payload_b64))"

definition sign_token :: "token_env \<Rightarrow> 's adapter option \<Rightarrow> string \<Rightarrow> time \<Rightarrow> string \<Rightarrow> string \<Rightarrow> string \<Rightarrow> int \<Rightarrow> string \<Rightarrow>
    ('s, approval_error, string \<times> (string \<times> string) list) eff" where
  "sign_token E A hint now project_id phase approver ttl_hours path =
     ebind (load_key A hint path) (\<lambda>key.
     ebind (eguard (datetime_range (whole_second now + ttl_hours * 3600 * second)) Unexpected) (\<lambda>_.
     let payload = token_payload E now project_id phase approver ttl_hours in
     ereturn (sign_payload E key payload, payload)))"

record token_result =
  tv_valid :: bool
  tv_payload :: json
  tv_errors :: "string list"

definition rejected :: "string list \<Rightarrow> token_result" where
  "rejected errs = \<lparr>tv_valid = False, tv_payload = JDict [], tv_errors = errs\<rparr>"

text \<open>\<open>token.rsplit(".", 1)\<close> on a token that has a dot.\<close>

definition rsplit_dot :: "string \<Rightarrow> string \<times> string" where
  "rsplit_dot s = (rev (tl (dropWhile (\<lambda>c. c \<noteq> CHR ''.'') (rev s))), rev (takeWhile (\<lambda>c. c \<noteq> CHR ''.'') (rev s)))"

text \<open>\<open>field in payload\<close> for a JSON value, which raises on one that is not a container.\<close>

definition field_in :: "string \<Rightarrow> json \<Rightarrow> (approval_error, bool) res" where
  "field_in f payload = (case payload of
     JDict d \<Rightarrow> Inr (map_of d f \<noteq> None)
   | JList xs \<Rightarrow> Inr (JStr f \<in> set xs)
   | JStr s \<Rightarrow> Inr (list_ex (prefix f) (suffixes s))
   | _ \<Rightarrow> Inl Unexpected)"

definition missing_fields :: "json \<Rightarrow> (approval_error, string list) res" where
  "missing_fields payload = rbind (rmap (\<lambda>f. rbind (field_in f payload) (\<lambda>b. Inr (f, b))) PAYLOAD_FIELDS)
     (\<lambda>fs. Inr (map (\<lambda>f. ''missing_field:'' @ fst f) (filter (\<lambda>f. \<not> snd f) fs)))"

definition expiry_errors :: "token_env \<Rightarrow> time \<Rightarrow> json \<Rightarrow> (approval_error, string list) res" where
  "expiry_errors E now payload = rbind (field_in ''expires_at'' payload) (\<lambda>present.
     if \<not> present then Inr [] else
     (case payload of
        JDict d \<Rightarrow> (case map_of d ''expires_at'' of
            Some (JStr s) \<Rightarrow> (case tk_when E s of
                None \<Rightarrow> Inr [''bad_expires_at'']
              | Some t \<Rightarrow> Inr (if t \<le> now then [''expired''] else []))
          | _ \<Rightarrow> Inr [''bad_expires_at''])
      | _ \<Rightarrow> Inr [''bad_expires_at'']))"

definition payload_get :: "json \<Rightarrow> string \<Rightarrow> (approval_error, json) res" where
  "payload_get payload k = (case payload of
     JDict d \<Rightarrow> Inr (case map_of d k of None \<Rightarrow> JNull | Some j \<Rightarrow> j) | _ \<Rightarrow> Inl Unexpected)"

definition json_str :: "token_env \<Rightarrow> json \<Rightarrow> string" where
  "json_str E j = (case j of JStr s \<Rightarrow> s | JNull \<Rightarrow> ''None'' | _ \<Rightarrow> tk_str E j)"

definition expected_errors ::
  "token_env \<Rightarrow> json \<Rightarrow> string option \<Rightarrow> string option \<Rightarrow> (approval_error, string list) res" where
  "expected_errors E payload project_id phase =
     rbind (case project_id of None \<Rightarrow> Inr []
       | Some p \<Rightarrow> rbind (payload_get payload ''project_id'') (\<lambda>j.
           Inr (if json_str E j \<noteq> p then [''project_id_mismatch''] else []))) (\<lambda>e1.
     rbind (case phase of None \<Rightarrow> Inr []
       | Some p \<Rightarrow> rbind (payload_get payload ''phase'') (\<lambda>j.
           Inr (if j \<noteq> JStr p then [''phase_mismatch''] else []))) (\<lambda>e2.
     Inr (e1 @ e2)))"

definition check_payload :: "token_env \<Rightarrow> time \<Rightarrow> string list \<Rightarrow> json \<Rightarrow> string option \<Rightarrow> string option \<Rightarrow>
    (approval_error, token_result) res" where
  "check_payload E now errs payload project_id phase =
     rbind (missing_fields payload) (\<lambda>e1.
     rbind (expiry_errors E now payload) (\<lambda>e2.
     rbind (expected_errors E payload project_id phase) (\<lambda>e3.
     let errors = errs @ e1 @ e2 @ e3 in
     Inr \<lparr>tv_valid = (errors = []), tv_payload = payload, tv_errors = errors\<rparr>)))"

definition verify_with_key :: "token_env \<Rightarrow> string \<Rightarrow> time \<Rightarrow> string \<Rightarrow> string option \<Rightarrow> string option \<Rightarrow>
    (approval_error, token_result) res" where
  "verify_with_key E key now token project_id phase =
     (let payload_b64 = fst (rsplit_dot token); sig_b64 = snd (rsplit_dot token) in
      if \<not> is_ascii payload_b64 then Inr (rejected [''malformed_signature'']) else
      case b64url_decode sig_b64 of
        None \<Rightarrow> Inr (rejected [''malformed_signature''])
      | Some sig \<Rightarrow>
          let errs = (if tk_hmac E key payload_b64 = sig then [] else [''signature_mismatch'']) in
          (case Option.bind (b64url_decode payload_b64) (tk_loads E) of
             None \<Rightarrow> Inr (rejected (errs @ [''malformed_payload'']))
           | Some payload \<Rightarrow> check_payload E now errs payload project_id phase))"

text \<open>The text of the code that a failed key lookup puts into the error list.\<close>

definition key_code :: "approval_error \<Rightarrow> string" where
  "key_code e = (case e of Key_missing \<Rightarrow> ''key_missing'' | Key_access_denied \<Rightarrow> ''key_access_denied''
     | Key_backend_error \<Rightarrow> ''key_backend_error'' | Key_malformed \<Rightarrow> ''key_malformed'' | _ \<Rightarrow> ''key_no_adapter'')"

definition verify_token :: "token_env \<Rightarrow> 's adapter option \<Rightarrow> string \<Rightarrow> time \<Rightarrow> string \<Rightarrow> string \<Rightarrow> string option \<Rightarrow>
    string option \<Rightarrow> ('s, approval_error, token_result) eff" where
  "verify_token E A hint now token path project_id phase =
     (if token = [] \<or> CHR ''.'' \<notin> set token then ereturn (rejected [''malformed_token''])
      else (\<lambda>s. case load_key A hint path s of
        (Inl e, s') \<Rightarrow> (Inr (rejected [key_code e]), s')
      | (Inr key, s') \<Rightarrow> (verify_with_key E key now token project_id phase, s')))"

section \<open>The encodings round trip\<close>

fun b64url_raw :: "string \<Rightarrow> string" where
  "b64url_raw [] = []"
| "b64url_raw [a] = (let x = of_char a in map url_char [b64_char (x div 4), b64_char (x mod 4 * 16)])"
| "b64url_raw [a, b] = (let x = of_char a; y = of_char b in
     map url_char [b64_char (x div 4), b64_char (x mod 4 * 16 + y div 16), b64_char (y mod 16 * 4)])"
| "b64url_raw (a # b # c # cs) = (let x = of_char a; y = of_char b; z = of_char c in
     map url_char [b64_char (x div 4), b64_char (x mod 4 * 16 + y div 16), b64_char (y mod 16 * 4 + z div 64),
      b64_char (z mod 64)] @ b64url_raw cs)"

lemma unurl_url: "n < 64 \<Longrightarrow> unurl_char (url_char (b64_char n)) = b64_char n"
  using b64_val_char [of n] by (auto simp: unurl_char_def url_char_def b64_val_def Let_def split: if_splits)

lemma url_not_pad: "n < 64 \<Longrightarrow> url_char (b64_char n) \<noteq> pad_char"
  using b64_char_not_pad [of n] by (auto simp: url_char_def)

lemma strip_pad_append:
  "rev (dropWhile (\<lambda>c. c = pad_char) (rev (xs @ ys))) =
    (if list_all (\<lambda>c. c = pad_char) ys then rev (dropWhile (\<lambda>c. c = pad_char) (rev xs))
     else xs @ rev (dropWhile (\<lambda>c. c = pad_char) (rev ys)))"
  by (simp add: dropWhile_append list_all_iff)

lemma b64encode_all_pad: "list_all (\<lambda>c. c = pad_char) (map url_char (b64encode bs)) \<Longrightarrow> bs = []"
  by (induction bs rule: b64encode.induct) (auto simp: Let_def url_not_pad b64_regroup)

lemma b64url_raw_eq: "b64url bs = b64url_raw bs"
proof (induction bs rule: b64url_raw.induct)
  case (4 a b c cs)
  let ?q = "map url_char [b64_char (of_char a div 4), b64_char (of_char a mod 4 * 16 + of_char b div 16),
    b64_char (of_char b mod 16 * 4 + of_char c div 64), b64_char (of_char c mod 64)]"
  have "b64url (a # b # c # cs) = rev (dropWhile (\<lambda>c. c = pad_char) (rev (?q @ map url_char (b64encode cs))))"
    by (simp add: b64url_def Let_def)
  also have "\<dots> = ?q @ b64url cs"
  proof (cases "cs = []")
    case True
    then show ?thesis by (simp add: b64url_def url_not_pad)
  next
    case False
    then show ?thesis using b64encode_all_pad [of cs] unfolding strip_pad_append b64url_def by auto
  qed
  finally show ?case using 4 by (simp add: Let_def)
qed (simp_all add: b64url_def Let_def url_not_pad b64_regroup url_char_def [of pad_char])

lemma a2b_raw:
  "a2b_base64 0 0 0 (map unurl_char (b64url_raw bs @ replicate ((4 - length (b64url_raw bs) mod 4) mod 4) pad_char)) = Some bs"
proof (induction bs rule: b64url_raw.induct)
  case (4 a b c cs)
  then show ?case
    by (simp add: Let_def unurl_url b64_val_char b64_char_not_pad b64_regroup byte_quotients)
next
  case (2 a)
  have "replicate 2 pad_char = [pad_char, pad_char]" by (simp add: numeral_2_eq_2)
  then show ?case
    by (simp add: Let_def unurl_url b64_val_char b64_char_not_pad b64_regroup unurl_char_def [of pad_char])
next
  case (3 a b)
  then show ?case
    by (simp add: Let_def unurl_url b64_val_char b64_char_not_pad b64_regroup byte_quotients unurl_char_def [of pad_char])
qed simp

lemma b64_val_ascii: "b64_val c \<noteq> None \<Longrightarrow> (of_char c :: nat) < 128"
  by (auto simp: b64_val_def Let_def split: if_splits)

lemma b64url_raw_chars: "c \<in> set (b64url_raw bs) \<Longrightarrow> b64_val (unurl_char c) \<noteq> None"
  by (induction bs rule: b64url_raw.induct) (auto simp: Let_def unurl_url b64_val_char b64_regroup)

lemma b64url_chars:
  assumes "c \<in> set (b64url bs)"
  shows "c \<noteq> CHR ''.'' \<and> (of_char c :: nat) < 128"
proof -
  have v: "b64_val (unurl_char c) \<noteq> None" using assms b64url_raw_chars by (simp add: b64url_raw_eq)
  then have "c \<noteq> CHR ''.''" by (auto simp: unurl_char_def b64_val_def)
  moreover have "(of_char c :: nat) < 128"
    using b64_val_ascii [OF v] by (auto simp: unurl_char_def split: if_splits)
  ultimately show ?thesis by simp
qed

lemma b64url_no_dot [simp]: "CHR ''.'' \<notin> set (b64url bs)"
  using b64url_chars by blast

lemma b64url_ascii [simp]: "is_ascii (b64url bs)"
  using b64url_chars by (auto simp: is_ascii_def list_all_iff)

lemma b64url_decode_encode [simp]: "b64url_decode (b64url bs) = Some bs"
  using a2b_raw [of bs] by (simp add: b64url_decode_def flip: b64url_raw_eq)

lemma rsplit_dot_append: "CHR ''.'' \<notin> set b \<Longrightarrow> rsplit_dot (a @ CHR ''.'' # b) = (a, b)"
  by (simp add: rsplit_dot_def takeWhile_append2 dropWhile_append2 takeWhile_append dropWhile_append)

lemma rsplit_dot_join:
  assumes "CHR ''.'' \<in> set t"
  shows "t = fst (rsplit_dot t) @ CHR ''.'' # snd (rsplit_dot t)"
proof -
  obtain a b where "t = a @ CHR ''.'' # b" "CHR ''.'' \<notin> set b" using split_list_last [OF assms] by blast
  then show ?thesis by (simp add: rsplit_dot_append)
qed

lemma py_fromhex_hex: "py_fromhex (bytes_hex bs) = Some bs"
proof (induction bs)
  case (Cons b bs)
  have "\<not> ascii_space (hex_char n)" if "n < 16" for n
    using that hex_char_cases [OF that] by (auto simp: ascii_space_def split: if_splits)
  moreover have "(of_char b :: nat) div 16 < 16" by (simp add: div_less_iff_less_mult)
  ultimately show ?case using Cons by (simp add: hex_val_char)
qed simp

section \<open>The key in the vault\<close>

context live_secret_adapter
begin

lemma load_key_stored:
  assumes "invar s" and "contents s path = Some v" and "py_fromhex (py_strip v) = Some k"
  shows "\<exists>s'. load_key (Some A) hint path s = (Inr k, s') \<and> invar s' \<and> contents s' = contents s"
proof -
  obtain s' where "ad_get A path s = (Inr v, s')" using get_hit [OF assms(1,2)] by (metis prod.collapse)
  with get_frame [OF assms(1) this] assms(3) show ?thesis
    by (simp add: load_key_def emap_error_def secret_defs eff_simps)
qed

lemma genkey_cases:
  assumes "invar s"
  shows "\<exists>s'. invar s' \<and> (if contents s path = None
    then cmd_genkey (Some A) hint path rnd s = (Inr (), s') \<and> contents s' = (contents s)(path \<mapsto> bytes_hex rnd)
    else cmd_genkey (Some A) hint path rnd s = (Inl Key_exists, s') \<and> contents s' = contents s)"
proof (cases "contents s path")
  case None
  then obtain s1 where g: "ad_get A path s = (Inl SecretNotFound, s1)"
    using get_miss [OF assms] by (metis prod.collapse)
  note f = get_frame [OF assms g]
  then obtain s2 where p: "ad_put A path (bytes_hex rnd) s1 = (Inr (), s2)" using put_live by (metis prod.collapse)
  with put_ok [OF _ p] f g None show ?thesis
    by (simp add: cmd_genkey_def emap_error_def secret_defs eff_simps)
next
  case (Some v)
  then obtain s1 where g: "ad_get A path s = (Inr v, s1)" using get_hit [OF assms] by (metis prod.collapse)
  with get_frame [OF assms g] Some show ?thesis
    by (simp add: cmd_genkey_def emap_error_def secret_defs eff_simps)
qed

lemma genkey_then_load:
  assumes "invar s" and "contents s path = None"
  shows "\<exists>s1 s2. cmd_genkey (Some A) hint path rnd s = (Inr (), s1) \<and> load_key (Some A) hint path s1 = (Inr rnd, s2)"
proof -
  obtain s1 where s1: "invar s1" "cmd_genkey (Some A) hint path rnd s = (Inr (), s1)"
      "contents s1 = (contents s)(path \<mapsto> bytes_hex rnd)"
    using genkey_cases [OF assms(1), of path hint rnd] assms(2) by auto
  then have "contents s1 path = Some (bytes_hex rnd)" by simp
  from load_key_stored [OF s1(1) this, of rnd hint] s1(2) show ?thesis by (auto simp: py_fromhex_hex)
qed

end

text \<open>
  The gate key is written once: through the read cache, on a free path \<open>genkey\<close> stores the
  new key and the next \<open>_load_key\<close> returns exactly its bytes; on a path that holds any value it raises
  \<open>key_exists\<close> and the store is unchanged.
\<close>

theorem gate_key_written_once:
  assumes "mem.cached_invar c"
  shows "\<exists>c'. if map_of (c_inner c) path = None
    then cmd_genkey (Some (cached_adapter memory_adapter)) hint path rnd c = (Inr (), c') \<and>
      fst (load_key (Some (cached_adapter memory_adapter)) hint path c') = Inr rnd
    else cmd_genkey (Some (cached_adapter memory_adapter)) hint path rnd c = (Inl Key_exists, c') \<and>
      map_of (c_inner c') = map_of (c_inner c)"
proof (cases "map_of (c_inner c) path = None")
  case True
  from cmem.genkey_then_load [OF assms True, of hint rnd] True show ?thesis by force
next
  case False
  from cmem.genkey_cases [OF assms, of path hint rnd] False show ?thesis by auto
qed

theorem gate_key_written_once_witness:
  "\<exists>c'. cmd_genkey (Some (cached_adapter memory_adapter)) [] HMAC_KEY_VAULT_PATH ''secret'' (cached_init [] 60 0) = (Inr (), c') \<and>
     fst (load_key (Some (cached_adapter memory_adapter)) [] HMAC_KEY_VAULT_PATH c') = Inr ''secret''"
  using gate_key_written_once [OF cached_init_invar [of "[]" 60 0], of HMAC_KEY_VAULT_PATH "[]" "''secret''"]
  by (simp add: cached_init_def)

section \<open>Tokens verify\<close>

lemma verify_signed:
  assumes "tk_loads E (tk_dumps E payload) = Some j"
  shows "verify_with_key E key now (sign_payload E key payload) pid ph = check_payload E now [] j pid ph"
proof -
  have "rsplit_dot (sign_payload E key payload) =
      (b64url (tk_dumps E payload), b64url (tk_hmac E key (b64url (tk_dumps E payload))))"
    by (simp add: sign_payload_def Let_def rsplit_dot_append)
  then show ?thesis using assms by (simp add: verify_with_key_def)
qed

lemma check_issued_payload:
  assumes "map_of d = map_option JStr \<circ> map_of (token_payload E now0 pid ph ap ttl)"
    and "tk_when E (tk_iso E (whole_second now0 + ttl * 3600 * second)) = Some exp"
  shows "check_payload E now [] (JDict d) (Some pid) (Some ph) =
    Inr (let errs = (if exp \<le> now then [''expired''] else []) in \<lparr>tv_valid = (errs = []), tv_payload = JDict d, tv_errors = errs\<rparr>)"
  using assms(2)
  by (simp add: check_payload_def missing_fields_def PAYLOAD_FIELDS_def field_in_def expiry_errors_def
      expected_errors_def payload_get_def json_str_def assms(1) Let_def token_payload_def)

lemma verify_issued:
  assumes "sign_token E A hint now0 pid ph ap ttl path s0 = (Inr (token, payload), s1)"
    and "load_key A hint path s0 = (Inr key, s1)" and "load_key A hint path s2 = (Inr key, s3)"
    and "tk_loads E (tk_dumps E payload) = Some (JDict d)" and "map_of d = map_option JStr \<circ> map_of payload"
    and "exp = whole_second now0 + ttl * 3600 * second" and "tk_when E (tk_iso E exp) = Some exp"
  shows "verify_token E A hint now token path (Some pid) (Some ph) s2 =
    (Inr (if now < exp then \<lparr>tv_valid = True, tv_payload = JDict d, tv_errors = []\<rparr>
          else \<lparr>tv_valid = False, tv_payload = JDict d, tv_errors = [''expired'']\<rparr>), s3)"
proof -
  have p: "payload = token_payload E now0 pid ph ap ttl" "token = sign_payload E key payload"
    using assms(1,2) by (auto simp: sign_token_def eff_simps Let_def split: if_splits)
  have dot: "CHR ''.'' \<in> set token" by (simp add: p(2) sign_payload_def Let_def)
  have "verify_with_key E key now token (Some pid) (Some ph) = check_payload E now [] (JDict d) (Some pid) (Some ph)"
    unfolding p(2) using verify_signed [OF assms(4)] .
  with check_issued_payload [of d E now0 pid ph ap ttl exp now] assms(3,5,6,7) p(1) dot show ?thesis
    by (auto simp: verify_token_def Let_def)
qed

text \<open>
  Claim C22. A signed token verifies until it expires and not after: what \<open>sign_token\<close> returns is
  accepted by \<open>verify_token\<close> with the same key, project and phase at every instant before the expiry,
  with the signed fields as payload, and from the expiry on it is rejected with exactly the error
  \<open>expired\<close>. Of JSON it needs that parsing gives back the five fields, of the instants that the printed
  expiry is read back.
\<close>

theorem sign_verify_round_trip:
  assumes "sign_token E A hint now0 pid ph ap ttl path s0 = (Inr (token, payload), s1)"
    and "load_key A hint path s0 = (Inr key, s1)" and "load_key A hint path s2 = (Inr key, s3)"
    and "tk_loads E (tk_dumps E payload) = Some (JDict d)" and "map_of d = map_option JStr \<circ> map_of payload"
    and "exp = whole_second now0 + ttl * 3600 * second" and "tk_when E (tk_iso E exp) = Some exp"
  shows "verify_token E A hint now token path (Some pid) (Some ph) s2 =
    (Inr (if now < exp then \<lparr>tv_valid = True, tv_payload = JDict d, tv_errors = []\<rparr>
          else \<lparr>tv_valid = False, tv_payload = JDict d, tv_errors = [''expired'']\<rparr>), s3)"
  by (rule verify_issued [OF assms])

lemma missing_fields_dict:
  "missing_fields (JDict d) = Inr (map (\<lambda>f. ''missing_field:'' @ f) (filter (\<lambda>f. map_of d f = None) PAYLOAD_FIELDS))"
  by (simp add: missing_fields_def PAYLOAD_FIELDS_def field_in_def)

lemma expiry_errors_ok:
  "expiry_errors E now (JDict d) = Inr [] \<and> map_of d ''expires_at'' \<noteq> None \<longleftrightarrow>
    (\<exists>x t. map_of d ''expires_at'' = Some (JStr x) \<and> tk_when E x = Some t \<and> now < t)"
  by (auto simp: expiry_errors_def field_in_def split: option.splits json.splits if_splits)

definition payload_current :: "token_env \<Rightarrow> time \<Rightarrow> (string \<times> json) list \<Rightarrow> string option \<Rightarrow> string option \<Rightarrow> bool" where
  "payload_current E now d pid ph \<longleftrightarrow>
     set PAYLOAD_FIELDS \<subseteq> dom (map_of d) \<and>
     (\<exists>x t. map_of d ''expires_at'' = Some (JStr x) \<and> tk_when E x = Some t \<and> now < t) \<and>
     (case pid of None \<Rightarrow> True | Some p \<Rightarrow> json_str E (the (map_of d ''project_id'')) = p) \<and>
     (case ph of None \<Rightarrow> True | Some p \<Rightarrow> map_of d ''phase'' = Some (JStr p))"

lemma check_payload_valid:
  "(\<exists>r. check_payload E now errs j pid ph = Inr r \<and> tv_valid r) \<longleftrightarrow>
    errs = [] \<and> (\<exists>d. j = JDict d \<and> payload_current E now d pid ph)"
proof (cases j)
  case (JDict d)
  have all: "filter (\<lambda>f. map_of d f = None) PAYLOAD_FIELDS = [] \<longleftrightarrow> set PAYLOAD_FIELDS \<subseteq> dom (map_of d)"
    by (auto simp: filter_empty_conv)
  have ex: "expected_errors E j pid ph = Inr [] \<longleftrightarrow>
      (case pid of None \<Rightarrow> True | Some p \<Rightarrow> json_str E (the (map_of d ''project_id'')) = p) \<and>
      (case ph of None \<Rightarrow> True | Some p \<Rightarrow> map_of d ''phase'' = Some (JStr p))"
    if "set PAYLOAD_FIELDS \<subseteq> dom (map_of d)"
    using that by (auto simp: JDict expected_errors_def payload_get_def PAYLOAD_FIELDS_def split: option.splits if_splits)
  have exp: "set PAYLOAD_FIELDS \<subseteq> dom (map_of d) \<Longrightarrow> map_of d ''expires_at'' \<noteq> None"
    by (auto simp: PAYLOAD_FIELDS_def)
  obtain e2 where e2: "expiry_errors E now j = Inr e2"
    by (cases "expiry_errors E now j") (auto simp: JDict expiry_errors_def field_in_def split: option.splits json.splits if_splits)
  obtain e3 where e3: "expected_errors E j pid ph = Inr e3"
    by (cases "expected_errors E j pid ph") (auto simp: JDict expected_errors_def payload_get_def split: option.splits)
  show ?thesis
    using all ex exp expiry_errors_ok [of E now d] e2 e3
    by (auto simp: check_payload_def missing_fields_dict JDict Let_def payload_current_def)
qed (auto simp: check_payload_def missing_fields_def PAYLOAD_FIELDS_def field_in_def expiry_errors_def rbind_eq_Inr
      Let_def split: if_splits)

lemma verify_valid_iff:
  "(\<exists>r s'. verify_token E A hint now token path pid ph s = (Inr r, s') \<and> tv_valid r) \<longleftrightarrow>
   (\<exists>key s' p g d. load_key A hint path s = (Inr key, s') \<and> token = p @ ''.'' @ g \<and> CHR ''.'' \<notin> set g \<and>
      is_ascii p \<and> b64url_decode g = Some (tk_hmac E key p) \<and>
      Option.bind (b64url_decode p) (tk_loads E) = Some (JDict d) \<and> payload_current E now d pid ph)"
proof (cases "CHR ''.'' \<in> set token \<and> (\<exists>key s'. load_key A hint path s = (Inr key, s'))")
  case False
  then show ?thesis by (auto simp: verify_token_def rejected_def eff_simps split: sum.splits prod.splits)
next
  case True
  then obtain key s' where k: "load_key A hint path s = (Inr key, s')" by blast
  obtain p g where t: "token = p @ CHR ''.'' # g" "CHR ''.'' \<notin> set g" using True split_list_last [of "CHR ''.''" token] by blast
  have uniq: "p' = p" "g' = g" if "token = p' @ ''.'' @ g'" "CHR ''.'' \<notin> set g'" for p' g'
    using t that by (metis append_Cons append_Nil fst_conv rsplit_dot_append snd_conv)+
  have key: "key' = key" if "load_key A hint path s = (Inr key', s'')" for key' s'' using k that by simp
  have "verify_token E A hint now token path pid ph s = (verify_with_key E key now token pid ph, s')"
    using True k by (auto simp: verify_token_def)
  moreover have "(\<exists>r. verify_with_key E key now token pid ph = Inr r \<and> tv_valid r) \<longleftrightarrow>
      is_ascii p \<and> b64url_decode g = Some (tk_hmac E key p) \<and>
      (\<exists>d. Option.bind (b64url_decode p) (tk_loads E) = Some (JDict d) \<and> payload_current E now d pid ph)"
    using rsplit_dot_append [of g p] t check_payload_valid [of E now _ _ pid ph]
    by (auto simp: verify_with_key_def rejected_def Let_def split: option.splits)
  moreover have "token = p @ ''.'' @ g" using t(1) by simp
  ultimately show ?thesis using k uniq key t(2) by (metis prod.inject)
qed

text \<open>
  Claim C31. Exactly the well-signed, current tokens are valid: \<open>verify_token\<close> answers valid if and
  only if the key can be loaded, the part after the last dot decodes to the HMAC of the part before it
  under that key, and that part decodes to an object with all five fields whose expiry lies ahead and
  whose project and phase are the expected ones, where they are given.
\<close>

theorem token_valid_exact:
  "(\<exists>r s'. verify_token E A hint now token path pid ph s = (Inr r, s') \<and> tv_valid r) \<longleftrightarrow>
   (\<exists>key s' p g d. load_key A hint path s = (Inr key, s') \<and> token = p @ ''.'' @ g \<and> CHR ''.'' \<notin> set g \<and>
      is_ascii p \<and> b64url_decode g = Some (tk_hmac E key p) \<and>
      Option.bind (b64url_decode p) (tk_loads E) = Some (JDict d) \<and> payload_current E now d pid ph)"
  by (rule verify_valid_iff)

text \<open>
  \<open>verify_token\<close> raises on some bad tokens: a token whose payload part is the encoding of a
  JSON number makes it raise whatever follows the dot, signed or not, although it is documented never to
  raise on a bad token.
\<close>

theorem number_payload_raises:
  assumes "load_key A hint path s = (Inr key, s')" and "tk_loads E raw = Some (JInt n)"
  shows "verify_token E A hint now (b64url raw @ ''.'' @ b64url sig) path pid ph s = (Inl Unexpected, s')"
  using assms
  by (simp add: verify_token_def verify_with_key_def rsplit_dot_append check_payload_def missing_fields_def
      PAYLOAD_FIELDS_def field_in_def Let_def)

section \<open>Examples\<close>

definition demo_token_env :: token_env where
  "demo_token_env = \<lparr>tk_hmac = (\<lambda>k m. k), tk_dumps = (\<lambda>d. ''p''),
     tk_loads = (\<lambda>s. if s = ''p'' then Some (JDict [(''project_id'', JStr ''1''), (''phase'', JStr ''plan''),
       (''approver'', JStr ''ann''), (''issued_at'', JStr ''0''), (''expires_at'', JStr ''1h'')])
       else if s = ''5'' then Some (JInt 5) else None),
     tk_str = (\<lambda>_. []), tk_iso = (\<lambda>t. if t = 0 then ''0'' else ''1h''), tk_when = (\<lambda>s. Some (if s = ''1h'' then 3600000000 else 0))\<rparr>"

lemma demo_load_key:
  "load_key (Some memory_adapter) [] ''k'' [(''k'', ''6b'')] = (Inr ''k'', [(''k'', ''6b'')])"
  by code_simp

theorem sign_verify_round_trip_witness:
  "\<exists>token payload. sign_token demo_token_env (Some memory_adapter) [] 0 ''1'' ''plan'' ''ann'' 1 ''k'' [(''k'', ''6b'')] =
      (Inr (token, payload), [(''k'', ''6b'')]) \<and>
    fst (verify_token demo_token_env (Some memory_adapter) [] 5 token ''k'' (Some ''1'') (Some ''plan'') [(''k'', ''6b'')]) \<noteq> Inl Unexpected \<and>
    tv_errors (projr (fst (verify_token demo_token_env (Some memory_adapter) [] 3600000000 token ''k'' (Some ''1'') (Some ''plan'')
      [(''k'', ''6b'')]))) = [''expired'']"
proof -
  let ?payload = "[(''project_id'', ''1''), (''phase'', ''plan''), (''approver'', ''ann''), (''issued_at'', ''0''),
    (''expires_at'', ''1h'')]"
  have sign: "sign_token demo_token_env (Some memory_adapter) [] 0 ''1'' ''plan'' ''ann'' 1 ''k'' [(''k'', ''6b'')] =
      (Inr (sign_payload demo_token_env ''k'' ?payload, ?payload), [(''k'', ''6b'')])"
    by code_simp
  have loads: "tk_loads demo_token_env (tk_dumps demo_token_env ?payload) = Some (JDict (map (\<lambda>(k, v). (k, JStr v)) ?payload))"
    by (simp add: demo_token_env_def)
  have fields: "map_of (map (\<lambda>(k, v). (k, JStr v)) ?payload) = map_option JStr \<circ> map_of ?payload"
    by (simp add: map_of_map)
  have exp: "3600000000 = whole_second 0 + 1 * 3600 * second" by (simp add: whole_second_def second_def)
  have read_back: "tk_when demo_token_env (tk_iso demo_token_env 3600000000) = Some 3600000000"
    by (simp add: demo_token_env_def)
  note rt = sign_verify_round_trip [OF sign demo_load_key demo_load_key loads fields exp read_back]
  show ?thesis using sign by (auto simp: rt)
qed

theorem number_payload_raises_witness:
  "verify_token demo_token_env (Some memory_adapter) [] 0 (b64url ''5'' @ ''.'' @ b64url ''x'') ''k'' None None [(''k'', ''6b'')] =
     (Inl Unexpected, [(''k'', ''6b'')])"
  by (rule number_payload_raises [OF demo_load_key, of _ _ 5]) (simp add: demo_token_env_def)

end
