(* ===== verification/Lifecycle.thy ===== *)
theory Lifecycle
  imports Approval_Token Audit_Record Regex
begin

text \<open>
  The orchestrator's tools of \<open>shared/mcp/tools/orchestrator.py\<close> (\<open>project_create\<close>, \<open>project_status\<close>,
  \<open>phase_advance\<close>, \<open>approval_grant\<close>), the script \<open>orchestrator/lib/transition.sh\<close> that
  \<open>phase_advance\<close> runs, and the commands of \<open>approval.py\<close> that write the approval table. The state
  holds the tables of the schema \<open>spine_lifecycle\<close> with the columns these use, the audit table and the
  vault. Subprocess timeouts are not modelled. \<open>phases.yaml\<close> appears twice, as the lines the Python
  scanners read and as what the script's own reader (yq or awk) makes of it.
\<close>

section \<open>State\<close>

record lf_project =
  lp_id :: nat
  lp_uuid :: string
  lp_name :: string
  lp_type :: string
  lp_work_item_type :: "string option"
  lp_version :: string
  lp_manifest_path :: string
  lp_owner :: string
  lp_phase :: string
  lp_status :: string
  lp_created_at :: time

record phase_visit =
  pv_project :: nat
  pv_phase :: string
  pv_exited_at :: "time option"
  pv_outcome :: "string option"

record transition_row =
  tr_id :: nat
  tr_project :: nat
  tr_from :: string
  tr_to :: string
  tr_actor :: string
  tr_reason :: "string option"
  tr_at :: time

record approval_row =
  ap_id :: nat
  ap_project :: nat
  ap_phase :: string
  ap_artifact_ref :: string
  ap_approver :: string
  ap_decision :: string
  ap_notes :: "string option"
  ap_token :: "string option"
  ap_granted_at :: time
  ap_expires_at :: "time option"

record 's lifecycle =
  lf_projects :: "lf_project list"
  lf_history :: "phase_visit list"
  lf_transitions :: "transition_row list"
  lf_approvals :: "approval_row list"
  lf_audit :: audit_db
  lf_vault :: 's

text \<open>
  \<open>lv_uuid_cast s\<close> is \<open>None\<close> when Python's \<open>UUID(s)\<close> raises, and otherwise the value PostgreSQL
  casts the text to, if it accepts it. \<open>lv_stray_quote\<close> is what PostgreSQL makes of the transaction of
  \<open>transition.sh\<close> when a quote in an unescaped value breaks its text. \<open>lv_psql_text\<close> is what
  \<open>psql\<close> prints without \<open>-q\<close> for the rows and the command tag of a statement.
\<close>

record 's lifecycle_env =
  lv_token :: token_env
  lv_codec :: audit_codec
  lv_url :: "string option"
  lv_redact_env :: "string option"
  lv_tip_answers :: "audit_db \<Rightarrow> bool"
  lv_now :: time
  lv_event_uuid :: "nat \<Rightarrow> uuid"
  lv_project_uuid :: "nat \<Rightarrow> string"
  lv_uuid_cast :: "string \<Rightarrow> string option option"
  lv_has_work_item_type :: bool
  lv_vault_path :: "string option"
  lv_phase_lines :: "string list option"
  lv_next :: "string \<Rightarrow> string list"
  lv_gate :: "string \<Rightarrow> string"
  lv_approval_exec :: bool
  lv_ts_text :: "time \<Rightarrow> string"
  lv_stray_quote :: "nat \<Rightarrow> string \<Rightarrow> string \<Rightarrow> string \<Rightarrow> 's lifecycle \<Rightarrow> bool \<times> 's lifecycle"
  lv_psql_text :: "string \<Rightarrow> string \<Rightarrow> string"

datatype 'a tool_response = Tool_ok 'a | Tool_error string | Tool_raises

definition db_ready :: "'s lifecycle_env \<Rightarrow> bool" where
  "db_ready E = (lv_url E \<noteq> None \<and> lv_url E \<noteq> Some [])"

section \<open>Scanning phases.yaml\<close>

definition after_char :: "char \<Rightarrow> string \<Rightarrow> string" where
  "after_char c s = drop 1 (dropWhile (\<lambda>x. x \<noteq> c) s)"

definition before_char :: "char \<Rightarrow> string \<Rightarrow> string" where
  "before_char c s = takeWhile (\<lambda>x. x \<noteq> c) s"

definition strip_chars :: "string \<Rightarrow> string \<Rightarrow> string" where
  "strip_chars cs s = rev (dropWhile (\<lambda>c. c \<in> set cs) (rev (dropWhile (\<lambda>c. c \<in> set cs) s)))"

fun scan_gate :: "string \<Rightarrow> bool \<Rightarrow> string list \<Rightarrow> bool" where
  "scan_gate target in_block [] = False"
| "scan_gate target in_block (raw # raws) =
     (let stripped = py_strip raw in
      if prefix ''- id:'' stripped then scan_gate target (py_strip (after_char (CHR '':'') stripped) = target) raws
      else if in_block \<and> prefix ''gate:'' stripped then
        (let val = py_strip (before_char (CHR ''#'') (after_char (CHR '':'') stripped)) in
         val \<noteq> [] \<and> py_lower val \<noteq> ''null'')
      else scan_gate target in_block raws)"

definition phase_requires_gate :: "string list option \<Rightarrow> string \<Rightarrow> bool" where
  "phase_requires_gate lines target = (case lines of None \<Rightarrow> False | Some ls \<Rightarrow> scan_gate target False ls)"

definition quote_chars :: string where
  "quote_chars = [CHR 0x27, CHR 0x22]"

definition inline_items :: "string \<Rightarrow> string list" where
  "inline_items rest = filter (\<lambda>v. v \<noteq> []) (map (\<lambda>it. strip_chars quote_chars (py_strip it))
     (py_split (CHR '','') (strip_chars ''[]'' rest)))"

fun scan_next :: "string \<Rightarrow> bool \<Rightarrow> bool \<Rightarrow> string list \<Rightarrow> string list \<Rightarrow> string list" where
  "scan_next cur in_block in_next out [] = out"
| "scan_next cur in_block in_next out (raw # raws) =
     (let stripped = py_strip raw in
      if prefix ''- id:'' stripped then
        (if in_block then out else scan_next cur (py_strip (after_char (CHR '':'') stripped) = cur) False out raws)
      else if \<not> in_block then scan_next cur in_block in_next out raws
      else if prefix ''next:'' stripped then
        (let rest = py_strip (before_char (CHR ''#'') (after_char (CHR '':'') stripped)) in
         if prefix ''['' rest then scan_next cur in_block False (out @ inline_items rest) raws
         else scan_next cur in_block (if rest = [] then True else in_next) out raws)
      else if in_next then
        (if prefix ''- '' stripped then
           (let val = strip_chars quote_chars (py_strip (before_char (CHR ''#'') (drop 2 stripped))) in
            scan_next cur in_block in_next (if val = [] then out else out @ [val]) raws)
         else scan_next cur in_block (stripped = [] \<or> prefix ''#'' stripped) out raws)
      else scan_next cur in_block in_next out raws)"

definition next_phases_from_yaml :: "string list option \<Rightarrow> string \<Rightarrow> string list" where
  "next_phases_from_yaml lines cur = (case lines of None \<Rightarrow> [] | Some ls \<Rightarrow> scan_next cur False False [] ls)"

section \<open>Projects\<close>

fun split_max :: "char \<Rightarrow> nat \<Rightarrow> string \<Rightarrow> string list" where
  "split_max sep 0 s = [s]"
| "split_max sep (Suc n) s =
     (if sep \<in> set s then takeWhile (\<lambda>c. c \<noteq> sep) s # split_max sep n (drop 1 (dropWhile (\<lambda>c. c \<noteq> sep) s)) else [s])"

text \<open>Latin-1 characters for which \<open>isdigit\<close> holds; \<open>int\<close> refuses the superscripts among them.\<close>

definition digit_like :: "char \<Rightarrow> bool" where
  "digit_like c = (re_digit c \<or> c \<in> {CHR 0xB2, CHR 0xB3, CHR 0xB9})"

definition project_matches :: "'s lifecycle_env \<Rightarrow> string \<Rightarrow> lf_project \<Rightarrow> bool" where
  "project_matches E pid p =
     (pid \<noteq> [] \<and> list_all re_digit pid \<and> int (lp_id p) = digits_value 0 pid \<or>
      (case lv_uuid_cast E pid of Some (Some u) \<Rightarrow> lp_uuid p = u | _ \<Rightarrow> False) \<or>
      lp_name p = pid)"

record resolved =
  rp_id :: nat
  rp_uuid :: string
  rp_name :: string
  rp_phase :: string
  rp_version :: string
  rp_owner :: string

text \<open>The row as one line of text with bars, and what splitting that line at five bars gives.\<close>

definition resolved_row :: "lf_project \<Rightarrow> resolved option" where
  "resolved_row p = (case split_max (CHR ''|'') 5 (py_strip (str_nat (lp_id p) @ ''|'' @ lp_uuid p @ ''|'' @ lp_name p @
       ''|'' @ lp_phase p @ ''|'' @ lp_version p @ ''|'' @ lp_owner p)) of
     [i, u, n, ph, v, ow] \<Rightarrow> Some \<lparr>rp_id = lp_id p, rp_uuid = u, rp_name = n, rp_phase = ph, rp_version = v, rp_owner = ow\<rparr>
   | _ \<Rightarrow> None)"

text \<open>\<open>Inl\<close> is the \<open>ValueError\<close> of \<open>int\<close>.\<close>

definition resolve_project :: "'s lifecycle_env \<Rightarrow> string \<Rightarrow> 's lifecycle \<Rightarrow> unit + resolved option" where
  "resolve_project E pid st =
     (if pid \<noteq> [] \<and> list_all digit_like pid \<and> \<not> list_all re_digit pid then Inl ()
      else if \<not> db_ready E \<or> lv_uuid_cast E pid = Some None then Inr None
      else case sort_key lp_id (filter (\<lambda>p. project_matches E pid p \<and> lp_status p = ''active'') (lf_projects st)) of
        [] \<Rightarrow> Inr None | p # _ \<Rightarrow> Inr (resolved_row p))"

definition write_audit :: "'s lifecycle_env \<Rightarrow> string \<Rightarrow> nat \<Rightarrow> string \<Rightarrow> string \<Rightarrow> string \<Rightarrow> string \<Rightarrow> (string \<times> json) list \<Rightarrow>
    string option \<Rightarrow> 's lifecycle \<Rightarrow> 's lifecycle" where
  "write_audit E action pid phase actor subject_type subject_id metadata rationale st =
     (let a = lf_audit st;
          rec = (blank_record (lv_event_uuid E (length (ad_rows a))) (lv_now E) (Some (int pid)) ''orchestrator'' ''orchestrator''
                  action actor)\<lparr>ar_phase := Some phase, ar_subject_type := Some subject_type,
                  ar_subject_id := Some subject_id, ar_rationale := rationale, ar_metadata := metadata\<rparr> in
      st\<lparr>lf_audit := run_state (tip_write (lv_codec E) (lv_url E) (lv_redact_env E) (lv_tip_answers E a) rec) a\<rparr>)"

definition fresh_id :: "nat list \<Rightarrow> nat" where
  "fresh_id ids = Suc (foldr max ids 0)"

definition INITIAL_PHASE :: string where
  "INITIAL_PHASE = ''intake''"

record project_input =
  in_name :: string
  in_type :: string
  in_owner :: string
  in_version :: string
  in_manifest_path :: string

definition new_project :: "'s lifecycle_env \<Rightarrow> project_input \<Rightarrow> nat \<Rightarrow> lf_project" where
  "new_project E inp pid = \<lparr>lp_id = pid, lp_uuid = lv_project_uuid E pid, lp_name = in_name inp, lp_type = in_type inp,
     lp_work_item_type = (if lv_has_work_item_type E then Some (in_type inp) else None),
     lp_version = in_version inp, lp_manifest_path = in_manifest_path inp, lp_owner = in_owner inp,
     lp_phase = INITIAL_PHASE, lp_status = ''active'', lp_created_at = lv_now E\<rparr>"

definition insert_project :: "lf_project \<Rightarrow> 's lifecycle \<Rightarrow> 's lifecycle" where
  "insert_project p st = st\<lparr>lf_projects := lf_projects st @ [p],
     lf_history := lf_history st @ [\<lparr>pv_project = lp_id p, pv_phase = INITIAL_PHASE, pv_exited_at = None, pv_outcome = None\<rparr>]\<rparr>"

definition project_create :: "'s lifecycle_env \<Rightarrow> project_input \<Rightarrow> 's lifecycle \<Rightarrow> lf_project tool_response \<times> 's lifecycle" where
  "project_create E inp st =
     (if \<not> db_ready E then (Tool_error ''db_error'', st)
      else if list_ex (\<lambda>p. lp_name p = in_name inp \<and> lp_owner p = in_owner inp \<and> lp_status p = ''active'') (lf_projects st)
        then (Tool_error ''project_already_exists'', st)
      else
        let p = new_project E inp (fresh_id (map lp_id (lf_projects st))) in
        (Tool_ok p, write_audit E ''project_created'' (lp_id p) INITIAL_PHASE (in_owner inp) ''project'' (lp_uuid p)
           [(''name'', JStr (in_name inp)), (''project_type'', JStr (in_type inp)), (''work_item_type'', JStr (in_type inp)),
            (''owner'', JStr (in_owner inp)), (''pipeline_version'', JStr (in_version inp)),
            (''pipeline_manifest_path'', JStr (in_manifest_path inp))] None (insert_project p st)))"

section \<open>transition.sh\<close>

definition current_phase :: "nat \<Rightarrow> 's lifecycle \<Rightarrow> string" where
  "current_phase pid st = (case find (\<lambda>p. lp_id p = pid) (lf_projects st) of
     None \<Rightarrow> [] | Some p \<Rightarrow> filter (\<lambda>c. \<not> ascii_space c) (lp_phase p))"

definition transition_validate :: "'s lifecycle_env \<Rightarrow> nat \<Rightarrow> string \<Rightarrow> 's lifecycle \<Rightarrow> bool" where
  "transition_validate E pid target st =
     (let cur = current_phase pid st in cur \<noteq> [] \<and> cur \<noteq> target \<and> target \<in> set (lv_next E cur))"

text \<open>
  The newest approval that has not expired. The script reads the row with \<open>IFS\<close> set to newline and
  tab while \<open>psql -A\<close> separates columns with a bar, so the first word it reads is the token, a bar
  and the text of the expiry.
\<close>

definition newest_approval :: "'s lifecycle_env \<Rightarrow> nat \<Rightarrow> string \<Rightarrow> 's lifecycle \<Rightarrow> approval_row option" where
  "newest_approval E pid target st =
     (case sort_key (\<lambda>a. - ap_granted_at a) (filter (\<lambda>a. ap_project a = pid \<and> ap_phase a = target \<and> ap_decision a = ''approved'' \<and>
         (case ap_expires_at a of None \<Rightarrow> True | Some t \<Rightarrow> lv_now E < t)) (lf_approvals st)) of
       [] \<Rightarrow> None | a # _ \<Rightarrow> Some a)"

definition ifs_char :: "char \<Rightarrow> bool" where
  "ifs_char c = (c = CHR 0x0A \<or> c = CHR 0x09)"

definition read_token :: "'s lifecycle_env \<Rightarrow> approval_row \<Rightarrow> string" where
  "read_token E a = takeWhile (\<lambda>c. \<not> ifs_char c) (dropWhile ifs_char
     ((case ap_token a of None \<Rightarrow> [] | Some t \<Rightarrow> t) @ ''|'' @
      (case ap_expires_at a of None \<Rightarrow> [] | Some t \<Rightarrow> lv_ts_text E t)))"

text \<open>
  \<open>approval.py verify\<close> as a process of its own: it registers no secret adapter. Exit status 0 is a
  valid token.
\<close>

definition cmd_verify :: "'s lifecycle_env \<Rightarrow> string \<Rightarrow> nat \<Rightarrow> string \<Rightarrow> 's \<Rightarrow> bool" where
  "cmd_verify E token pid phase v =
     (case fst (verify_token (lv_token E) None [] (lv_now E) token HMAC_KEY_VAULT_PATH (Some (str_nat pid)) (Some phase) v) of
        Inl _ \<Rightarrow> False | Inr r \<Rightarrow> tv_valid r)"

definition transition_gate_check :: "'s lifecycle_env \<Rightarrow> nat \<Rightarrow> string \<Rightarrow> 's lifecycle \<Rightarrow> bool" where
  "transition_gate_check E pid target st =
     (lv_gate E target = [] \<or>
      (case newest_approval E pid target st of
         None \<Rightarrow> False
       | Some a \<Rightarrow> read_token E a \<noteq> [] \<and>
           (lv_approval_exec E \<longrightarrow> cmd_verify E (read_token E a) pid target (lf_vault st))))"

definition close_visits :: "nat \<Rightarrow> time \<Rightarrow> string \<Rightarrow> phase_visit list \<Rightarrow> phase_visit list" where
  "close_visits pid now outcome vs = map (\<lambda>v. if pv_project v = pid \<and> pv_exited_at v = None
     then v\<lparr>pv_exited_at := Some now, pv_outcome := Some outcome\<rparr> else v) vs"

definition move_phase :: "'s lifecycle_env \<Rightarrow> nat \<Rightarrow> string \<Rightarrow> string \<Rightarrow> string \<Rightarrow> string \<Rightarrow> 's lifecycle \<Rightarrow> 's lifecycle" where
  "move_phase E pid target actor reason outcome st = st\<lparr>
     lf_history := close_visits pid (lv_now E) outcome (lf_history st) @
       [\<lparr>pv_project = pid, pv_phase = target, pv_exited_at = None, pv_outcome = None\<rparr>],
     lf_projects := map (\<lambda>p. if lp_id p = pid then p\<lparr>lp_phase := target\<rparr> else p) (lf_projects st),
     lf_transitions := lf_transitions st @ [\<lparr>tr_id = fresh_id (map tr_id (lf_transitions st)), tr_project = pid,
       tr_from = current_phase pid st, tr_to = target, tr_actor = actor,
       tr_reason = (if reason = [] then None else Some reason), tr_at = lv_now E\<rparr>]\<rparr>"

definition has_quote :: "string \<Rightarrow> bool" where
  "has_quote s = (CHR 0x27 \<in> set s)"

definition transition_execute :: "'s lifecycle_env \<Rightarrow> nat \<Rightarrow> string \<Rightarrow> string \<Rightarrow> string \<Rightarrow> 's lifecycle \<Rightarrow> bool \<times> 's lifecycle" where
  "transition_execute E pid target actor rationale st =
     (if \<not> transition_validate E pid target st \<or> \<not> transition_gate_check E pid target st then (False, st)
      else if has_quote target \<or> has_quote actor \<or> has_quote (current_phase pid st)
        then lv_stray_quote E pid target actor rationale st
      else (True, move_phase E pid target actor rationale ''advanced'' st))"

section \<open>Advancing and approving\<close>

definition approval_vault_path :: "'s lifecycle_env \<Rightarrow> string" where
  "approval_vault_path E = (case lv_vault_path E of Some (c # cs) \<Rightarrow> c # cs | _ \<Rightarrow> HMAC_KEY_VAULT_PATH)"

record advance_response =
  pa_id :: nat
  pa_uuid :: string
  pa_from :: string
  pa_to :: string
  pa_transition_id :: nat

text \<open>Whether the tool's own check lets the transition pass, with the vault after the lookup.\<close>

definition gate_token_ok :: "'s lifecycle_env \<Rightarrow> 's adapter option \<Rightarrow> string \<Rightarrow> nat \<Rightarrow> string \<Rightarrow> string option \<Rightarrow> 's \<Rightarrow> bool \<times> 's" where
  "gate_token_ok E A hint pid target token v =
     (if \<not> phase_requires_gate (lv_phase_lines E) target then (True, v) else
      case token of
        Some (c # cs) \<Rightarrow>
          (case verify_token (lv_token E) A hint (lv_now E) (c # cs) (approval_vault_path E) (Some (str_nat pid)) (Some target) v of
             (Inl _, v') \<Rightarrow> (False, v') | (Inr r, v') \<Rightarrow> (tv_valid r, v'))
      | _ \<Rightarrow> (False, v))"

definition last_transition :: "nat \<Rightarrow> string \<Rightarrow> string \<Rightarrow> 's lifecycle \<Rightarrow> nat" where
  "last_transition pid from_phase to_phase st =
     foldr max (map tr_id (filter (\<lambda>t. tr_project t = pid \<and> tr_from t = from_phase \<and> tr_to t = to_phase) (lf_transitions st))) 0"

definition opt_string :: "string option \<Rightarrow> string" where
  "opt_string t = (case t of None \<Rightarrow> [] | Some s \<Rightarrow> s)"

definition phase_advance :: "'s lifecycle_env \<Rightarrow> 's adapter option \<Rightarrow> string \<Rightarrow> string \<Rightarrow> string \<Rightarrow> string \<Rightarrow> string option \<Rightarrow>
    string option \<Rightarrow> 's lifecycle \<Rightarrow> advance_response tool_response \<times> 's lifecycle" where
  "phase_advance E A hint project_id target actor rationale token st =
     (case resolve_project E project_id st of
        Inl _ \<Rightarrow> (Tool_raises, st)
      | Inr None \<Rightarrow> (Tool_error ''project_not_found'', st)
      | Inr (Some proj) \<Rightarrow>
          (case gate_token_ok E A hint (rp_id proj) target token (lf_vault st) of
             (False, v) \<Rightarrow> (Tool_error ''invalid_approval_token'', st\<lparr>lf_vault := v\<rparr>)
           | (True, v) \<Rightarrow>
               (case transition_execute E (rp_id proj) target actor (opt_string rationale) (st\<lparr>lf_vault := v\<rparr>) of
                  (False, st1) \<Rightarrow> (Tool_error ''transition_rejected'', st1)
                | (True, st1) \<Rightarrow>
                    let tid = last_transition (rp_id proj) (rp_phase proj) target st1 in
                    (Tool_ok \<lparr>pa_id = rp_id proj, pa_uuid = rp_uuid proj, pa_from = rp_phase proj, pa_to = target,
                       pa_transition_id = tid\<rparr>,
                     write_audit E ''phase_advanced'' (rp_id proj) target actor ''transition'' (str_nat tid)
                       [(''from_phase'', JStr (rp_phase proj)), (''to_phase'', JStr target), (''project_uuid'', JStr (rp_uuid proj))]
                       rationale st1))))"

definition ensure_approval_key :: "'s adapter option \<Rightarrow> string \<Rightarrow> string \<Rightarrow> string \<Rightarrow> ('s, secret_error, unit) eff" where
  "ensure_approval_key A hint path random_bytes = (\<lambda>v.
     case get_secret A hint path v of
       (Inr _, v') \<Rightarrow> (Inr (), v')
     | (Inl SecretNotFound, v') \<Rightarrow> put_secret A hint path (bytes_hex random_bytes) v'
     | (Inl e, v') \<Rightarrow> (Inl e, v'))"

definition insert_approval :: "'s lifecycle_env \<Rightarrow> nat \<Rightarrow> string \<Rightarrow> string \<Rightarrow> string option \<Rightarrow> string \<Rightarrow> time \<Rightarrow> 's lifecycle \<Rightarrow> 's lifecycle" where
  "insert_approval E pid phase approver notes token expires st = st\<lparr>lf_approvals := lf_approvals st @
     [\<lparr>ap_id = fresh_id (map ap_id (lf_approvals st)), ap_project = pid, ap_phase = phase, ap_artifact_ref = ''phase:'' @ phase,
       ap_approver = approver, ap_decision = ''approved'', ap_notes = (case notes of Some (c # cs) \<Rightarrow> notes | _ \<Rightarrow> None),
       ap_token = Some token, ap_granted_at = lv_now E, ap_expires_at = Some expires\<rparr>]\<rparr>"

record grant_response =
  gr_id :: nat
  gr_uuid :: string
  gr_approval_id :: nat
  gr_token :: string
  gr_expires_at :: time

definition approval_grant :: "'s lifecycle_env \<Rightarrow> 's adapter option \<Rightarrow> string \<Rightarrow> string \<Rightarrow> string \<Rightarrow> string \<Rightarrow> string \<Rightarrow> string option \<Rightarrow>
    int \<Rightarrow> 's lifecycle \<Rightarrow> grant_response tool_response \<times> 's lifecycle" where
  "approval_grant E A hint random_bytes project_id phase approver notes ttl_hours st =
     (case resolve_project E project_id st of
        Inl _ \<Rightarrow> (Tool_raises, st)
      | Inr None \<Rightarrow> (Tool_error ''project_not_found'', st)
      | Inr (Some proj) \<Rightarrow>
          (case ensure_approval_key A hint (approval_vault_path E) random_bytes (lf_vault st) of
             (Inl _, v) \<Rightarrow> (Tool_error ''key_init_failed'', st\<lparr>lf_vault := v\<rparr>)
           | (Inr _, v) \<Rightarrow>
               (case sign_token (lv_token E) A hint (lv_now E) (str_nat (rp_id proj)) phase approver ttl_hours (approval_vault_path E) v of
                  (Inl _, v') \<Rightarrow> (Tool_error ''sign_failed'', st\<lparr>lf_vault := v'\<rparr>)
                | (Inr (token, payload), v') \<Rightarrow>
                    let exp_text = dict_get payload ''expires_at'' []; st1 = st\<lparr>lf_vault := v'\<rparr> in
                    (case tk_when (lv_token E) exp_text of
                       None \<Rightarrow> (Tool_error ''db_error'', st1)
                     | Some expires \<Rightarrow>
                         let st2 = insert_approval E (rp_id proj) phase approver notes token expires st1;
                             aid = fresh_id (map ap_id (lf_approvals st1)) in
                         (Tool_ok \<lparr>gr_id = rp_id proj, gr_uuid = rp_uuid proj, gr_approval_id = aid, gr_token = token,
                            gr_expires_at = expires\<rparr>,
                          write_audit E ''approval_granted'' (rp_id proj) phase approver ''approval'' (str_nat aid)
                            [(''approver'', JStr approver), (''ttl_hours'', JInt ttl_hours), (''expires_at'', JStr exp_text),
                             (''project_uuid'', JStr (rp_uuid proj))] notes st2)))))"

record pending_approval =
  pn_phase :: string
  pn_required_approver :: "string option"
  pn_granted :: bool

record status_response =
  ps_id :: nat
  ps_uuid :: string
  ps_name :: string
  ps_phase :: string
  ps_version :: string
  ps_pending :: "pending_approval list"
  ps_last_transition_at :: "time option"

definition pending_gate :: "'s lifecycle_env \<Rightarrow> nat \<Rightarrow> 's lifecycle \<Rightarrow> string \<Rightarrow> pending_approval" where
  "pending_gate E pid st nxt =
     (let approver = (case newest_approval E pid nxt st of None \<Rightarrow> [] | Some a \<Rightarrow> py_strip (ap_approver a)) in
      \<lparr>pn_phase = nxt, pn_required_approver = (if approver = [] then None else Some approver), pn_granted = (approver \<noteq> [])\<rparr>)"

definition project_status :: "'s lifecycle_env \<Rightarrow> string \<Rightarrow> 's lifecycle \<Rightarrow> status_response tool_response" where
  "project_status E project_id st =
     (case resolve_project E project_id st of
        Inl _ \<Rightarrow> Tool_raises
      | Inr None \<Rightarrow> Tool_error ''project_not_found''
      | Inr (Some proj) \<Rightarrow>
          let times = map tr_at (filter (\<lambda>t. tr_project t = rp_id proj) (lf_transitions st)) in
          Tool_ok \<lparr>ps_id = rp_id proj, ps_uuid = rp_uuid proj, ps_name = rp_name proj, ps_phase = rp_phase proj,
            ps_version = rp_version proj,
            ps_pending = map (pending_gate E (rp_id proj) st) (filter (phase_requires_gate (lv_phase_lines E))
              (next_phases_from_yaml (lv_phase_lines E) (rp_phase proj))),
            ps_last_transition_at = (if times = [] then None else Some (foldr max times (hd times)))\<rparr>)"

section \<open>The commands of approval.py\<close>

text \<open>
  \<open>_run_psql\<close> runs \<open>psql\<close> without \<open>-q\<close>. The state is the one after the command; the exit status 4
  of an unexpected exception is \<open>Unexpected\<close>.
\<close>

definition cmd_grant :: "'s lifecycle_env \<Rightarrow> 's adapter option \<Rightarrow> string \<Rightarrow> string \<Rightarrow> string \<Rightarrow> string \<Rightarrow> string option \<Rightarrow> int \<Rightarrow>
    ('s lifecycle, approval_error, int \<times> string) eff" where
  "cmd_grant E A hint project_id phase approver notes ttl_hours = (\<lambda>st.
     case sign_token (lv_token E) A hint (lv_now E) project_id phase approver ttl_hours HMAC_KEY_VAULT_PATH (lf_vault st) of
       (Inl e, v) \<Rightarrow> (Inl e, st\<lparr>lf_vault := v\<rparr>)
     | (Inr (token, payload), v) \<Rightarrow>
         let st1 = st\<lparr>lf_vault := v\<rparr> in
         (case py_int project_id of
            None \<Rightarrow> (Inl Unexpected, st1)
          | Some n \<Rightarrow>
              (case (tk_when (lv_token E) (dict_get payload ''expires_at'' []), n \<in> int ` lp_id ` set (lf_projects st1)) of
                 (Some expires, True) \<Rightarrow>
                   let st2 = insert_approval E (nat n) phase approver notes token expires st1;
                       out = py_strip (lv_psql_text E (str_nat (fresh_id (map ap_id (lf_approvals st1)))) ''INSERT 0 1'') in
                   (case py_int out of None \<Rightarrow> (Inl Unexpected, st2) | Some aid \<Rightarrow> (Inr (aid, token), st2))
               | _ \<Rightarrow> (Inl Psql_error, st1))))"

definition cmd_revoke :: "'s lifecycle_env \<Rightarrow> string \<Rightarrow> ('s lifecycle, approval_error, int) eff" where
  "cmd_revoke E approval_id = (\<lambda>st.
     case py_int approval_id of
       None \<Rightarrow> (Inl Unexpected, st)
     | Some n \<Rightarrow>
         let hit = filter (\<lambda>a. int (ap_id a) = n) (lf_approvals st);
             st1 = st\<lparr>lf_approvals := map (\<lambda>a. if int (ap_id a) = n then a\<lparr>ap_expires_at := Some (lv_now E)\<rparr> else a) (lf_approvals st)\<rparr>;
             out = py_strip (if hit = [] then lv_psql_text E [] ''UPDATE 0'' else lv_psql_text E (str_nat (nat n)) ''UPDATE 1'') in
         if out = [] then (Inl Approval_not_found, st1) else
         (case py_int out of None \<Rightarrow> (Inl Unexpected, st1) | Some rid \<Rightarrow> (Inr rid, st1)))"

section \<open>The scripts of the command line\<close>

lemma no_adapter_key: "load_key None hint path v = (Inl Key_backend_error, v)"
  by (simp add: load_key_def emap_error_def secret_defs eff_simps key_error_def Let_def)

lemma no_adapter_verify: "fst (verify_token T None hint now token path pid ph v) = Inr r \<Longrightarrow> \<not> tv_valid r"
  by (auto simp: verify_token_def no_adapter_key rejected_def eff_simps split: if_splits)

text \<open>
  \<open>approval.py\<close> cannot work as a command: the process registers no secret adapter, so
  \<open>genkey\<close> and \<open>grant\<close> always fail with \<open>key_backend_error\<close> and change nothing, and \<open>verify\<close> accepts
  no token at all.
\<close>

theorem approval_commands_always_fail:
  "cmd_genkey None hint path rnd v = (Inl Key_backend_error, v) \<and>
   cmd_grant E None hint project_id phase approver notes ttl st = (Inl Key_backend_error, st) \<and>
   \<not> cmd_verify E token pid phase v"
proof -
  have "cmd_genkey None hint path rnd v = (Inl Key_backend_error, v)"
    by (simp add: cmd_genkey_def secret_defs eff_simps write_error_def Let_def)
  moreover have "cmd_grant E None hint project_id phase approver notes ttl st = (Inl Key_backend_error, st)"
    by (simp add: cmd_grant_def sign_token_def no_adapter_key eff_simps)
  ultimately show ?thesis
    by (auto simp: cmd_verify_def split: sum.splits dest: no_adapter_verify)
qed

lemma gate_check_rejects:
  assumes "lv_approval_exec E" and "lv_gate E target \<noteq> []"
  shows "\<not> transition_gate_check E pid target st"
proof -
  have "\<not> cmd_verify E token pid target v" for token v
    by (auto simp: cmd_verify_def split: sum.splits dest: no_adapter_verify)
  then show ?thesis using assms by (auto simp: transition_gate_check_def split: option.splits)
qed

text \<open>
  Where \<open>approval.py\<close> is executable no gated phase is ever entered: \<open>phase_advance\<close> to a
  phase that the script reads a gate for never succeeds, whatever token is supplied and whatever
  approvals are stored, and leaves projects, history, transitions and approvals as they were.
\<close>

theorem gated_phase_never_entered:
  assumes "lv_approval_exec E" and "lv_gate E target \<noteq> []"
    and "phase_advance E A hint project_id target actor rationale token st = (resp, st')"
  shows "(\<forall>r. resp \<noteq> Tool_ok r) \<and> lf_projects st' = lf_projects st \<and> lf_history st' = lf_history st \<and>
    lf_transitions st' = lf_transitions st \<and> lf_approvals st' = lf_approvals st"
proof -
  have "transition_execute E pid target actor r s = (False, s)" for pid r s
    using gate_check_rejects [OF assms(1,2)] by (simp add: transition_execute_def)
  then show ?thesis
    using assms(3) by (auto simp: phase_advance_def split: sum.splits option.splits prod.splits bool.splits)
qed

section \<open>The lifecycle invariant\<close>

lemma write_audit_frame [simp]:
  "lf_projects (write_audit E a p ph ac sty sid md rat st) = lf_projects st"
  "lf_history (write_audit E a p ph ac sty sid md rat st) = lf_history st"
  "lf_transitions (write_audit E a p ph ac sty sid md rat st) = lf_transitions st"
  "lf_approvals (write_audit E a p ph ac sty sid md rat st) = lf_approvals st"
  "lf_vault (write_audit E a p ph ac sty sid md rat st) = lf_vault st"
  by (simp_all add: write_audit_def Let_def)

lemma insert_approval_frame [simp]:
  "lf_projects (insert_approval E p ph ap n t x st) = lf_projects st"
  "lf_history (insert_approval E p ph ap n t x st) = lf_history st"
  "lf_transitions (insert_approval E p ph ap n t x st) = lf_transitions st"
  "lf_vault (insert_approval E p ph ap n t x st) = lf_vault st"
  by (simp_all add: insert_approval_def)

text \<open>A walk along allowed transitions from one phase to another.\<close>

fun phase_path :: "(string \<Rightarrow> string list) \<Rightarrow> string \<Rightarrow> (string \<times> string) list \<Rightarrow> string \<Rightarrow> bool" where
  "phase_path nx a [] b = (a = b)"
| "phase_path nx a ((f, t) # ps) b = (f = a \<and> t \<in> set (nx a) \<and> phase_path nx t ps b)"

definition moves_of :: "nat \<Rightarrow> 's lifecycle \<Rightarrow> (string \<times> string) list" where
  "moves_of pid st = map (\<lambda>t. (tr_from t, tr_to t)) (filter (\<lambda>t. tr_project t = pid) (lf_transitions st))"

definition open_phases :: "nat \<Rightarrow> phase_visit list \<Rightarrow> string list" where
  "open_phases pid vs = map pv_phase (filter (\<lambda>v. pv_project v = pid \<and> pv_exited_at v = None) vs)"

definition no_blank :: "string \<Rightarrow> bool" where
  "no_blank s = list_all (\<lambda>c. \<not> ascii_space c) s"

definition project_ok :: "(string \<Rightarrow> string list) \<Rightarrow> 's lifecycle \<Rightarrow> lf_project \<Rightarrow> bool" where
  "project_ok nx st p \<longleftrightarrow> no_blank (lp_phase p) \<and> open_phases (lp_id p) (lf_history st) = [lp_phase p] \<and>
     phase_path nx INITIAL_PHASE (moves_of (lp_id p) st) (lp_phase p)"

definition lifecycle_ok :: "(string \<Rightarrow> string list) \<Rightarrow> 's lifecycle \<Rightarrow> bool" where
  "lifecycle_ok nx st \<longleftrightarrow>
     distinct (map lp_id (lf_projects st)) \<and>
     (\<forall>p \<in> set (lf_projects st). project_ok nx st p) \<and>
     pv_project ` set (lf_history st) \<subseteq> lp_id ` set (lf_projects st) \<and>
     tr_project ` set (lf_transitions st) \<subseteq> lp_id ` set (lf_projects st)"

lemma phase_path_snoc: "phase_path nx a (ps @ [(f, t)]) b \<longleftrightarrow> phase_path nx a ps f \<and> t \<in> set (nx f) \<and> t = b"
  by (induction nx a ps f rule: phase_path.induct) auto

lemma fresh_id_notin: "fresh_id ids \<notin> set ids"
proof -
  have "i \<le> foldr max ids 0" if "i \<in> set ids" for i using that by (induction ids) auto
  then show ?thesis by (fastforce simp: fresh_id_def)
qed

lemma open_phases_close:
  "open_phases pid (close_visits q now oc vs) = (if pid = q then [] else open_phases pid vs)"
  by (induction vs) (auto simp: open_phases_def close_visits_def)

lemma close_visits_projects: "pv_project ` set (close_visits q now oc vs) = pv_project ` set vs"
proof -
  have "map pv_project (close_visits q now oc vs) = map pv_project vs" by (simp add: close_visits_def)
  then show ?thesis by (metis list.set_map)
qed

lemma find_distinct_key: "distinct (map f xs) \<Longrightarrow> x \<in> set xs \<Longrightarrow> find (\<lambda>y. f y = f x) xs = Some x"
  by (induction xs) (auto simp: image_iff)

lemma current_phase_ok:
  assumes "lifecycle_ok nx st" and "p \<in> set (lf_projects st)"
  shows "current_phase (lp_id p) st = lp_phase p"
proof -
  have "distinct (map lp_id (lf_projects st))" "no_blank (lp_phase p)"
    using assms by (auto simp: lifecycle_ok_def project_ok_def)
  with assms(2) show ?thesis
    by (simp add: current_phase_def no_blank_def list_all_iff filter_id_conv find_distinct_key)
qed

lemma lifecycle_ok_frame:
  "lifecycle_ok nx st \<Longrightarrow> lf_projects st' = lf_projects st \<Longrightarrow> lf_history st' = lf_history st \<Longrightarrow>
    lf_transitions st' = lf_transitions st \<Longrightarrow> lifecycle_ok nx st'"
  by (simp add: lifecycle_ok_def project_ok_def moves_of_def)

lemma current_phase_vault [simp]: "current_phase pid (st\<lparr>lf_vault := v\<rparr>) = current_phase pid st"
  by (simp add: current_phase_def)

lemma moves_of_other:
  "lf_transitions st' = lf_transitions st @ [t] \<Longrightarrow> tr_project t \<noteq> q \<Longrightarrow> moves_of q st' = moves_of q st"
  by (simp add: moves_of_def)

lemma move_phase_ok:
  assumes "lifecycle_ok nx st" and "p \<in> set (lf_projects st)" and "target \<in> set (nx (lp_phase p))" and "no_blank target"
  shows "lifecycle_ok nx (move_phase E (lp_id p) target actor reason oc st)"
proof -
  let ?st = "move_phase E (lp_id p) target actor reason oc st"
  have cur: "current_phase (lp_id p) st = lp_phase p" by (rule current_phase_ok [OF assms(1,2)])
  have ids: "map lp_id (lf_projects ?st) = map lp_id (lf_projects st)" by (simp add: move_phase_def comp_def)
  have hist: "open_phases q (lf_history ?st) = (if q = lp_id p then [target] else open_phases q (lf_history st))" for q
    using open_phases_close [of q "lp_id p" "lv_now E" oc "lf_history st"]
    by (auto simp: move_phase_def open_phases_def)
  have moves: "moves_of q ?st = moves_of q st @ (if q = lp_id p then [(lp_phase p, target)] else [])" for q
    by (simp add: move_phase_def moves_of_def cur)
  have "project_ok nx ?st q" if "q \<in> set (lf_projects ?st)" for q
  proof -
    obtain p1 where p1: "p1 \<in> set (lf_projects st)" "q = (if lp_id p1 = lp_id p then p1\<lparr>lp_phase := target\<rparr> else p1)"
      using \<open>q \<in> set (lf_projects ?st)\<close> by (auto simp: move_phase_def)
    have old: "project_ok nx st p1" "project_ok nx st p" using assms(1,2) p1(1) by (simp_all add: lifecycle_ok_def)
    show ?thesis
    proof (cases "lp_id p1 = lp_id p")
      case True
      then have "p1 = p" using p1(1) assms(1,2) by (auto simp: lifecycle_ok_def distinct_map dest: inj_onD)
      then have "q = p\<lparr>lp_phase := target\<rparr>" using p1(2) by simp
      with old(2) assms(3,4) show ?thesis by (simp add: project_ok_def hist moves phase_path_snoc)
    next
      case False
      with old(1) p1(2) show ?thesis by (simp add: project_ok_def hist moves)
    qed
  qed
  moreover have "lp_id ` set (lf_projects ?st) = lp_id ` set (lf_projects st)" using ids by (metis list.set_map)
  moreover have "pv_project ` set (lf_history ?st) = insert (lp_id p) (pv_project ` set (lf_history st))"
    by (simp add: move_phase_def close_visits_projects image_Un)
  moreover have "tr_project ` set (lf_transitions ?st) = insert (lp_id p) (tr_project ` set (lf_transitions st))"
    by (simp add: move_phase_def)
  ultimately show ?thesis using assms(1,2) ids unfolding lifecycle_ok_def by simp
qed

lemma transition_execute_ok:
  assumes "lifecycle_ok (lv_next E) st" and "\<not> has_quote actor"
    and "\<And>ph t. t \<in> set (lv_next E ph) \<Longrightarrow> no_blank t \<and> \<not> has_quote t" and "\<not> has_quote (current_phase pid st)"
    and "transition_execute E pid target actor reason st = (b, st')"
  shows "lifecycle_ok (lv_next E) st'"
proof (cases "transition_validate E pid target st \<and> transition_gate_check E pid target st")
  case False
  then show ?thesis using assms(1,5) by (auto simp: transition_execute_def)
next
  case True
  then have v: "current_phase pid st \<noteq> []" "target \<in> set (lv_next E (current_phase pid st))"
    by (auto simp: transition_validate_def Let_def)
  then obtain p where p: "p \<in> set (lf_projects st)" "pid = lp_id p"
    using find_Some_mem by (fastforce simp: current_phase_def split: option.splits)
  have "st' = move_phase E pid target actor reason ''advanced'' st"
    using True assms(2,3,4,5) v(2) by (auto simp: transition_execute_def)
  with move_phase_ok [OF assms(1) p(1)] v(2) assms(3) p current_phase_ok [OF assms(1) p(1)] show ?thesis by auto
qed

lemma create_ok:
  assumes "lifecycle_ok nx st" and "project_create E inp st = (r, st')"
  shows "lifecycle_ok nx st'"
proof (cases "\<exists>e. project_create E inp st = (Tool_error e, st)")
  case True
  then show ?thesis using assms by auto
next
  case False
  let ?i = "fresh_id (map lp_id (lf_projects st))"
  have new: "?i \<notin> lp_id ` set (lf_projects st)" using fresh_id_notin [of "map lp_id (lf_projects st)"] by simp
  have refs: "pv_project ` set (lf_history st) \<subseteq> lp_id ` set (lf_projects st)"
    "tr_project ` set (lf_transitions st) \<subseteq> lp_id ` set (lf_projects st)" using assms(1) by (simp_all add: lifecycle_ok_def)
  have "pv_project v \<noteq> ?i" if "v \<in> set (lf_history st)" for v using that new refs(1) by (metis imageI subsetD)
  then have visits: "open_phases ?i (lf_history st) = []" by (auto simp: open_phases_def filter_empty_conv)
  have "tr_project t \<noteq> ?i" if "t \<in> set (lf_transitions st)" for t using that new refs(2) by (metis imageI subsetD)
  then have moves: "moves_of ?i st = []" by (auto simp: moves_of_def filter_empty_conv)
  let ?p = "new_project E inp ?i"
  have "\<exists>md. st' = write_audit E ''project_created'' (lp_id ?p) INITIAL_PHASE (in_owner inp) ''project'' (lp_uuid ?p) md None
      (insert_project ?p st)"
    using False assms(2) by (auto simp only: project_create_def Let_def split: if_split_asm)
  then obtain p where p: "lp_id p = ?i" "lp_phase p = INITIAL_PHASE" "lf_projects st' = lf_projects st @ [p]"
      "lf_history st' = lf_history st @ [\<lparr>pv_project = ?i, pv_phase = INITIAL_PHASE, pv_exited_at = None, pv_outcome = None\<rparr>]"
      "lf_transitions st' = lf_transitions st"
    by (elim exE) (rule that [of ?p], simp_all add: new_project_def insert_project_def)
  have h: "open_phases q (lf_history st') = open_phases q (lf_history st) @ (if q = ?i then [INITIAL_PHASE] else [])" for q
    by (simp add: p(4) open_phases_def)
  have t: "moves_of q st' = moves_of q st" for q by (simp add: moves_of_def p(5))
  have blank: "no_blank INITIAL_PHASE" by (simp add: no_blank_def INITIAL_PHASE_def ascii_space_def)
  have "project_ok nx st' q" if "q \<in> set (lf_projects st)" for q
  proof -
    have "lp_id q \<noteq> ?i" using that new by (metis imageI)
    moreover have "project_ok nx st q" using that assms(1) by (simp add: lifecycle_ok_def)
    ultimately show ?thesis by (simp add: project_ok_def h t)
  qed
  moreover have "project_ok nx st' p" by (simp add: project_ok_def p(1,2) h t visits moves blank)
  ultimately show ?thesis using assms(1) p new by (auto simp: lifecycle_ok_def)
qed

datatype lifecycle_op =
    Op_create project_input
  | Op_advance string string string "string option" "string option"
  | Op_grant string string string string "string option" int
  | Op_cli_grant string string string "string option" int
  | Op_revoke string

text \<open>One call of a tool or command in the environment of its moment.\<close>

fun run_lifecycle_op :: "'s adapter option \<Rightarrow> string \<Rightarrow> 's lifecycle_env \<Rightarrow> lifecycle_op \<Rightarrow> 's lifecycle \<Rightarrow> 's lifecycle" where
  "run_lifecycle_op A hint E (Op_create inp) st = snd (project_create E inp st)"
| "run_lifecycle_op A hint E (Op_advance pid target actor rat token) st = snd (phase_advance E A hint pid target actor rat token st)"
| "run_lifecycle_op A hint E (Op_grant rnd pid phase approver notes ttl) st = snd (approval_grant E A hint rnd pid phase approver notes ttl st)"
| "run_lifecycle_op A hint E (Op_cli_grant pid phase approver notes ttl) st = run_state (cmd_grant E A hint pid phase approver notes ttl) st"
| "run_lifecycle_op A hint E (Op_revoke aid) st = run_state (cmd_revoke E aid) st"

definition op_clean :: "lifecycle_op \<Rightarrow> bool" where
  "op_clean op = (case op of Op_advance pid target actor rat token \<Rightarrow> \<not> has_quote actor | _ \<Rightarrow> True)"

lemma grant_frame:
  "lf_projects (snd (approval_grant E A hint rnd pid ph ap n ttl st)) = lf_projects st \<and>
   lf_history (snd (approval_grant E A hint rnd pid ph ap n ttl st)) = lf_history st \<and>
   lf_transitions (snd (approval_grant E A hint rnd pid ph ap n ttl st)) = lf_transitions st"
  by (simp add: approval_grant_def Let_def split: sum.split option.split prod.split)

lemma cli_grant_frame:
  "lf_projects (snd (cmd_grant E A hint pid ph ap n ttl st)) = lf_projects st \<and>
   lf_history (snd (cmd_grant E A hint pid ph ap n ttl st)) = lf_history st \<and>
   lf_transitions (snd (cmd_grant E A hint pid ph ap n ttl st)) = lf_transitions st"
  by (simp add: cmd_grant_def Let_def split: sum.split option.split prod.split bool.split)

lemma revoke_frame:
  "lf_projects (snd (cmd_revoke E aid st)) = lf_projects st \<and>
   lf_history (snd (cmd_revoke E aid st)) = lf_history st \<and> lf_transitions (snd (cmd_revoke E aid st)) = lf_transitions st"
  by (simp add: cmd_revoke_def Let_def split: option.split)

definition plain_phases :: "(string \<Rightarrow> string list) \<Rightarrow> bool" where
  "plain_phases nx \<longleftrightarrow> (\<forall>ph. \<forall>t \<in> set (nx ph). no_blank t \<and> \<not> has_quote t)"

lemma phase_path_end: "phase_path nx a ps b \<Longrightarrow> plain_phases nx \<Longrightarrow> \<not> has_quote a \<Longrightarrow> \<not> has_quote b"
  by (induction nx a ps b rule: phase_path.induct) (auto simp: plain_phases_def)

lemma lifecycle_ok_no_quote:
  assumes "lifecycle_ok nx st" and "plain_phases nx"
  shows "\<not> has_quote (current_phase pid st)"
proof (cases "find (\<lambda>p. lp_id p = pid) (lf_projects st)")
  case None
  then show ?thesis by (simp add: current_phase_def has_quote_def)
next
  case (Some p)
  then have "p \<in> set (lf_projects st)" using find_Some_mem by fast
  then have "phase_path nx INITIAL_PHASE (moves_of (lp_id p) st) (lp_phase p)"
    using assms(1) by (simp add: lifecycle_ok_def project_ok_def)
  from phase_path_end [OF this assms(2)] Some show ?thesis
    by (simp add: current_phase_def has_quote_def INITIAL_PHASE_def)
qed

lemma advance_ok:
  assumes "lifecycle_ok (lv_next E) st" and "plain_phases (lv_next E)" and "\<not> has_quote actor"
  shows "lifecycle_ok (lv_next E) (snd (phase_advance E A hint pid target actor rat token st))"
proof -
  have te: "lifecycle_ok (lv_next E) (snd (transition_execute E i target actor r (st\<lparr>lf_vault := v\<rparr>)))" for i r v
  proof -
    have ok: "lifecycle_ok (lv_next E) (st\<lparr>lf_vault := v\<rparr>)" by (rule lifecycle_ok_frame [OF assms(1)]) simp_all
    obtain b st' where t: "transition_execute E i target actor r (st\<lparr>lf_vault := v\<rparr>) = (b, st')" by fastforce
    have "lifecycle_ok (lv_next E) st'"
    proof (rule transition_execute_ok [OF ok assms(3) _ _ t])
      show "no_blank x \<and> \<not> has_quote x" if "x \<in> set (lv_next E ph)" for ph x
        using that assms(2) by (auto simp: plain_phases_def)
      show "\<not> has_quote (current_phase i (st\<lparr>lf_vault := v\<rparr>))" by (rule lifecycle_ok_no_quote [OF ok assms(2)])
    qed
    then show ?thesis by (simp add: t)
  qed
  have frame: "lifecycle_ok (lv_next E) (write_audit E a p ph ac sty sid md rat s)" if "lifecycle_ok (lv_next E) s" for a p ph ac sty sid md s
    by (rule lifecycle_ok_frame [OF that]) simp_all
  have vault: "lifecycle_ok (lv_next E) (st\<lparr>lf_vault := v\<rparr>)" for v by (rule lifecycle_ok_frame [OF assms(1)]) simp_all
  show ?thesis
    using te frame vault assms(1)
    by (auto simp: phase_advance_def Let_def split: sum.split option.split prod.split bool.split) (metis snd_conv)+
qed

text \<open>
  Claim C29. The lifecycle tables agree: starting from empty tables, after any sequence of the tools and
  commands, in any environments with the same phase graph, ids are unique, every project has exactly
  one open visit and it is of its current phase, and its recorded transitions are a walk along the
  allowed edges from \<open>intake\<close> to that phase. Phase names hold no blank or quote, and no actor a quote.
\<close>

theorem lifecycle_invariant:
  assumes "plain_phases nx" and "\<forall>(E, op) \<in> set ops. lv_next E = nx \<and> op_clean op"
    and "lf_projects st0 = []" and "lf_history st0 = []" and "lf_transitions st0 = []"
  shows "lifecycle_ok nx (fold (\<lambda>(E, op). run_lifecycle_op A hint E op) ops st0)"
proof -
  have step: "lifecycle_ok nx (run_lifecycle_op A hint E op st)" if "lifecycle_ok nx st" "lv_next E = nx" "op_clean op" for E op st
  proof (cases op)
    case (Op_create inp)
    with that(1) show ?thesis using create_ok [of nx st E inp] by (metis prod.collapse run_lifecycle_op.simps(1))
  next
    case (Op_advance pid target actor rat token)
    with that advance_ok [of E st actor A hint pid target rat token] assms(1) show ?thesis by (simp add: op_clean_def)
  next
    case (Op_grant rnd pid ph ap n ttl)
    with that(1) show ?thesis using grant_frame [of E A hint rnd pid ph ap n ttl st] by (auto intro: lifecycle_ok_frame)
  next
    case (Op_cli_grant pid ph ap n ttl)
    with that(1) show ?thesis using cli_grant_frame [of E A hint pid ph ap n ttl st] by (auto intro: lifecycle_ok_frame)
  next
    case (Op_revoke aid)
    with that(1) show ?thesis using revoke_frame [of E aid st] by (auto intro: lifecycle_ok_frame)
  qed
  have "lifecycle_ok nx st0" using assms(3,4,5) by (simp add: lifecycle_ok_def)
  then show ?thesis using assms(2)
  proof (induction ops arbitrary: st0)
    case (Cons x ops)
    obtain E op where x: "x = (E, op)" by fastforce
    with Cons.prems have "lifecycle_ok nx (run_lifecycle_op A hint E op st0)" using step by simp
    with Cons x show ?case by simp
  qed simp
qed

section \<open>Gated phases\<close>

text \<open>
  Claim C30. The tool \<open>phase_advance\<close> reports success for a phase that the pipeline file marks with a gate only
  when the caller supplied a token whose signature is the HMAC, under the key in the vault, of a payload that
  names this project and this phase and has not expired, and the script found the edge from the current phase
  allowed. (The hook of an acknowledged card can also write a phase without this tool: \<open>Ack_Hook\<close>.)
\<close>

theorem gated_advance_needs_signed_token:
  assumes "phase_advance E A hint project_id target actor rationale token st = (Tool_ok r, st')"
    and "phase_requires_gate (lv_phase_lines E) target"
  shows "\<exists>key v p g d. token = Some (p @ ''.'' @ g) \<and>
    load_key A hint (approval_vault_path E) (lf_vault st) = (Inr key, v) \<and>
    b64url_decode g = Some (tk_hmac (lv_token E) key p) \<and>
    Option.bind (b64url_decode p) (tk_loads (lv_token E)) = Some (JDict d) \<and>
    payload_current (lv_token E) (lv_now E) d (Some (str_nat (pa_id r))) (Some target) \<and>
    target \<in> set (lv_next E (current_phase (pa_id r) st))"
proof -
  obtain proj v st1 where proj: "resolve_project E project_id st = Inr (Some proj)"
    and ok: "gate_token_ok E A hint (rp_id proj) target token (lf_vault st) = (True, v)"
    and t: "transition_execute E (rp_id proj) target actor (opt_string rationale) (st\<lparr>lf_vault := v\<rparr>) = (True, st1)"
    and r: "pa_id r = rp_id proj"
    using assms(1) by (auto simp: phase_advance_def Let_def split: sum.splits option.splits prod.splits bool.splits)
  obtain tk res where tk: "token = Some tk" "verify_token (lv_token E) A hint (lv_now E) tk (approval_vault_path E)
      (Some (str_nat (rp_id proj))) (Some target) (lf_vault st) = (Inr res, v)" "tv_valid res"
    using ok assms(2) by (auto simp: gate_token_ok_def split: option.splits list.splits prod.splits sum.splits)
  have "target \<in> set (lv_next E (current_phase (rp_id proj) st))"
    using t by (auto simp: transition_execute_def transition_validate_def Let_def split: if_splits)
  moreover obtain key v' p g d where "load_key A hint (approval_vault_path E) (lf_vault st) = (Inr key, v')" "tk = p @ ''.'' @ g"
      "b64url_decode g = Some (tk_hmac (lv_token E) key p)" "Option.bind (b64url_decode p) (tk_loads (lv_token E)) = Some (JDict d)"
      "payload_current (lv_token E) (lv_now E) d (Some (str_nat (rp_id proj))) (Some target)"
    using tk(2,3) verify_valid_iff [of "lv_token E" A hint "lv_now E" tk "approval_vault_path E" "Some (str_nat (rp_id proj))"
      "Some target" "lf_vault st"] by metis
  ultimately show ?thesis using tk(1) r by metis
qed

text \<open>
  Creation is refused for a project that is already active: after a successful
  \<open>project_create\<close> a second call with the same name and owner, in whatever environment, answers an
  error and changes nothing.
\<close>

theorem project_create_once:
  assumes "project_create E inp st = (Tool_ok p, st')" and "in_name inp' = in_name inp" and "in_owner inp' = in_owner inp"
  shows "\<exists>code. project_create E' inp' st' = (Tool_error code, st')"
proof -
  have "\<exists>q \<in> set (lf_projects st'). lp_name q = in_name inp \<and> lp_owner q = in_owner inp \<and> lp_status q = ''active''"
    using assms(1) by (auto simp: project_create_def new_project_def insert_project_def Let_def split: if_splits)
  then show ?thesis using assms(2,3) by (auto simp: project_create_def list_ex_iff)
qed

section \<open>Granting and then advancing\<close>

context live_secret_adapter
begin

lemma ensure_key_ok:
  assumes "invar v"
  shows "\<exists>v' hex. ensure_approval_key (Some A) hint path rnd v = (Inr (), v') \<and> invar v' \<and> contents v' path = Some hex \<and>
    hex = (case contents v path of None \<Rightarrow> bytes_hex rnd | Some h \<Rightarrow> h)"
proof (cases "contents v path")
  case None
  then obtain v1 where g: "ad_get A path v = (Inl SecretNotFound, v1)" using get_miss [OF assms] by (metis prod.collapse)
  note f = get_frame [OF assms g]
  then obtain v2 where p: "ad_put A path (bytes_hex rnd) v1 = (Inr (), v2)" using put_live by (metis prod.collapse)
  with put_ok [OF _ p] f g None show ?thesis
    by (simp add: ensure_approval_key_def secret_defs eff_simps)
next
  case (Some h)
  then obtain v1 where g: "ad_get A path v = (Inr h, v1)" using get_hit [OF assms] by (metis prod.collapse)
  with get_frame [OF assms g] Some show ?thesis
    by (simp add: ensure_approval_key_def secret_defs eff_simps)
qed

end

lemma read_token_nonempty: "read_token E a \<noteq> []"
proof -
  have "takeWhile (\<lambda>c. \<not> ifs_char c) (dropWhile ifs_char (t @ CHR ''|'' # u)) \<noteq> []" for t u
    by (induction t) (auto simp: ifs_char_def)
  then show ?thesis by (simp add: read_token_def)
qed

lemma newest_approval_found:
  assumes "a \<in> set (lf_approvals st)" and "ap_project a = pid" and "ap_phase a = target" and "ap_decision a = ''approved''"
    and "ap_expires_at a = Some t" and "lv_now E < t"
  shows "newest_approval E pid target st \<noteq> None"
proof -
  let ?fs = "filter (\<lambda>a. ap_project a = pid \<and> ap_phase a = target \<and> ap_decision a = ''approved'' \<and>
    (case ap_expires_at a of None \<Rightarrow> True | Some t \<Rightarrow> lv_now E < t)) (lf_approvals st)"
  have "a \<in> set (sort_key (\<lambda>a. - ap_granted_at a) ?fs)" using assms by simp
  then obtain b bs where "sort_key (\<lambda>a. - ap_granted_at a) ?fs = b # bs" by (meson list.set_cases)
  then show ?thesis by (simp only: newest_approval_def list.case) simp
qed

lemma vault_path_now [simp]: "approval_vault_path (E\<lparr>lv_now := n\<rparr>) = approval_vault_path E"
  by (simp add: approval_vault_path_def)

lemma resolve_frame:
  "lf_projects st' = lf_projects st \<Longrightarrow> resolve_project (E\<lparr>lv_now := n\<rparr>) pid st' = resolve_project E pid st"
  by (simp add: resolve_project_def db_ready_def project_matches_def)

lemma current_phase_frame: "lf_projects st' = lf_projects st \<Longrightarrow> current_phase pid st' = current_phase pid st"
  by (simp add: current_phase_def)

lemma current_phase_moved:
  assumes "current_phase pid st \<noteq> []" and "no_blank target"
  shows "current_phase pid (move_phase E pid target actor reason oc st) = target"
proof -
  have moved: "find (\<lambda>p. lp_id p = pid) (map (\<lambda>p. if lp_id p = pid then p\<lparr>lp_phase := target\<rparr> else p) ps) =
      map_option (\<lambda>p. p\<lparr>lp_phase := target\<rparr>) (find (\<lambda>p. lp_id p = pid) ps)" for ps
    by (induction ps) auto
  show ?thesis using assms
    by (cases "find (\<lambda>p. lp_id p = pid) (lf_projects st)")
      (simp_all add: current_phase_def move_phase_def moved no_blank_def list_all_iff filter_id_conv)
qed

text \<open>What a grant leaves behind, for a vault behind the cache.\<close>

lemma grant_succeeds:
  assumes "resolve_project E pid st = Inr (Some proj)" and "mem.cached_invar (lf_vault st)"
    and "\<forall>h. map_of (c_inner (lf_vault st)) (approval_vault_path E) = Some h \<longrightarrow> py_fromhex (py_strip h) \<noteq> None"
    and "expiry = whole_second (lv_now E) + ttl * 3600 * second" and "datetime_range expiry"
    and "tk_when (lv_token E) (tk_iso (lv_token E) expiry) = Some expiry"
    and "payload = token_payload (lv_token E) (lv_now E) (str_nat (rp_id proj)) target approver ttl"
  shows "\<exists>g st1 key hex. approval_grant E (Some (cached_adapter memory_adapter)) hint rnd pid target approver notes ttl st = (Tool_ok g, st1) \<and>
    gr_token g = sign_payload (lv_token E) key payload \<and> gr_expires_at g = expiry \<and>
    mem.cached_invar (lf_vault st1) \<and> map_of (c_inner (lf_vault st1)) (approval_vault_path E) = Some hex \<and>
    py_fromhex (py_strip hex) = Some key \<and> lf_projects st1 = lf_projects st \<and>
    (\<exists>a \<in> set (lf_approvals st1). ap_project a = rp_id proj \<and> ap_phase a = target \<and> ap_decision a = ''approved'' \<and> ap_expires_at a = Some expiry)"
proof -
  let ?A = "Some (cached_adapter memory_adapter)" and ?path = "approval_vault_path E"
  obtain v1 hex where v1: "ensure_approval_key ?A hint ?path rnd (lf_vault st) = (Inr (), v1)" "mem.cached_invar v1"
      "map_of (c_inner v1) ?path = Some hex"
      "hex = (case map_of (c_inner (lf_vault st)) ?path of None \<Rightarrow> bytes_hex rnd | Some h \<Rightarrow> h)"
    using cmem.ensure_key_ok [OF assms(2), of hint ?path rnd] by blast
  obtain key where key: "py_fromhex (py_strip hex) = Some key"
    using v1(4) assms(3) by (cases "map_of (c_inner (lf_vault st)) ?path") (auto simp: py_fromhex_hex)
  obtain v2 where v2: "load_key ?A hint ?path v1 = (Inr key, v2)" "mem.cached_invar v2" "map_of (c_inner v2) = map_of (c_inner v1)"
    using cmem.load_key_stored [OF v1(2,3) key, of hint] by blast
  have sign: "sign_token (lv_token E) ?A hint (lv_now E) (str_nat (rp_id proj)) target approver ttl ?path v1 =
      (Inr (sign_payload (lv_token E) key payload, payload), v2)"
    using v2(1) assms(4,5,7) by (simp add: sign_token_def eff_simps Let_def)
  have expiry: "dict_get payload ''expires_at'' [] = tk_iso (lv_token E) expiry"
    by (simp add: assms(4,7) token_payload_def dict_get_def)
  show ?thesis
    using assms(1,6) v1 v2 sign expiry key
    by (simp add: approval_grant_def Let_def insert_approval_def del: py_strip_hex)
qed

lemma grant_advance:
  assumes resolve: "resolve_project E pid st = Inr (Some proj)" and edge: "transition_validate E (rp_id proj) target st"
    and inv: "mem.cached_invar (lf_vault st)"
    and key: "\<forall>h. map_of (c_inner (lf_vault st)) (approval_vault_path E) = Some h \<longrightarrow> py_fromhex (py_strip h) \<noteq> None"
    and expiry: "expiry = whole_second (lv_now E) + ttl * 3600 * second" "datetime_range expiry"
      "tk_when (lv_token E) (tk_iso (lv_token E) expiry) = Some expiry"
    and json: "tk_loads (lv_token E) (tk_dumps (lv_token E)
        (token_payload (lv_token E) (lv_now E) (str_nat (rp_id proj)) target approver ttl)) = Some (JDict d)"
      "map_of d = map_option JStr \<circ> map_of (token_payload (lv_token E) (lv_now E) (str_nat (rp_id proj)) target approver ttl)"
    and plain: "\<not> lv_approval_exec E" "no_blank target" "\<not> has_quote target" "\<not> has_quote actor"
      "\<not> has_quote (current_phase (rp_id proj) st)"
    and later: "later < expiry"
  shows "\<exists>g st1 r st2.
    approval_grant E (Some (cached_adapter memory_adapter)) hint rnd pid target approver notes ttl st = (Tool_ok g, st1) \<and>
    phase_advance (E\<lparr>lv_now := later\<rparr>) (Some (cached_adapter memory_adapter)) hint pid target actor rationale (Some (gr_token g))
      (st1\<lparr>lf_vault := cache_tick dt (lf_vault st1)\<rparr>) = (Tool_ok r, st2) \<and>
    current_phase (rp_id proj) st2 = target"
proof -
  let ?A = "Some (cached_adapter memory_adapter)" and ?E = "E\<lparr>lv_now := later\<rparr>"
  let ?payload = "token_payload (lv_token E) (lv_now E) (str_nat (rp_id proj)) target approver ttl"
  obtain g st1 k hex where g: "approval_grant E ?A hint rnd pid target approver notes ttl st = (Tool_ok g, st1)"
      "gr_token g = sign_payload (lv_token E) k ?payload" "mem.cached_invar (lf_vault st1)"
      "map_of (c_inner (lf_vault st1)) (approval_vault_path E) = Some hex" "py_fromhex (py_strip hex) = Some k"
      "lf_projects st1 = lf_projects st"
      "\<exists>a \<in> set (lf_approvals st1). ap_project a = rp_id proj \<and> ap_phase a = target \<and> ap_decision a = ''approved'' \<and> ap_expires_at a = Some expiry"
    using grant_succeeds [OF resolve inv key expiry refl] by blast
  let ?st1 = "st1\<lparr>lf_vault := cache_tick dt (lf_vault st1)\<rparr>"
  have tick: "mem.cached_invar (cache_tick dt (lf_vault st1))" "map_of (c_inner (cache_tick dt (lf_vault st1))) (approval_vault_path E) = Some hex"
    using cmem.tick_frame [OF g(3), of dt] g(4) by simp_all
  obtain v where v: "load_key ?A hint (approval_vault_path E) (cache_tick dt (lf_vault st1)) = (Inr k, v)"
    using cmem.load_key_stored [OF tick g(5), of hint] by blast
  have verify: "verify_token (lv_token E) ?A hint later (gr_token g) (approval_vault_path E) (Some (str_nat (rp_id proj))) (Some target)
      (cache_tick dt (lf_vault st1)) = (Inr \<lparr>tv_valid = True, tv_payload = JDict d, tv_errors = []\<rparr>, v)"
  proof -
    have "sign_token (lv_token E) ?A hint (lv_now E) (str_nat (rp_id proj)) target approver ttl (approval_vault_path E)
        (cache_tick dt (lf_vault st1)) = (Inr (gr_token g, ?payload), v)"
      using v expiry(1,2) g(2) by (simp add: sign_token_def eff_simps Let_def)
    from verify_issued [OF this v v json expiry(1,3), of later] later show ?thesis by simp
  qed
  have tok: "gate_token_ok ?E ?A hint (rp_id proj) target (Some (gr_token g)) (lf_vault ?st1) = (True, v) \<or>
      gate_token_ok ?E ?A hint (rp_id proj) target (Some (gr_token g)) (lf_vault ?st1) = (True, lf_vault ?st1)"
  proof -
    have "gr_token g \<noteq> []" by (simp add: g(2) sign_payload_def Let_def)
    then obtain c cs where c: "gr_token g = c # cs" by (cases "gr_token g") auto
    show ?thesis using verify unfolding c by (simp add: gate_token_ok_def)
  qed
  have "transition_execute ?E (rp_id proj) target actor r (?st1\<lparr>lf_vault := w\<rparr>) =
      (True, move_phase ?E (rp_id proj) target actor r ''advanced'' (?st1\<lparr>lf_vault := w\<rparr>))" for r w
  proof -
    have cur: "current_phase (rp_id proj) st1 = current_phase (rp_id proj) st"
      using g(6) by (rule current_phase_frame)
    have "newest_approval ?E (rp_id proj) target (?st1\<lparr>lf_vault := w\<rparr>) \<noteq> None"
      using g(7) later newest_approval_found [of _ "?st1\<lparr>lf_vault := w\<rparr>" "rp_id proj" target expiry ?E] by auto
    then have "transition_gate_check ?E (rp_id proj) target (?st1\<lparr>lf_vault := w\<rparr>)"
      using plain(1) by (auto simp: transition_gate_check_def read_token_nonempty)
    then show ?thesis using edge plain by (simp add: transition_execute_def transition_validate_def cur)
  qed
  moreover have "resolve_project ?E pid ?st1 = Inr (Some proj)" using resolve_frame [of ?st1 st later E] g(6) resolve by simp
  moreover have "current_phase (rp_id proj) (move_phase ?E (rp_id proj) target actor r oc (?st1\<lparr>lf_vault := w\<rparr>)) = target" for r oc w
  proof (rule current_phase_moved [OF _ plain(2)])
    show "current_phase (rp_id proj) (?st1\<lparr>lf_vault := w\<rparr>) \<noteq> []"
      using edge g(6) by (simp add: transition_validate_def current_phase_def Let_def)
  qed
  ultimately have "\<exists>r st2. phase_advance ?E ?A hint pid target actor rationale (Some (gr_token g)) ?st1 = (Tool_ok r, st2) \<and>
      current_phase (rp_id proj) st2 = target"
    using tok by (auto simp: phase_advance_def Let_def current_phase_frame [OF write_audit_frame(1)])
  with g(1) show ?thesis by blast
qed

text \<open>
  The approval path works from end to end where \<open>approval.py\<close> is not executable: for an
  active project and an allowed next phase, \<open>approval_grant\<close> through the cached vault returns a token,
  making the gate key if there is none, and \<open>phase_advance\<close> with that token, at any later moment before
  the expiry and however far the cache's clock has moved, succeeds and leaves the project in that phase.
\<close>

theorem grant_then_advance:
  assumes resolve: "resolve_project E pid st = Inr (Some proj)" and edge: "transition_validate E (rp_id proj) target st"
    and inv: "mem.cached_invar (lf_vault st)"
    and key: "\<forall>h. map_of (c_inner (lf_vault st)) (approval_vault_path E) = Some h \<longrightarrow> py_fromhex (py_strip h) \<noteq> None"
    and expiry: "expiry = whole_second (lv_now E) + ttl * 3600 * second" "datetime_range expiry"
      "tk_when (lv_token E) (tk_iso (lv_token E) expiry) = Some expiry"
    and json: "tk_loads (lv_token E) (tk_dumps (lv_token E)
        (token_payload (lv_token E) (lv_now E) (str_nat (rp_id proj)) target approver ttl)) = Some (JDict d)"
      "map_of d = map_option JStr \<circ> map_of (token_payload (lv_token E) (lv_now E) (str_nat (rp_id proj)) target approver ttl)"
    and plain: "\<not> lv_approval_exec E" "no_blank target" "\<not> has_quote target" "\<not> has_quote actor"
      "\<not> has_quote (current_phase (rp_id proj) st)"
    and later: "later < expiry"
  shows "\<exists>g st1 r st2.
    approval_grant E (Some (cached_adapter memory_adapter)) hint rnd pid target approver notes ttl st = (Tool_ok g, st1) \<and>
    phase_advance (E\<lparr>lv_now := later\<rparr>) (Some (cached_adapter memory_adapter)) hint pid target actor rationale (Some (gr_token g))
      (st1\<lparr>lf_vault := cache_tick dt (lf_vault st1)\<rparr>) = (Tool_ok r, st2) \<and>
    current_phase (rp_id proj) st2 = target"
  by (rule grant_advance [OF assms])

section \<open>Examples\<close>

definition demo_lifecycle_env :: "bool \<Rightarrow> 's lifecycle_env" where
  "demo_lifecycle_env exec = \<lparr>lv_token = demo_token_env, lv_codec = demo_audit_codec, lv_url = Some ''db'', lv_redact_env = None, lv_tip_answers = (\<lambda>_. True),
     lv_now = 0, lv_event_uuid = int, lv_project_uuid = (\<lambda>_. ''u''), lv_uuid_cast = (\<lambda>_. None), lv_has_work_item_type = True,
     lv_vault_path = None, lv_phase_lines = Some [''- id: plan'', ''  gate: user_approval''],
     lv_next = (\<lambda>p. if p = ''intake'' then [''plan''] else []), lv_gate = (\<lambda>p. if p = ''plan'' then ''user_approval'' else []),
     lv_approval_exec = exec, lv_ts_text = (\<lambda>_. ''t''), lv_stray_quote = (\<lambda>_ _ _ _ st. (False, st)),
     lv_psql_text = (\<lambda>rows tag. rows @ CHR 0x0A # tag)\<rparr>"

definition demo_project_input :: project_input where
  "demo_project_input = \<lparr>in_name = ''n'', in_type = ''bug'', in_owner = ''o'', in_version = ''v'', in_manifest_path = ''m''\<rparr>"

definition demo_lifecycle :: "mem_store cached lifecycle" where
  "demo_lifecycle = insert_project (new_project (demo_lifecycle_env False :: mem_store cached lifecycle_env) demo_project_input 1)
     \<lparr>lf_projects = [], lf_history = [], lf_transitions = [], lf_approvals = [], lf_audit = demo_audit_db, lf_vault = cached_init [] 60 0\<rparr>"

definition demo_resolved :: resolved where
  "demo_resolved = \<lparr>rp_id = 1, rp_uuid = ''u'', rp_name = ''n'', rp_phase = ''intake'', rp_version = ''v'', rp_owner = ''o''\<rparr>"

abbreviation "demo_vault_adapter \<equiv> Some (cached_adapter memory_adapter)"

lemma demo_resolve: "resolve_project (demo_lifecycle_env False) ''1'' demo_lifecycle = Inr (Some demo_resolved)"
  by code_simp

lemma demo_grant_hyps:
  "transition_validate (demo_lifecycle_env False) (rp_id demo_resolved) ''plan'' demo_lifecycle"
  "mem.cached_invar (lf_vault demo_lifecycle)"
  "\<forall>h. map_of (c_inner (lf_vault demo_lifecycle)) (approval_vault_path (demo_lifecycle_env False :: mem_store cached lifecycle_env)) = Some h \<longrightarrow>
     py_fromhex (py_strip h) \<noteq> None"
  "3600000000 = whole_second (lv_now (demo_lifecycle_env False :: mem_store cached lifecycle_env)) + 1 * 3600 * second"
  "datetime_range 3600000000"
  "tk_when (lv_token (demo_lifecycle_env False :: mem_store cached lifecycle_env))
     (tk_iso (lv_token (demo_lifecycle_env False :: mem_store cached lifecycle_env)) 3600000000) = Some 3600000000"
  by (code_simp, simp add: demo_lifecycle_def insert_project_def cached_init_invar,
      simp add: demo_lifecycle_def insert_project_def cached_init_def, code_simp, code_simp, code_simp)

lemma demo_grant_json:
  "tk_loads (lv_token (demo_lifecycle_env False :: mem_store cached lifecycle_env)) (tk_dumps (lv_token (demo_lifecycle_env False :: mem_store cached lifecycle_env))
     (token_payload (lv_token (demo_lifecycle_env False :: mem_store cached lifecycle_env)) (lv_now (demo_lifecycle_env False :: mem_store cached lifecycle_env))
        (str_nat (rp_id demo_resolved)) ''plan'' ''ann'' 1)) =
     Some (JDict [(''project_id'', JStr ''1''), (''phase'', JStr ''plan''), (''approver'', JStr ''ann''), (''issued_at'', JStr ''0''),
       (''expires_at'', JStr ''1h'')])"
  "map_of [(''project_id'', JStr ''1''), (''phase'', JStr ''plan''), (''approver'', JStr ''ann''), (''issued_at'', JStr ''0''),
       (''expires_at'', JStr ''1h'')] = map_option JStr \<circ> map_of (token_payload (lv_token (demo_lifecycle_env False :: mem_store cached lifecycle_env))
       (lv_now (demo_lifecycle_env False :: mem_store cached lifecycle_env)) (str_nat (rp_id demo_resolved)) ''plan'' ''ann'' 1)"
proof -
  have p: "token_payload (lv_token (demo_lifecycle_env False :: mem_store cached lifecycle_env)) (lv_now (demo_lifecycle_env False :: mem_store cached lifecycle_env))
      (str_nat (rp_id demo_resolved)) ''plan'' ''ann'' 1 = [(''project_id'', ''1''), (''phase'', ''plan''), (''approver'', ''ann''),
      (''issued_at'', ''0''), (''expires_at'', ''1h'')]" by code_simp
  show "tk_loads (lv_token (demo_lifecycle_env False :: mem_store cached lifecycle_env)) (tk_dumps (lv_token (demo_lifecycle_env False :: mem_store cached lifecycle_env))
     (token_payload (lv_token (demo_lifecycle_env False :: mem_store cached lifecycle_env)) (lv_now (demo_lifecycle_env False :: mem_store cached lifecycle_env))
        (str_nat (rp_id demo_resolved)) ''plan'' ''ann'' 1)) =
     Some (JDict [(''project_id'', JStr ''1''), (''phase'', JStr ''plan''), (''approver'', JStr ''ann''), (''issued_at'', JStr ''0''),
       (''expires_at'', JStr ''1h'')])" by (simp add: demo_lifecycle_env_def demo_token_env_def)
  show "map_of [(''project_id'', JStr ''1''), (''phase'', JStr ''plan''), (''approver'', JStr ''ann''), (''issued_at'', JStr ''0''),
       (''expires_at'', JStr ''1h'')] = map_option JStr \<circ> map_of (token_payload (lv_token (demo_lifecycle_env False :: mem_store cached lifecycle_env))
       (lv_now (demo_lifecycle_env False :: mem_store cached lifecycle_env)) (str_nat (rp_id demo_resolved)) ''plan'' ''ann'' 1)"
    unfolding p by (rule ext) simp
qed

lemma demo_plain:
  "\<not> lv_approval_exec (demo_lifecycle_env False)" "no_blank ''plan''" "\<not> has_quote ''plan''" "\<not> has_quote ''ann''"
  "\<not> has_quote (current_phase (rp_id demo_resolved) demo_lifecycle)"
  by code_simp+

theorem grant_then_advance_witness:
  "\<exists>g st1 r st2.
    approval_grant (demo_lifecycle_env False) demo_vault_adapter [] ''key'' ''1'' ''plan'' ''ann'' None 1 demo_lifecycle = (Tool_ok g, st1) \<and>
    phase_advance (demo_lifecycle_env False\<lparr>lv_now := 5\<rparr>) demo_vault_adapter [] ''1'' ''plan'' ''ann'' None (Some (gr_token g))
      (st1\<lparr>lf_vault := cache_tick 90 (lf_vault st1)\<rparr>) = (Tool_ok r, st2) \<and>
    current_phase (rp_id demo_resolved) st2 = ''plan''"
  by (rule grant_then_advance [OF demo_resolve demo_grant_hyps demo_grant_json demo_plain(1-3) demo_plain(4,5)]) simp

theorem gated_advance_needs_signed_token_witness:
  "\<exists>token r st st' key v. phase_advance (demo_lifecycle_env False\<lparr>lv_now := 5\<rparr>) demo_vault_adapter [] ''1'' ''plan'' ''ann'' None token st =
      (Tool_ok r, st') \<and> load_key demo_vault_adapter [] HMAC_KEY_VAULT_PATH (lf_vault st) = (Inr key, v)"
proof -
  have "\<exists>g st1 r st2.
    approval_grant (demo_lifecycle_env False) demo_vault_adapter [] ''key'' ''1'' ''plan'' ''ann'' None 1 demo_lifecycle = (Tool_ok g, st1) \<and>
    phase_advance (demo_lifecycle_env False\<lparr>lv_now := 5\<rparr>) demo_vault_adapter [] ''1'' ''plan'' ''ann'' None (Some (gr_token g))
      (st1\<lparr>lf_vault := cache_tick 90 (lf_vault st1)\<rparr>) = (Tool_ok r, st2) \<and>
    current_phase (rp_id demo_resolved) st2 = ''plan''"
    by (rule grant_advance [OF demo_resolve demo_grant_hyps demo_grant_json demo_plain(1-3) demo_plain(4,5)]) simp
  then obtain g :: grant_response and st1 r st2 where a:
    "phase_advance (demo_lifecycle_env False\<lparr>lv_now := 5\<rparr>) demo_vault_adapter [] ''1'' ''plan'' ''ann'' None (Some (gr_token g))
      (st1\<lparr>lf_vault := cache_tick 90 (lf_vault st1)\<rparr>) = (Tool_ok r, st2)"
    by blast
  have gate: "phase_requires_gate (lv_phase_lines (demo_lifecycle_env False\<lparr>lv_now := 5\<rparr>)) ''plan''" by code_simp
  have path: "approval_vault_path (demo_lifecycle_env False\<lparr>lv_now := 5\<rparr> :: mem_store cached lifecycle_env) = HMAC_KEY_VAULT_PATH"
    by (simp add: approval_vault_path_def demo_lifecycle_env_def)
  from gated_advance_needs_signed_token [OF a gate] a show ?thesis unfolding path by blast
qed

theorem project_create_once_witness:
  "\<exists>p st' code. project_create (demo_lifecycle_env False) (demo_project_input\<lparr>in_name := ''k''\<rparr>) demo_lifecycle = (Tool_ok p, st') \<and>
     project_create (demo_lifecycle_env True) (demo_project_input\<lparr>in_name := ''k'', in_type := ''infra''\<rparr>) st' = (Tool_error code, st')"
proof -
  have "\<exists>p st'. project_create (demo_lifecycle_env False) (demo_project_input\<lparr>in_name := ''k''\<rparr>) demo_lifecycle = (Tool_ok p, st')"
    by (simp add: project_create_def db_ready_def demo_lifecycle_env_def demo_project_input_def demo_lifecycle_def insert_project_def
        new_project_def Let_def)
  then obtain p st' where c: "project_create (demo_lifecycle_env False) (demo_project_input\<lparr>in_name := ''k''\<rparr>) demo_lifecycle = (Tool_ok p, st')"
    by blast
  from project_create_once [OF c, of "demo_project_input\<lparr>in_name := ''k'', in_type := ''infra''\<rparr>" "demo_lifecycle_env True"] c
  show ?thesis by (simp add: demo_project_input_def)
qed

theorem gated_phase_never_entered_witness:
  "\<forall>r. fst (phase_advance (demo_lifecycle_env True) demo_vault_adapter [] ''1'' ''plan'' ''ann'' None None demo_lifecycle) \<noteq> Tool_ok r"
proof -
  have "lv_approval_exec (demo_lifecycle_env True :: mem_store cached lifecycle_env)"
    "lv_gate (demo_lifecycle_env True :: mem_store cached lifecycle_env) ''plan'' \<noteq> []" by (simp_all add: demo_lifecycle_env_def)
  from gated_phase_never_entered [OF this prod.collapse [symmetric]] show ?thesis by blast
qed

theorem lifecycle_invariant_witness:
  "lifecycle_ok (lv_next (demo_lifecycle_env False :: mem_store lifecycle_env))
    (fold (\<lambda>(E, op). run_lifecycle_op (Some memory_adapter) [] E op)
       [(demo_lifecycle_env False, Op_create demo_project_input), (demo_lifecycle_env False\<lparr>lv_now := 5\<rparr>, Op_revoke ''1'')]
       \<lparr>lf_projects = [], lf_history = [], lf_transitions = [], lf_approvals = [], lf_audit = demo_audit_db, lf_vault = []\<rparr>)"
proof (rule lifecycle_invariant)
  show "plain_phases (lv_next (demo_lifecycle_env False :: mem_store lifecycle_env))"
    by (simp add: plain_phases_def demo_lifecycle_env_def no_blank_def has_quote_def ascii_space_def)
qed (simp_all add: op_clean_def)

end
