(* ===== verification/Learning.thy ===== *)
theory Learning
  imports Audit_Record
begin

text \<open>
  The learning loop of \<open>learning/\<close>: the resolver of visibility tiers (\<open>scope.py\<close>), the registry of
  cross-organisation consent (\<open>consent.py\<close>), the contribution gate (\<open>contribute.py\<close>), the vendor's
  own tier (\<open>vendor_self_improvement.py\<close>) and the tools of \<open>shared/mcp/tools/learning.py\<close>. The state
  holds the tables \<open>scope_policy\<close> and \<open>lesson\<close> of the schema \<open>spine_learning\<close> and the audit table. A
  JSON column is the dictionary it stores. \<open>ln_uuid\<close> is PostgreSQL's cast to a UUID, \<open>ln_pick\<close> the row
  that \<open>LIMIT 1\<close> without an order takes.
\<close>

section \<open>Scopes\<close>

datatype learning_scope = PROJECT | WITHIN_HUB | CROSS_ORG | DENIED

definition scope_value :: "learning_scope \<Rightarrow> string" where
  "scope_value s = (case s of PROJECT \<Rightarrow> ''project'' | WITHIN_HUB \<Rightarrow> ''within_hub'' | CROSS_ORG \<Rightarrow> ''cross_org'' | DENIED \<Rightarrow> ''denied'')"

definition scope_rank :: "learning_scope \<Rightarrow> nat" where
  "scope_rank s = (case s of DENIED \<Rightarrow> 0 | PROJECT \<Rightarrow> 1 | WITHIN_HUB \<Rightarrow> 2 | CROSS_ORG \<Rightarrow> 3)"

lemma scope_rank_inj: "scope_rank s = scope_rank t \<longleftrightarrow> s = t"
  by (cases s; cases t) (simp_all add: scope_rank_def)

instantiation learning_scope :: linorder
begin

definition less_eq_learning_scope :: "learning_scope \<Rightarrow> learning_scope \<Rightarrow> bool" where
  "less_eq_learning_scope s t = (scope_rank s \<le> scope_rank t)"

definition less_learning_scope :: "learning_scope \<Rightarrow> learning_scope \<Rightarrow> bool" where
  "less_learning_scope s t = (scope_rank s < scope_rank t)"

instance
  by standard (auto simp: less_eq_learning_scope_def less_learning_scope_def scope_rank_inj)

end

definition KNOWN_DATA_CATEGORIES :: "string list" where
  "KNOWN_DATA_CATEGORIES = [''calibration_outcomes'', ''role_success_rates'', ''pattern_frequencies'']"

record scope_policy =
  sp_hub_id :: "string option"
  sp_project_id :: "string option"
  sp_within_hub_enabled :: bool
  sp_cross_org_consent :: bool
  sp_granular_consent :: "(string, bool) dict"

definition default_policy :: "string option \<Rightarrow> string option \<Rightarrow> scope_policy" where
  "default_policy hub_id project_id = \<lparr>sp_hub_id = hub_id, sp_project_id = project_id, sp_within_hub_enabled = True,
     sp_cross_org_consent = False, sp_granular_consent = []\<rparr>"

definition cross_org_for :: "scope_policy \<Rightarrow> string option \<Rightarrow> bool" where
  "cross_org_for p data_category = (case data_category of
     None \<Rightarrow> sp_cross_org_consent p
   | Some c \<Rightarrow> (if c = [] then sp_cross_org_consent p else
       case map_of (sp_granular_consent p) c of Some b \<Rightarrow> b | None \<Rightarrow> sp_cross_org_consent p))"

record scope_context =
  sc_hub_id :: "string option"
  sc_project_id :: "string option"
  sc_requested_scope :: learning_scope
  sc_data_category :: "string option"
  sc_bundle_within_hub_enabled :: "bool option"
  sc_bundle_cross_org_default :: "bool option"

record resolved_scope =
  rs_granted_scope :: learning_scope
  rs_requested_scope :: learning_scope
  rs_reason :: string
  rs_policy_snapshot :: scope_policy

type_synonym policy_loader = "string option \<Rightarrow> string option \<Rightarrow> scope_policy option"

definition merge_bundle_overlay :: "scope_policy \<Rightarrow> scope_context \<Rightarrow> scope_policy" where
  "merge_bundle_overlay p ctx =
     (let hub_on = (case sc_bundle_within_hub_enabled ctx of Some b \<Rightarrow> b | None \<Rightarrow> sp_within_hub_enabled p);
          cross = (case sc_bundle_cross_org_default ctx of Some b \<Rightarrow> b | None \<Rightarrow> sp_cross_org_consent p) in
      if hub_on = sp_within_hub_enabled p \<and> cross = sp_cross_org_consent p then p
      else \<lparr>sp_hub_id = sp_hub_id p, sp_project_id = sp_project_id p, sp_within_hub_enabled = hub_on,
        sp_cross_org_consent = cross, sp_granular_consent = sp_granular_consent p\<rparr>)"

definition snapshot_for :: "scope_context \<Rightarrow> policy_loader option \<Rightarrow> scope_policy option \<Rightarrow> scope_policy" where
  "snapshot_for ctx loader explicit_policy =
     merge_bundle_overlay (case explicit_policy of
        Some p \<Rightarrow> p
      | None \<Rightarrow> (case loader of
          None \<Rightarrow> default_policy (sc_hub_id ctx) (sc_project_id ctx)
        | Some l \<Rightarrow> (case l (sc_hub_id ctx) (sc_project_id ctx) of
            None \<Rightarrow> default_policy (sc_hub_id ctx) (sc_project_id ctx) | Some p \<Rightarrow> p))) ctx"

definition resolve_scope :: "scope_context \<Rightarrow> policy_loader option \<Rightarrow> scope_policy option \<Rightarrow> resolved_scope" where
  "resolve_scope ctx loader explicit_policy =
     (let snapshot = snapshot_for ctx loader explicit_policy;
          requested = sc_requested_scope ctx;
          result = (\<lambda>granted reason. \<lparr>rs_granted_scope = granted, rs_requested_scope = requested, rs_reason = reason,
            rs_policy_snapshot = snapshot\<rparr>) in
      if requested = PROJECT then result PROJECT ''tier_1a_always_on''
      else if requested = WITHIN_HUB then
        (if sp_within_hub_enabled snapshot then result WITHIN_HUB ''tier_1b_default_on''
         else result PROJECT ''tier_1b_disabled_by_policy'')
      else if requested = CROSS_ORG then
        (if cross_org_for snapshot (sc_data_category ctx) then result CROSS_ORG ''tier_2_consent_granted''
         else if sp_within_hub_enabled snapshot then result WITHIN_HUB ''tier_2_no_consent_downshifted_to_within_hub''
         else result PROJECT ''tier_2_no_consent_downshifted_to_project'')
      else result DENIED ''explicit_deny'')"

section \<open>Contribution\<close>

record lesson_payload =
  pl_lesson_text :: string
  pl_source :: "string option"

record contribution_decision =
  cd_resolved :: resolved_scope
  cd_tiers_to_write :: "learning_scope list"
  cd_skipped_reasons :: "(string, string) dict"

record contribution_outcome =
  co_decision :: contribution_decision
  co_written :: "(string, string) dict"
  co_failed :: "(string, string) dict"

definition gate :: "scope_context \<Rightarrow> policy_loader option \<Rightarrow> scope_policy option \<Rightarrow> contribution_decision" where
  "gate ctx loader explicit_policy =
     (let resolved = resolve_scope ctx loader explicit_policy;
          policy = rs_policy_snapshot resolved;
          wants_hub = (sc_requested_scope ctx \<in> {WITHIN_HUB, CROSS_ORG});
          wants_org = (sc_requested_scope ctx = CROSS_ORG);
          hub = sp_within_hub_enabled policy;
          org = cross_org_for policy (sc_data_category ctx) in
      \<lparr>cd_resolved = resolved,
       cd_tiers_to_write = PROJECT # (if wants_hub \<and> hub then [WITHIN_HUB] else []) @ (if wants_org \<and> org then [CROSS_ORG] else []),
       cd_skipped_reasons =
         (if wants_hub \<and> \<not> hub then [(''within_hub'', ''within_hub_disabled_by_policy'')] else []) @
         (if wants_org \<and> \<not> org then [(''cross_org'', case sc_data_category ctx of
            None \<Rightarrow> ''cross_org_consent_missing'' | Some c \<Rightarrow> ''cross_org_consent_missing_for:'' @ c)] else [])\<rparr>)"

text \<open>A writer raises or returns the id of the row; the error is the name of the exception's type.\<close>

type_synonym 's lesson_writer = "lesson_payload \<Rightarrow> learning_scope \<Rightarrow> ('s, string, string) eff"

fun write_tiers :: "'s lesson_writer \<Rightarrow> lesson_payload \<Rightarrow> learning_scope list \<Rightarrow> (string, string) dict \<Rightarrow> (string, string) dict \<Rightarrow>
    's \<Rightarrow> ((string, string) dict \<times> (string, string) dict) \<times> 's" where
  "write_tiers w payload [] written failed s = ((written, failed), s)"
| "write_tiers w payload (tier # tiers) written failed s =
     (case w payload tier s of
        (Inr row_id, s') \<Rightarrow>
          (if row_id \<noteq> [] then write_tiers w payload tiers (AList.update (scope_value tier) row_id written) failed s'
           else write_tiers w payload tiers written (AList.update (scope_value tier) ''no_row_id_returned'' failed) s')
      | (Inl e, s') \<Rightarrow> write_tiers w payload tiers written (AList.update (scope_value tier) e failed) s')"

definition contribute_lesson :: "'s lesson_writer \<Rightarrow> lesson_payload \<Rightarrow> scope_context \<Rightarrow> policy_loader option \<Rightarrow>
    scope_policy option \<Rightarrow> 's \<Rightarrow> contribution_outcome \<times> 's" where
  "contribute_lesson w payload ctx loader explicit_policy s =
     (let decision = gate ctx loader explicit_policy in
      case write_tiers w payload (cd_tiers_to_write decision) [] [] s of
        ((written, failed), s') \<Rightarrow> (\<lparr>co_decision = decision, co_written = written, co_failed = failed\<rparr>, s'))"

section \<open>The tables\<close>

record lesson =
  ls_id :: string
  ls_scope :: learning_scope
  ls_source :: "string option"
  ls_lesson_text :: string

record learning_db =
  ld_policies :: "scope_policy list"
  ld_lessons :: "lesson list"
  ld_audit :: audit_db

record learning_env =
  ln_db_up :: bool
  ln_uuid :: "string \<Rightarrow> string option"
  ln_pick :: "scope_policy list \<Rightarrow> nat"
  ln_row_id :: "nat \<Rightarrow> string"
  ln_codec :: audit_codec
  ln_url :: "string option"
  ln_redact_env :: "string option"
  ln_now :: time
  ln_event_uuid :: "nat \<Rightarrow> uuid"
  ln_deployment_kind :: "string option"

definition cast_id :: "learning_env \<Rightarrow> string option \<Rightarrow> string option option" where
  "cast_id E i = (case i of None \<Rightarrow> Some None | Some s \<Rightarrow> map_option Some (ln_uuid E s))"

definition psql_lesson_writer :: "learning_env \<Rightarrow> learning_db lesson_writer" where
  "psql_lesson_writer E payload tier db =
     (case (ln_db_up E, cast_id E (pl_source payload)) of
        (True, Some source) \<Rightarrow>
          let row = \<lparr>ls_id = ln_row_id E (length (ld_lessons db)), ls_scope = tier, ls_source = source,
                     ls_lesson_text = pl_lesson_text payload\<rparr> in
          (Inr (ls_id row), db\<lparr>ld_lessons := ld_lessons db @ [row]\<rparr>)
      | _ \<Rightarrow> (Inl ''RuntimeError'', db))"

section \<open>Consent\<close>

datatype learning_error = Value_error | Runtime_error

record consent_record =
  cr_hub_id :: "string option"
  cr_project_id :: "string option"
  cr_cross_org_consent :: bool
  cr_granular :: "(string, bool) dict"
  cr_granted_by :: string
  cr_rationale :: string

definition given :: "string option \<Rightarrow> bool" where
  "given i = (i \<noteq> None \<and> i \<noteq> Some [])"

definition consent_valid :: "consent_record \<Rightarrow> bool" where
  "consent_valid r = (given (cr_hub_id r) \<or> given (cr_project_id r))"

record consent_decision =
  cn_hub_id :: "string option"
  cn_project_id :: "string option"
  cn_operation :: string
  cn_effective_policy :: scope_policy
  cn_actor :: string
  cn_decided_at :: time

definition merge_granular :: "(string, bool) dict \<Rightarrow> (string, bool) dict \<Rightarrow> (string, bool) dict" where
  "merge_granular existing incoming = fold (\<lambda>(k, v) d. AList.update k v d) incoming existing"

definition limit_one :: "learning_env \<Rightarrow> scope_policy list \<Rightarrow> scope_policy option" where
  "limit_one E rows = (if rows = [] then None else Some (rows ! (ln_pick E rows mod length rows)))"

text \<open>
  The upsert: the constraint \<open>UNIQUE (hub_id, project_id)\<close> has no conflict when a column is \<open>NULL\<close>.
\<close>

definition same_scope :: "string option \<Rightarrow> string option \<Rightarrow> scope_policy \<Rightarrow> bool" where
  "same_scope h p row = (sp_hub_id row = h \<and> sp_project_id row = p)"

definition upsert_policy :: "string option \<Rightarrow> string option \<Rightarrow> bool \<Rightarrow> (string, bool) dict \<Rightarrow> scope_policy list \<Rightarrow> scope_policy list" where
  "upsert_policy h p cross granular rows =
     (if h \<noteq> None \<and> p \<noteq> None \<and> list_ex (same_scope h p) rows
      then map (\<lambda>row. if same_scope h p row then row\<lparr>sp_cross_org_consent := cross, sp_granular_consent := granular\<rparr> else row) rows
      else rows @ [\<lparr>sp_hub_id = h, sp_project_id = p, sp_within_hub_enabled = True, sp_cross_org_consent = cross,
        sp_granular_consent = granular\<rparr>])"

definition psql_consent_writer :: "learning_env \<Rightarrow> consent_record \<Rightarrow> (learning_db, learning_error, scope_policy) eff" where
  "psql_consent_writer E r db =
     (case (ln_db_up E, cast_id E (cr_hub_id r), cast_id E (cr_project_id r)) of
        (True, Some h, Some p) \<Rightarrow>
          let existing_g = (case limit_one E (filter (same_scope h p) (ld_policies db)) of
                None \<Rightarrow> [] | Some row \<Rightarrow> sp_granular_consent row);
              merged = merge_granular existing_g (cr_granular r) in
          (Inr \<lparr>sp_hub_id = cr_hub_id r, sp_project_id = cr_project_id r, sp_within_hub_enabled = True,
             sp_cross_org_consent = cr_cross_org_consent r, sp_granular_consent = merged\<rparr>,
           db\<lparr>ld_policies := upsert_policy h p (cr_cross_org_consent r) merged (ld_policies db)\<rparr>)
      | _ \<Rightarrow> (Inl Runtime_error, db))"

definition opt_json :: "string option \<Rightarrow> json" where
  "opt_json i = (case i of None \<Rightarrow> JNull | Some s \<Rightarrow> JStr s)"

definition emit_learning_audit :: "learning_env \<Rightarrow> string \<Rightarrow> string \<Rightarrow> string \<Rightarrow> string \<Rightarrow> string \<Rightarrow> (string \<times> json) list \<Rightarrow>
    learning_db \<Rightarrow> learning_db" where
  "emit_learning_audit E role action actor subject_type subject_id metadata db =
     (let a = ld_audit db;
          rec = (blank_record (ln_event_uuid E (length (ad_rows a))) (ln_now E) None role ''learning'' action actor)
            \<lparr>ar_subject_type := Some subject_type, ar_subject_id := Some subject_id, ar_metadata := metadata\<rparr> in
      db\<lparr>ld_audit := run_state (unlinked_write (ln_codec E) (ln_url E) (ln_redact_env E) rec) a\<rparr>)"

definition emit_consent_audit :: "learning_env \<Rightarrow> string \<Rightarrow> consent_record \<Rightarrow> scope_policy \<Rightarrow> string \<Rightarrow> learning_db \<Rightarrow> learning_db" where
  "emit_consent_audit E action r effective actor db =
     emit_learning_audit E actor action actor ''scope_policy''
       (if given (cr_hub_id r) then the (cr_hub_id r) else if given (cr_project_id r) then the (cr_project_id r) else ''global'')
       [(''hub_id'', opt_json (cr_hub_id r)), (''project_id'', opt_json (cr_project_id r)),
        (''cross_org_consent'', JBool (sp_cross_org_consent effective)),
        (''granular'', JDict (map (\<lambda>(k, b). (k, JBool b)) (sp_granular_consent effective))),
        (''rationale'', JStr (cr_rationale r))] db"

definition record_consent :: "learning_env \<Rightarrow> string \<Rightarrow> consent_record \<Rightarrow> (learning_db, learning_error, consent_decision) eff" where
  "record_consent E operation r =
     ebind (eguard (consent_valid r) Value_error) (\<lambda>_.
     ebind (psql_consent_writer E r) (\<lambda>effective.
     ebind (ewrite (emit_consent_audit E (''learning_consent_'' @ operation) r effective (cr_granted_by r))) (\<lambda>_.
     ereturn \<lparr>cn_hub_id = cr_hub_id r, cn_project_id = cr_project_id r, cn_operation = operation,
       cn_effective_policy = effective, cn_actor = cr_granted_by r, cn_decided_at = ln_now E\<rparr>)))"

definition grant_cross_org_consent :: "learning_env \<Rightarrow> consent_record \<Rightarrow> (learning_db, learning_error, consent_decision) eff" where
  "grant_cross_org_consent E r = record_consent E ''grant'' r"

definition revoke_cross_org_consent :: "learning_env \<Rightarrow> string option \<Rightarrow> string option \<Rightarrow> string option \<Rightarrow> string \<Rightarrow> string \<Rightarrow>
    (learning_db, learning_error, consent_decision) eff" where
  "revoke_cross_org_consent E hub_id project_id category actor rationale =
     (let rec = (\<lambda>cross granular. \<lparr>cr_hub_id = hub_id, cr_project_id = project_id, cr_cross_org_consent = cross,
            cr_granular = granular, cr_granted_by = actor, cr_rationale = rationale\<rparr>) in
      case category of
        None \<Rightarrow> record_consent E ''revoke'' (rec False (map (\<lambda>cat. (cat, False)) KNOWN_DATA_CATEGORIES))
      | Some c \<Rightarrow> record_consent E ''revoke_category'' (rec True [(c, False)]))"

definition list_cross_org_consents :: "learning_env \<Rightarrow> string option \<Rightarrow> (learning_db, learning_error, scope_policy list) eff" where
  "list_cross_org_consents E hub_id db =
     (case (ln_db_up E, cast_id E hub_id) of
        (True, Some h) \<Rightarrow> (Inr (if hub_id = None then ld_policies db else filter (\<lambda>r. sp_hub_id r = h) (ld_policies db)), db)
      | _ \<Rightarrow> (Inl Runtime_error, db))"


section \<open>The vendor's tier and the tools\<close>

record vendor_event =
  ve_source_audit_record_id :: string
  ve_lesson_text :: string
  ve_event_key :: string
  ve_role :: string
  ve_hub_id :: "string option"
  ve_project_id :: "string option"

record vendor_result =
  vr_accepted :: bool
  vr_outcome :: "contribution_outcome option"
  vr_reason :: string
  vr_recorded_at :: time
  vr_upstream_dispatched :: bool

definition is_vendor_deployment :: "learning_env \<Rightarrow> bool option \<Rightarrow> bool \<Rightarrow> bool" where
  "is_vendor_deployment E bundle_flag force_vendor =
     (force_vendor \<or> (case bundle_flag of Some b \<Rightarrow> b
      | None \<Rightarrow> py_lower (py_strip (case ln_deployment_kind E of None \<Rightarrow> [] | Some v \<Rightarrow> v)) = ''vendor''))"

text \<open>The publisher gives \<open>None\<close> when it raises.\<close>

definition vendor_self_improvement_record :: "learning_env \<Rightarrow> vendor_event \<Rightarrow> bool \<Rightarrow> bool option \<Rightarrow> learning_db lesson_writer \<Rightarrow>
    (vendor_event \<Rightarrow> contribution_outcome \<Rightarrow> bool option) option \<Rightarrow> learning_db \<Rightarrow> vendor_result \<times> learning_db" where
  "vendor_self_improvement_record E ev force_vendor bundle_flag w publisher db =
     (if \<not> is_vendor_deployment E bundle_flag force_vendor
      then (\<lparr>vr_accepted = False, vr_outcome = None, vr_reason = ''not_vendor_deployment'', vr_recorded_at = ln_now E,
             vr_upstream_dispatched = False\<rparr>, db)
      else
        let vendor_policy = \<lparr>sp_hub_id = ve_hub_id ev, sp_project_id = ve_project_id ev, sp_within_hub_enabled = True,
              sp_cross_org_consent = True, sp_granular_consent = []\<rparr>;
            ctx = \<lparr>sc_hub_id = ve_hub_id ev, sc_project_id = ve_project_id ev, sc_requested_scope = CROSS_ORG,
              sc_data_category = Some ''vendor_self_improvement'', sc_bundle_within_hub_enabled = None,
              sc_bundle_cross_org_default = Some True\<rparr>;
            payload = \<lparr>pl_lesson_text = ve_lesson_text ev, pl_source = Some (ve_source_audit_record_id ev)\<rparr> in
        (case contribute_lesson w payload ctx None (Some vendor_policy) db of
           (outcome, db') \<Rightarrow>
             (\<lparr>vr_accepted = True, vr_outcome = Some outcome, vr_reason = ''vendor_self_improvement_recorded'',
               vr_recorded_at = ln_now E,
               vr_upstream_dispatched = (case publisher of None \<Rightarrow> False | Some f \<Rightarrow> f ev outcome = Some True)\<rparr>,
              emit_learning_audit E ''vendor_self_improvement'' ''vendor_self_improvement'' ''vendor'' ''lesson''
                (ve_source_audit_record_id ev)
                [(''source_audit_record_id'', JStr (ve_source_audit_record_id ev)), (''event_key'', JStr (ve_event_key ev)),
                 (''lesson_role'', JStr (ve_role ev))] db')))"

text \<open>The tools give the code of the error or the data of the response.\<close>

definition scope_from_str :: "string \<Rightarrow> learning_scope option" where
  "scope_from_str s = find (\<lambda>v. scope_value v = s) [PROJECT, WITHIN_HUB, CROSS_ORG, DENIED]"

record contribute_input =
  ci_project_id :: string
  ci_lesson_text :: string
  ci_source_audit_record_id :: "string option"
  ci_requested_scope :: string
  ci_data_category :: "string option"
  ci_hub_id :: "string option"
  ci_within_hub_enabled :: "bool option"
  ci_cross_org_default :: "bool option"

definition contribute_context :: "contribute_input \<Rightarrow> learning_scope \<Rightarrow> scope_context" where
  "contribute_context inp scope = \<lparr>sc_hub_id = ci_hub_id inp, sc_project_id = Some (ci_project_id inp), sc_requested_scope = scope,
     sc_data_category = ci_data_category inp, sc_bundle_within_hub_enabled = ci_within_hub_enabled inp,
     sc_bundle_cross_org_default = ci_cross_org_default inp\<rparr>"

definition learning_contribute :: "learning_env \<Rightarrow> contribute_input \<Rightarrow> (learning_db, string, contribution_outcome) eff" where
  "learning_contribute E inp db =
     (case scope_from_str (ci_requested_scope inp) of
        None \<Rightarrow> (Inl ''invalid_scope'', db)
      | Some scope \<Rightarrow>
          (case contribute_lesson (psql_lesson_writer E)
              \<lparr>pl_lesson_text = ci_lesson_text inp, pl_source = ci_source_audit_record_id inp\<rparr>
              (contribute_context inp scope) None None db of
             (outcome, db') \<Rightarrow> (Inr outcome, db')))"

definition learning_query :: "string option \<Rightarrow> (string, lesson list) res" where
  "learning_query scope = (case scope of
     Some s \<Rightarrow> (if scope_from_str s = None then Inl ''invalid_scope'' else Inr []) | None \<Rightarrow> Inr [])"

definition tool_result :: "string \<Rightarrow> (learning_db, learning_error, consent_decision) eff \<Rightarrow> (learning_db, string, consent_decision) eff" where
  "tool_result code m db = (case m db of (Inl _, db') \<Rightarrow> (Inl code, db') | (Inr d, db') \<Rightarrow> (Inr d, db'))"

definition learning_grant_cross_org_consent :: "learning_env \<Rightarrow> consent_record \<Rightarrow> (learning_db, string, consent_decision) eff" where
  "learning_grant_cross_org_consent E r = tool_result ''consent_write_failed'' (grant_cross_org_consent E r)"

definition learning_revoke_cross_org_consent :: "learning_env \<Rightarrow> string option \<Rightarrow> string option \<Rightarrow> string option \<Rightarrow> string \<Rightarrow> string \<Rightarrow>
    (learning_db, string, consent_decision) eff" where
  "learning_revoke_cross_org_consent E hub_id project_id category actor rationale =
     tool_result ''consent_revoke_failed'' (revoke_cross_org_consent E hub_id project_id category actor rationale)"

section \<open>The resolver is the best permitted tier\<close>

definition permitted :: "scope_policy \<Rightarrow> string option \<Rightarrow> learning_scope \<Rightarrow> bool" where
  "permitted p category s = (case s of DENIED \<Rightarrow> True | PROJECT \<Rightarrow> True | WITHIN_HUB \<Rightarrow> sp_within_hub_enabled p
     | CROSS_ORG \<Rightarrow> cross_org_for p category)"

lemma le_scope_code [simp]: "s \<le> t \<longleftrightarrow> scope_rank s \<le> scope_rank t" for s t :: learning_scope
  by (simp add: less_eq_learning_scope_def)

lemma finite_scopes [simp]: "finite (S :: learning_scope set)"
proof (rule finite_subset)
  show "S \<subseteq> {PROJECT, WITHIN_HUB, CROSS_ORG, DENIED}" using learning_scope.exhaust by auto
qed simp

lemma Max_scope_eqI:
  assumes "P s" and "\<And>t. P t \<Longrightarrow> scope_rank t \<le> scope_rank s"
  shows "Max {t :: learning_scope. P t} = s"
  by (rule Max_eqI) (use assms in auto)

text \<open>
  The granted scope is the best one allowed: for every request, whatever the policy and the
  bundle overlay say, \<open>resolve_scope\<close> grants the highest tier that the policy in force permits and that
  does not exceed the tier requested. In particular it never grants more than was requested.
\<close>

theorem resolve_scope_best_tier:
  "rs_granted_scope (resolve_scope ctx loader explicit_policy) =
     Max {s. s \<le> sc_requested_scope ctx \<and> permitted (snapshot_for ctx loader explicit_policy) (sc_data_category ctx) s}"
proof (rule Max_scope_eqI [symmetric], goal_cases)
  case 1
  then show ?case by (cases "sc_requested_scope ctx") (simp_all add: resolve_scope_def Let_def permitted_def scope_rank_def)
next
  case (2 t)
  then show ?case
    by (cases "sc_requested_scope ctx"; cases t)
      (simp_all add: resolve_scope_def Let_def permitted_def scope_rank_def split: if_splits)
qed

lemma snapshot_of_gate: "rs_policy_snapshot (resolve_scope ctx loader ep) = snapshot_for ctx loader ep"
  by (simp add: resolve_scope_def Let_def)


section \<open>Contributions\<close>

text \<open>
  What the loop over the tiers needs of a writer: a row for the tier is appended when it returns and
  nothing is stored when it raises.
\<close>

locale lesson_store =
  fixes w :: "'s lesson_writer"
    and rows :: "'s \<Rightarrow> lesson list"
    and frame :: "'s \<Rightarrow> 'f"
  assumes stores: "w payload tier s = (Inr i, s') \<Longrightarrow> \<exists>row. rows s' = rows s @ [row] \<and> ls_id row = i \<and>
      ls_scope row = tier \<and> ls_lesson_text row = pl_lesson_text payload"
    and refuses: "w payload tier s = (Inl e, s') \<Longrightarrow> rows s' = rows s"
    and keeps_frame: "frame (snd (w payload tier s)) = frame s"
begin

lemma write_tiers_frame: "frame (snd (write_tiers w payload tiers written failed s)) = frame s"
proof (induction tiers arbitrary: written failed s)
  case (Cons t ts)
  then show ?case using keeps_frame [of payload t s] by (auto split: prod.splits sum.splits)
qed simp

lemma write_tiers_rows:
  "\<exists>new. rows (snd (write_tiers w payload tiers written failed s)) = rows s @ new \<and> subseq (map ls_scope new) tiers \<and>
     (\<forall>r \<in> set new. ls_lesson_text r = pl_lesson_text payload)"
proof (induction tiers arbitrary: written failed s)
  case (Cons t ts)
  obtain r s' where ws: "w payload t s = (r, s')" by fastforce
  obtain first where first: "rows s' = rows s @ first" "subseq (map ls_scope first) [t]"
    "\<forall>r \<in> set first. ls_lesson_text r = pl_lesson_text payload"
  proof (cases r)
    case (Inl e)
    with refuses [of payload t s e s'] ws that [of "[]"] show ?thesis by simp
  next
    case (Inr i)
    with stores [of payload t s i s'] ws obtain row where "rows s' = rows s @ [row]" "ls_scope row = t"
      "ls_lesson_text row = pl_lesson_text payload" by auto
    with that [of "[row]"] show ?thesis by simp
  qed
  obtain wr fl where step: "write_tiers w payload (t # ts) written failed s = write_tiers w payload ts wr fl s'"
  proof (cases r)
    case (Inl e)
    with ws that show ?thesis by simp
  next
    case (Inr i)
    with ws that show ?thesis by (cases "i = []") simp_all
  qed
  from Cons.IH [of wr fl s'] obtain new where "rows (snd (write_tiers w payload ts wr fl s')) = rows s' @ new"
    "subseq (map ls_scope new) ts" "\<forall>r \<in> set new. ls_lesson_text r = pl_lesson_text payload" by blast
  with first step list_emb_append_mono [of "(=)" "map ls_scope first" "[t]" "map ls_scope new" ts]
  show ?case by (intro exI [of _ "first @ new"]) auto
qed simp

lemma contribute_rows:
  assumes "contribute_lesson w payload ctx loader ep s = (out, s')"
  shows "\<exists>new. rows s' = rows s @ new \<and> subseq (map ls_scope new) (cd_tiers_to_write (gate ctx loader ep)) \<and>
    (\<forall>r \<in> set new. ls_lesson_text r = pl_lesson_text payload) \<and> frame s' = frame s"
proof -
  have "s' = snd (write_tiers w payload (cd_tiers_to_write (gate ctx loader ep)) [] [] s)"
    using assms by (auto simp: contribute_lesson_def Let_def split: prod.splits)
  with write_tiers_rows write_tiers_frame show ?thesis by metis
qed

end

interpretation psql_lessons: lesson_store "psql_lesson_writer E" ld_lessons "\<lambda>db. (ld_policies db, ld_audit db)"
  by unfold_locales (auto simp: psql_lesson_writer_def Let_def split: bool.splits option.splits)

lemma gate_tiers:
  "cd_tiers_to_write (gate ctx loader ep) = PROJECT # filter (\<lambda>s. s \<le> sc_requested_scope ctx \<and>
     permitted (snapshot_for ctx loader ep) (sc_data_category ctx) s) [WITHIN_HUB, CROSS_ORG]"
  by (cases "sc_requested_scope ctx") (simp_all add: gate_def Let_def snapshot_of_gate permitted_def scope_rank_def)

lemma scope_value_inj [simp]: "scope_value s = scope_value t \<longleftrightarrow> s = t"
  by (cases s; cases t) (simp_all add: scope_value_def)

lemma update_fresh: "k \<notin> fst ` set d \<Longrightarrow> AList.update k v d = d @ [(k, v)]"
  by (induction d) auto

lemma psql_write_tiers:
  assumes "ln_db_up E" and "cast_id E (pl_source payload) = Some src" and "\<forall>n. ln_row_id E n \<noteq> []"
    and "distinct tiers" and "\<forall>t \<in> set tiers. scope_value t \<notin> fst ` set written"
  shows "\<exists>new out. write_tiers (psql_lesson_writer E) payload tiers written failed db =
      ((written @ out, failed), db\<lparr>ld_lessons := ld_lessons db @ new\<rparr>) \<and> map ls_scope new = tiers \<and>
      map fst out = map scope_value tiers \<and> map snd out = map ls_id new \<and>
      (\<forall>r \<in> set new. ls_lesson_text r = pl_lesson_text payload \<and> ls_source r = src)"
  using assms(4,5)
proof (induction tiers arbitrary: written db)
  case (Cons t ts)
  let ?row = "\<lparr>ls_id = ln_row_id E (length (ld_lessons db)), ls_scope = t, ls_source = src, ls_lesson_text = pl_lesson_text payload\<rparr>"
  let ?db = "db\<lparr>ld_lessons := ld_lessons db @ [?row]\<rparr>"
  have w: "psql_lesson_writer E payload t db = (Inr (ls_id ?row), ?db)"
    using assms(1,2) by (simp add: psql_lesson_writer_def Let_def)
  have u: "AList.update (scope_value t) (ls_id ?row) written = written @ [(scope_value t, ls_id ?row)]"
    using Cons.prems by (simp add: update_fresh)
  have "\<forall>u \<in> set ts. scope_value u \<notin> fst ` set (written @ [(scope_value t, ls_id ?row)])"
    using Cons.prems by auto
  from Cons.IH [OF _ this, of ?db] Cons.prems obtain new out where
    IH: "write_tiers (psql_lesson_writer E) payload ts (written @ [(scope_value t, ls_id ?row)]) failed ?db =
      ((written @ [(scope_value t, ls_id ?row)] @ out, failed), db\<lparr>ld_lessons := ld_lessons db @ ?row # new\<rparr>)"
    "map ls_scope new = ts" "map fst out = map scope_value ts" "map snd out = map ls_id new"
    "\<forall>r \<in> set new. ls_lesson_text r = pl_lesson_text payload \<and> ls_source r = src" by auto
  have "write_tiers (psql_lesson_writer E) payload (t # ts) written failed db =
      ((written @ (scope_value t, ls_id ?row) # out, failed), db\<lparr>ld_lessons := ld_lessons db @ ?row # new\<rparr>)"
    using w u IH(1) assms(3) by simp
  with IH(2-) show ?case
    by (intro exI [of _ "?row # new"] exI [of _ "(scope_value t, ls_id ?row) # out"]) simp
qed auto

lemma contribute_exact:
  assumes "contribute_lesson (psql_lesson_writer E) payload ctx loader ep db = (out, db')"
    and "ln_db_up E" and "cast_id E (pl_source payload) = Some src" and "\<forall>n. ln_row_id E n \<noteq> []"
  shows "\<exists>new. db' = db\<lparr>ld_lessons := ld_lessons db @ new\<rparr> \<and>
    map ls_scope new = PROJECT # filter (\<lambda>s. s \<le> sc_requested_scope ctx \<and>
      permitted (snapshot_for ctx loader ep) (sc_data_category ctx) s) [WITHIN_HUB, CROSS_ORG] \<and>
    (\<forall>r \<in> set new. ls_lesson_text r = pl_lesson_text payload \<and> ls_source r = src) \<and>
    co_written out = map (\<lambda>r. (scope_value (ls_scope r), ls_id r)) new \<and> co_failed out = []"
proof -
  let ?tiers = "cd_tiers_to_write (gate ctx loader ep)"
  have "distinct ?tiers" by (simp add: gate_tiers)
  from psql_write_tiers [OF assms(2-4) this, of "[]" "[]" db] obtain new d where
    w: "write_tiers (psql_lesson_writer E) payload ?tiers [] [] db = ((d, []), db\<lparr>ld_lessons := ld_lessons db @ new\<rparr>)"
    and sc: "map ls_scope new = ?tiers" and d: "map fst d = map scope_value ?tiers" "map snd d = map ls_id new"
    and t: "\<forall>r \<in> set new. ls_lesson_text r = pl_lesson_text payload \<and> ls_source r = src" by auto
  have "d = zip (map fst d) (map snd d)" by (simp add: zip_map_fst_snd)
  also have "\<dots> = map (\<lambda>r. (scope_value (ls_scope r), ls_id r)) new"
    unfolding d sc [symmetric] by (simp add: zip_map1 zip_map2 zip_same_conv_map)
  finally have "d = \<dots>" .
  then show ?thesis using assms(1) w sc t
    by (intro exI [of _ new]) (auto simp: contribute_lesson_def Let_def gate_tiers)
qed



lemma write_tiers_policies:
  "write_tiers (psql_lesson_writer E) payload tiers wr fl (d\<lparr>ld_policies := policies\<rparr>) =
     map_prod id (\<lambda>x. x\<lparr>ld_policies := policies\<rparr>) (write_tiers (psql_lesson_writer E) payload tiers wr fl d)"
proof (induction tiers arbitrary: wr fl d)
  case (Cons t ts)
  show ?case
  proof (cases "psql_lesson_writer E payload t d")
    case (Pair r d')
    have "psql_lesson_writer E payload t (d\<lparr>ld_policies := policies\<rparr>) = (r, d'\<lparr>ld_policies := policies\<rparr>)"
      using Pair by (auto simp: psql_lesson_writer_def Let_def split: bool.splits option.splits)
    then show ?thesis using Pair Cons.IH by (cases r) simp_all
  qed
qed simp

lemma tool_snapshot:
  "cross_org_for (snapshot_for (contribute_context inp scope) None None) cat = (ci_cross_org_default inp = Some True)"
  by (auto simp: snapshot_for_def contribute_context_def default_policy_def merge_bundle_overlay_def Let_def
      cross_org_for_def split: option.splits)

text \<open>
  The tool does not ask for recorded consent: a call of \<open>learning_contribute\<close> that names a
  scope writes a cross-organisation row if and only if the caller asks for that scope and itself passes
  \<open>cross_org_default\<close> as true, whatever the consent registry holds; and the registry has no influence on
  the result.
\<close>

theorem learning_tool_ignores_consent:
  assumes "learning_contribute E inp db = (Inr out, db')" and "ln_db_up E" and "\<forall>n. ln_row_id E n \<noteq> []"
    and "cast_id E (ci_source_audit_record_id inp) = Some src"
  shows "\<exists>new. ld_lessons db' = ld_lessons db @ new \<and>
    (CROSS_ORG \<in> ls_scope ` set new \<longleftrightarrow> ci_requested_scope inp = ''cross_org'' \<and> ci_cross_org_default inp = Some True) \<and>
    learning_contribute E inp (db\<lparr>ld_policies := policies\<rparr>) = (Inr out, db'\<lparr>ld_policies := policies\<rparr>)"
proof -
  let ?lp = "\<lparr>pl_lesson_text = ci_lesson_text inp, pl_source = ci_source_audit_record_id inp\<rparr>"
  from assms(1) obtain scope where sc: "scope_from_str (ci_requested_scope inp) = Some scope"
    and c: "contribute_lesson (psql_lesson_writer E) ?lp (contribute_context inp scope) None None db = (out, db')"
    by (auto simp: learning_contribute_def split: option.splits prod.splits)
  have named: "scope = CROSS_ORG \<longleftrightarrow> ci_requested_scope inp = ''cross_org''"
    using sc by (auto simp: scope_from_str_def scope_value_def split: if_splits)
  from contribute_exact [OF c assms(2) _ assms(3), of src] assms(4) obtain new where
    new: "db' = db\<lparr>ld_lessons := ld_lessons db @ new\<rparr>" and tiers: "map ls_scope new = PROJECT # filter (\<lambda>s.
      s \<le> sc_requested_scope (contribute_context inp scope) \<and> permitted (snapshot_for (contribute_context inp scope) None None)
      (sc_data_category (contribute_context inp scope)) s) [WITHIN_HUB, CROSS_ORG]" by auto
  have "CROSS_ORG \<in> ls_scope ` set new \<longleftrightarrow> CROSS_ORG \<in> set (map ls_scope new)" by simp
  also have "\<dots> \<longleftrightarrow> scope = CROSS_ORG \<and> ci_cross_org_default inp = Some True"
    unfolding tiers by (cases scope) (auto simp: contribute_context_def permitted_def tool_snapshot [unfolded contribute_context_def] scope_rank_def)
  finally have iff: "CROSS_ORG \<in> ls_scope ` set new \<longleftrightarrow> scope = CROSS_ORG \<and> ci_cross_org_default inp = Some True" .
  have "contribute_lesson (psql_lesson_writer E) ?lp (contribute_context inp scope) None None (db\<lparr>ld_policies := policies\<rparr>) =
      (out, db'\<lparr>ld_policies := policies\<rparr>)"
    using c by (auto simp: contribute_lesson_def Let_def write_tiers_policies split: prod.splits)
  then have "learning_contribute E inp (db\<lparr>ld_policies := policies\<rparr>) = (Inr out, db'\<lparr>ld_policies := policies\<rparr>)"
    using sc by (simp add: learning_contribute_def)
  with new iff named show ?thesis by (intro exI [of _ new]) simp
qed


section \<open>Consent\<close>

lemma learning_audit_refused: "emit_learning_audit E role action actor st si meta db = db"
  by (simp add: emit_learning_audit_def Let_def unlinked_write_def eff_simps validate_record_def field_faults_def blank_record_def
      ALLOWED_SUBSYSTEMS_def)

text \<open>
  Decisions on consent are never audited: grants, revocations and the vendor's records build
  their audit row with the subsystem \<open>learning\<close>, which the record refuses, so none of them ever adds a
  row to the audit table, although every write path is documented to emit one.
\<close>

theorem learning_never_audited:
  "ld_audit (run_state (grant_cross_org_consent E r) db) = ld_audit db \<and>
   ld_audit (run_state (revoke_cross_org_consent E hub_id project_id category actor rationale) db) = ld_audit db \<and>
   ld_audit (snd (vendor_self_improvement_record E ev force_vendor flag (psql_lesson_writer E) publisher db)) = ld_audit db"
proof -
  have w: "ld_audit (snd (psql_consent_writer E r db)) = ld_audit db" for r db
    by (simp add: psql_consent_writer_def Let_def split: bool.splits option.splits)
  have r: "ld_audit (run_state (record_consent E op r) db) = ld_audit db" for op r db
    using w [of r db] by (auto simp: record_consent_def eff_simps emit_consent_audit_def learning_audit_refused split: sum.splits prod.splits)
  have c: "ld_audit db' = ld_audit db" if "contribute_lesson (psql_lesson_writer E) p ctx l e db = (out, db')" for p ctx l e out db'
    using psql_lessons.contribute_rows [OF that] by auto
  show ?thesis
    by (auto simp: grant_cross_org_consent_def revoke_cross_org_consent_def Let_def r vendor_self_improvement_record_def
        learning_audit_refused dest: c split: option.splits prod.splits)
qed

lemma record_consentE:
  assumes "record_consent E op r db = (Inr d, db')"
  obtains h p where "cast_id E (cr_hub_id r) = Some h" "cast_id E (cr_project_id r) = Some p"
    and "sp_cross_org_consent (cn_effective_policy d) = cr_cross_org_consent r"
    and "sp_granular_consent (cn_effective_policy d) = merge_granular
      (case limit_one E (filter (same_scope h p) (ld_policies db)) of None \<Rightarrow> [] | Some row \<Rightarrow> sp_granular_consent row) (cr_granular r)"
    and "db' = db\<lparr>ld_policies := upsert_policy h p (cr_cross_org_consent r) (sp_granular_consent (cn_effective_policy d)) (ld_policies db)\<rparr>"
proof -
  from assms obtain eff db1 where w: "psql_consent_writer E r db = (Inr eff, db1)" and d: "cn_effective_policy d = eff"
    and db': "db' = db1"
    by (auto simp: record_consent_def eff_simps emit_consent_audit_def learning_audit_refused split: sum.splits prod.splits if_splits)
  from w obtain h p where hp: "cast_id E (cr_hub_id r) = Some h" "cast_id E (cr_project_id r) = Some p"
    by (auto simp: psql_consent_writer_def split: bool.splits option.splits)
  let ?g = "merge_granular (case limit_one E (filter (same_scope h p) (ld_policies db)) of None \<Rightarrow> []
    | Some row \<Rightarrow> sp_granular_consent row) (cr_granular r)"
  have e: "eff = \<lparr>sp_hub_id = cr_hub_id r, sp_project_id = cr_project_id r, sp_within_hub_enabled = True,
      sp_cross_org_consent = cr_cross_org_consent r, sp_granular_consent = ?g\<rparr>"
    and db1: "db1 = db\<lparr>ld_policies := upsert_policy h p (cr_cross_org_consent r) ?g (ld_policies db)\<rparr>"
    using w hp by (auto simp: psql_consent_writer_def Let_def split: bool.splits)
  show ?thesis by (rule that [OF hp]) (simp_all add: d e db' db1)
qed

lemma map_of_merge_granular:
  "map_of (merge_granular ex inc) k = (case map_of (rev inc) k of None \<Rightarrow> map_of ex k | Some v \<Rightarrow> Some v)"
  unfolding merge_granular_def
  by (induction inc arbitrary: ex) (auto simp: dict_simps map_add_def split: option.splits)

lemma limit_one_mem: "limit_one E rows = Some r \<Longrightarrow> r \<in> set rows"
  by (auto simp: limit_one_def split: if_splits)

lemma upsert_stores: "\<exists>row \<in> set (upsert_policy h p cross g rows). same_scope h p row \<and> sp_cross_org_consent row = cross \<and>
    sp_granular_consent row = g"
proof (cases "h \<noteq> None \<and> p \<noteq> None \<and> list_ex (same_scope h p) rows")
  case True
  then obtain row where row: "row \<in> set rows" "same_scope h p row" by (auto simp: list_ex_iff)
  let ?u = "\<lambda>row. if same_scope h p row then row\<lparr>sp_cross_org_consent := cross, sp_granular_consent := g\<rparr> else row"
  have "?u row \<in> set (upsert_policy h p cross g rows)" using True row(1) by (simp add: upsert_policy_def)
  then show ?thesis using row(2) by (intro bexI [of _ "?u row"]) (simp_all add: same_scope_def)
qed (auto simp: upsert_policy_def same_scope_def)

text \<open>
  Revoking one category opens all others: whatever the scope's policy was, and also when
  nothing was ever granted, revoking a category leaves the scope with consent to every category that
  has no entry of its own, in the policy returned and in a row of the registry. It is documented to
  leave the umbrella consent as it is.
\<close>

theorem category_revoke_opens_others:
  assumes "revoke_cross_org_consent E hub_id project_id (Some c) actor rationale db = (Inr d, db')"
    and "other \<noteq> c" and "\<forall>row \<in> set (ld_policies db). map_of (sp_granular_consent row) other = None"
  shows "cross_org_for (cn_effective_policy d) (Some other) \<and>
    (\<exists>row \<in> set (ld_policies db'). cast_id E hub_id = Some (sp_hub_id row) \<and> cast_id E project_id = Some (sp_project_id row) \<and>
      cross_org_for row (Some other))"
proof -
  let ?r = "\<lparr>cr_hub_id = hub_id, cr_project_id = project_id, cr_cross_org_consent = True, cr_granular = [(c, False)],
    cr_granted_by = actor, cr_rationale = rationale\<rparr>"
  have rc: "record_consent E ''revoke_category'' ?r db = (Inr d, db')"
    using assms(1) by (simp add: revoke_cross_org_consent_def Let_def)
  obtain h p where hp: "cast_id E hub_id = Some h" "cast_id E project_id = Some p"
    and cross: "sp_cross_org_consent (cn_effective_policy d)"
    and gran: "sp_granular_consent (cn_effective_policy d) = merge_granular (case limit_one E (filter (same_scope h p) (ld_policies db)) of
      None \<Rightarrow> [] | Some row \<Rightarrow> sp_granular_consent row) [(c, False)]"
    and db': "db' = db\<lparr>ld_policies := upsert_policy h p True (sp_granular_consent (cn_effective_policy d)) (ld_policies db)\<rparr>"
    by (rule record_consentE [OF rc]) simp
  have none: "map_of (sp_granular_consent (cn_effective_policy d)) other = None"
    unfolding gran map_of_merge_granular using assms(2,3) by (auto split: option.splits dest!: limit_one_mem)
  obtain row where "row \<in> set (ld_policies db')" "same_scope h p row" "sp_cross_org_consent row"
    "sp_granular_consent row = sp_granular_consent (cn_effective_policy d)"
    using upsert_stores [of h p True] db' by fastforce
  with none cross hp show ?thesis by (intro conjI bexI [of _ row]) (auto simp: cross_org_for_def same_scope_def)
qed

text \<open>
  A full revocation of a scope that has a project turns every stored consent off, apart from the
  categories granted under a name outside the three known ones.
\<close>

theorem full_revoke_exact:
  assumes "revoke_cross_org_consent E (Some hub) (Some project) None actor rationale db = (Inr d, db')"
    and "row \<in> set (ld_policies db')" and "sp_hub_id row = ln_uuid E hub" and "sp_project_id row = ln_uuid E project"
  shows "cross_org_for row category \<longrightarrow>
    (\<exists>c. category = Some c \<and> c \<notin> set KNOWN_DATA_CATEGORIES \<and>
      (\<exists>old \<in> set (ld_policies db). same_scope (sp_hub_id row) (sp_project_id row) old \<and> map_of (sp_granular_consent old) c = Some True))"
proof -
  let ?r = "\<lparr>cr_hub_id = Some hub, cr_project_id = Some project, cr_cross_org_consent = False,
    cr_granular = map (\<lambda>cat. (cat, False)) KNOWN_DATA_CATEGORIES, cr_granted_by = actor, cr_rationale = rationale\<rparr>"
  have rc: "record_consent E ''revoke'' ?r db = (Inr d, db')"
    using assms(1) by (simp add: revoke_cross_org_consent_def Let_def)
  obtain h p where hp: "cast_id E (Some hub) = Some h" "cast_id E (Some project) = Some p"
    and gran: "sp_granular_consent (cn_effective_policy d) = merge_granular (case limit_one E (filter (same_scope h p) (ld_policies db)) of
      None \<Rightarrow> [] | Some row \<Rightarrow> sp_granular_consent row) (map (\<lambda>cat. (cat, False)) KNOWN_DATA_CATEGORIES)"
    and db': "db' = db\<lparr>ld_policies := upsert_policy h p False (sp_granular_consent (cn_effective_policy d)) (ld_policies db)\<rparr>"
    by (rule record_consentE [OF rc]) simp
  have hpr: "h = sp_hub_id row" "p = sp_project_id row" "h \<noteq> None" "p \<noteq> None"
    using hp assms(3,4) by (auto simp: cast_id_def)
  have row: "\<not> sp_cross_org_consent row" "sp_granular_consent row = sp_granular_consent (cn_effective_policy d)"
    using assms(2) db' hpr by (auto simp: upsert_policy_def same_scope_def list_ex_iff split: if_splits)
  show ?thesis
  proof
    assume on: "cross_org_for row category"
    then obtain c where c: "category = Some c" "map_of (sp_granular_consent (cn_effective_policy d)) c = Some True"
      using row by (auto simp: cross_org_for_def split: option.splits if_splits)
    then have "c \<notin> set KNOWN_DATA_CATEGORIES"
      unfolding gran map_of_merge_granular by (auto simp: KNOWN_DATA_CATEGORIES_def split: if_splits)
    moreover from this obtain old where "limit_one E (filter (same_scope h p) (ld_policies db)) = Some old"
      "map_of (sp_granular_consent old) c = Some True"
      using c(2) unfolding gran map_of_merge_granular
      by (auto simp: KNOWN_DATA_CATEGORIES_def split: option.splits if_splits)
    ultimately show "\<exists>c. category = Some c \<and> c \<notin> set KNOWN_DATA_CATEGORIES \<and>
      (\<exists>old \<in> set (ld_policies db). same_scope (sp_hub_id row) (sp_project_id row) old \<and> map_of (sp_granular_consent old) c = Some True)"
      using c(1) hpr by (auto dest!: limit_one_mem)
  qed
qed

lemma hub_wide_append_only:
  assumes "row \<in> set (ld_policies db)" and "cr_project_id r = None"
  shows "row \<in> set (ld_policies (run_state (record_consent E op r) db))"
proof (cases "record_consent E op r db")
  case (Pair res db')
  show ?thesis
  proof (cases res)
    case (Inl e)
    then show ?thesis using Pair assms(1)
      by (auto simp: record_consent_def eff_simps psql_consent_writer_def Let_def
          split: sum.splits prod.splits if_splits bool.splits option.splits)
  next
    case (Inr d)
    with Pair have "record_consent E op r db = (Inr d, db')" by simp
    then obtain h p where "cast_id E (cr_project_id r) = Some p"
      "db' = db\<lparr>ld_policies := upsert_policy h p (cr_cross_org_consent r) (sp_granular_consent (cn_effective_policy d)) (ld_policies db)\<rparr>"
      by (rule record_consentE) blast
    then show ?thesis using assms Pair by (auto simp: cast_id_def upsert_policy_def)
  qed
qed

lemma hub_wide_revoke_append_only:
  "row \<in> set (ld_policies db) \<Longrightarrow>
   row \<in> set (ld_policies (run_state (revoke_cross_org_consent E hub_id None category actor rationale) db))"
  by (cases category) (auto simp: revoke_cross_org_consent_def Let_def intro!: hub_wide_append_only)

definition revoke_all :: "learning_env \<Rightarrow> string option \<Rightarrow> (string option \<times> string \<times> string) list \<Rightarrow> learning_db \<Rightarrow> learning_db" where
  "revoke_all E hub_id revocations db = fold (\<lambda>(category, actor, rationale) db.
     run_state (revoke_cross_org_consent E hub_id None category actor rationale) db) revocations db"

text \<open>
  A hub-wide grant survives its revocation: for a scope without a project the unique
  constraint never conflicts, so after a grant and any number of revocations of the same scope, full
  ones included, the registry still holds a row for that hub whose umbrella consent is on.
\<close>

theorem hub_wide_grant_survives_revocation:
  assumes "grant_cross_org_consent E r db = (Inr d, db')" and "cr_project_id r = None" and "cr_cross_org_consent r"
  shows "\<exists>row \<in> set (ld_policies (revoke_all E (cr_hub_id r) revocations db')). cast_id E (cr_hub_id r) = Some (sp_hub_id row) \<and>
    sp_project_id row = None \<and> sp_cross_org_consent row"
proof -
  have "record_consent E ''grant'' r db = (Inr d, db')" using assms(1) by (simp add: grant_cross_org_consent_def)
  then obtain h p where hp: "cast_id E (cr_hub_id r) = Some h" "cast_id E (cr_project_id r) = Some p"
    and db': "db' = db\<lparr>ld_policies := upsert_policy h p (cr_cross_org_consent r) (sp_granular_consent (cn_effective_policy d)) (ld_policies db)\<rparr>"
    by (rule record_consentE) blast
  obtain row where row: "row \<in> set (ld_policies db')" "same_scope h p row" "sp_cross_org_consent row"
    using upsert_stores [of h p True] db' assms(3) by fastforce
  have "row \<in> set (ld_policies db') \<Longrightarrow> row \<in> set (ld_policies (revoke_all E (cr_hub_id r) revocations db'))" for db'
    unfolding revoke_all_def by (induction revocations arbitrary: db') (auto intro: hub_wide_revoke_append_only)
  with row hp assms(2) show ?thesis by (intro bexI [of _ row]) (auto simp: same_scope_def cast_id_def)
qed

section \<open>Example\<close>

definition demo_learning_env :: learning_env where
  "demo_learning_env = \<lparr>ln_db_up = True, ln_uuid = (\<lambda>s. if s = [] then None else Some s), ln_pick = (\<lambda>_. 0),
     ln_row_id = (\<lambda>n. ''row'' @ str_nat n), ln_codec = demo_audit_codec, ln_url = Some ''db'', ln_redact_env = None,
     ln_now = 0, ln_event_uuid = int, ln_deployment_kind = None\<rparr>"

definition demo_learning_db :: learning_db where
  "demo_learning_db = \<lparr>ld_policies = [], ld_lessons = [], ld_audit = empty_audit_db\<rparr>"

definition demo_consent :: consent_record where
  "demo_consent = \<lparr>cr_hub_id = Some ''h'', cr_project_id = None, cr_cross_org_consent = True, cr_granular = [],
     cr_granted_by = ''ann'', cr_rationale = []\<rparr>"

definition demo_contribute :: contribute_input where
  "demo_contribute = \<lparr>ci_project_id = ''p'', ci_lesson_text = ''t'', ci_source_audit_record_id = None,
     ci_requested_scope = ''cross_org'', ci_data_category = None, ci_hub_id = None, ci_within_hub_enabled = None,
     ci_cross_org_default = Some True\<rparr>"

lemma demo_row_id: "\<forall>n. ln_row_id demo_learning_env n \<noteq> []"
  by (simp add: demo_learning_env_def)


theorem learning_tool_ignores_consent_witness:
  "\<exists>out db' new. learning_contribute demo_learning_env demo_contribute demo_learning_db = (Inr out, db') \<and>
     ld_lessons db' = new \<and> CROSS_ORG \<in> ls_scope ` set new"
proof -
  let ?c = "learning_contribute demo_learning_env demo_contribute demo_learning_db"
  have "scope_from_str (ci_requested_scope demo_contribute) = Some CROSS_ORG" by code_simp
  then have "\<exists>out db'. ?c = (Inr out, db')" by (simp add: learning_contribute_def split: prod.splits)
  then obtain out db' where c: "?c = (Inr out, db')" by blast
  have up: "ln_db_up demo_learning_env" by (simp add: demo_learning_env_def)
  have src: "cast_id demo_learning_env (ci_source_audit_record_id demo_contribute) = Some None"
    by (simp add: cast_id_def demo_contribute_def)
  from learning_tool_ignores_consent [OF c up demo_row_id src] c show ?thesis
    by (auto simp: demo_learning_db_def demo_contribute_def)
qed

theorem category_revoke_opens_others_witness:
  "\<exists>d db'. revoke_cross_org_consent demo_learning_env (Some ''h'') (Some ''p'') (Some ''pattern_frequencies'') ''ann'' []
      demo_learning_db = (Inr d, db') \<and> cross_org_for (cn_effective_policy d) (Some ''role_success_rates'')"
proof -
  obtain d db' where r: "revoke_cross_org_consent demo_learning_env (Some ''h'') (Some ''p'') (Some ''pattern_frequencies'') ''ann'' []
      demo_learning_db = (Inr d, db')"
    by (simp add: revoke_cross_org_consent_def record_consent_def eff_simps consent_valid_def given_def psql_consent_writer_def
        demo_learning_env_def cast_id_def Let_def)
  from category_revoke_opens_others [OF r, of "''role_success_rates''"] r show ?thesis by (auto simp: demo_learning_db_def)
qed

theorem hub_wide_grant_survives_revocation_witness:
  "\<exists>d db'. grant_cross_org_consent demo_learning_env demo_consent demo_learning_db = (Inr d, db') \<and>
     (\<exists>row \<in> set (ld_policies (revoke_all demo_learning_env (Some ''h'') [(None, ''ann'', [])] db')). sp_cross_org_consent row)"
proof -
  obtain d db' where g: "grant_cross_org_consent demo_learning_env demo_consent demo_learning_db = (Inr d, db')"
    by (simp add: grant_cross_org_consent_def record_consent_def eff_simps consent_valid_def given_def psql_consent_writer_def
        demo_learning_env_def demo_consent_def cast_id_def Let_def)
  from hub_wide_grant_survives_revocation [OF g, of "[(None, ''ann'', [])]"] g show ?thesis
    by (auto simp: demo_consent_def)
qed

end
