(* ===== verification/Anonymizer.thy ===== *)
theory Anonymizer
  imports Regex Json Complex_Main
begin

text \<open>
  The release of aggregates across organisations, \<open>learning/anonymizer.py\<close>: the search for personal
  data in text, the scrubbing of extra fields and the decision of each method. SHA-256 is a parameter.
  The noise of differential privacy enters as the rounded sum of the count and the sample.
\<close>

section \<open>Personal data in text\<close>

definition DEFAULT_K :: int where
  "DEFAULT_K = 5"

definition ALWAYS_REDACT :: "string list" where
  "ALWAYS_REDACT = [''user_email'', ''user_id'', ''actor'', ''actor_id'', ''project_id'', ''project_name'',
     ''hub_id'', ''hub_name'', ''repo'', ''repo_url'', ''commit_sha'', ''file_path'',
     ''rationale'', ''lesson_text'', ''source_audit_record_id'', ''ip_address'']"

definition word_or :: "string \<Rightarrow> re" where
  "word_or cs = RSet (\<lambda>c. re_word c \<or> c \<in> set cs)"

definition EMAIL_RE :: re where
  "EMAIL_RE = RSeq (RPlus (word_or ''.+-'')) (RSeq (RStr ''@'') (RSeq (RPlus (word_or ''-''))
     (RSeq (RStr ''.'') (RPlus (word_or ''.-'')))))"

definition SSN_RE :: re where
  "SSN_RE = RSeq (RTimes 3 (RSet re_digit)) (RSeq (RStr ''-'') (RSeq (RTimes 2 (RSet re_digit))
     (RSeq (RStr ''-'') (RTimes 4 (RSet re_digit)))))"

definition HEX_RE :: re where
  "HEX_RE = (let h = RSet (\<lambda>c. re_digit c \<or> in_range 65 70 c \<or> in_range 97 102 c) in RSeq (RTimes 32 h) (RStar h))"

definition octet_re :: re where
  "octet_re = RSeq (RSet re_digit) (RUpto 2 (RSet re_digit))"

definition IPV4_RE :: re where
  "IPV4_RE = RSeq octet_re (RSeq (RStr ''.'') (RSeq octet_re (RSeq (RStr ''.'') (RSeq octet_re (RSeq (RStr ''.'') octet_re)))))"

text \<open>
  The alternatives of \<open>_PII_RE\<close> at one position, in order. Those between two \<open>\b\<close> start and end
  with a word character, so they need a character before that is not one, and none after.
\<close>

definition word_end :: "string \<Rightarrow> bool" where
  "word_end s = (case s of [] \<Rightarrow> True | c # _ \<Rightarrow> \<not> re_word c)"

definition pii_rests :: "bool \<Rightarrow> string \<Rightarrow> string list" where
  "pii_rests after_word s = re_rests EMAIL_RE s @ (if after_word then [] else
     filter word_end (re_rests SSN_RE s @ re_rests HEX_RE s @ re_rests IPV4_RE s))"

function pii_finditer :: "bool \<Rightarrow> string \<Rightarrow> string list" where
  "pii_finditer after_word [] = []"
| "pii_finditer after_word (c # cs) = (case pii_rests after_word (c # cs) of
     [] \<Rightarrow> pii_finditer (re_word c) cs
   | t # _ \<Rightarrow> if length t < length (c # cs)
       then (let m = take (length (c # cs) - length t) (c # cs) in m # pii_finditer (re_word (last m)) t)
       else pii_finditer (re_word c) cs)"
  by pat_completeness auto
termination
  by (relation "measure (length \<circ> snd)") auto

definition scan_pattern_class_for_pii :: "string \<Rightarrow> string list" where
  "scan_pattern_class_for_pii pattern_class = pii_finditer False pattern_class"

definition pii_search :: "string \<Rightarrow> bool" where
  "pii_search s = (pii_finditer False s \<noteq> [])"

section \<open>Scrubbing\<close>

fun scrub_fields :: "(string \<times> json) list \<Rightarrow> (string \<times> json) list \<times> string list" where
  "scrub_fields [] = ([], [])"
| "scrub_fields ((k, v) # extra) =
     (case scrub_fields extra of (clean, redacted) \<Rightarrow>
        if k \<in> set ALWAYS_REDACT then (clean, k # redacted)
        else (case v of
           JDict d \<Rightarrow> (case scrub_fields d of (inner, inner_red) \<Rightarrow>
             ((k, JDict inner) # clean, map (\<lambda>r. k @ ''.'' @ r) inner_red @ redacted))
         | JStr s \<Rightarrow> (if pii_search s then (clean, k # redacted) else ((k, v) # clean, redacted))
         | _ \<Rightarrow> ((k, v) # clean, redacted)))"

section \<open>Methods\<close>

datatype method_kind = K_ANONYMITY | DIFFERENTIAL_PRIVACY | SYNTHETIC

record anon_method =
  am_kind :: method_kind
  am_label :: string
  am_k :: "int option"
  am_epsilon :: "rat option"

definition str_int :: "int \<Rightarrow> string" where
  "str_int i = (if i < 0 then ''-'' @ str_nat (nat (- i)) else str_nat (nat i))"

definition k_anonymity_method :: "int \<Rightarrow> (unit, anon_method) res" where
  "k_anonymity_method k = (if k < 1 then Inl () else
     Inr \<lparr>am_kind = K_ANONYMITY, am_label = ''k_anonymity_'' @ str_int k, am_k = Some k, am_epsilon = None\<rparr>)"

definition synthetic_method :: anon_method where
  "synthetic_method = \<lparr>am_kind = SYNTHETIC, am_label = ''synthetic'', am_k = None, am_epsilon = None\<rparr>"

record anon_report =
  an_pattern_class :: string
  an_method_label :: string
  an_k :: "int option"
  an_epsilon :: "rat option"
  an_contributor_count :: nat
  an_redacted_fields :: "string list"
  an_pii_hits :: "string list"
  an_suppressed_reason :: "string option"

record anon_result =
  ao_release_ok :: bool
  ao_pattern_class :: string
  ao_count :: int
  ao_period :: string
  ao_method :: string
  ao_report :: anon_report
  ao_redacted_fields :: "string list"
  ao_aggregate_hash :: string

definition hash_aggregate :: "(string \<Rightarrow> string) \<Rightarrow> string \<Rightarrow> int \<Rightarrow> string \<Rightarrow> string \<Rightarrow> string" where
  "hash_aggregate sha pattern_class count period label = sha (pattern_class @ str_int count @ period @ label)"

definition default_method :: anon_method where
  "default_method = \<lparr>am_kind = K_ANONYMITY, am_label = ''k_anonymity_5'', am_k = Some DEFAULT_K, am_epsilon = None\<rparr>"

text \<open>\<open>noisy_count count scale\<close> is \<open>int(round(count + noise))\<close> for a sample of the given scale.\<close>

definition k_in_force :: "anon_method \<Rightarrow> int" where
  "k_in_force m = (case am_k m of None \<Rightarrow> DEFAULT_K | Some k \<Rightarrow> if k = 0 then DEFAULT_K else k)"

definition epsilon_in_force :: "anon_method \<Rightarrow> rat" where
  "epsilon_in_force m = (case am_epsilon m of None \<Rightarrow> 1 | Some e \<Rightarrow> if e = 0 then 1 else e)"

definition contributor_count :: "string option list \<Rightarrow> nat" where
  "contributor_count ids = length (remdups (map the (filter (\<lambda>c. c \<noteq> None) ids)))"

definition anonymize_for_cross_org :: "(string \<Rightarrow> string) \<Rightarrow> (int \<Rightarrow> rat \<Rightarrow> int) \<Rightarrow> string \<Rightarrow> int \<Rightarrow> string \<Rightarrow> string option list \<Rightarrow>
    (string \<times> json) list \<Rightarrow> anon_method option \<Rightarrow> anon_result" where
  "anonymize_for_cross_org sha noisy_count pattern_class count period contributor_ids extra_fields meth =
     (let m = (case meth of None \<Rightarrow> default_method | Some m \<Rightarrow> m);
          pii_hits = scan_pattern_class_for_pii pattern_class;
          redacted = snd (scrub_fields extra_fields);
          n = contributor_count contributor_ids;
          report = \<lparr>an_pattern_class = pattern_class, an_method_label = am_label m, an_k = am_k m, an_epsilon = am_epsilon m,
            an_contributor_count = n, an_redacted_fields = redacted, an_pii_hits = pii_hits, an_suppressed_reason = None\<rparr>;
          suppressed = (\<lambda>reason. \<lparr>ao_release_ok = False, ao_pattern_class = pattern_class, ao_count = 0, ao_period = period,
            ao_method = am_label m, ao_report = report\<lparr>an_suppressed_reason := Some reason\<rparr>, ao_redacted_fields = redacted,
            ao_aggregate_hash = []\<rparr>);
          released = (\<lambda>c. \<lparr>ao_release_ok = True, ao_pattern_class = pattern_class, ao_count = c, ao_period = period,
            ao_method = am_label m, ao_report = report, ao_redacted_fields = redacted,
            ao_aggregate_hash = hash_aggregate sha pattern_class c period (am_label m)\<rparr>) in
      if pii_hits \<noteq> [] then suppressed ''pii_in_pattern_class''
      else case am_kind m of
        K_ANONYMITY \<Rightarrow>
          (if int n < k_in_force m
           then suppressed (''k_anonymity_violation: contributors='' @ str_nat n @ '' < k='' @ str_int (k_in_force m))
           else released count)
      | DIFFERENTIAL_PRIVACY \<Rightarrow> released (max 0 (noisy_count count (1 / epsilon_in_force m)))
      | SYNTHETIC \<Rightarrow> released (if 0 < count then 1 else 0))"


section \<open>The search\<close>

lemma re_rests_shorter_seq:
  assumes "\<And>s t. t \<in> set (re_rests a s) \<Longrightarrow> length t < length s" and "t \<in> set (re_rests (RSeq a b) s)"
  shows "length t < length s"
proof -
  from assms(2) obtain u where "u \<in> set (re_rests a s)" "t \<in> set (re_rests b u)" by auto
  with assms(1) [of u s] re_rests_suffix [of t b u] show ?thesis by (auto dest: suffix_length_le)
qed

lemma re_rests_shorter_set: "t \<in> set (re_rests (RSet P) s) \<Longrightarrow> length t < length s"
  by (cases s) (auto split: if_splits)

lemma pii_rests_shorter:
  assumes "t \<in> set (pii_rests aw s)"
  shows "length t < length s"
proof -
  have plus: "t \<in> set (re_rests (RPlus (RSet P)) s) \<Longrightarrow> length t < length s" for t s P
    unfolding RPlus_def by (rule re_rests_shorter_seq [OF re_rests_shorter_set])
  have times: "t \<in> set (re_rests (RTimes n (RSet P)) s) \<Longrightarrow> length t < length s" if "0 < n" for t s P n
    using that by (cases n) (auto simp only: RTimes.simps intro: re_rests_shorter_seq [OF re_rests_shorter_set])
  have email: "t \<in> set (re_rests EMAIL_RE s) \<Longrightarrow> length t < length s" for t
    unfolding EMAIL_RE_def word_or_def by (rule re_rests_shorter_seq [OF plus])
  have ssn: "t \<in> set (re_rests SSN_RE s) \<Longrightarrow> length t < length s" for t
    unfolding SSN_RE_def by (rule re_rests_shorter_seq [OF times [OF zero_less_numeral]])
  have hex: "t \<in> set (re_rests HEX_RE s) \<Longrightarrow> length t < length s" for t
    unfolding HEX_RE_def Let_def by (rule re_rests_shorter_seq [OF times [OF zero_less_numeral]])
  have ip: "t \<in> set (re_rests IPV4_RE s) \<Longrightarrow> length t < length s" for t
    unfolding IPV4_RE_def octet_re_def by (rule re_rests_shorter_seq [OF re_rests_shorter_seq [OF re_rests_shorter_set]])
  from assms email ssn hex ip show ?thesis by (auto simp: pii_rests_def split: if_splits)
qed

lemma pii_finditer_Cons:
  "pii_finditer aw (c # cs) \<noteq> [] \<longleftrightarrow> pii_rests aw (c # cs) \<noteq> [] \<or> pii_finditer (re_word c) cs \<noteq> []"
proof (cases "pii_rests aw (c # cs)")
  case (Cons t ts)
  then have "length t < length (c # cs)" using pii_rests_shorter [of t aw "c # cs"] by simp
  then show ?thesis using Cons by (simp add: Let_def)
qed simp

lemma pii_rests_Nil: "pii_rests aw [] = []"
  using pii_rests_shorter [of _ aw "[]"] list.set_intros(1) by (metis length_0_conv less_nat_zero_code list.exhaust list.size(3))

lemma ex_split_Cons: "(\<exists>a b. c # cs = a @ b \<and> Q a b) \<longleftrightarrow> Q [] (c # cs) \<or> (\<exists>a b. cs = a @ b \<and> Q (c # a) b)"
  by (auto simp: Cons_eq_append_conv)

lemma pii_finditer_iff:
  "pii_finditer aw s \<noteq> [] \<longleftrightarrow> (\<exists>a b. s = a @ b \<and> pii_rests (if a = [] then aw else re_word (last a)) b \<noteq> [])"
proof (induction s arbitrary: aw)
  case Nil
  then show ?case by (simp add: pii_rests_Nil)
next
  case (Cons c cs)
  have *: "(if c # a = [] then aw else re_word (last (c # a))) = (if a = [] then re_word c else re_word (last a))" for a by simp
  show ?case unfolding ex_split_Cons * pii_finditer_Cons Cons.IH [of "re_word c"] by simp
qed

definition leaks :: "string \<Rightarrow> bool" where
  "leaks s = (\<exists>a b. s = a @ b \<and> pii_rests (a \<noteq> [] \<and> re_word (last a)) b \<noteq> [])"

lemma scan_iff: "pii_finditer False s \<noteq> [] \<longleftrightarrow> leaks s"
proof -
  have "(if a = [] then False else re_word (last a)) = (a \<noteq> [] \<and> re_word (last a))" for a :: string by simp
  then show ?thesis using pii_finditer_iff [of False s] unfolding leaks_def by simp
qed

lemma contributor_count_card: "contributor_count ids = card {c. Some c \<in> set ids}"
proof -
  have "set (map the (filter (\<lambda>c. c \<noteq> None) ids)) = {c. Some c \<in> set ids}" by force
  then show ?thesis unfolding contributor_count_def by (metis length_remdups_card_conv)
qed

section \<open>What is released\<close>

text \<open>
  Claim C39. Nothing is released below the threshold: an aggregate is released if and only if no position
  of its class matches the pattern of personal data and, for k-anonymity, at least \<open>k\<close> different
  contributors are named. A released aggregate carries exactly the count its method allows and the hash
  over it; a suppressed one carries the count 0, no hash and a reason.
\<close>

theorem release_exact:
  "let r = anonymize_for_cross_org sha noisy pattern_class count period ids extra meth;
       m = (case meth of None \<Rightarrow> default_method | Some m \<Rightarrow> m) in
   (ao_release_ok r \<longleftrightarrow> \<not> leaks pattern_class \<and>
      (am_kind m = K_ANONYMITY \<longrightarrow> k_in_force m \<le> int (card {c. Some c \<in> set ids}))) \<and>
   (ao_release_ok r \<longrightarrow>
      ao_count r = (case am_kind m of K_ANONYMITY \<Rightarrow> count
        | DIFFERENTIAL_PRIVACY \<Rightarrow> max 0 (noisy count (1 / epsilon_in_force m)) | SYNTHETIC \<Rightarrow> of_bool (0 < count)) \<and>
      ao_aggregate_hash r = sha (pattern_class @ str_int (ao_count r) @ period @ am_label m)) \<and>
   (\<not> ao_release_ok r \<longrightarrow> ao_count r = 0 \<and> ao_aggregate_hash r = [] \<and> an_suppressed_reason (ao_report r) \<noteq> None)"
  by (cases "leaks pattern_class"; cases "am_kind (case meth of None \<Rightarrow> default_method | Some m \<Rightarrow> m)")
    (simp_all add: anonymize_for_cross_org_def Let_def scan_pattern_class_for_pii_def scan_iff contributor_count_card
      hash_aggregate_def not_le split: if_splits)

section \<open>What is scrubbed\<close>

fun exposes :: "(string \<times> json) list \<Rightarrow> bool" where
  "exposes [] = False"
| "exposes ((k, v) # extra) = (k \<in> set ALWAYS_REDACT \<or>
     (case v of JDict d \<Rightarrow> exposes d | JStr s \<Rightarrow> leaks s | _ \<Rightarrow> False) \<or> exposes extra)"

lemma pii_search_leaks: "pii_search s = leaks s"
  by (simp add: pii_search_def scan_iff)

text \<open>
  Scrubbing is exact on nested dictionaries: what is left holds no key of the denylist and no
  string with personal data at any depth of dictionaries; fields are reported if and only if there was
  such a key or string; and a dictionary without any is left as it is, so that scrubbing twice changes
  nothing more.
\<close>

theorem scrub_exact:
  "\<not> exposes (fst (scrub_fields extra)) \<and> (snd (scrub_fields extra) \<noteq> [] \<longleftrightarrow> exposes extra) \<and>
   (\<not> exposes extra \<longrightarrow> fst (scrub_fields extra) = extra)"
proof (induction extra rule: exposes.induct)
  case (2 k v extra)
  then show ?case by (cases v) (auto simp: pii_search_leaks split: prod.splits)
qed simp


section \<open>Example\<close>

lemma demo_class_clean: "\<not> leaks ''qa''"
proof -
  have "pii_finditer False ''qa'' = []" by code_simp
  then show ?thesis using scan_iff by blast
qed

theorem release_exact_witness:
  "ao_release_ok (anonymize_for_cross_org id (\<lambda>c _. c) ''qa'' 3 ''m'' (map Some [''a'', ''b'', ''c'', ''d'', ''e'', ''a'']) [] None) \<and>
   \<not> ao_release_ok (anonymize_for_cross_org id (\<lambda>c _. c) ''qa'' 3 ''m'' (map Some [''a'', ''b'', ''a'', ''b'', ''a'', ''b'']) [] None)"
proof -
  have c1: "{c. Some c \<in> set (map Some [''a'', ''b'', ''c'', ''d'', ''e'', ''a''])} = {''a'', ''b'', ''c'', ''d'', ''e''}" by auto
  have c2: "{c. Some c \<in> set (map Some [''a'', ''b'', ''a'', ''b'', ''a'', ''b''])} = {''a'', ''b''}" by auto
  show ?thesis
    using release_exact [of id "\<lambda>c _. c" "''qa''" 3 "''m''" "map Some [''a'', ''b'', ''c'', ''d'', ''e'', ''a'']" "[]" None]
      release_exact [of id "\<lambda>c _. c" "''qa''" 3 "''m''" "map Some [''a'', ''b'', ''a'', ''b'', ''a'', ''b'']" "[]" None]
    unfolding c1 c2 by (simp add: Let_def demo_class_clean default_method_def k_in_force_def DEFAULT_K_def)
qed

theorem scrub_exact_witness:
  "\<not> exposes (fst (scrub_fields [(''m'', JDict [(''actor'', JStr ''x''), (''n'', JInt 1)])])) \<and>
   snd (scrub_fields [(''m'', JDict [(''actor'', JStr ''x''), (''n'', JInt 1)])]) \<noteq> []"
  using scrub_exact [of "[(''m'', JDict [(''actor'', JStr ''x''), (''n'', JInt 1)])]"] by (simp add: ALWAYS_REDACT_def)

end
