(* ===== verification/Instincts.thy ===== *)
theory Instincts
  imports Regex Complex_Main "HOL-Library.List_Lexorder" "HOL-Library.Char_ord" "HOL-Library.Multiset"
begin

text \<open>
  The atomic observations of \<open>learning/instinct.py\<close> and the sweep of
  \<open>shared/runtime/instinct_promotion_loop.py\<close>. A store is one file of lines per project and run; names
  of projects and runs are single path components. A confidence is the rational value of a double, and
  sums and quotients are rounded as Python rounds them. SHA-256, the JSON line of an observation, its
  parser with the model's validation, and the text of a number with two decimals are the fields of
  \<open>instinct_env\<close>.
\<close>

section \<open>Doubles\<close>

text \<open>Round half to even, and the nearest double of a number from \<open>2 ^ -1022\<close> to below \<open>2 ^ 53\<close>.\<close>

definition round_half_even :: "rat \<Rightarrow> int" where
  "round_half_even q = (let f = \<lfloor>q\<rfloor>; d = q - of_int f in
     if d < 1 / 2 then f else if 1 / 2 < d then f + 1 else if even f then f else f + 1)"

definition double_exponent :: "rat \<Rightarrow> nat option" where
  "double_exponent q = find (\<lambda>e. 2 ^ 52 \<le> q * 2 ^ e \<and> q * 2 ^ e < 2 ^ 53) [0..<1075]"

definition to_double :: "rat \<Rightarrow> rat" where
  "to_double q = (case double_exponent q of None \<Rightarrow> q | Some e \<Rightarrow> of_int (round_half_even (q * 2 ^ e)) / 2 ^ e)"

definition float_sum :: "rat list \<Rightarrow> rat" where
  "float_sum xs = fold (\<lambda>x acc. to_double (acc + x)) xs 0"

definition float_mean :: "rat list \<Rightarrow> rat" where
  "float_mean xs = to_double (float_sum xs / of_nat (length xs))"

definition CONFIDENCE_FLOOR :: rat where
  "CONFIDENCE_FLOOR = to_double (3 / 10)"

definition CONFIDENCE_CEILING :: rat where
  "CONFIDENCE_CEILING = to_double (9 / 10)"

definition PROMOTION_THRESHOLD_PROJECTS :: int where
  "PROMOTION_THRESHOLD_PROJECTS = 2"

definition PROMOTION_MIN_CONFIDENCE :: rat where
  "PROMOTION_MIN_CONFIDENCE = 1 / 2"

section \<open>Observations\<close>

record instinct =
  it_pattern :: string
  it_trigger :: string
  it_rationale :: string
  it_confidence :: rat

record instinct_record =
  ir_record_id :: string
  ir_instinct :: instinct
  ir_project_id :: string
  ir_run_id :: string
  ir_actor :: string
  ir_observed_at :: time
  ir_audit_hash :: "string option"
  ir_notes :: "string option"

record instinct_env =
  ie_sha :: "string \<Rightarrow> string"
  ie_dump :: "instinct_record \<Rightarrow> string"
  ie_load :: "string \<Rightarrow> instinct_record option"
  ie_two_decimals :: "rat \<Rightarrow> string"

definition instinct_valid :: "instinct \<Rightarrow> bool" where
  "instinct_valid i = (it_pattern i \<noteq> [] \<and> it_trigger i \<noteq> [] \<and> it_rationale i \<noteq> [] \<and>
     CONFIDENCE_FLOOR \<le> it_confidence i \<and> it_confidence i \<le> CONFIDENCE_CEILING)"

definition record_valid :: "instinct_record \<Rightarrow> bool" where
  "record_valid r = (instinct_valid (ir_instinct r) \<and> ir_project_id r \<noteq> [] \<and> ir_run_id r \<noteq> [] \<and> ir_actor r \<noteq> [])"

text \<open>\<open>re.sub(r"\s+", " ", text)\<close>, then \<open>strip\<close> and \<open>lower\<close>.\<close>

fun collapse_space :: "bool \<Rightarrow> string \<Rightarrow> string" where
  "collapse_space in_space [] = []"
| "collapse_space in_space (c # cs) =
     (if py_space c then (if in_space then collapse_space True cs else CHR '' '' # collapse_space True cs)
      else c # collapse_space False cs)"

definition normalise :: "string \<Rightarrow> string" where
  "normalise text = py_lower (py_strip (collapse_space False text))"

definition fingerprint :: "instinct_env \<Rightarrow> instinct \<Rightarrow> string" where
  "fingerprint E i = ie_sha E (normalise (it_pattern i) @ [CHR 0x1F] @ normalise (it_trigger i))"

section \<open>The store\<close>

datatype instinct_error = Value_error | Validation_error

type_synonym instinct_files = "((string \<times> string) \<times> string list) list"

definition make_store :: "string \<Rightarrow> string \<Rightarrow> (instinct_error, string \<times> string) res" where
  "make_store project_id run_id = (if project_id = [] \<or> run_id = [] then Inl Value_error else Inr (project_id, run_id))"

definition file_lines :: "instinct_files \<Rightarrow> string \<times> string \<Rightarrow> string list" where
  "file_lines fs key = (case map_of fs key of None \<Rightarrow> [] | Some ls \<Rightarrow> ls)"

definition store_record :: "instinct_env \<Rightarrow> string \<times> string \<Rightarrow> instinct_record \<Rightarrow> (instinct_files, instinct_error, instinct_record) eff" where
  "store_record E store r = (\<lambda>fs.
     if ir_project_id r \<noteq> fst store \<or> ir_run_id r \<noteq> snd store then (Inl Value_error, fs)
     else (Inr r, AList.update store (file_lines fs store @ [ie_dump E r]) fs))"

definition nonblank_lines :: "string list \<Rightarrow> string list" where
  "nonblank_lines ls = filter (\<lambda>l. l \<noteq> []) (map py_strip ls)"

definition iter_records :: "instinct_env \<Rightarrow> string \<times> string \<Rightarrow> instinct_files \<Rightarrow> (instinct_error, instinct_record list) res" where
  "iter_records E store fs = rmap (\<lambda>l. case ie_load E l of None \<Rightarrow> Inl Validation_error | Some r \<Rightarrow> Inr r)
     (nonblank_lines (file_lines fs store))"

definition project_records :: "instinct_env \<Rightarrow> instinct_files \<Rightarrow> string \<Rightarrow> instinct_record list" where
  "project_records E fs project_id =
     concat (map (\<lambda>run. List.map_filter (ie_load E) (nonblank_lines (file_lines fs (project_id, run))))
       (sort_key (\<lambda>run. run @ ''.jsonl'') (remdups (map (snd \<circ> fst) (filter (\<lambda>f. fst (fst f) = project_id) fs)))))"

definition iter_root :: "instinct_env \<Rightarrow> instinct_files \<Rightarrow> instinct_record list" where
  "iter_root E fs = concat (map (project_records E fs) (sort (remdups (map (fst \<circ> fst) fs))))"

section \<open>Promotion\<close>

record promotion_decision =
  pd_fingerprint :: string
  pd_projects_seen :: "string list"
  pd_observations :: nat
  pd_avg_confidence :: rat
  pd_threshold_projects :: int
  pd_threshold_confidence :: rat
  pd_eligible :: bool
  pd_reasons :: "string list"

definition validate_promotion :: "promotion_decision \<Rightarrow> (instinct_error, promotion_decision) res" where
  "validate_promotion d = (if length (pd_fingerprint d) = 64 \<and> 0 \<le> pd_avg_confidence d \<and> pd_avg_confidence d \<le> CONFIDENCE_CEILING \<and>
       1 \<le> pd_threshold_projects d \<and> CONFIDENCE_FLOOR \<le> pd_threshold_confidence d \<and> pd_threshold_confidence d \<le> CONFIDENCE_CEILING
     then Inr d else Inl Validation_error)"

definition matching :: "instinct_env \<Rightarrow> instinct_files \<Rightarrow> string \<Rightarrow> instinct_record list" where
  "matching E fs fp = filter (\<lambda>r. fingerprint E (ir_instinct r) = fp) (iter_root E fs)"

definition check_promotion :: "instinct_env \<Rightarrow> string \<Rightarrow> instinct_files \<Rightarrow> int \<Rightarrow> rat \<Rightarrow> (instinct_error, promotion_decision) res" where
  "check_promotion E fp fs threshold_projects threshold_confidence =
     (let matches = matching E fs fp in
      if matches = [] then validate_promotion \<lparr>pd_fingerprint = fp, pd_projects_seen = [], pd_observations = 0, pd_avg_confidence = 0,
        pd_threshold_projects = threshold_projects, pd_threshold_confidence = threshold_confidence, pd_eligible = False,
        pd_reasons = [''no_observations'']\<rparr>
      else
        let projects = sort (remdups (map ir_project_id matches));
            avg = float_mean (map (it_confidence \<circ> ir_instinct) matches);
            reasons = (if int (length projects) < threshold_projects then [''threshold_not_met''] else []) @
              (if avg < threshold_confidence then [''confidence_below_floor''] else []) in
        validate_promotion \<lparr>pd_fingerprint = fp, pd_projects_seen = projects, pd_observations = length matches, pd_avg_confidence = avg,
          pd_threshold_projects = threshold_projects, pd_threshold_confidence = threshold_confidence,
          pd_eligible = (reasons = []), pd_reasons = reasons\<rparr>)"

text \<open>The ellipsis of the source is the character 0x85, the line ends are 0x0A.\<close>

definition promote_to_lesson_payload :: "instinct_env \<Rightarrow> string \<Rightarrow> promotion_decision \<Rightarrow> instinct_files \<Rightarrow> string option" where
  "promote_to_lesson_payload E fp d fs =
     (if \<not> pd_eligible d then None else
      case matching E fs fp of
        [] \<Rightarrow> None
      | r # _ \<Rightarrow>
          let sample = ir_instinct r in
          Some (''Promoted instinct (fingerprint='' @ take 12 fp @ [CHR 0x85] @ ''):'' @ [CHR 0x0A] @
            ''- Pattern: '' @ it_pattern sample @ [CHR 0x0A] @
            ''- Trigger: '' @ it_trigger sample @ [CHR 0x0A] @
            ''- Rationale: '' @ it_rationale sample @ [CHR 0x0A] @
            ''- Corroboration: '' @ str_nat (pd_observations d) @ '' observation(s) across '' @
            str_nat (length (pd_projects_seen d)) @ '' project(s) (avg confidence '' @ ie_two_decimals E (pd_avg_confidence d) @ '').''))"

text \<open>The sweep; a set of fingerprints is taken in the order of the files.\<close>

definition collect_project_fingerprints :: "instinct_env \<Rightarrow> string \<Rightarrow> instinct_files \<Rightarrow> string list" where
  "collect_project_fingerprints E project_id fs = remdups (map (fingerprint E \<circ> ir_instinct) (project_records E fs project_id))"

record eligible_entry =
  ee_project_id :: string
  ee_fingerprint :: string
  ee_decision :: promotion_decision

fun sweep_fingerprints :: "instinct_env \<Rightarrow> instinct_files \<Rightarrow> string \<Rightarrow> string list \<Rightarrow> string list \<times> eligible_entry list \<Rightarrow>
    (instinct_error, string list \<times> eligible_entry list) res" where
  "sweep_fingerprints E fs project_id [] acc = Inr acc"
| "sweep_fingerprints E fs project_id (fp # fps) (seen, eligible) =
     (if fp \<in> set seen then sweep_fingerprints E fs project_id fps (seen, eligible)
      else rbind (check_promotion E fp fs PROMOTION_THRESHOLD_PROJECTS PROMOTION_MIN_CONFIDENCE) (\<lambda>d.
        sweep_fingerprints E fs project_id fps (fp # seen,
          if pd_eligible d then eligible @ [\<lparr>ee_project_id = project_id, ee_fingerprint = fp, ee_decision = d\<rparr>] else eligible)))"

fun sweep_projects :: "instinct_env \<Rightarrow> instinct_files \<Rightarrow> string list \<Rightarrow> string list \<times> eligible_entry list \<Rightarrow>
    (instinct_error, string list \<times> eligible_entry list) res" where
  "sweep_projects E fs [] acc = Inr acc"
| "sweep_projects E fs (p # ps) acc =
     rbind (sweep_fingerprints E fs p (collect_project_fingerprints E p fs) acc) (sweep_projects E fs ps)"

definition sweep_project_promotions :: "instinct_env \<Rightarrow> string list \<Rightarrow> instinct_files \<Rightarrow> (instinct_error, eligible_entry list) res" where
  "sweep_project_promotions E project_ids fs = rbind (sweep_projects E fs project_ids ([], [])) (\<lambda>acc. Inr (snd acc))"


section \<open>Fingerprints\<close>

lemma collapse_space_chars: "c \<in> set (collapse_space b s) \<Longrightarrow> c = CHR '' '' \<or> \<not> py_space c"
  by (induction b s rule: collapse_space.induct) (auto split: if_splits)

lemma separator_code: "c = CHR 0x1F \<longleftrightarrow> (of_char c :: nat) = 31"
proof -
  have "(of_char (CHR 0x1F) :: nat) = 31" by simp
  then show ?thesis using of_char_eq_iff [of c "CHR 0x1F"] by metis
qed

lemma py_lower_separator: "py_lower_char c = CHR 0x1F \<Longrightarrow> c = CHR 0x1F"
  unfolding separator_code by (auto simp: py_lower_char_def Let_def split: if_splits)

lemma normalise_no_separator: "CHR 0x1F \<notin> set (normalise t)"
proof
  assume "CHR 0x1F \<in> set (normalise t)"
  then obtain c where "c \<in> set (py_strip (collapse_space False t))" "py_lower_char c = CHR 0x1F"
    by (auto simp: normalise_def py_lower_def)
  then have "CHR 0x1F \<in> set (collapse_space False t)" using py_lower_separator set_py_strip by blast
  then show False using collapse_space_chars [of "CHR 0x1F" False t] by (auto simp: py_space_def Let_def)
qed

lemma append_separator_inj: "c \<notin> set a \<Longrightarrow> c \<notin> set b \<Longrightarrow> a @ c # x = b @ c # y \<longleftrightarrow> a = b \<and> x = y"
  by (auto simp: append_eq_append_conv2 Cons_eq_append_conv append_eq_Cons_conv)

text \<open>
  A fingerprint identifies an instinct up to spelling: where SHA-256 does not collide on the
  two joined texts, two instincts have the same fingerprint if and only if pattern and trigger agree
  after collapsing blanks and lowering the case. The separator cannot occur in a normalised text, so no
  pair of pattern and trigger can be confused with another.
\<close>

theorem fingerprint_identifies:
  assumes "\<And>x y. x \<in> joined \<Longrightarrow> y \<in> joined \<Longrightarrow> ie_sha E x = ie_sha E y \<Longrightarrow> x = y"
    and "normalise (it_pattern a) @ [CHR 0x1F] @ normalise (it_trigger a) \<in> joined"
    and "normalise (it_pattern b) @ [CHR 0x1F] @ normalise (it_trigger b) \<in> joined"
  shows "fingerprint E a = fingerprint E b \<longleftrightarrow>
    normalise (it_pattern a) = normalise (it_pattern b) \<and> normalise (it_trigger a) = normalise (it_trigger b)"
  using assms(1) [OF assms(2,3)] append_separator_inj [OF normalise_no_separator normalise_no_separator]
  by (auto simp: fingerprint_def)

section \<open>The mean of doubles\<close>

lemma to_doubleI:
  assumes "2 ^ 52 \<le> q * 2 ^ e" and "q * 2 ^ e < 2 ^ 53" and "e < 1075"
  shows "to_double q = of_int (round_half_even (q * 2 ^ e)) / 2 ^ e"
proof -
  have "e' = e" if "2 ^ 52 \<le> q * 2 ^ e'" "q * 2 ^ e' < 2 ^ 53" for e'
  proof (rule ccontr)
    have q: "0 < q"
      using assms(1) by (metis le_less_trans linorder_not_le mult_nonpos_nonneg not_less zero_le_numeral zero_le_power zero_less_numeral zero_less_power)
    have double: "2 * (q * 2 ^ i) \<le> q * 2 ^ j" if "i < j" for i j :: nat
    proof -
      have "(2 :: rat) ^ Suc i \<le> 2 ^ j" using that by (intro power_increasing) auto
      then show ?thesis using q by (simp add: mult.left_commute)
    qed
    assume "e' \<noteq> e"
    then consider "e' < e" | "e < e'" by linarith
    then show False
    proof cases
      case 1
      with double [of e' e] that(1) assms(2) show False by simp
    next
      case 2
      with double [of e e'] that(2) assms(1) show False by simp
    qed
  qed
  moreover have "double_exponent q \<noteq> None"
    using assms by (auto simp: double_exponent_def find_None_all)
  ultimately have "double_exponent q = Some e"
    unfolding double_exponent_def by (metis (no_types, lifting) find_Some_mem option.exhaust)
  then show ?thesis by (simp add: to_double_def)
qed

lemma round_half_evenI:
  assumes "of_int m - 1 / 2 < q" and "q < of_int m + 1 / 2"
  shows "round_half_even q = m"
proof -
  have "\<lfloor>q\<rfloor> = m \<or> \<lfloor>q\<rfloor> = m - 1" using assms by linarith
  then show ?thesis using assms by (auto simp: round_half_even_def Let_def)
qed

lemma to_double_nearest:
  assumes "2 ^ 52 \<le> q * 2 ^ e" and "q * 2 ^ e < 2 ^ 53" and "e < 1075"
    and "of_int m - 1 / 2 < q * 2 ^ e" and "q * 2 ^ e < of_int m + 1 / 2"
  shows "to_double q = of_int m / 2 ^ e"
  using to_doubleI [OF assms(1-3)] round_half_evenI [OF assms(4,5)] by simp

lemma ceiling_value: "CONFIDENCE_CEILING = 8106479329266893 / 9007199254740992"
  unfolding CONFIDENCE_CEILING_def using to_double_nearest [of "9 / 10" 53 8106479329266893] by simp

lemma ceiling_sums:
  shows "to_double (8106479329266893 / 4503599627370496) = 8106479329266893 / 4503599627370496"
  and "to_double (24319437987800679 / 9007199254740992) = 3039929748475085 / 1125899906842624"
  and "to_double (32425917317067573 / 9007199254740992) = 8106479329266893 / 2251799813685248"
  and "to_double (40532396646334465 / 9007199254740992) = 9 / 2"
  and "to_double (48638875975601357 / 9007199254740992) = 3039929748475085 / 562949953421312"
  and "to_double (56745355304868253 / 9007199254740992) = 1773292353277133 / 281474976710656"
proof -
  show "to_double (8106479329266893 / 4503599627370496) = 8106479329266893 / 4503599627370496" using to_double_nearest [of "8106479329266893 / 4503599627370496" 52 8106479329266893] by simp
  show "to_double (24319437987800679 / 9007199254740992) = 3039929748475085 / 1125899906842624" using to_double_nearest [of "24319437987800679 / 9007199254740992" 51 6079859496950170] by simp
  show "to_double (32425917317067573 / 9007199254740992) = 8106479329266893 / 2251799813685248" using to_double_nearest [of "32425917317067573 / 9007199254740992" 51 8106479329266893] by simp
  show "to_double (40532396646334465 / 9007199254740992) = 9 / 2" using to_double_nearest [of "40532396646334465 / 9007199254740992" 50 5066549580791808] by simp
  show "to_double (48638875975601357 / 9007199254740992) = 3039929748475085 / 562949953421312" using to_double_nearest [of "48638875975601357 / 9007199254740992" 50 6079859496950170] by simp
  show "to_double (56745355304868253 / 9007199254740992) = 1773292353277133 / 281474976710656" using to_double_nearest [of "56745355304868253 / 9007199254740992" 50 7093169413108532] by simp
qed

lemma float_sum_ceiling: "float_sum (replicate 7 CONFIDENCE_CEILING) = 1773292353277133 / 281474976710656"
proof -
  have first: "to_double (8106479329266893 / 9007199254740992) = 8106479329266893 / 9007199254740992"
    using to_double_nearest [of "8106479329266893 / 9007199254740992" 53 8106479329266893] by simp
  show ?thesis by (simp add: float_sum_def ceiling_value numeral_eq_Suc first ceiling_sums)
qed

text \<open>
  Seven observations at the ceiling have a mean above it: adding seven times the double 0.9
  and dividing by seven gives a double greater than 0.9.
\<close>

lemma float_mean_above_ceiling: "CONFIDENCE_CEILING < float_mean (replicate 7 CONFIDENCE_CEILING)"
proof -
  have "float_mean (replicate 7 CONFIDENCE_CEILING) = 4053239664633447 / 4503599627370496"
    using to_double_nearest [of "1773292353277133 / 1970324836974592" 53 8106479329266894] by (simp add: float_mean_def float_sum_ceiling)
  then show ?thesis by (simp add: ceiling_value)
qed


section \<open>Decisions\<close>

text \<open>The exact condition of eligibility, on the list of observations found.\<close>

lemma check_promotion_iff:
  assumes "matching E fs fp = ms"
  shows "check_promotion E fp fs tp tc = Inr d \<longleftrightarrow>
    length fp = 64 \<and> 1 \<le> tp \<and> CONFIDENCE_FLOOR \<le> tc \<and> tc \<le> CONFIDENCE_CEILING \<and>
    (let avg = (if ms = [] then 0 else float_mean (map (it_confidence \<circ> ir_instinct) ms));
         projects = sort (remdups (map ir_project_id ms)) in
     0 \<le> avg \<and> avg \<le> CONFIDENCE_CEILING \<and>
     d = \<lparr>pd_fingerprint = fp, pd_projects_seen = projects, pd_observations = length ms, pd_avg_confidence = avg,
       pd_threshold_projects = tp, pd_threshold_confidence = tc,
       pd_eligible = (ms \<noteq> [] \<and> tp \<le> int (length projects) \<and> tc \<le> avg),
       pd_reasons = (if ms = [] then [''no_observations''] else
         (if int (length projects) < tp then [''threshold_not_met''] else []) @
         (if avg < tc then [''confidence_below_floor''] else []))\<rparr>)"
proof -
  have zero: "0 \<le> CONFIDENCE_CEILING" by (simp add: ceiling_value)
  show ?thesis
    by (cases "ms = []") (auto simp: check_promotion_def assms Let_def validate_promotion_def zero not_le not_less)
qed

lemma check_promotion_error: "check_promotion E fp fs tp tc = Inl e \<Longrightarrow> e = Validation_error"
  by (auto simp: check_promotion_def Let_def validate_promotion_def split: if_splits)

lemma ceiling_raises:
  assumes "map (it_confidence \<circ> ir_instinct) (matching E fs fp) = replicate 7 CONFIDENCE_CEILING"
  shows "check_promotion E fp fs tp tc = Inl Validation_error"
proof -
  have ne: "matching E fs fp \<noteq> []" using assms by auto
  show ?thesis
  proof (cases "check_promotion E fp fs tp tc")
    case (Inl e)
    then show ?thesis using check_promotion_error by simp
  next
    case (Inr d)
    then show ?thesis
      using check_promotion_iff [of E fs fp _ tp tc d, OF refl] float_mean_above_ceiling ne by (simp add: assms Let_def)
  qed
qed

section \<open>What the store returns\<close>

lemma mset_filter_by_key:
  "distinct ks \<Longrightarrow> mset (concat (map (\<lambda>k. filter (\<lambda>x. f x = k) xs) ks)) = filter_mset (\<lambda>x. f x \<in> set ks) (mset xs)"
proof (induction ks)
  case (Cons k ks)
  have "filter_mset (\<lambda>x. f x = k \<or> f x \<in> set ks) M = filter_mset (\<lambda>x. f x = k) M + filter_mset (\<lambda>x. f x \<in> set ks) M" for M
    using Cons.prems by (induction M) auto
  then show ?case using Cons by simp
qed simp

definition key_of :: "instinct_record \<Rightarrow> string \<times> string" where
  "key_of r = (ir_project_id r, ir_run_id r)"

definition record_all :: "instinct_env \<Rightarrow> instinct_record list \<Rightarrow> instinct_files \<Rightarrow> instinct_files" where
  "record_all E obs fs = fold (\<lambda>r fs. run_state (store_record E (key_of r) r) fs) obs fs"

text \<open>What is needed of the JSON line: it reads back, and it has no blanks at its ends and is not empty.\<close>

definition line_ok :: "instinct_env \<Rightarrow> instinct_record \<Rightarrow> bool" where
  "line_ok E r = (ie_load E (ie_dump E r) = Some r \<and> ie_dump E r \<noteq> [] \<and> no_edge_space (ie_dump E r))"

lemma file_lines_update: "file_lines (AList.update k v fs) key = (if key = k then v else file_lines fs key)"
  by (simp add: file_lines_def dict_simps)

lemma record_all_snoc: "record_all E (obs @ [r]) fs =
    AList.update (key_of r) (file_lines (record_all E obs fs) (key_of r) @ [ie_dump E r]) (record_all E obs fs)"
  by (simp add: record_all_def store_record_def key_of_def)

lemma record_all_lines: "file_lines (record_all E obs []) key = map (ie_dump E) (filter (\<lambda>r. key_of r = key) obs)"
proof (induction obs arbitrary: key rule: rev_induct)
  case Nil
  then show ?case by (simp add: record_all_def file_lines_def)
next
  case (snoc r obs)
  then show ?case by (simp add: record_all_snoc file_lines_update)
qed

lemma record_all_keys: "fst ` set (record_all E obs []) = key_of ` set obs"
proof (induction obs rule: rev_induct)
  case Nil
  then show ?case by (simp add: record_all_def)
next
  case (snoc r obs)
  then show ?case by (simp add: record_all_snoc dom_update)
qed

lemma loaded_lines:
  assumes "\<forall>r \<in> set rs. line_ok E r"
  shows "List.map_filter (ie_load E) (nonblank_lines (map (ie_dump E) rs)) = rs"
  using assms by (induction rs) (auto simp: nonblank_lines_def line_ok_def py_strip_id map_filter_simps)

lemma project_records_recorded:
  assumes "\<forall>r \<in> set obs. line_ok E r"
  shows "mset (project_records E (record_all E obs []) p) = mset (filter (\<lambda>r. ir_project_id r = p) obs)"
proof -
  let ?fs = "record_all E obs []"
  let ?runs = "sort_key (\<lambda>run. run @ ''.jsonl'') (remdups (map (snd \<circ> fst) (filter (\<lambda>f. fst (fst f) = p) ?fs)))"
  let ?obs = "filter (\<lambda>r. ir_project_id r = p) obs"
  have lines: "List.map_filter (ie_load E) (nonblank_lines (file_lines ?fs (p, run))) = filter (\<lambda>r. ir_run_id r = run) ?obs" for run
  proof -
    have "filter (\<lambda>r. key_of r = (p, run)) obs = filter (\<lambda>r. ir_run_id r = run) ?obs"
      by (auto simp: key_of_def conj_commute intro: filter_cong)
    then show ?thesis using loaded_lines [of "filter (\<lambda>r. key_of r = (p, run)) obs" E] assms
      record_all_lines [of E obs "(p, run)"] by simp
  qed
  have runs: "set ?runs = ir_run_id ` set ?obs"
  proof -
    have "set ?runs = snd ` {k \<in> fst ` set ?fs. fst k = p}" by force
    also have "\<dots> = ir_run_id ` set ?obs" unfolding record_all_keys by (force simp: key_of_def)
    finally show ?thesis .
  qed
  have "mset (project_records E ?fs p) = mset (concat (map (\<lambda>run. filter (\<lambda>r. ir_run_id r = run) ?obs) ?runs))"
    unfolding project_records_def lines by simp
  also have "\<dots> = filter_mset (\<lambda>r. ir_run_id r \<in> set ?runs) (mset ?obs)" by (rule mset_filter_by_key) simp
  also have "\<dots> = mset ?obs" unfolding runs by (simp add: filter_mset_eq_conv)
  finally show ?thesis .
qed

lemma iter_root_recorded:
  assumes "\<forall>r \<in> set obs. line_ok E r"
  shows "mset (iter_root E (record_all E obs [])) = mset obs"
proof -
  let ?fs = "record_all E obs []"
  let ?ps = "sort (remdups (map (fst \<circ> fst) ?fs))"
  have ps: "set ?ps = ir_project_id ` set obs"
  proof -
    have "set ?ps = fst ` fst ` set ?fs" by (simp add: image_comp)
    then show ?thesis unfolding record_all_keys by (force simp: key_of_def)
  qed
  have "mset (concat (map (project_records E ?fs) qs)) = mset (concat (map (\<lambda>p. filter (\<lambda>r. ir_project_id r = p) obs) qs))" for qs
    by (induction qs) (simp_all add: project_records_recorded [OF assms])
  then have "mset (iter_root E ?fs) = mset (concat (map (\<lambda>p. filter (\<lambda>r. ir_project_id r = p) obs) ?ps))"
    by (simp add: iter_root_def)
  also have "\<dots> = filter_mset (\<lambda>r. ir_project_id r \<in> set ?ps) (mset obs)" by (rule mset_filter_by_key) simp
  also have "\<dots> = mset obs" unfolding ps by (simp add: filter_mset_eq_conv)
  finally show ?thesis .
qed


text \<open>
  The decision counts every observation once: after any observations were recorded, each in
  the store of its own project and run, a decision that is returned counts exactly the observations
  with that fingerprint, lists their projects in order without repetition, and calls the instinct
  eligible if and only if there is one, the projects reach the threshold, and the mean of exactly these
  confidences, in some order, reaches the other.
\<close>

theorem promotion_counts_recorded:
  assumes "\<forall>r \<in> set obs. line_ok E r"
    and "check_promotion E fp (record_all E obs []) tp tc = Inr d"
  shows "\<exists>ms. mset ms = {#r \<in># mset obs. fingerprint E (ir_instinct r) = fp#} \<and>
    pd_observations d = length ms \<and> sorted (pd_projects_seen d) \<and> distinct (pd_projects_seen d) \<and>
    set (pd_projects_seen d) = ir_project_id ` set ms \<and>
    (pd_eligible d \<longleftrightarrow> ms \<noteq> [] \<and> tp \<le> int (card (ir_project_id ` set ms)) \<and>
      tc \<le> float_mean (map (it_confidence \<circ> ir_instinct) ms))"
proof -
  let ?ms = "matching E (record_all E obs []) fp"
  have "mset ?ms = {#r \<in># mset obs. fingerprint E (ir_instinct r) = fp#}"
    by (simp add: matching_def iter_root_recorded [OF assms(1)])
  moreover have "length (sort (remdups (map ir_project_id ?ms))) = card (ir_project_id ` set ?ms)"
    by (metis length_remdups_card_conv length_sort list.set_map)
  ultimately show ?thesis
    using check_promotion_iff [of E "record_all E obs []" fp _ tp tc d, OF refl] assms(2)
    by (intro exI [of _ ?ms]) (auto simp: Let_def)
qed

section \<open>The sweep\<close>

definition promotable :: "instinct_env \<Rightarrow> instinct_files \<Rightarrow> string \<Rightarrow> bool" where
  "promotable E fs fp = (\<exists>d. check_promotion E fp fs PROMOTION_THRESHOLD_PROJECTS PROMOTION_MIN_CONFIDENCE = Inr d \<and> pd_eligible d)"

definition refused :: "instinct_env \<Rightarrow> instinct_files \<Rightarrow> string \<Rightarrow> bool" where
  "refused E fs fp = (\<exists>e. check_promotion E fp fs PROMOTION_THRESHOLD_PROJECTS PROMOTION_MIN_CONFIDENCE = Inl e)"

lemma sweep_fingerprints_spec:
  assumes "distinct (map ee_fingerprint es)" and "set (map ee_fingerprint es) = {fp \<in> set seen. promotable E fs fp}"
  shows "case sweep_fingerprints E fs p fps (seen, es) of
      Inl e \<Rightarrow> e = Validation_error \<and> (\<exists>fp \<in> set fps. refused E fs fp)
    | Inr (seen', es') \<Rightarrow> set seen' = set seen \<union> set fps \<and> (\<forall>fp \<in> set fps. fp \<in> set seen \<or> \<not> refused E fs fp) \<and>
        distinct (map ee_fingerprint es') \<and> set (map ee_fingerprint es') = {fp \<in> set seen'. promotable E fs fp}"
  using assms
proof (induction fps arbitrary: seen es)
  case (Cons fp fps)
  show ?case
  proof (cases "fp \<in> set seen")
    case True
    with Cons.IH [OF Cons.prems] show ?thesis by (auto split: sum.splits prod.splits)
  next
    case new: False
    let ?c = "check_promotion E fp fs PROMOTION_THRESHOLD_PROJECTS PROMOTION_MIN_CONFIDENCE"
    show ?thesis
    proof (cases ?c)
      case (Inl e)
      then show ?thesis using new check_promotion_error [OF Inl] by (auto simp: refused_def)
    next
      case (Inr d)
      let ?es = "if pd_eligible d then es @ [\<lparr>ee_project_id = p, ee_fingerprint = fp, ee_decision = d\<rparr>] else es"
      have prom: "promotable E fs fp \<longleftrightarrow> pd_eligible d" and ok: "\<not> refused E fs fp"
        using Inr by (auto simp: promotable_def refused_def)
      have "distinct (map ee_fingerprint ?es)" using Cons.prems new by auto
      moreover have "set (map ee_fingerprint ?es) = {x \<in> set (fp # seen). promotable E fs x}"
        using Cons.prems new prom by auto
      ultimately show ?thesis using Cons.IH [of ?es "fp # seen"] new Inr ok
        by (auto split: sum.splits prod.splits)
    qed
  qed
qed simp

lemma sweep_projects_spec:
  assumes "distinct (map ee_fingerprint es)" and "set (map ee_fingerprint es) = {fp \<in> set seen. promotable E fs fp}"
    and "\<forall>fp \<in> set seen. \<not> refused E fs fp"
  shows "case sweep_projects E fs ps (seen, es) of
      Inl e \<Rightarrow> e = Validation_error \<and> (\<exists>p \<in> set ps. \<exists>fp \<in> set (collect_project_fingerprints E p fs). refused E fs fp)
    | Inr (seen', es') \<Rightarrow> set seen' = set seen \<union> (\<Union>p \<in> set ps. set (collect_project_fingerprints E p fs)) \<and>
        (\<forall>fp \<in> set seen'. \<not> refused E fs fp) \<and>
        distinct (map ee_fingerprint es') \<and> set (map ee_fingerprint es') = {fp \<in> set seen'. promotable E fs fp}"
  using assms
proof (induction ps arbitrary: seen es)
  case (Cons p ps)
  note step = sweep_fingerprints_spec [OF Cons.prems(1,2), where p = p and fps = "collect_project_fingerprints E p fs"]
  show ?case
  proof (cases "sweep_fingerprints E fs p (collect_project_fingerprints E p fs) (seen, es)")
    case (Inl e)
    then show ?thesis using step by auto
  next
    case (Inr acc)
    obtain seen1 es1 where acc: "acc = (seen1, es1)" by fastforce
    have s1: "set seen1 = set seen \<union> set (collect_project_fingerprints E p fs)" "distinct (map ee_fingerprint es1)"
      "set (map ee_fingerprint es1) = {fp \<in> set seen1. promotable E fs fp}" "\<forall>fp \<in> set seen1. \<not> refused E fs fp"
      using step Cons.prems(3) unfolding Inr acc by auto
    from Cons.IH [OF s1(2-4)] s1(1) show ?thesis unfolding sweep_projects.simps Inr acc by (auto split: sum.splits prod.splits)
  qed
qed simp

text \<open>
  The sweep finds exactly the promotable instincts or fails as a whole: it raises if and only
  if the decision on some fingerprint of a listed project is refused; otherwise it returns one entry
  for each fingerprint of these projects that is eligible, and no other.
\<close>

theorem sweep_exact:
  "case sweep_project_promotions E ps fs of
     Inl e \<Rightarrow> \<exists>p \<in> set ps. \<exists>fp \<in> set (collect_project_fingerprints E p fs). refused E fs fp
   | Inr es \<Rightarrow> (\<forall>p \<in> set ps. \<forall>fp \<in> set (collect_project_fingerprints E p fs). \<not> refused E fs fp) \<and>
       distinct (map ee_fingerprint es) \<and>
       set (map ee_fingerprint es) = {fp \<in> (\<Union>p \<in> set ps. set (collect_project_fingerprints E p fs)). promotable E fs fp}"
  using sweep_projects_spec [where es = "[]" and seen = "[]" and E = E and fs = fs and ps = ps]
  by (auto simp: sweep_project_promotions_def rbind_def split: sum.splits prod.splits)

lemma sweep_raises:
  assumes "p \<in> set ps" and "fp \<in> set (collect_project_fingerprints E p fs)" and "refused E fs fp"
  shows "\<exists>e. sweep_project_promotions E ps fs = Inl e"
  using assms sweep_projects_spec [where es = "[]" and seen = "[]" and E = E and fs = fs and ps = ps]
  by (auto simp: sweep_project_promotions_def rbind_def split: sum.splits prod.splits)

text \<open>
  Full corroboration stops every promotion: once an instinct of an active project was
  observed seven times at the highest confidence, its mean, computed in doubles, exceeds the bound that
  the decision is validated against, so \<open>check_promotion\<close> raises for all thresholds and the sweep over
  the active projects raises with it, whatever else is eligible.
\<close>

theorem full_corroboration_stops_promotion:
  assumes "map (it_confidence \<circ> ir_instinct) (matching E fs fp) = replicate 7 CONFIDENCE_CEILING"
    and "p \<in> set ps" and "fp \<in> set (collect_project_fingerprints E p fs)"
  shows "check_promotion E fp fs tp tc = Inl Validation_error \<and> (\<exists>e. sweep_project_promotions E ps fs = Inl e)"
  using ceiling_raises [OF assms(1)] sweep_raises [OF assms(2,3)] by (auto simp: refused_def)


section \<open>Example\<close>

definition demo_instinct :: "rat \<Rightarrow> instinct" where
  "demo_instinct c = \<lparr>it_pattern = ''Run  tests'', it_trigger = ''edit'', it_rationale = ''why'', it_confidence = c\<rparr>"

definition demo_observation :: "rat \<Rightarrow> string \<Rightarrow> instinct_record" where
  "demo_observation c p = \<lparr>ir_record_id = [], ir_instinct = demo_instinct c, ir_project_id = p, ir_run_id = ''r'', ir_actor = ''qa'',
     ir_observed_at = 0, ir_audit_hash = None, ir_notes = None\<rparr>"

definition demo_instinct_env :: "rat \<Rightarrow> instinct_env" where
  "demo_instinct_env c = \<lparr>ie_sha = (\<lambda>x. take 64 (x @ replicate 64 (CHR ''0''))), ie_dump = ir_project_id,
     ie_load = (\<lambda>l. Some (demo_observation c l)), ie_two_decimals = (\<lambda>_. [])\<rparr>"

definition demo_fingerprint :: string where
  "demo_fingerprint = fingerprint (demo_instinct_env 0) (demo_instinct 0)"

lemma demo_fingerprint_eq: "fingerprint (demo_instinct_env c) (demo_instinct c') = demo_fingerprint"
  by (simp add: demo_fingerprint_def fingerprint_def demo_instinct_env_def demo_instinct_def)

lemma demo_fingerprint_length: "length demo_fingerprint = 64"
  by (simp add: demo_fingerprint_def fingerprint_def demo_instinct_env_def)

lemma demo_line_ok: "p \<in> {''p'', ''q''} \<Longrightarrow> line_ok (demo_instinct_env c) (demo_observation c p)"
  by (auto simp: line_ok_def demo_instinct_env_def demo_observation_def no_edge_space_def py_space_def)

lemma demo_matching:
  assumes "\<forall>r \<in> set obs. r \<in> demo_observation c ` {''p'', ''q''}"
  shows "mset (matching (demo_instinct_env c) (record_all (demo_instinct_env c) obs []) demo_fingerprint) = mset obs"
proof -
  let ?E = "demo_instinct_env c"
  have "\<forall>r \<in> set obs. line_ok ?E r" using assms by (auto simp: demo_line_ok)
  then have "mset (iter_root ?E (record_all ?E obs [])) = mset obs" by (rule iter_root_recorded)
  moreover have "\<forall>r \<in> set obs. fingerprint ?E (ir_instinct r) = demo_fingerprint"
    using assms by (auto simp: demo_observation_def demo_fingerprint_eq)
  ultimately show ?thesis by (simp add: matching_def filter_mset_eq_conv)
qed

lemma demo_collect:
  assumes "\<forall>r \<in> set obs. r \<in> demo_observation c ` {''p'', ''q''}"
  shows "set (collect_project_fingerprints (demo_instinct_env c) p (record_all (demo_instinct_env c) obs [])) =
    (if p \<in> ir_project_id ` set obs then {demo_fingerprint} else {})"
proof -
  let ?E = "demo_instinct_env c"
  have "\<forall>r \<in> set obs. line_ok ?E r" using assms by (auto simp: demo_line_ok)
  then have "set (project_records ?E (record_all ?E obs []) p) = set (filter (\<lambda>r. ir_project_id r = p) obs)"
    using project_records_recorded by (metis set_mset_mset)
  moreover have "\<forall>r \<in> set obs. fingerprint ?E (ir_instinct r) = demo_fingerprint"
    using assms by (auto simp: demo_observation_def demo_fingerprint_eq)
  ultimately show ?thesis by (auto simp: collect_project_fingerprints_def)
qed

theorem fingerprint_identifies_witness:
  "fingerprint \<lparr>ie_sha = id, ie_dump = (\<lambda>_. []), ie_load = (\<lambda>_. None), ie_two_decimals = (\<lambda>_. [])\<rparr> (demo_instinct 0) =
   fingerprint \<lparr>ie_sha = id, ie_dump = (\<lambda>_. []), ie_load = (\<lambda>_. None), ie_two_decimals = (\<lambda>_. [])\<rparr>
     ((demo_instinct 1)\<lparr>it_pattern := '' run tests''\<rparr>)"
proof -
  have "normalise ''Run  tests'' = normalise '' run tests''" by code_simp
  then show ?thesis
    by (subst fingerprint_identifies [where joined = UNIV]) (simp_all add: demo_instinct_def)
qed

theorem full_corroboration_stops_promotion_witness:
  "let E = demo_instinct_env CONFIDENCE_CEILING;
       fs = record_all E (replicate 7 (demo_observation CONFIDENCE_CEILING ''p'')) [] in
   check_promotion E demo_fingerprint fs 1 PROMOTION_MIN_CONFIDENCE = Inl Validation_error \<and>
   (\<exists>e. sweep_project_promotions E [''p''] fs = Inl e)"
proof -
  let ?E = "demo_instinct_env CONFIDENCE_CEILING" and ?r = "demo_observation CONFIDENCE_CEILING ''p''"
  let ?fs = "record_all ?E (replicate 7 ?r) []"
  have m: "mset (matching ?E ?fs demo_fingerprint) = mset (replicate 7 ?r)" by (rule demo_matching) simp
  then have "matching ?E ?fs demo_fingerprint = replicate 7 ?r"
    using mset_eq_length [OF m] mset_eq_setD [OF m] by (intro replicate_eqI) (simp_all only: length_replicate, auto)
  then have "map (it_confidence \<circ> ir_instinct) (matching ?E ?fs demo_fingerprint) = replicate 7 CONFIDENCE_CEILING"
    by (simp add: demo_observation_def demo_instinct_def)
  moreover have "demo_fingerprint \<in> set (collect_project_fingerprints ?E ''p'' ?fs)"
    by (subst demo_collect) (auto simp: demo_observation_def)
  ultimately show ?thesis
    using full_corroboration_stops_promotion [where E = ?E and fs = ?fs and fp = demo_fingerprint and p = "''p''" and ps = "[''p'']"] by (simp add: Let_def)
qed

definition demo_pair :: "instinct_record list" where
  "demo_pair = [demo_observation (1 / 2) ''p'', demo_observation (1 / 2) ''q'']"

lemma demo_pair_obs: "\<forall>r \<in> set demo_pair. r \<in> demo_observation (1 / 2) ` {''p'', ''q''}"
  by (simp add: demo_pair_def)

lemma demo_pair_promotable:
  "\<exists>d. check_promotion (demo_instinct_env (1 / 2)) demo_fingerprint (record_all (demo_instinct_env (1 / 2)) demo_pair [])
     PROMOTION_THRESHOLD_PROJECTS PROMOTION_MIN_CONFIDENCE = Inr d \<and> pd_eligible d"
proof -
  let ?ms = "matching (demo_instinct_env (1 / 2)) (record_all (demo_instinct_env (1 / 2)) demo_pair []) demo_fingerprint"
  have m: "mset ?ms = mset demo_pair" by (rule demo_matching [OF demo_pair_obs])
  then have set_ms: "set ?ms = set demo_pair" by (rule mset_eq_setD)
  have len: "length ?ms = 2" using mset_eq_length [OF m] by (simp add: demo_pair_def)
  have "map (it_confidence \<circ> ir_instinct) ?ms = replicate 2 (1 / 2)"
    using set_ms len by (intro replicate_eqI) (auto simp: demo_pair_def demo_observation_def demo_instinct_def)
  moreover have "float_mean (replicate 2 (1 / 2)) = 1 / 2"
  proof -
    have half: "to_double (1 / 2) = 1 / 2" using to_double_nearest [of "1 / 2" 53 4503599627370496] by simp
    have one: "to_double 1 = 1" using to_double_nearest [of 1 52 4503599627370496] by simp
    show ?thesis by (simp add: float_mean_def float_sum_def numeral_2_eq_2 half one)
  qed
  moreover have "CONFIDENCE_FLOOR \<le> 1 / 2"
    unfolding CONFIDENCE_FLOOR_def using to_double_nearest [of "3 / 10" 54 5404319552844595] by simp
  moreover have "length (sort (remdups (map ir_project_id ?ms))) = 2"
  proof -
    have "card (set (map ir_project_id ?ms)) = 2"
      using set_ms by (simp add: demo_pair_def demo_observation_def)
    then show ?thesis by (simp only: length_sort length_remdups_card_conv)
  qed
  moreover have "?ms \<noteq> []" using len by auto
  ultimately show ?thesis
    unfolding check_promotion_iff [OF refl]
    by (simp add: demo_fingerprint_length PROMOTION_THRESHOLD_PROJECTS_def PROMOTION_MIN_CONFIDENCE_def ceiling_value Let_def)
qed

theorem promotion_counts_recorded_witness:
  "\<exists>d. check_promotion (demo_instinct_env (1 / 2)) demo_fingerprint (record_all (demo_instinct_env (1 / 2)) demo_pair [])
     PROMOTION_THRESHOLD_PROJECTS PROMOTION_MIN_CONFIDENCE = Inr d \<and> pd_eligible d \<and> pd_observations d = 2"
proof -
  let ?E = "demo_instinct_env (1 / 2)"
  obtain d where d: "check_promotion ?E demo_fingerprint (record_all ?E demo_pair [])
     PROMOTION_THRESHOLD_PROJECTS PROMOTION_MIN_CONFIDENCE = Inr d" "pd_eligible d" using demo_pair_promotable by blast
  have ok: "\<forall>r \<in> set demo_pair. line_ok ?E r" by (simp add: demo_pair_def demo_line_ok)
  have "{#r \<in># mset demo_pair. fingerprint ?E (ir_instinct r) = demo_fingerprint#} = mset demo_pair"
    by (simp add: demo_pair_def demo_observation_def demo_fingerprint_eq)
  with promotion_counts_recorded [OF ok d(1)] obtain ms where ms: "mset ms = mset demo_pair" "pd_observations d = length ms" by auto
  have "pd_observations d = length demo_pair" using ms(2) mset_eq_length [OF ms(1)] by simp
  then have "pd_observations d = 2" by (simp add: demo_pair_def)
  with d show ?thesis by blast
qed

theorem sweep_exact_witness:
  "\<exists>es. sweep_project_promotions (demo_instinct_env (1 / 2)) [''p'', ''q''] (record_all (demo_instinct_env (1 / 2)) demo_pair []) = Inr es \<and>
     length es = 1"
proof -
  let ?E = "demo_instinct_env (1 / 2)"
  let ?fs = "record_all ?E demo_pair []"
  have fps: "set (collect_project_fingerprints ?E p ?fs) = {demo_fingerprint}" if "p \<in> {''p'', ''q''}" for p
    using that by (subst demo_collect [OF demo_pair_obs]) (auto simp: demo_pair_def demo_observation_def)
  have p: "promotable ?E ?fs demo_fingerprint" "\<not> refused ?E ?fs demo_fingerprint"
    using demo_pair_promotable by (auto simp: promotable_def refused_def)
  show ?thesis
  proof (cases "sweep_project_promotions ?E [''p'', ''q''] ?fs")
    case (Inl e)
    with sweep_exact [where E = ?E and ps = "[''p'', ''q'']" and fs = ?fs] fps p show ?thesis by simp
  next
    case (Inr es)
    with sweep_exact [where E = ?E and ps = "[''p'', ''q'']" and fs = ?fs] fps p
    have "distinct (map ee_fingerprint es)" "set (map ee_fingerprint es) = {demo_fingerprint}" by auto
    then have "length (map ee_fingerprint es) = 1" by (metis distinct_card is_singletonI is_singleton_altdef)
    with Inr show ?thesis by simp
  qed
qed

end
