(* ===== verification/Decision_Cards.thy ===== *)
theory Decision_Cards
  imports Audit_Record Regex
begin

text \<open>
  The queue of decision cards, \<open>shared/api/routes/decisions.py\<close>: a write-through cache over the table
  \<open>spine_lifecycle.decision_card\<close>, the stream of events to subscribers, and the acknowledgement and
  rejection of cards. Background tasks that an operation starts (the hooks of \<open>_post_ack.py\<close>) are
  recorded in the order in which they are created, as is the write that \<open>put\<close> leaves to one. \<open>ce_uuid\<close> is \<open>str(uuid.UUID(s))\<close>, \<open>ce_db_up\<close> says
  whether statements succeed, \<open>ce_project\<close> which project ids the foreign key accepts. Times are
  microseconds, and text that is a number has ASCII digits only. Every row is written by this store, so
  the defensive branches for other column types are not taken; the table keeps a JSON object with its
  keys in the order written.
\<close>

section \<open>Cards\<close>

datatype card_status = Card_pending | Card_acked | Card_rejected | Card_superseded | Card_expired

record decision_card =
  dc_decision_id :: string
  dc_decision_class :: string
  dc_project_id :: "string option"
  dc_title :: string
  dc_body :: string
  dc_severity :: string
  dc_actions :: "string list"
  dc_status :: card_status
  dc_created_at :: time
  dc_expires_at :: "time option"
  dc_metadata :: "(string \<times> json) list"
  dc_citations :: "json list"

record card_row =
  cw_id :: string
  cw_project_id :: "int option"
  cw_kind :: string
  cw_title :: string
  cw_body :: string
  cw_severity :: string
  cw_status :: card_status
  cw_pushed_at :: time
  cw_decided_at :: "time option"
  cw_decided_by :: "string option"
  cw_expires_at :: "time option"
  cw_citations :: "json list"
  cw_metadata :: "(string \<times> json) list"

datatype card_event = Card_created decision_card | Card_updated decision_card | Plain_event "(string \<times> json) list"

datatype card_task = On_acked decision_card string | On_rejected decision_card string | Persist_later decision_card

record decision_store =
  ds_cards :: "(string, decision_card) dict"
  ds_events :: "card_event list"
  ds_subscribers :: "(nat \<times> card_event list) list"
  ds_db :: bool
  ds_table :: "card_row list"
  ds_tasks :: "card_task list"

record card_env =
  ce_uuid :: "string \<Rightarrow> string option"
  ce_db_up :: bool
  ce_project :: "int \<Rightarrow> bool"
  ce_now :: time
  ce_fresh_hex :: string
  ce_str :: "json \<Rightarrow> string"
  ce_codec :: audit_codec
  ce_event_uuid :: uuid

definition DEFAULT_ACTIONS :: "string list" where
  "DEFAULT_ACTIONS = [''ack'', ''reject'']"

definition card_list_view :: "decision_card \<Rightarrow> decision_card" where
  "card_list_view cd = cd\<lparr>dc_body := [],
     dc_metadata := (if dc_body cd \<noteq> [] \<and> map_of (dc_metadata cd) ''body_chars'' = None
       then dc_metadata cd @ [(''body_chars'', JInt (int (length (dc_body cd))))] else dc_metadata cd)\<rparr>"

text \<open>\<open>str\<close> of a JSON value, given for what is not a string.\<close>

definition meta_uuid :: "card_env \<Rightarrow> (string \<times> json) list \<Rightarrow> string option" where
  "meta_uuid E meta = (case map_of meta ''project_uuid'' of
     None \<Rightarrow> None | Some JNull \<Rightarrow> None | Some (JStr s) \<Rightarrow> Some s | Some j \<Rightarrow> Some (ce_str E j))"

definition str_integer :: "int \<Rightarrow> string" where
  "str_integer i = (if i < 0 then ''-'' @ str_nat (nat (- i)) else str_nat (nat i))"

definition row_to_card :: "card_env \<Rightarrow> card_row \<Rightarrow> decision_card" where
  "row_to_card E row = \<lparr>dc_decision_id = cw_id row,
     dc_decision_class = (if cw_kind row = [] then ''approval'' else cw_kind row),
     dc_project_id = (case cw_project_id row of Some i \<Rightarrow> Some (str_integer i) | None \<Rightarrow> meta_uuid E (cw_metadata row)),
     dc_title = cw_title row, dc_body = cw_body row,
     dc_severity = (if cw_severity row = [] then ''info'' else cw_severity row),
     dc_actions = DEFAULT_ACTIONS, dc_status = cw_status row, dc_created_at = cw_pushed_at row,
     dc_expires_at = cw_expires_at row, dc_metadata = cw_metadata row, dc_citations = cw_citations row\<rparr>"

section \<open>The table\<close>

definition isdigit :: "string \<Rightarrow> bool" where
  "isdigit s = (s \<noteq> [] \<and> list_all re_digit s)"

definition card_row_of :: "string \<Rightarrow> decision_card \<Rightarrow> card_row" where
  "card_row_of uuid_str cd = \<lparr>cw_id = uuid_str,
     cw_project_id = (case dc_project_id cd of Some p \<Rightarrow> (if isdigit p then Some (digits_value 0 p) else None) | None \<Rightarrow> None),
     cw_kind = dc_decision_class cd, cw_title = dc_title cd, cw_body = dc_body cd, cw_severity = dc_severity cd,
     cw_status = dc_status cd, cw_pushed_at = dc_created_at cd, cw_decided_at = None, cw_decided_by = None,
     cw_expires_at = dc_expires_at cd, cw_citations = dc_citations cd, cw_metadata = dc_metadata cd\<rparr>"

text \<open>\<open>ON CONFLICT (id) DO UPDATE\<close> rewrites six columns and leaves project, kind and times.\<close>

definition overwrite_row :: "card_row \<Rightarrow> card_row \<Rightarrow> card_row" where
  "overwrite_row new r = r\<lparr>cw_title := cw_title new, cw_body := cw_body new, cw_severity := cw_severity new,
     cw_status := cw_status new, cw_metadata := cw_metadata new, cw_citations := cw_citations new\<rparr>"

definition insert_card :: "card_row \<Rightarrow> card_row list \<Rightarrow> card_row list" where
  "insert_card new rows =
     (if list_ex (\<lambda>r. cw_id r = cw_id new) rows then map (\<lambda>r. if cw_id r = cw_id new then overwrite_row new r else r) rows
      else rows @ [new])"

definition db_works :: "card_env \<Rightarrow> decision_store \<Rightarrow> bool" where
  "db_works E s = (ds_db s \<and> ce_db_up E)"

definition persist_put :: "card_env \<Rightarrow> decision_card \<Rightarrow> decision_store \<Rightarrow> decision_store" where
  "persist_put E cd s =
     (case (db_works E s, ce_uuid E (dc_decision_id cd)) of
        (True, Some uuid_str) \<Rightarrow>
          let row = card_row_of uuid_str cd in
          (if (case cw_project_id row of None \<Rightarrow> True | Some i \<Rightarrow> ce_project E i)
           then s\<lparr>ds_table := insert_card row (ds_table s)\<rparr> else s)
      | _ \<Rightarrow> s)"

definition persist_transition :: "card_env \<Rightarrow> string \<Rightarrow> card_status \<Rightarrow> string option \<Rightarrow> decision_store \<Rightarrow> decision_card option \<times> decision_store" where
  "persist_transition E decision_id new_status actor s =
     (case (db_works E s, ce_uuid E decision_id) of
        (True, Some uuid_str) \<Rightarrow>
          let set_status = (\<lambda>r. if cw_id r = uuid_str then r\<lparr>cw_status := new_status, cw_decided_at := Some (ce_now E),
                cw_decided_by := Some (case actor of Some (c # cs) \<Rightarrow> c # cs | _ \<Rightarrow> ''system'')\<rparr> else r);
              table = map set_status (ds_table s) in
          (case filter (\<lambda>r. cw_id r = uuid_str) table of
             [] \<Rightarrow> (None, s)
           | r # _ \<Rightarrow> (Some (row_to_card E r), s\<lparr>ds_table := table\<rparr>))
      | _ \<Rightarrow> (None, s))"

definition hydrate :: "card_env \<Rightarrow> string \<Rightarrow> decision_store \<Rightarrow> decision_card option \<times> decision_store" where
  "hydrate E decision_id s =
     (case (db_works E s, ce_uuid E decision_id) of
        (True, Some uuid_str) \<Rightarrow>
          (case filter (\<lambda>r. cw_id r = uuid_str) (ds_table s) of
             [] \<Rightarrow> (None, s)
           | r # _ \<Rightarrow> let cd = row_to_card E r in
               (Some cd, s\<lparr>ds_cards := AList.update (dc_decision_id cd) cd (ds_cards s)\<rparr>))
      | _ \<Rightarrow> (None, s))"

definition list_from_db :: "card_env \<Rightarrow> card_status option \<Rightarrow> decision_store \<Rightarrow> decision_card list" where
  "list_from_db E status_filter s = (if \<not> db_works E s then [] else
     map (row_to_card E) (take 500 (sort_key (\<lambda>r. - cw_pushed_at r)
       (filter (\<lambda>r. status_filter = None \<or> status_filter = Some (cw_status r)) (ds_table s)))))"

section \<open>The stream\<close>

definition SSE_BUFFER :: nat where
  "SSE_BUFFER = 256"

definition QUEUE_SIZE :: nat where
  "QUEUE_SIZE = 64"

text \<open>What a \<open>deque\<close> with a maximal length keeps.\<close>

definition last_n :: "nat \<Rightarrow> 'a list \<Rightarrow> 'a list" where
  "last_n n xs = drop (length xs - n) xs"

definition publish :: "card_event \<Rightarrow> decision_store \<Rightarrow> decision_store" where
  "publish ev s = s\<lparr>ds_events := last_n SSE_BUFFER (ds_events s @ [ev]),
     ds_subscribers := map (\<lambda>(i, q). (i, if length q < QUEUE_SIZE then q @ [ev] else q)) (ds_subscribers s)\<rparr>"

definition publish_event :: "(string \<times> json) list \<Rightarrow> decision_store \<Rightarrow> decision_store" where
  "publish_event event = publish (Plain_event event)"

definition publish_project_pulse :: "string \<Rightarrow> json \<Rightarrow> (string \<times> json) list \<Rightarrow> decision_store \<Rightarrow> decision_store" where
  "publish_project_pulse project_uuid ts extra =
     publish_event (AList.updates (map fst extra) (map snd extra)
       [(''type'', JStr ''project_pulse''), (''project_uuid'', JStr project_uuid), (''ts'', ts)])"

definition subscribe :: "nat \<Rightarrow> decision_store \<Rightarrow> decision_store" where
  "subscribe i s = s\<lparr>ds_subscribers := ds_subscribers s @ [(i, [])]\<rparr>"

definition unsubscribe :: "nat \<Rightarrow> decision_store \<Rightarrow> decision_store" where
  "unsubscribe i s = s\<lparr>ds_subscribers := takeWhile (\<lambda>q. fst q \<noteq> i) (ds_subscribers s) @ drop 1 (dropWhile (\<lambda>q. fst q \<noteq> i) (ds_subscribers s))\<rparr>"

section \<open>Operations of the store\<close>

definition aput :: "card_env \<Rightarrow> decision_card \<Rightarrow> decision_store \<Rightarrow> decision_store" where
  "aput E cd s = persist_put E cd (publish (Card_created (card_list_view cd))
     (s\<lparr>ds_cards := AList.update (dc_decision_id cd) cd (ds_cards s)\<rparr>))"

text \<open>\<open>put\<close> is called where an event loop runs, so the write to the table becomes a task.\<close>

definition put_card :: "decision_card \<Rightarrow> decision_store \<Rightarrow> decision_store" where
  "put_card cd s =
     (let s' = publish (Card_created (card_list_view cd)) (s\<lparr>ds_cards := AList.update (dc_decision_id cd) cd (ds_cards s)\<rparr>) in
      if ds_db s' then s'\<lparr>ds_tasks := ds_tasks s' @ [Persist_later cd]\<rparr> else s')"

definition get_card :: "string \<Rightarrow> decision_store \<Rightarrow> decision_card option" where
  "get_card decision_id s = map_of (ds_cards s) decision_id"

definition aget :: "card_env \<Rightarrow> string \<Rightarrow> decision_store \<Rightarrow> decision_card option \<times> decision_store" where
  "aget E decision_id s = (case get_card decision_id s of Some cd \<Rightarrow> (Some cd, s) | None \<Rightarrow> hydrate E decision_id s)"

definition list_cards :: "card_status option \<Rightarrow> decision_store \<Rightarrow> decision_card list" where
  "list_cards status_filter s = sort_key (\<lambda>c. - dc_created_at c)
     (filter (\<lambda>c. status_filter = None \<or> status_filter = Some (dc_status c)) (map snd (ds_cards s)))"

definition alist :: "card_env \<Rightarrow> card_status option \<Rightarrow> decision_store \<Rightarrow> decision_card list" where
  "alist E status_filter s =
     (let merged = fold (\<lambda>c d. AList.update (dc_decision_id c) c d) (list_from_db E status_filter s @ list_cards status_filter s) [] in
      sort_key (\<lambda>c. - dc_created_at c) (map snd merged))"

definition transition_card :: "string \<Rightarrow> card_status \<Rightarrow> decision_store \<Rightarrow> decision_card option \<times> decision_store" where
  "transition_card decision_id new_status s =
     (case get_card decision_id s of
        None \<Rightarrow> (None, s)
      | Some cd \<Rightarrow> let cd' = cd\<lparr>dc_status := new_status\<rparr> in
          (Some cd', publish (Card_updated (card_list_view cd')) (s\<lparr>ds_cards := AList.update decision_id cd' (ds_cards s)\<rparr>)))"

definition atransition :: "card_env \<Rightarrow> string \<Rightarrow> card_status \<Rightarrow> string option \<Rightarrow> decision_store \<Rightarrow> decision_card option \<times> decision_store" where
  "atransition E decision_id new_status actor s =
     (case persist_transition E decision_id new_status actor s of
        (Some cd, s1) \<Rightarrow>
          (Some cd, publish (Card_updated (card_list_view cd)) (s1\<lparr>ds_cards := AList.update decision_id cd (ds_cards s1)\<rparr>))
      | (None, s1) \<Rightarrow>
          let s2 = (if get_card decision_id s1 = None then snd (hydrate E decision_id s1) else s1) in
          (case transition_card decision_id new_status s2 of
             (None, s3) \<Rightarrow> (None, s3)
           | (Some cd, s3) \<Rightarrow>
               (if ds_db s3 then
                  (case persist_transition E decision_id new_status actor s3 of
                     (Some persisted, s4) \<Rightarrow> (Some persisted, s4) | (None, s4) \<Rightarrow> (Some cd, s4))
                else (Some cd, s3))))"

section \<open>Acknowledgement, rejection and enqueueing\<close>

definition audit_decision_event :: "card_env \<Rightarrow> string \<Rightarrow> string \<Rightarrow> string \<Rightarrow> string option \<Rightarrow> audit_record" where
  "audit_decision_event E action decision_id actor project_id =
     chain_to_previous (ce_codec E) ((blank_record (ce_event_uuid E) (ce_now E)
       (case project_id of Some p \<Rightarrow> (if isdigit p then Some (digits_value 0 p) else None) | None \<Rightarrow> None)
       ''hub'' ''hub'' action actor)\<lparr>ar_subject_type := Some ''decision_card'', ar_subject_id := Some decision_id,
       ar_metadata := [(''surface'', JStr ''decisions'')]\<rparr>) None"

definition ack_decision_internal :: "card_env \<Rightarrow> string \<Rightarrow> string \<Rightarrow> decision_store \<Rightarrow> (decision_card \<times> audit_record) option \<times> decision_store" where
  "ack_decision_internal E decision_id actor s =
     (case atransition E decision_id Card_acked (Some actor) s of
        (None, s') \<Rightarrow> (None, s')
      | (Some updated, s') \<Rightarrow>
          (Some (updated, audit_decision_event E ''decision_acked'' decision_id actor (dc_project_id updated)),
           s'\<lparr>ds_tasks := ds_tasks s' @ [On_acked updated actor]\<rparr>))"

text \<open>\<open>Inl\<close> is the status of the HTTP error.\<close>

record action_response =
  dr_decision_id :: string
  dr_status :: card_status
  dr_actor :: string
  dr_audit_event_uuid :: uuid

definition ack_decision :: "card_env \<Rightarrow> string \<Rightarrow> string \<Rightarrow> (decision_store, nat, action_response) eff" where
  "ack_decision E decision_id actor s =
     (case ack_decision_internal E decision_id actor s of
        (None, s') \<Rightarrow> (Inl 404, s')
      | (Some (updated, rec), s') \<Rightarrow> (Inr \<lparr>dr_decision_id = decision_id, dr_status = dc_status updated, dr_actor = actor,
          dr_audit_event_uuid = ar_event_uuid rec\<rparr>, s'))"

definition reject_decision :: "card_env \<Rightarrow> string \<Rightarrow> string \<Rightarrow> (decision_store, nat, action_response) eff" where
  "reject_decision E decision_id actor s =
     (case atransition E decision_id Card_rejected (Some actor) s of
        (None, s') \<Rightarrow> (Inl 404, s')
      | (Some updated, s') \<Rightarrow>
          let rec = audit_decision_event E ''decision_rejected'' decision_id actor (dc_project_id updated) in
          (Inr \<lparr>dr_decision_id = decision_id, dr_status = dc_status updated, dr_actor = actor, dr_audit_event_uuid = ar_event_uuid rec\<rparr>,
           s'\<lparr>ds_tasks := ds_tasks s' @ [On_rejected updated actor]\<rparr>))"

definition aenqueue_decision :: "card_env \<Rightarrow> decision_card \<Rightarrow> decision_store \<Rightarrow> decision_card \<times> decision_store" where
  "aenqueue_decision E cd s =
     (let cd' = (if dc_decision_id cd = [] then cd\<lparr>dc_decision_id := ce_fresh_hex E\<rparr> else cd) in (cd', aput E cd' s))"

definition enqueue_decision :: "card_env \<Rightarrow> decision_card \<Rightarrow> decision_store \<Rightarrow> decision_card \<times> decision_store" where
  "enqueue_decision E cd s =
     (let cd' = (if dc_decision_id cd = [] then cd\<lparr>dc_decision_id := ce_fresh_hex E\<rparr> else cd) in (cd', put_card cd' s))"

definition is_hub_inbox_card :: "decision_card \<Rightarrow> bool" where
  "is_hub_inbox_card cd =
     (map_of (dc_metadata cd) ''kind'' = Some (JStr ''master_daily_briefing'') \<or>
      dc_decision_class cd = ''briefing'' \<and> (dc_project_id cd = None \<or> dc_project_id cd = Some []) \<and>
      (case map_of (dc_metadata cd) ''project_uuid'' of None \<Rightarrow> True | Some j \<Rightarrow> \<not> truthy j))"

definition list_decisions :: "card_env \<Rightarrow> card_status option \<Rightarrow> bool \<Rightarrow> bool \<Rightarrow> decision_store \<Rightarrow> decision_card list" where
  "list_decisions E status_filter project_scope include_body s =
     map (if include_body then id else card_list_view)
       (filter (\<lambda>c. \<not> project_scope \<or> \<not> is_hub_inbox_card c) (alist E status_filter s))"

definition get_decision :: "card_env \<Rightarrow> string \<Rightarrow> (decision_store, nat, decision_card) eff" where
  "get_decision E decision_id s = (case aget E decision_id s of (None, s') \<Rightarrow> (Inl 404, s') | (Some cd, s') \<Rightarrow> (Inr cd, s'))"


section \<open>The queue the cards form\<close>

text \<open>The table read as a map from ids to cards, and the states in which the cache agrees with it.\<close>

definition table_cards :: "card_env \<Rightarrow> decision_store \<Rightarrow> string \<rightharpoonup> decision_card" where
  "table_cards E s = map_of (map (\<lambda>r. (cw_id r, row_to_card E r)) (ds_table s))"

definition store_ok :: "card_env \<Rightarrow> decision_store \<Rightarrow> bool" where
  "store_ok E s \<longleftrightarrow> db_works E s \<and> distinct (map cw_id (ds_table s)) \<and> dict_ok (ds_cards s) \<and>
     (\<forall>i \<in> dom (table_cards E s). ce_uuid E i = Some i) \<and> map_of (ds_cards s) \<subseteq>\<^sub>m table_cards E s"

definition same_world :: "card_env \<Rightarrow> card_env \<Rightarrow> bool" where
  "same_world E F \<longleftrightarrow> ce_uuid F = ce_uuid E \<and> ce_db_up F = ce_db_up E \<and> ce_project F = ce_project E \<and> ce_str F = ce_str E"

text \<open>A card that the row keeps: the actions are not stored, and a project that is not a number is only
  found again in the metadata.\<close>

definition durable :: "card_env \<Rightarrow> decision_card \<Rightarrow> bool" where
  "durable E cd \<longleftrightarrow> ce_uuid E (dc_decision_id cd) = Some (dc_decision_id cd) \<and> dc_decision_id cd \<noteq> [] \<and>
     dc_decision_class cd \<noteq> [] \<and> dc_severity cd \<noteq> [] \<and> dc_actions cd = DEFAULT_ACTIONS \<and>
     (case dc_project_id cd of
        None \<Rightarrow> meta_uuid E (dc_metadata cd) = None
      | Some p \<Rightarrow> (if isdigit p then str_integer (digits_value 0 p) = p \<and> ce_project E (digits_value 0 p)
          else meta_uuid E (dc_metadata cd) = Some p))"

text \<open>What a second insert of the same id does not rewrite, with the metadata's project.\<close>

definition kept_fields :: "decision_card \<Rightarrow> string \<times> string option \<times> json option \<times> time \<times> time option" where
  "kept_fields cd = (dc_decision_class cd, dc_project_id cd, map_of (dc_metadata cd) ''project_uuid'', dc_created_at cd, dc_expires_at cd)"

lemma row_to_card_id [simp]: "dc_decision_id (row_to_card E r) = cw_id r"
  by (simp add: row_to_card_def)

lemma row_to_card_world: "same_world E F \<Longrightarrow> row_to_card F = row_to_card E"
  by (rule ext) (simp add: row_to_card_def meta_uuid_def same_world_def split: option.split json.split)

lemma store_ok_world: "same_world E F \<Longrightarrow> store_ok F s = store_ok E s" "same_world E F \<Longrightarrow> table_cards F s = table_cards E s"
  by (simp_all add: store_ok_def table_cards_def row_to_card_world db_works_def) (simp add: same_world_def)

lemma table_cards_id: "table_cards E s i = Some cd \<Longrightarrow> dc_decision_id cd = i"
  unfolding table_cards_def by (drule map_of_SomeD) auto

lemma row_of_durable: "durable E cd \<Longrightarrow> row_to_card E (card_row_of (dc_decision_id cd) cd) = cd"
  by (cases cd) (auto simp: durable_def row_to_card_def card_row_of_def split: option.splits if_splits)

lemma publish_frame [simp]:
  "ds_table (publish ev s) = ds_table s" "ds_cards (publish ev s) = ds_cards s" "ds_db (publish ev s) = ds_db s"
  "ds_tasks (publish ev s) = ds_tasks s"
  by (simp_all add: publish_def)

lemma table_cards_frame [simp]:
  "table_cards E (publish ev s) = table_cards E s" "table_cards E (s\<lparr>ds_cards := c\<rparr>) = table_cards E s"
  "table_cards E (s\<lparr>ds_tasks := t\<rparr>) = table_cards E s"
  by (simp_all add: table_cards_def)

lemma rows_of_id:
  assumes "distinct (map cw_id rows)"
  shows "map_of (map (\<lambda>r. (cw_id r, f r)) rows) i = (case filter (\<lambda>r. cw_id r = i) rows of [] \<Rightarrow> None | r # _ \<Rightarrow> Some (f r))"
  using assms by (induction rows) (auto split: list.splits)

lemma map_of_rows_update:
  assumes "\<And>r. cw_id (g r) = cw_id r" "\<And>r. cw_id r \<noteq> i \<Longrightarrow> f (g r) = f r"
  shows "map_of (map (\<lambda>r. (cw_id r, f (g r))) rows) =
    (case filter (\<lambda>r. cw_id r = i) rows of [] \<Rightarrow> map_of (map (\<lambda>r. (cw_id r, f r)) rows)
     | r # _ \<Rightarrow> (map_of (map (\<lambda>r. (cw_id r, f r)) rows))(i \<mapsto> f (g r)))"
  using assms by (induction rows) (auto split: list.splits)

lemma overwrite_id [simp]: "cw_id (overwrite_row new r) = cw_id r"
  by (simp add: overwrite_row_def)

lemma row_overwrite:
  assumes "kept_fields (row_to_card E r) = kept_fields (row_to_card E new)" "cw_id r = cw_id new"
  shows "row_to_card E (overwrite_row new r) = row_to_card E new"
  using assms by (auto simp: row_to_card_def overwrite_row_def kept_fields_def meta_uuid_def split: option.splits)

lemma store_ok_tasks: "store_ok E (s\<lparr>ds_tasks := t\<rparr>) = store_ok E s"
  by (simp add: store_ok_def db_works_def)

lemma insert_card_table:
  assumes "distinct (map cw_id rows)"
  shows "distinct (map cw_id (insert_card new rows))"
    and "map_of (map (\<lambda>r. (cw_id r, f r)) (insert_card new rows)) =
      (map_of (map (\<lambda>r. (cw_id r, f r)) rows))(cw_id new \<mapsto>
        f (case filter (\<lambda>r. cw_id r = cw_id new) rows of [] \<Rightarrow> new | r # _ \<Rightarrow> overwrite_row new r))"
proof -
  let ?g = "\<lambda>r. if cw_id r = cw_id new then overwrite_row new r else r"
  have ids: "map (cw_id \<circ> ?g) rows = map cw_id rows" by (rule map_cong) auto
  show "distinct (map cw_id (insert_card new rows))"
    using assms by (auto simp: insert_card_def list_ex_iff ids)
  show "map_of (map (\<lambda>r. (cw_id r, f r)) (insert_card new rows)) =
      (map_of (map (\<lambda>r. (cw_id r, f r)) rows))(cw_id new \<mapsto>
        f (case filter (\<lambda>r. cw_id r = cw_id new) rows of [] \<Rightarrow> new | r # _ \<Rightarrow> overwrite_row new r))"
  proof (cases "list_ex (\<lambda>r. cw_id r = cw_id new) rows")
    case True
    then obtain r rs where rs: "filter (\<lambda>r. cw_id r = cw_id new) rows = r # rs"
      by (cases "filter (\<lambda>r. cw_id r = cw_id new) rows") (auto simp: list_ex_iff filter_empty_conv)
    have id: "cw_id r = cw_id new" using Cons_eq_filterD [OF rs [symmetric]] by auto
    have "map_of (map (\<lambda>r. (cw_id r, f (?g r))) rows) = (map_of (map (\<lambda>r. (cw_id r, f r)) rows))(cw_id new \<mapsto> f (?g r))"
      using map_of_rows_update [where g = ?g and f = f and i = "cw_id new" and rows = rows] by (simp add: rs)
    moreover have "map (\<lambda>r. (cw_id r, f r)) (map ?g rows) = map (\<lambda>r. (cw_id r, f (?g r))) rows" by simp
    ultimately show ?thesis using True by (simp add: insert_card_def rs id del: map_map)
  next
    case False
    then have none: "filter (\<lambda>r. cw_id r = cw_id new) rows = []" by (auto simp: list_ex_iff filter_empty_conv)
    have "map_of (map (\<lambda>r. (cw_id r, f r)) rows) (cw_id new) = None" by (simp add: rows_of_id [OF assms] none)
    then show ?thesis using False by (auto simp: insert_card_def none map_add_def fun_eq_iff split: option.splits)
  qed
qed

lemma store_ok_row:
  "store_ok E s \<Longrightarrow> filter (\<lambda>r. cw_id r = i) (ds_table s) = (case table_cards E s i of None \<Rightarrow> [] | Some _ \<Rightarrow> filter (\<lambda>r. cw_id r = i) (ds_table s))"
  "store_ok E s \<Longrightarrow> filter (\<lambda>r. cw_id r = i) (ds_table s) = r # rs \<Longrightarrow> table_cards E s i = Some (row_to_card E r)"
  by (auto simp: store_ok_def table_cards_def rows_of_id split: list.splits)

lemma aput_ok:
  assumes ok: "store_ok E s" and dur: "durable E cd"
    and kept: "\<And>c0. table_cards E s (dc_decision_id cd) = Some c0 \<Longrightarrow> kept_fields c0 = kept_fields cd"
  shows "store_ok E (aput E cd s)" "table_cards E (aput E cd s) = (table_cards E s)(dc_decision_id cd \<mapsto> cd)"
    "ds_tasks (aput E cd s) = ds_tasks s"
proof -
  let ?i = "dc_decision_id cd"
  let ?row = "card_row_of ?i cd"
  have fk: "case cw_project_id ?row of None \<Rightarrow> True | Some i \<Rightarrow> ce_project E i"
    using dur by (auto simp: durable_def card_row_of_def split: option.splits if_splits)
  have table: "ds_table (aput E cd s) = insert_card ?row (ds_table s)"
    and cards: "ds_cards (aput E cd s) = AList.update ?i cd (ds_cards s)"
    and tasks: "ds_tasks (aput E cd s) = ds_tasks s"
    and db: "ds_db (aput E cd s) = ds_db s"
    using ok dur fk by (simp_all add: aput_def persist_put_def Let_def store_ok_def durable_def db_works_def)
  have id: "cw_id ?row = ?i" by (simp add: card_row_of_def)
  have d: "distinct (map cw_id (ds_table s))" using ok by (simp add: store_ok_def)
  have same: "row_to_card E (case filter (\<lambda>r. cw_id r = cw_id ?row) (ds_table s) of [] \<Rightarrow> ?row | r # _ \<Rightarrow> overwrite_row ?row r) = cd"
  proof (cases "filter (\<lambda>r. cw_id r = ?i) (ds_table s)")
    case Nil
    then show ?thesis using row_of_durable [OF dur] by (simp add: id)
  next
    case (Cons r rs)
    have "cw_id r = cw_id ?row" using Cons_eq_filterD [OF Cons [symmetric]] by (auto simp: id)
    moreover have "kept_fields (row_to_card E r) = kept_fields cd" using kept store_ok_row(2) [OF ok Cons] by simp
    ultimately show ?thesis using row_overwrite [of E r ?row] by (simp add: Cons id row_of_durable [OF dur])
  qed
  show tc: "table_cards E (aput E cd s) = (table_cards E s)(?i \<mapsto> cd)"
    using insert_card_table(2) [OF d, where f = "row_to_card E" and new = ?row] by (simp add: table_cards_def table same) (simp add: id)
  have "map_of (ds_cards s) \<subseteq>\<^sub>m table_cards E s" using ok by (simp add: store_ok_def)
  then have "(map_of (ds_cards s))(?i \<mapsto> cd) \<subseteq>\<^sub>m (table_cards E s)(?i \<mapsto> cd)" by (rule map_le_upd)
  then show "store_ok E (aput E cd s)"
    using ok dur insert_card_table(1) [OF d, of ?row]
    by (auto simp: store_ok_def tc) (auto simp: cards dict_simps table db_works_def db durable_def)
  show "ds_tasks (aput E cd s) = ds_tasks s" by (rule tasks)
qed

abbreviation plain_id :: "card_env \<Rightarrow> string \<Rightarrow> bool" where
  "plain_id E i \<equiv> ce_uuid E i = None \<or> ce_uuid E i = Some i"

lemma cached_card: "store_ok E s \<Longrightarrow> get_card i s = Some cd \<Longrightarrow> table_cards E s i = Some cd"
  by (auto simp: store_ok_def get_card_def map_le_def dom_def)

lemma unparsed_id: "store_ok E s \<Longrightarrow> ce_uuid E i = None \<Longrightarrow> table_cards E s i = None"
  by (auto simp: store_ok_def dom_def)

lemma no_rows: "store_ok E s \<Longrightarrow> table_cards E s i = None \<longleftrightarrow> filter (\<lambda>r. cw_id r = i) (ds_table s) = []"
  by (auto simp: store_ok_def table_cards_def rows_of_id split: list.splits)

lemma hydrate_ok:
  assumes "store_ok E s" "plain_id E i"
  shows "fst (hydrate E i s) = table_cards E s i" "store_ok E (snd (hydrate E i s))"
    "ds_table (snd (hydrate E i s)) = ds_table s" "ds_tasks (snd (hydrate E i s)) = ds_tasks s"
proof -
  have db: "db_works E s" using assms(1) by (simp add: store_ok_def)
  have "fst (hydrate E i s) = table_cards E s i \<and> store_ok E (snd (hydrate E i s)) \<and>
    ds_table (snd (hydrate E i s)) = ds_table s \<and> ds_tasks (snd (hydrate E i s)) = ds_tasks s"
  proof (cases "filter (\<lambda>r. cw_id r = i) (ds_table s)")
    case Nil
    then show ?thesis using assms db no_rows [OF assms(1), of i] by (auto simp: hydrate_def)
  next
    case (Cons r rs)
    have row: "table_cards E s i = Some (row_to_card E r)" by (rule store_ok_row(2) [OF assms(1) Cons])
    have id: "cw_id r = i" using Cons_eq_filterD [OF Cons [symmetric]] by auto
    have u: "ce_uuid E i = Some i" using assms unparsed_id [OF assms(1), of i] row by auto
    have "map_of (ds_cards s) \<subseteq>\<^sub>m table_cards E s" using assms by (simp add: store_ok_def)
    then have "(map_of (ds_cards s))(i \<mapsto> row_to_card E r) \<subseteq>\<^sub>m table_cards E s"
      using row by (auto simp: map_le_def)
    then show ?thesis using assms db row
      by (simp add: hydrate_def u Cons Let_def id store_ok_def dict_simps db_works_def)
  qed
  then show "fst (hydrate E i s) = table_cards E s i" "store_ok E (snd (hydrate E i s))"
    "ds_table (snd (hydrate E i s)) = ds_table s" "ds_tasks (snd (hydrate E i s)) = ds_tasks s" by simp_all
qed

lemma aget_ok:
  assumes "store_ok E s" "plain_id E i"
  shows "fst (aget E i s) = table_cards E s i" "store_ok E (snd (aget E i s))"
    "ds_table (snd (aget E i s)) = ds_table s" "ds_tasks (snd (aget E i s)) = ds_tasks s"
  using hydrate_ok [OF assms] cached_card [OF assms(1), of i] assms(1) by (auto simp: aget_def split: option.split)

lemma persist_transition_ok:
  assumes ok: "store_ok E s" and row: "table_cards E s i = Some cd" and u: "ce_uuid E j = Some i"
  obtains s' where "persist_transition E j st actor s = (Some (cd\<lparr>dc_status := st\<rparr>), s')"
    "ds_cards s' = ds_cards s" "ds_tasks s' = ds_tasks s" "db_works E s'" "map cw_id (ds_table s') = map cw_id (ds_table s)"
    "table_cards E s' = (table_cards E s)(i \<mapsto> cd\<lparr>dc_status := st\<rparr>)"
proof -
  obtain r rs where rs: "filter (\<lambda>r. cw_id r = i) (ds_table s) = r # rs" using no_rows [OF ok, of i] row
    by (cases "filter (\<lambda>r. cw_id r = i) (ds_table s)") auto
  have cd: "cd = row_to_card E r" using store_ok_row(2) [OF ok rs] row by simp
  have id: "cw_id r = i" using Cons_eq_filterD [OF rs [symmetric]] by auto
  define g where "g = (\<lambda>r :: card_row. if cw_id r = i then r\<lparr>cw_status := st, cw_decided_at := Some (ce_now E),
    cw_decided_by := Some (case actor of Some (c # cs) \<Rightarrow> c # cs | _ \<Rightarrow> ''system'')\<rparr> else r)"
  have gid: "cw_id (g r) = cw_id r" for r by (simp add: g_def)
  have gcard: "row_to_card E (g r) = cd\<lparr>dc_status := st\<rparr>" using id by (simp add: g_def cd row_to_card_def split: option.split)
  have "filter (\<lambda>r. cw_id r = i) (map g (ds_table s)) = map g (r # rs)" using rs by (simp add: filter_map comp_def gid)
  then have eq: "persist_transition E j st actor s = (Some (cd\<lparr>dc_status := st\<rparr>), s\<lparr>ds_table := map g (ds_table s)\<rparr>)"
    using ok u gcard by (simp add: persist_transition_def store_ok_def Let_def flip: g_def)
  have upd: "table_cards E (s\<lparr>ds_table := map g (ds_table s)\<rparr>) = (table_cards E s)(i \<mapsto> cd\<lparr>dc_status := st\<rparr>)"
    using map_of_rows_update [where g = g and i = i and f = "row_to_card E" and rows = "ds_table s"]
    by (simp add: table_cards_def comp_def gid rs gcard) (simp add: g_def)
  have db: "db_works E (s\<lparr>ds_table := map g (ds_table s)\<rparr>)" using ok by (simp add: store_ok_def db_works_def)
  have ids: "map cw_id (ds_table (s\<lparr>ds_table := map g (ds_table s)\<rparr>)) = map cw_id (ds_table s)" by (simp add: comp_def gid)
  show thesis by (rule that [OF eq _ _ db ids upd]) simp_all
qed

lemma atransition_ok:
  assumes ok: "store_ok E s" and i: "plain_id E i"
  shows "fst (atransition E i st actor s) = map_option (\<lambda>cd. cd\<lparr>dc_status := st\<rparr>) (table_cards E s i)"
    "store_ok E (snd (atransition E i st actor s))"
    "table_cards E (snd (atransition E i st actor s)) =
       (case table_cards E s i of None \<Rightarrow> table_cards E s | Some cd \<Rightarrow> (table_cards E s)(i \<mapsto> cd\<lparr>dc_status := st\<rparr>))"
    "ds_tasks (snd (atransition E i st actor s)) = ds_tasks s"
proof -
  have "fst (atransition E i st actor s) = map_option (\<lambda>cd. cd\<lparr>dc_status := st\<rparr>) (table_cards E s i) \<and>
    store_ok E (snd (atransition E i st actor s)) \<and>
    table_cards E (snd (atransition E i st actor s)) =
       (case table_cards E s i of None \<Rightarrow> table_cards E s | Some cd \<Rightarrow> (table_cards E s)(i \<mapsto> cd\<lparr>dc_status := st\<rparr>)) \<and>
    ds_tasks (snd (atransition E i st actor s)) = ds_tasks s"
  proof (cases "table_cards E s i")
    case None
    have "get_card i s = None" using cached_card [OF ok, of i] None by (cases "get_card i s") auto
    moreover have "hydrate E i s = (None, s)" using i no_rows [OF ok, of i] None by (auto simp: hydrate_def split: bool.split)
    moreover have "persist_transition E i st actor s = (None, s)" using i no_rows [OF ok, of i] None
      by (auto simp: persist_transition_def Let_def filter_map comp_def filter_empty_conv split: list.split bool.split)
    ultimately show ?thesis using ok None by (simp add: atransition_def transition_card_def Let_def)
  next
    case (Some cd)
    obtain s' where s': "persist_transition E i st actor s = (Some (cd\<lparr>dc_status := st\<rparr>), s')"
      "ds_cards s' = ds_cards s" "ds_tasks s' = ds_tasks s" "db_works E s'" "map cw_id (ds_table s') = map cw_id (ds_table s)"
      "table_cards E s' = (table_cards E s)(i \<mapsto> cd\<lparr>dc_status := st\<rparr>)"
      by (rule persist_transition_ok [OF ok Some]) (use ok Some in \<open>auto simp: store_ok_def dom_def\<close>)
    have "map_of (ds_cards s) \<subseteq>\<^sub>m table_cards E s" using ok by (simp add: store_ok_def)
    then have "(map_of (ds_cards s))(i \<mapsto> cd\<lparr>dc_status := st\<rparr>) \<subseteq>\<^sub>m (table_cards E s)(i \<mapsto> cd\<lparr>dc_status := st\<rparr>)" by (rule map_le_upd)
    then show ?thesis using ok Some s'
      by (auto simp: atransition_def store_ok_def db_works_def dict_simps dom_def)
  qed
  then show "fst (atransition E i st actor s) = map_option (\<lambda>cd. cd\<lparr>dc_status := st\<rparr>) (table_cards E s i)"
    "store_ok E (snd (atransition E i st actor s))"
    "table_cards E (snd (atransition E i st actor s)) =
       (case table_cards E s i of None \<Rightarrow> table_cards E s | Some cd \<Rightarrow> (table_cards E s)(i \<mapsto> cd\<lparr>dc_status := st\<rparr>))"
    "ds_tasks (snd (atransition E i st actor s)) = ds_tasks s" by simp_all
qed

abbreviation matches :: "card_status option \<Rightarrow> decision_card \<Rightarrow> bool" where
  "matches f cd \<equiv> f = None \<or> f = Some (dc_status cd)"

lemma merged_exact:
  assumes good: "\<forall>cd \<in> set xs. m (dc_decision_id cd) = Some cd"
  defines "merged \<equiv> fold (\<lambda>c d. AList.update (dc_decision_id c) c d) xs []"
  shows "set (map snd merged) = set xs" "distinct (map dc_decision_id (map snd merged))"
proof -
  have ok: "dict_ok merged" unfolding merged_def by (rule fold_update_dict_ok) simp
  have key: "\<forall>(k, c) \<in> set merged. k = dc_decision_id c" unfolding merged_def by (rule fold_update_keyed) simp
  have look: "map_of merged i = find (\<lambda>c. dc_decision_id c = i) (rev xs)" for i
    unfolding merged_def by (simp add: map_of_fold_update split: option.split)
  have "cd \<in> set xs" if "(i, cd) \<in> set merged" for i cd
    using look [of i] map_of_is_SomeI [OF ok that] find_Some_mem [of _ "rev xs" cd] by auto
  moreover have "(dc_decision_id cd, cd) \<in> set merged" if cd: "cd \<in> set xs" for cd
  proof -
    obtain c where c: "find (\<lambda>c. dc_decision_id c = dc_decision_id cd) (rev xs) = Some c"
      using cd find_None_all [of "\<lambda>c. dc_decision_id c = dc_decision_id cd" "rev xs"] by fastforce
    then have "c = cd" using good cd find_Some_mem [OF c] by (metis option.inject set_rev)
    then show ?thesis using look [of "dc_decision_id cd"] c map_of_SomeD by metis
  qed
  ultimately show "set (map snd merged) = set xs" by force
  have "map dc_decision_id (map snd merged) = map fst merged" using key by auto
  then show "distinct (map dc_decision_id (map snd merged))" using ok by (simp del: map_map)
qed

lemma alist_ok:
  assumes ok: "store_ok E s" and small: "length (ds_table s) \<le> 500"
  shows "set (alist E f s) = {cd \<in> ran (table_cards E s). matches f cd}" "distinct (map dc_decision_id (alist E f s))"
    "sorted (map (\<lambda>cd. - dc_created_at cd) (alist E f s))"
proof -
  let ?xs = "list_from_db E f s @ list_cards f s"
  have db: "set (list_from_db E f s) = {cd \<in> ran (table_cards E s). matches f cd}"
  proof -
    let ?rows = "filter (\<lambda>r. f = None \<or> f = Some (cw_status r)) (ds_table s)"
    have "take 500 (sort_key (\<lambda>r. - cw_pushed_at r) ?rows) = sort_key (\<lambda>r. - cw_pushed_at r) ?rows"
      using small le_trans [OF length_filter_le] by (intro take_all) simp
    then have "set (list_from_db E f s) = row_to_card E ` set ?rows" using ok by (simp add: list_from_db_def store_ok_def)
    moreover have "ran (table_cards E s) = row_to_card E ` set (ds_table s)"
      using ok by (simp add: table_cards_def store_ok_def ran_distinct comp_def image_image)
    moreover have "dc_status (row_to_card E r) = cw_status r" for r by (simp add: row_to_card_def)
    ultimately show ?thesis by auto
  qed
  have cached: "set (list_cards f s) \<subseteq> {cd \<in> ran (table_cards E s). matches f cd}"
    using ok cached_card [OF ok] by (auto simp: store_ok_def list_cards_def get_card_def intro!: ranI)
  have all: "set ?xs = {cd \<in> ran (table_cards E s). matches f cd}" using db cached by auto
  then have "\<forall>cd \<in> set ?xs. table_cards E s (dc_decision_id cd) = Some cd" using table_cards_id by (fastforce simp: ran_def)
  note merged = merged_exact [OF this]
  show "set (alist E f s) = {cd \<in> ran (table_cards E s). matches f cd}"
    using merged(1) all by (simp add: alist_def Let_def)
  show "distinct (map dc_decision_id (alist E f s))"
    using merged(2) by (auto simp: alist_def Let_def distinct_map inj_on_def)
  show "sorted (map (\<lambda>cd. - dc_created_at cd) (alist E f s))" by (simp add: alist_def Let_def)
qed

section \<open>Requests, and the queue as its users see it\<close>

datatype card_op = Enqueue decision_card | Fetch string | Ack string string | Reject string string
  | Listing "card_status option" bool bool | Restart

datatype card_answer = Stored decision_card | Fetched "nat + decision_card" | Decided "nat + action_response"
  | Listed "decision_card list" | Restarted

text \<open>A restart loses the cache, the stream and the tasks that were not run; the table stays.\<close>

definition restart :: "decision_store \<Rightarrow> decision_store" where
  "restart s = s\<lparr>ds_cards := [], ds_events := [], ds_subscribers := [], ds_tasks := []\<rparr>"

fun serve :: "card_env \<Rightarrow> card_op \<Rightarrow> decision_store \<Rightarrow> card_answer \<times> decision_store" where
  "serve E (Enqueue cd) s = map_prod Stored id (aenqueue_decision E cd s)"
| "serve E (Fetch i) s = map_prod Fetched id (get_decision E i s)"
| "serve E (Ack i a) s = map_prod Decided id (ack_decision E i a s)"
| "serve E (Reject i a) s = map_prod Decided id (reject_decision E i a s)"
| "serve E (Listing f p b) s = (Listed (list_decisions E f p b s), s)"
| "serve E Restart s = (Restarted, restart s)"

text \<open>The specification: a map from ids to cards, and the hooks that were started.\<close>

inductive queue_step ::
  "(string \<rightharpoonup> decision_card) \<times> card_task list \<Rightarrow> card_op \<Rightarrow> card_answer \<Rightarrow> (string \<rightharpoonup> decision_card) \<times> card_task list \<Rightarrow> bool" where
  stored: "queue_step (m, t) (Enqueue cd) (Stored cd) (m(dc_decision_id cd \<mapsto> cd), t)"
| fetched: "m i = Some cd \<Longrightarrow> queue_step (m, t) (Fetch i) (Fetched (Inr cd)) (m, t)"
| not_fetched: "m i = None \<Longrightarrow> queue_step (m, t) (Fetch i) (Fetched (Inl 404)) (m, t)"
| acked: "m i = Some cd \<Longrightarrow> dr_decision_id r = i \<Longrightarrow> dr_status r = Card_acked \<Longrightarrow> dr_actor r = a \<Longrightarrow>
    queue_step (m, t) (Ack i a) (Decided (Inr r)) (m(i \<mapsto> cd\<lparr>dc_status := Card_acked\<rparr>), t @ [On_acked (cd\<lparr>dc_status := Card_acked\<rparr>) a])"
| not_acked: "m i = None \<Longrightarrow> queue_step (m, t) (Ack i a) (Decided (Inl 404)) (m, t)"
| rejected: "m i = Some cd \<Longrightarrow> dr_decision_id r = i \<Longrightarrow> dr_status r = Card_rejected \<Longrightarrow> dr_actor r = a \<Longrightarrow>
    queue_step (m, t) (Reject i a) (Decided (Inr r)) (m(i \<mapsto> cd\<lparr>dc_status := Card_rejected\<rparr>), t @ [On_rejected (cd\<lparr>dc_status := Card_rejected\<rparr>) a])"
| not_rejected: "m i = None \<Longrightarrow> queue_step (m, t) (Reject i a) (Decided (Inl 404)) (m, t)"
| listed: "set xs = {cd \<in> ran m. matches f cd \<and> (p \<longrightarrow> \<not> is_hub_inbox_card cd)} \<Longrightarrow> distinct (map dc_decision_id xs) \<Longrightarrow>
    sorted (map (\<lambda>cd. - dc_created_at cd) xs) \<Longrightarrow>
    queue_step (m, t) (Listing f p b) (Listed (map (if b then id else card_list_view) xs)) (m, t)"
| restarted: "queue_step (m, t) Restart Restarted (m, [])"

inductive queue_run where
  queue_done: "queue_run q [] [] q"
| queue_more: "queue_step q x y q1 \<Longrightarrow> queue_run q1 xs ys q2 \<Longrightarrow> queue_run q (x # xs) (y # ys) q2"

text \<open>What the requests have to respect: canonical ids, cards that the row keeps, at most 500 cards when listing.\<close>

definition op_ok :: "card_env \<Rightarrow> decision_store \<Rightarrow> card_op \<Rightarrow> bool" where
  "op_ok E s x = (case x of
     Enqueue cd \<Rightarrow> durable E cd \<and> (case table_cards E s (dc_decision_id cd) of None \<Rightarrow> True | Some c0 \<Rightarrow> kept_fields c0 = kept_fields cd)
   | Fetch i \<Rightarrow> plain_id E i | Ack i _ \<Rightarrow> plain_id E i | Reject i _ \<Rightarrow> plain_id E i
   | Listing _ _ _ \<Rightarrow> length (ds_table s) \<le> 500 | Restart \<Rightarrow> True)"

fun serve_all :: "(card_env \<times> card_op) list \<Rightarrow> decision_store \<Rightarrow> card_answer list \<times> decision_store" where
  "serve_all [] s = ([], s)"
| "serve_all ((F, x) # xs) s = (let (y, s1) = serve F x s; (ys, s2) = serve_all xs s1 in (y # ys, s2))"

fun ops_ok :: "card_env \<Rightarrow> decision_store \<Rightarrow> (card_env \<times> card_op) list \<Rightarrow> bool" where
  "ops_ok E s [] = True"
| "ops_ok E s ((F, x) # xs) \<longleftrightarrow> same_world E F \<and> op_ok E s x \<and> ops_ok E (snd (serve F x s)) xs"

lemma serve_refines:
  assumes ok: "store_ok E s" and x: "op_ok E s x"
  shows "store_ok E (snd (serve E x s)) \<and>
    queue_step (table_cards E s, ds_tasks s) x (fst (serve E x s)) (table_cards E (snd (serve E x s)), ds_tasks (snd (serve E x s)))"
proof (cases x)
  case (Enqueue cd)
  then have "durable E cd" "dc_decision_id cd \<noteq> []" using x by (auto simp: op_ok_def durable_def)
  moreover have "\<And>c0. table_cards E s (dc_decision_id cd) = Some c0 \<Longrightarrow> kept_fields c0 = kept_fields cd"
    using x Enqueue by (simp add: op_ok_def)
  ultimately show ?thesis using aput_ok [OF ok, of cd] queue_step.stored [of _ _ cd] by (simp add: Enqueue aenqueue_decision_def)
next
  case (Fetch i)
  have "plain_id E i" using x Fetch by (simp add: op_ok_def)
  note got = aget_ok [OF ok this]
  obtain y s' where ys: "aget E i s = (y, s')" by (cases "aget E i s")
  have "table_cards E s' = table_cards E s" using got(3) ys by (simp add: table_cards_def)
  then show ?thesis using got ys queue_step.fetched [of "table_cards E s" i] queue_step.not_fetched [of "table_cards E s" i]
    by (cases "table_cards E s i") (simp_all add: Fetch get_decision_def)
next
  case (Ack i a)
  have "plain_id E i" using x Ack by (simp add: op_ok_def)
  note decided = atransition_ok [OF ok this, of Card_acked "Some a"]
  obtain y s' where ys: "atransition E i Card_acked (Some a) s = (y, s')" by (cases "atransition E i Card_acked (Some a) s")
  show ?thesis
  proof (cases "table_cards E s i")
    case None
    then show ?thesis using decided ys queue_step.not_acked [of "table_cards E s" i]
      by (simp add: Ack ack_decision_def ack_decision_internal_def)
  next
    case (Some cd)
    then show ?thesis using decided ys queue_step.acked [of "table_cards E s" i cd] 
      by (simp add: Ack ack_decision_def ack_decision_internal_def store_ok_tasks)
  qed
next
  case (Reject i a)
  have "plain_id E i" using x Reject by (simp add: op_ok_def)
  note decided = atransition_ok [OF ok this, of Card_rejected "Some a"]
  obtain y s' where ys: "atransition E i Card_rejected (Some a) s = (y, s')" by (cases "atransition E i Card_rejected (Some a) s")
  show ?thesis
  proof (cases "table_cards E s i")
    case None
    then show ?thesis using decided ys queue_step.not_rejected [of "table_cards E s" i] by (simp add: Reject reject_decision_def)
  next
    case (Some cd)
    then show ?thesis using decided ys queue_step.rejected [of "table_cards E s" i cd]
      by (simp add: Reject reject_decision_def Let_def store_ok_tasks)
  qed
next
  case (Listing f p b)
  have "length (ds_table s) \<le> 500" using x Listing by (simp add: op_ok_def)
  note listed = alist_ok [OF ok this, of f]
  have "queue_step (table_cards E s, ds_tasks s) (Listing f p b) (Listed (list_decisions E f p b s)) (table_cards E s, ds_tasks s)"
    unfolding list_decisions_def by (rule queue_step.listed) (use listed in \<open>auto simp: distinct_map_filter sorted_filter\<close>)
  then show ?thesis using ok by (simp add: Listing)
next
  case Restart
  have "table_cards E (restart s) = table_cards E s" by (simp add: restart_def table_cards_def)
  then show ?thesis using ok queue_step.restarted [of "table_cards E s" "ds_tasks s"]
    by (simp add: Restart) (simp add: restart_def store_ok_def db_works_def)
qed

lemma durable_world: "same_world E F \<Longrightarrow> durable F cd = durable E cd"
  by (simp add: durable_def meta_uuid_def same_world_def split: option.split json.split)

lemma op_ok_world:
  assumes "same_world E F"
  shows "op_ok F s x = op_ok E s x"
proof -
  have "plain_id F i = plain_id E i" for i using assms by (simp add: same_world_def)
  then show ?thesis using assms by (cases x) (simp_all add: op_ok_def durable_world store_ok_world)
qed


text \<open>
  A decision made under another spelling of the id is recorded, but the cached card stays pending: the list
  of pending decisions still shows the card, and acknowledging it again starts the hook again.
\<close>

theorem alias_decision_stays_pending:
  assumes ok: "store_ok E s" and u: "ce_uuid E alias = Some i" "alias \<noteq> i"
    and cd: "get_card i s = Some cd" "dc_status cd = Card_pending"
  shows "\<exists>r s'. ack_decision E alias actor s = (Inr r, s') \<and> dr_status r = Card_acked \<and>
    map_option dc_status (table_cards E s' i) = Some Card_acked \<and> fst (get_decision E i s') = Inr cd \<and>
    cd \<in> set (list_decisions E (Some Card_pending) False True s')"
proof -
  let ?new = "cd\<lparr>dc_status := Card_acked\<rparr>"
  note row = cached_card [OF ok cd(1)]
  obtain s1 where s1: "persist_transition E alias Card_acked (Some actor) s = (Some ?new, s1)" "ds_cards s1 = ds_cards s"
    "map cw_id (ds_table s1) = map cw_id (ds_table s)" "table_cards E s1 = (table_cards E s)(i \<mapsto> ?new)"
    by (rule persist_transition_ok [OF ok row u(1)])
  define s' where "s' = (publish (Card_updated (card_list_view ?new)) (s1\<lparr>ds_cards := AList.update alias ?new (ds_cards s1)\<rparr>))
    \<lparr>ds_tasks := ds_tasks s1 @ [On_acked ?new actor]\<rparr>"
  have ack: "ack_decision E alias actor s = (Inr \<lparr>dr_decision_id = alias, dr_status = Card_acked, dr_actor = actor,
      dr_audit_event_uuid = ar_event_uuid (audit_decision_event E ''decision_acked'' alias actor (dc_project_id ?new))\<rparr>, s')"
    by (simp add: ack_decision_def ack_decision_internal_def atransition_def s1(1) s'_def)
  have tab: "table_cards E s' = (table_cards E s)(i \<mapsto> ?new)" by (simp add: s'_def s1(4))
  have cards: "ds_cards s' = AList.update alias ?new (ds_cards s)" by (simp add: s'_def s1(2))
  have get: "get_card i s' = Some cd" using u(2) cd(1) by (simp add: get_card_def cards dict_simps)
  let ?xs = "list_from_db E (Some Card_pending) s' @ list_cards (Some Card_pending) s'"
  have dk: "dict_ok (ds_cards s')" using ok by (simp add: cards store_ok_def)
  have good: "\<forall>c \<in> set ?xs. table_cards E s (dc_decision_id c) = Some c"
  proof
    fix c
    assume "c \<in> set ?xs"
    then consider (db) r where "r \<in> set (ds_table s')" "c = row_to_card E r" "cw_status r = Card_pending"
      | (cache) k where "(k, c) \<in> set (ds_cards s')" "dc_status c = Card_pending"
      by (auto simp: list_from_db_def list_cards_def dest!: in_set_takeD split: if_splits)
    then show "table_cards E s (dc_decision_id c) = Some c"
    proof cases
      case (db r)
      have "distinct (map cw_id (ds_table s'))" using ok s1(3) by (simp add: s'_def store_ok_def)
      then have "table_cards E s' (cw_id r) = Some c" using db unfolding table_cards_def
        by (intro map_of_is_SomeI) (auto simp: comp_def)
      moreover have "dc_status c = Card_pending" using db by (simp add: row_to_card_def)
      moreover from this have "c \<noteq> ?new" by auto
      ultimately show ?thesis using db by (auto simp: tab split: if_splits)
    next
      case (cache k)
      then have "map_of (ds_cards s') k = Some c" using dk by simp
      then have "get_card k s = Some c" using cache by (auto simp: cards dict_simps get_card_def split: if_splits)
      then show ?thesis using cached_card [OF ok] table_cards_id by metis
    qed
  qed
  have "cd \<in> set ?xs" using map_of_SomeD [of "ds_cards s'" i cd] get cd(2) by (force simp: list_cards_def get_card_def)
  then have "cd \<in> set (list_decisions E (Some Card_pending) False True s')"
    using merged_exact(1) [OF good] by (simp add: list_decisions_def alist_def Let_def)
  moreover have "fst (get_decision E i s') = Inr cd" by (simp add: get_decision_def aget_def get)
  ultimately show ?thesis by (simp add: ack tab)
qed

lemma last_n_snoc: "last_n n (last_n n xs @ [x]) = last_n n (xs @ [x])"
  by (cases "length xs < n") (auto simp: last_n_def Suc_diff_le)

text \<open>
  The stream keeps the last 256 events; a subscriber that does not read gets the first 64 events after it
  subscribed and none of the later ones.
\<close>

theorem stream_bounds:
  assumes "length (ds_events s) \<le> SSE_BUFFER" "i \<notin> fst ` set (ds_subscribers s)"
  shows "ds_events (fold publish evs (subscribe i s)) = last_n SSE_BUFFER (ds_events s @ evs) \<and>
    map_of (ds_subscribers (fold publish evs (subscribe i s))) i = Some (take QUEUE_SIZE evs)"
proof (induction evs rule: rev_induct)
  case Nil
  have "map_of (ds_subscribers s) i = None" using assms(2) by (simp add: map_of_eq_None_iff)
  then show ?case using assms by (simp add: subscribe_def map_add_def last_n_def)
next
  case (snoc ev evs)
  have mapped: "map_of (map (\<lambda>(i, q). (i, g q)) d) i = map_option g (map_of d i)" for g and d :: "(nat \<times> card_event list) list"
    by (induction d) auto
  define t where "t = fold publish evs (subscribe i s)"
  have "ds_events (publish ev t) = last_n SSE_BUFFER (ds_events t @ [ev])"
    "map_of (ds_subscribers (publish ev t)) i = map_option (\<lambda>q. if length q < QUEUE_SIZE then q @ [ev] else q) (map_of (ds_subscribers t) i)"
    by (simp_all add: publish_def mapped)
  moreover have "ds_events t = last_n SSE_BUFFER (ds_events s @ evs)" "map_of (ds_subscribers t) i = Some (take QUEUE_SIZE evs)"
    using snoc by (simp_all add: t_def)
  ultimately show ?case using last_n_snoc [where n = SSE_BUFFER and xs = "ds_events s @ evs" and x = ev]
    by (auto simp flip: t_def)
qed

section \<open>The queue as a client uses it\<close>

text \<open>What the runner that acknowledges cards by itself relies on: which cards there are, that an
  acknowledgement changes the status of one card and nothing else, and that it starts the hook of that card.\<close>

definition acked_card :: "decision_card \<Rightarrow> decision_card" where
  "acked_card cd = cd\<lparr>dc_status := Card_acked\<rparr>"

lemma acked_card_idem [simp]: "acked_card (acked_card cd) = acked_card cd"
  by (simp add: acked_card_def)

locale decision_queue =
  fixes view :: "'s \<Rightarrow> string \<rightharpoonup> decision_card"
    and ok :: "'s \<Rightarrow> bool"
    and hooks :: "'s \<Rightarrow> card_task list"
    and ack :: "string \<Rightarrow> 's \<Rightarrow> 's"
    and actor :: string
  assumes ack_ok: "ok s \<Longrightarrow> i \<in> dom (view s) \<Longrightarrow> ok (ack i s)"
    and ack_view: "ok s \<Longrightarrow> view s i = Some cd \<Longrightarrow> view (ack i s) = (view s)(i \<mapsto> acked_card cd)"
    and ack_hooks: "ok s \<Longrightarrow> view s i = Some cd \<Longrightarrow> hooks (ack i s) = hooks s @ [On_acked (acked_card cd) actor]"
begin

lemma ack_all:
  assumes "ok s" "set ids \<subseteq> dom (view s)"
  shows "ok (fold ack ids s)"
    "view (fold ack ids s) = (\<lambda>i. if i \<in> set ids then map_option acked_card (view s i) else view s i)"
    "hooks (fold ack ids s) = hooks s @ map (\<lambda>i. On_acked (acked_card (the (view s i))) actor) ids"
proof -
  have "ok (fold ack ids s) \<and> view (fold ack ids s) = (\<lambda>i. if i \<in> set ids then map_option acked_card (view s i) else view s i) \<and>
    hooks (fold ack ids s) = hooks s @ map (\<lambda>i. On_acked (acked_card (the (view s i))) actor) ids"
    using assms
  proof (induction ids arbitrary: s)
    case (Cons i ids)
    then obtain cd where cd: "view s i = Some cd" by auto
    have v: "view (ack i s) = (view s)(i \<mapsto> acked_card cd)" and ok: "ok (ack i s)" using ack_view [OF Cons.prems(1) cd] ack_ok [OF Cons.prems(1), of i] cd by auto
    have "set ids \<subseteq> dom (view (ack i s))" using Cons.prems(2) v by auto
    note IH = Cons.IH [OF ok this]
    have "map (\<lambda>k. On_acked (acked_card (the (view (ack i s) k))) actor) ids = map (\<lambda>k. On_acked (acked_card (the (view s k))) actor) ids"
      by (simp add: v cd)
    then show ?case using IH ack_hooks [OF Cons.prems(1) cd] by (auto simp: v cd fun_eq_iff)
  qed (simp add: fun_eq_iff)
  then show "ok (fold ack ids s)"
    "view (fold ack ids s) = (\<lambda>i. if i \<in> set ids then map_option acked_card (view s i) else view s i)"
    "hooks (fold ack ids s) = hooks s @ map (\<lambda>i. On_acked (acked_card (the (view s i))) actor) ids" by auto
qed

end

lemma ack_internal_ok:
  assumes ok: "store_ok E s" and cd: "table_cards E s i = Some cd"
  shows "store_ok E (snd (ack_decision_internal E i actor s)) \<and>
    table_cards E (snd (ack_decision_internal E i actor s)) = (table_cards E s)(i \<mapsto> acked_card cd) \<and>
    ds_tasks (snd (ack_decision_internal E i actor s)) = ds_tasks s @ [On_acked (acked_card cd) actor]"
proof -
  have "plain_id E i" using ok cd by (auto simp: store_ok_def dom_def)
  note at = atransition_ok [OF ok this, of Card_acked "Some actor"]
  obtain s' where "atransition E i Card_acked (Some actor) s = (Some (acked_card cd), s')"
    using at(1) cd by (cases "atransition E i Card_acked (Some actor) s") (simp add: acked_card_def)
  then show ?thesis using at cd by (simp add: ack_decision_internal_def store_ok_tasks acked_card_def)
qed

interpretation cards: decision_queue "table_cards E" "store_ok E" ds_tasks "\<lambda>i s. snd (ack_decision_internal E i actor s)" actor
  for E actor
  by unfold_locales (auto simp: ack_internal_ok)

section \<open>Concrete runs\<close>

definition demo_cards_env :: card_env where
  "demo_cards_env = \<lparr>ce_uuid = (\<lambda>s. if s = ''u1'' \<or> s = ''U1'' then Some ''u1'' else None), ce_db_up = True, ce_project = (\<lambda>i. i = 7),
     ce_now = 20, ce_fresh_hex = ''U1'', ce_str = (\<lambda>j. ''?''), ce_codec = demo_audit_codec, ce_event_uuid = 1\<rparr>"

definition demo_store :: decision_store where
  "demo_store = \<lparr>ds_cards = [], ds_events = [], ds_subscribers = [], ds_db = True, ds_table = [], ds_tasks = []\<rparr>"

definition demo_card :: decision_card where
  "demo_card = \<lparr>dc_decision_id = ''u1'', dc_decision_class = ''approval'', dc_project_id = Some ''7'', dc_title = ''Approve'',
     dc_body = ''text'', dc_severity = ''info'', dc_actions = DEFAULT_ACTIONS, dc_status = Card_pending, dc_created_at = 10,
     dc_expires_at = None, dc_metadata = [], dc_citations = []\<rparr>"

abbreviation demo_requests :: "(card_env \<times> card_op) list" where
  "demo_requests \<equiv> map (Pair demo_cards_env) [Enqueue demo_card, Fetch ''u1'', Listing None True False, Restart, Ack ''u1'' ''ann'']"

lemma demo_durable: "durable demo_cards_env demo_card"
proof -
  have "str_integer (digits_value 0 ''7'') = ''7''" "isdigit ''7''" "digits_value 0 ''7'' = 7" by code_simp+
  then show ?thesis by (simp add: durable_def demo_cards_env_def demo_card_def)
qed

lemma demo_store_ok: "store_ok demo_cards_env demo_store"
  by (simp add: store_ok_def demo_store_def demo_cards_env_def db_works_def table_cards_def)

lemma demo_requests_ok: "ops_ok demo_cards_env demo_store demo_requests"
proof -
  let ?s = "aput demo_cards_env demo_card demo_store"
  have w: "same_world demo_cards_env demo_cards_env" by (simp add: same_world_def)
  have id: "plain_id demo_cards_env ''u1''" by (simp add: demo_cards_env_def)
  have empty: "table_cards demo_cards_env demo_store = Map.empty" by (simp add: table_cards_def demo_store_def)
  have s: "serve demo_cards_env (Enqueue demo_card) demo_store = (Stored demo_card, ?s)" by (simp add: aenqueue_decision_def demo_card_def Let_def)
  have "store_ok demo_cards_env ?s" by (rule aput_ok(1) [OF demo_store_ok demo_durable]) (simp add: empty)
  then have "ds_table (snd (serve demo_cards_env (Fetch ''u1'') ?s)) = ds_table ?s"
    using aget_ok(3) [OF _ id, of ?s] by (auto simp: get_decision_def split: prod.split option.split)
  moreover have "length (ds_table ?s) \<le> 500"
    by (simp add: aput_def persist_put_def Let_def insert_card_def demo_store_def split: bool.split option.split)
  ultimately show ?thesis using w id demo_durable s by (simp add: op_ok_def empty del: serve.simps)
qed


theorem alias_decision_stays_pending_witness:
  "\<exists>r s'. ack_decision demo_cards_env ''U1'' ''ann'' (aput demo_cards_env demo_card demo_store) = (Inr r, s') \<and>
     dr_status r = Card_acked \<and> fst (get_decision demo_cards_env ''u1'' s') = Inr demo_card"
proof -
  let ?s = "aput demo_cards_env demo_card demo_store"
  have "store_ok demo_cards_env ?s"
    by (rule aput_ok(1) [OF demo_store_ok demo_durable]) (simp add: table_cards_def demo_store_def)
  moreover have "ce_uuid demo_cards_env ''U1'' = Some ''u1''" "dc_status demo_card = Card_pending"
    by (simp_all add: demo_cards_env_def demo_card_def)
  moreover have "get_card ''u1'' ?s = Some demo_card"
    by (simp add: get_card_def aput_def persist_put_def Let_def demo_store_def demo_card_def split: bool.split option.split)
  ultimately show ?thesis using alias_decision_stays_pending [of demo_cards_env ?s "''U1''" "''u1''" demo_card "''ann''"] by auto
qed

theorem stream_bounds_witness:
  "map_of (ds_subscribers (fold publish (replicate 70 (Plain_event [])) (subscribe 3 demo_store))) 3 = Some (replicate 64 (Plain_event []))"
  using stream_bounds [of demo_store 3 "replicate 70 (Plain_event [])"] by (simp add: demo_store_def SSE_BUFFER_def QUEUE_SIZE_def)

end
