(* ===== verification/Recovery.thy ===== *)
theory Recovery
  imports Decision_Cards
begin

text \<open>
  Recovery of a stalled project, \<open>shared/api/routes/_project_recovery.py\<close>: the catalogue of actions for a
  phase, the choice of the next one, the dispatch of a role with its in-flight flag, the limit on automatic
  remediation, the queue of feature requests of an operating project, and the count of a project's pending
  cards. The state is the rows of \<open>spine_lifecycle.project\<close>, the card store and the background tasks.
  A handler is one step, except where a theorem says otherwise. What a role does when it runs
  (\<open>_orchestrate_hub_role\<close> and \<open>_enqueue_orchestrator_gap\<close> of \<open>_post_ack.py\<close>, which call language models) is an
  argument, as are \<open>isoformat\<close>, \<open>fromisoformat\<close>, \<open>int\<close> of a float and the number of files in a workspace.
  Texts that are only shown (labels, messages, log lines) are left out. Metadata is an object, and
  \<open>feature_requests\<close> in it a list.
\<close>

section \<open>Projects and their metadata\<close>

record hub_project =
  hp_id :: int
  hp_uuid :: string
  hp_name :: string
  hp_type :: string
  hp_phase :: string
  hp_status :: string
  hp_updated_at :: time
  hp_metadata :: "(string \<times> json) list"

datatype recovery_action = Retry_planner | Retry_architect | Retry_conductor | Retry_engineer
  | Retry_engineer_remediate | Retry_code_review | Retry_devops | Retry_qa | Retry_operate
  | Retry_feature | Reset_fix_loop | Resume

fun action_name :: "recovery_action \<Rightarrow> string" where
  "action_name Retry_planner = ''retry_planner''"
| "action_name Retry_architect = ''retry_architect''"
| "action_name Retry_conductor = ''retry_conductor''"
| "action_name Retry_engineer = ''retry_engineer''"
| "action_name Retry_engineer_remediate = ''retry_engineer_remediate''"
| "action_name Retry_code_review = ''retry_code_review''"
| "action_name Retry_devops = ''retry_devops''"
| "action_name Retry_qa = ''retry_qa''"
| "action_name Retry_operate = ''retry_operate''"
| "action_name Retry_feature = ''retry_feature''"
| "action_name Reset_fix_loop = ''reset_fix_loop''"
| "action_name Resume = ''resume''"

text \<open>The task that \<open>asyncio.create_task\<close> starts, with the moment of its start.\<close>

record role_params =
  rp_kind :: string
  rp_card_kind :: "string option"
  rp_next_phase :: "string option"
  rp_context :: "string option"
  rp_role :: "string option"

record role_job =
  rj_project :: hub_project
  rj_params :: role_params
  rj_actor :: string
  rj_started :: time

record hub_state =
  hs_store :: decision_store
  hs_projects :: "hub_project list"
  hs_jobs :: "role_job list"
  hs_pulses :: "string list"
  hs_scheduled :: "string list"

record recovery_env =
  re_cards :: card_env
  re_pool :: bool
  re_now :: time
  re_ts :: json
  re_iso :: "time \<Rightarrow> string"
  re_from_iso :: "string \<Rightarrow> time option"
  re_float_int :: "string \<Rightarrow> int option"
  re_files :: "string \<Rightarrow> (string \<times> json) list \<Rightarrow> nat"

definition meta :: "(string \<times> json) list \<Rightarrow> string \<Rightarrow> json" where
  "meta md k = (case map_of md k of None \<Rightarrow> JNull | Some j \<Rightarrow> j)"

abbreviation has :: "(string \<times> json) list \<Rightarrow> string \<Rightarrow> bool" where
  "has md k \<equiv> truthy (meta md k)"

definition merge_meta :: "(string \<times> json) list \<Rightarrow> (string \<times> json) list \<Rightarrow> (string \<times> json) list" where
  "merge_meta md patch = fold (\<lambda>(k, j) d. AList.update k j d) patch md"

definition json_text :: "card_env \<Rightarrow> json \<Rightarrow> string" where
  "json_text C j = (case j of JStr s \<Rightarrow> s | _ \<Rightarrow> ce_str C j)"

definition text_or_empty :: "card_env \<Rightarrow> json \<Rightarrow> string" where
  "text_or_empty C j = (if truthy j then json_text C j else [])"

text \<open>\<open>int(value)\<close>, None where it raises.\<close>

definition json_int :: "recovery_env \<Rightarrow> json \<Rightarrow> int option" where
  "json_int E j = (case j of JInt n \<Rightarrow> Some n | JBool b \<Rightarrow> Some (of_bool b) | JStr s \<Rightarrow> py_int s
     | JFloat s \<Rightarrow> re_float_int E s | _ \<Rightarrow> None)"

section \<open>Feature requests\<close>

abbreviation entry_status :: "json \<Rightarrow> string \<Rightarrow> bool" where
  "entry_status j st \<equiv> (case j of JDict d \<Rightarrow> meta d ''status'' = JStr st | _ \<Rightarrow> False)"

fun first_requested :: "card_env \<Rightarrow> json list \<Rightarrow> string option" where
  "first_requested C [] = None"
| "first_requested C (JDict d # js) =
     (if meta d ''status'' = JStr ''requested'' \<and> py_strip (text_or_empty C (meta d ''feature'')) \<noteq> []
      then Some (py_strip (text_or_empty C (meta d ''feature''))) else first_requested C js)"
| "first_requested C (_ # js) = first_requested C js"

definition latest_feature :: "card_env \<Rightarrow> (string \<times> json) list \<Rightarrow> string option" where
  "latest_feature C md = (case py_strip (text_or_empty C (meta md ''latest_feature_request'')) of [] \<Rightarrow> None | s \<Rightarrow> Some s)"

definition pending_feature_request :: "card_env \<Rightarrow> (string \<times> json) list \<Rightarrow> string option" where
  "pending_feature_request C md =
     (case meta md ''feature_requests'' of
        JList requests \<Rightarrow>
          (case first_requested C (rev requests) of
             Some feature \<Rightarrow> Some feature
           | None \<Rightarrow> (if list_ex (\<lambda>j. entry_status j ''in_progress'') requests then None else latest_feature C md))
      | _ \<Rightarrow> latest_feature C md)"

definition requests_of :: "(string \<times> json) list \<Rightarrow> json list" where
  "requests_of md = (case meta md ''feature_requests'' of JList js \<Rightarrow> js | _ \<Rightarrow> [])"

text \<open>\<open>for entry in reversed(requests): if ... : change; break\<close>.\<close>

fun change_first :: "string \<Rightarrow> (string \<times> json) list \<Rightarrow> json list \<Rightarrow> json list" where
  "change_first st patch [] = []"
| "change_first st patch (JDict d # js) =
     (if meta d ''status'' = JStr st then JDict (merge_meta d patch) # js else JDict d # change_first st patch js)"
| "change_first st patch (j # js) = j # change_first st patch js"

definition change_last :: "string \<Rightarrow> (string \<times> json) list \<Rightarrow> json list \<Rightarrow> json list" where
  "change_last st patch js = rev (change_first st patch (rev js))"

definition feature_iteration_start_patch :: "(string \<times> json) list \<Rightarrow> (string \<times> json) list" where
  "feature_iteration_start_patch md =
     [(''feature_iteration_active'', JBool True),
      (''feature_requests'', JList (change_last ''requested'' [(''status'', JStr ''in_progress'')] (requests_of md)))]"

definition complete_active_feature_request_patch :: "recovery_env \<Rightarrow> (string \<times> json) list \<Rightarrow> (string \<times> json) list" where
  "complete_active_feature_request_patch E md =
     [(''feature_requests'', JList (change_last ''in_progress''
         [(''status'', JStr ''completed''), (''completed_at'', JStr (re_iso E (re_now E)))] (requests_of md)))]"

text \<open>\<open>int(e.get(''priority'') or 999)\<close>.\<close>

definition entry_priority :: "recovery_env \<Rightarrow> json \<Rightarrow> int option" where
  "entry_priority E j = (case j of JDict d \<Rightarrow> (if has d ''priority'' then json_int E (meta d ''priority'') else Some 999) | _ \<Rightarrow> None)"

text \<open>The position of the first backlog entry of least priority number; an unreadable number raises.\<close>

definition backlog_indices :: "json list \<Rightarrow> nat list" where
  "backlog_indices js = filter (\<lambda>i. entry_status (js ! i) ''backlog'') [0 ..< length js]"

definition next_backlog :: "recovery_env \<Rightarrow> json list \<Rightarrow> (unit, nat option) res" where
  "next_backlog E js =
     (if list_ex (\<lambda>i. entry_priority E (js ! i) = None) (backlog_indices js) then Inl ()
      else Inr (case sort_key (\<lambda>i. the (entry_priority E (js ! i))) (backlog_indices js) of [] \<Rightarrow> None | i # _ \<Rightarrow> Some i))"

definition entry_title :: "card_env \<Rightarrow> json \<Rightarrow> string" where
  "entry_title C j = (case j of
     JDict d \<Rightarrow> take 80 (if has d ''title'' then json_text C (meta d ''title'') else text_or_empty C (meta d ''feature'')) | _ \<Rightarrow> [])"

definition promote_next_feature_request_patch :: "recovery_env \<Rightarrow> (string \<times> json) list \<Rightarrow> (unit, (string \<times> json) list) res" where
  "promote_next_feature_request_patch E md =
     (let js = requests_of md in
      rbind (next_backlog E js) (\<lambda>next. Inr (case next of
        None \<Rightarrow> []
      | Some i \<Rightarrow>
          let title = entry_title (re_cards E) (js ! i);
              entry = (case js ! i of JDict d \<Rightarrow>
                JDict (merge_meta d [(''status'', JStr ''requested''), (''requested_at'', JStr (re_iso E (re_now E)))]) | j \<Rightarrow> j) in
          [(''feature_requests'', JList (js[i := entry])),
           (''latest_feature_request'', if title = [] then JNull else JStr title)])))"

definition operate_devops_ack_metadata_patch :: "recovery_env \<Rightarrow> (string \<times> json) list \<Rightarrow> (unit, (string \<times> json) list) res" where
  "operate_devops_ack_metadata_patch E prior_md =
     (let patch = complete_active_feature_request_patch E prior_md in
      rbind (promote_next_feature_request_patch E (merge_meta prior_md patch)) (\<lambda>promoted.
        Inr (merge_meta (merge_meta patch promoted)
          [(''feature_iteration_active'', JBool False), (''code_review_blocked'', JBool False), (''last_role_failure'', JNull)])))"


section \<open>The limit on automatic remediation\<close>

definition MAX_CODE_FIX_ITERATIONS :: int where
  "MAX_CODE_FIX_ITERATIONS = 3"

definition code_fix_iteration_count :: "recovery_env \<Rightarrow> (string \<times> json) list \<Rightarrow> int" where
  "code_fix_iteration_count E md =
     (case map_of md ''code_fix_iteration'' of None \<Rightarrow> 0 | Some j \<Rightarrow> (case json_int E j of None \<Rightarrow> 0 | Some n \<Rightarrow> max 0 n))"

definition fix_loop_exhausted :: "recovery_env \<Rightarrow> hub_project \<Rightarrow> bool" where
  "fix_loop_exhausted E p = (has (hp_metadata p) ''code_review_blocked'' \<and>
     MAX_CODE_FIX_ITERATIONS \<le> code_fix_iteration_count E (hp_metadata p))"

section \<open>Rows\<close>

text \<open>A project is named by its number or by its uuid.\<close>

definition is_row :: "string \<Rightarrow> hub_project \<Rightarrow> bool" where
  "is_row project_id p = (if isdigit project_id then hp_id p = digits_value 0 project_id else hp_uuid p = project_id)"

definition load_project_full :: "recovery_env \<Rightarrow> string \<Rightarrow> hub_state \<Rightarrow> hub_project option" where
  "load_project_full E project_id s = (if re_pool E then find (is_row project_id) (hs_projects s) else None)"

definition persist_metadata_patch :: "recovery_env \<Rightarrow> string \<Rightarrow> (string \<times> json) list \<Rightarrow> hub_state \<Rightarrow> hub_state" where
  "persist_metadata_patch E project_id patch s = (if \<not> re_pool E then s else
     s\<lparr>hs_projects := map (\<lambda>p. if is_row project_id p
       then p\<lparr>hp_metadata := merge_meta (hp_metadata p) patch, hp_updated_at := re_now E\<rparr> else p) (hs_projects s)\<rparr>)"

definition increment_code_fix_iteration :: "recovery_env \<Rightarrow> string \<Rightarrow> hub_state \<Rightarrow> int \<times> hub_state" where
  "increment_code_fix_iteration E project_uuid s =
     (case load_project_full E project_uuid s of
        None \<Rightarrow> (0, s)
      | Some p \<Rightarrow> let next_iter = code_fix_iteration_count E (hp_metadata p) + 1 in
          (next_iter, persist_metadata_patch E project_uuid [(''code_fix_iteration'', JInt next_iter)] s))"

section \<open>Pending cards of a project\<close>

definition project_card_keys :: "hub_project \<Rightarrow> string list" where
  "project_card_keys p = (if hp_uuid p = [] then [] else [hp_uuid p]) @ [str_integer (hp_id p)]"

definition card_keys :: "card_env \<Rightarrow> decision_card \<Rightarrow> string list" where
  "card_keys C cd = (case dc_project_id cd of Some (c # cs) \<Rightarrow> [c # cs] | _ \<Rightarrow> []) @
     (case meta_uuid C (dc_metadata cd) of Some u \<Rightarrow> [u] | None \<Rightarrow> [])"

definition add_pending :: "card_env \<Rightarrow> decision_card \<Rightarrow> (string, string list) dict \<Rightarrow> (string, string list) dict" where
  "add_pending C cd index = fold (\<lambda>k d. AList.update k (List.insert (dc_decision_id cd) (case map_of d k of None \<Rightarrow> [] | Some ids \<Rightarrow> ids)) d)
     (card_keys C cd) index"

definition build_pending_decision_index :: "card_env \<Rightarrow> decision_store \<Rightarrow> (string, string list) dict" where
  "build_pending_decision_index C st =
     fold (\<lambda>cd index. if is_hub_inbox_card cd then index else add_pending C cd index) (alist C (Some Card_pending) st) []"

definition pending_count_for_project :: "hub_project \<Rightarrow> (string, string list) dict \<Rightarrow> nat" where
  "pending_count_for_project p index =
     length (remdups (concat (map (\<lambda>k. case map_of index k of None \<Rightarrow> [] | Some ids \<Rightarrow> ids) (project_card_keys p))))"

definition pending_counts_by_project :: "card_env \<Rightarrow> decision_store \<Rightarrow> (string, nat) dict" where
  "pending_counts_by_project C st = map (\<lambda>(k, ids). (k, length ids)) (build_pending_decision_index C st)"

definition count_pending_for_project :: "card_env \<Rightarrow> hub_project \<Rightarrow> decision_store \<Rightarrow> nat" where
  "count_pending_for_project C p st = pending_count_for_project p (build_pending_decision_index C st)"

text \<open>None: the dispatch may start. The messages are left out, the error code is kept.\<close>

definition fix_loop_guard :: "recovery_env \<Rightarrow> hub_project \<Rightarrow> bool \<Rightarrow> hub_state \<Rightarrow> string option" where
  "fix_loop_guard E p block_on_pending s =
     (if fix_loop_exhausted E p then Some ''fix_loop_exhausted''
      else if block_on_pending \<and> 0 < count_pending_for_project (re_cards E) p (hs_store s) then Some ''pending_decisions''
      else None)"

section \<open>The catalogue of actions and the next one\<close>

definition starts_with :: "string \<Rightarrow> string \<Rightarrow> bool" where
  "starts_with pre s = (take (length pre) s = pre)"

definition terminal_phases :: "string list" where
  "terminal_phases = [''retro'', ''completed'', ''terminated'']"

definition has_code :: "(string \<times> json) list \<Rightarrow> bool" where
  "has_code md = (has md ''code_intro_md'' \<or> has md ''code_files'')"

definition stuck_reasons :: "recovery_env \<Rightarrow> hub_project \<Rightarrow> nat \<Rightarrow> string list" where
  "stuck_reasons E p pending =
     (let phase = hp_phase p; md = hp_metadata p; on_disk = re_files E (hp_uuid p) md in
      (if pending = 0 \<and> phase \<notin> set terminal_phases \<and> phase \<noteq> ''released'' then [''no_pending_decisions''] else []) @
      (if has md ''code_review_blocked''
       then [if fix_loop_exhausted E p then ''fix_loop_exhausted'' else ''code_review_blocked''] else []) @
      (if has md ''last_role_failure'' then [''last_role_failed''] else []) @
      (if has md ''code_files'' \<and> on_disk = 0 then [''workspace_empty_stale_metadata'']
       else if \<not> has md ''code_files'' \<and> on_disk = 0 \<and> starts_with ''build'' phase then [''workspace_empty_no_code''] else []))"

definition is_stuck :: "recovery_env \<Rightarrow> hub_project \<Rightarrow> nat \<Rightarrow> bool" where
  "is_stuck E p pending =
     (if hp_phase p \<in> set terminal_phases \<or> hp_phase p = ''released'' then False
      else stuck_reasons E p pending \<noteq> [] \<and> pending = 0)"

abbreviation spec_if :: "bool \<Rightarrow> recovery_action \<Rightarrow> recovery_action list" where
  "spec_if b a \<equiv> (if b then [a] else [])"

definition code_specs :: "recovery_env \<Rightarrow> hub_project \<Rightarrow> recovery_action list" where
  "code_specs E p =
     (let md = hp_metadata p in
      spec_if (has_code md) Retry_code_review @
      spec_if ((has md ''code_review_blocked'' \<or> has md ''code_review_md'') \<and> has_code md) Retry_engineer_remediate @
      spec_if (fix_loop_exhausted E p \<or> has md ''code_review_blocked'' \<and> 0 < code_fix_iteration_count E md) Reset_fix_loop @
      spec_if (has md ''code_review_md'' \<and> \<not> has md ''code_review_blocked'') Retry_devops)"

definition action_specs :: "recovery_env \<Rightarrow> hub_project \<Rightarrow> recovery_action list" where
  "action_specs E p =
     (let phase = hp_phase p; md = hp_metadata p;
          planning = (if starts_with ''plan'' phase \<or> phase = ''intake''
            then spec_if (has md ''prd_md'') Retry_planner @ spec_if (has md ''roadmap_md'') Retry_architect @
              spec_if (has md ''trd_md'') Retry_conductor else []);
          building = (if starts_with ''build'' phase \<or> starts_with ''verify'' phase \<or> phase = ''acceptance''
            then spec_if (has md ''sprint_plan_md'') Retry_engineer @ code_specs E p else []);
          testing = spec_if ((starts_with ''verify'' phase \<or> phase = ''acceptance'' \<or> phase = ''released'') \<and>
            meta md ''devops_install_ok'' \<noteq> JBool False) Retry_qa;
          released = spec_if (phase = ''released'' \<and> has md ''deploy_result'' \<and> \<not> has md ''operate_started_at'') Retry_operate;
          operating = (if phase = ''operate''
            then spec_if (pending_feature_request (re_cards E) md \<noteq> None \<and> \<not> has md ''recovery_dispatch_in_flight'') Retry_feature @
              code_specs E p else []);
          specs = planning @ building @ testing @ released @ operating;
          specs' = (if specs = [] then [] else specs @ [Resume]) in
      rev (remdups (rev specs')))"

definition blocked_resume :: "recovery_env \<Rightarrow> hub_project \<Rightarrow> recovery_action option" where
  "blocked_resume E p = (if fix_loop_exhausted E p then (if has_code (hp_metadata p) then Some Retry_code_review else None)
     else Some Retry_engineer_remediate)"

definition preferred_actions :: "recovery_action list" where
  "preferred_actions = [Retry_feature, Retry_operate, Retry_engineer_remediate, Retry_engineer, Retry_code_review,
     Retry_devops, Retry_qa, Retry_conductor, Retry_architect, Retry_planner]"

text \<open>The first branch whose condition holds decides; \<open>None\<close> goes on to the next one.\<close>

fun first_choice :: "(bool \<times> 'a) list \<Rightarrow> 'a option" where
  "first_choice [] = None"
| "first_choice ((b, x) # xs) = (if b then Some x else first_choice xs)"

definition pick_resume_action :: "recovery_env \<Rightarrow> hub_project \<Rightarrow> recovery_action option" where
  "pick_resume_action E p =
     (let md = hp_metadata p; phase = hp_phase p; empty = (re_files E (hp_uuid p) md = 0 \<and> (has md ''code_files'' \<or> starts_with ''build'' phase));
          building = starts_with ''build'' phase; planning = (starts_with ''plan'' phase \<or> phase = ''intake'') in
      case first_choice
        [(empty \<and> has md ''code_review_blocked'' \<and> has md ''code_review_md'', blocked_resume E p),
         (empty \<and> has md ''sprint_plan_md'', Some Retry_engineer),
         (has md ''code_review_blocked'', blocked_resume E p),
         (building \<and> has md ''code_intro_md'' \<and> \<not> has md ''code_review_md'', Some Retry_code_review),
         (building \<and> has md ''code_review_md'' \<and> \<not> has md ''devops_install_ok'', Some Retry_devops),
         (building \<and> has md ''sprint_plan_md'' \<and> \<not> has md ''code_intro_md'', Some Retry_engineer),
         (starts_with ''verify'' phase \<and> \<not> has md ''qa_md'', Some Retry_qa),
         (phase = ''released'' \<and> has md ''deploy_result'' \<and> \<not> has md ''operate_started_at'', Some Retry_operate),
         (phase = ''operate'' \<and> pending_feature_request (re_cards E) md \<noteq> None, Some Retry_feature),
         (planning \<and> has md ''trd_md'' \<and> \<not> has md ''sprint_plan_md'', Some Retry_conductor),
         (planning \<and> has md ''roadmap_md'' \<and> \<not> has md ''trd_md'', Some Retry_architect),
         (planning \<and> has md ''prd_md'' \<and> \<not> has md ''roadmap_md'', Some Retry_planner)] of
        Some choice \<Rightarrow> choice
      | None \<Rightarrow> let specs = action_specs E p in
          (if specs = [] then None
           else case find (\<lambda>a. a \<in> set specs) preferred_actions of Some a \<Rightarrow> Some a | None \<Rightarrow> Some (hd specs)))"

section \<open>The in-flight flag and the status\<close>

definition INFLIGHT_STALE_SECONDS :: time where
  "INFLIGHT_STALE_SECONDS = 5 * 60 * 1000000"

fun replace_z :: "string \<Rightarrow> string" where
  "replace_z [] = []"
| "replace_z (c # cs) = (if c = CHR ''Z'' then ''+00:00'' else [c]) @ replace_z cs"

definition dispatch_in_flight_stale :: "recovery_env \<Rightarrow> json \<Rightarrow> bool" where
  "dispatch_in_flight_stale E inflight =
     (case inflight of
        JDict d \<Rightarrow> (if \<not> has d ''started_at'' then True
          else case re_from_iso E (replace_z (json_text (re_cards E) (meta d ''started_at''))) of
            None \<Rightarrow> True | Some started \<Rightarrow> INFLIGHT_STALE_SECONDS < re_now E - started)
      | _ \<Rightarrow> True)"

abbreviation on_store :: "(decision_store \<Rightarrow> decision_store) \<Rightarrow> hub_state \<Rightarrow> hub_state" where
  "on_store f s \<equiv> s\<lparr>hs_store := f (hs_store s)\<rparr>"

definition not_in_flight_pulse :: "recovery_env \<Rightarrow> string \<Rightarrow> hub_state \<Rightarrow> hub_state" where
  "not_in_flight_pulse E project_uuid = on_store (publish_project_pulse project_uuid (re_ts E)
     [(''dispatch_in_flight'', JBool False), (''refresh_artifacts'', JBool False)])"

text \<open>\<open>pulse\<close> is \<open>publish_recovery_pulse\<close>, which reads the status and so may reap in turn.\<close>

definition reap_stale_dispatch_inflight ::
    "(string \<Rightarrow> (string \<times> json) list \<Rightarrow> hub_state \<Rightarrow> hub_state) \<Rightarrow> recovery_env \<Rightarrow> hub_project \<Rightarrow> bool \<Rightarrow> hub_state \<Rightarrow> bool \<times> hub_state" where
  "reap_stale_dispatch_inflight pulse E p emit_pulse s =
     (let inflight = meta (hp_metadata p) ''recovery_dispatch_in_flight'' in
      if \<not> truthy inflight \<or> \<not> dispatch_in_flight_stale E inflight then (False, s)
      else let s1 = persist_metadata_patch E (hp_uuid p) [(''recovery_dispatch_in_flight'', JNull)] s in
        (True, if emit_pulse then pulse (hp_uuid p) [(''dispatch_in_flight'', JNull)] (not_in_flight_pulse E (hp_uuid p) s1) else s1))"

record recovery_report =
  rr_uuid :: string
  rr_phase :: string
  rr_pending :: nat
  rr_stuck :: bool
  rr_reasons :: "string list"
  rr_failure :: json
  rr_in_flight :: json
  rr_files :: nat
  rr_actions :: "recovery_action list"
  rr_recommended :: "recovery_action option"
  rr_iterations :: int
  rr_exhausted :: bool
  rr_blocked :: bool
  rr_code_files :: json

definition code_files_count :: "(string \<times> json) list \<Rightarrow> json" where
  "code_files_count md = (case meta md ''code_files_count'' of JInt n \<Rightarrow> JInt n | JBool b \<Rightarrow> JBool b
     | _ \<Rightarrow> (case meta md ''code_files'' of JList js \<Rightarrow> JInt (int (length js)) | _ \<Rightarrow> JInt 0))"

definition status_via ::
    "(string \<Rightarrow> (string \<times> json) list \<Rightarrow> hub_state \<Rightarrow> hub_state) \<Rightarrow> recovery_env \<Rightarrow> string \<Rightarrow> hub_state \<Rightarrow> recovery_report option \<times> hub_state" where
  "status_via pulse E project_id s =
     (case load_project_full E project_id s of
        None \<Rightarrow> (None, s)
      | Some p \<Rightarrow>
          let pending = count_pending_for_project (re_cards E) p (hs_store s); md = hp_metadata p;
              (reaped, s1) = reap_stale_dispatch_inflight pulse E p True s in
          (Some \<lparr>rr_uuid = hp_uuid p, rr_phase = hp_phase p, rr_pending = pending, rr_stuck = is_stuck E p pending,
             rr_reasons = stuck_reasons E p pending, rr_failure = meta md ''last_role_failure'',
             rr_in_flight = (if reaped then JNull else meta md ''recovery_dispatch_in_flight''),
             rr_files = re_files E (hp_uuid p) md, rr_actions = action_specs E p, rr_recommended = pick_resume_action E p,
             rr_iterations = code_fix_iteration_count E md, rr_exhausted = fix_loop_exhausted E p,
             rr_blocked = has md ''code_review_blocked'', rr_code_files = code_files_count md\<rparr>, s1))"

definition action_json :: "recovery_action \<Rightarrow> json" where
  "action_json a = JStr (action_name a)"

definition recovery_pulse_event :: "recovery_env \<Rightarrow> string \<Rightarrow> recovery_report \<Rightarrow> (string \<times> json) list \<Rightarrow> (string \<times> json) list" where
  "recovery_pulse_event E project_id r extra = merge_meta
     [(''type'', JStr ''recovery_pulse''), (''project_uuid'', JStr project_id), (''ts'', re_ts E),
      (''stuck'', JBool (rr_stuck r)), (''reasons'', JList (map JStr (rr_reasons r))), (''pending_decisions'', JInt (int (rr_pending r))),
      (''recommended_action'', case rr_recommended r of None \<Rightarrow> JNull | Some a \<Rightarrow> action_json a),
      (''last_role_failure'', rr_failure r), (''dispatch_in_flight'', rr_in_flight r),
      (''actions'', JList (map action_json (rr_actions r))), (''code_fix_iteration'', JInt (rr_iterations r)),
      (''max_code_fix_iterations'', JInt MAX_CODE_FIX_ITERATIONS), (''fix_loop_exhausted'', JBool (rr_exhausted r)),
      (''current_phase'', JStr (rr_phase r)), (''workspace_files_on_disk'', JInt (int (rr_files r))),
      (''code_review_blocked'', JBool (rr_blocked r)), (''code_files_count'', rr_code_files r)] extra"

text \<open>The number bounds how often a pulse reaps and so pulses again; two is enough (\<open>recovery_pulse_fuel\<close>).\<close>

fun recovery_pulse :: "nat \<Rightarrow> recovery_env \<Rightarrow> string \<Rightarrow> (string \<times> json) list \<Rightarrow> hub_state \<Rightarrow> hub_state" where
  "recovery_pulse 0 E project_id extra s = s"
| "recovery_pulse (Suc n) E project_id extra s =
     (case status_via (recovery_pulse n E) E project_id s of
        (None, s1) \<Rightarrow> s1
      | (Some r, s1) \<Rightarrow> on_store (publish_event (recovery_pulse_event E project_id r extra)) s1)"

definition publish_recovery_pulse :: "recovery_env \<Rightarrow> string \<Rightarrow> (string \<times> json) list \<Rightarrow> hub_state \<Rightarrow> hub_state" where
  "publish_recovery_pulse E = recovery_pulse 2 E"

definition recovery_status :: "recovery_env \<Rightarrow> string \<Rightarrow> hub_state \<Rightarrow> recovery_report option \<times> hub_state" where
  "recovery_status E = status_via (publish_recovery_pulse E) E"

definition schedule_recovery_pulse :: "string \<Rightarrow> hub_state \<Rightarrow> hub_state" where
  "schedule_recovery_pulse project_id s = s\<lparr>hs_pulses := hs_pulses s @ [project_id]\<rparr>"

definition recovery_cancel_inflight :: "recovery_env \<Rightarrow> string \<Rightarrow> hub_state \<Rightarrow> (string, bool) res \<times> hub_state" where
  "recovery_cancel_inflight E project_id s =
     (case load_project_full E project_id s of
        None \<Rightarrow> (Inl ''project_not_found'', s)
      | Some p \<Rightarrow>
          (if \<not> has (hp_metadata p) ''recovery_dispatch_in_flight'' then (Inr False, publish_recovery_pulse E (hp_uuid p) [] s)
           else let s1 = persist_metadata_patch E (hp_uuid p) [(''recovery_dispatch_in_flight'', JNull)] s in
             (Inr True, publish_recovery_pulse E (hp_uuid p) [(''dispatch_in_flight'', JNull)] (not_in_flight_pulse E (hp_uuid p) s1))))"

text \<open>At start-up the key is removed from every project that is not finished.\<close>

definition orphaned :: "hub_project \<Rightarrow> bool" where
  "orphaned p = (map_of (hp_metadata p) ''recovery_dispatch_in_flight'' \<noteq> None \<and> hp_status p \<notin> {''terminated'', ''completed''})"

definition clear_orphaned_recovery_dispatches_on_startup :: "recovery_env \<Rightarrow> hub_state \<Rightarrow> nat \<times> hub_state" where
  "clear_orphaned_recovery_dispatches_on_startup E s = (if \<not> re_pool E then (0, s) else
     let uuids = map hp_uuid (filter orphaned (hs_projects s));
         s1 = s\<lparr>hs_projects := map (\<lambda>p. if orphaned p
           then p\<lparr>hp_metadata := AList.delete ''recovery_dispatch_in_flight'' (hp_metadata p), hp_updated_at := re_now E\<rparr> else p) (hs_projects s)\<rparr> in
     (length uuids, fold (\<lambda>u t. publish_recovery_pulse E u [(''dispatch_in_flight'', JNull)] (not_in_flight_pulse E u t)) uuids s1))"

text \<open>The dashboard's scan of stuck projects.\<close>

definition recovery_summary :: "recovery_env \<Rightarrow> nat \<Rightarrow> hub_state \<Rightarrow> (hub_project \<times> string list \<times> nat \<times> recovery_action option) list" where
  "recovery_summary E limit s = (if \<not> re_pool E then [] else
     (let index = build_pending_decision_index (re_cards E) (hs_store s);
          rows = take limit (sort_key (\<lambda>p. - hp_updated_at p) (filter (\<lambda>p. hp_status p = ''active'' \<and>
            hp_phase p \<notin> {''retro'', ''released'', ''terminated''}) (hs_projects s))) in
      map (\<lambda>p. let n = pending_count_for_project p index in (p, stuck_reasons E p n, n, pick_resume_action E p))
        (filter (\<lambda>p. is_stuck E p (pending_count_for_project p index)) rows)))"

section \<open>Dispatch\<close>

definition phase_bucket :: "string \<Rightarrow> string" where
  "phase_bucket phase =
     (if phase \<in> {''plan_in_progress'', ''plan_approved'', ''plan''} then ''plan''
      else if phase \<in> {''build_in_progress'', ''build_complete'', ''build''} then ''build''
      else if phase \<in> {''verify_in_progress'', ''verify_approved'', ''verify_approved_with_warnings'', ''verify''} then ''verify''
      else if phase \<in> {''acceptance'', ''released'', ''operate'', ''retro'', ''release''} then ''release''
      else ''intake'')"

definition NL2 :: string where
  "NL2 = [CHR 0x0A, CHR 0x0A]"

definition founder_note :: "string option \<Rightarrow> string" where
  "founder_note note = (case note of Some (c # cs) \<Rightarrow> NL2 @ ''## Founder note'' @ NL2 @ py_strip (c # cs) | _ \<Rightarrow> [])"

abbreviation params :: "string \<Rightarrow> string option \<Rightarrow> string option \<Rightarrow> role_params" where
  "params kind card_kind next_phase \<equiv>
     \<lparr>rp_kind = kind, rp_card_kind = card_kind, rp_next_phase = next_phase, rp_context = None, rp_role = None\<rparr>"

fun dispatch_params :: "recovery_env \<Rightarrow> recovery_action \<Rightarrow> hub_project \<Rightarrow> string option \<Rightarrow> role_params option" where
  "dispatch_params E Retry_planner p note = Some (params ''prd_approval'' (Some ''roadmap_approval'') (Some (phase_bucket ''plan_in_progress'')))"
| "dispatch_params E Retry_architect p note = Some (params ''roadmap_approval'' (Some ''trd_approval'') (Some (phase_bucket ''plan_in_progress'')))"
| "dispatch_params E Retry_conductor p note = Some (params ''trd_approval'' (Some ''sprint_plan_approval'') (Some (phase_bucket ''plan_in_progress'')))"
| "dispatch_params E Retry_engineer p note = Some (params ''sprint_plan_approval'' (Some ''code_approval'') None)"
| "dispatch_params E Retry_engineer_remediate p note =
     Some ((params ''code_review_blocked'' (Some ''code_approval'') (Some (phase_bucket ''verify_in_progress'')))
       \<lparr>rp_context := Some (take 12000 (''## Code review findings (manual recovery)'' @ NL2 @
          text_or_empty (re_cards E) (meta (hp_metadata p) ''code_review_md'') @ founder_note note))\<rparr>)"
| "dispatch_params E Retry_code_review p note =
     Some ((params ''code_approval'' None (Some (phase_bucket ''verify_in_progress'')))\<lparr>rp_role := Some ''verify''\<rparr>)"
| "dispatch_params E Retry_devops p note = Some (params ''code_review_pass'' (Some ''devops_approval'') (Some ''verify_in_progress''))"
| "dispatch_params E Retry_qa p note = Some (params ''devops_approval'' (Some ''qa_approval'') (Some (phase_bucket ''verify_in_progress'')))"
| "dispatch_params E Retry_operate p note = Some (params ''operate_kickoff'' None None)"
| "dispatch_params E Retry_feature p note =
     Some ((params ''feature_request'' (Some ''code_approval'') None)
       \<lparr>rp_context := Some (take 12000 (''## Operate-phase feature request'' @ NL2 @
          py_strip (case pending_feature_request (re_cards E) (hp_metadata p) of Some f \<Rightarrow> f | None \<Rightarrow> []) @ founder_note note))\<rparr>)"
| "dispatch_params E Reset_fix_loop p note = None"
| "dispatch_params E Resume p note = None"

datatype recovery_reply = Rp_error string | Rp_skipped | Rp_reset | Rp_started recovery_action string

definition reply_ok :: "recovery_reply \<Rightarrow> bool" where
  "reply_ok r = (case r of Rp_error _ \<Rightarrow> False | _ \<Rightarrow> True)"

definition remediate_guard :: "recovery_env \<Rightarrow> hub_project \<Rightarrow> bool \<Rightarrow> hub_state \<Rightarrow> string option" where
  "remediate_guard E p auto_loop s =
     (if auto_loop then (if fix_loop_exhausted E p then fix_loop_guard E p False s else None)
      else (case fix_loop_guard E p True s of Some e \<Rightarrow> (if e = ''pending_decisions'' then Some e else None) | None \<Rightarrow> None))"

definition in_flight_flag :: "recovery_env \<Rightarrow> recovery_action \<Rightarrow> string \<Rightarrow> string \<Rightarrow> json" where
  "in_flight_flag E resolved kind actor =
     JDict [(''action'', action_json resolved), (''dispatch_kind'', JStr kind), (''actor'', JStr actor), (''started_at'', JStr (re_iso E (re_now E)))]"

definition start_role :: "recovery_env \<Rightarrow> hub_project \<Rightarrow> recovery_action \<Rightarrow> role_params \<Rightarrow> string \<Rightarrow> hub_state \<Rightarrow> hub_state" where
  "start_role E p resolved ps actor s =
     (let s1 = persist_metadata_patch E (hp_uuid p) ((''recovery_dispatch_in_flight'', in_flight_flag E resolved (rp_kind ps) actor) #
            (if resolved = Retry_feature then feature_iteration_start_patch (hp_metadata p) else [])) s;
          s2 = on_store (publish_project_pulse (hp_uuid p) (re_ts E) [(''current_phase'', JStr (hp_phase p)),
            (''dispatch_in_flight'', JBool True), (''dispatch_kind'', JStr (rp_kind ps))]) s1;
          s3 = schedule_recovery_pulse (hp_uuid p) s2 in
      s3\<lparr>hs_jobs := hs_jobs s3 @ [\<lparr>rj_project = p, rj_params = ps, rj_actor = actor, rj_started = re_now E\<rparr>]\<rparr>)"

text \<open>The parts of \<open>recovery_dispatch\<close> after the flag is reaped, and after the row is loaded.\<close>

definition decide_dispatch ::
    "recovery_env \<Rightarrow> hub_project \<Rightarrow> recovery_action \<Rightarrow> string \<Rightarrow> string option \<Rightarrow> bool \<Rightarrow> hub_state \<Rightarrow> recovery_reply \<times> hub_state" where
  "decide_dispatch E p resolved actor note auto_loop s =
     (let md = hp_metadata p; inflight = meta md ''recovery_dispatch_in_flight'';
          fresh = (truthy inflight \<and> \<not> dispatch_in_flight_stale E inflight) in
      if auto_loop \<and> resolved = Retry_engineer_remediate \<and> fresh \<and>
         (case inflight of JDict d \<Rightarrow> meta d ''action'' = JStr ''retry_engineer_remediate'' | _ \<Rightarrow> False) then (Rp_skipped, s)
      else if fresh then (Rp_error ''dispatch_in_flight'', s)
      else if resolved = Reset_fix_loop then
        (if \<not> fix_loop_exhausted E p \<and> \<not> (has md ''code_review_blocked'' \<and> 0 < code_fix_iteration_count E md)
         then (Rp_error ''action_not_allowed'', s)
         else (Rp_reset, publish_recovery_pulse E (hp_uuid p) [] (persist_metadata_patch E (hp_uuid p)
           [(''code_review_blocked'', JBool False), (''code_fix_iteration'', JInt 0)] s)))
      else (case (if resolved = Retry_engineer_remediate then remediate_guard E p auto_loop s else None) of
          Some e \<Rightarrow> (Rp_error e, s)
        | None \<Rightarrow>
            (if resolved \<notin> set (action_specs E p) then (Rp_error ''action_not_allowed'', s)
             else (case dispatch_params E resolved p note of
                 None \<Rightarrow> (Rp_error ''unknown recovery action'', s)
               | Some ps \<Rightarrow> (Rp_started resolved (rp_kind ps), start_role E p resolved ps actor s)))))"

definition dispatch_loaded ::
    "recovery_env \<Rightarrow> hub_project \<Rightarrow> recovery_action \<Rightarrow> string \<Rightarrow> string option \<Rightarrow> bool \<Rightarrow> hub_state \<Rightarrow> recovery_reply \<times> hub_state" where
  "dispatch_loaded E p action actor note auto_loop s =
     (case (if action = Resume then pick_resume_action E p else Some action) of
        None \<Rightarrow> (Rp_error ''no_resume_action'', s)
      | Some resolved \<Rightarrow>
          let (reaped, s1) = reap_stale_dispatch_inflight (publish_recovery_pulse E) E p True s in
          decide_dispatch E (if reaped then p\<lparr>hp_metadata := merge_meta (hp_metadata p) [(''recovery_dispatch_in_flight'', JNull)]\<rparr> else p)
            resolved actor note auto_loop s1)"

definition recovery_dispatch ::
    "recovery_env \<Rightarrow> string \<Rightarrow> recovery_action \<Rightarrow> string \<Rightarrow> string option \<Rightarrow> bool \<Rightarrow> hub_state \<Rightarrow> recovery_reply \<times> hub_state" where
  "recovery_dispatch E project_id action actor note auto_loop s =
     (case load_project_full E project_id s of
        None \<Rightarrow> (Rp_error ''project_not_found'', s)
      | Some p \<Rightarrow> dispatch_loaded E p action actor note auto_loop s)"

section \<open>What runs in the background\<close>

text \<open>\<open>orchestrate\<close> runs a role: None if it raises, otherwise whether it was handled. \<open>gap\<close> posts the
  card that says that nothing handled it.\<close>

record role_runner =
  rn_orchestrate :: "hub_project \<Rightarrow> string \<Rightarrow> role_params \<Rightarrow> hub_state \<Rightarrow> bool option \<times> hub_state"
  rn_gap :: "hub_project \<Rightarrow> role_params \<Rightarrow> hub_state \<Rightarrow> hub_state"

text \<open>A remediation without findings scans first, and stops if the scan lifts the block.\<close>

definition rescan :: "recovery_env \<Rightarrow> role_runner \<Rightarrow> role_job \<Rightarrow> hub_state \<Rightarrow> ((hub_project \<times> role_params) option) option \<times> hub_state" where
  "rescan E R j s =
     (let p = rj_project j; ps = rj_params j; C = re_cards E in
      if rp_kind ps \<in> {''code_review_blocked'', ''security_review_blocked''} \<and>
         py_strip (text_or_empty C (meta (hp_metadata p) ''code_review_md'')) = [] then
        (case rn_orchestrate R p (rj_actor j) (params ''code_approval'' None None) s of
           (None, s1) \<Rightarrow> (None, s1)
         | (Some False, s1) \<Rightarrow> (Some (Some (p, ps)), s1)
         | (Some True, s1) \<Rightarrow>
             let q = (case load_project_full E (hp_uuid p) s1 of Some q \<Rightarrow> q | None \<Rightarrow> p) in
             (if \<not> has (hp_metadata q) ''code_review_blocked'' then (Some None, s1)
              else (Some (Some (q, ps\<lparr>rp_context := Some ((if rp_kind ps = ''security_review_blocked''
                  then ''## Security review findings (recovery scan)'' else ''## Code review findings (recovery scan)'') @ NL2 @
                  take 12000 (text_or_empty C (meta (hp_metadata q) ''code_review_md'')))\<rparr>)), s1)))
      else (Some (Some (p, ps)), s))"

text \<open>The \<open>finally\<close> block, whatever happened before.\<close>

definition finish_role :: "recovery_env \<Rightarrow> string \<Rightarrow> hub_state \<Rightarrow> hub_state" where
  "finish_role E project_uuid s = publish_recovery_pulse E project_uuid []
     (not_in_flight_pulse E project_uuid (persist_metadata_patch E project_uuid [(''recovery_dispatch_in_flight'', JNull)] s))"

definition run_recovery_orchestration :: "recovery_env \<Rightarrow> role_runner \<Rightarrow> role_job \<Rightarrow> hub_state \<Rightarrow> hub_state" where
  "run_recovery_orchestration E R j s = finish_role E (hp_uuid (rj_project j))
     (case rescan E R j s of
        (None, s1) \<Rightarrow> s1
      | (Some None, s1) \<Rightarrow> s1
      | (Some (Some (p, ps)), s1) \<Rightarrow>
          (case rn_orchestrate R p (rj_actor j) ps s1 of
             (None, s2) \<Rightarrow> s2 | (Some True, s2) \<Rightarrow> s2 | (Some False, s2) \<Rightarrow> rn_gap R p ps s2))"

definition dispatch_next_operate_feature :: "recovery_env \<Rightarrow> string \<Rightarrow> (string \<times> json) list \<Rightarrow> string \<Rightarrow> hub_state \<Rightarrow> recovery_reply \<times> hub_state" where
  "dispatch_next_operate_feature E project_id md actor s =
     (if pending_feature_request (re_cards E) md = None then (Rp_skipped, s)
      else if has md ''recovery_dispatch_in_flight'' then (Rp_error ''dispatch_in_flight'', s)
      else recovery_dispatch E project_id Retry_feature actor None True s)"

definition AUTO_REMEDIATE_MAX_ATTEMPTS :: nat where
  "AUTO_REMEDIATE_MAX_ATTEMPTS = 12"

text \<open>The retries of an automatic remediation; \<open>pause\<close> is what the rest of the Hub does during a sleep.\<close>

fun run_with_retry :: "(nat \<Rightarrow> recovery_env) \<Rightarrow> (nat \<Rightarrow> hub_state \<Rightarrow> hub_state) \<Rightarrow> nat \<Rightarrow> string \<Rightarrow> string \<Rightarrow> hub_state \<Rightarrow> hub_state" where
  "run_with_retry Es pause 0 project_id actor s = s"
| "run_with_retry Es pause (Suc n) project_id actor s =
     (case recovery_dispatch (Es n) project_id Retry_engineer_remediate actor None True s of
        (Rp_error e, s1) \<Rightarrow> (if e \<noteq> ''dispatch_in_flight'' \<or> n = 0 then s1 else run_with_retry Es pause n project_id actor (pause n s1))
      | (_, s1) \<Rightarrow> s1)"

definition schedule_auto_engineer_remediate :: "string \<Rightarrow> hub_state \<Rightarrow> bool \<times> hub_state" where
  "schedule_auto_engineer_remediate project_id s =
     (if project_id \<in> set (hs_scheduled s) then (False, s) else (True, s\<lparr>hs_scheduled := project_id # hs_scheduled s\<rparr>))"

definition auto_engineer_remediate :: "(nat \<Rightarrow> recovery_env) \<Rightarrow> (nat \<Rightarrow> hub_state \<Rightarrow> hub_state) \<Rightarrow> string \<Rightarrow> string \<Rightarrow> hub_state \<Rightarrow> hub_state" where
  "auto_engineer_remediate Es pause project_id actor s =
     (let s1 = run_with_retry Es pause AUTO_REMEDIATE_MAX_ATTEMPTS project_id actor s in
      s1\<lparr>hs_scheduled := removeAll project_id (hs_scheduled s1)\<rparr>)"

definition auto_code_review :: "recovery_env \<Rightarrow> string \<Rightarrow> string \<Rightarrow> hub_state \<Rightarrow> hub_state" where
  "auto_code_review E project_id actor s =
     (case load_project_full E project_id s of
        None \<Rightarrow> s
      | Some p \<Rightarrow>
          let s1 = (if fix_loop_exhausted E p \<or> 0 < code_fix_iteration_count E (hp_metadata p)
            then snd (recovery_dispatch E project_id Reset_fix_loop actor None True s) else s) in
          snd (recovery_dispatch E project_id Retry_code_review actor None True s1))"

definition retry_action_for_dispatch_kind :: "string \<Rightarrow> recovery_action option" where
  "retry_action_for_dispatch_kind kind = map_of
     [(''sprint_plan_approval'', Retry_engineer), (''feature_request'', Retry_feature), (''code_approval'', Retry_code_review),
      (''code_review_blocked'', Retry_engineer_remediate), (''security_review_blocked'', Retry_engineer_remediate),
      (''code_review_pass'', Retry_devops), (''devops_approval'', Retry_qa), (''prd_approval'', Retry_planner),
      (''roadmap_approval'', Retry_architect), (''trd_approval'', Retry_conductor)] kind"

section \<open>Basic facts\<close>

lemma meta_merge: "meta (merge_meta md patch) k = (case map_of (rev patch) k of Some j \<Rightarrow> j | None \<Rightarrow> meta md k)"
proof (induction patch arbitrary: md)
  case (Cons x patch)
  have "meta (AList.update (fst x) (snd x) md) k = (if k = fst x then snd x else meta md k)"
    by (simp add: meta_def map_of_update)
  then show ?case using Cons by (auto simp: merge_meta_def split_beta map_add_def split: option.split)
qed (simp add: merge_meta_def)

lemma meta_update [simp]: "meta (AList.update k' j md) k = (if k = k' then j else meta md k)"
  by (simp add: meta_def map_of_update)

lemma meta_merge1 [simp]: "merge_meta md [] = md" "merge_meta md ((k, j) # patch) = merge_meta (AList.update k j md) patch"
  by (simp_all add: merge_meta_def)

lemma persist_frame [simp]:
  "hs_jobs (persist_metadata_patch E i patch s) = hs_jobs s" "hs_store (persist_metadata_patch E i patch s) = hs_store s"
  "hs_pulses (persist_metadata_patch E i patch s) = hs_pulses s" "hs_scheduled (persist_metadata_patch E i patch s) = hs_scheduled s"
  by (simp_all add: persist_metadata_patch_def)

lemma not_in_flight_frame [simp]:
  "hs_jobs (not_in_flight_pulse E u s) = hs_jobs s" "hs_projects (not_in_flight_pulse E u s) = hs_projects s"
  "hs_pulses (not_in_flight_pulse E u s) = hs_pulses s" "hs_scheduled (not_in_flight_pulse E u s) = hs_scheduled s"
  "load_project_full E u' (not_in_flight_pulse E u s) = load_project_full E u' s"
  by (simp_all add: not_in_flight_pulse_def load_project_full_def)

text \<open>What a pulse, or the reading of a status, leaves alone.\<close>

definition rest_kept :: "hub_state \<Rightarrow> hub_state \<Rightarrow> bool" where
  "rest_kept s s' \<longleftrightarrow> hs_jobs s' = hs_jobs s \<and> hs_scheduled s' = hs_scheduled s \<and> ds_cards (hs_store s') = ds_cards (hs_store s) \<and>
     ds_table (hs_store s') = ds_table (hs_store s) \<and> ds_db (hs_store s') = ds_db (hs_store s) \<and> ds_tasks (hs_store s') = ds_tasks (hs_store s)"

text \<open>Uuids identify rows and are not numbers.\<close>

definition rows_ok :: "hub_state \<Rightarrow> bool" where
  "rows_ok s \<longleftrightarrow> distinct (map hp_uuid (hs_projects s)) \<and> distinct (map hp_id (hs_projects s)) \<and> (\<forall>p \<in> set (hs_projects s). \<not> isdigit (hp_uuid p))"

lemma rest_kept_refl [simp]: "rest_kept s s"
  by (simp add: rest_kept_def)

lemma rest_kept_trans: "rest_kept s t \<Longrightarrow> rest_kept t u \<Longrightarrow> rest_kept s u"
  by (simp add: rest_kept_def)

lemma pulse_kept [simp]:
  "rest_kept s (not_in_flight_pulse E u s)" "rest_kept s (persist_metadata_patch E u patch s)" "rest_kept s (on_store (publish_event ev) s)"
  by (simp_all add: rest_kept_def not_in_flight_pulse_def publish_project_pulse_def publish_event_def)

definition flag_of :: "hub_project \<Rightarrow> json" where
  "flag_of p = meta (hp_metadata p) ''recovery_dispatch_in_flight''"

definition stale :: "recovery_env \<Rightarrow> hub_project \<Rightarrow> bool" where
  "stale E p = (truthy (flag_of p) \<and> dispatch_in_flight_stale E (flag_of p))"

lemma reap_eq:
  "reap_stale_dispatch_inflight pulse E p True s =
     (if stale E p then (True, pulse (hp_uuid p) [(''dispatch_in_flight'', JNull)] (not_in_flight_pulse E (hp_uuid p)
        (persist_metadata_patch E (hp_uuid p) [(''recovery_dispatch_in_flight'', JNull)] s))) else (False, s))"
  by (simp add: reap_stale_dispatch_inflight_def stale_def flag_of_def Let_def)

lemma status_via_snd:
  "snd (status_via pulse E i s) = (case load_project_full E i s of None \<Rightarrow> s | Some p \<Rightarrow>
     snd (reap_stale_dispatch_inflight pulse E p True s))"
  "fst (status_via pulse E i s) = None \<longleftrightarrow> load_project_full E i s = None"
  by (simp_all add: status_via_def Let_def split_beta split: option.split)

lemma recovery_pulse_kept: "rest_kept s (recovery_pulse n E i extra s)"
proof (induction n arbitrary: i extra s)
  case (Suc n)
  have "rest_kept s (snd (status_via (recovery_pulse n E) E i s))"
  proof (cases "load_project_full E i s")
    case (Some p)
    have "rest_kept s (not_in_flight_pulse E (hp_uuid p) (persist_metadata_patch E (hp_uuid p) [(''recovery_dispatch_in_flight'', JNull)] s))"
      by (rule rest_kept_trans [OF pulse_kept(2) pulse_kept(1)])
    then show ?thesis using rest_kept_trans [OF _ Suc.IH] by (simp add: status_via_snd reap_eq Some)
  qed (simp add: status_via_snd)
  then show ?case by (auto split: prod.split option.split intro: rest_kept_trans [OF _ pulse_kept(3)])
qed simp

text \<open>Where nothing is stale, a pulse changes no row; and once reaped, nothing is stale.\<close>

lemma recovery_pulse_calm:
  assumes "\<And>p. load_project_full E i s = Some p \<Longrightarrow> \<not> stale E p"
  shows "hs_projects (recovery_pulse n E i extra s) = hs_projects s" "recovery_pulse (Suc n) E i extra s = recovery_pulse (Suc m) E i extra s"
proof -
  have st: "status_via (recovery_pulse k E) E i s = status_via (recovery_pulse m E) E i s" "snd (status_via (recovery_pulse k E) E i s) = s" for k
    using assms by (auto simp: status_via_def reap_eq Let_def split: option.split)
  from st(1) [of n] show "recovery_pulse (Suc n) E i extra s = recovery_pulse (Suc m) E i extra s" by simp
  show "hs_projects (recovery_pulse n E i extra s) = hs_projects s"
    using st(2) [of "n - 1"] by (cases n) (auto split: prod.split option.split)
qed

lemma find_map_row:
  assumes "\<And>p. is_row i (f p) = is_row i p"
  shows "find (is_row i) (map f ps) = map_option f (find (is_row i) ps)"
  using assms by (induction ps) auto

lemma is_row_update [simp]: "is_row i (p\<lparr>hp_metadata := md, hp_updated_at := t\<rparr>) = is_row i p" "is_row i (p\<lparr>hp_metadata := md\<rparr>) = is_row i p"
  by (simp_all add: is_row_def)

lemma load_persist:
  "load_project_full E i (persist_metadata_patch E i patch s) =
     map_option (\<lambda>p. p\<lparr>hp_metadata := merge_meta (hp_metadata p) patch, hp_updated_at := re_now E\<rparr>) (load_project_full E i s)"
  unfolding load_project_full_def persist_metadata_patch_def
  by (auto simp: find_map_row dest: find_Some_mem intro!: option.map_cong)

lemma reaped_calm:
  "load_project_full E u (not_in_flight_pulse E u (persist_metadata_patch E u [(''recovery_dispatch_in_flight'', JNull)] s)) = Some p \<Longrightarrow> \<not> stale E p"
  by (auto simp: load_persist stale_def flag_of_def truthy_def)

text \<open>More fuel changes nothing.\<close>

lemma recovery_pulse_fuel: "recovery_pulse (Suc (Suc n)) E i extra s = recovery_pulse 2 E i extra s"
proof -
  let ?r = "\<lambda>u. not_in_flight_pulse E u (persist_metadata_patch E u [(''recovery_dispatch_in_flight'', JNull)] s)"
  have "recovery_pulse (Suc n) E u x (?r u) = recovery_pulse (Suc 0) E u x (?r u)" for u x
    by (rule recovery_pulse_calm(2)) (erule reaped_calm)
  then have "status_via (recovery_pulse (Suc n) E) E i s = status_via (recovery_pulse (Suc 0) E) E i s"
    by (simp add: status_via_def reap_eq Let_def del: recovery_pulse.simps split: option.split)
  then show ?thesis by (simp add: numeral_2_eq_2)
qed

lemma pulse_after_reap:
  "hs_projects (publish_recovery_pulse E u extra (not_in_flight_pulse E u (persist_metadata_patch E u [(''recovery_dispatch_in_flight'', JNull)] s))) =
     hs_projects (persist_metadata_patch E u [(''recovery_dispatch_in_flight'', JNull)] s)"
  unfolding publish_recovery_pulse_def by (subst recovery_pulse_calm(1) [OF reaped_calm]) simp_all

lemma publish_recovery_pulse_kept: "rest_kept s (publish_recovery_pulse E u extra s)"
  by (simp add: publish_recovery_pulse_def recovery_pulse_kept del: recovery_pulse.simps)

section \<open>When a dispatch starts a role\<close>

definition fresh :: "recovery_env \<Rightarrow> hub_project \<Rightarrow> bool" where
  "fresh E p = (truthy (flag_of p) \<and> \<not> dispatch_in_flight_stale E (flag_of p))"

definition cleared :: "recovery_env \<Rightarrow> hub_project \<Rightarrow> hub_project" where
  "cleared E p = (if stale E p then p\<lparr>hp_metadata := merge_meta (hp_metadata p) [(''recovery_dispatch_in_flight'', JNull)]\<rparr> else p)"

definition requested_action :: "recovery_env \<Rightarrow> hub_project \<Rightarrow> recovery_action \<Rightarrow> recovery_action option" where
  "requested_action E p action = (if action = Resume then pick_resume_action E p else Some action)"

definition may_start :: "recovery_env \<Rightarrow> hub_project \<Rightarrow> recovery_action \<Rightarrow> bool \<Rightarrow> hub_state \<Rightarrow> bool" where
  "may_start E p a auto_loop s \<longleftrightarrow> \<not> fresh E p \<and> a \<notin> {Resume, Reset_fix_loop} \<and> a \<in> set (action_specs E (cleared E p)) \<and>
     (a = Retry_engineer_remediate \<longrightarrow>
        (if auto_loop then \<not> fix_loop_exhausted E (cleared E p)
         else fix_loop_exhausted E (cleared E p) \<or> count_pending_for_project (re_cards E) (cleared E p) (hs_store s) = 0))"

definition reap :: "recovery_env \<Rightarrow> hub_project \<Rightarrow> hub_state \<Rightarrow> hub_state" where
  "reap E p s = snd (reap_stale_dispatch_inflight (publish_recovery_pulse E) E p True s)"

lemma flag_cleared: "stale E p \<Longrightarrow> flag_of (cleared E p) = JNull" "\<not> stale E p \<Longrightarrow> cleared E p = p"
  by (simp_all add: cleared_def flag_of_def)

lemma hp_cleared [simp]: "hp_uuid (cleared E p) = hp_uuid p" "hp_id (cleared E p) = hp_id p" "hp_phase (cleared E p) = hp_phase p"
  by (simp_all add: cleared_def)

lemma reap_projects: "hs_projects (reap E p s) = (if stale E p
   then hs_projects (persist_metadata_patch E (hp_uuid p) [(''recovery_dispatch_in_flight'', JNull)] s) else hs_projects s)"
  by (simp add: reap_def reap_eq pulse_after_reap)

lemma reap_kept: "rest_kept s (reap E p s)"
  using rest_kept_trans [OF rest_kept_trans [OF pulse_kept(2) pulse_kept(1)] publish_recovery_pulse_kept]
  by (simp add: reap_def reap_eq)

lemma count_pending_kept:
  assumes "rest_kept s s'"
  shows "count_pending_for_project C p (hs_store s') = count_pending_for_project C p (hs_store s)"
proof -
  have "alist C f (hs_store s') = alist C f (hs_store s)" for f
    using assms by (simp add: rest_kept_def alist_def list_from_db_def list_cards_def db_works_def)
  then show ?thesis by (simp add: count_pending_for_project_def build_pending_decision_index_def)
qed

lemma dispatch_params_some: "dispatch_params E a p note = None \<longleftrightarrow> a \<in> {Resume, Reset_fix_loop}"
  by (cases a) simp_all

lemma start_role_jobs: "hs_jobs (start_role E p a ps actor s) = hs_jobs s @ [\<lparr>rj_project = p, rj_params = ps, rj_actor = actor, rj_started = re_now E\<rparr>]"
  by (simp add: start_role_def Let_def schedule_recovery_pulse_def)

lemma dispatch_loaded_cleared:
  "dispatch_loaded E p action actor note auto_loop s = (case requested_action E p action of
     None \<Rightarrow> (Rp_error ''no_resume_action'', s) | Some a \<Rightarrow> decide_dispatch E (cleared E p) a actor note auto_loop (reap E p s))"
  by (simp add: dispatch_loaded_def requested_action_def reap_def reap_eq cleared_def split_beta split: option.split)

lemma fresh_cleared: "fresh E (cleared E p) = fresh E p"
  using flag_cleared [of E p] by (cases "stale E p") (auto simp: fresh_def stale_def truthy_def)

lemma guard_iff:
  assumes "rest_kept s s'"
  shows "(if a = Retry_engineer_remediate then remediate_guard E p auto_loop s' else None) = None \<longleftrightarrow>
    (a = Retry_engineer_remediate \<longrightarrow> (if auto_loop then \<not> fix_loop_exhausted E p
       else fix_loop_exhausted E p \<or> count_pending_for_project (re_cards E) p (hs_store s) = 0))"
  using count_pending_kept [OF assms] by (simp add: remediate_guard_def fix_loop_guard_def)

lemma decide_dispatch_started:
  assumes "may_start E p a auto_loop s" "dispatch_params E a (cleared E p) note = Some ps"
  shows "decide_dispatch E (cleared E p) a actor note auto_loop (reap E p s) =
    (Rp_started a (rp_kind ps), start_role E (cleared E p) a ps actor (reap E p s))"
proof -
  have "\<not> fresh E (cleared E p)" using assms(1) by (simp add: fresh_cleared may_start_def)
  moreover have "(if a = Retry_engineer_remediate then remediate_guard E (cleared E p) auto_loop (reap E p s) else None) = None"
    using assms(1) unfolding guard_iff [OF reap_kept] by (simp add: may_start_def)
  ultimately show ?thesis using assms unfolding decide_dispatch_def Let_def
    by (auto simp: may_start_def fresh_def flag_of_def)
qed

lemma decide_dispatch_refused:
  assumes "\<not> may_start E p a auto_loop s"
  shows "(\<forall>b k. fst (decide_dispatch E (cleared E p) a actor note auto_loop (reap E p s)) \<noteq> Rp_started b k) \<and>
    hs_jobs (snd (decide_dispatch E (cleared E p) a actor note auto_loop (reap E p s))) = hs_jobs s"
proof -
  have jobs: "hs_jobs (reap E p s) = hs_jobs s" using reap_kept [of s E p] by (simp add: rest_kept_def)
  have pulse: "hs_jobs (publish_recovery_pulse E u x t) = hs_jobs t" for u x t
    using publish_recovery_pulse_kept [of t E u x] by (simp add: rest_kept_def)
  show ?thesis
  proof (cases "fresh E (cleared E p) \<or> a = Reset_fix_loop")
    case True
    then show ?thesis by (auto simp: decide_dispatch_def Let_def fresh_def flag_of_def jobs pulse)
  next
    case False
    show ?thesis
    proof (cases "if a = Retry_engineer_remediate then remediate_guard E (cleared E p) auto_loop (reap E p s) else None")
      case None
      then have "a \<notin> set (action_specs E (cleared E p)) \<or> a = Resume"
        using assms False guard_iff [OF reap_kept, where a = a and p = "cleared E p"] by (auto simp: may_start_def fresh_cleared)
      then show ?thesis using False None unfolding decide_dispatch_def Let_def by (auto simp: fresh_def flag_of_def jobs)
    next
      case (Some e)
      then show ?thesis using False unfolding decide_dispatch_def Let_def by (auto simp: fresh_def flag_of_def jobs)
    qed
  qed
qed

text \<open>
  A dispatch starts a role exactly when the row exists, no other dispatch is in flight, the action belongs to
  the catalogue of the phase, an automatic remediation is within its limit and a manual one has no pending
  cards; it then starts exactly one, and otherwise none.
\<close>

theorem dispatch_starts_exactly:
  "case load_project_full E i s of
     None \<Rightarrow> recovery_dispatch E i action actor note auto_loop s = (Rp_error ''project_not_found'', s)
   | Some p \<Rightarrow>
       (case requested_action E p action of
          None \<Rightarrow> recovery_dispatch E i action actor note auto_loop s = (Rp_error ''no_resume_action'', s)
        | Some a \<Rightarrow>
            if may_start E p a auto_loop s
            then \<exists>ps. dispatch_params E a (cleared E p) note = Some ps \<and> recovery_dispatch E i action actor note auto_loop s =
              (Rp_started a (rp_kind ps), start_role E (cleared E p) a ps actor (reap E p s))
            else (\<forall>b k. fst (recovery_dispatch E i action actor note auto_loop s) \<noteq> Rp_started b k) \<and>
              hs_jobs (snd (recovery_dispatch E i action actor note auto_loop s)) = hs_jobs s)"
proof -
  have "\<exists>ps. dispatch_params E a (cleared E p) note = Some ps \<and> decide_dispatch E (cleared E p) a actor note auto_loop (reap E p s) =
      (Rp_started a (rp_kind ps), start_role E (cleared E p) a ps actor (reap E p s))" if m: "may_start E p a auto_loop s" for a p
  proof -
    have "dispatch_params E a (cleared E p) note \<noteq> None" using m by (auto simp: may_start_def dispatch_params_some)
    then show ?thesis using decide_dispatch_started [OF m] by auto
  qed
  then show ?thesis
    by (auto simp: recovery_dispatch_def dispatch_loaded_cleared decide_dispatch_refused split: option.split)
qed

section \<open>While a dispatch is in flight\<close>

definition only_row :: "string \<Rightarrow> hub_state \<Rightarrow> hub_state \<Rightarrow> bool" where
  "only_row u s s' \<longleftrightarrow> (\<exists>f. hs_projects s' = map f (hs_projects s) \<and>
     (\<forall>q. hp_uuid (f q) = hp_uuid q \<and> hp_id (f q) = hp_id q \<and> (hp_uuid q \<noteq> u \<longrightarrow> f q = q)))"

lemma only_row_same: "hs_projects s' = hs_projects s \<Longrightarrow> only_row u s s'"
  unfolding only_row_def by (intro exI [of _ id]) simp

lemma only_row_trans:
  assumes "only_row u s t" "only_row u t v"
  shows "only_row u s v"
proof -
  obtain f where f: "hs_projects t = map f (hs_projects s)" "\<forall>q. hp_uuid (f q) = hp_uuid q \<and> hp_id (f q) = hp_id q \<and> (hp_uuid q \<noteq> u \<longrightarrow> f q = q)"
    using assms(1) unfolding only_row_def by blast
  obtain g where g: "hs_projects v = map g (hs_projects t)" "\<forall>q. hp_uuid (g q) = hp_uuid q \<and> hp_id (g q) = hp_id q \<and> (hp_uuid q \<noteq> u \<longrightarrow> g q = q)"
    using assms(2) unfolding only_row_def by blast
  show ?thesis unfolding only_row_def by (rule exI [of _ "g \<circ> f"]) (use f g in auto)
qed

lemma only_row_persist: "\<not> isdigit u \<Longrightarrow> only_row u s (persist_metadata_patch E u patch s)"
  unfolding only_row_def persist_metadata_patch_def
  by (rule exI [of _ "\<lambda>q. if re_pool E \<and> is_row u q
    then q\<lparr>hp_metadata := merge_meta (hp_metadata q) patch, hp_updated_at := re_now E\<rparr> else q"]) (auto simp: is_row_def)

lemma only_row_pulse: "\<not> isdigit u \<Longrightarrow> only_row u s (recovery_pulse n E u extra s)"
proof (induction n arbitrary: extra s)
  case (Suc n)
  have st: "only_row u s (snd (status_via (recovery_pulse n E) E u s))"
  proof (cases "load_project_full E u s")
    case None
    then show ?thesis by (simp add: status_via_snd only_row_same)
  next
    case (Some p)
    have "hp_uuid p = u" using Some Suc.prems by (auto simp: load_project_full_def is_row_def dest: find_Some_mem split: if_splits)
    moreover have "only_row u s (not_in_flight_pulse E u (persist_metadata_patch E u [(''recovery_dispatch_in_flight'', JNull)] s))"
      by (rule only_row_trans [OF only_row_persist [OF Suc.prems] only_row_same]) simp
    ultimately show ?thesis using only_row_trans [OF _ Suc.IH [OF Suc.prems]] by (simp add: status_via_snd Some reap_eq only_row_same)
  qed
  obtain r s1 where s1: "status_via (recovery_pulse n E) E u s = (r, s1)" by (cases "status_via (recovery_pulse n E) E u s")
  have "only_row u s (on_store (publish_event ev) s1)" for ev by (rule only_row_trans [OF _ only_row_same]) (use st s1 in simp_all)
  then show ?case using st s1 by (cases r) simp_all
qed (simp add: only_row_same)

lemma only_row_reap: "\<not> isdigit (hp_uuid p) \<Longrightarrow> only_row (hp_uuid p) s (reap E p s)"
  using only_row_persist [of "hp_uuid p" s E] by (auto simp: only_row_def reap_projects intro: exI [of _ id])

lemma only_row_decide:
  assumes "\<not> isdigit (hp_uuid p)"
  shows "only_row (hp_uuid p) s (snd (decide_dispatch E p a actor note auto_loop s))"
proof -
  have "only_row (hp_uuid p) s (start_role E p a ps actor s)" for ps
    unfolding start_role_def Let_def schedule_recovery_pulse_def
    by (rule only_row_trans [OF only_row_persist [OF assms] only_row_same]) simp
  moreover have "only_row (hp_uuid p) s (publish_recovery_pulse E (hp_uuid p) [] (persist_metadata_patch E (hp_uuid p) patch s))" for patch
    unfolding publish_recovery_pulse_def by (rule only_row_trans [OF only_row_persist [OF assms] only_row_pulse [OF assms]])
  ultimately show ?thesis by (auto simp: decide_dispatch_def Let_def only_row_same split: option.split)
qed

lemma only_row_dispatch:
  assumes "\<not> isdigit (hp_uuid p)"
  shows "only_row (hp_uuid p) s (snd (dispatch_loaded E p action actor note auto_loop s))"
  using only_row_trans [OF only_row_reap [OF assms] only_row_decide [of "cleared E p", simplified, OF assms]]
  by (simp add: dispatch_loaded_cleared only_row_same split: option.split)

lemma rows_ok_only: "only_row u s s' \<Longrightarrow> rows_ok s \<Longrightarrow> rows_ok s'"
  by (auto simp: only_row_def rows_ok_def comp_def)

text \<open>A fresh flag refuses everything.\<close>

lemma fresh_refuses: "fresh E p \<Longrightarrow> snd (dispatch_loaded E p action actor note auto_loop s) = s"
  using fresh_cleared [of E p] by (auto simp: dispatch_loaded_cleared decide_dispatch_def Let_def fresh_def stale_def flag_of_def reap_def reap_eq split: option.split)

definition flagged :: "recovery_env \<Rightarrow> hub_state \<Rightarrow> role_job \<Rightarrow> bool" where
  "flagged E s j \<longleftrightarrow> (\<exists>q \<in> set (hs_projects s). hp_uuid q = hp_uuid (rj_project j) \<and>
     (\<exists>d. flag_of q = JDict d \<and> meta d ''started_at'' = JStr (re_iso E (rj_started j))))"

definition iso_ok :: "recovery_env \<Rightarrow> bool" where
  "iso_ok E \<longleftrightarrow> (\<forall>t. re_iso E t \<noteq> [] \<and> re_from_iso E (replace_z (re_iso E t)) = Some t)"

lemma load_row: "load_project_full E i s = Some p \<Longrightarrow> p \<in> set (hs_projects s) \<and> re_pool E"
  by (auto simp: load_project_full_def dest: find_Some_mem split: if_splits)

lemma only_row_mem: "only_row u s s' \<Longrightarrow> p \<in> set (hs_projects s) \<Longrightarrow> \<exists>q \<in> set (hs_projects s'). hp_uuid q = hp_uuid p"
  unfolding only_row_def by (elim exE) auto

lemma start_role_flagged:
  assumes "re_pool E" "\<not> isdigit (hp_uuid p)" "q \<in> set (hs_projects s)" "hp_uuid q = hp_uuid p"
  shows "flagged E (start_role E p a ps actor s) \<lparr>rj_project = p, rj_params = ps, rj_actor = actor, rj_started = re_now E\<rparr>"
proof -
  let ?patch = "(''recovery_dispatch_in_flight'', in_flight_flag E a (rp_kind ps) actor) #
    (if a = Retry_feature then feature_iteration_start_patch (hp_metadata p) else [])"
  let ?q = "q\<lparr>hp_metadata := merge_meta (hp_metadata q) ?patch, hp_updated_at := re_now E\<rparr>"
  have "?q \<in> set (hs_projects (start_role E p a ps actor s))"
    using assms by (force simp: start_role_def Let_def schedule_recovery_pulse_def persist_metadata_patch_def is_row_def)
  moreover have "flag_of ?q = in_flight_flag E a (rp_kind ps) actor"
    by (simp add: flag_of_def meta_merge feature_iteration_start_patch_def)
  ultimately show ?thesis using assms(4) unfolding flagged_def
    by (intro bexI [of _ ?q]) (auto simp: in_flight_flag_def meta_def)
qed

lemma flagged_fresh:
  assumes "iso_ok E" "rows_ok s" "flagged E s j" "p \<in> set (hs_projects s)" "hp_uuid p = hp_uuid (rj_project j)"
    and "flag_of q = flag_of p" "t' - rj_started j \<le> INFLIGHT_STALE_SECONDS"
  shows "fresh (E\<lparr>re_now := t'\<rparr>) q"
proof -
  obtain r d where r: "r \<in> set (hs_projects s)" "hp_uuid r = hp_uuid (rj_project j)" "flag_of r = JDict d"
    "meta d ''started_at'' = JStr (re_iso E (rj_started j))"
    using assms(3) by (auto simp: flagged_def)
  have "r = p" using assms(2,4,5) r(1,2) by (auto simp: rows_ok_def distinct_map inj_on_def)
  moreover have "d \<noteq> []" using r(4) by (auto simp: meta_def)
  ultimately show ?thesis using r(3,4) assms(1,6,7)
    by (auto simp: fresh_def dispatch_in_flight_stale_def iso_ok_def truthy_def json_text_def)
qed

lemma started_dispatchE:
  assumes "recovery_dispatch E i action actor note auto_loop s = (Rp_started a k, s1)" "load_project_full E i s = Some p"
  obtains ps where "s1 = start_role E (cleared E p) a ps actor (reap E p s)"
proof -
  have d: "dispatch_loaded E p action actor note auto_loop s = (Rp_started a k, s1)"
    using assms by (simp add: recovery_dispatch_def)
  then obtain b where b: "requested_action E p action = Some b"
    by (auto simp: dispatch_loaded_cleared split: option.splits)
  with d have dd: "decide_dispatch E (cleared E p) b actor note auto_loop (reap E p s) = (Rp_started a k, s1)"
    by (simp add: dispatch_loaded_cleared)
  have may: "may_start E p b auto_loop s"
    using decide_dispatch_refused [of E p b auto_loop s actor "note"] dd by fastforce
  then obtain ps where ps: "dispatch_params E b (cleared E p) note = Some ps"
    using dispatch_params_some [where a = b and p = "cleared E p" and E = E] by (force simp: may_start_def)
  show thesis
    using decide_dispatch_started [OF may ps, of actor] dd by (intro that [of ps]) auto
qed

lemma fresh_not_started:
  "fresh E p \<Longrightarrow> fst (dispatch_loaded E p action actor note auto_loop s) \<noteq> Rp_started b k"
  using decide_dispatch_refused [of E p _ auto_loop s actor "note"]
  by (auto simp: dispatch_loaded_cleared may_start_def split: option.split)

text \<open>
  Claim C13. A recovery dispatch that started a role keeps every later dispatch of that project out for five minutes,
  as long as the mark it left on the project's row stays: whichever action a request within that time asks for, by
  whatever key it names the project and whatever else of the Hub has changed since, it starts no role and changes nothing.
  (Cancelling or the end of the role removes the mark; two requests that read the row before either marks it are
  the subject of \<open>concurrent_dispatches_start_two\<close>.)
\<close>

theorem started_role_blocks_second:
  assumes "iso_ok E" "rows_ok s"
    and first: "recovery_dispatch (E\<lparr>re_now := t\<rparr>) i action actor note auto_loop s = (Rp_started a k, s1)"
    and row: "load_project_full E i s = Some p"
    and marked: "q1 \<in> set (hs_projects s1)" "hp_uuid q1 = hp_uuid p"
    and later: "load_project_full E j s2 = Some q" "hp_uuid q = hp_uuid p" "flag_of q = flag_of q1"
    and soon: "t' - t \<le> INFLIGHT_STALE_SECONDS"
  shows "snd (recovery_dispatch (E\<lparr>re_now := t'\<rparr>) j action' actor' note' auto' s2) = s2 \<and>
    (\<forall>b l. fst (recovery_dispatch (E\<lparr>re_now := t'\<rparr>) j action' actor' note' auto' s2) \<noteq> Rp_started b l)"
proof -
  let ?E = "E\<lparr>re_now := t\<rparr>"
  let ?F = "E\<lparr>re_now := t'\<rparr>"
  have loads: "load_project_full ?E i s = Some p" "load_project_full ?F j s2 = Some q"
    using row later(1) by (simp_all add: load_project_full_def)
  note p = load_row [OF loads(1)]
  then have nd: "\<not> isdigit (hp_uuid p)" using assms(2) by (auto simp: rows_ok_def)
  obtain ps where s1: "s1 = start_role ?E (cleared ?E p) a ps actor (reap ?E p s)"
    using started_dispatchE [OF first loads(1)] by blast
  let ?j = "\<lparr>rj_project = cleared ?E p, rj_params = ps, rj_actor = actor, rj_started = t\<rparr>"
  obtain r where "r \<in> set (hs_projects (reap ?E p s))" "hp_uuid r = hp_uuid (cleared ?E p)"
    using only_row_mem [OF only_row_reap [OF nd] conjunct1 [OF p]] by auto
  then have "flagged ?E s1 ?j"
    using start_role_flagged [of ?E "cleared ?E p" r "reap ?E p s" a ps actor] p nd s1 by simp
  then have fl: "flagged E s1 ?j" by (simp add: flagged_def)
  have "s1 = snd (dispatch_loaded ?E p action actor note auto_loop s)"
    using first loads(1) by (simp add: recovery_dispatch_def)
  then have "rows_ok s1" using rows_ok_only [OF only_row_dispatch [OF nd] assms(2)] by simp
  from flagged_fresh [OF assms(1) this fl marked(1), of q t'] have "fresh ?F q"
    using marked(2) later(3) soon by simp
  from fresh_refuses [OF this] fresh_not_started [OF this] show ?thesis
    by (simp add: recovery_dispatch_def loads(2))
qed

section \<open>Where two roles run\<close>

lemma start_role_kept: "ds_cards (hs_store (start_role E p a ps actor s)) = ds_cards (hs_store s)" "ds_table (hs_store (start_role E p a ps actor s)) = ds_table (hs_store s)"
  "ds_db (hs_store (start_role E p a ps actor s)) = ds_db (hs_store s)"
  by (simp_all add: start_role_def Let_def schedule_recovery_pulse_def publish_project_pulse_def publish_event_def)

lemma may_start_store:
  assumes "ds_cards (hs_store s') = ds_cards (hs_store s)" "ds_table (hs_store s') = ds_table (hs_store s)" "ds_db (hs_store s') = ds_db (hs_store s)"
  shows "may_start E p a auto_loop s' = may_start E p a auto_loop s"
proof -
  have "alist C f (hs_store s') = alist C f (hs_store s)" for C f
    using assms by (simp add: alist_def list_from_db_def list_cards_def db_works_def)
  then show ?thesis by (simp add: may_start_def count_pending_for_project_def build_pending_decision_index_def)
qed

text \<open>
  The row is read before and the flag written after the handler waits for the database. Two requests that
  both read the row before either writes start two roles for one project.
\<close>

theorem concurrent_dispatches_start_two:
  assumes may: "may_start E p a auto_loop s" and a: "a \<noteq> Resume"
  shows "\<exists>k s1 s2 j1 j2. dispatch_loaded E p a actor note auto_loop s = (Rp_started a k, s1) \<and>
    dispatch_loaded E p a other other_note auto_loop s1 = (Rp_started a k, s2) \<and> hs_jobs s2 = hs_jobs s @ [j1, j2] \<and>
    hp_uuid (rj_project j1) = hp_uuid p \<and> hp_uuid (rj_project j2) = hp_uuid p"
proof -
  obtain ps qs where ps: "dispatch_params E a (cleared E p) note = Some ps" "dispatch_params E a (cleared E p) other_note = Some qs"
    using may dispatch_params_some [where a = a and p = "cleared E p" and E = E] by (force simp: may_start_def)
  have kind: "rp_kind qs = rp_kind ps" using ps by (cases a) auto
  let ?s1 = "start_role E (cleared E p) a ps actor (reap E p s)"
  have "may_start E p a auto_loop (reap E p s) = may_start E p a auto_loop s"
    using reap_kept [of s E p] by (intro may_start_store) (simp_all add: rest_kept_def)
  then have may1: "may_start E p a auto_loop ?s1" using may may_start_store [OF start_role_kept] by blast
  have req: "requested_action E p a = Some a" using a by (simp add: requested_action_def)
  have "dispatch_loaded E p a actor note auto_loop s = (Rp_started a (rp_kind ps), ?s1)"
    by (simp add: dispatch_loaded_cleared req decide_dispatch_started [OF may ps(1)])
  moreover have "dispatch_loaded E p a other other_note auto_loop ?s1 =
      (Rp_started a (rp_kind qs), start_role E (cleared E p) a qs other (reap E p ?s1))"
    by (simp add: dispatch_loaded_cleared req decide_dispatch_started [OF may1 ps(2)])
  moreover have "hs_jobs (reap E p s) = hs_jobs s" "hs_jobs (reap E p ?s1) = hs_jobs ?s1"
    using reap_kept [of s E p] reap_kept [of ?s1 E p] by (simp_all add: rest_kept_def)
  ultimately show ?thesis by (simp add: kind start_role_jobs)
qed

text \<open>
  The same happens in sequence: five minutes after a dispatch its flag counts as orphaned although its role
  may still run, so a further dispatch starts a second role.
\<close>

lemma operate_review_may_start:
  assumes "hp_phase p = ''operate''" "has_code (hp_metadata p)" "\<not> fresh E p"
  shows "may_start E p Retry_code_review auto_loop s"
proof -
  have "has_code (hp_metadata (cleared E p))" using assms(2) by (simp add: cleared_def has_code_def)
  then show ?thesis using assms by (simp add: may_start_def action_specs_def Let_def code_specs_def)
qed

lemma started_row:
  assumes "rows_ok s" "load_project_full E u s = Some p" "hp_uuid p = u" "\<not> stale E p"
  shows "load_project_full E' u (start_role E p a ps actor s) = (if re_pool E' then
    Some (p\<lparr>hp_metadata := merge_meta (hp_metadata p) ((''recovery_dispatch_in_flight'', in_flight_flag E a (rp_kind ps) actor) #
      (if a = Retry_feature then feature_iteration_start_patch (hp_metadata p) else [])), hp_updated_at := re_now E\<rparr>) else None)"
  using load_persist [of E u _ s] load_row [OF assms(2)] assms(2,3)
  by (simp add: start_role_def Let_def schedule_recovery_pulse_def load_project_full_def)

theorem slow_role_runs_twice:
  assumes "rows_ok s" "iso_ok E" and p: "load_project_full E u s = Some p" "hp_uuid p = u"
    and "hp_phase p = ''operate''" "has_code (hp_metadata p)" "\<not> truthy (flag_of p)"
    and t: "t' - re_now E > INFLIGHT_STALE_SECONDS"
  shows "\<exists>k s1 s2 j1 j2. recovery_dispatch E u Retry_code_review actor None True s = (Rp_started Retry_code_review k, s1) \<and>
    recovery_dispatch (E\<lparr>re_now := t'\<rparr>) u Retry_code_review actor None True s1 = (Rp_started Retry_code_review k, s2) \<and>
    hs_jobs s2 = hs_jobs s @ [j1, j2] \<and> hp_uuid (rj_project j1) = u \<and> hp_uuid (rj_project j2) = u"
proof -
  let ?F = "E\<lparr>re_now := t'\<rparr>"
  have calm: "\<not> stale E p" "\<not> fresh E p" using assms by (simp_all add: stale_def fresh_def)
  define ps where "ps = (params ''code_approval'' None (Some (phase_bucket ''verify_in_progress'')))\<lparr>rp_role := Some ''verify''\<rparr>"
  have ps: "dispatch_params G Retry_code_review q None = Some ps" for G q by (simp add: ps_def)
  let ?s1 = "start_role E p Retry_code_review ps actor s"
  have may: "may_start E p Retry_code_review True s" by (rule operate_review_may_start) (use assms calm in simp_all)
  have first: "recovery_dispatch E u Retry_code_review actor None True s = (Rp_started Retry_code_review (rp_kind ps), ?s1)"
    using decide_dispatch_started [OF may ps] calm flag_cleared(2) [OF calm(1)]
    by (simp add: recovery_dispatch_def p dispatch_loaded_cleared requested_action_def reap_def reap_eq)
  define q where "q = p\<lparr>hp_metadata := merge_meta (hp_metadata p) [(''recovery_dispatch_in_flight'', in_flight_flag E Retry_code_review (rp_kind ps) actor)],
    hp_updated_at := re_now E\<rparr>"
  have q: "load_project_full ?F u ?s1 = Some q"
    using started_row [OF assms(1) p calm(1), where E' = ?F] load_row [OF p(1)] by (simp add: q_def)
  have "flag_of q = in_flight_flag E Retry_code_review (rp_kind ps) actor" by (simp add: q_def flag_of_def)
  then have "stale ?F q" using assms(2) t
    by (simp add: stale_def dispatch_in_flight_stale_def in_flight_flag_def iso_ok_def truthy_def meta_def json_text_def)
  then have "may_start ?F q Retry_code_review True ?s1"
    by (intro operate_review_may_start) (use assms in \<open>simp_all add: q_def fresh_def stale_def has_code_def\<close>)
  from decide_dispatch_started [OF this ps]
  have "recovery_dispatch ?F u Retry_code_review actor None True ?s1 =
      (Rp_started Retry_code_review (rp_kind ps), start_role ?F (cleared ?F q) Retry_code_review ps actor (reap ?F q ?s1))"
    using ps by (simp add: recovery_dispatch_def q dispatch_loaded_cleared requested_action_def)
  moreover have "hs_jobs (reap ?F q ?s1) = hs_jobs ?s1" using reap_kept [of ?s1 ?F q] by (simp add: rest_kept_def)
  ultimately show ?thesis using first p(2) by (simp add: start_role_jobs q_def)
qed

section \<open>The count of pending cards\<close>

definition indexed :: "(string, string list) dict \<Rightarrow> string \<Rightarrow> string list" where
  "indexed index k = (case map_of index k of None \<Rightarrow> [] | Some ids \<Rightarrow> ids)"

lemma indexed_add:
  "set (indexed (add_pending C cd index) k) = set (indexed index k) \<union> (if k \<in> set (card_keys C cd) then {dc_decision_id cd} else {})"
proof -
  have "set (indexed (fold (\<lambda>k d. AList.update k (List.insert i (case map_of d k of None \<Rightarrow> [] | Some ids \<Rightarrow> ids)) d) ks index) k) =
      set (indexed index k) \<union> (if k \<in> set ks then {i} else {})" for i ks
    by (induction ks arbitrary: index) (auto simp: indexed_def dict_simps)
  then show ?thesis by (simp add: add_pending_def)
qed

lemma indexed_build:
  "set (indexed (fold (\<lambda>cd index. if is_hub_inbox_card cd then index else add_pending C cd index) cds index) k) =
     set (indexed index k) \<union> dc_decision_id ` {cd \<in> set cds. \<not> is_hub_inbox_card cd \<and> k \<in> set (card_keys C cd)}"
proof (induction cds arbitrary: index)
  case (Cons cd cds)
  show ?case unfolding fold_Cons comp_apply Cons.IH by (auto simp: indexed_add)
qed simp

text \<open>
  The number that guards a remediation and marks a project as stuck is the number of its pending cards, each
  counted once whether it names the project by number, by uuid or by both.
\<close>

theorem pending_count_exact:
  assumes "store_ok C st" "length (ds_table st) \<le> 500"
  shows "count_pending_for_project C p st = card {i. \<exists>cd. table_cards C st i = Some cd \<and> dc_status cd = Card_pending \<and>
    \<not> is_hub_inbox_card cd \<and> set (card_keys C cd) \<inter> set (project_card_keys p) \<noteq> {}}"
proof -
  let ?cards = "{cd \<in> ran (table_cards C st). dc_status cd = Card_pending}"
  have pend: "set (alist C (Some Card_pending) st) = ?cards"
    unfolding alist_ok(1) [OF assms] by (rule Collect_cong) auto
  have "set (concat (map (indexed (build_pending_decision_index C st)) (project_card_keys p))) =
      dc_decision_id ` {cd \<in> ?cards. \<not> is_hub_inbox_card cd \<and> set (card_keys C cd) \<inter> set (project_card_keys p) \<noteq> {}}"
    unfolding build_pending_decision_index_def set_concat set_map image_image indexed_build pend by (auto simp: indexed_def)
  also have "\<dots> = {i. \<exists>cd. table_cards C st i = Some cd \<and> dc_status cd = Card_pending \<and> \<not> is_hub_inbox_card cd \<and>
      set (card_keys C cd) \<inter> set (project_card_keys p) \<noteq> {}}"
    by (auto simp: ran_def image_iff dest: table_cards_id)
  finally show ?thesis
    by (simp add: count_pending_for_project_def pending_count_for_project_def length_remdups_card_conv flip: indexed_def)
qed

section \<open>Feature requests of an operating project\<close>

lemma none_requested: "\<forall>j \<in> set js. entry_status j ''completed'' \<Longrightarrow> first_requested C js = None"
  by (induction C js rule: first_requested.induct) auto

lemma none_in: "\<forall>j \<in> set js. entry_status j ''completed'' \<Longrightarrow> st \<noteq> ''completed'' \<Longrightarrow> j \<in> set js \<Longrightarrow> \<not> entry_status j st"
  by (auto split: json.splits)

text \<open>
  When the last open request of a project is completed, \<open>latest_feature_request\<close> still names it, and the
  fallback takes it for a pending one: the finished feature is dispatched again.
\<close>

theorem completed_feature_dispatched_again:
  assumes md: "meta md ''feature_requests'' = JList (js @ [JDict d])" and st: "meta d ''status'' = JStr ''in_progress''"
    and js: "\<forall>j \<in> set js. entry_status j ''completed''"
    and latest: "meta md ''latest_feature_request'' = JStr feature" "py_strip feature \<noteq> []"
    and row: "load_project_full E u s = Some (p\<lparr>hp_metadata := merge_meta md patch\<rparr>)" "hp_phase p = ''operate''"
    and no_flag: "\<not> has md ''recovery_dispatch_in_flight''"
    and patch: "operate_devops_ack_metadata_patch E md = Inr patch"
  shows "(\<forall>j \<in> set (requests_of (merge_meta md patch)). entry_status j ''completed'') \<and>
    pending_feature_request (re_cards E) (merge_meta md patch) = Some (py_strip feature) \<and>
    (\<exists>s'. dispatch_next_operate_feature E u (merge_meta md patch) actor s = (Rp_started Retry_feature ''feature_request'', s'))"
proof -
  let ?d = "merge_meta d [(''status'', JStr ''completed''), (''completed_at'', JStr (re_iso E (re_now E)))]"
  let ?js = "js @ [JDict ?d]"
  let ?c = "complete_active_feature_request_patch E md"
  have c: "?c = [(''feature_requests'', JList ?js)]"
    using md st by (simp add: complete_active_feature_request_patch_def requests_of_def change_last_def)
  have all: "\<forall>j \<in> set ?js. entry_status j ''completed''" using js by simp
  have "\<not> entry_status (?js ! i) ''backlog''" if "i < length ?js" for i using none_in [OF all _ nth_mem [OF that]] by simp
  then have "backlog_indices ?js = []" unfolding backlog_indices_def filter_empty_conv by simp
  then have "promote_next_feature_request_patch E (merge_meta md ?c) = Inr []"
    by (simp add: promote_next_feature_request_patch_def next_backlog_def requests_of_def c rbind_def)
  then have patch': "patch = merge_meta ?c [(''feature_iteration_active'', JBool False), (''code_review_blocked'', JBool False), (''last_role_failure'', JNull)]"
    using patch by (simp add: operate_devops_ack_metadata_patch_def Let_def rbind_def)
  have meta: "meta (merge_meta md patch) k = (if k = ''feature_requests'' then JList ?js else if k = ''feature_iteration_active'' \<or> k = ''code_review_blocked''
      then JBool False else if k = ''last_role_failure'' then JNull else meta md k)" for k
    by (auto simp: patch' c meta_merge)
  have pend: "pending_feature_request (re_cards E) (merge_meta md patch) = Some (py_strip feature)"
    using none_requested [of "rev ?js"] none_in [OF all, of "''in_progress''"] all latest
    by (auto simp: pending_feature_request_def meta list_ex_iff latest_feature_def text_or_empty_def json_text_def truthy_def split: list.split)
  let ?q = "p\<lparr>hp_metadata := merge_meta md patch\<rparr>"
  have flag: "\<not> truthy (flag_of ?q)" using no_flag by (simp add: flag_of_def meta)
  then have "may_start E ?q Retry_feature True s" using row(2) pend
    by (simp add: may_start_def fresh_def cleared_def stale_def action_specs_def Let_def flag_of_def)
  moreover obtain ps where ps: "dispatch_params E Retry_feature (cleared E ?q) None = Some ps" "rp_kind ps = ''feature_request''" by simp
  ultimately have "fst (recovery_dispatch E u Retry_feature actor None True s) = Rp_started Retry_feature ''feature_request''"
    using decide_dispatch_started by (simp add: recovery_dispatch_def row dispatch_loaded_cleared requested_action_def)
  then have "\<exists>s'. dispatch_next_operate_feature E u (merge_meta md patch) actor s = (Rp_started Retry_feature ''feature_request'', s')"
    using pend no_flag by (simp add: dispatch_next_operate_feature_def meta) (metis prod.collapse)
  then show ?thesis using all pend by (simp add: requests_of_def meta)
qed

section \<open>Resetting the fix loop, and resuming\<close>

lemma starts_with_hd: "starts_with (c # cs) s \<Longrightarrow> hd s = c"
  by (cases s) (auto simp: starts_with_def)

lemma in_spec_if: "x \<in> set (spec_if b a) \<longleftrightarrow> b \<and> x = a"
  by auto

lemma in_cond: "x \<in> set (if b then xs else []) \<longleftrightarrow> b \<and> x \<in> set xs" "x \<noteq> Resume \<Longrightarrow> x \<in> set (if xs = [] then [] else xs @ [Resume]) \<longleftrightarrow> x \<in> set xs"
  by auto

lemma devops_in_specs:
  "Retry_devops \<in> set (action_specs E p) \<longleftrightarrow>
     (starts_with ''build'' (hp_phase p) \<or> starts_with ''verify'' (hp_phase p) \<or> hp_phase p \<in> {''acceptance'', ''operate''}) \<and>
     has (hp_metadata p) ''code_review_md'' \<and> \<not> has (hp_metadata p) ''code_review_blocked''"
  unfolding action_specs_def code_specs_def Let_def set_rev set_remdups
  by (subst in_cond(2), simp, simp only: set_append Un_iff in_cond(1) in_spec_if recovery_action.distinct) auto

lemma qa_in_specs:
  "Retry_qa \<in> set (action_specs E p) \<longleftrightarrow>
     (starts_with ''verify'' (hp_phase p) \<or> hp_phase p = ''acceptance'' \<or> hp_phase p = ''released'') \<and>
     meta (hp_metadata p) ''devops_install_ok'' \<noteq> JBool False"
  unfolding action_specs_def code_specs_def Let_def set_rev set_remdups
  by (subst in_cond(2), simp, simp only: set_append Un_iff in_cond(1) in_spec_if recovery_action.distinct) auto

lemma devops_may_start:
  assumes "starts_with ''build'' (hp_phase p) \<or> starts_with ''verify'' (hp_phase p) \<or> hp_phase p \<in> {''acceptance'', ''operate''}"
    and "has (hp_metadata p) ''code_review_md''" "\<not> truthy (flag_of p)"
  shows "may_start E p Retry_devops auto_loop s \<longleftrightarrow> \<not> has (hp_metadata p) ''code_review_blocked''"
  using assms by (simp add: may_start_def fresh_def cleared_def stale_def devops_in_specs)

text \<open>
  After the limit of automatic fixes a reset also lifts the security block: environment set-up, refused
  before the reset, starts after it although no review has run in between.
\<close>

theorem reset_lifts_security_block:
  assumes p: "load_project_full E u s = Some p" "hp_uuid p = u" and u: "\<not> isdigit u"
    and phase: "starts_with ''build'' (hp_phase p) \<or> starts_with ''verify'' (hp_phase p) \<or> hp_phase p \<in> {''acceptance'', ''operate''}"
    and md: "has (hp_metadata p) ''code_review_md''" "\<not> truthy (flag_of p)" and ex: "fix_loop_exhausted E p"
  shows "(\<forall>a k. fst (recovery_dispatch E u Retry_devops actor None auto_loop s) \<noteq> Rp_started a k) \<and>
    (\<exists>s1 k s2. recovery_dispatch E u Reset_fix_loop actor None auto_loop s = (Rp_reset, s1) \<and> hs_jobs s1 = hs_jobs s \<and>
      recovery_dispatch E u Retry_devops actor None auto_loop s1 = (Rp_started Retry_devops k, s2))"
proof -
  have calm: "\<not> stale E p" "\<not> fresh E p" using md by (simp_all add: stale_def fresh_def)
  have keep: "cleared E p = p" "reap E p s = s" using calm by (simp_all add: cleared_def reap_def reap_eq)
  have "\<not> may_start E p Retry_devops auto_loop s" using ex by (simp add: devops_may_start [OF phase md] fix_loop_exhausted_def)
  from decide_dispatch_refused [OF this, where actor = actor]
  have no: "\<forall>a k. fst (recovery_dispatch E u Retry_devops actor None auto_loop s) \<noteq> Rp_started a k"
    by (simp add: recovery_dispatch_def p dispatch_loaded_cleared requested_action_def)
  let ?s0 = "persist_metadata_patch E u [(''code_review_blocked'', JBool False), (''code_fix_iteration'', JInt 0)] s"
  let ?s1 = "publish_recovery_pulse E u [] ?s0"
  let ?q = "p\<lparr>hp_metadata := merge_meta (hp_metadata p) [(''code_review_blocked'', JBool False), (''code_fix_iteration'', JInt 0)], hp_updated_at := re_now E\<rparr>"
  have reset: "recovery_dispatch E u Reset_fix_loop actor None auto_loop s = (Rp_reset, ?s1)"
    using ex md(2) by (simp add: recovery_dispatch_def p dispatch_loaded_cleared requested_action_def keep decide_dispatch_def Let_def flag_of_def)
  have q0: "load_project_full E u ?s0 = Some ?q" by (simp add: load_persist p)
  have "\<not> stale E ?q" using md(2) by (simp add: stale_def flag_of_def)
  then have "hs_projects ?s1 = hs_projects ?s0" unfolding publish_recovery_pulse_def by (intro recovery_pulse_calm) (simp add: q0)
  then have q: "load_project_full E u ?s1 = Some ?q" using q0 by (simp add: load_project_full_def split: if_splits)
  have "may_start E ?q Retry_devops auto_loop ?s1"
    by (subst devops_may_start) (use phase md in \<open>simp_all add: flag_of_def truthy_def\<close>)
  moreover obtain ps where "dispatch_params E Retry_devops (cleared E ?q) None = Some ps" by simp
  ultimately have "fst (recovery_dispatch E u Retry_devops actor None auto_loop ?s1) = Rp_started Retry_devops (rp_kind ps)"
    using decide_dispatch_started by (simp add: recovery_dispatch_def q dispatch_loaded_cleared requested_action_def)
  then have yes: "\<exists>k s2. recovery_dispatch E u Retry_devops actor None auto_loop ?s1 = (Rp_started Retry_devops k, s2)"
    by (metis prod.collapse)
  have "hs_jobs ?s1 = hs_jobs s" using publish_recovery_pulse_kept [of ?s0 E u "[]"] by (simp add: rest_kept_def)
  then show ?thesis using no reset yes by blast
qed

text \<open>
  Resuming can choose an action that dispatch refuses: in a verify phase whose environment set-up failed, the
  recommended action is the test plan, which needs the set-up, although running the set-up again is offered.
\<close>

theorem resume_refused_after_failed_setup:
  assumes p: "load_project_full E i s = Some p" and phase: "starts_with ''verify'' (hp_phase p)"
    and md: "meta (hp_metadata p) ''devops_install_ok'' = JBool False" "has (hp_metadata p) ''code_review_md''"
      "\<not> has (hp_metadata p) ''code_review_blocked''" "\<not> has (hp_metadata p) ''qa_md''" "\<not> truthy (flag_of p)"
    and files: "re_files E (hp_uuid p) (hp_metadata p) \<noteq> 0"
  shows "pick_resume_action E p = Some Retry_qa \<and> Retry_devops \<in> set (action_specs E p) \<and>
    recovery_dispatch E i Resume actor note auto_loop s = (Rp_error ''action_not_allowed'', s)"
proof -
  have nb: "\<not> starts_with ''build'' (hp_phase p)" 
    using starts_with_hd [of "CHR ''v''" "''erify''" "hp_phase p"] starts_with_hd [of "CHR ''b''" "''uild''" "hp_phase p"] phase by auto
  have pick: "pick_resume_action E p = Some Retry_qa" using assms nb by (simp add: pick_resume_action_def Let_def)
  have qa: "Retry_qa \<notin> set (action_specs E p)" using md by (simp add: qa_in_specs)
  have dev: "Retry_devops \<in> set (action_specs E p)" using md phase by (simp add: devops_in_specs)
  have "cleared E p = p" "reap E p s = s" using md(5) by (simp_all add: cleared_def stale_def reap_def reap_eq)
  then have "recovery_dispatch E i Resume actor note auto_loop s = (Rp_error ''action_not_allowed'', s)"
    using md(5) qa by (simp add: recovery_dispatch_def p dispatch_loaded_cleared requested_action_def pick decide_dispatch_def Let_def flag_of_def)
  then show ?thesis using pick dev by simp
qed

section \<open>Concrete runs\<close>

text \<open>A clock rendered in unary.\<close>

fun unary :: "nat \<Rightarrow> string" where
  "unary 0 = [CHR ''+'']"
| "unary (Suc n) = CHR ''1'' # unary n"

definition demo_iso :: "time \<Rightarrow> string" where
  "demo_iso t = (if t < 0 then CHR ''-'' # unary (nat (- t)) else unary (nat t))"

definition demo_from_iso :: "string \<Rightarrow> time option" where
  "demo_from_iso s = (if s \<noteq> [] \<and> hd s = CHR ''-'' then Some (- int (length s - 2)) else Some (int (length s - 1)))"

definition demo_recovery_env :: recovery_env where
  "demo_recovery_env = \<lparr>re_cards = demo_cards_env, re_pool = True, re_now = 0, re_ts = JInt 0, re_iso = demo_iso,
     re_from_iso = demo_from_iso, re_float_int = (\<lambda>_. None), re_files = (\<lambda>_ _. 4)\<rparr>"

definition demo_project :: "string \<Rightarrow> (string \<times> json) list \<Rightarrow> hub_project" where
  "demo_project phase md = \<lparr>hp_id = 7, hp_uuid = ''p7'', hp_name = ''demo'', hp_type = ''web_app'', hp_phase = phase,
     hp_status = ''active'', hp_updated_at = 0, hp_metadata = md\<rparr>"

definition demo_hub :: "string \<Rightarrow> (string \<times> json) list \<Rightarrow> hub_state" where
  "demo_hub phase md = \<lparr>hs_store = demo_store, hs_projects = [demo_project phase md], hs_jobs = [], hs_pulses = [], hs_scheduled = []\<rparr>"

lemma demo_iso_ok: "iso_ok demo_recovery_env"
proof -
  have len: "length (unary n) = Suc n" for n by (induction n) auto
  have z: "replace_z (unary n) = unary n" for n by (induction n) auto
  have "demo_from_iso (unary n) = Some (int n)" for n by (cases n) (simp_all add: demo_from_iso_def len)
  moreover have "demo_from_iso (CHR ''-'' # unary n) = Some (- int n)" for n by (simp add: demo_from_iso_def len)
  ultimately have "demo_from_iso (replace_z (demo_iso t)) = Some t" for t by (simp add: demo_iso_def z)
  moreover have "unary n \<noteq> []" for n using len [of n] by auto
  then have "demo_iso t \<noteq> []" for t by (simp add: demo_iso_def)
  ultimately show ?thesis by (simp add: iso_ok_def demo_recovery_env_def)
qed

lemma demo_recovery_load: "load_project_full demo_recovery_env ''p7'' (demo_hub phase md) = Some (demo_project phase md)"
  by (simp add: load_project_full_def demo_recovery_env_def demo_hub_def is_row_def demo_project_def isdigit_def re_digit_def in_range_def)

lemma demo_rows: "rows_ok (demo_hub phase md)"
  by (simp add: rows_ok_def demo_hub_def demo_project_def isdigit_def re_digit_def in_range_def)

abbreviation demo_code :: "(string \<times> json) list" where
  "demo_code \<equiv> [(''code_files'', JList [JStr ''a.py''])]"

theorem started_role_blocks_second_witness:
  "\<exists>k s1. recovery_dispatch demo_recovery_env ''p7'' Retry_code_review ''ann'' None False (demo_hub ''operate'' demo_code) =
      (Rp_started Retry_code_review k, s1) \<and> length (hs_jobs s1) = 1 \<and>
    snd (recovery_dispatch (demo_recovery_env\<lparr>re_now := 300000000\<rparr>) ''p7'' Resume ''bob'' None False s1) = s1"
proof -
  let ?E = demo_recovery_env and ?p = "demo_project ''operate'' demo_code" and ?s = "demo_hub ''operate'' demo_code"
  have E: "?E\<lparr>re_now := 0\<rparr> = ?E" by (simp add: demo_recovery_env_def)
  have calm: "\<not> stale ?E ?p" "\<not> fresh ?E ?p"
    by (simp_all add: stale_def fresh_def demo_project_def meta_def truthy_def flag_of_def)
  have may: "may_start ?E ?p Retry_code_review False ?s"
    by (rule operate_review_may_start) (use calm in \<open>simp_all add: demo_project_def has_code_def meta_def truthy_def\<close>)
  obtain ps where ps: "dispatch_params ?E Retry_code_review (cleared ?E ?p) None = Some ps" by simp
  let ?s1 = "start_role ?E ?p Retry_code_review ps ''ann'' ?s"
  have first: "recovery_dispatch ?E ''p7'' Retry_code_review ''ann'' None False ?s = (Rp_started Retry_code_review (rp_kind ps), ?s1)"
    using decide_dispatch_started [OF may ps] calm flag_cleared(2) [OF calm(1)]
    by (simp add: recovery_dispatch_def demo_recovery_load dispatch_loaded_cleared requested_action_def reap_def reap_eq)
  have u: "hp_uuid ?p = ''p7''" by (simp add: demo_project_def)
  have "re_pool ?E" by (simp add: demo_recovery_env_def)
  then obtain q where q: "load_project_full ?E ''p7'' ?s1 = Some q" "hp_uuid q = ''p7''"
    using started_row [OF demo_rows demo_recovery_load u calm(1), of ?E Retry_code_review ps "''ann''"] by (simp add: u)
  have jobs: "length (hs_jobs ?s1) = 1" by (simp add: start_role_jobs) (simp add: demo_hub_def)
  have "snd (recovery_dispatch (?E\<lparr>re_now := 300000000\<rparr>) ''p7'' Resume ''bob'' None False ?s1) = ?s1"
    using started_role_blocks_second [OF demo_iso_ok demo_rows, where t = 0 and t' = 300000000, unfolded E, OF first demo_recovery_load
        conjunct1 [OF load_row [OF q(1)]] _ q(1)] q(2) u
    by (simp add: INFLIGHT_STALE_SECONDS_def)
  with first jobs show ?thesis by blast
qed

theorem concurrent_dispatches_start_two_witness:
  "\<exists>k s1 s2. dispatch_loaded demo_recovery_env (demo_project ''operate'' demo_code) Retry_code_review ''ann'' None False (demo_hub ''operate'' demo_code) =
      (Rp_started Retry_code_review k, s1) \<and>
    dispatch_loaded demo_recovery_env (demo_project ''operate'' demo_code) Retry_code_review ''bob'' None False s1 = (Rp_started Retry_code_review k, s2) \<and>
    length (hs_jobs s2) = 2"
proof -
  have "may_start demo_recovery_env (demo_project ''operate'' demo_code) Retry_code_review False (demo_hub ''operate'' demo_code)"
    by (rule operate_review_may_start) (simp_all add: demo_project_def has_code_def meta_def truthy_def fresh_def flag_of_def)
  moreover have "hs_jobs (demo_hub ''operate'' demo_code) = []" by (simp add: demo_hub_def)
  ultimately show ?thesis
    using concurrent_dispatches_start_two [where actor = "''ann''" and other = "''bob''" and p = "demo_project ''operate'' demo_code" and
        s = "demo_hub ''operate'' demo_code" and a = Retry_code_review and auto_loop = False and E = demo_recovery_env]
    by (metis append_Nil length_Cons list.size(3) numeral_2_eq_2 recovery_action.distinct)
qed

theorem slow_role_runs_twice_witness:
  "\<exists>k s1 s2. recovery_dispatch demo_recovery_env ''p7'' Retry_code_review ''ann'' None True (demo_hub ''operate'' demo_code) = (Rp_started Retry_code_review k, s1) \<and>
    recovery_dispatch (demo_recovery_env\<lparr>re_now := 300000001\<rparr>) ''p7'' Retry_code_review ''ann'' None True s1 = (Rp_started Retry_code_review k, s2) \<and>
    length (hs_jobs s2) = 2"
proof -
  have "hp_uuid (demo_project ''operate'' demo_code) = ''p7''" "hp_phase (demo_project ''operate'' demo_code) = ''operate''"
    "has_code (hp_metadata (demo_project ''operate'' demo_code))" "\<not> truthy (flag_of (demo_project ''operate'' demo_code))"
    by (simp_all add: demo_project_def has_code_def meta_def truthy_def flag_of_def)
  moreover have "INFLIGHT_STALE_SECONDS < 300000001 - re_now demo_recovery_env" by (simp add: INFLIGHT_STALE_SECONDS_def demo_recovery_env_def)
  moreover have "hs_jobs (demo_hub ''operate'' demo_code) = []" by (simp add: demo_hub_def)
  ultimately show ?thesis using slow_role_runs_twice [OF demo_rows demo_iso_ok demo_recovery_load [of "''operate''" demo_code], where t' = 300000001 and actor = "''ann''"]
    by (metis append_Nil length_Cons list.size(3) numeral_2_eq_2)
qed

theorem pending_count_exact_witness:
  "count_pending_for_project demo_cards_env (demo_project ''operate'' []) (aput demo_cards_env demo_card demo_store) = 1"
proof -
  let ?s = "aput demo_cards_env demo_card demo_store"
  have empty: "table_cards demo_cards_env demo_store = Map.empty" by (simp add: table_cards_def demo_store_def)
  have tab: "store_ok demo_cards_env ?s" "table_cards demo_cards_env ?s = [''u1'' \<mapsto> demo_card]"
    using aput_ok(1,2) [OF demo_store_ok demo_durable] by (simp_all add: empty demo_card_def)
  have len: "length (ds_table ?s) \<le> 500"
    by (simp add: aput_def persist_put_def Let_def insert_card_def demo_store_def split: bool.split option.split)
  have "str_integer 7 = ''7''" by code_simp
  then have "set (card_keys demo_cards_env demo_card) \<inter> set (project_card_keys (demo_project ''operate'' [])) = {''7''}"
    by (simp add: card_keys_def project_card_keys_def demo_card_def demo_project_def meta_uuid_def)
  moreover have "dc_status demo_card = Card_pending" "\<not> is_hub_inbox_card demo_card" by (simp_all add: demo_card_def is_hub_inbox_card_def)
  ultimately have "{i. \<exists>cd. table_cards demo_cards_env ?s i = Some cd \<and> dc_status cd = Card_pending \<and> \<not> is_hub_inbox_card cd \<and>
      set (card_keys demo_cards_env cd) \<inter> set (project_card_keys (demo_project ''operate'' [])) \<noteq> {}} = {''u1''}"
    by (auto simp: tab(2) split: if_splits)
  then show ?thesis using pending_count_exact [OF tab(1) len, of "demo_project ''operate'' []"] by simp
qed

abbreviation demo_feature :: "(string \<times> json) list" where
  "demo_feature \<equiv> [(''feature_requests'', JList [JDict [(''status'', JStr ''in_progress'')]]), (''latest_feature_request'', JStr ''dark mode'')]"

definition demo_feature_patch :: "(string \<times> json) list" where
  "demo_feature_patch = (case operate_devops_ack_metadata_patch demo_recovery_env demo_feature of Inr patch \<Rightarrow> patch | Inl _ \<Rightarrow> [])"

theorem completed_feature_dispatched_again_witness:
  "pending_feature_request demo_cards_env (merge_meta demo_feature demo_feature_patch) = Some ''dark mode'' \<and>
   fst (dispatch_next_operate_feature demo_recovery_env ''p7'' (merge_meta demo_feature demo_feature_patch) ''ann''
     (demo_hub ''operate'' (merge_meta demo_feature demo_feature_patch))) = Rp_started Retry_feature ''feature_request''"
proof -
  have "operate_devops_ack_metadata_patch demo_recovery_env demo_feature \<noteq> Inl ()"
    by (simp add: operate_devops_ack_metadata_patch_def Let_def promote_next_feature_request_patch_def next_backlog_def
        complete_active_feature_request_patch_def requests_of_def change_last_def backlog_indices_def meta_def rbind_def)
  then have patch: "operate_devops_ack_metadata_patch demo_recovery_env demo_feature = Inr demo_feature_patch"
    by (cases "operate_devops_ack_metadata_patch demo_recovery_env demo_feature") (auto simp: demo_feature_patch_def)
  have md: "meta demo_feature ''feature_requests'' = JList ([] @ [JDict [(''status'', JStr ''in_progress'')]])"
    "meta [(''status'', JStr ''in_progress'')] ''status'' = JStr ''in_progress''"
    "meta demo_feature ''latest_feature_request'' = JStr ''dark mode''" "\<not> has demo_feature ''recovery_dispatch_in_flight''"
    by (simp_all add: meta_def truthy_def)
  have strip: "py_strip ''dark mode'' = ''dark mode''" by code_simp
  have row: "load_project_full demo_recovery_env ''p7'' (demo_hub ''operate'' (merge_meta demo_feature demo_feature_patch)) =
      Some ((demo_project ''operate'' [])\<lparr>hp_metadata := merge_meta demo_feature demo_feature_patch\<rparr>)"
    "hp_phase (demo_project ''operate'' []) = ''operate''"
    by (simp_all add: demo_recovery_load) (simp_all add: demo_project_def)
  have "py_strip ''dark mode'' \<noteq> []" by (simp add: strip)
  from completed_feature_dispatched_again [OF md(1,2) _ md(3) this row md(4) patch, of "''ann''"] show ?thesis
    by (auto simp: strip) (simp add: demo_recovery_env_def)
qed

abbreviation demo_exhausted :: "(string \<times> json) list" where
  "demo_exhausted \<equiv> [(''code_review_md'', JStr ''x''), (''code_review_blocked'', JBool True), (''code_fix_iteration'', JInt 3)]"

theorem reset_lifts_security_block_witness:
  "\<exists>s1 k s2. recovery_dispatch demo_recovery_env ''p7'' Reset_fix_loop ''ann'' None False (demo_hub ''operate'' demo_exhausted) = (Rp_reset, s1) \<and>
     recovery_dispatch demo_recovery_env ''p7'' Retry_devops ''ann'' None False s1 = (Rp_started Retry_devops k, s2)"
proof -
  let ?p = "demo_project ''operate'' demo_exhausted"
  have "hp_uuid ?p = ''p7''" "\<not> isdigit ''p7''" "hp_phase ?p \<in> {''acceptance'', ''operate''}" "has (hp_metadata ?p) ''code_review_md''"
    "\<not> truthy (flag_of ?p)" "fix_loop_exhausted demo_recovery_env ?p"
    by (simp_all add: demo_project_def isdigit_def re_digit_def in_range_def meta_def truthy_def flag_of_def fix_loop_exhausted_def
        MAX_CODE_FIX_ITERATIONS_def code_fix_iteration_count_def json_int_def)
  then show ?thesis using reset_lifts_security_block [OF demo_recovery_load, of "''operate''" demo_exhausted "''ann''" False] by blast
qed

abbreviation demo_failed_setup :: "(string \<times> json) list" where
  "demo_failed_setup \<equiv> [(''code_review_md'', JStr ''x''), (''devops_install_ok'', JBool False)]"

theorem resume_refused_after_failed_setup_witness:
  "recovery_dispatch demo_recovery_env ''p7'' Resume ''ann'' None False (demo_hub ''verify_in_progress'' demo_failed_setup) =
     (Rp_error ''action_not_allowed'', demo_hub ''verify_in_progress'' demo_failed_setup)"
proof -
  let ?p = "demo_project ''verify_in_progress'' demo_failed_setup"
  have "starts_with ''verify'' (hp_phase ?p)" "meta (hp_metadata ?p) ''devops_install_ok'' = JBool False" "has (hp_metadata ?p) ''code_review_md''"
    "\<not> has (hp_metadata ?p) ''code_review_blocked''" "\<not> has (hp_metadata ?p) ''qa_md''" "\<not> truthy (flag_of ?p)"
    "re_files demo_recovery_env (hp_uuid ?p) (hp_metadata ?p) \<noteq> 0"
    by (simp_all add: demo_project_def starts_with_def meta_def truthy_def flag_of_def demo_recovery_env_def)
  from resume_refused_after_failed_setup [OF demo_recovery_load this] show ?thesis by blast
qed

end
