(* ===== verification/Hub_Dispatch.thy ===== *)
theory Hub_Dispatch
  imports Recovery
begin

text \<open>
  How a role is started and what becomes of its result: the bridge of
  \<open>shared/api/routes/_role_dispatch_bridge.py\<close>, \<open>_orchestrate_hub_role\<close> and the gap card of \<open>_post_ack.py\<close>,
  and the poll of \<open>shared/runtime/phase_watcher.py\<close>. The state is that of \<open>Recovery\<close> with the rows of
  \<open>spine_lifecycle.route_history\<close>. The tool that runs a role (\<open>invoke_mcp_tool\<close>, a language model behind it)
  is an argument that answers with the dictionary it returns and the state it leaves, as are the context from
  the knowledge graph, the pipeline version of a row, fresh ids, and the body text of a card, which is only
  shown. The tools answer with text where text is expected. The messages of events and the log of role
  activity are left out, as is the lesson that a successful role leaves. The feature requests of a row are a list; on anything else the
  statement of the watcher would raise. An em dash is the character 0x97
  and an arrow 0x1A. The phase changes of \<open>_pipeline_bridge.py\<close> stand here because a role that starts the
  operation uses one (\<open>deploy_result\<close>); as the table of the bridge stands, the guard of \<open>_orchestrate_hub_role\<close>
  lets no such role through (\<open>operate_kickoff_unmapped\<close>).
\<close>

section \<open>The bridge\<close>

record dispatch_spec =
  sp_subsystem :: string
  sp_role :: string
  sp_directive :: string

definition KIND_ROLE_DISPATCH :: "(string \<times> dispatch_spec) list" where
  "KIND_ROLE_DISPATCH = map (\<lambda>(k, s, r, d). (k, \<lparr>sp_subsystem = s, sp_role = r, sp_directive = d\<rparr>))
    [(''prd_approval'', ''plan'', ''planner'', ''PRODUCE_ROADMAP''),
     (''roadmap_approval'', ''plan'', ''architect'', ''PRODUCE_TRD''),
     (''trd_approval'', ''plan'', ''conductor'', ''PRODUCE_SPRINT_PLAN''),
     (''sprint_plan_approval'', ''build'', ''engineer'', ''PRODUCE_CODE''),
     (''code_approval'', ''verify'', ''auditor'', ''CODE_REVIEW''),
     (''code_review_pass'', ''build'', ''devops'', ''INSTALL_AND_SMOKE''),
     (''code_review_blocked'', ''build'', ''engineer'', ''REMEDIATE_FROM_REVIEW''),
     (''security_review_blocked'', ''build'', ''engineer'', ''REMEDIATE_FROM_REVIEW''),
     (''devops_approval'', ''plan'', ''qa'', ''PRODUCE_TEST_PLAN''),
     (''qa_approval'', ''plan'', ''release_manager'', ''PRODUCE_RELEASE_GATE''),
     (''local_deploy_prompt'', ''build'', ''devops_release'', ''DEPLOY_LOCAL''),
     (''feature_request'', ''build'', ''engineer'', ''PRODUCE_FEATURE'')]"

abbreviation spec_of :: "string \<Rightarrow> dispatch_spec option" where
  "spec_of kind \<equiv> map_of KIND_ROLE_DISPATCH kind"

definition SUBSYSTEM_TOOLS :: "(string \<times> string) list" where
  "SUBSYSTEM_TOOLS = [(''plan'', ''plan_dispatch''), (''build'', ''build_dispatch''), (''verify'', ''verify_hub_review'')]"

record route_row =
  rh_project_id :: int
  rh_phase :: string
  rh_subsystem :: string
  rh_role :: string
  rh_directive_ref :: string
  rh_metadata :: "(string \<times> json) list"
  rh_dispatched_at :: time

record hub_world =
  hw_hub :: hub_state
  hw_routes :: "route_row list"
  hw_history :: "(int \<times> string \<times> time) list"

text \<open>
  The tools \<open>approval_grant\<close> and \<open>phase_advance\<close>, modelled over their own state in \<open>Lifecycle\<close>, are
  arguments here that answer and leave a state.
\<close>

datatype grant_reply = Grant_raised | Grant_refused | Granted "string option"

datatype advance_reply = Advance_raised | Advance_accepted | Advance_refused string

record phase_tools =
  pt_requires_gate :: "string \<Rightarrow> bool"
  pt_grant :: "string \<Rightarrow> string \<Rightarrow> string \<Rightarrow> hub_state \<Rightarrow> grant_reply \<times> hub_state"
  pt_advance :: "string \<Rightarrow> string \<Rightarrow> string \<Rightarrow> string option \<Rightarrow> hub_state \<Rightarrow> advance_reply \<times> hub_state"

record hub_env =
  he_rec :: recovery_env
  he_tool :: "string \<Rightarrow> (string \<times> json) list \<Rightarrow> hub_state \<Rightarrow> (string \<times> json) list \<times> hub_state"
  he_kg :: "string \<Rightarrow> string \<Rightarrow> string \<Rightarrow> string \<Rightarrow> string option"
  he_version :: "string \<Rightarrow> string"
  he_directive_id :: string
  he_card_id :: string
  he_body :: "string \<Rightarrow> string \<Rightarrow> (string \<times> json) list \<Rightarrow> string"
  he_tools :: phase_tools

record dispatch_result =
  sr_ok :: bool
  sr_role :: string
  sr_directive_id :: string
  sr_tool :: string
  sr_data :: "(string \<times> json) list"
  sr_error :: "string option"

abbreviation on_hub :: "(hub_state \<Rightarrow> hub_state) \<Rightarrow> hub_world \<Rightarrow> hub_world" where
  "on_hub f w \<equiv> w\<lparr>hw_hub := f (hw_hub w)\<rparr>"

text \<open>\<open>data.get(k) or ""\<close>.\<close>

abbreviation text_field :: "hub_env \<Rightarrow> (string \<times> json) list \<Rightarrow> string \<Rightarrow> string" where
  "text_field E d k \<equiv> text_or_empty (re_cards (he_rec E)) (meta d k)"

text \<open>The insert is refused or the row not found: nothing is recorded, and nothing raised.\<close>

definition record_route_history :: "hub_env \<Rightarrow> string \<Rightarrow> dispatch_spec \<Rightarrow> string \<Rightarrow> string \<Rightarrow> string \<Rightarrow> hub_world \<Rightarrow> hub_world" where
  "record_route_history E project_id sp directive_id tool version w =
     (if \<not> re_pool (he_rec E) \<or> \<not> ce_db_up (re_cards (he_rec E)) then w
      else case find (is_row project_id) (hs_projects (hw_hub w)) of
        None \<Rightarrow> w
      | Some p \<Rightarrow> w\<lparr>hw_routes := hw_routes w @ [\<lparr>rh_project_id = hp_id p, rh_phase = hp_phase p,
          rh_subsystem = sp_subsystem sp, rh_role = sp_role sp, rh_directive_ref = directive_id,
          rh_metadata = [(''pipeline_version'', JStr version), (''tool'', JStr tool), (''hub_bridge'', JBool True)],
          rh_dispatched_at = re_now (he_rec E)\<rparr>]\<rparr>)"

definition copy_key :: "(string \<times> json) list \<Rightarrow> string \<Rightarrow> (string \<times> json) list \<Rightarrow> (string \<times> json) list" where
  "copy_key extra k d = (case map_of extra k of None \<Rightarrow> d | Some j \<Rightarrow> AList.update k j d)"

definition build_payload :: "string \<Rightarrow> string \<Rightarrow> dispatch_spec \<Rightarrow> string \<Rightarrow> string \<Rightarrow> (string \<times> json) list \<Rightarrow> (string \<times> json) list" where
  "build_payload tool project_id sp version actor extra =
     (let base = [(''project_id'', JStr project_id), (''role'', JStr (sp_role sp)), (''directive'', JStr (sp_directive sp)),
            (''pipeline_version'', JStr version), (''actor'', JStr actor)] in
      copy_key extra ''phase'' (copy_key extra ''extra_context''
        (if tool = ''plan_dispatch'' then base @ [(''phase'', dict_get extra ''phase'' (JStr ''plan_in_progress''))] else base)))"

text \<open>What the knowledge graph has for the role; \<open>None\<close> when the lookup raises.\<close>

definition with_kg_context :: "hub_env \<Rightarrow> string \<Rightarrow> dispatch_spec \<Rightarrow> (string \<times> json) list \<Rightarrow> (string \<times> json) list" where
  "with_kg_context E project_id sp extra =
     (let phase = (case text_field E extra ''phase'' of [] \<Rightarrow> ''plan_in_progress'' | t \<Rightarrow> t) in
      case he_kg E project_id (sp_role sp) phase (sp_directive sp) of
        None \<Rightarrow> extra
      | Some kg \<Rightarrow> if kg = [] then extra
          else let prev = text_field E extra ''extra_context'' in
            AList.update ''extra_context'' (JStr (if prev \<noteq> [] then py_strip (prev @ NL2 @ kg) else kg)) extra)"

definition error_text :: "hub_env \<Rightarrow> (string \<times> json) list \<Rightarrow> string" where
  "error_text E raw =
     (case (case meta raw ''error'' of JDict d \<Rightarrow> text_field E d ''message'' | _ \<Rightarrow> text_field E raw ''error'') of
        [] \<Rightarrow> ''dispatch failed'' | t \<Rightarrow> t)"

definition data_of :: "(string \<times> json) list \<Rightarrow> (string \<times> json) list" where
  "data_of raw = (case meta raw ''data'' of JDict d \<Rightarrow> d | _ \<Rightarrow> [])"

definition run_tool :: "hub_env \<Rightarrow> string \<Rightarrow> dispatch_spec \<Rightarrow> string \<Rightarrow> string \<Rightarrow> (string \<times> json) list \<Rightarrow> hub_world \<Rightarrow>
    dispatch_result \<times> hub_world" where
  "run_tool E project_id sp tool actor extra w =
     (let version = he_version E project_id;
          payload = build_payload tool project_id sp version actor (with_kg_context E project_id sp extra);
          (raw, s) = he_tool E tool payload (hw_hub w); w1 = w\<lparr>hw_hub := s\<rparr>; data = data_of raw;
          directive_id = (case text_field E data ''directive_id'' of [] \<Rightarrow> he_directive_id E | t \<Rightarrow> t) in
      if meta raw ''status'' = JStr ''ok''
      then (\<lparr>sr_ok = True, sr_role = sp_role sp, sr_directive_id = directive_id, sr_tool = tool, sr_data = data, sr_error = None\<rparr>,
            record_route_history E project_id sp directive_id tool version w1)
      else (\<lparr>sr_ok = False, sr_role = sp_role sp, sr_directive_id = directive_id, sr_tool = tool, sr_data = data,
             sr_error = Some (error_text E raw)\<rparr>, w1))"

definition dispatch_role_for_kind :: "hub_env \<Rightarrow> string \<Rightarrow> string \<Rightarrow> string \<Rightarrow> (string \<times> json) list \<Rightarrow> hub_world \<Rightarrow>
    dispatch_result option \<times> hub_world" where
  "dispatch_role_for_kind E kind project_id actor extra w =
     (case spec_of kind of
        None \<Rightarrow> (None, w)
      | Some sp \<Rightarrow> (case map_of SUBSYSTEM_TOOLS (sp_subsystem sp) of
            None \<Rightarrow> (Some \<lparr>sr_ok = False, sr_role = sp_role sp, sr_directive_id = he_directive_id E, sr_tool = [], sr_data = [],
                       sr_error = Some (''no MCP tool for subsystem '' @ sp_subsystem sp)\<rparr>, w)
          | Some tool \<Rightarrow> (let (r, w') = run_tool E project_id sp tool actor extra w in (Some r, w'))))"

section \<open>Moving a project to a phase\<close>

text \<open>\<open>_pipeline_bridge.py\<close>.\<close>

text \<open>The update and the row of the history are one transaction; an exception is logged.\<close>

definition fallback_advance :: "recovery_env \<Rightarrow> string \<Rightarrow> string \<Rightarrow> hub_world \<Rightarrow> bool \<times> hub_world" where
  "fallback_advance R project_id target w =
     (if \<not> re_pool R \<or> \<not> ce_db_up (re_cards R) then (False, w)
      else case find (is_row project_id) (hs_projects (hw_hub w)) of
        None \<Rightarrow> (False, w)
      | Some p \<Rightarrow> (True, w\<lparr>hw_hub := (hw_hub w)\<lparr>hs_projects := map (\<lambda>q. if is_row project_id q
            then q\<lparr>hp_phase := target, hp_updated_at := re_now R\<rparr> else q) (hs_projects (hw_hub w))\<rparr>,
          hw_history := hw_history w @ [(hp_id p, target, re_now R)]\<rparr>))"

definition has_text :: "string \<Rightarrow> string \<Rightarrow> bool" where
  "has_text pat s = list_ex (\<lambda>n. take (length pat) (drop n s) = pat) [0..<Suc (length s)]"

definition advance_with_token :: "phase_tools \<Rightarrow> recovery_env \<Rightarrow> string \<Rightarrow> string \<Rightarrow> string \<Rightarrow> string option \<Rightarrow> hub_world \<Rightarrow>
    bool \<times> hub_world" where
  "advance_with_token T R project_id target actor token w =
     (case pt_advance T project_id target actor token (hw_hub w) of
        (Advance_raised, s) \<Rightarrow> fallback_advance R project_id target (w\<lparr>hw_hub := s\<rparr>)
      | (Advance_accepted, s) \<Rightarrow> (True, w\<lparr>hw_hub := s\<rparr>)
      | (Advance_refused err, s) \<Rightarrow>
          if has_text ''noop'' (py_lower err) then (True, w\<lparr>hw_hub := s\<rparr>)
          else fallback_advance R project_id target (w\<lparr>hw_hub := s\<rparr>))"

definition advance_lifecycle_phase :: "phase_tools \<Rightarrow> recovery_env \<Rightarrow> string \<Rightarrow> string \<Rightarrow> string \<Rightarrow> bool \<Rightarrow> hub_world \<Rightarrow>
    bool \<times> hub_world" where
  "advance_lifecycle_phase T R project_id target actor grant_gate w =
     (if grant_gate \<or> pt_requires_gate T target
      then case pt_grant T project_id target actor (hw_hub w) of
          (Granted token, s) \<Rightarrow> advance_with_token T R project_id target actor token (w\<lparr>hw_hub := s\<rparr>)
        | (_, s) \<Rightarrow> fallback_advance R project_id target (w\<lparr>hw_hub := s\<rparr>)
      else advance_with_token T R project_id target actor None w)"

fun advance_sequence :: "phase_tools \<Rightarrow> recovery_env \<Rightarrow> string \<Rightarrow> (string \<times> bool) list \<Rightarrow> string \<Rightarrow> hub_world \<Rightarrow> bool \<times> hub_world" where
  "advance_sequence T R project_id [] actor w = (True, w)"
| "advance_sequence T R project_id ((target, grant_gate) # phases) actor w =
     (let (moved, w1) = advance_lifecycle_phase T R project_id target actor grant_gate w;
          (ok, w2) = advance_sequence T R project_id phases actor w1 in (moved \<and> ok, w2))"

section \<open>Events and cards\<close>

definition emit_event :: "hub_env \<Rightarrow> string \<Rightarrow> string \<Rightarrow> string \<Rightarrow> (string \<times> json) list \<Rightarrow> hub_state \<Rightarrow> hub_state" where
  "emit_event E event_type uuid role extra s =
     (let R = he_rec E;
          s1 = on_store (publish_event ([(''type'', JStr event_type), (''role'', JStr role), (''project_uuid'', JStr uuid),
                 (''ts'', re_ts R)] @ extra)) s;
          s2 = (if event_type \<in> {''role_finished'', ''role_failed''} then not_in_flight_pulse R uuid s1 else s1) in
      if event_type \<in> {''role_started'', ''role_finished'', ''role_failed''} then schedule_recovery_pulse uuid s2 else s2)"

definition DECISION_BODY_MAX :: nat where
  "DECISION_BODY_MAX = 63000"

definition TRUNCATED_SUFFIX :: string where
  "TRUNCATED_SUFFIX = NL2 @ ''---'' @ NL2 @
     ''_(truncated for decision queue limit; see project workspace / metadata for full content)_''"

definition fit_body :: "nat \<Rightarrow> string \<Rightarrow> string" where
  "fit_body max_len body = (if length body \<le> max_len then body
     else take (max_len - length TRUNCATED_SUFFIX) body @ TRUNCATED_SUFFIX)"

definition fit_card_body :: "string \<Rightarrow> string" where
  "fit_card_body = fit_body DECISION_BODY_MAX"

text \<open>
  A card is validated when it is built: the title has 1 to 200 characters. The other two are raised by the hook
  of \<open>Ack_Hook\<close>: a review that is no text, and a backlog whose priorities cannot be compared.
\<close>

datatype dispatch_error = Card_invalid | Review_not_text | Backlog_not_ordered

type_synonym 'a hub_eff = "(hub_world, dispatch_error, 'a) eff"

definition title_ok :: "string \<Rightarrow> bool" where
  "title_ok t = (t \<noteq> [] \<and> length t \<le> 200)"

definition enqueue_card :: "hub_env \<Rightarrow> string \<Rightarrow> string \<Rightarrow> string \<Rightarrow> string \<Rightarrow> string \<Rightarrow> string list \<Rightarrow> (string \<times> json) list \<Rightarrow>
    unit hub_eff" where
  "enqueue_card E cls project_id title body severity actions md =
     ebind (eguard (title_ok title) Card_invalid) (\<lambda>_.
     ewrite (on_hub (on_store (\<lambda>st. snd (enqueue_decision (re_cards (he_rec E))
       \<lparr>dc_decision_id = he_card_id E, dc_decision_class = cls, dc_project_id = Some project_id, dc_title = title,
        dc_body = fit_card_body body, dc_severity = severity, dc_actions = actions, dc_status = Card_pending,
        dc_created_at = re_now (he_rec E), dc_expires_at = None, dc_metadata = md, dc_citations = []\<rparr> st)))))"

definition DASH :: string where
  "DASH = '' '' @ [CHR 0x97] @ '' ''"

definition of_project :: "hub_project \<Rightarrow> (string \<times> json) list" where
  "of_project p = [(''project_name'', JStr (hp_name p)), (''project_uuid'', JStr (hp_uuid p))]"

section \<open>One role and its card\<close>

definition ACK_CARD_META :: "(string \<times> string \<times> string) list" where
  "ACK_CARD_META = [(''prd_approval'', ''roadmap_approval'', ''plan_in_progress''),
     (''roadmap_approval'', ''trd_approval'', ''plan_in_progress''),
     (''trd_approval'', ''sprint_plan_approval'', ''plan_in_progress''),
     (''devops_approval'', ''qa_approval'', ''verify_in_progress''),
     (''qa_execution'', ''qa_approval'', ''verify_in_progress''),
     (''qa_approval'', ''release_gate_approval'', ''released'')]"

text \<open>Python's \<open>or\<close> on a text that may be absent.\<close>

fun text_or :: "string option \<Rightarrow> string \<Rightarrow> string" where
  "text_or (Some (c # cs)) d = c # cs"
| "text_or _ d = d"

definition upper :: "string \<Rightarrow> string" where
  "upper = map py_upper_char"

definition fail_dispatch :: "hub_env \<Rightarrow> string \<Rightarrow> hub_project \<Rightarrow> dispatch_result \<Rightarrow> bool hub_eff" where
  "fail_dispatch E kind p r =
     (let err = take 500 (text_or (sr_error r) ''unknown'');
          retry = (case retry_action_for_dispatch_kind kind of None \<Rightarrow> JNull | Some a \<Rightarrow> JStr (action_name a)) in
      ebind (ewrite (on_hub (\<lambda>s. persist_metadata_patch (he_rec E) (hp_uuid p)
        [(''last_role_failure'', JDict [(''role'', JStr (sr_role r)), (''dispatch_kind'', JStr kind), (''error'', JStr err),
           (''retry_action'', retry)])]
        (emit_event E ''role_failed'' (hp_uuid p) (sr_role r) [(''error'', JStr (text_or (sr_error r) ''dispatch failed''))] s)))) (\<lambda>_.
      ebind (enqueue_card E ''approval'' (hp_uuid p) (upper (sr_role r) @ '' role FAILED'' @ DASH @ hp_name p)
        (he_body E ''role_failure'' kind (sr_data r)) ''critical'' DEFAULT_ACTIONS
        ([(''kind'', JStr ''role_failure''), (''project_uuid'', JStr (hp_uuid p)), (''project_name'', JStr (hp_name p)),
          (''failed_role'', JStr (sr_role r)), (''failed_dispatch_kind'', JStr kind), (''error_message'', JStr err),
          (''retry_action'', retry)])) (\<lambda>_.
      ereturn True)))"

definition artifact_of :: "hub_env \<Rightarrow> dispatch_result \<Rightarrow> string" where
  "artifact_of E r = text_field E (sr_data r) ''artifact_md''"

definition extra_of :: "dispatch_result \<Rightarrow> (string \<times> json) list" where
  "extra_of r = (case meta (sr_data r) ''extra'' of JDict d \<Rightarrow> d | _ \<Rightarrow> [])"

definition finished_with_artifact :: "hub_env \<Rightarrow> hub_project \<Rightarrow> dispatch_result \<Rightarrow> hub_state \<Rightarrow> hub_state" where
  "finished_with_artifact E p r = emit_event E ''role_finished'' (hp_uuid p) (sr_role r)
     [(''artifact_key'', JStr (text_field E (sr_data r) ''artifact_key'')),
      (''artifact_chars'', JInt (int (length (artifact_of E r))))]"

text \<open>The card at the end of \<open>_orchestrate_hub_role\<close>, for what has no branch of its own.\<close>

definition approval_result :: "hub_env \<Rightarrow> string \<Rightarrow> hub_project \<Rightarrow> string \<Rightarrow> string \<Rightarrow> dispatch_result \<Rightarrow> bool hub_eff" where
  "approval_result E kind p card_kind target r =
     (let title = (if card_kind = ''code_approval'' then ''Approve CODE output''
            else if card_kind = ''devops_approval'' then ''DevOps stand-up''
            else ''Approve '' @ upper (sr_role r) @ '' output'') @ DASH @ hp_name p in
      ebind (ewrite (on_hub (finished_with_artifact E p r))) (\<lambda>_.
      ebind (enqueue_card E ''approval'' (hp_uuid p) title (he_body E card_kind kind (sr_data r)) ''info'' DEFAULT_ACTIONS
        ([(''kind'', JStr card_kind)] @ of_project p @ [(''advances_phase_to'', JStr target), (''produced_by'', JStr (sr_role r)),
          (''directive_id'', JStr (sr_directive_id r)), (''orchestrator_tool'', JStr (sr_tool r))])) (\<lambda>_.
      ereturn True)))"

definition qa_execution_result :: "hub_env \<Rightarrow> string \<Rightarrow> hub_project \<Rightarrow> string \<Rightarrow> string \<Rightarrow> dispatch_result \<Rightarrow> bool hub_eff" where
  "qa_execution_result E kind p card_kind target r =
     (let all_passed = dict_get (extra_of r) ''all_passed'' (JBool False) in
      ebind (ewrite (on_hub (finished_with_artifact E p r))) (\<lambda>_.
      ebind (enqueue_card E ''approval'' (hp_uuid p) (''QA execution'' @ DASH @ hp_name p) (he_body E card_kind kind (sr_data r))
        (if truthy all_passed then ''info'' else ''critical'') DEFAULT_ACTIONS
        ([(''kind'', JStr card_kind)] @ of_project p @ [(''advances_phase_to'', JStr target), (''produced_by'', JStr (sr_role r)),
          (''directive_id'', JStr (sr_directive_id r)), (''orchestrator_tool'', JStr (sr_tool r)), (''qa_execution_ok'', all_passed)])) (\<lambda>_.
      ereturn True)))"

text \<open>A review: its findings are kept; a blocked one starts the remediation while the limit allows.\<close>

definition auto_remediates :: "hub_env \<Rightarrow> string \<Rightarrow> hub_state \<Rightarrow> bool" where
  "auto_remediates E project_id s = (case load_project_full (he_rec E) project_id s of
     None \<Rightarrow> False | Some q \<Rightarrow> \<not> fix_loop_exhausted (he_rec E) q)"

definition review_result :: "hub_env \<Rightarrow> string \<Rightarrow> hub_project \<Rightarrow> string \<Rightarrow> dispatch_result \<Rightarrow> bool hub_eff" where
  "review_result E kind p card_kind r =
     (let blocked = (card_kind = ''code_review_blocked'');
          title = (if blocked then ''Code review BLOCKED'' else ''Code review PASS'') @ DASH @ hp_name p;
          severity = (if blocked then ''critical'' else ''info'') in
      ebind (ewrite (on_hub (\<lambda>s. persist_metadata_patch (he_rec E) (hp_uuid p)
        [(''code_review_md'', JStr (artifact_of E r)), (''code_review_blocked'', JBool blocked)]
        (emit_event E ''role_finished'' (hp_uuid p) (sr_role r) [(''artifact_chars'', JInt (int (length (artifact_of E r))))] s)))) (\<lambda>_.
      ebind (eread (\<lambda>w. blocked \<and> auto_remediates E (hp_uuid p) (hw_hub w))) (\<lambda>auto.
      ebind (if auto then ewrite (on_hub (\<lambda>s. snd (schedule_auto_engineer_remediate (hp_uuid p) s))) else ereturn ()) (\<lambda>_.
      ebind (if auto
        then enqueue_card E ''briefing'' (hp_uuid p) title (he_body E ''auto_remediation'' kind (sr_data r)) severity [''ack'']
          ([(''kind'', JStr ''security_review_blocked'')] @ of_project p @ [(''produced_by'', JStr (sr_role r))])
        else enqueue_card E ''approval'' (hp_uuid p) title (he_body E card_kind kind (sr_data r)) severity DEFAULT_ACTIONS
          ([(''kind'', JStr card_kind)] @ of_project p @ [(''produced_by'', JStr (sr_role r)),
            (''directive_id'', JStr (sr_directive_id r)), (''orchestrator_tool'', JStr (sr_tool r)),
            (''used_tron'', JBool (truthy (meta (sr_data r) ''used_tron'')))])) (\<lambda>_.
      ereturn True)))))"

text \<open>
  The end of a role that stands a project up: its card, if any, is not this function's. A role that starts the
  operation moves the project on once it says when the operation began.
\<close>

definition deploy_result :: "hub_env \<Rightarrow> string \<Rightarrow> hub_project \<Rightarrow> string \<Rightarrow> dispatch_result \<Rightarrow> bool hub_eff" where
  "deploy_result E kind p actor r =
     ebind (if kind = ''operate_kickoff'' \<and> has (extra_of r) ''operate_started_at''
       then ewrite (\<lambda>w. snd (advance_lifecycle_phase (he_tools E) (he_rec E) (hp_uuid p) ''operate'' actor True w))
       else ereturn ()) (\<lambda>_.
     ebind (ewrite (on_hub (emit_event E ''role_finished'' (hp_uuid p) (sr_role r) []))) (\<lambda>_.
     ereturn True))"

text \<open>\<open>review\<close> sends a remediated project to the next review.\<close>

definition finish_result :: "(hub_project \<Rightarrow> string \<Rightarrow> bool hub_eff) \<Rightarrow> hub_env \<Rightarrow> string \<Rightarrow> hub_project \<Rightarrow> string \<Rightarrow>
    string option \<Rightarrow> string option \<Rightarrow> dispatch_result \<Rightarrow> bool hub_eff" where
  "finish_result review E kind p actor ack next_phase r =
     (let result_kind = (case text_field E (sr_data r) ''result_kind'' of [] \<Rightarrow> text_or ack [] | t \<Rightarrow> t);
          card_kind = text_or ack (if result_kind = [] then sr_role r @ ''_approval'' else result_kind);
          target = text_or next_phase (case map_of ACK_CARD_META kind of None \<Rightarrow> phase_bucket ''plan_in_progress'' | Some (_, t) \<Rightarrow> t) in
      if result_kind = ''deploy'' \<or> kind = ''local_deploy_prompt''
      then deploy_result E kind p actor r
      else if card_kind = ''code_approval'' \<and> kind = ''code_review_blocked''
      then ebind (ewrite (on_hub (\<lambda>s. emit_event E ''role_finished'' (hp_uuid p) (sr_role r) []
             (snd (increment_code_fix_iteration (he_rec E) (hp_uuid p) s))))) (\<lambda>_.
           ebind (eread (\<lambda>w. load_project_full (he_rec E) (hp_uuid p) (hw_hub w))) (\<lambda>reloaded.
           ebind (case reloaded of None \<Rightarrow> ereturn True | Some q \<Rightarrow> review q actor) (\<lambda>_.
           ereturn True)))
      else if card_kind \<in> {''code_review_pass'', ''code_review_blocked''} then review_result E kind p card_kind r
      else if card_kind = ''qa_approval'' \<and> kind = ''qa_execution'' then qa_execution_result E kind p card_kind target r
      else approval_result E kind p card_kind target r)"

definition orchestrate_with :: "(hub_project \<Rightarrow> string \<Rightarrow> bool hub_eff) \<Rightarrow> hub_env \<Rightarrow> string \<Rightarrow> hub_project \<Rightarrow> string \<Rightarrow>
    string option \<Rightarrow> string option \<Rightarrow> (string \<times> json) list \<Rightarrow> bool hub_eff" where
  "orchestrate_with review E kind p actor ack next_phase extra =
     (case spec_of kind of
        None \<Rightarrow> ereturn False
      | Some sp \<Rightarrow>
          ebind (ewrite (on_hub (emit_event E ''role_started'' (hp_uuid p) (sp_role sp) []))) (\<lambda>_.
          ebind (\<lambda>w. case dispatch_role_for_kind E kind (hp_uuid p) actor extra w of (r, w') \<Rightarrow> (Inr r, w')) (\<lambda>res. case res of
            None \<Rightarrow> ereturn False
          | Some r \<Rightarrow> if \<not> sr_ok r then fail_dispatch E kind p r
              else finish_result review E kind p actor ack next_phase r)))"

definition gap_reason :: "string \<Rightarrow> string \<Rightarrow> string" where
  "gap_reason kind role = (if spec_of kind = None then ''No orchestrator mapping for ack kind `'' @ kind @ ''`.''
     else ''Orchestrator dispatch returned no result for `'' @ kind @ ''` '' @ [CHR 0x1A] @ '' **'' @ role @ ''**.'')"

definition enqueue_orchestrator_gap :: "hub_env \<Rightarrow> string \<Rightarrow> hub_project \<Rightarrow> string option \<Rightarrow> unit hub_eff" where
  "enqueue_orchestrator_gap E kind p expected_role =
     (let role = text_or expected_role (case spec_of kind of Some sp \<Rightarrow> sp_role sp | None \<Rightarrow> ''unknown'') in
      ebind (ewrite (on_hub (emit_event E ''role_failed'' (hp_uuid p) role [(''error'', JStr (gap_reason kind role))]))) (\<lambda>_.
      enqueue_card E ''approval'' (hp_uuid p) (''Orchestrator gap'' @ DASH @ hp_name p) (he_body E ''orchestrator_gap'' kind []) ''critical'' DEFAULT_ACTIONS
        [(''kind'', JStr ''orchestrator_gap''), (''project_uuid'', JStr (hp_uuid p)), (''project_name'', JStr (hp_name p)),
         (''ack_kind'', JStr kind), (''expected_role'', JStr role), (''bridge_mapped'', JBool (spec_of kind \<noteq> None))]))"

definition require_with :: "(string \<Rightarrow> hub_project \<Rightarrow> bool hub_eff) \<Rightarrow> (string \<Rightarrow> hub_project \<Rightarrow> unit hub_eff) \<Rightarrow>
    string \<Rightarrow> hub_project \<Rightarrow> bool hub_eff" where
  "require_with orchestrate gap kind p =
     ebind (orchestrate kind p) (\<lambda>handled.
     ebind (if handled then ereturn () else gap kind p) (\<lambda>_. ereturn handled))"

text \<open>A remediation calls for one review, which calls for nothing more: fuel two is enough.\<close>

fun orchestrate_fuel :: "nat \<Rightarrow> hub_env \<Rightarrow> string \<Rightarrow> hub_project \<Rightarrow> string \<Rightarrow> string option \<Rightarrow> string option \<Rightarrow>
    (string \<times> json) list \<Rightarrow> bool hub_eff" where
  "orchestrate_fuel 0 E kind p actor ack next_phase extra = ereturn False"
| "orchestrate_fuel (Suc n) E kind p actor ack next_phase extra =
     orchestrate_with (\<lambda>q a. require_with (\<lambda>k q. orchestrate_fuel n E k q a None None [])
         (\<lambda>k q. enqueue_orchestrator_gap E k q (Some ''verify'')) ''code_approval'' q)
       E kind p actor ack next_phase extra"

definition orchestrate_hub_role :: "hub_env \<Rightarrow> string \<Rightarrow> hub_project \<Rightarrow> string \<Rightarrow> string option \<Rightarrow> string option \<Rightarrow>
    (string \<times> json) list \<Rightarrow> bool hub_eff" where
  "orchestrate_hub_role = orchestrate_fuel 2"

definition require_orchestrate_hub_role :: "hub_env \<Rightarrow> string \<Rightarrow> hub_project \<Rightarrow> string \<Rightarrow> string option \<Rightarrow> string option \<Rightarrow>
    (string \<times> json) list \<Rightarrow> string option \<Rightarrow> bool hub_eff" where
  "require_orchestrate_hub_role E kind p actor ack next_phase extra expected_role =
     require_with (\<lambda>k q. orchestrate_hub_role E k q actor ack next_phase extra)
       (\<lambda>k q. enqueue_orchestrator_gap E k q expected_role) kind p"

text \<open>The roles that \<open>Recovery\<close> starts in the background are run by these two; \<open>None\<close> is a raise.\<close>

definition hub_runner :: "hub_env \<Rightarrow> hub_world \<Rightarrow> role_runner" where
  "hub_runner E w =
     \<lparr>rn_orchestrate = (\<lambda>p actor ps s.
        case orchestrate_hub_role E (rp_kind ps) p actor (rp_card_kind ps) (rp_next_phase ps)
            (case rp_context ps of None \<Rightarrow> [] | Some c \<Rightarrow> [(''extra_context'', JStr c)]) (w\<lparr>hw_hub := s\<rparr>) of
          (Inl _, w') \<Rightarrow> (None, hw_hub w') | (Inr h, w') \<Rightarrow> (Some h, hw_hub w')),
      rn_gap = (\<lambda>p ps s. hw_hub (run_state (enqueue_orchestrator_gap E (rp_kind ps) p (rp_role ps)) (w\<lparr>hw_hub := s\<rparr>)))\<rparr>"

section \<open>The phase watcher\<close>

text \<open>\<open>metadata ? k\<close>: the key is there, whatever its value. \<open>metadata->>k\<close> compared with \<open>'true'\<close>.\<close>

definition has_key :: "(string \<times> json) list \<Rightarrow> string \<Rightarrow> bool" where
  "has_key md k = (map_of md k \<noteq> None)"

definition reads_true :: "(string \<times> json) list \<Rightarrow> string \<Rightarrow> bool" where
  "reads_true md k = (map_of md k \<in> {Some (JBool True), Some (JStr ''true'')})"

definition feature_due :: "(string \<times> json) list \<Rightarrow> bool" where
  "feature_due md = (has_key md ''feature_requests'' \<and> \<not> reads_true md ''feature_iteration_active'' \<and>
     \<not> reads_true md ''code_review_blocked'' \<and> \<not> has_key md ''recovery_dispatch_in_flight'' \<and>
     list_ex (\<lambda>j. entry_status j ''requested'') (requests_of md))"

definition WATCH_RULES :: "(string \<times> ((string \<times> json) list \<Rightarrow> bool) \<times> string) list" where
  "WATCH_RULES =
    [(''plan_in_progress'', \<lambda>md. has_key md ''prd_md'' \<and> \<not> has_key md ''roadmap_md'', ''prd_approval''),
     (''plan_in_progress'', \<lambda>md. has_key md ''roadmap_md'' \<and> \<not> has_key md ''trd_md'', ''roadmap_approval''),
     (''plan_in_progress'', \<lambda>md. has_key md ''trd_md'' \<and> \<not> has_key md ''sprint_plan_md'', ''trd_approval''),
     (''build_in_progress'', \<lambda>md. has_key md ''sprint_plan_md'' \<and> \<not> has_key md ''code_intro_md'', ''sprint_plan_approval''),
     (''build_in_progress'', \<lambda>md. has_key md ''code_intro_md'' \<and> \<not> has_key md ''code_review_md'', ''code_approval''),
     (''verify_in_progress'', \<lambda>md. has_key md ''devops_install_ok'' \<and> \<not> has_key md ''qa_md'', ''devops_approval''),
     (''verify_approved'', \<lambda>md. has_key md ''qa_md'' \<and> \<not> has_key md ''audit_md'', ''auditor_approval''),
     (''acceptance'', \<lambda>md. has_key md ''audit_md'' \<and> \<not> has_key md ''release_gate_md'', ''release_approval''),
     (''released'', \<lambda>md. has_key md ''deploy_result'' \<and> \<not> has_key md ''operate_started_at'', ''operate_kickoff''),
     (''operate'', feature_due, ''feature_request''),
     (''operate'', \<lambda>md. has_key md ''code_intro_md'' \<and> \<not> has_key md ''code_review_md'' \<and>
        reads_true md ''feature_iteration_active'', ''code_approval'')]"

definition QUIET_MICROS :: time where
  "QUIET_MICROS = 15 * 60 * 1000000"

definition recently_routed :: "time \<Rightarrow> hub_project \<Rightarrow> route_row list \<Rightarrow> bool" where
  "recently_routed now p routes = list_ex (\<lambda>r. rh_project_id r = hp_id p \<and> now - QUIET_MICROS < rh_dispatched_at r) routes"

definition due :: "time \<Rightarrow> route_row list \<Rightarrow> string \<times> ((string \<times> json) list \<Rightarrow> bool) \<times> string \<Rightarrow> hub_project \<Rightarrow> bool" where
  "due now routes rule p = (case rule of (phase, pred, kind) \<Rightarrow>
     hp_status p = ''active'' \<and> hp_phase p = phase \<and> pred (hp_metadata p) \<and> \<not> recently_routed now p routes)"

text \<open>The statement has no \<open>ORDER BY\<close>; the table is read in insertion order.\<close>

definition find_pending_work :: "recovery_env \<Rightarrow> hub_world \<Rightarrow> (string \<times> string) list" where
  "find_pending_work R w = (if \<not> re_pool R then [] else
     concat (map (\<lambda>rule. map (\<lambda>p. (hp_uuid p, snd (snd rule)))
       (take 3 (filter (due (re_now R) (hw_routes w) rule) (hs_projects (hw_hub w))))) WATCH_RULES))"

text \<open>\<open>Es i\<close> is the environment while the row with index \<open>i\<close> is served; the index of pending cards is built once.\<close>

fun watch_rows :: "(string, string list) dict \<Rightarrow> (nat \<Rightarrow> hub_env) \<Rightarrow> nat \<Rightarrow> (string \<times> string) list \<Rightarrow> nat \<Rightarrow> nat hub_eff" where
  "watch_rows index Es i [] n = ereturn n"
| "watch_rows index Es i ((uuid, kind) # rows) n =
     ebind (eread (\<lambda>w. load_project_full (he_rec (Es i)) uuid (hw_hub w))) (\<lambda>project. case project of
       None \<Rightarrow> watch_rows index Es (Suc i) rows n
     | Some p \<Rightarrow>
         if 0 < pending_count_for_project p index then watch_rows index Es (Suc i) rows n
         else ebind (require_orchestrate_hub_role (Es i) kind p ''phase_watcher'' None None [] None) (\<lambda>handled.
           watch_rows index Es (Suc i) rows (if handled then Suc n else n)))"

definition phase_watcher_tick :: "recovery_env \<Rightarrow> (nat \<Rightarrow> hub_env) \<Rightarrow> nat hub_eff" where
  "phase_watcher_tick R Es w =
     (case find_pending_work R w of
        [] \<Rightarrow> (Inr 0, w)
      | rows \<Rightarrow> watch_rows (build_pending_decision_index (re_cards R) (hs_store (hw_hub w))) Es 0 rows 0 w)"

text \<open>A turn of the loop: an exception is logged, what was done before it stays.\<close>

definition watcher_turn :: "recovery_env \<Rightarrow> (nat \<Rightarrow> hub_env) \<Rightarrow> hub_world \<Rightarrow> hub_world" where
  "watcher_turn R Es w = run_state (phase_watcher_tick R Es) w"

definition watcher_enabled :: "string option \<Rightarrow> bool" where
  "watcher_enabled setting = (py_lower (py_strip (case setting of None \<Rightarrow> ''1'' | Some s \<Rightarrow> s)) \<notin>
     {''0'', ''false'', ''no'', ''off''})"

section \<open>What an event and a card change\<close>

lemma store_frame [simp]:
  "ds_cards (publish_event ev st) = ds_cards st" "ds_table (publish_event ev st) = ds_table st" "ds_db (publish_event ev st) = ds_db st"
  by (simp_all add: publish_event_def publish_def)

lemma emit_frame [simp]:
  "hs_projects (emit_event E ev u role x s) = hs_projects s" "hs_jobs (emit_event E ev u role x s) = hs_jobs s"
  "hs_scheduled (emit_event E ev u role x s) = hs_scheduled s"
  "ds_cards (hs_store (emit_event E ev u role x s)) = ds_cards (hs_store s)"
  "load_project_full R i (emit_event E ev u role x s) = load_project_full R i s"
  by (simp_all add: emit_event_def Let_def schedule_recovery_pulse_def not_in_flight_pulse_def publish_project_pulse_def
      load_project_full_def)

lemma fit_card_body_length: "length (fit_card_body body) \<le> DECISION_BODY_MAX"
proof -
  have "length TRUNCATED_SUFFIX \<le> DECISION_BODY_MAX" by (simp add: TRUNCATED_SUFFIX_def NL2_def DECISION_BODY_MAX_def)
  then show ?thesis by (simp add: fit_card_body_def fit_body_def)
qed

text \<open>A step that leaves the cards and the history alone, and one that leaves one more card of the project waiting.\<close>

definition same_cards :: "hub_world \<Rightarrow> hub_world \<Rightarrow> bool" where
  "same_cards w w' \<longleftrightarrow> hw_routes w' = hw_routes w \<and> ds_cards (hs_store (hw_hub w')) = ds_cards (hs_store (hw_hub w))"

definition posted :: "string \<Rightarrow> hub_world \<Rightarrow> hub_world \<Rightarrow> bool" where
  "posted u w w' \<longleftrightarrow> hw_routes w' = hw_routes w \<and>
     (\<exists>cd. ds_cards (hs_store (hw_hub w')) = AList.update (dc_decision_id cd) cd (ds_cards (hs_store (hw_hub w))) \<and>
       dc_status cd = Card_pending \<and> dc_project_id cd = Some u \<and> title_ok (dc_title cd) \<and>
       length (dc_body cd) \<le> DECISION_BODY_MAX)"

lemma same_cards_trans: "same_cards w w' \<Longrightarrow> same_cards w' w'' \<Longrightarrow> same_cards w w''"
  by (simp add: same_cards_def)

lemma same_cards_posted: "same_cards w w' \<Longrightarrow> posted u w' w'' \<Longrightarrow> posted u w w''"
  by (simp add: same_cards_def posted_def)

lemma same_cards_hub: "ds_cards (hs_store (f (hw_hub w))) = ds_cards (hs_store (hw_hub w)) \<Longrightarrow> same_cards w (on_hub f w)"
  by (simp add: same_cards_def)

lemma same_cards_emit [simp]:
  "same_cards w (on_hub (emit_event E ev u role x) w)"
  "same_cards w (on_hub (\<lambda>s. persist_metadata_patch R i patch (emit_event E ev u role x s)) w)"
  by (simp_all add: same_cards_def)

lemma enqueue_decision_cards:
  "ds_cards (snd (enqueue_decision C c st)) =
     AList.update (dc_decision_id (fst (enqueue_decision C c st))) (fst (enqueue_decision C c st)) (ds_cards st)"
  "dc_status (fst (enqueue_decision C c st)) = dc_status c" "dc_project_id (fst (enqueue_decision C c st)) = dc_project_id c"
  "dc_title (fst (enqueue_decision C c st)) = dc_title c" "dc_body (fst (enqueue_decision C c st)) = dc_body c"
  by (simp_all add: enqueue_decision_def put_card_def Let_def publish_def)

lemma enqueue_card_posts:
  "title_ok title \<Longrightarrow> \<exists>w'. enqueue_card E cls u title body sev acts md w = (Inr (), w') \<and> posted u w w' \<and>
     hs_projects (hw_hub w') = hs_projects (hw_hub w)"
  "\<not> title_ok title \<Longrightarrow> enqueue_card E cls u title body sev acts md w = (Inl Card_invalid, w)"
  by (auto simp: enqueue_card_def eff_simps posted_def enqueue_decision_cards fit_card_body_length
      intro!: exI [where x = "fst (enqueue_decision _ _ _)"])

text \<open>What ends in a card: it is posted if its title fits, and otherwise the error leaves no card.\<close>

definition settles :: "bool \<Rightarrow> hub_project \<Rightarrow> bool hub_eff \<Rightarrow> hub_world \<Rightarrow> bool" where
  "settles ok p m w \<longleftrightarrow> (\<exists>w'. if ok then m w = (Inr True, w') \<and> posted (hp_uuid p) w w' else m w = (Inl Card_invalid, w') \<and> same_cards w w')"

lemma settles_enqueue:
  "settles (title_ok title) p (ebind (enqueue_card E cls (hp_uuid p) title body sev acts md) (\<lambda>_. ereturn True)) w"
proof (cases "title_ok title")
  case True
  from enqueue_card_posts(1) [OF this, of E cls "hp_uuid p" body sev acts md w] obtain w' where
    "enqueue_card E cls (hp_uuid p) title body sev acts md w = (Inr (), w')" "posted (hp_uuid p) w w'" by blast
  then show ?thesis by (simp add: settles_def eff_simps True)
next
  case False
  then show ?thesis by (simp add: settles_def eff_simps enqueue_card_posts(2) same_cards_def)
qed

lemma settles_card:
  "title_ok title = ok \<Longrightarrow> settles ok p (ebind (enqueue_card E cls (hp_uuid p) title body sev acts md) (\<lambda>_. ereturn True)) w"
  using settles_enqueue [of title] by simp

lemma settles_after:
  assumes "m w = (Inr x, w1)" "same_cards w w1" "settles ok p (f x) w1"
  shows "settles ok p (ebind m f) w"
  using assms same_cards_trans same_cards_posted by (fastforce simp: settles_def eff_simps split: if_splits)

lemma settles_write: "same_cards w (g w) \<Longrightarrow> settles ok p (f ()) (g w) \<Longrightarrow> settles ok p (ebind (ewrite g) f) w"
  by (rule settles_after) (simp_all add: eff_simps)

text \<open>\<open>ok\<close> says whether a title with a text of usual length before the project's name fits.\<close>

definition name_fits :: "bool \<Rightarrow> hub_project \<Rightarrow> bool" where
  "name_fits ok p \<longleftrightarrow> (\<forall>prefix. 12 \<le> length prefix \<and> length prefix \<le> 30 \<longrightarrow> title_ok (prefix @ DASH @ hp_name p) = ok)"

lemma name_fits: "length (hp_name p) \<le> 160 \<Longrightarrow> name_fits True p" "186 \<le> length (hp_name p) \<Longrightarrow> name_fits False p"
  by (auto simp: name_fits_def title_ok_def DASH_def)

lemma length_upper [simp]: "length (upper s) = length s"
  by (simp add: upper_def)

lemma spec_role_length: "spec_of kind = Some sp \<Longrightarrow> 2 \<le> length (sp_role sp) \<and> length (sp_role sp) \<le> 15"
  by (auto simp: KIND_ROLE_DISPATCH_def split: if_splits)

lemma spec_has_tool: "spec_of kind = Some sp \<Longrightarrow> \<exists>tool. map_of SUBSYSTEM_TOOLS (sp_subsystem sp) = Some tool"
  by (auto simp: KIND_ROLE_DISPATCH_def SUBSYSTEM_TOOLS_def split: if_splits)

lemma dispatch_role:
  assumes "spec_of kind = Some sp" "dispatch_role_for_kind E kind u actor x w = (r, w')"
  shows "\<exists>r'. r = Some r' \<and> sr_role r' = sp_role sp \<and> (sr_ok r' \<longleftrightarrow> sr_error r' = None)"
  using assms by (auto simp: dispatch_role_for_kind_def run_tool_def Let_def split: option.splits prod.splits if_splits)

lemma fail_dispatch_settles:
  assumes "name_fits ok p" "2 \<le> length (sr_role r)" "length (sr_role r) \<le> 15"
  shows "settles ok p (fail_dispatch E kind p r) w"
proof -
  have t: "title_ok (upper (sr_role r) @ '' role FAILED'' @ DASH @ hp_name p) = ok"
    using assms(1) [unfolded name_fits_def, rule_format, of "upper (sr_role r) @ '' role FAILED''"] assms(2,3) by simp
  show ?thesis unfolding fail_dispatch_def Let_def
    by (rule settles_write [OF _ settles_card [OF t]]) (simp add: same_cards_def)
qed

lemma approval_result_settles:
  assumes "name_fits ok p" "2 \<le> length (sr_role r)" "length (sr_role r) \<le> 15"
  shows "settles ok p (approval_result E kind p card_kind target r) w"
proof -
  let ?t = "if card_kind = ''code_approval'' then ''Approve CODE output'' else if card_kind = ''devops_approval'' then ''DevOps stand-up''
    else ''Approve '' @ upper (sr_role r) @ '' output''"
  have t: "title_ok (?t @ DASH @ hp_name p) = ok"
    using assms(1) [unfolded name_fits_def, rule_format, of ?t] assms(2,3) by (simp split: if_splits)
  show ?thesis unfolding approval_result_def Let_def
    by (rule settles_write [OF _ settles_card [OF t]]) (simp add: finished_with_artifact_def)
qed

lemma qa_execution_result_settles:
  assumes "name_fits ok p"
  shows "settles ok p (qa_execution_result E kind p card_kind target r) w"
proof -
  have t: "title_ok (''QA execution'' @ DASH @ hp_name p) = ok"
    using assms [unfolded name_fits_def, rule_format, of "''QA execution''"] by simp
  show ?thesis unfolding qa_execution_result_def Let_def
    by (rule settles_write [OF _ settles_card [OF t]]) (simp add: finished_with_artifact_def)
qed

lemma review_result_settles:
  assumes "name_fits ok p"
  shows "settles ok p (review_result E kind p card_kind r) w"
proof -
  let ?t = "if card_kind = ''code_review_blocked'' then ''Code review BLOCKED'' else ''Code review PASS''"
  have t: "title_ok (?t @ DASH @ hp_name p) = ok"
    using assms [unfolded name_fits_def, rule_format, of ?t] by (simp split: if_splits)
  have sched: "same_cards v (on_hub (\<lambda>s. snd (schedule_auto_engineer_remediate u s)) v)" for u v
    by (simp add: same_cards_def schedule_auto_engineer_remediate_def)
  have "settles ok p (ebind (if auto then ewrite (on_hub (\<lambda>s. snd (schedule_auto_engineer_remediate (hp_uuid p) s))) else ereturn ()) (\<lambda>_.
      ebind (if auto then enqueue_card E c1 (hp_uuid p) (?t @ DASH @ hp_name p) b1 s1 a1 m1 else enqueue_card E c2 (hp_uuid p) (?t @ DASH @ hp_name p) b2 s2 a2 m2)
        (\<lambda>_. ereturn True))) v" for auto v c1 b1 s1 a1 m1 c2 b2 s2 a2 m2
    using settles_card [OF t, where p = p]
    by (cases auto) (auto intro!: settles_write [OF sched] settles_after [where m = "ereturn ()" and x = "()"] simp: eff_simps same_cards_def)
  then show ?thesis unfolding review_result_def Let_def
    by (intro settles_write settles_after [where m = "eread _", OF eread_apply]) (auto simp: same_cards_def)
qed

section \<open>What becomes of a role\<close>

definition deploys :: "hub_env \<Rightarrow> string \<Rightarrow> string option \<Rightarrow> dispatch_result \<Rightarrow> bool" where
  "deploys E kind ack r \<longleftrightarrow> sr_ok r \<and>
     (kind = ''local_deploy_prompt'' \<or> (case text_field E (sr_data r) ''result_kind'' of [] \<Rightarrow> text_or ack [] | t \<Rightarrow> t) = ''deploy'')"

lemma finish_result_settles:
  assumes "kind \<noteq> ''code_review_blocked''" "name_fits ok p" "2 \<le> length (sr_role r)" "length (sr_role r) \<le> 15" "sr_ok r"
    "\<not> deploys E kind ack r"
  shows "settles ok p (finish_result review E kind p actor ack next_phase r) w"
  using assms review_result_settles qa_execution_result_settles approval_result_settles
  by (auto simp: finish_result_def Let_def deploys_def)

lemma finish_result_deploy:
  assumes "deploys E kind ack r" "kind \<noteq> ''operate_kickoff''"
  shows "finish_result review E kind p actor ack next_phase r w = (Inr True, on_hub (emit_event E ''role_finished'' (hp_uuid p) (sr_role r) []) w)"
proof -
  have "deploy_result E kind p actor r w = (Inr True, on_hub (emit_event E ''role_finished'' (hp_uuid p) (sr_role r) []) w)"
    using assms(2) by (simp add: deploy_result_def eff_simps)
  then show ?thesis using assms(1) by (auto simp: finish_result_def Let_def deploys_def)
qed

lemma mapped_no_operate: "spec_of kind = Some sp \<Longrightarrow> kind \<noteq> ''operate_kickoff''"
  by (cases "kind = ''operate_kickoff''") (simp_all add: KIND_ROLE_DISPATCH_def)

lemma orchestrate_dispatched:
  assumes "spec_of kind = Some sp"
    "dispatch_role_for_kind E kind (hp_uuid p) actor extra (on_hub (emit_event E ''role_started'' (hp_uuid p) (sp_role sp) []) w) = (Some r, w1)"
  shows "orchestrate_with review E kind p actor ack next_phase extra w =
    (if sr_ok r then finish_result review E kind p actor ack next_phase r w1 else fail_dispatch E kind p r w1)"
  using assms by (simp add: orchestrate_with_def eff_simps)

lemma orchestrate_settles:
  assumes "spec_of kind = Some sp" "kind \<noteq> ''code_review_blocked''" "name_fits ok p" "\<not> deploys E kind ack r"
    "dispatch_role_for_kind E kind (hp_uuid p) actor extra (on_hub (emit_event E ''role_started'' (hp_uuid p) (sp_role sp) []) w) = (Some r, w1)"
  shows "settles ok p (\<lambda>_. orchestrate_with review E kind p actor ack next_phase extra w) w1"
proof -
  have "2 \<le> length (sr_role r)" "length (sr_role r) \<le> 15"
    using dispatch_role [OF assms(1,5)] spec_role_length [OF assms(1)] by auto
  then show ?thesis
    using finish_result_settles [OF assms(2,3) _ _ _ assms(4)] fail_dispatch_settles [OF assms(3)]
    unfolding settles_def orchestrate_dispatched [OF assms(1,5)] by simp
qed

lemma orchestrate_two: "orchestrate_hub_role E kind p actor ack next_phase extra w =
    orchestrate_with (\<lambda>q a. require_with (\<lambda>k q. orchestrate_fuel 1 E k q a None None [])
         (\<lambda>k q. enqueue_orchestrator_gap E k q (Some ''verify'')) ''code_approval'' q) E kind p actor ack next_phase extra w"
  by (simp add: orchestrate_hub_role_def numeral_2_eq_2)

lemma orchestrate_outcome:
  assumes "spec_of kind = Some sp" "kind \<noteq> ''code_review_blocked''" "length (hp_name p) \<le> 160"
    "dispatch_role_for_kind E kind (hp_uuid p) actor extra (on_hub (emit_event E ''role_started'' (hp_uuid p) (sp_role sp) []) w) = (Some r, w1)"
  shows "\<exists>w'. orchestrate_hub_role E kind p actor ack next_phase extra w = (Inr True, w') \<and>
    (if deploys E kind ack r then same_cards w1 w' else posted (hp_uuid p) w1 w')"
proof (cases "deploys E kind ack r")
  case True
  then have "sr_ok r" by (simp add: deploys_def)
  then show ?thesis
    by (simp add: orchestrate_two orchestrate_dispatched [OF assms(1,4)] finish_result_deploy [OF True mapped_no_operate [OF assms(1)]] True)
next
  case False
  from orchestrate_settles [OF assms(1,2) name_fits(1) [OF assms(3)] False assms(4)] show ?thesis
    by (simp add: orchestrate_two settles_def False)
qed

text \<open>A dispatch adds at most one row to the route history, and only for a success.\<close>

lemma dispatch_routes:
  assumes "dispatch_role_for_kind E kind u actor x w = (Some r, w1)"
  shows "\<exists>rows. hw_routes w1 = hw_routes w @ rows \<and> length rows \<le> (if sr_ok r then 1 else 0)"
  using assms by (auto simp: dispatch_role_for_kind_def run_tool_def record_route_history_def Let_def
      split: option.splits prod.splits if_splits)

text \<open>
  Claim C14. Whatever a mapped role answers, its outcome reaches the queue: unless it was a deployment, exactly one
  card of the project is added to what the tool left, pending and with a title and body that the queue accepts.
  The route history gains at most the one row of the dispatch, and none when the tool failed. (A remediation is
  followed by a review, and stated apart; the name of the project has at most 160 characters.)
\<close>

theorem role_result_reaches_queue:
  assumes "spec_of kind = Some sp" "kind \<noteq> ''code_review_blocked''" "length (hp_name p) \<le> 160"
    "dispatch_role_for_kind E kind (hp_uuid p) actor extra (on_hub (emit_event E ''role_started'' (hp_uuid p) (sp_role sp) []) w) = (Some r, w1)"
  shows "\<exists>w' rows. orchestrate_hub_role E kind p actor ack next_phase extra w = (Inr True, w') \<and>
    (if deploys E kind ack r then same_cards w1 w' else posted (hp_uuid p) w1 w') \<and>
    hw_routes w' = hw_routes w @ rows \<and> length rows \<le> (if sr_ok r then 1 else 0)"
proof -
  obtain w' where w': "orchestrate_hub_role E kind p actor ack next_phase extra w = (Inr True, w')"
    "if deploys E kind ack r then same_cards w1 w' else posted (hp_uuid p) w1 w'"
    using orchestrate_outcome [OF assms] by blast
  then have "hw_routes w' = hw_routes w1" by (auto simp: same_cards_def posted_def split: if_splits)
  then show ?thesis using w' dispatch_routes [OF assms(4)] by auto
qed

text \<open>
  A project may be created with a name of 200 characters, but with 186 or more no card of a role fits: the
  role runs, a success is recorded in the route history, and then building the card raises, so the result never
  reaches the queue.
\<close>

theorem long_name_loses_result:
  assumes "spec_of kind = Some sp" "kind \<noteq> ''code_review_blocked''" "186 \<le> length (hp_name p)" "\<not> deploys E kind ack r"
    "dispatch_role_for_kind E kind (hp_uuid p) actor extra (on_hub (emit_event E ''role_started'' (hp_uuid p) (sp_role sp) []) w) = (Some r, w1)"
  shows "\<exists>w'. orchestrate_hub_role E kind p actor ack next_phase extra w = (Inl Card_invalid, w') \<and> same_cards w1 w'"
  using orchestrate_settles [OF assms(1,2) name_fits(2) [OF assms(3)] assms(4,5)] by (simp add: orchestrate_two settles_def)

lemma orchestrate_review_irrelevant:
  "kind \<noteq> ''code_review_blocked'' \<Longrightarrow>
     orchestrate_with review E kind p actor ack next_phase extra = orchestrate_with review' E kind p actor ack next_phase extra"
proof -
  assume k: "kind \<noteq> ''code_review_blocked''"
  have "finish_result review E kind p actor ack next_phase = finish_result review' E kind p actor ack next_phase"
    by (intro ext) (simp only: finish_result_def Let_def k simp_thms if_False)
  then show ?thesis unfolding orchestrate_with_def by (rule ssubst) (rule refl)
qed

text \<open>More fuel changes nothing.\<close>

lemma orchestrate_enough_fuel: "orchestrate_fuel (Suc (Suc n)) E = orchestrate_fuel 2 E"
proof -
  have "orchestrate_fuel (Suc n) E ''code_approval'' q a c ph x = orchestrate_fuel (Suc 0) E ''code_approval'' q a c ph x" for q a c ph x
    unfolding orchestrate_fuel.simps by (rule orchestrate_review_irrelevant) simp
  then have "require_with (\<lambda>k q. orchestrate_fuel (Suc n) E k q a None None []) g ''code_approval'' q =
      require_with (\<lambda>k q. orchestrate_fuel (Suc 0) E k q a None None []) g ''code_approval'' q" for g a q
    unfolding require_with_def by (rule arg_cong2 [where f = ebind]) simp_all
  then show ?thesis unfolding numeral_2_eq_2 by (intro ext) (simp only: orchestrate_fuel.simps(2))
qed

section \<open>The interface of the dispatcher\<close>

text \<open>
  What the ack hooks, the recovery and the watcher rely on: a dispatcher refuses exactly the kinds that are not
  mapped and then has done nothing.
\<close>

locale role_dispatcher =
  fixes mapped :: "string \<Rightarrow> bool"
    and orchestrate :: "string \<Rightarrow> hub_project \<Rightarrow> bool hub_eff"
    and gap :: "string \<Rightarrow> hub_project \<Rightarrow> unit hub_eff"
  assumes refuses: "\<not> mapped k \<Longrightarrow> orchestrate k p w = (Inr False, w)"
    and handles: "mapped k \<Longrightarrow> fst (orchestrate k p w) \<noteq> Inr False"
begin

lemma require_mapped: "mapped k \<Longrightarrow> require_with orchestrate gap k p w = orchestrate k p w"
  using handles [of k p w] by (auto simp: require_with_def eff_simps split: prod.split sum.split)

lemma require_unmapped:
  "\<not> mapped k \<Longrightarrow> require_with orchestrate gap k p w = (case gap k p w of (Inl e, w') \<Rightarrow> (Inl e, w') | (Inr _, w') \<Rightarrow> (Inr False, w'))"
  by (simp add: require_with_def eff_simps refuses split: prod.split sum.split)

lemma require_handled_iff: "run_value (require_with orchestrate gap k p) w = Inr True \<longleftrightarrow> mapped k \<and> run_value (orchestrate k p) w = Inr True"
  by (cases "mapped k") (auto simp: require_mapped require_unmapped split: prod.split sum.split)

end

definition never_refuses :: "bool hub_eff \<Rightarrow> bool" where
  "never_refuses m \<longleftrightarrow> (\<forall>w. fst (m w) \<noteq> Inr False)"

lemma never_refuses_bind: "(\<And>x. never_refuses (f x)) \<Longrightarrow> never_refuses (ebind m f)"
  by (simp add: never_refuses_def eff_simps split: prod.split sum.split)

lemma never_refuses_true: "never_refuses (ereturn True)"
  by (simp add: never_refuses_def eff_simps)

lemma never_refuses_if: "never_refuses m \<Longrightarrow> never_refuses m' \<Longrightarrow> never_refuses (if b then m else m')"
  by simp

lemma results_true: "never_refuses (fail_dispatch E kind p r)"
  "never_refuses (finish_result review E kind p actor ack next_phase r)"
proof -
  note nr = never_refuses_bind never_refuses_true
  show "never_refuses (fail_dispatch E kind p r)" unfolding fail_dispatch_def Let_def by (intro nr)
  have "never_refuses (approval_result E kind p c t r)" for c t unfolding approval_result_def Let_def by (intro nr)
  moreover have "never_refuses (qa_execution_result E kind p c t r)" for c t unfolding qa_execution_result_def Let_def by (intro nr)
  moreover have "never_refuses (review_result E kind p c r)" for c unfolding review_result_def Let_def by (intro nr)
  moreover have "never_refuses (deploy_result E kind p actor r)" unfolding deploy_result_def by (intro nr)
  ultimately show "never_refuses (finish_result review E kind p actor ack next_phase r)"
    unfolding finish_result_def Let_def by (intro nr never_refuses_if)
qed

lemma orchestrate_refuses: "spec_of k = None \<Longrightarrow> orchestrate_hub_role E k p actor ack next_phase extra w = (Inr False, w)"
  by (simp add: orchestrate_two orchestrate_with_def eff_simps)

lemma orchestrate_handles:
  assumes "spec_of k \<noteq> None"
  shows "fst (orchestrate_hub_role E k p actor ack next_phase extra w) \<noteq> Inr False"
proof -
  obtain sp where sp: "spec_of k = Some sp" using assms by auto
  let ?w = "on_hub (emit_event E ''role_started'' (hp_uuid p) (sp_role sp) []) w"
  obtain r w1 where "dispatch_role_for_kind E k (hp_uuid p) actor extra ?w = (Some r, w1)"
    using dispatch_role [OF sp] by (metis surj_pair)
  from orchestrate_dispatched [OF sp this] show ?thesis
    using results_true [unfolded never_refuses_def] by (simp add: orchestrate_two)
qed

interpretation bridge: role_dispatcher "\<lambda>k. spec_of k \<noteq> None"
  "\<lambda>k q. orchestrate_hub_role E k q actor ack next_phase extra" "\<lambda>k q. enqueue_orchestrator_gap E k q expected_role"
  for E actor ack next_phase extra expected_role
proof unfold_locales
  show "\<not> spec_of k \<noteq> None \<Longrightarrow> orchestrate_hub_role E k p actor ack next_phase extra w = (Inr False, w)" for k p w
    by (rule orchestrate_refuses) blast
  show "spec_of k \<noteq> None \<Longrightarrow> fst (orchestrate_hub_role E k p actor ack next_phase extra w) \<noteq> Inr False" for k p w
    by (rule orchestrate_handles)
qed

lemma operate_kickoff_unmapped:
  "k \<in> {''auditor_approval'', ''release_approval'', ''operate_kickoff''} \<Longrightarrow> spec_of k = None"
proof -
  have "spec_of ''auditor_approval'' = None" "spec_of ''release_approval'' = None" "spec_of ''operate_kickoff'' = None"
    by (simp_all add: KIND_ROLE_DISPATCH_def)
  then show "k \<in> {''auditor_approval'', ''release_approval'', ''operate_kickoff''} \<Longrightarrow> spec_of k = None" by blast
qed

section \<open>What the watcher does\<close>

lemma tick_rows:
  "find_pending_work R w \<noteq> [] \<Longrightarrow> phase_watcher_tick R Es w =
     watch_rows (build_pending_decision_index (re_cards R) (hs_store (hw_hub w))) Es 0 (find_pending_work R w) 0 w"
  by (simp add: phase_watcher_tick_def split: list.split)

text \<open>
  Claim C24. The watcher leaves a project alone that waits for a human: when every project that a rule selects has a
  pending card, a tick runs no role, posts nothing and changes nothing.
\<close>

theorem waiting_projects_untouched:
  assumes "\<forall>(u, k) \<in> set (find_pending_work R w). \<forall>i p. load_project_full (he_rec (Es i)) u (hw_hub w) = Some p \<longrightarrow>
    0 < count_pending_for_project (re_cards R) p (hs_store (hw_hub w))"
  shows "phase_watcher_tick R Es w = (Inr 0, w)"
proof -
  let ?index = "build_pending_decision_index (re_cards R) (hs_store (hw_hub w))"
  have "watch_rows ?index Es i rows n w = (Inr n, w)"
    if "\<forall>(u, k) \<in> set rows. \<forall>i p. load_project_full (he_rec (Es i)) u (hw_hub w) = Some p \<longrightarrow> 0 < pending_count_for_project p ?index" for rows i n
    using that
  proof (induction rows arbitrary: i n)
    case (Cons r rows)
    obtain u k where "r = (u, k)" by (cases r)
    then show ?case using Cons by (cases "load_project_full (he_rec (Es i)) u (hw_hub w)") (auto simp: eff_simps)
  qed (simp add: eff_simps)
  then show ?thesis using assms tick_rows by (cases "find_pending_work R w = []")
    (auto simp: phase_watcher_tick_def count_pending_for_project_def)
qed

lemma tick_one:
  assumes "find_pending_work R w = [(u, k)]" "load_project_full (he_rec (Es 0)) u (hw_hub w) = Some p"
    "count_pending_for_project (re_cards R) p (hs_store (hw_hub w)) = 0"
  shows "phase_watcher_tick R Es w =
    (case require_orchestrate_hub_role (Es 0) k p ''phase_watcher'' None None [] None w of
       (Inl e, w') \<Rightarrow> (Inl e, w') | (Inr h, w') \<Rightarrow> (Inr (if h then 1 else 0), w'))"
  using assms by (auto simp: phase_watcher_tick_def eff_simps count_pending_for_project_def split: prod.split sum.split)

text \<open>
  Claim C15. A project that is due and waits for nobody gets its role: a tick that finds one project with a mapped
  kind runs the tool of that kind, counts one, and leaves the card of the outcome, or the deployment.
\<close>

theorem due_project_served:
  assumes "find_pending_work R w = [(u, k)]" "load_project_full (he_rec (Es 0)) u (hw_hub w) = Some p"
    "count_pending_for_project (re_cards R) p (hs_store (hw_hub w)) = 0"
    "spec_of k = Some sp" "k \<noteq> ''code_review_blocked''" "length (hp_name p) \<le> 160"
    "dispatch_role_for_kind (Es 0) k (hp_uuid p) ''phase_watcher'' []
       (on_hub (emit_event (Es 0) ''role_started'' (hp_uuid p) (sp_role sp) []) w) = (Some r, w1)"
  shows "\<exists>w'. phase_watcher_tick R Es w = (Inr 1, w') \<and> (if deploys (Es 0) k None r then same_cards w1 w' else posted (hp_uuid p) w1 w')"
proof -
  from orchestrate_outcome [OF assms(4-7)] obtain w' where
    o: "orchestrate_hub_role (Es 0) k p ''phase_watcher'' None None [] w = (Inr True, w')"
      "if deploys (Es 0) k None r then same_cards w1 w' else posted (hp_uuid p) w1 w'" by blast
  have "require_orchestrate_hub_role (Es 0) k p ''phase_watcher'' None None [] None w = (Inr True, w')"
    unfolding require_orchestrate_hub_role_def by (subst bridge.require_mapped) (simp_all add: assms(4) o(1))
  then show ?thesis using o(2) by (simp add: tick_one [where Es = Es, OF assms(1-3)])
qed

lemma gap_posts:
  assumes "length (hp_name p) \<le> 160"
  shows "\<exists>w'. enqueue_orchestrator_gap E k p expected w = (Inr (), w') \<and> posted (hp_uuid p) w w' \<and> hs_projects (hw_hub w') = hs_projects (hw_hub w)"
proof -
  have t: "title_ok (''Orchestrator gap'' @ DASH @ hp_name p)"
    using name_fits(1) [OF assms, unfolded name_fits_def, rule_format, of "''Orchestrator gap''"] by simp
  let ?w = "on_hub (emit_event E ''role_failed'' (hp_uuid p) (text_or expected (case spec_of k of Some sp \<Rightarrow> sp_role sp | None \<Rightarrow> ''unknown''))
    [(''error'', JStr (gap_reason k (text_or expected (case spec_of k of Some sp \<Rightarrow> sp_role sp | None \<Rightarrow> ''unknown''))))]) w"
  from enqueue_card_posts(1) [OF t, of E "''approval''" "hp_uuid p" _ _ _ _ ?w] show ?thesis
    unfolding enqueue_orchestrator_gap_def Let_def ebind_apply ewrite_apply
    using same_cards_posted [OF same_cards_emit(1)] by (fastforce simp del: append.simps)
qed

text \<open>
  Three rules of the watcher cannot run a role: the kinds \<open>auditor_approval\<close>, \<open>release_approval\<close> and
  \<open>operate_kickoff\<close> have no mapping, so a tick for such a project calls no tool, whatever the tool would do, changes
  no row and counts nothing; all it leaves is one more card that reports the gap.
\<close>

theorem unmapped_rule_only_reports_gap:
  assumes "find_pending_work R w = [(u, k)]" "k \<in> {''auditor_approval'', ''release_approval'', ''operate_kickoff''}"
    "load_project_full (he_rec (Es 0)) u (hw_hub w) = Some p"
    "count_pending_for_project (re_cards R) p (hs_store (hw_hub w)) = 0" "length (hp_name p) \<le> 160"
  shows "\<exists>w'. phase_watcher_tick R Es w = (Inr 0, w') \<and> posted (hp_uuid p) w w' \<and> hs_projects (hw_hub w') = hs_projects (hw_hub w)"
proof -
  from gap_posts [OF assms(5)] obtain w' where
    g: "enqueue_orchestrator_gap (Es 0) k p None w = (Inr (), w')" "posted (hp_uuid p) w w'" "hs_projects (hw_hub w') = hs_projects (hw_hub w)"
    by blast
  have "require_orchestrate_hub_role (Es 0) k p ''phase_watcher'' None None [] None w = (Inr False, w')"
    unfolding require_orchestrate_hub_role_def
    by (subst bridge.require_unmapped) (simp_all add: operate_kickoff_unmapped [OF assms(2)] g(1))
  then show ?thesis using g(2,3) by (simp add: tick_one [where Es = Es, OF assms(1,3,4)])
qed

text \<open>
  The rules of the plan, build, verify and acceptance phases do not look at the flag of a role that the recovery
  has started, and its row of the history is only written when it has ended.
\<close>

lemma has_key_update [simp]: "has_key (AList.update k' j md) k \<longleftrightarrow> k = k' \<or> has_key md k"
  by (simp add: has_key_def dict_simps)

lemma has_key_merge:
  "has_key (merge_meta md patch) k \<longleftrightarrow> has_key md k \<or> k \<in> set (map fst patch)"
proof (induction patch arbitrary: md)
  case (Cons x patch)
  obtain k' j where "x = (k', j)" by (cases x)
  then show ?case using Cons by auto
qed simp

lemma started_state:
  assumes "load_project_full E i s = Some p" "\<not> truthy (flag_of p)"
    "recovery_dispatch E i action actor note auto_loop s = (Rp_started a k, s')"
  shows "\<exists>ps. s' = start_role E p a ps actor s"
proof -
  have c: "cleared E p = p" "reap E p s = s"
    using assms(2) by (simp_all add: cleared_def stale_def reap_def reap_eq)
  have "\<exists>ps. t = start_role E p b ps actor s" if "decide_dispatch E p b' actor note auto_loop s = (Rp_started b k, t)" for b b' t
    using that by (auto simp: decide_dispatch_def Let_def split: if_splits option.splits)
  then show ?thesis using assms(1,3) c
    by (auto simp: recovery_dispatch_def dispatch_loaded_cleared split: option.splits)
qed

text \<open>
  Claim C26. A running role does not make its project less due: after the recovery has started a role, which
  has just set the flag and taken its place in the background, a rule before operation that selected the project
  still selects it, so that the watcher starts a second role beside the first.
\<close>

theorem running_role_not_noticed:
  assumes "rule \<in> set (take 9 WATCH_RULES)" "due now routes rule p" "load_project_full E i s = Some p" "\<not> isdigit (hp_uuid p)"
    "\<not> truthy (flag_of p)" "recovery_dispatch E i action actor note auto_loop s = (Rp_started a k, s')" "a \<noteq> Retry_feature"
  shows "\<exists>p' \<in> set (hs_projects s'). hp_uuid p' = hp_uuid p \<and> due now routes rule p' \<and> truthy (flag_of p') \<and>
    (\<exists>j \<in> set (hs_jobs s'). hp_uuid (rj_project j) = hp_uuid p)"
proof -
  obtain ps where s': "s' = start_role E p a ps actor s" using started_state [OF assms(3,5,6)] by blast
  let ?patch = "[(''recovery_dispatch_in_flight'', in_flight_flag E a (rp_kind ps) actor)]"
  let ?p = "p\<lparr>hp_metadata := merge_meta (hp_metadata p) ?patch, hp_updated_at := re_now E\<rparr>"
  have row: "re_pool E" "is_row (hp_uuid p) p" "p \<in> set (hs_projects s)"
    using assms(3,4) by (auto simp: load_project_full_def is_row_def split: if_splits dest: find_Some_mem)
  have proj: "hs_projects s' = hs_projects (persist_metadata_patch E (hp_uuid p) ?patch s)"
    using assms(7) by (simp add: s' start_role_def Let_def schedule_recovery_pulse_def)
  have in_s': "?p \<in> set (hs_projects s')" unfolding proj persist_metadata_patch_def using row by auto
  have "due now routes rule ?p = due now routes rule p"
    using assms(1) unfolding WATCH_RULES_def by (auto simp: due_def recently_routed_def numeral_eq_Suc)
  moreover have "truthy (in_flight_flag E a (rp_kind ps) actor)" by (simp add: in_flight_flag_def truthy_def)
  moreover have "\<exists>j \<in> set (hs_jobs s'). hp_uuid (rj_project j) = hp_uuid p"
    unfolding s' by (simp add: start_role_jobs)
  ultimately show ?thesis using in_s' assms(2) by (intro bexI [of _ ?p]) (auto simp: flag_of_def)
qed

section \<open>The watcher and the recovery\<close>

abbreviation flag_key :: string where
  "flag_key \<equiv> ''recovery_dispatch_in_flight''"

definition keyed :: "string \<Rightarrow> hub_state \<Rightarrow> bool" where
  "keyed u s \<longleftrightarrow> (\<forall>q \<in> set (hs_projects s). hp_uuid q = u \<longrightarrow> has_key (hp_metadata q) flag_key)"

lemma finish_role_projects:
  "hs_projects (finish_role E u s) = hs_projects (persist_metadata_patch E u [(flag_key, JNull)] s)"
  unfolding finish_role_def by (rule pulse_after_reap)

lemma finish_role_keyed: "re_pool E \<Longrightarrow> \<not> isdigit u \<Longrightarrow> keyed u (finish_role E u s)"
proof -
  assume a: "re_pool E" "\<not> isdigit u"
  have "has_key (hp_metadata q) flag_key"
    if q: "q \<in> set (hs_projects (persist_metadata_patch E u [(flag_key, JNull)] s))" and u: "hp_uuid q = u" for q
  proof -
    obtain p where p: "p \<in> set (hs_projects s)" "q = (if is_row u p
        then p\<lparr>hp_metadata := merge_meta (hp_metadata p) [(flag_key, JNull)], hp_updated_at := re_now E\<rparr> else p)"
      using q a(1) by (auto simp: persist_metadata_patch_def)
    moreover have "is_row u p" using a(2) u p(2) by (simp add: is_row_def split: if_splits)
    ultimately show ?thesis by simp
  qed
  then show "keyed u (finish_role E u s)" unfolding keyed_def finish_role_projects by blast
qed

lemma keyed_persist: "keyed u s \<Longrightarrow> keyed u (persist_metadata_patch E i patch s)"
  by (auto simp: keyed_def persist_metadata_patch_def has_key_merge)

text \<open>
  A role of the recovery ends by writing null into its flag, and the rule for requested features asks that
  the key be absent: from then on no metadata update that follows lets the watcher start a requested feature of that
  project, although nothing is in flight.
\<close>

theorem feature_rule_dead_after_recovery:
  assumes "re_pool E" "\<not> isdigit (hp_uuid (rj_project j))"
    and "s' = fold (\<lambda>(G, i, patch). persist_metadata_patch G i patch) changes (run_recovery_orchestration E R j s)"
  shows "(hp_uuid (rj_project j), ''feature_request'') \<notin> set (find_pending_work F (w\<lparr>hw_hub := s'\<rparr>))"
proof
  let ?u = "hp_uuid (rj_project j)"
  have "keyed ?u (fold (\<lambda>(G, i, patch). persist_metadata_patch G i patch) xs t)" if "keyed ?u t" for xs t
    using that by (induction xs arbitrary: t) (auto simp: keyed_persist)
  moreover have "keyed ?u (run_recovery_orchestration E R j s)"
    unfolding run_recovery_orchestration_def by (rule finish_role_keyed [OF assms(1,2)])
  ultimately have k: "keyed ?u s'" using assms(3) by blast
  assume "(?u, ''feature_request'') \<in> set (find_pending_work F (w\<lparr>hw_hub := s'\<rparr>))"
  then obtain rule p where "rule \<in> set WATCH_RULES" "snd (snd rule) = ''feature_request''" "hp_uuid p = ?u"
    "p \<in> set (take 3 (filter (due (re_now F) (hw_routes w) rule) (hs_projects s')))"
    by (auto simp: find_pending_work_def split: if_splits)
  moreover have "fst (snd rule) = feature_due"
    using calculation(1,2) by (auto simp: WATCH_RULES_def)
  moreover have "p \<in> set (hs_projects s')" "due (re_now F) (hw_routes w) rule p"
    using calculation(4) by (auto dest!: in_set_takeD)
  ultimately have "feature_due (hp_metadata p)" "p \<in> set (hs_projects s')" "hp_uuid p = ?u"
    by (auto simp: due_def split_beta)
  then show False using k by (auto simp: keyed_def feature_due_def)
qed

lemma posted_pending: "posted (hp_uuid p) w w' \<Longrightarrow> \<exists>i cd. map_of (ds_cards (hs_store (hw_hub w'))) i = Some cd \<and> dc_status cd = Card_pending \<and>
    dc_project_id cd = Some (hp_uuid p)"
proof -
  assume "posted (hp_uuid p) w w'"
  then obtain cd where "ds_cards (hs_store (hw_hub w')) = AList.update (dc_decision_id cd) cd (ds_cards (hs_store (hw_hub w)))"
    "dc_status cd = Card_pending" "dc_project_id cd = Some (hp_uuid p)" unfolding posted_def by blast
  then show ?thesis by (intro exI [of _ "dc_decision_id cd"] exI [of _ cd]) (simp add: map_of_update)
qed

abbreviation job_context :: "role_job \<Rightarrow> (string \<times> json) list" where
  "job_context j \<equiv> (case rp_context (rj_params j) of None \<Rightarrow> [] | Some c \<Rightarrow> [(''extra_context'', JStr c)])"

abbreviation job_started :: "hub_env \<Rightarrow> role_job \<Rightarrow> dispatch_spec \<Rightarrow> hub_state \<Rightarrow> hub_state" where
  "job_started E j sp \<equiv> emit_event E ''role_started'' (hp_uuid (rj_project j)) (sp_role sp) []"

text \<open>
  Claim C17. A role that the recovery has started in the background ends with its outcome in the queue and its project
  free: for a mapped kind that is no remediation, when the role did not deploy, a card of the project is pending and
  the flag reads as null in every row of the project, whatever the tool did and answered.
\<close>

theorem recovered_role_leaves_card:
  assumes "spec_of (rp_kind (rj_params j)) = Some sp" "rp_kind (rj_params j) \<notin> {''code_review_blocked'', ''security_review_blocked''}"
    "length (hp_name (rj_project j)) \<le> 160" "\<not> isdigit (hp_uuid (rj_project j))" "re_pool (he_rec E)"
    "dispatch_role_for_kind E (rp_kind (rj_params j)) (hp_uuid (rj_project j)) (rj_actor j) (job_context j)
       (w\<lparr>hw_hub := job_started E j sp s\<rparr>) = (Some r, w1)"
    "\<not> deploys E (rp_kind (rj_params j)) (rp_card_kind (rj_params j)) r"
  shows "(\<exists>i cd. map_of (ds_cards (hs_store (run_recovery_orchestration (he_rec E) (hub_runner E w) j s))) i = Some cd \<and>
      dc_status cd = Card_pending \<and> dc_project_id cd = Some (hp_uuid (rj_project j))) \<and>
    (\<forall>q \<in> set (hs_projects (run_recovery_orchestration (he_rec E) (hub_runner E w) j s)).
      hp_uuid q = hp_uuid (rj_project j) \<longrightarrow> flag_of q = JNull)"
proof -
  let ?p = "rj_project j" and ?ps = "rj_params j"
  let ?x = "case rp_context ?ps of None \<Rightarrow> [] | Some c \<Rightarrow> [(''extra_context'', JStr c)]"
  let ?w = "w\<lparr>hw_hub := s\<rparr>"
  let ?s' = "run_recovery_orchestration (he_rec E) (hub_runner E w) j s"
  have d: "dispatch_role_for_kind E (rp_kind ?ps) (hp_uuid ?p) (rj_actor j) ?x
      (on_hub (emit_event E ''role_started'' (hp_uuid ?p) (sp_role sp) []) ?w) = (Some r, w1)"
    using assms(6) by simp
  have "settles True ?p (\<lambda>_. orchestrate_hub_role E (rp_kind ?ps) ?p (rj_actor j) (rp_card_kind ?ps) (rp_next_phase ?ps) ?x ?w) w1"
    unfolding orchestrate_two
    by (rule orchestrate_settles [OF assms(1) _ name_fits(1) [OF assms(3)] assms(7) d]) (use assms(2) in auto)
  then obtain w' where o: "orchestrate_hub_role E (rp_kind ?ps) ?p (rj_actor j) (rp_card_kind ?ps) (rp_next_phase ?ps) ?x ?w = (Inr True, w')"
    "posted (hp_uuid ?p) w1 w'" by (auto simp: settles_def)
  have run: "?s' = finish_role (he_rec E) (hp_uuid ?p) (hw_hub w')"
    using assms(2) o(1) by (simp add: run_recovery_orchestration_def rescan_def Let_def hub_runner_def)
  have "ds_cards (hs_store ?s') = ds_cards (hs_store (hw_hub w'))"
    using rest_kept_trans [OF rest_kept_trans [OF pulse_kept(2) pulse_kept(1)] publish_recovery_pulse_kept]
    unfolding run finish_role_def rest_kept_def by metis
  moreover have "\<forall>q \<in> set (hs_projects ?s'). hp_uuid q = hp_uuid ?p \<longrightarrow> flag_of q = JNull"
    using assms(4,5) unfolding run finish_role_projects
    by (auto simp: persist_metadata_patch_def is_row_def flag_of_def)
  ultimately show ?thesis using posted_pending [OF o(2)] by simp
qed

section \<open>A dispatch at work\<close>

definition demo_tools :: phase_tools where
  "demo_tools = \<lparr>pt_requires_gate = (\<lambda>t. t = ''plan_approved''), pt_grant = (\<lambda>_ _ _ s. (Grant_refused, s)),
     pt_advance = (\<lambda>_ _ _ _ s. (Advance_refused ''gate'', s))\<rparr>"

definition demo_hub_env :: hub_env where
  "demo_hub_env = \<lparr>he_rec = demo_recovery_env, he_tool = (\<lambda>_ _ s. ([(''status'', JStr ''ok'')], s)), he_kg = (\<lambda>_ _ _ _. None),
     he_version = (\<lambda>_. ''1''), he_directive_id = ''d1'', he_card_id = ''c1'', he_body = (\<lambda>_ _ _. ''text''), he_tools = demo_tools\<rparr>"

definition demo_world :: "string \<Rightarrow> (string \<times> json) list \<Rightarrow> hub_world" where
  "demo_world phase md = \<lparr>hw_hub = demo_hub phase md, hw_routes = [], hw_history = []\<rparr>"

abbreviation demo_prd :: "(string \<times> json) list" where
  "demo_prd \<equiv> [(''prd_md'', JStr ''text'')]"

definition demo_planner :: dispatch_spec where
  "demo_planner = \<lparr>sp_subsystem = ''plan'', sp_role = ''planner'', sp_directive = ''PRODUCE_ROADMAP''\<rparr>"

lemma demo_spec: "spec_of ''prd_approval'' = Some demo_planner"
  by (simp add: KIND_ROLE_DISPATCH_def demo_planner_def)

definition demo_result :: dispatch_result where
  "demo_result = \<lparr>sr_ok = True, sr_role = ''planner'', sr_directive_id = ''d1'', sr_tool = ''plan_dispatch'', sr_data = [], sr_error = None\<rparr>"

lemma demo_dispatch:
  "dispatch_role_for_kind demo_hub_env ''prd_approval'' u actor x w =
     (Some demo_result, record_route_history demo_hub_env u demo_planner ''d1'' ''plan_dispatch'' ''1'' w)"
  unfolding dispatch_role_for_kind_def demo_spec option.case
  by (simp add: demo_planner_def SUBSYSTEM_TOOLS_def run_tool_def demo_hub_env_def demo_result_def data_of_def meta_def
      text_or_empty_def truthy_def Let_def)

lemma demo_no_deploy: "\<not> deploys demo_hub_env ''prd_approval'' None demo_result"
  by (simp add: deploys_def demo_result_def meta_def text_or_empty_def truthy_def)

lemma demo_routed: "hw_routes (record_route_history demo_hub_env ''p7'' demo_planner ''d1'' ''plan_dispatch'' ''1''
    (on_hub (emit_event demo_hub_env ''role_started'' ''p7'' ''planner'' []) (demo_world ph md))) \<noteq> []"
proof -
  have "find (is_row ''p7'') (hs_projects (demo_hub ph md)) = Some (demo_project ph md)"
    using demo_recovery_load [of ph md] by (simp add: load_project_full_def demo_recovery_env_def)
  then show ?thesis
    by (simp add: record_route_history_def demo_world_def demo_hub_env_def) (simp add: demo_recovery_env_def demo_cards_env_def)
qed

theorem role_result_reaches_queue_witness:
  "\<exists>w'. orchestrate_hub_role demo_hub_env ''prd_approval'' (demo_project ''plan_in_progress'' demo_prd) ''ann'' None None []
      (demo_world ''plan_in_progress'' demo_prd) = (Inr True, w') \<and>
    (\<exists>i cd. map_of (ds_cards (hs_store (hw_hub w'))) i = Some cd \<and> dc_status cd = Card_pending)"
proof -
  have "length (hp_name (demo_project ''plan_in_progress'' demo_prd)) \<le> 160" "''prd_approval'' \<noteq> ''code_review_blocked''"
    by (simp_all add: demo_project_def)
  from role_result_reaches_queue [OF demo_spec this(2,1) demo_dispatch,
      where actor = "''ann''" and extra = "[]" and w = "demo_world ''plan_in_progress'' demo_prd" and ack = None and next_phase = None]
  show ?thesis using posted_pending by (fastforce simp: demo_no_deploy)
qed

definition demo_long :: hub_project where
  "demo_long = (demo_project ''plan_in_progress'' demo_prd)\<lparr>hp_name := replicate 190 (CHR ''n'')\<rparr>"

theorem long_name_loses_result_witness:
  "\<exists>w'. orchestrate_hub_role demo_hub_env ''prd_approval'' demo_long ''ann'' None None []
      (demo_world ''plan_in_progress'' demo_prd) = (Inl Card_invalid, w') \<and> hw_routes w' \<noteq> []"
proof -
  have l: "186 \<le> length (hp_name demo_long)" "''prd_approval'' \<noteq> ''code_review_blocked''" "hp_uuid demo_long = ''p7''"
    by (simp_all add: demo_long_def demo_project_def)
  from long_name_loses_result [OF demo_spec l(2,1) demo_no_deploy demo_dispatch,
      where actor = "''ann''" and extra = "[]" and w = "demo_world ''plan_in_progress'' demo_prd" and next_phase = None]
  show ?thesis using demo_routed by (fastforce simp: same_cards_def l(3) demo_planner_def)
qed

lemma demo_found: "find_pending_work demo_recovery_env (demo_world ''plan_in_progress'' demo_prd) = [(''p7'', ''prd_approval'')]"
  by (simp add: find_pending_work_def WATCH_RULES_def due_def has_key_def recently_routed_def demo_world_def demo_hub_def
      demo_project_def) (simp add: demo_recovery_env_def)

lemma demo_count: "count_pending_for_project demo_cards_env (demo_project ph md) demo_store = 0"
proof -
  have "alist demo_cards_env (Some Card_pending) demo_store = []"
    by (simp add: alist_def list_from_db_def list_cards_def demo_store_def)
  then show ?thesis by (simp add: count_pending_for_project_def build_pending_decision_index_def pending_count_for_project_def)
qed

lemma demo_world_parts:
  "load_project_full (he_rec demo_hub_env) ''p7'' (hw_hub (demo_world ph md)) = Some (demo_project ph md)"
  "count_pending_for_project (re_cards demo_recovery_env) (demo_project ph md) (hs_store (hw_hub (demo_world ph md))) = 0"
  "length (hp_name (demo_project ph md)) \<le> 160"
  using demo_recovery_load [of ph md] demo_count [of ph md]
  by (simp_all add: demo_hub_env_def demo_world_def demo_hub_def demo_recovery_env_def demo_project_def)

theorem due_project_served_witness:
  "\<exists>w'. phase_watcher_tick demo_recovery_env (\<lambda>_. demo_hub_env) (demo_world ''plan_in_progress'' demo_prd) = (Inr 1, w') \<and>
    (\<exists>i cd. map_of (ds_cards (hs_store (hw_hub w'))) i = Some cd \<and> dc_status cd = Card_pending)"
proof -
  have k: "''prd_approval'' \<noteq> ''code_review_blocked''" by simp
  from due_project_served [where Es = "\<lambda>_. demo_hub_env", OF demo_found demo_world_parts(1,2) demo_spec k demo_world_parts(3) demo_dispatch]
  show ?thesis using posted_pending by (fastforce simp: demo_no_deploy)
qed

theorem unmapped_rule_only_reports_gap_witness:
  "\<exists>w'. phase_watcher_tick demo_recovery_env (\<lambda>_. demo_hub_env) (demo_world ''verify_approved'' [(''qa_md'', JStr ''text'')]) = (Inr 0, w') \<and>
    (\<exists>i cd. map_of (ds_cards (hs_store (hw_hub w'))) i = Some cd \<and> dc_status cd = Card_pending)"
proof -
  have "find_pending_work demo_recovery_env (demo_world ''verify_approved'' [(''qa_md'', JStr ''text'')]) = [(''p7'', ''auditor_approval'')]"
    by (simp add: find_pending_work_def WATCH_RULES_def due_def has_key_def recently_routed_def demo_world_def demo_hub_def
        demo_project_def) (simp add: demo_recovery_env_def)
  from unmapped_rule_only_reports_gap [where Es = "\<lambda>_. demo_hub_env", OF this _ demo_world_parts(1,2,3)]
  show ?thesis using posted_pending by blast
qed

definition waiting_world :: hub_world where
  "waiting_world = \<lparr>hw_hub = (demo_hub ''plan_in_progress'' demo_prd)\<lparr>hs_store := aput demo_cards_env demo_card demo_store\<rparr>, hw_routes = [], hw_history = []\<rparr>"

theorem waiting_projects_untouched_witness:
  "find_pending_work demo_recovery_env waiting_world = [(''p7'', ''prd_approval'')] \<and>
   phase_watcher_tick demo_recovery_env (\<lambda>_. demo_hub_env) waiting_world = (Inr 0, waiting_world)"
proof -
  have f: "find_pending_work demo_recovery_env waiting_world = [(''p7'', ''prd_approval'')]"
    using demo_found unfolding find_pending_work_def waiting_world_def demo_world_def by (simp split: if_splits)
  have "load_project_full demo_recovery_env ''p7'' (hw_hub waiting_world) = Some (demo_project ''plan_in_progress'' demo_prd)"
    using demo_recovery_load [of "''plan_in_progress''" demo_prd] by (simp add: load_project_full_def waiting_world_def split: if_splits)
  moreover have "count_pending_for_project demo_cards_env (demo_project ''plan_in_progress'' demo_prd) (aput demo_cards_env demo_card demo_store) = 1"
    using pending_count_exact_witness
    by (simp add: count_pending_for_project_def pending_count_for_project_def project_card_keys_def demo_project_def)
  ultimately show ?thesis using f waiting_projects_untouched [of demo_recovery_env waiting_world "\<lambda>_. demo_hub_env"]
    by (simp add: demo_hub_env_def) (simp add: demo_recovery_env_def waiting_world_def)
qed

theorem running_role_not_noticed_witness:
  "\<exists>a k s'. recovery_dispatch demo_recovery_env ''p7'' Retry_planner ''ann'' None False (demo_hub ''plan_in_progress'' demo_prd) = (Rp_started a k, s') \<and>
    (\<exists>p \<in> set (hs_projects s'). due 0 [] (hd WATCH_RULES) p \<and> truthy (flag_of p))"
proof -
  let ?s = "demo_hub ''plan_in_progress'' demo_prd" and ?p = "demo_project ''plan_in_progress'' demo_prd"
  have p: "due 0 [] (hd WATCH_RULES) ?p" "\<not> isdigit (hp_uuid ?p)" "\<not> truthy (flag_of ?p)" "hd WATCH_RULES \<in> set (take 9 WATCH_RULES)"
    by (simp_all add: due_def WATCH_RULES_def has_key_def recently_routed_def demo_project_def isdigit_def re_digit_def
        in_range_def flag_of_def meta_def truthy_def)
  have "may_start demo_recovery_env ?p Retry_planner False ?s"
    by (simp add: may_start_def demo_project_def fresh_def flag_of_def meta_def truthy_def cleared_def stale_def
        action_specs_def starts_with_def)
  then obtain k s' where d: "recovery_dispatch demo_recovery_env ''p7'' Retry_planner ''ann'' None False ?s = (Rp_started Retry_planner k, s')"
    using decide_dispatch_started [of demo_recovery_env ?p Retry_planner False ?s None _ "''ann''"]
    by (simp add: recovery_dispatch_def demo_recovery_load dispatch_loaded_cleared requested_action_def)
  from running_role_not_noticed [OF p(4,1) demo_recovery_load p(2,3) d] d show ?thesis by blast
qed

definition demo_job :: role_job where
  "demo_job = \<lparr>rj_project = demo_project ''plan_in_progress'' demo_prd, rj_params = params ''prd_approval'' None None,
     rj_actor = ''ann'', rj_started = 0\<rparr>"

theorem feature_rule_dead_after_recovery_witness:
  "(''p7'', ''feature_request'') \<notin> set (find_pending_work demo_recovery_env ((demo_world ''operate'' [])\<lparr>hw_hub := persist_metadata_patch demo_recovery_env ''p7''
     [(''feature_requests'', JList [JDict [(''status'', JStr ''requested'')]])]
     (run_recovery_orchestration demo_recovery_env (hub_runner demo_hub_env (demo_world ''operate'' [])) demo_job (demo_hub ''operate'' []))\<rparr>))"
  using feature_rule_dead_after_recovery [of demo_recovery_env demo_job _
      "[(demo_recovery_env, ''p7'', [(''feature_requests'', JList [JDict [(''status'', JStr ''requested'')]])])]"
      "hub_runner demo_hub_env (demo_world ''operate'' [])" "demo_hub ''operate'' []" demo_recovery_env "demo_world ''operate'' []"]
  by (simp add: demo_job_def demo_project_def isdigit_def re_digit_def in_range_def) (simp add: demo_recovery_env_def)

theorem recovered_role_leaves_card_witness:
  "\<exists>i cd. map_of (ds_cards (hs_store (run_recovery_orchestration demo_recovery_env (hub_runner demo_hub_env (demo_world ''operate'' [])) demo_job
      (demo_hub ''plan_in_progress'' demo_prd)))) i = Some cd \<and> dc_status cd = Card_pending"
proof -
  have j: "spec_of (rp_kind (rj_params demo_job)) = Some demo_planner"
    "rp_kind (rj_params demo_job) \<notin> {''code_review_blocked'', ''security_review_blocked''}" "length (hp_name (rj_project demo_job)) \<le> 160"
    "\<not> isdigit (hp_uuid (rj_project demo_job))" "re_pool (he_rec demo_hub_env)"
    "\<not> deploys demo_hub_env (rp_kind (rj_params demo_job)) (rp_card_kind (rj_params demo_job)) demo_result"
    using demo_spec demo_no_deploy
    by (simp_all add: demo_job_def demo_project_def isdigit_def re_digit_def in_range_def demo_hub_env_def demo_recovery_env_def)
  have "rp_kind (rj_params demo_job) = ''prd_approval''" "he_rec demo_hub_env = demo_recovery_env"
    by (simp_all add: demo_job_def demo_hub_env_def)
  then show ?thesis using recovered_role_leaves_card [OF j(1-5) _ j(6)] demo_dispatch by fastforce
qed

end
