(* ===== verification/Ack_Hook.thy ===== *)
theory Ack_Hook
  imports Hub_Dispatch
begin

text \<open>
  What happens when a decision card is acknowledged: \<open>on_decision_acked\<close> of \<open>_post_ack.py\<close>, the task that
  \<open>Decision_Cards\<close> records as \<open>On_acked\<close>. It is the chain of the product: every acknowledged artifact moves the
  project on and starts the next role. The phase changes of \<open>_pipeline_bridge.py\<close> stand in \<open>Hub_Dispatch\<close>; the
  local deployment, which starts processes, is an argument that leaves a state. The retry action on a
  card of a failed role is one that such a card is given. \<open>ak_hub i\<close> is the environment of the i-th card
  that one acknowledgement posts.
\<close>

section \<open>The hook\<close>

record ack_env =
  ak_hub :: "nat \<Rightarrow> hub_env"
  ak_deploy :: "hub_project \<Rightarrow> hub_state \<Rightarrow> hub_state"

abbreviation ak_tools :: "ack_env \<Rightarrow> phase_tools" where
  "ak_tools A \<equiv> he_tools (ak_hub A 0)"

abbreviation ak_rec :: "ack_env \<Rightarrow> recovery_env" where
  "ak_rec A \<equiv> he_rec (ak_hub A 0)"

definition ROLE_OUTPUT_TO_DISPATCH_KIND :: "(string \<times> string) list" where
  "ROLE_OUTPUT_TO_DISPATCH_KIND = [(''planner_approval'', ''prd_approval''), (''architect_approval'', ''roadmap_approval''),
     (''conductor_approval'', ''trd_approval''), (''engineer_approval'', ''sprint_plan_approval''),
     (''verify_approval'', ''code_approval''), (''devops_release_approval'', ''local_deploy_prompt''),
     (''release_manager_approval'', ''qa_approval''), (''auditor_approval'', ''qa_approval'')]"

definition acked_kind :: "decision_card \<Rightarrow> string option" where
  "acked_kind cd = (case map_of (dc_metadata cd) ''kind'' of
     Some (JStr k) \<Rightarrow> Some (case map_of ROLE_OUTPUT_TO_DISPATCH_KIND k of Some d \<Rightarrow> d | None \<Rightarrow> k)
   | _ \<Rightarrow> None)"

definition acked_project :: "ack_env \<Rightarrow> decision_card \<Rightarrow> string" where
  "acked_project A cd = text_or (dc_project_id cd) (text_field (ak_hub A 0) (dc_metadata cd) ''project_uuid'')"

definition all_actions :: "recovery_action list" where
  "all_actions = [Retry_planner, Retry_architect, Retry_conductor, Retry_engineer, Retry_engineer_remediate, Retry_code_review,
     Retry_devops, Retry_qa, Retry_operate, Retry_feature, Reset_fix_loop, Resume]"

definition action_of_name :: "string \<Rightarrow> recovery_action option" where
  "action_of_name t = find (\<lambda>a. action_name a = t) all_actions"

abbreviation do_world :: "(hub_world \<Rightarrow> 'a \<times> hub_world) \<Rightarrow> unit hub_eff" where
  "do_world f \<equiv> ewrite (\<lambda>w. snd (f w))"

definition next_role :: "ack_env \<Rightarrow> string \<Rightarrow> hub_project \<Rightarrow> string \<Rightarrow> string option \<Rightarrow> string option \<Rightarrow> (string \<times> json) list \<Rightarrow>
    string option \<Rightarrow> unit hub_eff" where
  "next_role A kind p actor ack next_phase extra expected_role =
     ebind (require_orchestrate_hub_role (ak_hub A 0) kind p actor ack next_phase extra expected_role) (\<lambda>_. ereturn ())"

text \<open>\<open>project = (await _load_project_full(project_id)) or project\<close>.\<close>

definition reloaded :: "ack_env \<Rightarrow> string \<Rightarrow> hub_project \<Rightarrow> hub_project hub_eff" where
  "reloaded A project_id p = eread (\<lambda>w. case load_project_full (ak_rec A) project_id (hw_hub w) of Some q \<Rightarrow> q | None \<Rightarrow> p)"

definition move_then :: "ack_env \<Rightarrow> string \<Rightarrow> (string \<times> bool) list \<Rightarrow> hub_project \<Rightarrow> string \<Rightarrow> (hub_project \<Rightarrow> unit hub_eff) \<Rightarrow> unit hub_eff" where
  "move_then A project_id phases p actor f =
     ebind (do_world (advance_sequence (ak_tools A) (ak_rec A) project_id phases actor)) (\<lambda>_.
     ebind (reloaded A project_id p) f)"

text \<open>The findings that go back to the engineer: a review that is there but no text raises.\<close>

definition review_feedback :: "string \<Rightarrow> hub_project \<Rightarrow> (dispatch_error, (string \<times> json) list) res" where
  "review_feedback heading p =
     (case map_of (hp_metadata p) ''code_review_md'' of
        None \<Rightarrow> Inr [(''extra_context'', JStr (heading @ NL2))]
      | Some (JStr t) \<Rightarrow> Inr [(''extra_context'', JStr (heading @ NL2 @ fit_body 8000 t))]
      | Some _ \<Rightarrow> Inl Review_not_text)"

definition ack_devops :: "ack_env \<Rightarrow> string \<Rightarrow> hub_project \<Rightarrow> string \<Rightarrow> unit hub_eff" where
  "ack_devops A project_id p actor =
     (let md = hp_metadata p; R = ak_rec A in
      if hp_phase p = ''operate'' \<and> has md ''feature_iteration_active'' \<and> meta md ''devops_install_ok'' \<noteq> JBool False
      then case operate_devops_ack_metadata_patch R md of
          Inl _ \<Rightarrow> eraise Backlog_not_ordered
        | Inr patch \<Rightarrow>
            let merged = merge_meta md patch in
            ewrite (on_hub (\<lambda>s. snd (dispatch_next_operate_feature R project_id merged actor
              (ak_deploy A (p\<lparr>hp_metadata := merged\<rparr>) (persist_metadata_patch R project_id patch s)))))
      else move_then A project_id [(''build_complete'', False), (''verify_in_progress'', False)] p actor (\<lambda>q.
        next_role A ''devops_approval'' q actor (Some ''qa_approval'') (Some (phase_bucket ''verify_in_progress'')) [] (Some ''qa'')))"

definition prompt_metadata :: "string \<Rightarrow> string \<Rightarrow> hub_project \<Rightarrow> (string \<times> json) list" where
  "prompt_metadata kind project_id p = [(''kind'', JStr kind), (''project_uuid'', JStr project_id), (''project_name'', JStr (hp_name p))]"

definition ack_release_gate :: "ack_env \<Rightarrow> string \<Rightarrow> hub_project \<Rightarrow> string \<Rightarrow> unit hub_eff" where
  "ack_release_gate A project_id p actor =
     ebind (do_world (advance_sequence (ak_tools A) (ak_rec A) project_id [(''acceptance'', True), (''released'', True)] actor)) (\<lambda>_.
     ebind (enqueue_card (ak_hub A 0) ''approval'' project_id (''Deploy IN HUB CONTAINER'' @ DASH @ hp_name p)
       (he_body (ak_hub A 0) ''local_deploy_prompt'' ''release_gate_approval'' (hp_metadata p)) ''info'' DEFAULT_ACTIONS
       (prompt_metadata ''local_deploy_prompt'' project_id p @ [(''deploy_target'', JStr ''container'')])) (\<lambda>_.
     ebind (enqueue_card (ak_hub A 1) ''approval'' project_id (''Run ON YOUR MACHINE'' @ DASH @ hp_name p)
       (he_body (ak_hub A 1) ''host_deploy_prompt'' ''release_gate_approval'' (hp_metadata p)) ''info'' DEFAULT_ACTIONS
       (prompt_metadata ''host_deploy_prompt'' project_id p @ [(''deploy_target'', JStr ''host'')])) (\<lambda>_.
     enqueue_card (ak_hub A 2) ''briefing'' project_id (''Project ready to ship'' @ DASH @ hp_name p)
       (he_body (ak_hub A 2) ''project_complete'' ''release_gate_approval'' (hp_metadata p)) ''info'' DEFAULT_ACTIONS
       [(''kind'', JStr ''project_complete''), (''project_name'', JStr (hp_name p)), (''project_uuid'', JStr project_id)])))"

definition ack_deploy_status :: "ack_env \<Rightarrow> (string \<times> json) list \<Rightarrow> string \<Rightarrow> string \<Rightarrow> unit hub_eff" where
  "ack_deploy_status A md project_id actor =
     ebind (ewrite (on_hub (persist_metadata_patch (ak_rec A) project_id
       [(''deploy_result'', JDict [(''ok'', JBool (truthy (dict_get md ''deploy_ok'' (JBool True)))),
          (''mode'', JStr (if has md ''deploy_cli_mode'' then ''cli'' else ''local'')), (''acknowledged_by'', JStr actor)])]))) (\<lambda>_.
     ebind (eread (\<lambda>w. load_project_full (ak_rec A) project_id (hw_hub w))) (\<lambda>project. case project of
       Some q \<Rightarrow> if hp_phase q = ''released'' then next_role A ''operate_kickoff'' q actor None None [] None else ereturn ()
     | None \<Rightarrow> ereturn ()))"

text \<open>The branches for one kind after the other, once the project is loaded.\<close>

definition ack_project :: "ack_env \<Rightarrow> string \<Rightarrow> (string \<times> json) list \<Rightarrow> string \<Rightarrow> hub_project \<Rightarrow> string \<Rightarrow> unit hub_eff" where
  "ack_project A kind md project_id p actor =
     (if kind = ''prd_approval'' then move_then A project_id [(''plan_in_progress'', False)] p actor (\<lambda>q.
        next_role A kind q actor (Some ''roadmap_approval'') (Some (phase_bucket ''plan_in_progress'')) [] (Some ''planner''))
      else if kind = ''roadmap_approval'' then
        next_role A kind p actor (Some ''trd_approval'') (Some (phase_bucket ''plan_in_progress'')) [] (Some ''architect'')
      else if kind = ''trd_approval'' then
        next_role A kind p actor (Some ''sprint_plan_approval'') (Some (phase_bucket ''plan_in_progress'')) [] (Some ''conductor'')
      else if kind = ''sprint_plan_approval'' then
        move_then A project_id [(''plan_approved'', True), (''build_in_progress'', False)] p actor (\<lambda>q.
        next_role A kind q actor (Some ''code_approval'') (Some ''verify_in_progress'') [] (Some ''engineer''))
      else if kind = ''code_approval'' then next_role A kind p actor None None [] (Some ''verify'')
      else if kind = ''code_review_pass'' then
        next_role A kind p actor (Some ''devops_approval'') (Some ''verify_in_progress'') [] (Some ''devops'')
      else if kind = ''code_review_blocked'' then
        ebind (elift (review_feedback ''## Code review found CRITICAL/HIGH issues'' p)) (\<lambda>extra.
        next_role A kind p actor (Some ''code_approval'') (Some ''verify_in_progress'') extra (Some ''engineer''))
      else if kind = ''security_review_blocked'' then
        ebind (elift (review_feedback ''## Security review found CRITICAL/HIGH issues'' p)) (\<lambda>extra.
        next_role A kind p actor (Some ''code_approval'') (Some ''verify_in_progress'') extra (Some ''engineer''))
      else if kind = ''devops_approval'' then ack_devops A project_id p actor
      else if kind = ''qa_approval'' then move_then A project_id [(''verify_approved'', True)] p actor (\<lambda>q.
        next_role A kind q actor (Some ''release_gate_approval'') (Some (phase_bucket ''released'')) [] (Some ''release_manager''))
      else if kind = ''local_deploy_prompt'' then next_role A kind p actor None None [] (Some ''devops_release'')
      else if kind = ''host_deploy_prompt'' then
        enqueue_card (ak_hub A 0) ''briefing'' project_id (''Host run instructions'' @ DASH @ hp_name p)
          (he_body (ak_hub A 0) ''host_deploy_instructions'' kind (hp_metadata p)) ''info'' DEFAULT_ACTIONS
          (prompt_metadata ''host_deploy_instructions'' project_id p)
      else if kind = ''deploy_status'' then ack_deploy_status A md project_id actor
      else if kind = ''release_gate_approval'' then ack_release_gate A project_id p actor
      else ereturn ())"

definition on_decision_acked :: "ack_env \<Rightarrow> decision_card \<Rightarrow> string \<Rightarrow> unit hub_eff" where
  "on_decision_acked A cd actor =
     (let project_id = acked_project A cd; md = dc_metadata cd in
      if project_id = [] then ereturn ()
      else case acked_kind cd of
        None \<Rightarrow> ereturn ()
      | Some kind \<Rightarrow>
          if kind \<in> {''intake_briefing'', ''orchestrator_gap''} then ereturn ()
          else if kind = ''role_failure'' then
            (case action_of_name (text_field (ak_hub A 0) md ''retry_action'') of
               None \<Rightarrow> ereturn ()
             | Some a \<Rightarrow> ewrite (on_hub (\<lambda>s. snd (recovery_dispatch (ak_rec A) project_id a actor None False s))))
          else ebind (eread (\<lambda>w. load_project_full (ak_rec A) project_id (hw_hub w))) (\<lambda>project. case project of
              None \<Rightarrow> ereturn ()
            | Some p \<Rightarrow> ack_project A kind md project_id p actor))"

section \<open>Phases move with or without the gate\<close>

definition row_there :: "string \<Rightarrow> hub_state \<Rightarrow> bool" where
  "row_there project_id s \<longleftrightarrow> (\<exists>q \<in> set (hs_projects s). is_row project_id q)"

definition in_phase :: "string \<Rightarrow> string \<Rightarrow> hub_world \<Rightarrow> bool" where
  "in_phase project_id target w \<longleftrightarrow> (\<forall>q \<in> set (hs_projects (hw_hub w)). is_row project_id q \<longrightarrow> hp_phase q = target)"

lemma is_row_phase [simp]: "is_row i (q\<lparr>hp_phase := t, hp_updated_at := n\<rparr>) = is_row i q"
  by (simp add: is_row_def)

lemma fallback_moves:
  assumes "re_pool R" "ce_db_up (re_cards R)" "row_there i (hw_hub w)"
  shows "\<exists>w'. fallback_advance R i target w = (True, w') \<and> in_phase i target w' \<and>
    (\<exists>n. hw_history w' = hw_history w @ [(n, target, re_now R)])"
proof -
  obtain p where "find (is_row i) (hs_projects (hw_hub w)) = Some p"
    using assms(3) unfolding row_there_def by (metis find_None_iff not_Some_eq)
  then show ?thesis using assms(1,2) by (auto simp: fallback_advance_def in_phase_def)
qed

text \<open>
  A gate does not hold an acknowledged card back: when the approval is refused, or the move to the phase is
  refused or raises, whatever the reason given (unless it says noop), the phase is written directly, with an entry in the
  history and no token; the caller is told that the move was made.
\<close>

theorem refused_move_is_forced:
  assumes "re_pool R" "ce_db_up (re_cards R)" "row_there i (hw_hub w)"
    and "\<And>s. row_there i s \<Longrightarrow> row_there i (snd (pt_grant T i target actor s))"
    and "\<And>t s. row_there i s \<Longrightarrow> row_there i (snd (pt_advance T i target actor t s))"
    and "\<And>t s. fst (pt_advance T i target actor t s) \<noteq> Advance_accepted"
    and "\<And>t s e. fst (pt_advance T i target actor t s) = Advance_refused e \<Longrightarrow> \<not> has_text ''noop'' (py_lower e)"
  shows "\<exists>w'. advance_lifecycle_phase T R i target actor grant_gate w = (True, w') \<and> in_phase i target w' \<and>
    (\<exists>n. hw_history w' = hw_history w @ [(n, target, re_now R)])"
proof -
  have f: "\<exists>w'. fallback_advance R i target (w\<lparr>hw_hub := t\<rparr>) = (True, w') \<and> in_phase i target w' \<and>
      (\<exists>n. hw_history w' = hw_history w @ [(n, target, re_now R)])" if "row_there i t" for t
    using fallback_moves [OF assms(1,2), of i "w\<lparr>hw_hub := t\<rparr>" target] that by simp
  have a: "\<exists>w'. advance_with_token T R i target actor token (w\<lparr>hw_hub := s\<rparr>) = (True, w') \<and> in_phase i target w' \<and>
      (\<exists>n. hw_history w' = hw_history w @ [(n, target, re_now R)])" if "row_there i s" for token s
    using f [OF assms(5) [OF that, of token]] assms(6,7) [of token s]
    by (cases "pt_advance T i target actor token s") (auto simp: advance_with_token_def split: advance_reply.split)
  show ?thesis
  proof (cases "grant_gate \<or> pt_requires_gate T target")
    case True
    obtain g s where g: "pt_grant T i target actor (hw_hub w) = (g, s)" by fastforce
    then have s: "row_there i s" using assms(4) [OF assms(3)] by simp
    show ?thesis
    proof (cases g)
      case (Granted token)
      then show ?thesis using True g a [OF s, of token] by (simp add: advance_lifecycle_phase_def)
    qed (use True g f [OF s] in \<open>simp_all add: advance_lifecycle_phase_def\<close>)
  next
    case False
    then show ?thesis using a [OF assms(3), of None] by (simp add: advance_lifecycle_phase_def)
  qed
qed

section \<open>What an acknowledgement leads to\<close>

lemma acked_kind_run:
  assumes "acked_project A cd = i" "i \<noteq> []" "acked_kind cd = Some k" "k \<notin> {''intake_briefing'', ''orchestrator_gap'', ''role_failure''}"
    "load_project_full (ak_rec A) i (hw_hub w) = Some p"
  shows "on_decision_acked A cd actor w = ack_project A k (dc_metadata cd) i p actor w"
  using assms by (simp add: on_decision_acked_def Let_def eff_simps)


text \<open>
  Acknowledging the release gate of a project offers both ways to deploy it and tells that it is ready: after
  the moves to acceptance and released, exactly three cards of the project are added, one by one.
\<close>

theorem release_gate_offers_deploy:
  assumes "acked_project A cd = i" "i \<noteq> []" "acked_kind cd = Some ''release_gate_approval''"
    "load_project_full (ak_rec A) i (hw_hub w) = Some p" "length (hp_name p) \<le> 160"
  shows "\<exists>w1 w2 w3. posted i (snd (advance_sequence (ak_tools A) (ak_rec A) i [(''acceptance'', True), (''released'', True)] actor w)) w1 \<and>
    posted i w1 w2 \<and> posted i w2 w3 \<and> on_decision_acked A cd actor w = (Inr (), w3)"
proof -
  let ?w = "snd (advance_sequence (ak_tools A) (ak_rec A) i [(''acceptance'', True), (''released'', True)] actor w)"
  have t: "title_ok (t @ DASH @ hp_name p)" if "t \<in> {''Deploy IN HUB CONTAINER'', ''Run ON YOUR MACHINE'', ''Project ready to ship''}" for t
    using assms(5) that by (auto simp: title_ok_def DASH_def)
  have "\<exists>v'. enqueue_card E cls i (x @ DASH @ hp_name p) b sev acts md v = (Inr (), v') \<and> posted i v v'"
    if "x \<in> {''Deploy IN HUB CONTAINER'', ''Run ON YOUR MACHINE'', ''Project ready to ship''}" for E cls x b sev acts md v
    using enqueue_card_posts(1) [OF t [OF that]] by blast
  note step = this
  have "\<exists>w1 w2 w3. posted i ?w w1 \<and> posted i w1 w2 \<and> posted i w2 w3 \<and> ack_release_gate A i p actor w = (Inr (), w3)"
    using step [of "''Deploy IN HUB CONTAINER''" "ak_hub A 0" "''approval''" "he_body (ak_hub A 0) ''local_deploy_prompt'' ''release_gate_approval'' (hp_metadata p)"
        "''info''" DEFAULT_ACTIONS "prompt_metadata ''local_deploy_prompt'' i p @ [(''deploy_target'', JStr ''container'')]" ?w]
      step [of "''Run ON YOUR MACHINE''" "ak_hub A 1" "''approval''" "he_body (ak_hub A 1) ''host_deploy_prompt'' ''release_gate_approval'' (hp_metadata p)"
        "''info''" DEFAULT_ACTIONS "prompt_metadata ''host_deploy_prompt'' i p @ [(''deploy_target'', JStr ''host'')]"]
      step [of "''Project ready to ship''" "ak_hub A 2" "''briefing''" "he_body (ak_hub A 2) ''project_complete'' ''release_gate_approval'' (hp_metadata p)"
        "''info''" DEFAULT_ACTIONS "[(''kind'', JStr ''project_complete''), (''project_name'', JStr (hp_name p)), (''project_uuid'', JStr i)]"]
    unfolding ack_release_gate_def ebind_apply ewrite_apply by fastforce
  moreover have "ack_project A ''release_gate_approval'' (dc_metadata cd) i p actor = ack_release_gate A i p actor"
    by (simp add: ack_project_def)
  ultimately show ?thesis using acked_kind_run [OF assms(1-3) _ assms(4)] by simp
qed

section \<open>No way to the last phase\<close>

text \<open>No project is in the phase \<open>operate\<close>. What follows shows that each operation of the Hub keeps this.\<close>

definition outside :: "hub_state \<Rightarrow> bool" where
  "outside s \<longleftrightarrow> ''operate'' \<notin> set (map hp_phase (hs_projects s))"

named_theorems stays \<open>computations that keep every project outside the phase operate\<close>

lemma outside_same: "map hp_phase (hs_projects s') = map hp_phase (hs_projects s) \<Longrightarrow> outside s' = outside s"
  by (simp add: outside_def)

lemma outside_parts [simp]:
  "outside (persist_metadata_patch E i patch s) = outside s" "outside (not_in_flight_pulse E u s) = outside s"
  "outside (s\<lparr>hs_store := st\<rparr>) = outside s" "outside (emit_event H ev u role x s) = outside s"
  "outside (schedule_recovery_pulse u s) = outside s" "outside (s\<lparr>hs_jobs := js\<rparr>) = outside s"
  "outside (snd (schedule_auto_engineer_remediate u s)) = outside s"
  by (auto intro!: outside_same simp: persist_metadata_patch_def schedule_recovery_pulse_def schedule_auto_engineer_remediate_def)

lemma outside_pulse: "outside (recovery_pulse n E u extra s) = outside s"
proof (induction n arbitrary: u extra s)
  case (Suc n)
  have "outside (snd (status_via (recovery_pulse n E) E u s)) = outside s"
    by (simp add: status_via_snd reap_eq Suc.IH split: option.split)
  then show ?case by (cases "status_via (recovery_pulse n E) E u s") (simp split: option.split)
qed simp

lemma outside_recovery [simp]:
  "outside (publish_recovery_pulse E u extra s) = outside s" "outside (reap E p s) = outside s"
  "outside (start_role E p a ps actor s) = outside s" "outside (snd (increment_code_fix_iteration E u s)) = outside s"
  by (simp_all add: publish_recovery_pulse_def outside_pulse reap_def reap_eq start_role_def Let_def increment_code_fix_iteration_def
      del: recovery_pulse.simps split: option.split)

lemma outside_dispatch [simp]:
  "outside (snd (decide_dispatch E p a actor msg auto_loop s)) = outside s"
  "outside (snd (dispatch_loaded E p action actor msg auto_loop s)) = outside s"
  "outside (snd (recovery_dispatch E i action actor msg auto_loop s)) = outside s"
  "outside (snd (dispatch_next_operate_feature E i md actor s)) = outside s"
proof -
  show d: "outside (snd (decide_dispatch E p a actor msg auto_loop s)) = outside s" for p a msg auto_loop s
    by (simp add: decide_dispatch_def Let_def split: option.split)
  then show l: "outside (snd (dispatch_loaded E p action actor msg auto_loop s)) = outside s" for p action msg auto_loop s
    by (simp add: dispatch_loaded_cleared split: option.split)
  then show r: "outside (snd (recovery_dispatch E i action actor msg auto_loop s)) = outside s" for action msg auto_loop s
    by (simp add: recovery_dispatch_def split: option.split)
  show "outside (snd (dispatch_next_operate_feature E i md actor s)) = outside s"
    by (simp add: dispatch_next_operate_feature_def r)
qed

definition quiet :: "'a hub_eff \<Rightarrow> bool" where
  "quiet m \<longleftrightarrow> (\<forall>w. outside (hw_hub w) \<longrightarrow> outside (hw_hub (snd (m w))))"

lemma quiet_basic [stays]:
  "quiet (ereturn x)" "quiet (eraise e)" "quiet (eread g)" "quiet (elift r)" "quiet (eguard b e)"
  by (simp_all add: quiet_def eff_simps)

lemma quiet_bind [stays]: "quiet m \<Longrightarrow> (\<And>x. quiet (f x)) \<Longrightarrow> quiet (ebind m f)"
proof -
  assume m: "quiet m" and f: "\<And>x. quiet (f x)"
  have "outside (hw_hub (snd (ebind m f w)))" if "outside (hw_hub w)" for w
  proof -
    obtain r w' where w: "m w = (r, w')" by fastforce
    then have "outside (hw_hub w')" using m that by (metis quiet_def snd_conv)
    then show ?thesis using f w by (cases r) (simp_all add: ebind_apply quiet_def)
  qed
  then show ?thesis by (simp add: quiet_def)
qed

lemma quiet_write: "(\<And>s. outside s \<Longrightarrow> outside (f s)) \<Longrightarrow> quiet (ewrite (on_hub f))"
  by (simp add: quiet_def eff_simps)

lemma quiet_if: "quiet m \<Longrightarrow> quiet m' \<Longrightarrow> quiet (if b then m else m')"
  by simp

lemma quiet_card [stays]: "quiet (enqueue_card E cls u title body sev acts md)"
  unfolding enqueue_card_def by (intro stays quiet_write) simp


definition quiet_hub :: "hub_env \<Rightarrow> bool" where
  "quiet_hub E \<longleftrightarrow> (\<forall>tool payload s. outside s \<longrightarrow> outside (snd (he_tool E tool payload s)))"

lemma quiet_write_unit: "(\<And>w. outside (hw_hub w) \<Longrightarrow> outside (hw_hub (f w))) \<Longrightarrow> quiet (ewrite f)"
  by (simp add: quiet_def eff_simps)

lemma outside_routes [simp]: "hw_hub (record_route_history E u sp d tool v w) = hw_hub w"
  by (simp add: record_route_history_def split: option.split)

lemma quiet_run_tool:
  assumes "quiet_hub E" "outside (hw_hub w)"
  shows "outside (hw_hub (snd (dispatch_role_for_kind E kind u actor extra w)))"
  using assms by (auto simp: dispatch_role_for_kind_def run_tool_def quiet_hub_def Let_def split: option.split prod.split)
    (metis snd_conv)+

lemma quiet_results [stays]:
  "quiet (fail_dispatch E kind p r)" "quiet (approval_result E kind p c t r)" "quiet (qa_execution_result E kind p c t r)"
  "quiet (review_result E kind p c r)" "quiet (enqueue_orchestrator_gap E kind p role)"
  unfolding fail_dispatch_def approval_result_def qa_execution_result_def review_result_def enqueue_orchestrator_gap_def
    finished_with_artifact_def Let_def
  by (intro stays quiet_write quiet_if; simp)+

lemma quiet_deploy [stays]: "kind \<noteq> ''operate_kickoff'' \<Longrightarrow> quiet (deploy_result E kind p actor r)"
  unfolding deploy_result_def by (simp add: stays quiet_write)

lemma quiet_finish:
  "kind \<noteq> ''operate_kickoff'' \<Longrightarrow> (\<And>q a. quiet (review q a)) \<Longrightarrow> quiet (finish_result review E kind p actor ack ph r)"
  unfolding finish_result_def Let_def
  by (intro stays quiet_write quiet_if; (simp split: option.split)?) (auto intro: stays split: option.split)

lemma quiet_orchestrate:
  assumes "quiet_hub E" "\<And>q a. quiet (review q a)"
  shows "quiet (orchestrate_with review E kind p actor ack ph extra)"
proof (cases "spec_of kind")
  case (Some sp)
  have "quiet (\<lambda>w. case dispatch_role_for_kind E kind (hp_uuid p) actor extra w of (r, w') \<Rightarrow> (Inr r, w'))"
    using quiet_run_tool [OF assms(1)] by (simp add: quiet_def split_beta)
  moreover have "quiet (case res of None \<Rightarrow> ereturn False
      | Some r \<Rightarrow> if \<not> sr_ok r then fail_dispatch E kind p r else finish_result review E kind p actor ack ph r)" for res
    by (cases res) (simp_all add: stays quiet_finish [OF mapped_no_operate [OF Some]] assms(2))
  ultimately show ?thesis unfolding orchestrate_with_def Some option.case by (intro quiet_bind quiet_write) simp_all
qed (simp add: orchestrate_with_def stays)

lemma quiet_require: "(\<And>k q. quiet (orchestrate k q)) \<Longrightarrow> (\<And>k q. quiet (gap k q)) \<Longrightarrow> quiet (require_with orchestrate gap kind p)"
  unfolding require_with_def by (intro stays quiet_if)

lemma quiet_fuel: "quiet_hub E \<Longrightarrow> quiet (orchestrate_fuel n E kind p actor ack ph extra)"
proof (induction n arbitrary: kind p actor ack ph extra)
  case (Suc n)
  show ?case unfolding orchestrate_fuel.simps by (intro quiet_orchestrate quiet_require Suc.IH Suc.prems stays)
qed (simp add: stays)

lemma quiet_role: "quiet_hub E \<Longrightarrow> quiet (orchestrate_hub_role E kind p actor ack ph extra)"
  "quiet_hub E \<Longrightarrow> quiet (require_orchestrate_hub_role E kind p actor ack ph extra role)"
  unfolding require_orchestrate_hub_role_def orchestrate_hub_role_def by (intro quiet_require quiet_fuel stays; assumption)+

lemma quiet_watcher: "(\<And>i. quiet_hub (Es i)) \<Longrightarrow> quiet (watch_rows index Es i rows n)"
proof (induction rows arbitrary: i n)
  case (Cons row rows)
  obtain uuid kind where row: "row = (uuid, kind)" by fastforce
  have "quiet (case project of None \<Rightarrow> watch_rows index Es (Suc i) rows n
     | Some p \<Rightarrow> if 0 < pending_count_for_project p index then watch_rows index Es (Suc i) rows n
         else ebind (require_orchestrate_hub_role (Es i) kind p ''phase_watcher'' None None [] None) (\<lambda>handled.
           watch_rows index Es (Suc i) rows (if handled then Suc n else n)))" for project
    using Cons by (auto intro!: quiet_bind quiet_role split: option.split)
  then show ?case unfolding row watch_rows.simps by (intro stays)
qed (simp add: stays)


text \<open>The tools and deployments leave the phases alone, except that \<open>phase_advance\<close> may move to the phase it is asked for.\<close>

definition quiet_tools :: "phase_tools \<Rightarrow> bool" where
  "quiet_tools T \<longleftrightarrow> (\<forall>i target actor s. outside s \<longrightarrow> outside (snd (pt_grant T i target actor s))) \<and>
     (\<forall>i target actor token s. target \<noteq> ''operate'' \<longrightarrow> outside s \<longrightarrow> outside (snd (pt_advance T i target actor token s)))"

definition quiet_ack :: "ack_env \<Rightarrow> bool" where
  "quiet_ack A \<longleftrightarrow> (\<forall>i. quiet_hub (ak_hub A i)) \<and> quiet_tools (ak_tools A) \<and> (\<forall>p s. outside s \<longrightarrow> outside (ak_deploy A p s))"

lemma outside_fallback: "t \<noteq> ''operate'' \<Longrightarrow> outside (hw_hub w) \<Longrightarrow> outside (hw_hub (snd (fallback_advance R i t w)))"
  by (auto simp: fallback_advance_def outside_def split: option.split)

lemma outside_advance:
  assumes "quiet_tools T" "t \<noteq> ''operate''" "outside (hw_hub w)"
  shows "outside (hw_hub (snd (advance_lifecycle_phase T R i t actor grant_gate w)))"
proof -
  have a: "outside (hw_hub (snd (advance_with_token T R i t actor token v)))" if "outside (hw_hub v)" for token v
  proof -
    obtain r s where p: "pt_advance T i t actor token (hw_hub v) = (r, s)" by fastforce
    then have "outside s" using assms(1,2) that by (metis quiet_tools_def snd_conv)
    then show ?thesis using outside_fallback [OF assms(2)] p by (cases r) (simp_all add: advance_with_token_def)
  qed
  obtain g s where g: "pt_grant T i t actor (hw_hub w) = (g, s)" by fastforce
  then have s: "outside s" using assms(1,3) by (metis quiet_tools_def snd_conv)
  show ?thesis using a [OF assms(3)] a outside_fallback [OF assms(2)] g s
    by (cases g) (simp_all add: advance_lifecycle_phase_def)
qed

lemma outside_sequence:
  "quiet_tools T \<Longrightarrow> ''operate'' \<notin> set (map fst phases) \<Longrightarrow> outside (hw_hub w) \<Longrightarrow>
     outside (hw_hub (snd (advance_sequence T R i phases actor w)))"
proof (induction phases arbitrary: w)
  case (Cons x phases)
  obtain t g where x: "x = (t, g)" by fastforce
  obtain m w1 where a: "advance_lifecycle_phase T R i t actor g w = (m, w1)" by fastforce
  have "outside (hw_hub w1)" using outside_advance [OF Cons.prems(1) _ Cons.prems(3), of t R i actor g] Cons.prems(2) a x by auto
  then show ?case using Cons.IH [OF Cons.prems(1), of w1] Cons.prems(2) a x by (simp add: split_beta)
qed simp

lemma quiet_move:
  "quiet_ack A \<Longrightarrow> ''operate'' \<notin> set (map fst phases) \<Longrightarrow> (\<And>q. quiet (f q)) \<Longrightarrow> quiet (move_then A i phases p actor f)"
  unfolding move_then_def reloaded_def
  by (intro quiet_bind quiet_write_unit stays) (simp_all add: quiet_ack_def outside_sequence)

lemma quiet_next [stays]: "quiet_ack A \<Longrightarrow> quiet (next_role A kind p actor ack ph extra role)"
  unfolding next_role_def by (intro quiet_bind quiet_role stays) (simp add: quiet_ack_def)

lemma quiet_steps [stays]:
  assumes "quiet_ack A"
  shows "quiet (ack_devops A i p actor)" "quiet (ack_release_gate A i p actor)" "quiet (ack_deploy_status A md i actor)"
proof -
  have dep: "outside s \<Longrightarrow> outside (ak_deploy A q s)" for q s using assms by (simp add: quiet_ack_def)
  have feature: "quiet (case r of Inl _ \<Rightarrow> eraise Backlog_not_ordered
      | Inr patch \<Rightarrow> let merged = merge_meta md patch in ewrite (on_hub (\<lambda>s. snd (dispatch_next_operate_feature R i merged actor
              (ak_deploy A (p\<lparr>hp_metadata := merged\<rparr>) (persist_metadata_patch R i patch s))))))" for r :: "(unit, (string \<times> json) list) res" and R md
    by (cases r) (auto simp: Let_def stays intro!: quiet_write dep)
  show "quiet (ack_devops A i p actor)" unfolding ack_devops_def Let_def
    by (rule quiet_if [OF feature [unfolded Let_def] quiet_move [OF assms]]) (simp_all add: stays assms)
  show "quiet (ack_release_gate A i p actor)" unfolding ack_release_gate_def
    by (intro quiet_bind quiet_write_unit stays) (use assms in \<open>simp_all add: quiet_ack_def outside_sequence del: advance_sequence.simps\<close>)
  have "quiet (case project of Some q \<Rightarrow> if hp_phase q = ''released'' then next_role A k q actor None None [] None else ereturn ()
     | None \<Rightarrow> ereturn ())" for project k
    using assms by (simp add: stays split: option.split)
  then show "quiet (ack_deploy_status A md i actor)" unfolding ack_deploy_status_def
    by (intro quiet_bind quiet_write stays) simp_all
qed


lemma quiet_project: "quiet_ack A \<Longrightarrow> quiet (ack_project A kind md i p actor)"
  unfolding ack_project_def
  by (intro quiet_if quiet_move quiet_bind stays) simp_all

lemma quiet_ack_hook: "quiet_ack A \<Longrightarrow> quiet (on_decision_acked A cd actor)"
proof -
  assume A: "quiet_ack A"
  have f: "quiet (case action_of_name t of None \<Rightarrow> ereturn ()
      | Some a \<Rightarrow> ewrite (on_hub (\<lambda>s. snd (recovery_dispatch (ak_rec A) i a actor None False s))))" for t i
    by (cases "action_of_name t") (auto simp: stays intro!: quiet_write)
  have "quiet (case project of None \<Rightarrow> ereturn () | Some p \<Rightarrow> ack_project A k (dc_metadata cd) i p actor)" for project k i
    by (cases project) (simp_all add: stays quiet_project [OF A])
  then show ?thesis unfolding on_decision_acked_def Let_def
    by (cases "acked_kind cd") (auto simp only: option.case intro!: quiet_if quiet_bind f stays)
qed

lemma outside_run:
  assumes "quiet_hub E" "outside s"
  shows "outside (run_recovery_orchestration R (hub_runner E w) j s)"
proof -
  have o: "outside (snd (rn_orchestrate (hub_runner E w) p actor ps t))" if "outside t" for p actor ps t
  proof -
    let ?m = "orchestrate_hub_role E (rp_kind ps) p actor (rp_card_kind ps) (rp_next_phase ps)
      (case rp_context ps of None \<Rightarrow> [] | Some c \<Rightarrow> [(''extra_context'', JStr c)])"
    obtain r w' where m: "?m (w\<lparr>hw_hub := t\<rparr>) = (r, w')" by fastforce
    have "outside (hw_hub (w\<lparr>hw_hub := t\<rparr>))" using that by simp
    then have "outside (hw_hub (snd (?m (w\<lparr>hw_hub := t\<rparr>))))" using quiet_role(1) [OF assms(1)] unfolding quiet_def by blast
    then have "outside (hw_hub w')" by (simp only: m snd_conv)
    then show ?thesis using m by (cases r) (simp_all add: hub_runner_def)
  qed
  have g: "outside (rn_gap (hub_runner E w) p ps t)" if "outside t" for p ps t
    using quiet_results(5) [unfolded quiet_def] that by (simp add: hub_runner_def)
  have r: "outside (snd (rescan R (hub_runner E w) j s))"
    using o [OF assms(2), of "rj_project j" "rj_actor j" "params ''code_approval'' None None"]
    by (auto simp: rescan_def Let_def assms(2) split: prod.split option.split bool.split)
  have "outside (case rescan R (hub_runner E w) j s of (None, s1) \<Rightarrow> s1 | (Some None, s1) \<Rightarrow> s1
      | (Some (Some (p, ps)), s1) \<Rightarrow> (case rn_orchestrate (hub_runner E w) p (rj_actor j) ps s1 of
          (None, s2) \<Rightarrow> s2 | (Some True, s2) \<Rightarrow> s2 | (Some False, s2) \<Rightarrow> rn_gap (hub_runner E w) p ps s2))"
    using r o g by (auto split: prod.split option.split bool.split) (metis snd_conv)+
  then show ?thesis by (simp add: run_recovery_orchestration_def finish_role_def)
qed

text \<open>The Hub over time: acknowledgements, polls of the watcher, dispatches of the recovery and the roles it runs.\<close>

inductive hub_move :: "hub_world \<Rightarrow> hub_world \<Rightarrow> bool" where
  Acknowledged: "quiet_ack A \<Longrightarrow> hub_move w (run_state (on_decision_acked A cd actor) w)"
| Watched: "(\<And>i. quiet_hub (Es i)) \<Longrightarrow> hub_move w (watcher_turn R Es w)"
| Recovery_dispatched: "hw_hub w' = snd (recovery_dispatch R i action actor msg auto_loop (hw_hub w)) \<Longrightarrow> hub_move w w'"
| Recovery_ran: "quiet_hub E \<Longrightarrow> hw_hub w' = run_recovery_orchestration R (hub_runner E w) j (hw_hub w) \<Longrightarrow> hub_move w w'"

lemma hub_move_outside: "hub_move w w' \<Longrightarrow> outside (hw_hub w) \<Longrightarrow> outside (hw_hub w')"
proof (induction rule: hub_move.induct)
  case (Acknowledged A w cd actor)
  then show ?case using quiet_ack_hook [of A cd actor] by (simp add: quiet_def)
next
  case (Watched Es w R)
  then show ?case using quiet_watcher [of Es] by (auto simp: watcher_turn_def phase_watcher_tick_def quiet_def split: list.split)
qed (simp_all add: outside_run)

text \<open>
  A shipped project never gets to the phase \<open>operate\<close>, in which features are added: if no project is in it, then
  after any sequence of acknowledgements, polls of the watcher, dispatches of the recovery and roles that it runs,
  none is, as long as no tool moves a project there on its own.
\<close>

theorem operate_never_reached: "hub_move\<^sup>*\<^sup>* w w' \<Longrightarrow> outside (hw_hub w) \<Longrightarrow> outside (hw_hub w')"
  by (induction rule: rtranclp_induct) (use hub_move_outside in blast)+


section \<open>An acknowledgement at work\<close>

definition demo_ack_env :: ack_env where
  "demo_ack_env = \<lparr>ak_hub = (\<lambda>_. demo_hub_env), ak_deploy = (\<lambda>_ s. s)\<rparr>"

definition kind_card :: "string \<Rightarrow> decision_card" where
  "kind_card kind = demo_card\<lparr>dc_project_id := Some ''p7'', dc_metadata := [(''kind'', JStr kind)]\<rparr>"

lemma demo_ack_parts:
  "acked_project demo_ack_env (kind_card kind) = ''p7''" "he_rec (ak_hub demo_ack_env n) = demo_recovery_env"
  "load_project_full demo_recovery_env ''p7'' (hw_hub (demo_world ph md)) = Some (demo_project ph md)"
  using demo_world_parts(1) [of ph md]
  by (simp_all add: acked_project_def kind_card_def demo_ack_env_def demo_hub_env_def)

lemma demo_tools_quiet: "quiet_ack demo_ack_env" "quiet_hub demo_hub_env"
  by (simp_all add: quiet_ack_def quiet_hub_def quiet_tools_def demo_ack_env_def demo_hub_env_def demo_tools_def)

theorem refused_move_is_forced_witness:
  "\<exists>w'. advance_lifecycle_phase demo_tools demo_recovery_env ''p7'' ''plan_approved'' ''ann'' True (demo_world ''plan_in_progress'' []) = (True, w') \<and>
    in_phase ''p7'' ''plan_approved'' w'"
proof -
  have "re_pool demo_recovery_env" "ce_db_up (re_cards demo_recovery_env)" by (simp_all add: demo_recovery_env_def demo_cards_env_def)
  moreover have "row_there ''p7'' (hw_hub (demo_world ''plan_in_progress'' []))"
    by (simp add: row_there_def demo_world_def demo_hub_def is_row_def demo_project_def isdigit_def re_digit_def in_range_def)
  moreover have "\<not> has_text ''noop'' (py_lower ''gate'')"
    by (simp add: has_text_def py_lower_def py_lower_char_def)
  ultimately show ?thesis
    using refused_move_is_forced [of demo_recovery_env "''p7''" "demo_world ''plan_in_progress'' []" demo_tools "''plan_approved''" "''ann''" True]
    by (auto simp: demo_tools_def)
qed

definition demo_architect :: dispatch_spec where
  "demo_architect = \<lparr>sp_subsystem = ''plan'', sp_role = ''architect'', sp_directive = ''PRODUCE_TRD''\<rparr>"

lemma demo_architect_spec: "spec_of ''roadmap_approval'' = Some demo_architect"
  by (simp add: KIND_ROLE_DISPATCH_def demo_architect_def)

definition demo_trd :: dispatch_result where
  "demo_trd = demo_result\<lparr>sr_role := ''architect''\<rparr>"

lemma demo_architect_dispatch:
  "dispatch_role_for_kind demo_hub_env ''roadmap_approval'' u actor x w =
     (Some demo_trd, record_route_history demo_hub_env u demo_architect ''d1'' ''plan_dispatch'' ''1'' w)"
  unfolding dispatch_role_for_kind_def demo_architect_spec option.case
  by (simp add: demo_architect_def SUBSYSTEM_TOOLS_def run_tool_def demo_hub_env_def demo_trd_def demo_result_def data_of_def meta_def
      text_or_empty_def truthy_def Let_def)


theorem release_gate_offers_deploy_witness:
  "\<exists>w'. on_decision_acked demo_ack_env (kind_card ''release_gate_approval'') ''ann'' (demo_world ''verify_approved'' []) = (Inr (), w') \<and>
    (\<exists>i cd. map_of (ds_cards (hs_store (hw_hub w'))) i = Some cd \<and> dc_status cd = Card_pending)"
proof -
  have k: "acked_kind (kind_card ''release_gate_approval'') = Some ''release_gate_approval''"
    by (simp add: acked_kind_def kind_card_def ROLE_OUTPUT_TO_DISPATCH_KIND_def)
  have n: "length (hp_name (demo_project ''verify_approved'' [])) \<le> 160" by (simp add: demo_project_def)
  have p: "load_project_full (ak_rec demo_ack_env) ''p7'' (hw_hub (demo_world ''verify_approved'' [])) = Some (demo_project ''verify_approved'' [])"
    by (simp add: demo_ack_parts)
  from release_gate_offers_deploy [OF demo_ack_parts(1) _ k p n, of "''ann''"]
  obtain w2 w3 where "posted ''p7'' w2 w3" and
    a: "on_decision_acked demo_ack_env (kind_card ''release_gate_approval'') ''ann'' (demo_world ''verify_approved'' []) = (Inr (), w3)" by blast
  then have "posted (hp_uuid (demo_project ''verify_approved'' [])) w2 w3" by (simp add: demo_project_def)
  then show ?thesis using posted_pending a by blast
qed

theorem operate_never_reached_witness:
  "outside (hw_hub (run_state (on_decision_acked demo_ack_env (kind_card ''deploy_status'') ''ann'')
     (watcher_turn demo_recovery_env (\<lambda>_. demo_hub_env) (demo_world ''released'' []))))"
proof -
  let ?w = "watcher_turn demo_recovery_env (\<lambda>_. demo_hub_env) (demo_world ''released'' [])"
  have "hub_move (demo_world ''released'' []) ?w" by (rule hub_move.Watched) (rule demo_tools_quiet)
  moreover have "hub_move ?w (run_state (on_decision_acked demo_ack_env (kind_card ''deploy_status'') ''ann'') ?w)"
    by (rule hub_move.Acknowledged) (rule demo_tools_quiet)
  ultimately have "hub_move\<^sup>*\<^sup>* (demo_world ''released'' []) (run_state (on_decision_acked demo_ack_env (kind_card ''deploy_status'') ''ann'') ?w)"
    by (meson rtranclp.rtrancl_into_rtrancl rtranclp.rtrancl_refl)
  moreover have "outside (hw_hub (demo_world ''released'' []))" by (simp add: outside_def demo_world_def demo_hub_def demo_project_def)
  ultimately show ?thesis by (rule operate_never_reached)
qed

end
