(* ===== verification/Pipeline_Runner.thy ===== *)
theory Pipeline_Runner
  imports Recovery
begin

text \<open>
  The runner of autonomous projects, \<open>shared/runtime/pipeline_runner.py\<close>, with the policy of
  \<open>gate_policy.py\<close> that says which decision cards it may acknowledge by itself and the scripted intake of
  \<open>intake_prompts.py\<close>. A tick happens at one instant. The intake turn (\<open>execute_intake_turn\<close>, a
  call of a language model) is an argument, as are the canned prompts.
\<close>

section \<open>The gate policy\<close>

definition ALL_ACK_KINDS :: "string list" where
  "ALL_ACK_KINDS = [''intake_briefing'', ''prd_approval'', ''roadmap_approval'', ''trd_approval'', ''sprint_plan_approval'',
     ''code_approval'', ''code_review_pass'', ''code_review_blocked'', ''security_review_blocked'', ''devops_approval'',
     ''qa_approval'', ''qa_execution'', ''auditor_approval'', ''release_gate_approval'', ''local_deploy_prompt'',
     ''host_deploy_prompt'', ''host_deploy_instructions'', ''deploy_status'', ''operate_kickoff'', ''project_complete'']"

definition NEVER_AUTO :: "string list" where
  "NEVER_AUTO = [''orchestrator_gap'', ''role_failure'', ''master_daily_briefing'']"

text \<open>The two lists of a preset; the strict one leaves out the release gate and the completion card.\<close>

definition preset_lists :: "string \<Rightarrow> (string list \<times> string list) option" where
  "preset_lists preset =
     (if preset = ''gate_checked'' then Some ([], ALL_ACK_KINDS)
      else if preset = ''strict'' then Some (filter (\<lambda>k. k \<noteq> ''release_gate_approval'' \<and> k \<noteq> ''project_complete'') ALL_ACK_KINDS, [''release_gate_approval''])
      else if preset = ''full_auto'' then Some (ALL_ACK_KINDS, [])
      else None)"

record gate_policy =
  gp_auto :: "string list"
  gp_hold :: "string list"
  gp_preset :: string

definition ends_with :: "string \<Rightarrow> string \<Rightarrow> bool" where
  "ends_with suf s = starts_with (rev suf) (rev s)"

definition policy_can_auto_ack :: "gate_policy \<Rightarrow> string \<Rightarrow> bool" where
  "policy_can_auto_ack policy kind =
     (if kind \<in> set NEVER_AUTO then False
      else if kind \<in> set (gp_hold policy) then False
      else if kind \<in> set (gp_auto policy) then True
      else gp_preset policy \<noteq> ''gate_checked'' \<and> ends_with ''_approval'' kind)"

datatype pipeline_mode = Gate_checked | Autonomous

definition resolve_pipeline_mode :: "(string \<times> json) list \<Rightarrow> pipeline_mode" where
  "resolve_pipeline_mode md = (if meta md ''pipeline_mode'' = JStr ''autonomous'' then Autonomous else Gate_checked)"

definition resolve_gate_policy :: "card_env \<Rightarrow> (string \<times> json) list \<Rightarrow> gate_policy" where
  "resolve_gate_policy C md =
     (let raw = meta md ''gate_policy_preset'';
          wanted = py_lower (py_strip (if truthy raw then json_text C raw else ''strict''));
          preset = (if preset_lists wanted = None then ''strict'' else wanted);
          (auto_list, hold_list) = the (preset_lists preset);
          explicit = (\<lambda>key base. case meta md ''gate_policy'' of
            JDict d \<Rightarrow> (case meta d key of JList js \<Rightarrow> map (json_text C) js | _ \<Rightarrow> base) | _ \<Rightarrow> base) in
      \<lparr>gp_auto = explicit ''auto'' auto_list, gp_hold = explicit ''hold'' hold_list, gp_preset = preset\<rparr>)"

definition can_auto_ack :: "string \<Rightarrow> pipeline_mode \<Rightarrow> gate_policy \<Rightarrow> bool" where
  "can_auto_ack kind mode policy = (mode = Autonomous \<and> policy_can_auto_ack policy kind)"

definition metadata_patch_for_create :: "string option \<Rightarrow> string option \<Rightarrow> (string \<times> json) list" where
  "metadata_patch_for_create pipeline_mode gate_policy_preset =
     (case pipeline_mode of Some (c # cs) \<Rightarrow> [(''pipeline_mode'', JStr (c # cs))] | _ \<Rightarrow> []) @
     (case gate_policy_preset of Some (c # cs) \<Rightarrow> [(''gate_policy_preset'', JStr (c # cs))]
      | _ \<Rightarrow> (if pipeline_mode = Some ''autonomous'' then [(''gate_policy_preset'', JStr ''strict'')] else []))"

section \<open>The environment and the projects it runs\<close>

record turn =
  tn_role :: string
  tn_content :: string

record runner_env =
  ru_recovery :: recovery_env
  ru_dismiss :: "string list"
  ru_profiles :: "(string, string list) dict"
  ru_cli :: "string list"
  ru_final_prompt :: string
  ru_intake :: "hub_project \<Rightarrow> string \<Rightarrow> turn list \<Rightarrow> hub_state \<Rightarrow> (string + unit) \<times> hub_state"
  ru_json_text :: "json \<Rightarrow> string"

abbreviation ru_cards :: "runner_env \<Rightarrow> card_env" where
  "ru_cards R \<equiv> re_cards (ru_recovery R)"

definition ACTOR :: string where
  "ACTOR = ''pipeline_runner''"

definition STOP_KINDS :: "string list" where
  "STOP_KINDS = [''orchestrator_gap'', ''role_failure'']"

text \<open>\<open>metadata->>key\<close>.\<close>

definition jsonb_text :: "runner_env \<Rightarrow> json \<Rightarrow> string option" where
  "jsonb_text R j = (case j of JNull \<Rightarrow> None | JStr s \<Rightarrow> Some s | JBool b \<Rightarrow> Some (if b then ''true'' else ''false'')
     | JInt n \<Rightarrow> Some (str_integer n) | _ \<Rightarrow> Some (ru_json_text R j))"

definition runs_alone :: "runner_env \<Rightarrow> hub_project \<Rightarrow> bool" where
  "runs_alone R p = (hp_status p = ''active'' \<and> jsonb_text R (meta (hp_metadata p) ''pipeline_mode'') = Some ''autonomous'' \<and>
     (case jsonb_text R (meta (hp_metadata p) ''pipeline_paused'') of None \<Rightarrow> True | Some t \<Rightarrow> t \<notin> {''true'', ''1''}))"

definition list_autonomous_projects :: "runner_env \<Rightarrow> hub_state \<Rightarrow> hub_project list" where
  "list_autonomous_projects R s = (if \<not> re_pool (ru_recovery R) then [] else
     take 20 (sort_key (\<lambda>p. - hp_updated_at p) (filter (runs_alone R) (hs_projects s))))"

text \<open>
  The statement names only the metadata; \<open>updated_at\<close> is set by the trigger \<open>trg_project_updated_at\<close>
  of migration V14, which runs before every update of a row of the table.
\<close>

definition persist_pipeline_pause :: "runner_env \<Rightarrow> string \<Rightarrow> string \<Rightarrow> string \<Rightarrow> string \<Rightarrow> hub_state \<Rightarrow> hub_state" where
  "persist_pipeline_pause R project_uuid reason kind title s = (if \<not> re_pool (ru_recovery R) then s else
     s\<lparr>hs_projects := map (\<lambda>p. if hp_uuid p = project_uuid
       then p\<lparr>hp_metadata := merge_meta (hp_metadata p) [(''pipeline_paused'', JBool True), (''pipeline_pause_reason'', JStr reason),
           (''pipeline_pause_kind'', JStr kind), (''pipeline_pause_title'', JStr (take 500 title))],
         hp_updated_at := re_now (ru_recovery R)\<rparr> else p) (hs_projects s)\<rparr>)"

section \<open>Cards\<close>

definition card_belongs :: "decision_card \<Rightarrow> string \<Rightarrow> bool" where
  "card_belongs cd project_uuid = (meta (dc_metadata cd) ''project_uuid'' = JStr project_uuid \<or> dc_project_id cd = Some project_uuid)"

definition card_kind :: "card_env \<Rightarrow> decision_card \<Rightarrow> string" where
  "card_kind C cd = text_or_empty C (meta (dc_metadata cd) ''kind'')"

definition dismissable :: "runner_env \<Rightarrow> decision_card \<Rightarrow> bool" where
  "dismissable R cd = ((case meta (dc_metadata cd) ''kind'' of JStr k \<Rightarrow> k \<in> set (ru_dismiss R) | _ \<Rightarrow> False) \<and>
     (dc_project_id cd = None \<or> dc_project_id cd = Some []) \<and> \<not> has (dc_metadata cd) ''project_uuid'' \<and> dc_decision_id cd \<noteq> [])"

definition runner_ack :: "runner_env \<Rightarrow> string \<Rightarrow> hub_state \<Rightarrow> hub_state" where
  "runner_ack R i = on_store (\<lambda>st. snd (ack_decision_internal (ru_cards R) i ACTOR st))"

definition dismiss_global_cards :: "runner_env \<Rightarrow> decision_card list \<Rightarrow> hub_state \<Rightarrow> hub_state" where
  "dismiss_global_cards R cds s = fold (\<lambda>cd t. runner_ack R (dc_decision_id cd) t) (filter (dismissable R) cds) s"

section \<open>Intake\<close>

definition prompts_for_project :: "runner_env \<Rightarrow> (string \<times> json) list \<Rightarrow> string list" where
  "prompts_for_project R md =
     (let C = ru_cards R; raw = meta md ''golden_path_profile'';
          profile = py_lower (py_strip (if truthy raw then json_text C raw else ''cli''));
          canned = (case map_of (ru_profiles R) profile of Some ps \<Rightarrow> ps | None \<Rightarrow> ru_cli R);
          description = py_strip (text_or_empty C (meta md ''description'')) in
      if description \<noteq> [] \<and> profile = ''cli'' \<and> \<not> truthy raw then description # tl canned else canned)"

definition next_intake_message :: "runner_env \<Rightarrow> (string \<times> json) list \<Rightarrow> nat \<Rightarrow> string" where
  "next_intake_message R md turn_index =
     (let prompts = prompts_for_project R md in if turn_index \<le> length prompts then prompts ! (turn_index - 1) else ru_final_prompt R)"

text \<open>A turn with another role, or too long a text, fails validation and raises.\<close>

fun read_turns :: "card_env \<Rightarrow> json list \<Rightarrow> (unit, turn list) res" where
  "read_turns C [] = Inr []"
| "read_turns C (JDict d # js) =
     (if has d ''role'' \<and> has d ''content'' then
        (let content = json_text C (meta d ''content'') in
         case meta d ''role'' of
           JStr role \<Rightarrow> (if role \<in> {''user'', ''assistant''} \<and> content \<noteq> [] \<and> length content \<le> 16000
             then rbind (read_turns C js) (\<lambda>ts. Inr (\<lparr>tn_role = role, tn_content = content\<rparr> # ts)) else Inl ())
         | _ \<Rightarrow> Inl ())
      else read_turns C js)"
| "read_turns C (_ # js) = read_turns C js"

text \<open>Whether a turn was run; \<open>Inl\<close> where the exception leaves the function.\<close>

definition run_intake_tick :: "runner_env \<Rightarrow> hub_project \<Rightarrow> hub_state \<Rightarrow> (unit + bool) \<times> hub_state" where
  "run_intake_tick R p s =
     (let md = hp_metadata p in
      if has md ''intake_done'' then (Inr False, s)
      else (case read_turns (ru_cards R) (case meta md ''intake_transcript'' of JList js \<Rightarrow> js | _ \<Rightarrow> []) of
          Inl _ \<Rightarrow> (Inl (), s)
        | Inr transcript \<Rightarrow>
            let turn_index = length (filter (\<lambda>t. tn_role t = ''user'') transcript) + 1 in
            (case ru_intake R p (next_intake_message R md turn_index) transcript s of
               (Inr _, s1) \<Rightarrow> (Inr True, s1)
             | (Inl err, s1) \<Rightarrow> (Inr True, persist_pipeline_pause R (hp_uuid p) (''intake_failed: '' @ err) ''intake'' ''Intake LLM turn failed'' s1))))"

section \<open>Recovery and features\<close>

definition maybe_auto_unstick_recovery :: "runner_env \<Rightarrow> hub_project \<Rightarrow> decision_card list \<Rightarrow> hub_state \<Rightarrow> bool \<times> hub_state" where
  "maybe_auto_unstick_recovery R p pending s =
     (let E = ru_recovery R; md = hp_metadata p in
      if hp_phase p \<noteq> ''operate'' \<or> \<not> has md ''code_review_blocked'' \<or> has md ''recovery_dispatch_in_flight'' \<or>
         list_ex (\<lambda>cd. card_belongs cd (hp_uuid p)) pending \<or> \<not> fix_loop_exhausted E p \<and> code_fix_iteration_count E md = 0
      then (False, s)
      else let s1 = (if fix_loop_exhausted E p \<or> 0 < code_fix_iteration_count E md
             then snd (recovery_dispatch E (hp_uuid p) Reset_fix_loop ACTOR None True s) else s);
           (review, s2) = recovery_dispatch E (hp_uuid p) Retry_code_review ACTOR None True s1 in
         (reply_ok review, s2))"

definition maybe_dispatch_feature_request :: "runner_env \<Rightarrow> hub_project \<Rightarrow> decision_card list \<Rightarrow> hub_state \<Rightarrow> bool \<times> hub_state" where
  "maybe_dispatch_feature_request R p pending s =
     (let E = ru_recovery R; md = hp_metadata p in
      if hp_phase p \<noteq> ''operate'' \<or> pending_feature_request (re_cards E) md = None \<or> has md ''code_review_blocked'' \<or>
         has md ''recovery_dispatch_in_flight'' \<or> list_ex (\<lambda>cd. card_belongs cd (hp_uuid p)) pending
      then (False, s)
      else let (reply, s1) = recovery_dispatch E (hp_uuid p) Retry_feature ACTOR None True s in (reply_ok reply, s1))"

section \<open>A project, and a tick\<close>

text \<open>The loop over the cards: the count of acknowledgements, and the state.\<close>

fun ack_cards :: "runner_env \<Rightarrow> hub_project \<Rightarrow> decision_card list \<Rightarrow> hub_state \<Rightarrow> nat \<times> hub_state" where
  "ack_cards R p [] s = (0, s)"
| "ack_cards R p (cd # cds) s =
     (let md = hp_metadata p; kind = card_kind (ru_cards R) cd; i = dc_decision_id cd;
          acknowledge = (\<lambda>_::unit. let (n, s') = ack_cards R p cds (runner_ack R i s) in (Suc n, s')) in
      if \<not> card_belongs cd (hp_uuid p) then ack_cards R p cds s
      else if kind \<in> set STOP_KINDS then
        (if kind = ''role_failure'' \<and> has md ''operate_started_at'' then (if i \<noteq> [] then acknowledge () else ack_cards R p cds s)
         else (0, persist_pipeline_pause R (hp_uuid p) kind kind (if dc_title cd = [] then kind else dc_title cd) s))
      else if \<not> can_auto_ack kind (resolve_pipeline_mode md) (resolve_gate_policy (ru_cards R) md) \<or> i = [] then ack_cards R p cds s
      else acknowledge ())"

definition process_project :: "runner_env \<Rightarrow> hub_project \<Rightarrow> decision_card list \<Rightarrow> hub_state \<Rightarrow> (unit + nat) \<times> hub_state" where
  "process_project R p pending s =
     (case run_intake_tick R p s of
        (Inl e, s1) \<Rightarrow> (Inl e, s1)
      | (Inr True, s1) \<Rightarrow> (Inr 0, s1)
      | (Inr False, s1) \<Rightarrow>
          (case maybe_auto_unstick_recovery R p pending s1 of
             (True, s2) \<Rightarrow> (Inr 0, s2)
           | (False, s2) \<Rightarrow>
               (case maybe_dispatch_feature_request R p pending s2 of
                  (True, s3) \<Rightarrow> (Inr 0, s3)
                | (False, s3) \<Rightarrow> map_prod Inr id (ack_cards R p pending s3))))"

fun process_all :: "runner_env \<Rightarrow> hub_project list \<Rightarrow> decision_card list \<Rightarrow> hub_state \<Rightarrow> (unit + nat) \<times> hub_state" where
  "process_all R [] pending s = (Inr 0, s)"
| "process_all R (p # ps) pending s =
     (case process_project R p pending s of
        (Inl e, s1) \<Rightarrow> (Inl e, s1)
      | (Inr n, s1) \<Rightarrow> (case process_all R ps pending s1 of (Inl e, s2) \<Rightarrow> (Inl e, s2) | (Inr m, s2) \<Rightarrow> (Inr (n + m), s2)))"

definition pipeline_runner_tick :: "runner_env \<Rightarrow> hub_state \<Rightarrow> (unit + nat) \<times> hub_state" where
  "pipeline_runner_tick R s =
     (let projects = list_autonomous_projects R s in
      if projects = [] then (Inr 0, s)
      else let pending = alist (ru_cards R) (Some Card_pending) (hs_store s) in
        process_all R projects pending (dismiss_global_cards R pending s))"

text \<open>\<open>run_pipeline_runner\<close>: an exception ends the tick, not the loop.\<close>

definition run_pipeline_runner :: "runner_env list \<Rightarrow> hub_state \<Rightarrow> hub_state" where
  "run_pipeline_runner Rs s = fold (\<lambda>R t. snd (pipeline_runner_tick R t)) Rs s"

section \<open>What a step of the runner may change\<close>

abbreviation cards_of :: "runner_env \<Rightarrow> hub_state \<Rightarrow> string \<rightharpoonup> decision_card" where
  "cards_of R s \<equiv> table_cards (ru_cards R) (hs_store s)"

abbreviation hooks_of :: "hub_state \<Rightarrow> card_task list" where
  "hooks_of s \<equiv> ds_tasks (hs_store s)"

text \<open>\<open>P\<close> says which cards may be acknowledged; it does not look at the status.\<close>

definition runner_move :: "runner_env \<Rightarrow> (decision_card \<Rightarrow> bool) \<Rightarrow> hub_state \<Rightarrow> hub_state \<Rightarrow> bool" where
  "runner_move R P s s' \<longleftrightarrow> store_ok (ru_cards R) (hs_store s') \<and>
     (\<exists>cds. hooks_of s' = hooks_of s @ map (\<lambda>cd. On_acked (acked_card cd) ACTOR) cds \<and> (\<forall>cd \<in> set cds. P cd)) \<and>
     (\<forall>i cd. cards_of R s i = Some cd \<longrightarrow> cards_of R s' i = Some cd \<or> cards_of R s' i = Some (acked_card cd) \<and> P cd)"

definition blind :: "(decision_card \<Rightarrow> bool) \<Rightarrow> bool" where
  "blind P \<longleftrightarrow> (\<forall>cd. P (acked_card cd) = P cd)"

lemma runner_move_trans:
  assumes "blind P" "runner_move R P s t" "runner_move R P t u"
  shows "runner_move R P s u"
proof -
  obtain cds where cds: "hooks_of t = hooks_of s @ map (\<lambda>cd. On_acked (acked_card cd) ACTOR) cds" "\<forall>cd \<in> set cds. P cd"
    using assms(2) unfolding runner_move_def by blast
  obtain cds' where cds': "hooks_of u = hooks_of t @ map (\<lambda>cd. On_acked (acked_card cd) ACTOR) cds'" "\<forall>cd \<in> set cds'. P cd"
    using assms(3) unfolding runner_move_def by blast
  have "\<exists>c. hooks_of u = hooks_of s @ map (\<lambda>cd. On_acked (acked_card cd) ACTOR) c \<and> (\<forall>cd \<in> set c. P cd)"
    by (rule exI [of _ "cds @ cds'"]) (use cds cds' in auto)
  moreover have "cards_of R u i = Some cd \<or> cards_of R u i = Some (acked_card cd) \<and> P cd" if "cards_of R s i = Some cd" for i cd
    using assms that unfolding runner_move_def blind_def by (metis acked_card_idem)
  ultimately show ?thesis using assms(3) unfolding runner_move_def by blast
qed

definition store_kept :: "hub_state \<Rightarrow> hub_state \<Rightarrow> bool" where
  "store_kept s s' \<longleftrightarrow> ds_cards (hs_store s') = ds_cards (hs_store s) \<and> ds_table (hs_store s') = ds_table (hs_store s) \<and>
     ds_db (hs_store s') = ds_db (hs_store s) \<and> hooks_of s' = hooks_of s"

lemma runner_move_kept:
  assumes "store_ok (ru_cards R) (hs_store s)" "store_kept s s'"
  shows "runner_move R P s s'"
proof -
  have "table_cards (ru_cards R) (hs_store s') = table_cards (ru_cards R) (hs_store s)"
    using assms(2) by (simp add: table_cards_def store_kept_def)
  then show ?thesis using assms by (simp add: runner_move_def store_ok_def db_works_def store_kept_def)
qed

lemma store_kept_trans: "store_kept s t \<Longrightarrow> store_kept t u \<Longrightarrow> store_kept s u"
  by (simp add: store_kept_def)

lemma rest_store_kept: "rest_kept s s' \<Longrightarrow> store_kept s s'"
  by (simp add: rest_kept_def store_kept_def)

lemma decide_store_kept: "store_kept s (snd (decide_dispatch E p a actor note auto_loop s))"
proof -
  have "store_kept s (start_role E p a ps actor s)" for ps
    by (simp add: store_kept_def start_role_def Let_def schedule_recovery_pulse_def publish_project_pulse_def publish_event_def)
  moreover have "store_kept s (publish_recovery_pulse E u x (persist_metadata_patch E u patch s))" for u x patch
    by (rule rest_store_kept) (rule rest_kept_trans [OF pulse_kept(2) publish_recovery_pulse_kept])
  moreover have "store_kept s s" by (simp add: store_kept_def)
  ultimately show ?thesis unfolding decide_dispatch_def Let_def by (auto simp del: dispatch_params.simps split: option.split)
qed

lemma dispatch_store_kept: "store_kept s (snd (recovery_dispatch E i a actor note auto_loop s))"
proof -
  have refl: "store_kept s s" by (simp add: store_kept_def)
  have "store_kept s (snd (decide_dispatch E q a' actor note auto_loop (reap E p s)))" for a' p q
    by (rule store_kept_trans [OF rest_store_kept [OF reap_kept] decide_store_kept])
  then show ?thesis using refl by (simp add: recovery_dispatch_def dispatch_loaded_cleared split: option.split)
qed

text \<open>The cards of the list that was read at the start of a tick, possibly acknowledged since.\<close>

definition known :: "runner_env \<Rightarrow> decision_card list \<Rightarrow> hub_state \<Rightarrow> bool" where
  "known R cds s \<longleftrightarrow> (\<forall>cd \<in> set cds. cards_of R s (dc_decision_id cd) \<in> {Some cd, Some (acked_card cd)})"

lemma known_move: "known R cds s \<Longrightarrow> runner_move R P s s' \<Longrightarrow> known R cds s'"
  unfolding known_def runner_move_def by (metis acked_card_idem insert_iff singletonD)

lemma ack_move:
  assumes ok: "store_ok (ru_cards R) (hs_store s)" and cd: "known R [cd] s" "P cd" and P: "blind P"
  shows "runner_move R P s (runner_ack R (dc_decision_id cd) s)"
proof -
  obtain c where c: "cards_of R s (dc_decision_id cd) = Some c" "acked_card c = acked_card cd" "P c"
    using cd P unfolding known_def blind_def by fastforce
  note ack = ack_internal_ok [OF ok c(1), where actor = ACTOR]
  have "cards_of R (runner_ack R (dc_decision_id cd) s) = (cards_of R s)(dc_decision_id cd \<mapsto> acked_card c)"
    "hooks_of (runner_ack R (dc_decision_id cd) s) = hooks_of s @ [On_acked (acked_card c) ACTOR]"
    "store_ok (ru_cards R) (hs_store (runner_ack R (dc_decision_id cd) s))"
    using ack by (simp_all add: runner_ack_def)
  then show ?thesis using c unfolding runner_move_def by (auto intro!: exI [of _ "[c]"])
qed

definition policy_rule :: "runner_env \<Rightarrow> hub_project \<Rightarrow> decision_card \<Rightarrow> bool" where
  "policy_rule R p cd \<longleftrightarrow> card_belongs cd (hp_uuid p) \<and>
     can_auto_ack (card_kind (ru_cards R) cd) (resolve_pipeline_mode (hp_metadata p)) (resolve_gate_policy (ru_cards R) (hp_metadata p))"

text \<open>
  The code has one exception: once a project operates, the loop acknowledges its failure cards too,
  although the gate policy never allows that kind.
\<close>

definition operate_exception :: "runner_env \<Rightarrow> hub_project \<Rightarrow> decision_card \<Rightarrow> bool" where
  "operate_exception R p cd \<longleftrightarrow> card_belongs cd (hp_uuid p) \<and>
     card_kind (ru_cards R) cd = ''role_failure'' \<and> has (hp_metadata p) ''operate_started_at''"

definition own_rule :: "runner_env \<Rightarrow> hub_project \<Rightarrow> decision_card \<Rightarrow> bool" where
  "own_rule R p cd \<longleftrightarrow> policy_rule R p cd \<or> operate_exception R p cd"

lemmas rule_defs = own_rule_def policy_rule_def operate_exception_def

lemma pause_kept [simp]: "store_kept s (persist_pipeline_pause R u r k t s)"
  by (simp add: store_kept_def persist_pipeline_pause_def)

lemma runner_move_refl: "store_ok (ru_cards R) (hs_store s) \<Longrightarrow> runner_move R P s s"
  by (rule runner_move_kept) (simp_all add: store_kept_def)

lemma move_ok: "runner_move R P s s' \<Longrightarrow> store_ok (ru_cards R) (hs_store s')"
  by (simp add: runner_move_def)

lemma ack_cards_move:
  assumes "store_ok (ru_cards R) (hs_store s)" "known R cds s" "blind P" "\<And>cd. own_rule R p cd \<Longrightarrow> P cd"
  shows "runner_move R P s (snd (ack_cards R p cds s))"
  using assms(1,2)
proof (induction cds arbitrary: s)
  case Nil
  then show ?case by (simp add: runner_move_refl)
next
  case (Cons cd cds)
  have one: "known R [cd] s" "known R cds s" using Cons.prems(2) by (simp_all add: known_def)
  have step: "runner_move R P s (snd (ack_cards R p cds (runner_ack R (dc_decision_id cd) s)))" if "own_rule R p cd"
  proof -
    have m: "runner_move R P s (runner_ack R (dc_decision_id cd) s)" by (rule ack_move [OF Cons.prems(1) one(1) assms(4) [OF that] assms(3)])
    then show ?thesis using runner_move_trans [OF assms(3) m] Cons.IH [OF move_ok [OF m] known_move [OF one(2) m]] by blast
  qed
  have skip: "runner_move R P s (snd (ack_cards R p cds s))" by (rule Cons.IH [OF Cons.prems(1) one(2)])
  have pause: "runner_move R P s (persist_pipeline_pause R u r k t s)" for u r k t by (rule runner_move_kept [OF Cons.prems(1) pause_kept])
  show ?case using step skip pause unfolding ack_cards.simps Let_def rule_defs
    by (auto simp: split_beta)
qed

text \<open>What is assumed of an intake turn: it may add cards, and neither changes one nor starts the hook of a decision.\<close>

definition intake_quiet :: "runner_env \<Rightarrow> bool" where
  "intake_quiet R \<longleftrightarrow> (\<forall>p m ts s. store_ok (ru_cards R) (hs_store s) \<longrightarrow>
     store_ok (ru_cards R) (hs_store (snd (ru_intake R p m ts s))) \<and> hooks_of (snd (ru_intake R p m ts s)) = hooks_of s \<and>
     cards_of R s \<subseteq>\<^sub>m cards_of R (snd (ru_intake R p m ts s)))"

lemma map_le_Some: "m \<subseteq>\<^sub>m m' \<Longrightarrow> m i = Some x \<Longrightarrow> m' i = Some x"
  unfolding map_le_def by force

lemma intake_move:
  assumes "intake_quiet R" "store_ok (ru_cards R) (hs_store s)" "blind P"
  shows "runner_move R P s (snd (run_intake_tick R p s))"
proof -
  have turn: "runner_move R P s (snd (ru_intake R p m ts s))" for m ts
  proof -
    have quiet: "store_ok (ru_cards R) (hs_store (snd (ru_intake R p m ts s)))" "hooks_of (snd (ru_intake R p m ts s)) = hooks_of s"
      "cards_of R s \<subseteq>\<^sub>m cards_of R (snd (ru_intake R p m ts s))"
      using assms(1,2) unfolding intake_quiet_def by blast+
    then show ?thesis using map_le_Some [OF quiet(3)] by (simp add: runner_move_def)
  qed
  then have "runner_move R P s (persist_pipeline_pause R u r k t (snd (ru_intake R p m ts s)))" for u r k t m ts
    using runner_move_trans [OF assms(3) turn runner_move_kept [OF move_ok [OF turn] pause_kept]] by blast
  then show ?thesis using turn runner_move_refl [OF assms(2)] unfolding run_intake_tick_def Let_def
    by (simp split: sum.split prod.split) (metis snd_conv)
qed

lemma unstick_kept: "store_kept s (snd (maybe_auto_unstick_recovery R p pending s))"
proof -
  have refl: "store_kept s s" by (simp add: store_kept_def)
  have "store_kept s (snd (recovery_dispatch E u b actor nt l (snd (recovery_dispatch E u a actor nt l s))))" for E u a b actor nt l
    by (rule store_kept_trans [OF dispatch_store_kept dispatch_store_kept])
  then show ?thesis using refl dispatch_store_kept by (auto simp: maybe_auto_unstick_recovery_def Let_def split_beta)
qed

lemma feature_kept: "store_kept s (snd (maybe_dispatch_feature_request R p pending s))"
proof -
  have refl: "store_kept s s" by (simp add: store_kept_def)
  then show ?thesis using dispatch_store_kept by (auto simp: maybe_dispatch_feature_request_def Let_def split_beta)
qed

lemma process_project_move:
  assumes "intake_quiet R" "store_ok (ru_cards R) (hs_store s)" "known R cds s" "blind P" "\<And>cd. own_rule R p cd \<Longrightarrow> P cd"
  shows "runner_move R P s (snd (process_project R p cds s))"
proof -
  obtain r s1 where s1: "run_intake_tick R p s = (r, s1)" by (cases "run_intake_tick R p s")
  obtain b s2 where s2: "maybe_auto_unstick_recovery R p cds s1 = (b, s2)" by (cases "maybe_auto_unstick_recovery R p cds s1")
  obtain c s3 where s3: "maybe_dispatch_feature_request R p cds s2 = (c, s3)" by (cases "maybe_dispatch_feature_request R p cds s2")
  have m1: "runner_move R P s s1" using intake_move [OF assms(1,2,4)] s1 by (metis snd_conv)
  have m2: "runner_move R P s s2"
    using runner_move_trans [OF assms(4) m1 runner_move_kept [OF move_ok [OF m1] unstick_kept]] s2 by (metis snd_conv)
  have m3: "runner_move R P s s3"
    using runner_move_trans [OF assms(4) m2 runner_move_kept [OF move_ok [OF m2] feature_kept]] s3 by (metis snd_conv)
  have m4: "runner_move R P s (snd (ack_cards R p cds s3))"
    using runner_move_trans [OF assms(4) m3 ack_cards_move [OF move_ok [OF m3] known_move [OF assms(3) m3] assms(4,5)]] by blast
  show ?thesis using m1 m2 m3 m4 by (auto simp: process_project_def s1 s2 s3 split: sum.split bool.split)
qed

lemma process_all_move:
  assumes "intake_quiet R" "store_ok (ru_cards R) (hs_store s)" "known R cds s" "blind P" "\<And>p cd. p \<in> set ps \<Longrightarrow> own_rule R p cd \<Longrightarrow> P cd"
  shows "runner_move R P s (snd (process_all R ps cds s))"
  using assms(2,3,5)
proof (induction ps arbitrary: s)
  case Nil
  then show ?case by (simp add: runner_move_refl)
next
  case (Cons p ps)
  obtain r s1 where s1: "process_project R p cds s = (r, s1)" by (cases "process_project R p cds s")
  have m1: "runner_move R P s s1"
    using process_project_move [OF assms(1) Cons.prems(1,2) assms(4) Cons.prems(3) [of p]] s1 by (metis list.set_intros(1) snd_conv)
  have m2: "runner_move R P s1 (snd (process_all R ps cds s1))"
    by (rule Cons.IH [OF move_ok [OF m1] known_move [OF Cons.prems(2) m1]]) (use Cons.prems(3) in auto)
  show ?case using m1 runner_move_trans [OF assms(4) m1 m2] by (auto simp: s1 split: sum.split prod.split) 
qed

lemma dismiss_move:
  assumes "store_ok (ru_cards R) (hs_store s)" "known R cds s" "blind P" "\<And>cd. dismissable R cd \<Longrightarrow> P cd"
  shows "runner_move R P s (dismiss_global_cards R cds s)"
  using assms(1,2)
proof (induction cds arbitrary: s)
  case Nil
  then show ?case by (simp add: dismiss_global_cards_def runner_move_refl)
next
  case (Cons cd cds)
  have one: "known R [cd] s" "known R cds s" using Cons.prems(2) by (simp_all add: known_def)
  show ?case
  proof (cases "dismissable R cd")
    case True
    have m: "runner_move R P s (runner_ack R (dc_decision_id cd) s)" by (rule ack_move [OF Cons.prems(1) one(1) assms(4) [OF True] assms(3)])
    show ?thesis using runner_move_trans [OF assms(3) m Cons.IH [OF move_ok [OF m] known_move [OF one(2) m]]] True
      by (simp add: dismiss_global_cards_def)
  next
    case False
    then show ?thesis using Cons.IH [OF Cons.prems(1) one(2)] by (simp add: dismiss_global_cards_def)
  qed
qed

text \<open>
  The cards that a tick may acknowledge: global ones it dismisses, those that the policy of a project
  it runs allows, and the failure cards of a project that operates. \<open>permitted\<close> are the first two.
\<close>

definition tick_may_ack :: "runner_env \<Rightarrow> hub_state \<Rightarrow> decision_card \<Rightarrow> bool" where
  "tick_may_ack R s cd \<longleftrightarrow> dismissable R cd \<or> (\<exists>p \<in> set (list_autonomous_projects R s). own_rule R p cd)"

definition permitted :: "runner_env \<Rightarrow> hub_state \<Rightarrow> decision_card \<Rightarrow> bool" where
  "permitted R s cd \<longleftrightarrow> dismissable R cd \<or> (\<exists>p \<in> set (list_autonomous_projects R s). policy_rule R p cd)"

lemma tick_may_ack_blind: "blind (tick_may_ack R s)"
  by (auto simp: blind_def tick_may_ack_def dismissable_def rule_defs acked_card_def card_belongs_def card_kind_def)

lemma permitted_no_operate:
  assumes "\<forall>p \<in> set (list_autonomous_projects R s). \<not> has (hp_metadata p) ''operate_started_at''"
  shows "tick_may_ack R s = permitted R s"
  using assms by (intro ext) (auto simp: tick_may_ack_def permitted_def own_rule_def operate_exception_def)

lemma tick_moves:
  assumes quiet: "intake_quiet R" and ok: "store_ok (ru_cards R) (hs_store s)" and small: "length (ds_table (hs_store s)) \<le> 500"
  shows "runner_move R (tick_may_ack R s) s (snd (pipeline_runner_tick R s))"
proof -
  let ?cds = "alist (ru_cards R) (Some Card_pending) (hs_store s)"
  have "cd \<in> ran (cards_of R s)" if "cd \<in> set ?cds" for cd using that alist_ok(1) [OF ok small] by auto
  then have known: "known R ?cds s" unfolding known_def ran_def using table_cards_id by fastforce
  have m: "runner_move R (tick_may_ack R s) s (dismiss_global_cards R ?cds s)"
    by (rule dismiss_move [OF ok known tick_may_ack_blind]) (simp add: tick_may_ack_def)
  have "runner_move R (tick_may_ack R s) (dismiss_global_cards R ?cds s)
      (snd (process_all R (list_autonomous_projects R s) ?cds (dismiss_global_cards R ?cds s)))"
    by (rule process_all_move [OF quiet move_ok [OF m] known_move [OF known m] tick_may_ack_blind]) (auto simp: tick_may_ack_def)
  then show ?thesis using runner_move_trans [OF tick_may_ack_blind m] runner_move_refl [OF ok]
    by (simp add: pipeline_runner_tick_def Let_def)
qed

text \<open>
  Claim C9. While no autonomous project is in operation (none has \<open>operate_started_at\<close>, after which the
  loop acknowledges failure cards on its own), the intake endpoint changes no card and at most 500
  cards are stored, a tick acknowledges nothing but the global cards it dismisses and the cards of
  the projects it runs whose kind their mode and gate policy let through: every other card keeps its
  status, and every hook that the tick starts is that of such a card.
\<close>

theorem runner_acks_only_permitted:
  assumes quiet: "intake_quiet R" and ok: "store_ok (ru_cards R) (hs_store s)" and small: "length (ds_table (hs_store s)) \<le> 500"
    and calm: "\<forall>p \<in> set (list_autonomous_projects R s). \<not> has (hp_metadata p) ''operate_started_at''"
  shows "runner_move R (permitted R s) s (snd (pipeline_runner_tick R s))"
  using tick_moves [OF quiet ok small] permitted_no_operate [OF calm] by simp

section \<open>What a tick does for one project\<close>

definition may_ack :: "runner_env \<Rightarrow> hub_project \<Rightarrow> decision_card \<Rightarrow> bool" where
  "may_ack R p cd \<longleftrightarrow> card_belongs cd (hp_uuid p) \<and> dc_decision_id cd \<noteq> [] \<and>
     can_auto_ack (card_kind (ru_cards R) cd) (resolve_pipeline_mode (hp_metadata p)) (resolve_gate_policy (ru_cards R) (hp_metadata p))"

definition stops :: "runner_env \<Rightarrow> hub_project \<Rightarrow> decision_card \<Rightarrow> bool" where
  "stops R p cd \<longleftrightarrow> card_belongs cd (hp_uuid p) \<and> card_kind (ru_cards R) cd \<in> set STOP_KINDS"

lemma ack_cards_plain:
  assumes "\<forall>cd \<in> set cds. \<not> stops R p cd"
  shows "ack_cards R p cds s = (length (filter (may_ack R p) cds), fold (runner_ack R) (map dc_decision_id (filter (may_ack R p) cds)) s)"
  using assms
proof (induction cds arbitrary: s)
  case (Cons cd cds)
  then show ?case by (auto simp: Let_def may_ack_def stops_def)
qed simp

lemma runner_acks_store:
  "hs_store (fold (runner_ack R) ids s) = fold (\<lambda>i st. snd (ack_decision_internal (ru_cards R) i ACTOR st)) ids (hs_store s)"
  "hs_projects (fold (runner_ack R) ids s) = hs_projects s"
  by (induction ids arbitrary: s) (simp_all add: runner_ack_def)

abbreviation ready :: "hub_project \<Rightarrow> bool" where
  "ready p \<equiv> has (hp_metadata p) ''intake_done'' \<and> hp_phase p \<noteq> ''operate''"

lemma process_ready: "ready p \<Longrightarrow> process_project R p cds s = map_prod Inr id (ack_cards R p cds s)"
  by (simp add: process_project_def run_intake_tick_def Let_def maybe_auto_unstick_recovery_def maybe_dispatch_feature_request_def)

text \<open>
  Claim C18. For a project past its intake and before operation, without a card that stops it, a tick acknowledges exactly
  the pending cards the policy lets through, starts the hook of each once, and counts them.
\<close>

theorem permitted_cards_acked:
  assumes ok: "store_ok (ru_cards R) (hs_store s)" and small: "length (ds_table (hs_store s)) \<le> 500" and p: "ready p"
    and cds: "cds = alist (ru_cards R) (Some Card_pending) (hs_store s)" and calm: "\<forall>cd \<in> set cds. \<not> stops R p cd"
  shows "\<exists>s'. process_project R p cds s = (Inr (length (filter (may_ack R p) cds)), s') \<and>
    cards_of R s' = (\<lambda>i. case cards_of R s i of None \<Rightarrow> None
      | Some cd \<Rightarrow> Some (if dc_status cd = Card_pending \<and> may_ack R p cd then acked_card cd else cd)) \<and>
    hooks_of s' = hooks_of s @ map (\<lambda>cd. On_acked (acked_card cd) ACTOR) (filter (may_ack R p) cds) \<and> hs_projects s' = hs_projects s"
proof -
  let ?acks = "filter (may_ack R p) cds"
  let ?s' = "fold (runner_ack R) (map dc_decision_id ?acks) s"
  have mem: "cd \<in> set cds \<longleftrightarrow> cards_of R s (dc_decision_id cd) = Some cd \<and> dc_status cd = Card_pending" for cd
    using alist_ok(1) [OF ok small, of "Some Card_pending"] table_cards_id by (auto simp: cds ran_def)
  have dom: "set (map dc_decision_id ?acks) \<subseteq> dom (cards_of R s)" using mem by auto
  note all = cards.ack_all [OF ok dom, where actor = ACTOR]
  have "cards_of R ?s' i = (case cards_of R s i of None \<Rightarrow> None
      | Some cd \<Rightarrow> Some (if dc_status cd = Card_pending \<and> may_ack R p cd then acked_card cd else cd))" for i
  proof (cases "cards_of R s i")
    case None
    then show ?thesis using all(2) by (simp add: runner_acks_store)
  next
    case (Some cd)
    have i: "dc_decision_id cd = i" by (rule table_cards_id [OF Some])
    have pend: "cd \<in> set cds \<longleftrightarrow> dc_status cd = Card_pending" using mem [of cd] Some i by simp
    have "i \<in> set (map dc_decision_id ?acks) \<longleftrightarrow> dc_status cd = Card_pending \<and> may_ack R p cd"
    proof
      assume "i \<in> set (map dc_decision_id ?acks)"
      then obtain c where c: "c \<in> set cds" "may_ack R p c" "dc_decision_id c = i" by auto
      then have "c = cd" using mem [of c] Some by simp
      then show "dc_status cd = Card_pending \<and> may_ack R p cd" using c pend by simp
    next
      assume "dc_status cd = Card_pending \<and> may_ack R p cd"
      then have "cd \<in> set ?acks" using pend by simp
      then show "i \<in> set (map dc_decision_id ?acks)" unfolding i [symmetric] set_map by (rule imageI)
    qed
    then show ?thesis using all(2) Some by (simp add: runner_acks_store)
  qed
  moreover have "hooks_of ?s' = hooks_of s @ map (\<lambda>cd. On_acked (acked_card cd) ACTOR) ?acks"
    using all(3) mem by (simp add: runner_acks_store comp_def cong: map_cong)
  moreover have "process_project R p cds s = (Inr (length ?acks), ?s')" by (simp add: process_ready [OF p] ack_cards_plain [OF calm])
  ultimately show ?thesis by (simp add: runner_acks_store fun_eq_iff)
qed

lemma paused_not_alone:
  assumes "q \<in> set (hs_projects (persist_pipeline_pause R u r k t s))" "re_pool (ru_recovery R)" "hp_uuid q = u"
  shows "\<not> runs_alone R q"
proof -
  have "\<exists>q0. q = q0\<lparr>hp_metadata := merge_meta (hp_metadata q0) [(''pipeline_paused'', JBool True),
      (''pipeline_pause_reason'', JStr r), (''pipeline_pause_kind'', JStr k), (''pipeline_pause_title'', JStr (take 500 t))],
      hp_updated_at := re_now (ru_recovery R)\<rparr>"
    using assms unfolding persist_pipeline_pause_def by (auto simp del: meta_merge1)
  then have "meta (hp_metadata q) ''pipeline_paused'' = JBool True" by auto
  then show ?thesis by (simp add: runs_alone_def jsonb_text_def)
qed

text \<open>
  A failure or a gap reported for a project pauses it: after the tick no row of the project is among those that
  run alone, so later ticks leave its cards to a person.
\<close>

theorem stop_card_pauses_project:
  assumes "re_pool (ru_recovery R)" "ready p" "\<not> has (hp_metadata p) ''operate_started_at''" "\<exists>cd \<in> set cds. stops R p cd"
  shows "\<forall>q \<in> set (list_autonomous_projects R (snd (process_project R p cds s))). hp_uuid q \<noteq> hp_uuid p"
proof -
  have "\<forall>q \<in> set (hs_projects (snd (ack_cards R p cds s))). hp_uuid q = hp_uuid p \<longrightarrow> \<not> runs_alone R q"
    using assms(4)
  proof (induction cds arbitrary: s)
    case (Cons cd cds)
    show ?case
    proof (cases "stops R p cd")
      case True
      then show ?thesis using assms(1,3) paused_not_alone by (auto simp: Let_def stops_def)
    next
      case False
      then have "\<exists>cd \<in> set cds. stops R p cd" using Cons.prems by auto
      note IH = Cons.IH [OF this]
      show ?thesis using IH False by (auto simp: Let_def stops_def split_beta)
    qed
  qed simp
  then show ?thesis using assms(2) by (auto simp: process_ready list_autonomous_projects_def dest!: in_set_takeD split: if_splits)
qed

text \<open>
  A project's own list of kinds to acknowledge does not restrict the runner: with any preset but the gate-checked
  one, every approval that is not held is acknowledged, even if the list is empty.
\<close>

theorem auto_list_does_not_restrict:
  assumes "meta md ''gate_policy'' = JDict d" "meta d ''auto'' = JList []" "meta d ''hold'' = JList []"
    and "meta md ''gate_policy_preset'' = JNull" "meta md ''pipeline_mode'' = JStr ''autonomous''"
  shows "can_auto_ack ''release_gate_approval'' (resolve_pipeline_mode md) (resolve_gate_policy C md)"
proof -
  have "py_lower (py_strip ''strict'') = ''strict''" "preset_lists ''strict'' \<noteq> None" "ends_with ''_approval'' ''release_gate_approval''" by code_simp+
  then show ?thesis using assms
    by (auto simp: can_auto_ack_def resolve_pipeline_mode_def resolve_gate_policy_def Let_def split_beta policy_can_auto_ack_def NEVER_AUTO_def truthy_def)
qed

section \<open>Concrete runs\<close>

definition demo_runner_env :: runner_env where
  "demo_runner_env = \<lparr>ru_recovery = demo_recovery_env, ru_dismiss = [''master_daily_briefing''], ru_profiles = [], ru_cli = [''go''],
     ru_final_prompt = ''done?'', ru_intake = (\<lambda>p m ts s. (Inr (), s)), ru_json_text = (\<lambda>_. ''?'')\<rparr>"

definition demo_prd_card :: decision_card where
  "demo_prd_card = demo_card\<lparr>dc_project_id := Some ''p7'', dc_metadata := [(''kind'', JStr ''prd_approval''), (''project_uuid'', JStr ''p7'')]\<rparr>"

abbreviation demo_auto :: "(string \<times> json) list" where
  "demo_auto \<equiv> [(''pipeline_mode'', JStr ''autonomous''), (''intake_done'', JBool True)]"

definition demo_auto_hub :: hub_state where
  "demo_auto_hub = (demo_hub ''plan_in_progress'' demo_auto)\<lparr>hs_store := aput demo_cards_env demo_prd_card demo_store\<rparr>"

lemma demo_quiet: "intake_quiet demo_runner_env"
  by (simp add: intake_quiet_def demo_runner_env_def)

lemma demo_cards [simp]: "ru_cards demo_runner_env = demo_cards_env"
  by (simp add: demo_runner_env_def demo_recovery_env_def)

lemma demo_auto_store:
  "store_ok demo_cards_env (hs_store demo_auto_hub)" "cards_of demo_runner_env demo_auto_hub = [''u1'' \<mapsto> demo_prd_card]"
  "length (ds_table (hs_store demo_auto_hub)) \<le> 500"
proof -
  have empty: "table_cards demo_cards_env demo_store = Map.empty" by (simp add: table_cards_def demo_store_def)
  have "durable demo_cards_env demo_prd_card"
    by (simp add: durable_def demo_prd_card_def demo_card_def demo_cards_env_def isdigit_def re_digit_def in_range_def meta_uuid_def)
  note put = aput_ok [OF demo_store_ok this]
  show "store_ok demo_cards_env (hs_store demo_auto_hub)" "cards_of demo_runner_env demo_auto_hub = [''u1'' \<mapsto> demo_prd_card]"
    using put(1,2) by (simp_all add: demo_auto_hub_def empty) (simp add: demo_prd_card_def demo_card_def)
  show "length (ds_table (hs_store demo_auto_hub)) \<le> 500"
    by (simp add: demo_auto_hub_def aput_def persist_put_def Let_def insert_card_def demo_store_def split: bool.split option.split)
qed

theorem runner_acks_only_permitted_witness:
  "store_ok demo_cards_env (hs_store demo_auto_hub) \<and>
   runner_move demo_runner_env (permitted demo_runner_env demo_auto_hub) demo_auto_hub (snd (pipeline_runner_tick demo_runner_env demo_auto_hub))"
proof -
  have "\<forall>p \<in> set (list_autonomous_projects demo_runner_env demo_auto_hub). \<not> has (hp_metadata p) ''operate_started_at''"
    by (simp add: list_autonomous_projects_def demo_auto_hub_def demo_hub_def demo_project_def meta_def truthy_def)
  then show ?thesis
    using runner_acks_only_permitted [OF demo_quiet, of demo_auto_hub] demo_auto_store by simp
qed

theorem permitted_cards_acked_witness:
  "\<exists>s'. process_project demo_runner_env (demo_project ''plan_in_progress'' demo_auto) (alist demo_cards_env (Some Card_pending) (hs_store demo_auto_hub)) demo_auto_hub =
     (Inr 1, s') \<and> map_option dc_status (cards_of demo_runner_env s' ''u1'') = Some Card_acked"
proof -
  let ?cds = "alist demo_cards_env (Some Card_pending) (hs_store demo_auto_hub)"
  let ?p = "demo_project ''plan_in_progress'' demo_auto"
  have st: "dc_status demo_prd_card = Card_pending" by (simp add: demo_prd_card_def demo_card_def)
  have ran: "ran (table_cards demo_cards_env (hs_store demo_auto_hub)) = {demo_prd_card}" using demo_auto_store(2) by simp
  have set: "set ?cds = {demo_prd_card}" unfolding alist_ok(1) [OF demo_auto_store(1,3)] ran using st by auto
  have "distinct (map dc_decision_id ?cds)" by (rule alist_ok(2) [OF demo_auto_store(1,3)])
  then have "length ?cds = 1" using distinct_card [of ?cds] set by (simp add: distinct_map)
  then obtain c where "?cds = [c]" by (metis One_nat_def length_0_conv length_Suc_conv)
  then have cds: "?cds = [demo_prd_card]" using set by simp
  have kind: "card_kind demo_cards_env demo_prd_card = ''prd_approval''"
    by (simp add: card_kind_def demo_prd_card_def meta_def text_or_empty_def truthy_def json_text_def)
  have "resolve_gate_policy demo_cards_env demo_auto = \<lparr>gp_auto = fst (the (preset_lists ''strict'')), gp_hold = [''release_gate_approval''], gp_preset = ''strict''\<rparr>"
  proof -
    have "py_lower (py_strip ''strict'') = ''strict''" by code_simp
    then show ?thesis by (simp add: resolve_gate_policy_def meta_def truthy_def Let_def preset_lists_def)
  qed
  moreover have "policy_can_auto_ack \<lparr>gp_auto = fst (the (preset_lists ''strict'')), gp_hold = [''release_gate_approval''], gp_preset = ''strict''\<rparr> ''prd_approval''"
    by code_simp
  ultimately have may: "may_ack demo_runner_env ?p demo_prd_card"
    by (simp add: may_ack_def kind can_auto_ack_def demo_project_def resolve_pipeline_mode_def)
      (simp add: meta_def card_belongs_def demo_prd_card_def demo_card_def)
  have calm: "\<forall>cd \<in> set ?cds. \<not> stops demo_runner_env ?p cd" by (simp add: cds stops_def kind STOP_KINDS_def)
  have "ready ?p" by (simp add: demo_project_def meta_def truthy_def)
  then show ?thesis
    using permitted_cards_acked [where R = demo_runner_env and s = demo_auto_hub and p = ?p and cds = ?cds] demo_auto_store calm may st by (auto simp: cds acked_card_def)
qed

theorem stop_card_pauses_project_witness:
  "list_autonomous_projects demo_runner_env demo_auto_hub \<noteq> [] \<and>
   list_autonomous_projects demo_runner_env (snd (process_project demo_runner_env (demo_project ''plan_in_progress'' demo_auto)
     [demo_prd_card\<lparr>dc_metadata := [(''kind'', JStr ''orchestrator_gap''), (''project_uuid'', JStr ''p7'')]\<rparr>] demo_auto_hub)) = []"
proof -
  let ?cd = "demo_prd_card\<lparr>dc_metadata := [(''kind'', JStr ''orchestrator_gap''), (''project_uuid'', JStr ''p7'')]\<rparr>"
  let ?p = "demo_project ''plan_in_progress'' demo_auto"
  let ?s = "snd (process_project demo_runner_env ?p [?cd] demo_auto_hub)"
  have stop: "stops demo_runner_env ?p ?cd"
    by (simp add: stops_def card_belongs_def card_kind_def demo_project_def meta_def text_or_empty_def truthy_def json_text_def STOP_KINDS_def)
  have p: "re_pool (ru_recovery demo_runner_env)" "ready ?p" "\<not> has (hp_metadata ?p) ''operate_started_at''"
    by (simp_all add: demo_runner_env_def demo_recovery_env_def demo_project_def meta_def truthy_def)
  have "\<forall>q \<in> set (list_autonomous_projects demo_runner_env ?s). hp_uuid q \<noteq> ''p7''"
    using stop_card_pauses_project [OF p, of "[?cd]" demo_auto_hub] stop by (simp add: demo_project_def)
  moreover have "set (list_autonomous_projects demo_runner_env t) \<subseteq> set (hs_projects t)" for t
    by (auto simp: list_autonomous_projects_def dest!: in_set_takeD split: if_splits)
  moreover have "\<forall>q \<in> set (hs_projects ?s). hp_uuid q = ''p7''"
    using p stop by (simp add: process_ready stops_def Let_def persist_pipeline_pause_def demo_auto_hub_def demo_hub_def) (auto simp: demo_project_def)
  ultimately have "set (list_autonomous_projects demo_runner_env ?s) = {}" by (meson equals0I subset_iff)
  then have "list_autonomous_projects demo_runner_env ?s = []" by simp
  moreover have "list_autonomous_projects demo_runner_env demo_auto_hub \<noteq> []"
    by (simp add: list_autonomous_projects_def p(1) demo_auto_hub_def demo_hub_def demo_project_def runs_alone_def meta_def jsonb_text_def)
  ultimately show ?thesis by simp
qed

theorem auto_list_does_not_restrict_witness:
  "can_auto_ack ''release_gate_approval'' Autonomous (resolve_gate_policy demo_cards_env
     [(''pipeline_mode'', JStr ''autonomous''), (''gate_policy'', JDict [(''auto'', JList []), (''hold'', JList [])])])"
proof -
  let ?md = "[(''pipeline_mode'', JStr ''autonomous''), (''gate_policy'', JDict [(''auto'', JList []), (''hold'', JList [])])]"
  have "resolve_pipeline_mode ?md = Autonomous" by (simp add: resolve_pipeline_mode_def meta_def)
  then show ?thesis using auto_list_does_not_restrict [of ?md "[(''auto'', JList []), (''hold'', JList [])]" demo_cards_env] by (simp add: meta_def)
qed

end
