(* ===== verification/Notify.thy ===== *)
theory Notify
  imports Secrets Bytes Regex Json
begin

text \<open>
  \<open>shared/notify\<close>: the rate-limit ledger of \<open>rate_limit.py\<close> over the table
  \<open>spine_license.quota_usage\<close>, the channels of \<open>channels.py\<close> with their constructors and the
  guards of their \<open>send\<close>, and the fan-out of \<open>notifier.py\<close> with its two layers of rate limiting
  and its configuration. The transports (HTTP, SMTP, the desktop helper, the file system), SHA-256,
  the secret store and what psql reads from a quoted argument are parameters. An instant is a number
  of microseconds since the epoch; the ISO text of a period bound and its reading by the database are
  inverse to each other, so a bound is kept as its number of seconds.
\<close>

section \<open>The ledger\<close>

datatype rate_error = Empty_name | Date_overflow

record rate_row =
  rr_flag_name :: string
  rr_period_start :: int
  rr_period_end :: int
  rr_used_value :: int
  rr_ledger_anchor :: string

text \<open>
  \<open>re_digest\<close> is the SHA-256 digest of the text's UTF-8 bytes, \<open>re_read\<close> what psql makes of the text
  between the quotes of a \<open>\set\<close> line (\<open>None\<close> when the line is an error), \<open>re_up\<close> whether the URL is
  set and psql can be run.
\<close>

record rate_env =
  re_digest :: "string \<Rightarrow> string"
  re_read :: "string \<Rightarrow> string option"
  re_up :: bool

definition quote_value :: "string \<Rightarrow> string" where
  "quote_value v = concat (map (\<lambda>c. if c = CHR 0x27 then [c, c] else [c]) v)"

definition bind_value :: "rate_env \<Rightarrow> string \<Rightarrow> string option" where
  "bind_value E v = (if re_up E then re_read E (quote_value v) else None)"

definition rl_flag_name :: "string \<Rightarrow> string \<Rightarrow> (rate_error, string) res" where
  "rl_flag_name channel event_type =
     (if channel = [] \<or> event_type = [] then Inl Empty_name
      else Inr (''notify.'' @ channel @ ''.'' @ event_type))"

text \<open>The seconds that a \<open>datetime\<close> can stand for: the years 1 to 9999.\<close>

definition date_ok :: "int \<Rightarrow> bool" where
  "date_ok t \<longleftrightarrow> - 62135596800 \<le> t \<and> t \<le> 253402300799"

definition rl_bucket :: "time \<Rightarrow> int \<Rightarrow> int" where
  "rl_bucket now window_seconds =
     (let epoch = now div 1000000 in epoch - epoch mod max window_seconds 1)"

definition rl_period_for :: "time \<Rightarrow> int \<Rightarrow> (rate_error, int \<times> int) res" where
  "rl_period_for now window_seconds =
     (let start = rl_bucket now window_seconds; stop = start + window_seconds in
      if date_ok start \<and> date_ok stop then Inr (start, stop) else Inl Date_overflow)"

definition rl_recipient_hash :: "rate_env \<Rightarrow> string \<Rightarrow> string" where
  "rl_recipient_hash E key = take 16 (bytes_hex (re_digest E key))"

definition rl_row_matches :: "string \<Rightarrow> int \<Rightarrow> int \<Rightarrow> string \<Rightarrow> rate_row \<Rightarrow> bool" where
  "rl_row_matches flag st en rcp r \<longleftrightarrow> rr_flag_name r = flag \<and> rr_period_start r = st \<and>
     rr_period_end r = en \<and> bytes_hex (rr_ledger_anchor r) = rcp"

definition rl_check :: "rate_env \<Rightarrow> string \<Rightarrow> string \<Rightarrow> string \<Rightarrow> int \<Rightarrow> time \<Rightarrow> rate_row list \<Rightarrow>
    (rate_error, bool) res" where
  "rl_check E channel event_type key window_seconds now table =
     rbind (rl_flag_name channel event_type) (\<lambda>flag.
     rbind (rl_period_for now window_seconds) (\<lambda>(st, en). Inr
       (case (bind_value E flag, bind_value E (rl_recipient_hash E key)) of
          (Some f, Some h) \<Rightarrow> list_ex (rl_row_matches f st en h) table
        | _ \<Rightarrow> False)))"

text \<open>
  The table has no unique key, so \<open>ON CONFLICT\<close> never applies; a row whose period is empty fails the
  table's check, and the failure is logged and dropped.
\<close>

definition rl_mark :: "rate_env \<Rightarrow> string \<Rightarrow> string \<Rightarrow> string \<Rightarrow> int \<Rightarrow> time \<Rightarrow>
    (rate_row list, rate_error, unit) eff" where
  "rl_mark E channel event_type key window_seconds now =
     ebind (elift (rl_flag_name channel event_type)) (\<lambda>flag.
     ebind (elift (rl_period_for now window_seconds)) (\<lambda>(st, en). ewrite (\<lambda>table.
       case (bind_value E flag, Option.bind (bind_value E (rl_recipient_hash E key)) bytes_fromhex) of
         (Some f, Some b) \<Rightarrow> if st < en
           then table @ [\<lparr>rr_flag_name = f, rr_period_start = st, rr_period_end = en,
                          rr_used_value = 1, rr_ledger_anchor = b\<rparr>] else table
       | _ \<Rightarrow> table)))"

section \<open>Events and channels\<close>

datatype event_type = Approval_pending | Approval_granted | Approval_rejected | Verify_failed
  | Project_blocked | Budget_warning | Budget_exceeded | Phase_advanced

fun event_name :: "event_type \<Rightarrow> string" where
  "event_name Approval_pending = ''approval_pending''"
| "event_name Approval_granted = ''approval_granted''"
| "event_name Approval_rejected = ''approval_rejected''"
| "event_name Verify_failed = ''verify_failed''"
| "event_name Project_blocked = ''project_blocked''"
| "event_name Budget_warning = ''budget_warning''"
| "event_name Budget_exceeded = ''budget_exceeded''"
| "event_name Phase_advanced = ''phase_advanced''"

datatype event_severity = Sev_info | Sev_warning | Sev_critical

record notification_event =
  ev_event_type :: event_type
  ev_project_id :: string
  ev_project_name :: string
  ev_phase :: string
  ev_actor :: "string option"
  ev_summary :: string
  ev_detail_url :: "string option"
  ev_severity :: event_severity
  ev_metadata :: "(string, json) dict"
  ev_emitted_at :: time

record notify_result =
  nr_channel :: string
  nr_sent :: bool
  nr_error :: "string option"
  nr_duration_ms :: int
  nr_rate_limited :: bool

definition sent_result :: "string \<Rightarrow> notify_result" where
  "sent_result name = \<lparr>nr_channel = name, nr_sent = True, nr_error = None, nr_duration_ms = 0,
     nr_rate_limited = False\<rparr>"

fun severity_tag :: "event_severity \<Rightarrow> string" where
  "severity_tag Sev_info = ''[INFO]''"
| "severity_tag Sev_warning = ''[WARN]''"
| "severity_tag Sev_critical = ''[CRIT]''"

fun severity_name :: "event_severity \<Rightarrow> string" where
  "severity_name Sev_info = ''info''"
| "severity_name Sev_warning = ''warning''"
| "severity_name Sev_critical = ''critical''"

fun severity_colour :: "event_severity \<Rightarrow> string" where
  "severity_colour Sev_info = ''#36a64f''"
| "severity_colour Sev_warning = ''#f2b400''"
| "severity_colour Sev_critical = ''#d50000''"

text \<open>Python's \<open>if x\<close> on an optional text.\<close>

definition given :: "string option \<Rightarrow> bool" where
  "given x = (case x of None \<Rightarrow> False | Some s \<Rightarrow> s \<noteq> [])"

definition fmt :: "notification_event \<Rightarrow> string" where
  "fmt ev = severity_tag (ev_severity ev) @ '' '' @ event_name (ev_event_type ev) @
     '' project='' @ ev_project_name ev @ '' ('' @ ev_project_id ev @ '')'' @
     '' phase='' @ ev_phase ev @
     (if given (ev_actor ev) then '' actor='' @ the (ev_actor ev) else []) @
     '' :: '' @ ev_summary ev @
     (if given (ev_detail_url ev) then '' ['' @ the (ev_detail_url ev) @ '']'' else [])"

text \<open>
  A channel keeps what its constructor stored. Keyword arguments come from a configuration file and
  are JSON values; what Python would only refuse when it is used is stored as it is. The label of the
  test channel is text.
\<close>

datatype channel =
    Stdout_channel (ch_stderr: bool)
  | File_channel (ch_path: string)
  | Slack_channel (ch_webhook_url: json) (ch_timeout: int)
  | Email_channel (ch_host: json) (ch_port: int) (ch_username: json) (ch_password: json)
      (ch_sender: json) (ch_recipients: "json list") (ch_use_tls: bool) (ch_timeout: int)
  | System_channel (ch_timeout: int)
  | Webhook_channel (ch_url: json) (ch_headers: "(json, json) dict") (ch_method: string) (ch_timeout: int)
  | NoOp_channel (ch_label: string)
  | SMS_channel (ch_recipients: "json list") (ch_from_number: json) (ch_account_sid: json)
      (ch_auth_token: json) (ch_timeout: int)
  | WhatsApp_channel (ch_recipients: "json list") (ch_from_number: json) (ch_account_sid: json)
      (ch_auth_token: json) (ch_timeout: int)
  | Teams_channel (ch_webhook_url: json) (ch_timeout: int)
  | PagerDuty_channel (ch_routing_key: json) (ch_dedup_strategy: json) (ch_timeout: int)

fun ch_name :: "channel \<Rightarrow> string" where
  "ch_name (Stdout_channel _) = ''stdout''"
| "ch_name (File_channel _) = ''file''"
| "ch_name (Slack_channel _ _) = ''slack''"
| "ch_name (Email_channel _ _ _ _ _ _ _ _) = ''email''"
| "ch_name (System_channel _) = ''system''"
| "ch_name (Webhook_channel _ _ _ _) = ''webhook''"
| "ch_name (NoOp_channel label) = label"
| "ch_name (SMS_channel _ _ _ _ _) = ''sms''"
| "ch_name (WhatsApp_channel _ _ _ _ _) = ''whatsapp''"
| "ch_name (Teams_channel _ _) = ''teams''"
| "ch_name (PagerDuty_channel _ _ _) = ''pagerduty''"

subsection \<open>Sending\<close>

text \<open>
  What left the process. The outcome of a transport is an error text of the library or, for HTTP, the
  status and body.
\<close>

datatype payload =
    Printed bool string
  | Appended string string
  | Posted string json json
  | Mailed channel string string
  | Toast string string
  | Collected notification_event

text \<open>The class and the text of an exception, and what running the desktop helper gives.\<close>

type_synonym raised = "string \<times> string"

datatype helper_outcome = Helper_ok | Helper_missing | Helper_failed string | Helper_timeout string

record transports =
  tp_requests :: bool
  tp_http :: "channel \<Rightarrow> json \<Rightarrow> string + int \<times> string"
  tp_compose :: "channel \<Rightarrow> string \<Rightarrow> string \<Rightarrow> raised option"
  tp_smtp :: "channel \<Rightarrow> string \<Rightarrow> string \<Rightarrow> string option"
  tp_append :: "string \<Rightarrow> string \<Rightarrow> string option"
  tp_platform :: string
  tp_helper :: helper_outcome
  tp_model_json :: "notification_event \<Rightarrow> string"
  tp_loads :: "string \<Rightarrow> json"
  tp_dumps_indent :: "(string, json) dict \<Rightarrow> string"

definition ChannelError :: "string \<Rightarrow> raised" where
  "ChannelError msg = (''ChannelError'', msg)"

definition slack_payload :: "notification_event \<Rightarrow> json" where
  "slack_payload ev = JDict [(''text'', JStr (fmt ev)), (''attachments'', JList [JDict
     ([(''color'', JStr (severity_colour (ev_severity ev))),
       (''fields'', JList
          [JDict [(''title'', JStr ''Project''), (''value'', JStr (ev_project_name ev)), (''short'', JBool True)],
           JDict [(''title'', JStr ''Phase''), (''value'', JStr (ev_phase ev)), (''short'', JBool True)]])] @
      (if given (ev_detail_url ev) then [(''title_link'', JStr (the (ev_detail_url ev)))] else []))])]"

definition email_subject :: "notification_event \<Rightarrow> string" where
  "email_subject ev = ''[spine/'' @ severity_name (ev_severity ev) @ ''] '' @
     event_name (ev_event_type ev) @ '': '' @ ev_project_name ev"

definition http_send :: "transports \<Rightarrow> channel \<Rightarrow> string \<Rightarrow> string \<Rightarrow> json \<Rightarrow> bool \<Rightarrow> json \<Rightarrow> (raised, payload) res" where
  "http_send T ch label verb url with_body body =
     (if \<not> tp_requests T then Inl (ChannelError (label @ '': `pip install requests` required''))
      else case tp_http T ch body of
        Inl e \<Rightarrow> Inl (ChannelError (label @ '' '' @ verb @ '' failed: '' @ e))
      | Inr (code, resp) \<Rightarrow>
          if 300 \<le> code
          then Inl (ChannelError (label @ '' non-2xx: '' @ str_nat (nat code) @
                 (if with_body then '' '' @ take 200 resp else [])))
          else Inr (Posted verb url body))"

definition system_send :: "transports \<Rightarrow> notification_event \<Rightarrow> (raised, payload) res" where
  "system_send T ev =
     (let title = ''Spine: '' @ event_name (ev_event_type ev);
          body = ev_project_name ev @ '' ['' @ ev_phase ev @ ''] '' @ [CHR 0x97] @ '' '' @ ev_summary ev in
      if tp_platform T \<noteq> ''darwin'' \<and> tp_platform T \<noteq> ''linux'' then Inr (Printed False (fmt ev))
      else case tp_helper T of
        Helper_ok \<Rightarrow> Inr (Toast title body)
      | Helper_missing \<Rightarrow> Inl (ChannelError (''system: missing helper for '' @ tp_platform T @
          '' (install osascript / notify-send)''))
      | Helper_failed e \<Rightarrow> Inl (ChannelError (''system notification failed: '' @ e))
      | Helper_timeout e \<Rightarrow> Inl (''TimeoutExpired'', e))"

definition scaffold_send :: "channel \<Rightarrow> (raised, payload) res" where
  "scaffold_send ch = Inl (''NotImplementedError'', ''channel '' @ CHR 0x27 # ch_name ch @ [CHR 0x27] @
     '' is a Wave-1 scaffold; transport deferred to v1.1+'')"

definition file_send :: "transports \<Rightarrow> string \<Rightarrow> notification_event \<Rightarrow> (raised, payload) res" where
  "file_send T path ev =
     (let line = tp_model_json T ev @ [CHR 0x0A] in
      case tp_append T path line of
        Some e \<Rightarrow> Inl (ChannelError (''could not write '' @ path @ '': '' @ e))
      | None \<Rightarrow> Inr (Appended path line))"

definition slack_send :: "transports \<Rightarrow> json \<Rightarrow> int \<Rightarrow> notification_event \<Rightarrow> (raised, payload) res" where
  "slack_send T url timeout ev =
     (if \<not> truthy url
      then Inl (ChannelError ''slack: no webhook_url (arg or vault path notify/slack/webhook_url)'')
      else http_send T (Slack_channel url timeout) ''slack'' ''POST'' url True (slack_payload ev))"

definition email_send :: "transports \<Rightarrow> channel \<Rightarrow> notification_event \<Rightarrow> (raised, payload) res" where
  "email_send T ch ev =
     (if \<not> (truthy (ch_host ch) \<and> truthy (ch_sender ch) \<and> ch_recipients ch \<noteq> [])
      then Inl (ChannelError (''email: host/sender/recipients required (constructor kwargs '' @
             ''or org-bundle notification.channels block); password via vault path notify/smtp/password''))
      else
        let content = fmt ev @ [CHR 0x0A, CHR 0x0A] @ tp_dumps_indent T (ev_metadata ev) in
        case tp_compose T ch (email_subject ev) content of
          Some e \<Rightarrow> Inl e
        | None \<Rightarrow> case tp_smtp T ch (email_subject ev) content of
            Some e \<Rightarrow> Inl (ChannelError (''smtp send failed: '' @ e))
          | None \<Rightarrow> Inr (Mailed ch (email_subject ev) content))"

definition webhook_send :: "transports \<Rightarrow> channel \<Rightarrow> notification_event \<Rightarrow> (raised, payload) res" where
  "webhook_send T ch ev = http_send T ch ''webhook'' (ch_method ch) (ch_url ch) False
     (tp_loads T (tp_model_json T ev))"

fun channel_send :: "transports \<Rightarrow> channel \<Rightarrow> notification_event \<Rightarrow> (raised, payload) res" where
  "channel_send T (Stdout_channel err) ev = Inr (Printed err (fmt ev))"
| "channel_send T (File_channel path) ev = file_send T path ev"
| "channel_send T (Slack_channel url timeout) ev = slack_send T url timeout ev"
| "channel_send T (Email_channel host port user pw sender rcpts tls timeout) ev =
     email_send T (Email_channel host port user pw sender rcpts tls timeout) ev"
| "channel_send T (System_channel _) ev = system_send T ev"
| "channel_send T (Webhook_channel url headers verb timeout) ev =
     webhook_send T (Webhook_channel url headers verb timeout) ev"
| "channel_send T (NoOp_channel _) ev = Inr (Collected ev)"
| "channel_send T (SMS_channel r f s a t) ev = scaffold_send (SMS_channel r f s a t)"
| "channel_send T (WhatsApp_channel r f s a t) ev = scaffold_send (WhatsApp_channel r f s a t)"
| "channel_send T (Teams_channel u t) ev = scaffold_send (Teams_channel u t)"
| "channel_send T (PagerDuty_channel k d t) ev = scaffold_send (PagerDuty_channel k d t)"

section \<open>The notifier\<close>

type_synonym rate_key = "string \<times> string \<times> string"

text \<open>
  The state of a process that notifies: the channels and window it was built with, the rate log of its
  memory, the table it shares with other processes, and what it sent, oldest first.
\<close>

record delivery =
  dl_channel :: string
  dl_key :: rate_key
  dl_before :: time
  dl_after :: time
  dl_payload :: payload

record notifier =
  nf_channels :: "channel list"
  nf_window :: int
  nf_rate_log :: "(rate_key, time) dict"
  nf_table :: "rate_row list"
  nf_out :: "delivery list"

definition notifier_init :: "channel list \<Rightarrow> int \<Rightarrow> rate_row list \<Rightarrow> notifier" where
  "notifier_init channels window table = \<lparr>nf_channels = channels, nf_window = window,
     nf_rate_log = [], nf_table = table, nf_out = []\<rparr>"

definition rate_key_of :: "notification_event \<Rightarrow> string \<Rightarrow> rate_key" where
  "rate_key_of ev recipient = (event_name (ev_event_type ev), ev_project_id ev, recipient)"

fun join_key :: "rate_key \<Rightarrow> string" where
  "join_key (e, p, r) = e @ '':'' @ p @ '':'' @ r"

fun key_event :: "rate_key \<Rightarrow> string" where
  "key_event (e, p, r) = e"

fun key_recipient :: "rate_key \<Rightarrow> string" where
  "key_recipient (e, p, r) = r"

definition memory_limited :: "time \<Rightarrow> rate_key \<Rightarrow> notifier \<Rightarrow> bool" where
  "memory_limited now key s = (case map_of (nf_rate_log s) key of
     None \<Rightarrow> False | Some t \<Rightarrow> now - t < nf_window s * 1000000)"

definition ledger_limited :: "rate_env \<Rightarrow> time \<Rightarrow> rate_key \<Rightarrow> notifier \<Rightarrow> bool" where
  "ledger_limited E now key s =
     (case rl_check E (key_recipient key) (key_event key) (join_key key) (nf_window s) now (nf_table s) of
        Inl _ \<Rightarrow> False | Inr b \<Rightarrow> b)"

definition is_rate_limited :: "rate_env \<Rightarrow> time \<Rightarrow> rate_key \<Rightarrow> notifier \<Rightarrow> bool" where
  "is_rate_limited E now key s \<longleftrightarrow> memory_limited now key s \<or> ledger_limited E now key s"

definition mark_sent :: "rate_env \<Rightarrow> time \<Rightarrow> rate_key \<Rightarrow> notifier \<Rightarrow> notifier" where
  "mark_sent E now key s = s\<lparr>nf_rate_log := AList.update key now (nf_rate_log s),
     nf_table := run_state (rl_mark E (key_recipient key) (key_event key) (join_key key) (nf_window s) now)
       (nf_table s)\<rparr>"

text \<open>
  The clock is read before a channel's \<open>send\<close> and after it; \<open>clk i\<close> are the two readings at the
  channel with index \<open>i\<close>.
\<close>

record notify_env =
  ne_rate :: rate_env
  ne_transports :: transports
  ne_clock :: "nat \<Rightarrow> time \<times> time"

definition limited_result :: "string \<Rightarrow> notify_result" where
  "limited_result name = \<lparr>nr_channel = name, nr_sent = False, nr_error = Some ''rate_limited'',
     nr_duration_ms = 0, nr_rate_limited = True\<rparr>"

definition failed_result :: "string \<Rightarrow> raised \<Rightarrow> time \<Rightarrow> time \<Rightarrow> notify_result" where
  "failed_result name e t0 t1 = \<lparr>nr_channel = name, nr_sent = False,
     nr_error = Some (fst e @ '': '' @ snd e), nr_duration_ms = (t1 - t0) div 1000, nr_rate_limited = False\<rparr>"

definition backfilled :: "string \<Rightarrow> time \<Rightarrow> time \<Rightarrow> notify_result" where
  "backfilled name t0 t1 = (sent_result name)\<lparr>nr_duration_ms := (t1 - t0) div 1000\<rparr>"

definition notify_channel :: "notify_env \<Rightarrow> notification_event \<Rightarrow> string list \<Rightarrow> nat \<Rightarrow> channel \<Rightarrow> notifier \<Rightarrow>
    notify_result \<times> notifier" where
  "notify_channel E ev recipients i ch s =
     (let (t0, t1) = ne_clock E i;
          rkey = rate_key_of ev (if length recipients = 1 then hd recipients else ch_name ch) in
      if is_rate_limited (ne_rate E) t0 rkey s then (limited_result (ch_name ch), s)
      else case channel_send (ne_transports E) ch ev of
        Inl e \<Rightarrow> (failed_result (ch_name ch) e t0 t1, s)
      | Inr p \<Rightarrow> (backfilled (ch_name ch) t0 t1,
          (mark_sent (ne_rate E) t1 rkey s)\<lparr>nf_out := nf_out s @
             [\<lparr>dl_channel = ch_name ch, dl_key = rkey, dl_before = t0, dl_after = t1, dl_payload = p\<rparr>]\<rparr>))"

fun notify_loop :: "notify_env \<Rightarrow> notification_event \<Rightarrow> string list \<Rightarrow> nat \<Rightarrow> channel list \<Rightarrow> notifier \<Rightarrow>
    notify_result list \<times> notifier" where
  "notify_loop E ev recipients i [] s = ([], s)"
| "notify_loop E ev recipients i (ch # chs) s =
     (let (r, s1) = notify_channel E ev recipients i ch s;
          (rs, s2) = notify_loop E ev recipients (Suc i) chs s1 in (r # rs, s2))"

definition recipients_of :: "string list option \<Rightarrow> channel list \<Rightarrow> string list" where
  "recipients_of audience chs = (case audience of None \<Rightarrow> map ch_name chs
     | Some a \<Rightarrow> if a = [] then map ch_name chs else a)"

definition notify :: "notify_env \<Rightarrow> notification_event \<Rightarrow> string list option \<Rightarrow> notifier \<Rightarrow>
    notify_result list \<times> notifier" where
  "notify E ev audience s =
     notify_loop E ev (recipients_of audience (nf_channels s)) 0 (nf_channels s) s"

definition add_channel :: "channel \<Rightarrow> notifier \<Rightarrow> notifier" where
  "add_channel ch s = s\<lparr>nf_channels := nf_channels s @ [ch]\<rparr>"

definition clear_rate_log :: "notifier \<Rightarrow> notifier" where
  "clear_rate_log s = s\<lparr>nf_rate_log := []\<rparr>"

section \<open>Configuration\<close>

text \<open>\<open>Value_error\<close> also stands for the \<open>OverflowError\<close> of \<open>int\<close> on an infinity.\<close>

datatype config_error = Attribute_error | Type_error | Value_error

text \<open>
  \<open>ce_trunc\<close> is \<open>int\<close> of a float literal (\<open>None\<close> for infinities and not-a-number), \<open>ce_get_secret\<close>
  what reading a path from the secret store gives, \<open>ce_loop_running\<close> whether an event loop runs, \<open>ce_expand\<close> is \<open>expanduser\<close> and \<open>ce_log_path\<close> the default path of the log.
\<close>

record config_env =
  ce_trunc :: "string \<Rightarrow> int option"
  ce_loop_running :: bool
  ce_get_secret :: "json \<Rightarrow> (secret_error, string) res"
  ce_expand :: "string \<Rightarrow> string option"
  ce_log_path :: string

definition int_of_json :: "config_env \<Rightarrow> json \<Rightarrow> (config_error, int) res" where
  "int_of_json C j = (case j of
     JInt n \<Rightarrow> Inr n | JBool b \<Rightarrow> Inr (if b then 1 else 0)
   | JStr s \<Rightarrow> (case py_int s of Some n \<Rightarrow> Inr n | None \<Rightarrow> Inl Value_error)
   | JFloat s \<Rightarrow> (case ce_trunc C s of Some n \<Rightarrow> Inr n | None \<Rightarrow> Inl Value_error)
   | _ \<Rightarrow> Inl Type_error)"

text \<open>Iteration over a value, \<open>list(x or [])\<close>, and \<open>dict(x or {})\<close>, whose pairs may be lists, texts or dictionaries of two.\<close>

definition iter_json :: "json \<Rightarrow> (config_error, json list) res" where
  "iter_json j = (case j of JList xs \<Rightarrow> Inr xs | JStr s \<Rightarrow> Inr (map (\<lambda>c. JStr [c]) s)
     | JDict d \<Rightarrow> Inr (map (\<lambda>kv. JStr (fst kv)) d) | _ \<Rightarrow> Inl Type_error)"

definition list_or_empty :: "json \<Rightarrow> (config_error, json list) res" where
  "list_or_empty j = (if truthy j then iter_json j else Inr [])"

definition hashable :: "json \<Rightarrow> bool" where
  "hashable j \<longleftrightarrow> \<not> is_list j \<and> \<not> is_dict j"

definition pair_of :: "json \<Rightarrow> (config_error, json \<times> json) res" where
  "pair_of j = rbind (iter_json j) (\<lambda>xs. case xs of
     [k, v] \<Rightarrow> if hashable k then Inr (k, v) else Inl Type_error | _ \<Rightarrow> Inl Value_error)"

definition dict_or_empty :: "json \<Rightarrow> (config_error, (json, json) dict) res" where
  "dict_or_empty j =
     (if \<not> truthy j then Inr []
      else case j of JDict d \<Rightarrow> Inr (map (\<lambda>(k, v). (JStr k, v)) d)
      | _ \<Rightarrow> rbind (iter_json j) (\<lambda>xs. rbind (rmap pair_of xs) (\<lambda>kvs.
               Inr (fold (\<lambda>(k, v) d. AList.update k v d) kvs []))))"

text \<open>Inside a running event loop a channel gets no credential at all.\<close>

definition fetch_secret :: "config_env \<Rightarrow> json \<Rightarrow> string option" where
  "fetch_secret C path = (if ce_loop_running C then None
     else case ce_get_secret C path of Inr v \<Rightarrow> Some v | Inl _ \<Rightarrow> None)"

definition json_of_secret :: "string option \<Rightarrow> json" where
  "json_of_secret v = (case v of None \<Rightarrow> JNull | Some s \<Rightarrow> JStr s)"

definition arg_or_secret :: "config_env \<Rightarrow> json \<Rightarrow> string \<Rightarrow> json" where
  "arg_or_secret C j path = (if truthy j then j else json_of_secret (fetch_secret C (JStr path)))"

text \<open>A call \<open>cls(**cfg)\<close> with an argument the constructor does not have is a \<open>TypeError\<close>.\<close>

definition only_args :: "string list \<Rightarrow> (string, json) dict \<Rightarrow> (config_error, unit) res" where
  "only_args names cfg = (if list_all (\<lambda>kv. fst kv \<in> set names) cfg then Inr () else Inl Type_error)"

subsection \<open>Constructors\<close>

definition stdout_new :: "(string, json) dict \<Rightarrow> (config_error, channel) res" where
  "stdout_new cfg = rbind (only_args [''stream''] cfg) (\<lambda>_.
     Inr (Stdout_channel (dict_get cfg ''stream'' (JStr ''stdout'') = JStr ''stderr'')))"

definition file_new :: "config_env \<Rightarrow> (string, json) dict \<Rightarrow> (config_error, channel) res" where
  "file_new C cfg = rbind (only_args [''path''] cfg) (\<lambda>_.
     let p = dict_get cfg ''path'' JNull in
     rbind (if truthy p then case p of JStr s \<Rightarrow> Inr s | _ \<Rightarrow> Inl Type_error else Inr (ce_log_path C)) (\<lambda>path.
     case ce_expand C path of Some q \<Rightarrow> Inr (File_channel q) | None \<Rightarrow> Inl Value_error))"

definition slack_new :: "config_env \<Rightarrow> (string, json) dict \<Rightarrow> (config_error, channel) res" where
  "slack_new C cfg = rbind (only_args [''webhook_url'', ''timeout_seconds''] cfg) (\<lambda>_.
     rbind (int_of_json C (dict_get cfg ''timeout_seconds'' (JInt 5))) (\<lambda>timeout.
     Inr (Slack_channel (arg_or_secret C (dict_get cfg ''webhook_url'' JNull) ''notify/slack/webhook_url'') timeout)))"

definition email_new :: "config_env \<Rightarrow> (string, json) dict \<Rightarrow> (config_error, channel) res" where
  "email_new C cfg =
     rbind (only_args [''host'', ''port'', ''username'', ''password'', ''sender'', ''recipients'', ''use_tls'',
                       ''timeout_seconds''] cfg) (\<lambda>_.
     rbind (int_of_json C (dict_get cfg ''port'' (JInt 587))) (\<lambda>port.
     let username = dict_get cfg ''username'' JNull;
         password = arg_or_secret C (dict_get cfg ''password'' JNull) ''notify/smtp/password'';
         sender = dict_get cfg ''sender'' JNull in
     rbind (list_or_empty (dict_get cfg ''recipients'' JNull)) (\<lambda>recipients.
     rbind (int_of_json C (dict_get cfg ''timeout_seconds'' (JInt 10))) (\<lambda>timeout.
     Inr (Email_channel (dict_get cfg ''host'' JNull) port username password
            (if truthy sender then sender else username) recipients
            (truthy (dict_get cfg ''use_tls'' (JBool True))) timeout)))))"

definition system_new :: "config_env \<Rightarrow> (string, json) dict \<Rightarrow> (config_error, channel) res" where
  "system_new C cfg = rbind (only_args [''timeout_seconds''] cfg) (\<lambda>_.
     rbind (int_of_json C (dict_get cfg ''timeout_seconds'' (JInt 5))) (\<lambda>timeout. Inr (System_channel timeout)))"

definition set_default :: "json \<Rightarrow> json \<Rightarrow> (json, json) dict \<Rightarrow> (json, json) dict" where
  "set_default k v d = (case map_of d k of None \<Rightarrow> d @ [(k, v)] | Some _ \<Rightarrow> d)"

definition webhook_headers :: "config_env \<Rightarrow> json \<Rightarrow> (json, json) dict \<Rightarrow> (json, json) dict" where
  "webhook_headers C path headers =
     (if truthy path then case fetch_secret C path of
        Some token \<Rightarrow> if token = [] then headers
          else set_default (JStr ''Authorization'') (JStr (''Bearer '' @ token)) headers
      | None \<Rightarrow> headers else headers)"

definition webhook_new :: "config_env \<Rightarrow> (string, json) dict \<Rightarrow> (config_error, channel) res" where
  "webhook_new C cfg =
     rbind (only_args [''url'', ''headers'', ''method'', ''timeout_seconds'', ''auth_secret_path''] cfg) (\<lambda>_.
     rbind (case map_of cfg ''url'' of None \<Rightarrow> Inl Type_error
            | Some u \<Rightarrow> if truthy u then Inr u else Inl Value_error) (\<lambda>url.
     rbind (dict_or_empty (dict_get cfg ''headers'' JNull)) (\<lambda>headers.
     rbind (case dict_get cfg ''method'' (JStr ''POST'') of
              JStr m \<Rightarrow> Inr (map py_upper_char m) | _ \<Rightarrow> Inl Attribute_error) (\<lambda>verb.
     rbind (int_of_json C (dict_get cfg ''timeout_seconds'' (JInt 5))) (\<lambda>timeout.
     Inr (Webhook_channel url (webhook_headers C (dict_get cfg ''auth_secret_path'' JNull) headers) verb timeout))))))"

definition noop_new :: "(string, json) dict \<Rightarrow> (config_error, channel) res" where
  "noop_new cfg = rbind (only_args [''label''] cfg) (\<lambda>_.
     case dict_get cfg ''label'' (JStr ''noop'') of JStr s \<Rightarrow> Inr (NoOp_channel s) | _ \<Rightarrow> Inl Type_error)"

definition twilio_new :: "config_env \<Rightarrow> string \<Rightarrow> (json list \<Rightarrow> json \<Rightarrow> json \<Rightarrow> json \<Rightarrow> int \<Rightarrow> channel) \<Rightarrow>
    (string, json) dict \<Rightarrow> (config_error, channel) res" where
  "twilio_new C from_path cls cfg =
     rbind (only_args [''recipients'', ''from_number'', ''timeout_seconds''] cfg) (\<lambda>_.
     rbind (list_or_empty (dict_get cfg ''recipients'' JNull)) (\<lambda>recipients.
     rbind (int_of_json C (dict_get cfg ''timeout_seconds'' (JInt 10))) (\<lambda>timeout.
     Inr (cls recipients (arg_or_secret C (dict_get cfg ''from_number'' JNull) from_path)
            (json_of_secret (fetch_secret C (JStr ''notify/twilio/account_sid'')))
            (json_of_secret (fetch_secret C (JStr ''notify/twilio/auth_token''))) timeout))))"

definition sms_new :: "config_env \<Rightarrow> (string, json) dict \<Rightarrow> (config_error, channel) res" where
  "sms_new C = twilio_new C ''notify/twilio/from_number'' SMS_channel"

definition whatsapp_new :: "config_env \<Rightarrow> (string, json) dict \<Rightarrow> (config_error, channel) res" where
  "whatsapp_new C = twilio_new C ''notify/twilio/whatsapp_from'' WhatsApp_channel"

definition teams_new :: "config_env \<Rightarrow> (string, json) dict \<Rightarrow> (config_error, channel) res" where
  "teams_new C cfg = rbind (only_args [''webhook_url'', ''timeout_seconds''] cfg) (\<lambda>_.
     rbind (int_of_json C (dict_get cfg ''timeout_seconds'' (JInt 5))) (\<lambda>timeout.
     Inr (Teams_channel (arg_or_secret C (dict_get cfg ''webhook_url'' JNull) ''notify/teams/webhook_url'') timeout)))"

definition pagerduty_new :: "config_env \<Rightarrow> (string, json) dict \<Rightarrow> (config_error, channel) res" where
  "pagerduty_new C cfg = rbind (only_args [''routing_key'', ''dedup_strategy'', ''timeout_seconds''] cfg) (\<lambda>_.
     rbind (int_of_json C (dict_get cfg ''timeout_seconds'' (JInt 5))) (\<lambda>timeout.
     Inr (PagerDuty_channel (arg_or_secret C (dict_get cfg ''routing_key'' JNull) ''notify/pagerduty/routing_key'')
            (dict_get cfg ''dedup_strategy'' (JStr ''event_then_project'')) timeout)))"

definition channel_class :: "config_env \<Rightarrow> string \<Rightarrow> ((string, json) dict \<Rightarrow> (config_error, channel) res) option" where
  "channel_class C kind = map_of
     [(''email'', email_new C), (''slack'', slack_new C), (''system'', system_new C),
      (''webhook'', webhook_new C), (''stdout'', stdout_new), (''file'', file_new C), (''noop'', noop_new),
      (''sms'', sms_new C), (''whatsapp'', whatsapp_new C), (''teams'', teams_new C),
      (''pagerduty'', pagerduty_new C)] kind"

subsection \<open>Building a notifier\<close>

text \<open>\<open>Inl\<close> is an exception that leaves \<open>_build_channel\<close>, \<open>Inr None\<close> a channel that is skipped.\<close>

definition build_channel :: "config_env \<Rightarrow> json \<Rightarrow> (config_error, channel option) res" where
  "build_channel C spec =
     (case (if truthy spec then spec else JDict []) of
        JDict d \<Rightarrow> (case dict_get d ''type'' (JStr []) of
          JStr ty \<Rightarrow>
            let kind = py_lower (py_strip ty) in
            if kind = [] \<or> \<not> truthy (dict_get d ''enabled'' (JBool True)) then Inr None
            else (case channel_class C kind of
              None \<Rightarrow> Inr None
            | Some cls \<Rightarrow> (case cls (filter (\<lambda>kv. fst kv \<notin> {''type'', ''enabled''}) d) of
                Inl _ \<Rightarrow> Inr None | Inr ch \<Rightarrow> Inr (Some ch)))
        | _ \<Rightarrow> Inl Attribute_error)
      | _ \<Rightarrow> Inl Attribute_error)"

definition DEFAULT_RATE_LIMIT_SECONDS :: int where
  "DEFAULT_RATE_LIMIT_SECONDS = 300"

definition notifier_from_block :: "config_env \<Rightarrow> json \<Rightarrow> rate_row list \<Rightarrow> (config_error, notifier) res" where
  "notifier_from_block C blk table = (case blk of
     JDict cfg \<Rightarrow>
       rbind (list_or_empty (dict_get cfg ''channels'' JNull)) (\<lambda>specs.
       rbind (rmap (build_channel C) specs) (\<lambda>built.
       rbind (int_of_json C (dict_get cfg ''rate_limit_window_seconds'' (JInt DEFAULT_RATE_LIMIT_SECONDS))) (\<lambda>window.
       let chans = map the (filter (\<lambda>c. c \<noteq> None) built) in
       Inr (notifier_init (if chans = [] then [Stdout_channel False] else chans) window table))))
   | _ \<Rightarrow> Inl Attribute_error)"

datatype config_file = Config_missing | Config_unparsable | Config_parsed json

definition from_config :: "config_env \<Rightarrow> config_file \<Rightarrow> rate_row list \<Rightarrow> (config_error, notifier) res" where
  "from_config C f table = (case f of
     Config_parsed j \<Rightarrow> notifier_from_block C (if truthy j then j else JDict []) table
   | _ \<Rightarrow> Inr (notifier_init [Stdout_channel False] DEFAULT_RATE_LIMIT_SECONDS table))"

definition from_org_bundle :: "config_env \<Rightarrow> json \<Rightarrow> rate_row list \<Rightarrow> (config_error, notifier) res" where
  "from_org_bundle C bundle table =
     (case (if truthy bundle then bundle else JDict []) of
        JDict d \<Rightarrow> (let n = dict_get d ''notification'' JNull in
          notifier_from_block C (if truthy n then n else JDict []) table)
      | _ \<Rightarrow> Inl Attribute_error)"

section \<open>Memory: at most one delivery per window\<close>

definition spaced :: "int \<Rightarrow> delivery list \<Rightarrow> bool" where
  "spaced window out = sorted_wrt (\<lambda>d e. dl_key d = dl_key e \<longrightarrow> dl_after d + window * 1000000 \<le> dl_before e) out"

definition log_covers :: "notifier \<Rightarrow> bool" where
  "log_covers s \<longleftrightarrow> (\<forall>d \<in> set (nf_out s). \<exists>t. map_of (nf_rate_log s) (dl_key d) = Some t \<and> dl_after d \<le> t)"

definition clock_ok :: "notify_env \<Rightarrow> bool" where
  "clock_ok E \<longleftrightarrow> (\<forall>i. fst (ne_clock E i) \<le> snd (ne_clock E i))"

lemma mark_sent_fields [simp]:
  "nf_rate_log (mark_sent E now key s) = AList.update key now (nf_rate_log s)"
  "nf_window (mark_sent E now key s) = nf_window s"
  "nf_channels (mark_sent E now key s) = nf_channels s"
  "nf_out (mark_sent E now key s) = nf_out s"
  by (simp_all add: mark_sent_def)

lemma notify_channel_cases:
  obtains (Limited) "is_rate_limited (ne_rate E) (fst (ne_clock E i))
        (rate_key_of ev (if length rs = 1 then hd rs else ch_name ch)) s"
      "notify_channel E ev rs i ch s = (limited_result (ch_name ch), s)"
  | (Failed) e where "\<not> is_rate_limited (ne_rate E) (fst (ne_clock E i))
        (rate_key_of ev (if length rs = 1 then hd rs else ch_name ch)) s"
      "channel_send (ne_transports E) ch ev = Inl e"
      "notify_channel E ev rs i ch s =
         (failed_result (ch_name ch) e (fst (ne_clock E i)) (snd (ne_clock E i)), s)"
  | (Sent) p where "\<not> is_rate_limited (ne_rate E) (fst (ne_clock E i))
        (rate_key_of ev (if length rs = 1 then hd rs else ch_name ch)) s"
      "channel_send (ne_transports E) ch ev = Inr p"
      "notify_channel E ev rs i ch s =
         (backfilled (ch_name ch) (fst (ne_clock E i)) (snd (ne_clock E i)),
          (mark_sent (ne_rate E) (snd (ne_clock E i))
             (rate_key_of ev (if length rs = 1 then hd rs else ch_name ch)) s)
          \<lparr>nf_out := nf_out s @ [\<lparr>dl_channel = ch_name ch,
             dl_key = rate_key_of ev (if length rs = 1 then hd rs else ch_name ch),
             dl_before = fst (ne_clock E i), dl_after = snd (ne_clock E i), dl_payload = p\<rparr>]\<rparr>)"
  by (cases "is_rate_limited (ne_rate E) (fst (ne_clock E i))
        (rate_key_of ev (if length rs = 1 then hd rs else ch_name ch)) s";
      cases "channel_send (ne_transports E) ch ev")
    (auto simp: notify_channel_def Let_def split_beta)

lemma not_limited_gap:
  assumes "\<not> is_rate_limited E now k s" "log_covers s" "d \<in> set (nf_out s)" "dl_key d = k"
  shows "dl_after d + nf_window s * 1000000 \<le> now"
proof -
  from assms(2-4) obtain t where t: "map_of (nf_rate_log s) k = Some t" "dl_after d \<le> t"
    by (auto simp: log_covers_def)
  moreover from assms(1) t(1) have "\<not> now - t < nf_window s * 1000000"
    by (simp add: is_rate_limited_def memory_limited_def)
  ultimately show ?thesis by linarith
qed

definition notifier_inv :: "notifier \<Rightarrow> bool" where
  "notifier_inv s \<longleftrightarrow> 0 \<le> nf_window s \<and> log_covers s \<and> spaced (nf_window s) (nf_out s)"

lemma notifier_inv_channel:
  assumes "notifier_inv s" "clock_ok E"
  shows "notifier_inv (snd (notify_channel E ev rs i ch s)) \<and>
    nf_window (snd (notify_channel E ev rs i ch s)) = nf_window s \<and>
    nf_channels (snd (notify_channel E ev rs i ch s)) = nf_channels s"
proof (cases rule: notify_channel_cases [where E = E and ev = ev and rs = rs and i = i and ch = ch and s = s])
  case (Sent p)
  let ?k = "rate_key_of ev (if length rs = 1 then hd rs else ch_name ch)"
  let ?t0 = "fst (ne_clock E i)" and ?t1 = "snd (ne_clock E i)"
  have clk: "?t0 \<le> ?t1" using assms(2) by (simp add: clock_ok_def)
  have cov: "log_covers s" and w: "0 \<le> nf_window s" and sp: "spaced (nf_window s) (nf_out s)"
    using assms(1) by (simp_all add: notifier_inv_def)
  have gap: "dl_after d + nf_window s * 1000000 \<le> ?t0" if "d \<in> set (nf_out s)" "dl_key d = ?k" for d
    using not_limited_gap [OF Sent(1) cov that] .
  have "dl_after d \<le> ?t1" if "d \<in> set (nf_out s)" "dl_key d = ?k" for d
    using gap [OF that] clk w by linarith
  with cov gap sp w show ?thesis
    by (auto simp: Sent(3) notifier_inv_def log_covers_def spaced_def sorted_wrt_append dict_simps)
qed (use assms in auto)

lemma notifier_inv_loop:
  assumes "notifier_inv s" "clock_ok E"
  shows "notifier_inv (snd (notify_loop E ev rs i chs s)) \<and>
    nf_window (snd (notify_loop E ev rs i chs s)) = nf_window s \<and>
    nf_channels (snd (notify_loop E ev rs i chs s)) = nf_channels s"
  using assms
proof (induction chs arbitrary: i s)
  case (Cons ch chs)
  then show ?case
    using notifier_inv_channel [OF Cons.prems, of ev rs i ch]
      Cons.IH [of "snd (notify_channel E ev rs i ch s)" "Suc i"]
    by (simp add: Let_def split_beta)
qed simp

text \<open>The calls on a notifier: each notification has its own environment and clock.\<close>

datatype notifier_op = Op_notify notify_env notification_event "string list option" | Op_add_channel channel

fun notifier_step :: "notifier_op \<Rightarrow> notifier \<Rightarrow> notifier" where
  "notifier_step (Op_notify E ev audience) s = snd (notify E ev audience s)"
| "notifier_step (Op_add_channel ch) s = add_channel ch s"

fun op_clock_ok :: "notifier_op \<Rightarrow> bool" where
  "op_clock_ok (Op_notify E ev audience) = clock_ok E"
| "op_clock_ok (Op_add_channel ch) = True"

lemma notifier_inv_step:
  "notifier_inv s \<Longrightarrow> op_clock_ok op \<Longrightarrow> notifier_inv (notifier_step op s) \<and> nf_window (notifier_step op s) = nf_window s"
proof (cases op)
  case (Op_add_channel ch)
  moreover assume "notifier_inv s"
  ultimately show ?thesis by (simp add: add_channel_def notifier_inv_def log_covers_def)
qed (simp add: notify_def notifier_inv_loop)

lemma notifier_inv_run:
  "notifier_inv s \<Longrightarrow> \<forall>op \<in> set ops. op_clock_ok op \<Longrightarrow>
   notifier_inv (fold notifier_step ops s) \<and> nf_window (fold notifier_step ops s) = nf_window s"
  by (induction ops arbitrary: s) (auto dest: notifier_inv_step)

lemma notifier_inv_init: "0 \<le> window \<Longrightarrow> notifier_inv (notifier_init chs window table)"
  by (simp add: notifier_inv_def notifier_init_def log_covers_def spaced_def)

section \<open>Ledger: what a check sees\<close>

text \<open>
  The ledger identifies a rate key by its flag name and the recipient hash. The event names have no dot,
  so the flag name determines the recipient and the event; the joined key then determines the project.
\<close>

definition rate_key_ok :: "rate_key \<Rightarrow> bool" where
  "rate_key_ok k \<longleftrightarrow> key_event k \<in> range event_name \<and> key_recipient k \<noteq> []"

lemma event_name_no_dot: "CHR ''.'' \<notin> set (event_name e)"
  by (cases e) auto

lemma event_name_nonempty [simp]: "event_name e \<noteq> []" "[] \<noteq> event_name e"
  by (cases e; simp)+

lemma append_sep_inj:
  assumes "a @ c # x = b @ c # y" "c \<notin> set x" "c \<notin> set y"
  shows "a = b \<and> x = y"
proof -
  have "rev (a @ c # x) = rev (b @ c # y)" using assms(1) by simp
  then have "rev x @ c # rev a = rev y @ c # rev b" by simp
  then have "rev x = rev y \<and> rev a = rev b" using assms(2,3) by (simp add: cut_at_inj)
  then show ?thesis by simp
qed

lemma flag_name_inj:
  assumes "''notify.'' @ a @ ''.'' @ event_name e = ''notify.'' @ b @ ''.'' @ event_name f"
  shows "a = b \<and> event_name e = event_name f"
proof -
  from assms have "a @ CHR ''.'' # event_name e = b @ CHR ''.'' # event_name f" by simp
  from append_sep_inj [OF this event_name_no_dot event_name_no_dot] show ?thesis .
qed

lemma ledger_key_inj:
  assumes "rate_key_ok k" "rate_key_ok l" "join_key k = join_key l"
    and "rl_flag_name (key_recipient k) (key_event k) = rl_flag_name (key_recipient l) (key_event l)"
  shows "k = l"
proof -
  obtain e p r where k: "k = (event_name e, p, r)" and r: "r \<noteq> []"
    using assms(1) by (cases k) (auto simp: rate_key_ok_def)
  obtain f q t where l: "l = (event_name f, q, t)" and t: "t \<noteq> []"
    using assms(2) by (cases l) (auto simp: rate_key_ok_def)
  have "''notify.'' @ r @ ''.'' @ event_name e = ''notify.'' @ t @ ''.'' @ event_name f"
    using assms(4) k l r t by (simp add: rl_flag_name_def)
  then have "r = t" "event_name e = event_name f" using flag_name_inj by blast+
  with assms(3) k l show ?thesis by simp
qed

definition key_flag :: "rate_key \<Rightarrow> string" where
  "key_flag k = ''notify.'' @ key_recipient k @ ''.'' @ key_event k"

text \<open>
  What exactness asks of the parameters for the keys in \<open>K\<close>: the database answers, psql reads the
  quoted flag names and hashes back, and the first eight bytes of the digest tell the joined keys apart.
\<close>

definition ledger_faithful :: "rate_env \<Rightarrow> rate_key set \<Rightarrow> bool" where
  "ledger_faithful E K \<longleftrightarrow> re_up E \<and>
     (\<forall>k \<in> K. rate_key_ok k \<and> re_read E (quote_value (key_flag k)) = Some (key_flag k) \<and>
        re_read E (quote_value (rl_recipient_hash E (join_key k))) = Some (rl_recipient_hash E (join_key k))) \<and>
     inj_on (\<lambda>s. take 8 (re_digest E s)) (join_key ` K)"

lemma recipient_hash_bytes: "rl_recipient_hash E key = bytes_hex (take 8 (re_digest E key))"
proof -
  have "take (2 * n) (bytes_hex b) = bytes_hex (take n b)" for n b
  proof (induction n arbitrary: b)
    case (Suc n)
    then show ?case by (cases b) simp_all
  qed simp
  from this [of 8] show ?thesis by (simp add: rl_recipient_hash_def)
qed

definition mark_row :: "rate_env \<Rightarrow> int \<Rightarrow> rate_key \<Rightarrow> time \<Rightarrow> rate_row" where
  "mark_row E w k t = \<lparr>rr_flag_name = key_flag k, rr_period_start = rl_bucket t w,
     rr_period_end = rl_bucket t w + w, rr_used_value = 1,
     rr_ledger_anchor = take 8 (re_digest E (join_key k))\<rparr>"

definition ledger_mark :: "rate_env \<Rightarrow> int \<Rightarrow> rate_key \<times> time \<Rightarrow> rate_row list \<Rightarrow> rate_row list" where
  "ledger_mark E w m table = run_state (rl_mark E (key_recipient (fst m)) (key_event (fst m)) (join_key (fst m)) w (snd m)) table"

definition bucket_ok :: "int \<Rightarrow> time \<Rightarrow> bool" where
  "bucket_ok w t \<longleftrightarrow> date_ok (rl_bucket t w) \<and> date_ok (rl_bucket t w + w)"

lemma rl_flag_name_ok: "rate_key_ok k \<Longrightarrow> rl_flag_name (key_recipient k) (key_event k) = Inr (key_flag k)"
  by (auto simp: rl_flag_name_def rate_key_ok_def key_flag_def)

lemma ledger_mark_row:
  assumes "ledger_faithful E K" "k \<in> K" "0 < w" "bucket_ok w t"
  shows "ledger_mark E w (k, t) table = table @ [mark_row E w k t]"
  using assms
  by (simp add: ledger_mark_def rl_mark_def eff_simps ledger_faithful_def rl_flag_name_ok rl_period_for_def
      bucket_ok_def Let_def bind_value_def recipient_hash_bytes mark_row_def)

lemma ledger_marks_rows:
  assumes "ledger_faithful E K" "0 < w" "\<forall>(l, t) \<in> set ms. l \<in> K \<and> bucket_ok w t"
  shows "fold (ledger_mark E w) ms table = table @ map (\<lambda>(l, t). mark_row E w l t) ms"
  using assms(3)
proof (induction ms arbitrary: table)
  case (Cons m ms)
  then show ?case using ledger_mark_row [OF assms(1) _ assms(2)] by (cases m) simp
qed simp

lemma mark_row_matches:
  assumes "ledger_faithful E K" "k \<in> K" "l \<in> K"
  shows "rl_row_matches (key_flag k) b (b + w) (rl_recipient_hash E (join_key k)) (mark_row E w l t) \<longleftrightarrow>
    l = k \<and> rl_bucket t w = b"
proof
  assume m: "rl_row_matches (key_flag k) b (b + w) (rl_recipient_hash E (join_key k)) (mark_row E w l t)"
  then have "take 8 (re_digest E (join_key l)) = take 8 (re_digest E (join_key k))"
    by (simp add: rl_row_matches_def mark_row_def recipient_hash_bytes bytes_hex_inj)
  with assms have "join_key l = join_key k"
    by (auto simp: ledger_faithful_def dest: inj_onD)
  moreover have "rl_flag_name (key_recipient l) (key_event l) = rl_flag_name (key_recipient k) (key_event k)"
    using m assms by (simp add: rl_row_matches_def mark_row_def ledger_faithful_def rl_flag_name_ok)
  ultimately have "l = k" using assms ledger_key_inj unfolding ledger_faithful_def by blast
  with m show "l = k \<and> rl_bucket t w = b" by (simp add: rl_row_matches_def mark_row_def)
qed (simp add: rl_row_matches_def mark_row_def recipient_hash_bytes)

lemma rl_check_rows:
  assumes "ledger_faithful E K" "k \<in> K" "bucket_ok w now"
  shows "rl_check E (key_recipient k) (key_event k) (join_key k) w now table =
    Inr (list_ex (rl_row_matches (key_flag k) (rl_bucket now w) (rl_bucket now w + w)
      (rl_recipient_hash E (join_key k))) table)"
  using assms
  by (simp add: rl_check_def ledger_faithful_def rl_flag_name_ok rl_period_for_def bucket_ok_def Let_def bind_value_def)

text \<open>
  The ledger is exact: after any list of marks with one window, a check answers yes precisely when
  one of them was for the same rate key and fell into the same bucket.
\<close>

theorem rate_ledger_exact:
  assumes "ledger_faithful E K" "0 < w" "k \<in> K" "bucket_ok w now"
    and "\<forall>(l, t) \<in> set ms. l \<in> K \<and> bucket_ok w t"
  shows "rl_check E (key_recipient k) (key_event k) (join_key k) w now (fold (ledger_mark E w) ms []) =
    Inr (\<exists>(l, t) \<in> set ms. l = k \<and> rl_bucket t w = rl_bucket now w)"
  using assms mark_row_matches [OF assms(1,3)]
  by (auto simp: rl_check_rows [OF assms(1,3,4)] ledger_marks_rows list_ex_iff split_beta)

text \<open>
  Claim C11. Within the life of one \<open>Notifier\<close> object that is used for one call at a time, whatever
  notifications it is asked to send, whatever channels are added and however slow they are, two of its
  deliveries for the same event type, project and recipient are a whole window apart: the later one is checked at
  least a window after the earlier one was recorded. (A second object, such as the one that the
  recovery code makes for each message, starts with an empty log of its own.)
\<close>

theorem one_delivery_per_window:
  assumes "0 \<le> window" "\<forall>op \<in> set ops. op_clock_ok op"
  shows "spaced window (nf_out (fold notifier_step ops (notifier_init chs window table)))"
proof -
  have "nf_window (notifier_init chs window table) = window" by (simp add: notifier_init_def)
  then show ?thesis
    using notifier_inv_run [OF notifier_inv_init [OF assms(1), of chs table] assms(2)]
    unfolding notifier_inv_def by metis
qed

text \<open>
  The ledger does not carry the window over a bucket boundary: one microsecond after a
  delivery was recorded, a restarted process or another hub that shares the table may send the same
  notification again.
\<close>

theorem restart_resends_at_boundary:
  assumes "ledger_faithful E K" "k \<in> K" "0 < w" "2 * w \<le> 253402300799"
  shows "\<not> is_rate_limited E (w * 1000000) k (notifier_init chs w (ledger_mark E w (k, w * 1000000 - 1) []))"
proof -
  have "w * 1000000 - 1 = 999999 + (w - 1) * (1000000 :: int)" by simp
  then have e: "(w * 1000000 - 1) div 1000000 = w - 1" by (simp only: div_mult_self1)
  have b0: "rl_bucket (w * 1000000 - 1) w = 0" and b1: "rl_bucket (w * 1000000) w = w"
    using assms(3) by (simp_all add: rl_bucket_def Let_def e max_def)
  have ok: "bucket_ok w (w * 1000000 - 1)" "bucket_ok w (w * 1000000)"
    using assms(3,4) by (simp_all add: bucket_ok_def b0 b1 date_ok_def)
  have "rl_check E (key_recipient k) (key_event k) (join_key k) w (w * 1000000)
      (fold (ledger_mark E w) [(k, w * 1000000 - 1)] []) = Inr False"
    using b0 b1 assms(3) mark_row_matches [OF assms(1,2,2), of w w "w * 1000000 - 1"]
    by (simp add: rl_check_rows [OF assms(1,2) ok(2)] ledger_mark_row [OF assms(1-3) ok(1)])
  then show ?thesis
    by (simp add: is_rate_limited_def memory_limited_def ledger_limited_def notifier_init_def)
qed

section \<open>Fan-out\<close>

definition channel_outcome :: "notify_env \<Rightarrow> notification_event \<Rightarrow> notifier \<Rightarrow> nat \<Rightarrow> channel \<Rightarrow> notify_result" where
  "channel_outcome E ev s i ch =
     (if is_rate_limited (ne_rate E) (fst (ne_clock E i)) (rate_key_of ev (ch_name ch)) s
      then limited_result (ch_name ch)
      else case channel_send (ne_transports E) ch ev of
        Inl e \<Rightarrow> failed_result (ch_name ch) e (fst (ne_clock E i)) (snd (ne_clock E i))
      | Inr p \<Rightarrow> backfilled (ch_name ch) (fst (ne_clock E i)) (snd (ne_clock E i)))"

text \<open>psql reads the flag names of the channels back.\<close>

definition flags_read :: "rate_env \<Rightarrow> notification_event \<Rightarrow> channel list \<Rightarrow> bool" where
  "flags_read E ev chs \<longleftrightarrow> (\<forall>ch \<in> set chs. let f = key_flag (rate_key_of ev (ch_name ch)) in
     re_read E (quote_value f) = Some f)"

lemma list_ex_snoc: "list_ex P (xs @ [x]) \<longleftrightarrow> list_ex P xs \<or> P x"
  by (auto simp: list_ex_iff)

lemma rl_mark_rows:
  "run_state (rl_mark E c e key w now) table = table \<or>
   (\<exists>f st en b. rl_flag_name c e = Inr f \<and> (\<exists>g. bind_value E f = Some g \<and>
      run_state (rl_mark E c e key w now) table =
        table @ [\<lparr>rr_flag_name = g, rr_period_start = st, rr_period_end = en, rr_used_value = 1, rr_ledger_anchor = b\<rparr>]))"
  by (auto simp: rl_mark_def eff_simps split: sum.split prod.split option.split)

lemma ledger_limited_mark_other:
  assumes "r \<noteq> r'" and read: "bind_value E (key_flag (rate_key_of ev r)) = None \<or>
      bind_value E (key_flag (rate_key_of ev r)) \<noteq> bind_value E (key_flag (rate_key_of ev r'))"
  shows "ledger_limited E now (rate_key_of ev r) (mark_sent E t (rate_key_of ev r') s) =
    ledger_limited E now (rate_key_of ev r) s"
proof -
  let ?e = "event_name (ev_event_type ev)"
  let ?tb = "run_state (rl_mark E r' ?e (join_key (rate_key_of ev r')) (nf_window s) t) (nf_table s)"
  have "rl_check E r ?e key w now ?tb = rl_check E r ?e key w now (nf_table s)" for key w
    using rl_mark_rows [of E r' ?e "join_key (rate_key_of ev r')" "nf_window s" t "nf_table s"]
  proof (elim disjE exE conjE)
    fix f st en b g
    assume f: "rl_flag_name r' ?e = Inr f" and g: "bind_value E f = Some g"
      and tb: "?tb = nf_table s @ [\<lparr>rr_flag_name = g, rr_period_start = st, rr_period_end = en,
        rr_used_value = 1, rr_ledger_anchor = b\<rparr>]"
    have "f = key_flag (rate_key_of ev r')"
      using f by (simp add: rl_flag_name_def key_flag_def rate_key_of_def split: if_splits)
    with g read have "h \<noteq> g" if "rl_flag_name r ?e = Inr f'" "bind_value E f' = Some h" for f' h
      using that by (auto simp: rl_flag_name_def key_flag_def rate_key_of_def split: if_splits)
    then show ?thesis unfolding tb
      by (auto simp: rl_check_def rbind_def list_ex_snoc rl_row_matches_def
          split: sum.split prod.split option.split)
  qed simp
  then show ?thesis by (simp add: ledger_limited_def mark_sent_def rate_key_of_def)
qed

lemma limited_out [simp]: "is_rate_limited E now k (s\<lparr>nf_out := out\<rparr>) = is_rate_limited E now k s"
  by (simp add: is_rate_limited_def memory_limited_def ledger_limited_def cong: option.case_cong)

lemma limited_mark_other:
  assumes "r \<noteq> r'" "re_read E (quote_value (key_flag (rate_key_of ev r))) = Some (key_flag (rate_key_of ev r))"
    "re_read E (quote_value (key_flag (rate_key_of ev r'))) = Some (key_flag (rate_key_of ev r'))"
  shows "is_rate_limited E now (rate_key_of ev r) (mark_sent E t (rate_key_of ev r') s) =
    is_rate_limited E now (rate_key_of ev r) s"
proof -
  have "key_flag (rate_key_of ev r) \<noteq> key_flag (rate_key_of ev r')"
    using assms(1) by (simp add: key_flag_def rate_key_of_def)
  then have "ledger_limited E now (rate_key_of ev r) (mark_sent E t (rate_key_of ev r') s) =
      ledger_limited E now (rate_key_of ev r) s"
    using assms by (intro ledger_limited_mark_other) (auto simp: bind_value_def)
  moreover have "memory_limited now (rate_key_of ev r) (mark_sent E t (rate_key_of ev r') s) =
      memory_limited now (rate_key_of ev r) s"
    using assms(1) by (simp add: memory_limited_def dict_simps rate_key_of_def cong: option.case_cong)
  ultimately show ?thesis by (simp add: is_rate_limited_def)
qed

lemma channel_outcome_step:
  assumes "length rs = 1 \<longrightarrow> hd rs = ch_name ch" "ch_name d \<noteq> ch_name ch" "flags_read (ne_rate E) ev [ch, d]"
  shows "channel_outcome E ev (snd (notify_channel E ev rs i ch s)) j d = channel_outcome E ev s j d"
proof (cases rule: notify_channel_cases [where E = E and ev = ev and rs = rs and i = i and ch = ch and s = s])
  case (Sent p)
  have k: "(if length rs = 1 then hd rs else ch_name ch) = ch_name ch" using assms(1) by simp
  show ?thesis using assms(2,3) unfolding Sent(3) k
    by (simp add: channel_outcome_def flags_read_def Let_def limited_mark_other)
qed simp_all

lemma notify_channel_outcome:
  assumes "length rs = 1 \<longrightarrow> hd rs = ch_name ch"
  shows "fst (notify_channel E ev rs i ch s) = channel_outcome E ev s i ch"
proof -
  have "(if length rs = 1 then hd rs else ch_name ch) = ch_name ch" using assms by simp
  then show ?thesis by (simp add: notify_channel_def channel_outcome_def Let_def split_beta split: sum.split)
qed

lemma notify_loop_outcomes:
  assumes "\<forall>ch \<in> set chs. length rs = 1 \<longrightarrow> hd rs = ch_name ch" "distinct (map ch_name chs)"
    "flags_read (ne_rate E) ev chs"
  shows "fst (notify_loop E ev rs i chs s) = map (\<lambda>(j, ch). channel_outcome E ev s j ch) (enumerate i chs)"
  using assms
proof (induction chs arbitrary: i s)
  case (Cons ch chs)
  let ?s = "snd (notify_channel E ev rs i ch s)"
  have "channel_outcome E ev ?s j d = channel_outcome E ev s j d" if "d \<in> set chs" for j d
  proof (rule channel_outcome_step)
    show "ch_name d \<noteq> ch_name ch" using that Cons.prems(2) by simp (metis image_eqI)
  qed (use that Cons.prems(1,3) in \<open>auto simp: flags_read_def\<close>)
  then have "map (\<lambda>(j, d). channel_outcome E ev ?s j d) (enumerate (Suc i) chs) =
      map (\<lambda>(j, d). channel_outcome E ev s j d) (enumerate (Suc i) chs)"
    by (auto simp: in_set_enumerate_eq)
  moreover have "fst (notify_loop E ev rs (Suc i) chs ?s) =
      map (\<lambda>(j, d). channel_outcome E ev ?s j d) (enumerate (Suc i) chs)"
    using Cons.prems by (intro Cons.IH) (auto simp: flags_read_def)
  ultimately show ?case
    using notify_channel_outcome [of rs ch E ev i s] Cons.prems(1) by (simp add: Let_def split_beta)
qed simp

lemma recipients_of_single:
  assumes "\<forall>a. audience = Some a \<longrightarrow> length a \<noteq> 1" "ch \<in> set chs" "length (recipients_of audience chs) = 1"
  shows "hd (recipients_of audience chs) = ch_name ch"
proof -
  have r: "recipients_of audience chs = map ch_name chs"
    using assms(1,3) by (cases audience) (auto simp: recipients_of_def split: if_splits)
  then obtain c where "chs = [c]" using assms(3) by (auto simp: length_Suc_conv)
  then show ?thesis using assms(2) r by simp
qed

text \<open>
  A notification that is not addressed to a single recipient is a fan-out: with channels of
  different names, each channel's result is what it would be if that channel were the only one, whether
  the others fail, are limited or deliver. One bad channel never breaks the rest.
\<close>

theorem fanout_independent:
  assumes "distinct (map ch_name (nf_channels s))" "flags_read (ne_rate E) ev (nf_channels s)"
    "\<forall>a. audience = Some a \<longrightarrow> length a \<noteq> 1"
  shows "fst (notify E ev audience s) =
    map (\<lambda>(i, ch). channel_outcome E ev s i ch) (enumerate 0 (nf_channels s))"
  unfolding notify_def using recipients_of_single [OF assms(3)]
  by (intro notify_loop_outcomes [OF _ assms(1,2)]) blast

lemma notify_loop_append:
  "notify_loop E ev rs i (xs @ ys) s =
     (let (r1, s1) = notify_loop E ev rs i xs s; (r2, s2) = notify_loop E ev rs (i + length xs) ys s1 in (r1 @ r2, s2))"
  by (induction xs arbitrary: i s) (simp_all add: Let_def split_beta)

lemma notify_loop_failing:
  assumes "\<forall>ch \<in> set chs. \<exists>e. channel_send (ne_transports E) ch ev = Inl e"
  shows "snd (notify_loop E ev rs i chs s) = s \<and> (\<forall>r \<in> set (fst (notify_loop E ev rs i chs s)). \<not> nr_sent r)"
  using assms
proof (induction chs arbitrary: i)
  case (Cons ch chs)
  then show ?case
    by (cases rule: notify_channel_cases [where E = E and ev = ev and rs = rs and i = i and ch = ch and s = s])
      (auto simp: limited_result_def failed_result_def split_beta)
qed simp

lemma notify_loop_limited:
  assumes "\<forall>j \<ge> i. is_rate_limited (ne_rate E) (fst (ne_clock E j)) (rate_key_of ev r) s"
  shows "notify_loop E ev [r] i chs s = (map (\<lambda>ch. limited_result (ch_name ch)) chs, s)"
  using assms
proof (induction chs arbitrary: i)
  case (Cons ch chs)
  have "notify_channel E ev [r] i ch s = (limited_result (ch_name ch), s)"
    using Cons.prems by (simp add: notify_channel_def Let_def split_beta)
  with Cons show ?case by simp
qed simp

text \<open>
  A notification addressed to one recipient reaches it on one channel only: all channels share
  the rate key, so the first delivery silences every channel after it, although \<open>notify\<close> is to fan out
  to every configured channel.
\<close>

theorem single_recipient_one_channel:
  assumes "nf_channels s = pre @ ch # post"
    and "\<forall>c \<in> set pre. \<exists>e. channel_send (ne_transports E) c ev = Inl e"
    and "channel_send (ne_transports E) ch ev = Inr p"
    and "\<not> is_rate_limited (ne_rate E) (fst (ne_clock E (length pre))) (rate_key_of ev r) s"
    and "\<forall>j > length pre. fst (ne_clock E j) - snd (ne_clock E (length pre)) < nf_window s * 1000000"
  shows "filter nr_sent (fst (notify E ev (Some [r]) s)) =
      [backfilled (ch_name ch) (fst (ne_clock E (length pre))) (snd (ne_clock E (length pre)))] \<and>
    drop (Suc (length pre)) (fst (notify E ev (Some [r]) s)) = map (\<lambda>c. limited_result (ch_name c)) post \<and>
    map dl_channel (nf_out (snd (notify E ev (Some [r]) s))) = map dl_channel (nf_out s) @ [ch_name ch]"
proof -
  let ?n = "length pre"
  let ?r1 = "fst (notify_loop E ev [r] 0 pre s)"
  have pre: "snd (notify_loop E ev [r] 0 pre s) = s" "\<forall>q \<in> set ?r1. \<not> nr_sent q"
    using notify_loop_failing [OF assms(2), of "[r]" 0 s] by auto
  have len: "length ?r1 = ?n"
  proof -
    have "length (fst (notify_loop E ev rs i chs t)) = length chs" for rs i chs t
      by (induction chs arbitrary: i t) (simp_all add: Let_def split_beta)
    then show ?thesis .
  qed
  define s1 where "s1 = snd (notify_channel E ev [r] ?n ch s)"
  have step: "fst (notify_channel E ev [r] ?n ch s) = backfilled (ch_name ch) (fst (ne_clock E ?n)) (snd (ne_clock E ?n))"
    "map_of (nf_rate_log s1) (rate_key_of ev r) = Some (snd (ne_clock E ?n))" "nf_window s1 = nf_window s"
    "map dl_channel (nf_out s1) = map dl_channel (nf_out s) @ [ch_name ch]"
    using assms(3,4) by (simp_all add: s1_def notify_channel_def Let_def split_beta dict_simps)
  have "is_rate_limited (ne_rate E) (fst (ne_clock E j)) (rate_key_of ev r) s1" if "j \<ge> Suc ?n" for j
    using assms(5) that step(2,3) by (simp add: is_rate_limited_def memory_limited_def)
  then have rest: "notify_loop E ev [r] (Suc ?n) post s1 = (map (\<lambda>c. limited_result (ch_name c)) post, s1)"
    by (intro notify_loop_limited) blast
  have res: "notify E ev (Some [r]) s = (?r1 @ backfilled (ch_name ch) (fst (ne_clock E ?n)) (snd (ne_clock E ?n)) #
      map (\<lambda>c. limited_result (ch_name c)) post, s1)"
    using rest step(1)
    by (simp add: notify_def recipients_of_def assms(1) notify_loop_append pre(1) s1_def Let_def split_beta)
  have "filter nr_sent ?r1 = []" using pre(2) by simp
  moreover have "filter nr_sent (map (\<lambda>c. limited_result (ch_name c)) post) = []"
    by (simp add: limited_result_def filter_empty_conv)
  ultimately show ?thesis using step(4) len
    by (simp add: res backfilled_def sent_result_def)
qed

section \<open>Configuration: when it returns\<close>

definition spec_ok :: "json \<Rightarrow> bool" where
  "spec_ok spec \<longleftrightarrow> \<not> truthy spec \<or>
     (\<exists>d ty. spec = JDict d \<and> dict_get d ''type'' (JStr []) = JStr ty)"

lemma build_channel_returns: "(\<exists>c. build_channel C spec = Inr c) \<longleftrightarrow> spec_ok spec"
proof (cases "truthy spec")
  case False
  then show ?thesis
    by (simp add: build_channel_def spec_ok_def dict_get_def Let_def py_strip_def py_lower_def)
next
  case True
  show ?thesis
  proof (cases spec)
    case (JDict d)
    have "\<exists>c. (case o' of None \<Rightarrow> Inr None | Some cls \<Rightarrow> (case cls a of Inl _ \<Rightarrow> Inr None | Inr ch \<Rightarrow> Inr (Some ch))) = (Inr c :: (config_error, channel option) res)"
      for o' :: "((string, json) dict \<Rightarrow> (config_error, channel) res) option" and a
      by (simp split: option.split sum.split)
    with JDict True show ?thesis
      by (cases "dict_get d ''type'' (JStr [])") (simp_all add: build_channel_def spec_ok_def Let_def)
  qed (use True in \<open>simp_all add: build_channel_def spec_ok_def\<close>)
qed

lemma rmap_returns: "(\<exists>ys. rmap f xs = Inr ys) \<longleftrightarrow> (\<forall>x \<in> set xs. \<exists>y. f x = Inr y)"
proof (induction xs)
  case (Cons x xs)
  then show ?case by (cases "f x") (auto simp: rbind_eq_Inr)
qed simp

text \<open>
  Loading the notification file returns a notifier exactly when the channels are absent or empty
  or can be iterated with every entry empty or a mapping whose type is text, and the window reads as an
  integer; any other file raises, although loading is documented never to block on misconfiguration. A
  notifier that is returned has at least one channel.
\<close>

theorem from_config_returns_iff:
  assumes "d \<noteq> []"
  shows "((\<exists>n. from_config C (Config_parsed (JDict d)) table = Inr n) \<longleftrightarrow>
      (\<exists>specs. list_or_empty (dict_get d ''channels'' JNull) = Inr specs \<and> (\<forall>spec \<in> set specs. spec_ok spec)) \<and>
      (\<exists>w. int_of_json C (dict_get d ''rate_limit_window_seconds'' (JInt 300)) = Inr w)) \<and>
    (\<forall>n. from_config C (Config_parsed (JDict d)) table = Inr n \<longrightarrow> nf_channels n \<noteq> [])"
proof -
  have fc: "from_config C (Config_parsed (JDict d)) table = notifier_from_block C (JDict d) table"
    using assms by (simp add: from_config_def truthy_def)
  have "(\<exists>bs. rmap (build_channel C) specs = Inr bs) \<longleftrightarrow> (\<forall>spec \<in> set specs. spec_ok spec)" for specs
    by (simp add: rmap_returns build_channel_returns)
  then have "(\<exists>n. from_config C (Config_parsed (JDict d)) table = Inr n) \<longleftrightarrow>
      (\<exists>specs. list_or_empty (dict_get d ''channels'' JNull) = Inr specs \<and> (\<forall>spec \<in> set specs. spec_ok spec)) \<and>
      (\<exists>w. int_of_json C (dict_get d ''rate_limit_window_seconds'' (JInt 300)) = Inr w)"
    unfolding fc notifier_from_block_def DEFAULT_RATE_LIMIT_SECONDS_def
    by (simp add: rbind_eq_Inr Let_def) blast
  moreover have "nf_channels n \<noteq> []" if "from_config C (Config_parsed (JDict d)) table = Inr n" for n
    using that unfolding fc by (auto simp: notifier_from_block_def rbind_eq_Inr Let_def notifier_init_def
        simp del: Nil_is_map_conv map_is_Nil_conv split: if_splits)
  ultimately show ?thesis by blast
qed

section \<open>A notifier at work\<close>

definition demo_rate_env :: rate_env where
  "demo_rate_env = \<lparr>re_digest = (\<lambda>s. s), re_read = Some, re_up = True\<rparr>"

definition demo_key :: rate_key where
  "demo_key = (''verify_failed'', ''p7'', ''slack'')"

definition demo_transports :: transports where
  "demo_transports = \<lparr>tp_requests = True, tp_http = (\<lambda>ch j. Inl ''refused''), tp_compose = (\<lambda>ch a b. None),
     tp_smtp = (\<lambda>ch a b. None), tp_append = (\<lambda>p l. None), tp_platform = ''linux'', tp_helper = Helper_ok,
     tp_model_json = (\<lambda>ev. ''{}''), tp_loads = (\<lambda>s. JDict []), tp_dumps_indent = (\<lambda>d. ''{}'')\<rparr>"

definition demo_notify_env :: "time \<Rightarrow> notify_env" where
  "demo_notify_env t = \<lparr>ne_rate = demo_rate_env, ne_transports = demo_transports, ne_clock = (\<lambda>i. (t, t + 1))\<rparr>"

definition demo_event :: notification_event where
  "demo_event = \<lparr>ev_event_type = Verify_failed, ev_project_id = ''p7'', ev_project_name = ''Seven'',
     ev_phase = ''verify'', ev_actor = None, ev_summary = ''tests fail'', ev_detail_url = None,
     ev_severity = Sev_critical, ev_metadata = [], ev_emitted_at = 0\<rparr>"

definition demo_channels :: "channel list" where
  "demo_channels = [Slack_channel (JStr ''https://hook'') 5, Stdout_channel False, File_channel ''/log'']"

lemma demo_faithful: "ledger_faithful demo_rate_env {demo_key}"
proof -
  have "key_event demo_key = event_name Verify_failed" by (simp add: demo_key_def)
  then have "rate_key_ok demo_key" unfolding rate_key_ok_def by (metis demo_key_def key_recipient.simps list.distinct(1) rangeI)
  moreover have "quote_value v = v" if "CHR 0x27 \<notin> set v" for v
    using that by (induction v) (auto simp: quote_value_def)
  moreover have "CHR 0x27 \<notin> set (key_flag demo_key)"
    by (simp add: demo_key_def key_flag_def)
  moreover have "CHR 0x27 \<notin> set (rl_recipient_hash E k)" for E k
  proof -
    have "\<forall>c \<in> set (rl_recipient_hash E k). hex_val c \<noteq> None"
      using is_hex_bytes_hex unfolding recipient_hash_bytes is_hex_def list_all_iff by blast
    moreover have "hex_val (CHR 0x27) = None" by (simp add: hex_val_def)
    ultimately show ?thesis by metis
  qed
  ultimately show ?thesis by (simp add: ledger_faithful_def demo_rate_env_def)
qed

lemma demo_clock_ok: "clock_ok (demo_notify_env t)"
  by (simp add: clock_ok_def demo_notify_env_def)

theorem rate_ledger_exact_witness:
  "rl_check demo_rate_env ''slack'' ''verify_failed'' ''verify_failed:p7:slack'' 300 599000000
     (fold (ledger_mark demo_rate_env 300) [(demo_key, 301000000)] []) = Inr True"
  using rate_ledger_exact [OF demo_faithful, of 300 demo_key 599000000 "[(demo_key, 301000000)]"]
  by (simp add: bucket_ok_def rl_bucket_def Let_def date_ok_def demo_key_def)

theorem one_delivery_per_window_witness:
  "spaced 300 (nf_out (fold notifier_step
     [Op_notify (demo_notify_env 0) demo_event None, Op_add_channel (System_channel 5),
      Op_notify (demo_notify_env 400000000) demo_event (Some [''ann''])]
     (notifier_init demo_channels 300 [])))"
  by (rule one_delivery_per_window) (simp_all add: demo_clock_ok)

theorem restart_resends_at_boundary_witness:
  "\<not> is_rate_limited demo_rate_env 300000000 demo_key
     (notifier_init demo_channels 300 (ledger_mark demo_rate_env 300 (demo_key, 299999999) []))"
  using restart_resends_at_boundary [OF demo_faithful, of demo_key 300 demo_channels] by simp

lemma demo_quote: "CHR 0x27 \<notin> set v \<Longrightarrow> quote_value v = v"
  by (induction v) (auto simp: quote_value_def)

lemma demo_not_limited: "\<not> is_rate_limited E t k (notifier_init chs w [])"
  by (simp add: is_rate_limited_def memory_limited_def ledger_limited_def notifier_init_def rl_check_def rbind_def
      split: sum.split prod.split option.split)

lemmas demo_sending = demo_channels_def demo_notify_env_def demo_transports_def truthy_def http_send_def
  slack_send_def file_send_def

theorem fanout_independent_witness:
  "map nr_sent (fst (notify (demo_notify_env 0) demo_event None (notifier_init demo_channels 300 []))) =
     [False, True, True]"
proof -
  have "flags_read (ne_rate (demo_notify_env 0)) demo_event demo_channels"
    by (simp add: flags_read_def Let_def demo_channels_def demo_notify_env_def demo_rate_env_def
        rate_key_of_def key_flag_def demo_event_def demo_quote)
  then have r: "fst (notify (demo_notify_env 0) demo_event None (notifier_init demo_channels 300 [])) =
      map (\<lambda>(i, ch). channel_outcome (demo_notify_env 0) demo_event (notifier_init demo_channels 300 []) i ch)
        (enumerate 0 demo_channels)"
    using fanout_independent [of "notifier_init demo_channels 300 []" "demo_notify_env 0" demo_event None]
    by (simp add: notifier_init_def demo_channels_def)
  show ?thesis unfolding r
    by (simp add: channel_outcome_def demo_not_limited demo_sending failed_result_def backfilled_def sent_result_def)
qed

theorem single_recipient_one_channel_witness:
  "drop 2 (fst (notify (demo_notify_env 0) demo_event (Some [''ann'']) (notifier_init demo_channels 300 []))) =
     [limited_result ''file'']"
  using single_recipient_one_channel [of "notifier_init demo_channels 300 []" "take 1 demo_channels"
      "Stdout_channel False" "[File_channel ''/log'']" "demo_notify_env 0" demo_event "Printed False (fmt demo_event)" "''ann''"]
  by (simp add: demo_not_limited) (simp add: notifier_init_def demo_sending numeral_2_eq_2)

theorem from_config_returns_iff_witness:
  "\<nexists>n. from_config \<lparr>ce_trunc = (\<lambda>s. None), ce_loop_running = False, ce_get_secret = (\<lambda>p. Inl SecretNotFound), ce_expand = Some, ce_log_path = ''/log''\<rparr>
     (Config_parsed (JDict [(''channels'', JList [JStr ''slack''])])) [] = Inr n"
  using from_config_returns_iff [of "[(''channels'', JList [JStr ''slack''])]"]
  by (simp add: list_or_empty_def iter_json_def dict_get_def truthy_def spec_ok_def)

end
