(* ===== verification/Rotation.thy ===== *)
theory Rotation
  imports Secrets Audit_Record
begin

text \<open>
  \<open>shared/secrets/rotation.py\<close> and the rotation route of \<open>shared/api/routes/vault_config.py\<close>: the
  lease renewer with its polling loop, the registry of rotation listeners, and \<open>rotate\<close> with the audit
  row it leaves. The answers of Vault, the listeners and a rotating adapter are parameters; the clock of
  the event loop is a rational number of seconds. Firing the listeners reads the live list by index, as
  Python's \<open>for\<close> does, so it may run forever when a listener registers itself; it is a partial function
  and its result is an option.
\<close>

section \<open>Lease renewal\<close>

record lease_state =
  ls_lease_id :: string
  ls_increment_seconds :: int
  ls_next_renew_at :: rat

type_synonym leases = "(string, lease_state) dict"

datatype lease_error = Bad_increment | Lease_not_tracked | Lease_denied | Lease_gone | Lease_failed int
  | Lease_transport

definition half :: "int \<Rightarrow> rat" where
  "half n = of_int n / 2"

definition loop_time :: "rat option \<Rightarrow> rat" where
  "loop_time running = (case running of None \<Rightarrow> 0 | Some t \<Rightarrow> t)"

definition track :: "string \<Rightarrow> int \<Rightarrow> rat option \<Rightarrow> (leases, lease_error, unit) eff" where
  "track lease_id increment running =
     ebind (eguard (0 < increment) Bad_increment) (\<lambda>_.
     ewrite (AList.update lease_id \<lparr>ls_lease_id = lease_id, ls_increment_seconds = increment,
               ls_next_renew_at = loop_time running + half increment\<rparr>))"

definition untrack :: "string \<Rightarrow> leases \<Rightarrow> leases" where
  "untrack lease_id = AList.delete lease_id"

text \<open>The answer of Vault is a status code, or the request raises; \<open>now\<close> is the clock after the answer.\<close>

definition renew :: "(lease_state \<Rightarrow> int option) \<Rightarrow> rat \<Rightarrow> lease_state \<Rightarrow> (leases, lease_error, unit) eff" where
  "renew answer now st = (case answer st of
     None \<Rightarrow> eraise Lease_transport
   | Some code \<Rightarrow>
       if code = 401 \<or> code = 403 then eraise Lease_denied
       else if code = 404 then ebind (ewrite (untrack (ls_lease_id st))) (\<lambda>_. eraise Lease_gone)
       else if \<not> (200 \<le> code \<and> code < 300) then eraise (Lease_failed code)
       else ewrite (AList.map_entry (ls_lease_id st)
              (\<lambda>l. l\<lparr>ls_next_renew_at := now + half (ls_increment_seconds st)\<rparr>)))"

definition renew_now :: "(lease_state \<Rightarrow> int option) \<Rightarrow> rat \<Rightarrow> string \<Rightarrow> (leases, lease_error, unit) eff" where
  "renew_now answer now lease_id =
     ebind (eread (\<lambda>ls. map_of ls lease_id)) (\<lambda>st. case st of
       None \<Rightarrow> eraise Lease_not_tracked | Some st \<Rightarrow> renew answer now st)"

text \<open>One turn of the loop at clock \<open>t\<close>; \<open>after\<close> is the clock after each answer. Errors are logged.\<close>

definition loop_turn :: "(lease_state \<Rightarrow> int option) \<Rightarrow> rat \<Rightarrow> (lease_state \<Rightarrow> rat) \<Rightarrow> leases \<Rightarrow> leases" where
  "loop_turn answer t after ls =
     fold (\<lambda>st ls. if ls_next_renew_at st \<le> t then run_state (renew answer (after st) st) ls else ls)
       (map snd ls) ls"

section \<open>Listeners\<close>

type_synonym 'l hooks = "(string, 'l list) dict"

definition hook_register :: "string \<Rightarrow> 'l \<Rightarrow> 'l hooks \<Rightarrow> 'l hooks" where
  "hook_register path cb h = AList.update path (dict_get h path [] @ [cb]) h"

definition hook_unregister :: "string \<Rightarrow> 'l \<Rightarrow> 'l hooks \<Rightarrow> 'l hooks" where
  "hook_unregister path cb h =
     (if cb \<in> set (dict_get h path []) then AList.update path (remove1 cb (dict_get h path [])) h else h)"

text \<open>
  A listener gets the path, may change the registry and the world outside (\<open>'w\<close>), and may raise.
\<close>

type_synonym ('l, 'w) listening = "'l \<Rightarrow> string \<Rightarrow> 'l hooks \<times> 'w \<Rightarrow> string option \<times> 'l hooks \<times> 'w"

partial_function (option) fire_from :: "('l, 'w) listening \<Rightarrow> string \<Rightarrow> nat \<Rightarrow> string list \<Rightarrow> 'l hooks \<times> 'w \<Rightarrow>
    (string list \<times> 'l hooks \<times> 'w) option" where
  "fire_from run path i errors s =
     (let cbs = dict_get (fst s) path [] in
      if i < length cbs
      then let (e, s') = run (cbs ! i) path s in
           fire_from run path (Suc i) (errors @ (case e of None \<Rightarrow> [] | Some x \<Rightarrow> [x])) s'
      else Some (errors, s))"

definition hook_fire :: "('l, 'w) listening \<Rightarrow> string \<Rightarrow> 'l hooks \<times> 'w \<Rightarrow> (string list \<times> 'l hooks \<times> 'w) option" where
  "hook_fire run path s = fire_from run path 0 [] s"

section \<open>Rotation\<close>

text \<open>
  \<open>ro_rotate\<close> is the \<open>rotate\<close> attribute of the default adapter: \<open>None\<close> when there is no adapter or it has
  none. \<open>ro_now\<close> and \<open>ro_iso\<close> are the time and its text.
\<close>

record ('s, 'e, 'l, 'w) rotation_env =
  ro_rotate :: "(string \<Rightarrow> ('s, 'e, unit) eff) option"
  ro_listening :: "('l, 'w) listening"
  ro_codec :: audit_codec
  ro_db_url :: "string option"
  ro_redact_env :: "string option"
  ro_uuid :: uuid
  ro_now :: time
  ro_iso :: "time \<Rightarrow> string"

record ('s, 'l, 'w) rotation_state =
  rs_store :: 's
  rs_hooks :: "'l hooks"
  rs_world :: 'w
  rs_audit :: audit_db

definition dict_union :: "('k, 'v) dict \<Rightarrow> ('k, 'v) dict \<Rightarrow> ('k, 'v) dict" where
  "dict_union d e = fold (\<lambda>(k, v) d. AList.update k v d) e d"

definition rotated_record :: "('s, 'e, 'l, 'w) rotation_env \<Rightarrow> string \<Rightarrow> string \<Rightarrow> (string, json) dict \<Rightarrow> audit_record" where
  "rotated_record E path actor metadata =
     (blank_record (ro_uuid E) (ro_now E) None ''secrets'' ''shared'' ''vault_rotated'' actor)
       \<lparr>ar_subject_type := Some ''secret'', ar_subject_id := Some path,
        ar_metadata := dict_union [(''surface'', JStr ''rotation.rotate'')] metadata\<rparr>"

definition emit_vault_rotated_audit :: "('s, 'e, 'l, 'w) rotation_env \<Rightarrow> string \<Rightarrow> string \<Rightarrow> (string, json) dict \<Rightarrow>
    audit_db \<Rightarrow> int option \<times> audit_db" where
  "emit_vault_rotated_audit E path actor metadata db =
     (case unlinked_write (ro_codec E) (ro_db_url E) (ro_redact_env E) (rotated_record E path actor metadata) db of
        (Inr n, db') \<Rightarrow> (Some n, db') | (Inl _, db') \<Rightarrow> (None, db'))"

definition rotation_metadata :: "('s, 'e, 'l, 'w) rotation_env \<Rightarrow> string list \<Rightarrow> (string, json) dict option \<Rightarrow>
    (string, json) dict" where
  "rotation_metadata E errors metadata =
     dict_union (dict_union [(''rotated_at'', JStr (ro_iso E (ro_now E)))]
         (if errors = [] then [] else [(''hook_errors'', JInt (int (length errors)))]))
       (case metadata of None \<Rightarrow> [] | Some d \<Rightarrow> d)"

text \<open>\<open>None\<close> when the listeners never end; otherwise the error or the time of rotation, and the state.\<close>

definition rotate_secret_at :: "('s, 'e, 'l, 'w) rotation_env \<Rightarrow> string \<Rightarrow> string \<Rightarrow> (string, json) dict option \<Rightarrow>
    ('s, 'l, 'w) rotation_state \<Rightarrow> (('e + time) \<times> ('s, 'l, 'w) rotation_state) option" where
  "rotate_secret_at E path actor metadata s =
     (case (case ro_rotate E of None \<Rightarrow> (Inr (), rs_store s) | Some f \<Rightarrow> f path (rs_store s)) of
        (Inl e, st) \<Rightarrow> Some (Inl e, s\<lparr>rs_store := st\<rparr>)
      | (Inr _, st) \<Rightarrow>
          (case hook_fire (ro_listening E) path (rs_hooks s, rs_world s) of
             None \<Rightarrow> None
           | Some (errors, h, w) \<Rightarrow> Some (Inr (ro_now E),
               s\<lparr>rs_store := st, rs_hooks := h, rs_world := w,
                 rs_audit := snd (emit_vault_rotated_audit E path actor (rotation_metadata E errors metadata)
                   (rs_audit s))\<rparr>)))"

text \<open>
  The route: the record of the request is sealed and its uuid returned, but it is not written. The
  response is the text of the time, the actor and that uuid; the error is a 502.
\<close>

record rotate_response =
  rp_path :: string
  rp_rotated_at :: time
  rp_actor :: string
  rp_audit_event_uuid :: uuid

definition rotate_route :: "('s, 'e, 'l, 'w) rotation_env \<Rightarrow> string \<Rightarrow> string \<Rightarrow> uuid \<Rightarrow>
    ('s, 'l, 'w) rotation_state \<Rightarrow> (('e + rotate_response) \<times> ('s, 'l, 'w) rotation_state) option" where
  "rotate_route E path actor uuid s =
     (case rotate_secret_at E path ''shared.secrets.rotation'' None s of
        None \<Rightarrow> None
      | Some (Inl e, s') \<Rightarrow> Some (Inl e, s')
      | Some (Inr t, s') \<Rightarrow> Some (Inr \<lparr>rp_path = path, rp_rotated_at = t, rp_actor = actor,
           rp_audit_event_uuid = uuid\<rparr>, s'))"

section \<open>Leases stay alive\<close>

text \<open>
  The lease at Vault: \<open>vault i\<close> is when it runs out. In a turn, Vault treats the request for the lease \<open>l\<close> at
  time \<open>tk_vault k l\<close>: a lease that has run out by then is answered with 404, any other with
  \<open>tk_status k l\<close>, and when that is a success it runs for another \<open>tk_grant k l\<close> seconds, which Vault
  chooses (the increment in the request is a wish). The clock after the answer is \<open>tk_after k l\<close>.
\<close>

record turn =
  tk_time :: rat
  tk_vault :: "lease_state \<Rightarrow> rat"
  tk_status :: "lease_state \<Rightarrow> int option"
  tk_grant :: "lease_state \<Rightarrow> rat"
  tk_after :: "lease_state \<Rightarrow> rat"

type_synonym vault_leases = "string \<Rightarrow> rat"

definition vault_answer :: "turn \<Rightarrow> vault_leases \<Rightarrow> lease_state \<Rightarrow> int option" where
  "vault_answer k vault l = (if tk_vault k l < vault (ls_lease_id l) then tk_status k l else Some 404)"

definition succeeds :: "int option \<Rightarrow> bool" where
  "succeeds answer = (case answer of None \<Rightarrow> False | Some code \<Rightarrow> 200 \<le> code \<and> code < 300)"

definition vault_turn :: "turn \<Rightarrow> leases \<Rightarrow> vault_leases \<Rightarrow> vault_leases" where
  "vault_turn k ls vault = (\<lambda>i. case map_of ls i of
     Some l \<Rightarrow> if ls_next_renew_at l \<le> tk_time k \<and> succeeds (vault_answer k vault l) then tk_vault k l + tk_grant k l else vault i
   | None \<Rightarrow> vault i)"

text \<open>
  None of the leases \<open>I\<close> is dropped or runs out: each is tracked and alive when a turn begins, and still alive
  when Vault renews it in that turn; in between its end does not change.
\<close>

fun survives :: "string set \<Rightarrow> turn list \<Rightarrow> leases \<Rightarrow> vault_leases \<Rightarrow> bool" where
  "survives I [] ls vault = (\<forall>i \<in> I. map_of ls i \<noteq> None)"
| "survives I (k # ks) ls vault =
     ((\<forall>i \<in> I. case map_of ls i of None \<Rightarrow> False
       | Some l \<Rightarrow> tk_time k < vault i \<and> (ls_next_renew_at l \<le> tk_time k \<longrightarrow> tk_vault k l < vault i)) \<and>
      survives I ks (loop_turn (vault_answer k vault) (tk_time k) (tk_after k) ls) (vault_turn k ls vault))"

definition leases_ok :: "leases \<Rightarrow> bool" where
  "leases_ok ls \<longleftrightarrow> dict_ok ls \<and> (\<forall>(i, l) \<in> set ls. ls_lease_id l = i)"

definition renewed :: "turn \<Rightarrow> lease_state \<Rightarrow> lease_state" where
  "renewed k l = (if ls_next_renew_at l \<le> tk_time k
     then l\<lparr>ls_next_renew_at := tk_after k l + half (ls_increment_seconds l)\<rparr> else l)"

lemma fold_map_entry:
  assumes "distinct (map g xs)"
  shows "map_of (fold (\<lambda>x d. if P x then AList.map_entry (g x) (f x) d else d) xs d) i =
    (case find (\<lambda>x. g x = i \<and> P x) xs of None \<Rightarrow> map_of d i | Some x \<Rightarrow> map_option (f x) (map_of d i))"
  using assms
proof (induction xs arbitrary: d)
  case (Cons x xs)
  have none: "find (\<lambda>y. g y = g x \<and> P y) xs = None"
    using Cons.prems by (auto simp: find_None_iff image_iff)
  show ?case
    using Cons.IH [of "if P x then AList.map_entry (g x) (f x) d else d"] Cons.prems none
    by (auto simp: map_of_map_entry split: option.splits if_splits)
qed simp

lemma loop_turn_fold:
  assumes "leases_ok ls"
  shows "loop_turn (\<lambda>_. Some 200) t after ls =
    fold (\<lambda>st d. if ls_next_renew_at st \<le> t
        then AList.map_entry (ls_lease_id st) (\<lambda>l. l\<lparr>ls_next_renew_at := after st + half (ls_increment_seconds st)\<rparr>) d
        else d) (map snd ls) ls"
  unfolding loop_turn_def by (rule fold_cong) (auto simp: renew_def eff_simps)

lemma find_lease:
  assumes "leases_ok ls"
  shows "find (\<lambda>l. ls_lease_id l = i \<and> P l) (map snd ls) =
    (case map_of ls i of None \<Rightarrow> None | Some l \<Rightarrow> if P l then Some l else None)"
proof -
  have "find (\<lambda>l. ls_lease_id l = i \<and> P l) (map snd ls) =
      (case map_of ls i of None \<Rightarrow> None | Some l \<Rightarrow> if P l then Some l else None)"
    if "dict_ok ls" "\<forall>(i, l) \<in> set ls. ls_lease_id l = i" for ls
    using that
  proof (induction ls)
    case (Cons kv ls)
    obtain k l where kv: "kv = (k, l)" by force
    have "map_of ls k = None" using Cons.prems(1) kv by (simp add: map_of_None_fst)
    then show ?case using Cons by (auto simp: kv)
  qed simp
  then show ?thesis using assms by (simp add: leases_ok_def)
qed

lemma loop_turn_success:
  assumes "\<forall>l \<in> snd ` set ls. ls_next_renew_at l \<le> t \<longrightarrow> answer l = Some 200"
  shows "loop_turn answer t after ls = loop_turn (\<lambda>_. Some 200) t after ls"
  unfolding loop_turn_def by (rule fold_cong) (use assms in \<open>fastforce simp: renew_def\<close>)+

lemma map_of_loop_turn:
  assumes "leases_ok ls"
  shows "map_of (loop_turn (\<lambda>_. Some 200) (tk_time k) (tk_after k) ls) i = map_option (renewed k) (map_of ls i)"
proof -
  have "map ls_lease_id (map snd ls) = map fst ls"
    using assms by (auto simp: leases_ok_def)
  then have d: "distinct (map ls_lease_id (map snd ls))" using assms by (simp only: leases_ok_def)
  show ?thesis
    unfolding loop_turn_fold [OF assms] fold_map_entry [OF d, where P = "\<lambda>st. ls_next_renew_at st \<le> tk_time k"
        and f = "\<lambda>st l. l\<lparr>ls_next_renew_at := tk_after k st + half (ls_increment_seconds st)\<rparr>"]
    by (auto simp: find_lease [OF assms] renewed_def split: option.splits)
qed

lemma leases_ok_map_entry:
  assumes "leases_ok d"
  shows "leases_ok (AList.map_entry j (\<lambda>l. l\<lparr>ls_next_renew_at := t\<rparr>) d)"
proof -
  have "\<forall>(i, l) \<in> set (AList.map_entry j (\<lambda>l. l\<lparr>ls_next_renew_at := t\<rparr>) d). ls_lease_id l = i"
    if "\<forall>(i, l) \<in> set d. ls_lease_id l = i" for d
    using that by (induction d) (auto split: if_splits)
  moreover have "dict_ok (AList.map_entry j (\<lambda>l. l\<lparr>ls_next_renew_at := t\<rparr>) d)"
    using assms by (simp add: leases_ok_def distinct_map_entry)
  ultimately show ?thesis using assms unfolding leases_ok_def by blast
qed

lemma leases_ok_turn: "leases_ok ls \<Longrightarrow> leases_ok (loop_turn (\<lambda>_. Some 200) t after ls)"
proof -
  assume "leases_ok ls"
  have "leases_ok d \<Longrightarrow> leases_ok (fold (\<lambda>st d. if ls_next_renew_at st \<le> t
        then AList.map_entry (ls_lease_id st) (\<lambda>l. l\<lparr>ls_next_renew_at := after st + half (ls_increment_seconds st)\<rparr>) d
        else d) xs d)" for xs d
    by (induction xs arbitrary: d) (simp_all add: leases_ok_map_entry)
  then show ?thesis using \<open>leases_ok ls\<close> by (simp add: loop_turn_fold)
qed

text \<open>
  Between two turns: every lease is due later than the last turn, and Vault lets it run at least half its
  increment, less the delay of an answer, longer than that.
\<close>

definition in_order :: "rat \<Rightarrow> rat \<Rightarrow> leases \<Rightarrow> vault_leases \<Rightarrow> bool" where
  "in_order t delay ls vault \<longleftrightarrow> (\<forall>i l. map_of ls i = Some l \<longrightarrow>
     t < ls_next_renew_at l \<and> ls_next_renew_at l + half (ls_increment_seconds l) - delay \<le> vault i)"

text \<open>
  A turn of the loop: it starts after the one before and within \<open>gap\<close> of it, and the requests of the turn are
  answered, one after the other, within \<open>delay\<close> of its start. Vault answers a request for a lease that is
  alive with 200 and grants at least what is asked for.
\<close>

definition turn_ok :: "rat \<Rightarrow> rat \<Rightarrow> rat \<Rightarrow> turn \<Rightarrow> bool" where
  "turn_ok prev gap delay k \<longleftrightarrow> prev \<le> tk_time k \<and> tk_time k \<le> prev + gap \<and>
     (\<forall>l. tk_time k \<le> tk_vault k l \<and> tk_vault k l \<le> tk_after k l \<and> tk_after k l \<le> tk_time k + delay)"

definition vault_grants :: "turn \<Rightarrow> bool" where
  "vault_grants k \<longleftrightarrow> (\<forall>l. tk_status k l = Some 200 \<and> of_int (ls_increment_seconds l) \<le> tk_grant k l)"

fun turns_ok :: "rat \<Rightarrow> rat \<Rightarrow> rat \<Rightarrow> turn list \<Rightarrow> bool" where
  "turns_ok prev gap delay [] = True"
| "turns_ok prev gap delay (k # ks) = (turn_ok prev gap delay k \<and> turns_ok (tk_time k) gap delay ks)"

definition slow_leases :: "rat \<Rightarrow> leases \<Rightarrow> bool" where
  "slow_leases bound ls \<longleftrightarrow> (\<forall>i l. map_of ls i = Some l \<longrightarrow>
     0 < ls_increment_seconds l \<and> bound \<le> half (ls_increment_seconds l))"

lemma renewed_fields [simp]:
  "ls_increment_seconds (renewed k l) = ls_increment_seconds l"
  "ls_next_renew_at (renewed k l) = (if ls_next_renew_at l \<le> tk_time k
     then tk_after k l + half (ls_increment_seconds l) else ls_next_renew_at l)"
  by (simp_all add: renewed_def)

lemma in_order_alive:
  assumes "in_order t delay ls vault" "turn_ok t gap delay k" "slow_leases (gap + 2 * delay) ls" "map_of ls i = Some l"
  shows "tk_time k < vault i" "tk_vault k l < vault i"
proof -
  have "tk_vault k l \<le> t + gap + delay" "tk_time k \<le> tk_vault k l"
    using assms(2) unfolding turn_ok_def by (smt (verit, ccfv_threshold) add.commute add_mono dual_order.trans le_cases)+
  moreover have "t < ls_next_renew_at l" "ls_next_renew_at l + half (ls_increment_seconds l) - delay \<le> vault i"
    using assms(1,4) by (auto simp: in_order_def)
  moreover have "gap + 2 * delay \<le> half (ls_increment_seconds l)"
    using assms(3,4) by (simp add: slow_leases_def)
  ultimately show "tk_time k < vault i" "tk_vault k l < vault i" by linarith+
qed

lemma answers_success:
  assumes "leases_ok ls" "in_order t delay ls vault" "turn_ok t gap delay k" "slow_leases (gap + 2 * delay) ls" "vault_grants k"
  shows "map_of ls i = Some l \<Longrightarrow> vault_answer k vault l = Some 200"
    and "loop_turn (vault_answer k vault) (tk_time k) (tk_after k) ls = loop_turn (\<lambda>_. Some 200) (tk_time k) (tk_after k) ls"
proof -
  have id: "ls_lease_id l = i" if "map_of ls i = Some l" for i l
    using assms(1) map_of_SomeD [OF that] by (auto simp: leases_ok_def)
  show a: "vault_answer k vault l = Some 200" if "map_of ls i = Some l" for i l
    using in_order_alive(2) [OF assms(2-4) that] id [OF that] assms(5) by (simp add: vault_answer_def vault_grants_def)
  have "\<forall>l \<in> snd ` set ls. vault_answer k vault l = Some 200"
    using a assms(1) by (force simp: leases_ok_def)
  then show "loop_turn (vault_answer k vault) (tk_time k) (tk_after k) ls = loop_turn (\<lambda>_. Some 200) (tk_time k) (tk_after k) ls"
    by (intro loop_turn_success) simp
qed

lemma in_order_turn:
  assumes "leases_ok ls" "in_order t delay ls vault" "turn_ok t gap delay k" "slow_leases (gap + 2 * delay) ls" "vault_grants k"
  shows "in_order (tk_time k) delay (loop_turn (\<lambda>_. Some 200) (tk_time k) (tk_after k) ls) (vault_turn k ls vault) \<and>
    slow_leases (gap + 2 * delay) (loop_turn (\<lambda>_. Some 200) (tk_time k) (tk_after k) ls)"
proof -
  have pos: "0 < half (ls_increment_seconds l)" if "map_of ls i = Some l" for i l
    using assms(4) that by (auto simp: slow_leases_def half_def)
  have due: "tk_time k < tk_after k l + half (ls_increment_seconds l)" if "map_of ls i = Some l" for i l
    using pos [OF that] assms(3) unfolding turn_ok_def by (metis add_le_less_mono add.right_neutral order_trans)
  have fin: "tk_after k l + half (ls_increment_seconds l) + half (ls_increment_seconds l) - delay \<le> tk_vault k l + tk_grant k l" for l
  proof -
    have "half (ls_increment_seconds l) + half (ls_increment_seconds l) = of_int (ls_increment_seconds l)"
      by (simp add: half_def)
    moreover have "tk_after k l \<le> tk_time k + delay" "tk_time k \<le> tk_vault k l" using assms(3) by (simp_all add: turn_ok_def)
    moreover have "of_int (ls_increment_seconds l) \<le> tk_grant k l" using assms(5) by (simp add: vault_grants_def)
    ultimately show ?thesis by linarith
  qed
  have "succeeds (vault_answer k vault l)" if "map_of ls i = Some l" for i l
    by (simp add: answers_success(1) [OF assms that] succeeds_def)
  then show ?thesis using assms(2,4) due fin
    by (auto simp: in_order_def slow_leases_def map_of_loop_turn [OF assms(1)] vault_turn_def)
qed

lemma survives_in_order:
  assumes "leases_ok ls" "in_order t delay ls vault" "turns_ok t gap delay ks" "slow_leases (gap + 2 * delay) ls"
    "\<forall>k \<in> set ks. vault_grants k" "I \<subseteq> dom (map_of ls)"
  shows "survives I ks ls vault"
  using assms
proof (induction ks arbitrary: t ls vault)
  case (Cons k ks)
  have k: "turn_ok t gap delay k" "vault_grants k" using Cons.prems(3,5) by simp_all
  note turn = in_order_turn [OF Cons.prems(1,2) k(1) Cons.prems(4) k(2)]
  have "dom (map_of (loop_turn (\<lambda>_. Some 200) (tk_time k) (tk_after k) ls)) = dom (map_of ls)"
    by (auto simp: map_of_loop_turn [OF Cons.prems(1)] dom_def)
  then have "survives I ks (loop_turn (\<lambda>_. Some 200) (tk_time k) (tk_after k) ls) (vault_turn k ls vault)"
    using turn Cons.prems by (intro Cons.IH [where t = "tk_time k"]) (auto simp: leases_ok_turn)
  moreover have "case map_of ls i of None \<Rightarrow> False
      | Some l \<Rightarrow> tk_time k < vault i \<and> (ls_next_renew_at l \<le> tk_time k \<longrightarrow> tk_vault k l < vault i)" if "i \<in> I" for i
    using that Cons.prems(6) in_order_alive [OF Cons.prems(2) k(1) Cons.prems(4)] by (auto split: option.split)
  ultimately show ?case by (simp add: answers_success(2) [OF Cons.prems(1,2) k(1) Cons.prems(4) k(2)])
qed auto


text \<open>A lease that Vault has let run out is answered with 404 and no longer tracked.\<close>

lemma expired_lease_is_dropped:
  assumes "leases_ok ls" "map_of ls i = Some l" "vault i \<le> tk_vault k l"
  shows "renew (vault_answer k vault) now l ls = (Inl Lease_gone, AList.delete i ls)"
proof -
  have "ls_lease_id l = i" using assms(1) map_of_SomeD [OF assms(2)] by (auto simp: leases_ok_def)
  then show ?thesis using assms(3) by (simp add: renew_def vault_answer_def untrack_def eff_simps)
qed

text \<open>
  The loop wakes up every five seconds, so a shorter lease is lost although it is to be renewed at half
  its increment: one of four seconds, tracked at a turn, has run out at the next turn.
\<close>

lemma short_lease_is_lost:
  assumes "track ''l'' 4 (Some t) [] = (Inr (), ls)" "vault ''l'' = t + 4" "tk_time k = t + 5"
  shows "\<not> survives {''l''} [k] ls vault"
  using assms by (auto simp: track_def eff_simps)

section \<open>Listeners are reached\<close>

fun listen_all :: "('l, 'w) listening \<Rightarrow> string \<Rightarrow> 'l hooks \<Rightarrow> 'l list \<Rightarrow> 'w \<Rightarrow> string list \<times> 'w" where
  "listen_all run path h [] w = ([], w)"
| "listen_all run path h (cb # cbs) w =
     (let (e, _, w') = run cb path (h, w); (es, w'') = listen_all run path h cbs w' in
      ((case e of None \<Rightarrow> es | Some x \<Rightarrow> x # es), w''))"

lemma fire_from_all:
  assumes "\<forall>cb \<in> set (dict_get h path []). \<forall>w. fst (snd (run cb path (h, w))) = h"
    and "i \<le> length (dict_get h path [])"
  shows "fire_from run path i errors (h, w) =
    (let (es, w') = listen_all run path h (drop i (dict_get h path [])) w in Some (errors @ es, h, w'))"
  using assms(2)
proof (induction "length (dict_get h path []) - i" arbitrary: i errors w)
  case 0
  then show ?case by (simp add: fire_from.simps)
next
  case (Suc n)
  let ?cbs = "dict_get h path []"
  have i: "i < length ?cbs" using Suc(2) by linarith
  obtain e h' w' where r: "run (?cbs ! i) path (h, w) = (e, h', w')" by (metis prod_cases3)
  have "fst (snd (run (?cbs ! i) path (h, w))) = h" using assms(1) nth_mem [OF i] by blast
  with r have h': "h' = h" by simp
  have "fire_from run path i errors (h, w) =
      fire_from run path (Suc i) (errors @ (case e of None \<Rightarrow> [] | Some x \<Rightarrow> [x])) (h, w')"
    using i r h' by (subst fire_from.simps) (simp add: Let_def)
  also have "\<dots> = (let (es, w'') = listen_all run path h (drop (Suc i) ?cbs) w' in
      Some ((errors @ (case e of None \<Rightarrow> [] | Some x \<Rightarrow> [x])) @ es, h, w''))"
    using Suc i by (intro Suc(1)) auto
  finally show ?case using r h' i
    by (simp add: Cons_nth_drop_Suc [symmetric] Let_def split_beta split: option.split)
qed

text \<open>
  When the listeners leave the registry alone, firing a path ends, runs every listener of the path
  in order, each in the world the ones before it left, and returns exactly the errors they raised: a bad
  listener does not stop the others.
\<close>

theorem fire_reaches_all:
  assumes "\<forall>cb \<in> set (dict_get h path []). \<forall>w. fst (snd (run cb path (h, w))) = h"
  shows "hook_fire run path (h, w) =
    (let (es, w') = listen_all run path h (dict_get h path []) w in Some (es, h, w'))"
  unfolding hook_fire_def using fire_from_all [where i = 0 and errors = "[]" and w = w and h = h] assms by simp

text \<open>
  A listener that removes itself when it runs makes the next one be skipped: the list shrinks under the
  loop, so the second listener is not run for this rotation.
\<close>

theorem self_removal_skips_next:
  assumes "dict_get h path [] = [a, b]" "run a path (h, w) = (None, hook_unregister path a h, w')"
  shows "hook_fire run path (h, w) = Some ([], hook_unregister path a h, w')"
proof -
  have h: "dict_get (hook_unregister path a h) path [] = [b]"
    using assms(1) by (simp add: hook_unregister_def) (simp add: dict_get_def dict_simps)
  have "hook_fire run path (h, w) = fire_from run path 1 [] (hook_unregister path a h, w')"
    unfolding hook_fire_def using assms by (subst fire_from.simps) simp
  also have "\<dots> = Some ([], hook_unregister path a h, w')"
    using h by (subst fire_from.simps) simp
  finally show ?thesis .
qed

section \<open>What a rotation leaves\<close>

lemma emit_vault_rotated_rows:
  assumes "emit_vault_rotated_audit E path actor md db = (n, db')"
  shows "case n of None \<Rightarrow> ad_rows db' = ad_rows db
    | Some i \<Rightarrow> (\<exists>row. ad_rows db' = ad_rows db @ [(i, row)] \<and> i = ad_seq db + 1 \<and>
        ar_action row = ''vault_rotated'' \<and> ar_subsystem row = ''shared'' \<and> ar_prev_event_hash row = None)"
proof -
  let ?r = "rotated_record E path actor md"
  let ?w = "unlinked_write (ro_codec E) (ro_db_url E) (ro_redact_env E) ?r db"
  show ?thesis
  proof (cases "fst ?w")
    case (Inl e)
    then have "n = None" "db' = snd ?w"
      using assms by (auto simp: emit_vault_rotated_audit_def split: prod.splits)
    moreover have "ad_rows (snd ?w) = ad_rows db" using Inl
      by (auto simp: unlinked_write_def write_via_psql_def db_insert_def eff_simps Let_def split: sum.splits if_splits)
    ultimately show ?thesis by simp
  next
    case (Inr i)
    then have n: "n = Some i" and w: "?w = (Inr i, db')"
      using assms by (auto simp: emit_vault_rotated_audit_def split: prod.splits)
    obtain rec where v: "validate_record (ro_codec E) ?r = Inr rec" and
      wr: "write_via_psql (ro_codec E) (ro_db_url E) (ro_redact_env E) False (chain_to_previous (ro_codec E) rec None) db = (Inr i, db')"
      using w by (cases "validate_record (ro_codec E) ?r") (auto simp: unlinked_write_def eff_simps)
    have rec: "rec = ?r" using v by (simp add: validate_record_def split: if_splits)
    show ?thesis
    proof (rule write_via_psqlE [OF wr hash_valid_chain])
      fix row
      assume rows: "ad_rows db' = ad_rows db @ [(i, row)]" "i = ad_seq db + 1"
        and f: "record_frame row = record_frame ((chain_to_previous (ro_codec E) rec None)\<lparr>ar_event_id := None\<rparr>)"
        and p: "ar_prev_event_hash row = ar_prev_event_hash (chain_to_previous (ro_codec E) rec None)"
      have "ar_action (record_frame row) = ''vault_rotated''" "ar_subsystem (record_frame row) = ''shared''"
        unfolding f rec by (simp_all add: record_frame_def chain_to_previous_def rotated_record_def blank_record_def)
      then show ?thesis using rows p n by (simp add: record_frame_def)
    qed
  qed
qed

text \<open>
  A failed rotation leaves no claim: when the adapter raises, the error is passed on, no listener
  runs and the audit table is as before. A rotation that returns leaves at most one new row, a \<open>vault_rotated\<close>
  row of this subsystem, whatever the listeners did.
\<close>

theorem rotation_leaves_no_false_claim:
  assumes "rotate_secret_at E path actor metadata s = Some (r, s')"
  shows "(\<forall>e. r = Inl e \<longrightarrow> rs_audit s' = rs_audit s \<and> rs_hooks s' = rs_hooks s \<and> rs_world s' = rs_world s \<and>
      (\<exists>f. ro_rotate E = Some f \<and> fst (f path (rs_store s)) = Inl e)) \<and>
    (\<forall>t. r = Inr t \<longrightarrow> t = ro_now E \<and> (ad_rows (rs_audit s') = ad_rows (rs_audit s) \<or>
      (\<exists>i row. ad_rows (rs_audit s') = ad_rows (rs_audit s) @ [(i, row)] \<and> ar_action row = ''vault_rotated'' \<and>
        ar_subsystem row = ''shared'')))"
proof (cases "case ro_rotate E of None \<Rightarrow> (Inr (), rs_store s) | Some f \<Rightarrow> f path (rs_store s)")
  case (Pair x st)
  show ?thesis
  proof (cases x)
    case (Inl e)
    then have "\<exists>f. ro_rotate E = Some f \<and> fst (f path (rs_store s)) = Inl e"
      using Pair by (cases "ro_rotate E") auto
    moreover have "r = Inl e" "s' = s\<lparr>rs_store := st\<rparr>" using assms Pair Inl by (simp_all add: rotate_secret_at_def)
    ultimately show ?thesis by simp
  next
    case (Inr u)
    obtain errors h w where f: "hook_fire (ro_listening E) path (rs_hooks s, rs_world s) = Some (errors, h, w)"
      using assms Pair Inr by (auto simp: rotate_secret_at_def split: option.splits)
    let ?m = "emit_vault_rotated_audit E path actor (rotation_metadata E errors metadata) (rs_audit s)"
    have r: "r = Inr (ro_now E)" "rs_audit s' = snd ?m"
      using assms Pair Inr f by (auto simp: rotate_secret_at_def)
    have "ad_rows (snd ?m) = ad_rows (rs_audit s) \<or> (\<exists>i row. ad_rows (snd ?m) = ad_rows (rs_audit s) @ [(i, row)] \<and>
        ar_action row = ''vault_rotated'' \<and> ar_subsystem row = ''shared'')"
      using emit_vault_rotated_rows [OF prod.collapse [symmetric, of ?m]] by (cases "fst ?m") auto
    with r show ?thesis by simp
  qed
qed

text \<open>
  With an adapter that has no \<open>rotate\<close> method, which is every adapter the program ships, the route
  answers that the secret was rotated although the store is untouched; where the audit table has rows, the
  row it writes claims the rotation and is reported by the integrity view as a broken link.
\<close>

theorem rotation_claimed_without_rotation:
  assumes "ro_rotate E = None" "dict_get (rs_hooks s) path [] = []"
    and "emit_vault_rotated_audit E path ''shared.secrets.rotation'' (rotation_metadata E [] None) (rs_audit s) = (Some n, db)"
    and "ad_rows (rs_audit s) \<noteq> []" "1 \<le> ad_seq (rs_audit s)"
      "ar_content_hash (snd (last (ad_rows (rs_audit s)))) \<noteq> None"
  shows "\<exists>resp s' row. rotate_route E path actor uuid s = Some (Inr resp, s') \<and> rp_rotated_at resp = ro_now E \<and>
    rs_store s' = rs_store s \<and> ar_action row = ''vault_rotated'' \<and>
    integrity_view None (ad_rows (rs_audit s')) = integrity_view None (ad_rows (rs_audit s)) @ [(n, row)]"
proof -
  have f: "hook_fire (ro_listening E) path (rs_hooks s, rs_world s) = Some ([], rs_hooks s, rs_world s)"
    unfolding hook_fire_def using assms(2) by (subst fire_from.simps) simp
  obtain row where row: "ad_rows db = ad_rows (rs_audit s) @ [(n, row)]" "n = ad_seq (rs_audit s) + 1"
      "ar_action row = ''vault_rotated''" "ar_prev_event_hash row = None"
    using emit_vault_rotated_rows [OF assms(3)] by auto
  have "integrity_view None (ad_rows db) = integrity_view None (ad_rows (rs_audit s)) @ [(n, row)]"
    using row assms(4-6) by (auto simp: integrity_view_snoc)
  with row(3) show ?thesis
    by (simp add: rotate_route_def rotate_secret_at_def assms(1,3) f)
qed

section \<open>A rotation at work\<close>

definition demo_listening :: "(nat, nat list) listening" where
  "demo_listening cb path s = (if cb = 0 then (None, hook_unregister path 0 (fst s), snd s @ [0])
     else if cb = 1 then (Some ''boom'', fst s, snd s @ [1]) else (None, fst s, snd s @ [cb]))"

definition demo_rotation_env :: "(mem_store, secret_error, nat, nat list) rotation_env" where
  "demo_rotation_env = \<lparr>ro_rotate = None, ro_listening = demo_listening, ro_codec = demo_audit_codec,
     ro_db_url = Some ''db'', ro_redact_env = Some ''0'', ro_uuid = 7, ro_now = 100, ro_iso = (\<lambda>t. ''now'')\<rparr>"

definition demo_rotation_state :: "(mem_store, nat, nat list) rotation_state" where
  "demo_rotation_state = \<lparr>rs_store = [(''k'', ''v'')], rs_hooks = [(''q'', [1, 2])], rs_world = [],
     rs_audit = demo_audit_db\<rparr>"

definition demo_lease :: lease_state where
  "demo_lease = \<lparr>ls_lease_id = ''l'', ls_increment_seconds = 60, ls_next_renew_at = 30\<rparr>"

definition demo_turn :: "rat \<Rightarrow> turn" where
  "demo_turn t = \<lparr>tk_time = t, tk_vault = (\<lambda>_. t), tk_status = (\<lambda>_. Some 200),
     tk_grant = (\<lambda>l. of_int (ls_increment_seconds l)), tk_after = (\<lambda>_. t + 1)\<rparr>"


theorem fire_reaches_all_witness:
  "hook_fire demo_listening ''q'' ([(''q'', [1, 2])], []) = Some ([''boom''], [(''q'', [1, 2])], [1, 2])"
  using fire_reaches_all [of "[(''q'', [1, 2])]" "''q''" demo_listening "[]"]
  by (simp add: dict_get_def demo_listening_def)

theorem self_removal_skips_next_witness:
  "hook_fire demo_listening ''q'' ([(''q'', [0, 2])], []) = Some ([], [(''q'', [2])], [0])"
  using self_removal_skips_next [of "[(''q'', [0, 2])]" "''q''" 0 2 demo_listening "[]" "[0]"]
  by (simp add: dict_get_def demo_listening_def hook_unregister_def)

lemma demo_emit:
  "\<exists>db. emit_vault_rotated_audit demo_rotation_env ''k'' ''shared.secrets.rotation'' md demo_audit_db = (Some 2, db)"
proof -
  let ?r = "rotated_record demo_rotation_env ''k'' ''shared.secrets.rotation'' md"
  have v: "validate_record demo_audit_codec ?r = Inr ?r"
    by (simp add: validate_record_def field_faults_def rotated_record_def blank_record_def ALLOWED_SUBSYSTEMS_def)
  have h: "compute_content_hash demo_audit_codec q = replicate 64 (CHR ''a'')" for q
    by (simp add: compute_content_hash_def demo_audit_codec_def)
  have a: "db_accepts demo_audit_db ((chain_to_previous demo_audit_codec ?r None)\<lparr>ar_event_id := None\<rparr>)"
    by (simp add: db_accepts_def chain_to_previous_def h Let_def rotated_record_def blank_record_def ALLOWED_SUBSYSTEMS_def
        demo_audit_db_def demo_audit_record_def demo_rotation_env_def)
  have "ar_content_hash (chain_to_previous demo_audit_codec ?r None) \<noteq> None"
    by (simp add: chain_to_previous_def Let_def)
  then have "unlinked_write demo_audit_codec (Some ''db'') env ?r demo_audit_db = (Inr 2,
      demo_audit_db\<lparr>ad_seq := 2, ad_rows := ad_rows demo_audit_db @
        [(2, (chain_to_previous demo_audit_codec ?r None)\<lparr>ar_event_id := None\<rparr>)]\<rparr>)" for env
    using a by (simp add: unlinked_write_def v eff_simps write_via_psql_def demo_no_redaction
        serialize_for_postgres_def db_insert_def Let_def) (simp add: demo_audit_db_def)
  then show ?thesis by (simp add: emit_vault_rotated_audit_def) (simp add: demo_rotation_env_def)
qed

theorem rotation_claimed_without_rotation_witness:
  "\<exists>resp s' row. rotate_route demo_rotation_env ''k'' ''ann'' 9 demo_rotation_state = Some (Inr resp, s') \<and>
    rp_rotated_at resp = 100 \<and> rs_store s' = [(''k'', ''v'')] \<and> ar_action row = ''vault_rotated'' \<and>
    integrity_view None (ad_rows (rs_audit s')) =
      integrity_view None (ad_rows (rs_audit demo_rotation_state)) @ [(2, row)]"
proof -
  have "rs_audit demo_rotation_state = demo_audit_db" by (simp add: demo_rotation_state_def)
  then obtain db where "emit_vault_rotated_audit demo_rotation_env ''k'' ''shared.secrets.rotation''
      (rotation_metadata demo_rotation_env [] None) (rs_audit demo_rotation_state) = (Some 2, db)"
    using demo_emit by metis
  from rotation_claimed_without_rotation [OF _ _ this, of "''ann''" 9] show ?thesis
    by (simp add: demo_rotation_env_def demo_rotation_state_def dict_get_def demo_audit_db_def)
qed

theorem rotation_leaves_no_false_claim_witness:
  "\<exists>r s'. rotate_secret_at (demo_rotation_env\<lparr>ro_rotate := Some (\<lambda>p. eraise SecretAccessDenied)\<rparr>) ''k'' ''ann'' None
     demo_rotation_state = Some (r, s') \<and> rs_audit s' = rs_audit demo_rotation_state"
proof -
  let ?E = "demo_rotation_env\<lparr>ro_rotate := Some (\<lambda>p. eraise SecretAccessDenied)\<rparr>"
  have "rotate_secret_at ?E ''k'' ''ann'' None demo_rotation_state = Some (Inl SecretAccessDenied, demo_rotation_state)"
    by (simp add: rotate_secret_at_def eff_simps)
  from this rotation_leaves_no_false_claim [OF this] show ?thesis by blast
qed

end
