(* ===== verification/Cost_Router.thy ===== *)
theory Cost_Router
  imports Regex Complex_Main
begin

text \<open>
  \<open>shared/cost\<close>: the budget router of \<open>router.py\<close> (menu, tier selection, projected cost, hard caps), the
  selection table of \<open>model_selection_table.py\<close>, the two-step routing of \<open>team_router.py\<close> and the tier
  overrides of \<open>user_override.py\<close>. A \<open>Decimal\<close> is a rational number: the sums and products of prices,
  token counts and spendings that occur have fewer than the 28 digits of Python's context, so they are
  exact, and \<open>_q\<close> rounds to four places half up. The bundle is its validated cost section. Rationales and
  other display texts are left out; the complexity score of a task is a parameter.
\<close>

section \<open>Models and prices\<close>

datatype tier = Tier_low | Tier_medium | Tier_high | Tier_premium

fun tier_rank :: "tier \<Rightarrow> nat" where
  "tier_rank Tier_low = 0"
| "tier_rank Tier_medium = 1"
| "tier_rank Tier_high = 2"
| "tier_rank Tier_premium = 3"

definition tier_of_text :: "string \<Rightarrow> tier option" where
  "tier_of_text s = map_of [(''low'', Tier_low), (''medium'', Tier_medium), (''high'', Tier_high),
     (''premium'', Tier_premium)] s"

text \<open>\<open>quantize(Decimal("0.0001"), ROUND_HALF_UP)\<close>; half up is away from zero.\<close>

definition quant :: "rat \<Rightarrow> rat" where
  "quant d = (let x = d * 10000 in
     (if 0 \<le> x then of_int \<lfloor>x + 1 / 2\<rfloor> else - of_int \<lfloor>- x + 1 / 2\<rfloor>) / 10000)"

record model_info =
  mi_model_id :: string
  mi_provider :: string
  mi_tier :: tier
  mi_cost_in :: rat
  mi_cost_out :: rat
  mi_context_window :: int

definition fb_row :: "string \<Rightarrow> string \<Rightarrow> tier \<Rightarrow> rat \<Rightarrow> rat \<Rightarrow> int \<Rightarrow> string \<times> model_info" where
  "fb_row m p t i o' c = (m, \<lparr>mi_model_id = m, mi_provider = p, mi_tier = t, mi_cost_in = i, mi_cost_out = o',
     mi_context_window = c\<rparr>)"

definition FB :: "(string, model_info) dict" where
  "FB =
    [fb_row ''claude-opus-4-6'' ''anthropic'' Tier_high (15/1000) (75/1000) 200000,
     fb_row ''claude-opus-4'' ''anthropic'' Tier_high (15/1000) (75/1000) 200000,
     fb_row ''claude-sonnet-4-6'' ''anthropic'' Tier_medium (3/1000) (15/1000) 200000,
     fb_row ''claude-sonnet-4'' ''anthropic'' Tier_medium (3/1000) (15/1000) 200000,
     fb_row ''claude-haiku-3.5'' ''anthropic'' Tier_low (1/1000) (5/1000) 200000,
     fb_row ''claude-haiku-4-5-20251001'' ''anthropic'' Tier_low (1/1000) (5/1000) 200000,
     fb_row ''gpt-5'' ''openai'' Tier_high (5/1000) (20/1000) 128000,
     fb_row ''gpt-4o'' ''openai'' Tier_medium (25/10000) (10/1000) 128000,
     fb_row ''gpt-4o-mini'' ''openai'' Tier_low (15/100000) (6/10000) 128000]"

text \<open>
  The environment: the line psql prints for a model (\<open>None\<close> when it fails or prints nothing), \<open>Decimal\<close> of a
  text (\<open>None\<close> for \<open>InvalidOperation\<close>), and today's rows of the cost ledger (\<open>None\<close> when psql fails).
\<close>

record cost_row =
  co_project_id :: int
  co_actor :: string
  co_phase :: string
  co_cost_usd :: rat

record cost_env =
  rt_model_line :: "string \<Rightarrow> string option"
  rt_decimal :: "string \<Rightarrow> rat option"
  rt_ledger :: "cost_row list option"

datatype cost_error = Invalid_operation | Invalid_request

definition parse_context :: "string \<Rightarrow> int option" where
  "parse_context ctx = (if ctx = [] then Some 0 else py_int ctx)"

text \<open>
  A line that does not split into five parts or whose context is no number falls through to the built-in
  prices; a price that is no decimal raises \<open>InvalidOperation\<close>, which is not caught.
\<close>

definition lookup_model :: "cost_env \<Rightarrow> string \<Rightarrow> (cost_error, model_info option) res" where
  "lookup_model E mid = (case rt_model_line E mid of
     None \<Rightarrow> Inr (map_of FB mid)
   | Some raw \<Rightarrow> (case py_split (CHR ''|'') raw of
       [prov, tier, ci, co, ctx] \<Rightarrow>
         (case (rt_decimal E ci, rt_decimal E co) of
            (Some i, Some o') \<Rightarrow> (case parse_context ctx of
               None \<Rightarrow> Inr (map_of FB mid)
             | Some n \<Rightarrow> Inr (Some \<lparr>mi_model_id = mid, mi_provider = prov,
                 mi_tier = (case tier_of_text tier of None \<Rightarrow> Tier_medium | Some t \<Rightarrow> t),
                 mi_cost_in = i, mi_cost_out = o', mi_context_window = n\<rparr>))
          | _ \<Rightarrow> Inl Invalid_operation)
     | _ \<Rightarrow> Inr (map_of FB mid)))"

section \<open>The bundle and the menu\<close>

record cost_bundle =
  cb_allowed :: "string list"
  cb_disallowed :: "string list"
  cb_per_project_cap :: rat
  cb_daily_cap :: rat
  cb_phase_caps :: "(string, rat) dict"

definition list_allowed_models :: "cost_env \<Rightarrow> cost_bundle \<Rightarrow> tier option \<Rightarrow> (cost_error, model_info list) res" where
  "list_allowed_models E b t =
     rbind (rmap (lookup_model E) (filter (\<lambda>m. m \<notin> set (cb_disallowed b)) (cb_allowed b))) (\<lambda>infos.
     Inr (filter (\<lambda>m. t = None \<or> Some (mi_tier m) = t) (map the (filter (\<lambda>i. i \<noteq> None) infos))))"

section \<open>Budgets\<close>

definition spend :: "cost_env \<Rightarrow> (cost_row \<Rightarrow> bool) \<Rightarrow> rat" where
  "spend E p = (case rt_ledger E of None \<Rightarrow> 0 | Some rows \<Rightarrow> sum_list (map co_cost_usd (filter p rows)))"

record budget_status =
  bs_project_spent :: rat
  bs_project_cap :: rat
  bs_user_spent :: rat
  bs_user_cap :: rat
  bs_remaining :: rat

definition remaining_today :: "rat \<Rightarrow> rat \<Rightarrow> rat \<Rightarrow> rat \<Rightarrow> rat" where
  "remaining_today ps pc us uc =
     (case map (\<lambda>(s, c). c - s) (filter (\<lambda>(s, c). 0 < c) [(ps, pc), (us, uc)]) of
        [] \<Rightarrow> 0 | c # cs \<Rightarrow> quant (max (foldl min c cs) 0))"

definition get_budget_status :: "cost_env \<Rightarrow> cost_bundle \<Rightarrow> int \<Rightarrow> string \<Rightarrow> budget_status" where
  "get_budget_status E b pid user =
     (let ps = quant (if pid \<noteq> 0 then spend E (\<lambda>r. co_project_id r = pid) else 0);
          pc = quant (cb_per_project_cap b);
          us = quant (if user \<noteq> [] then spend E (\<lambda>r. co_actor r = user) else 0);
          uc = quant (cb_daily_cap b) in
      \<lparr>bs_project_spent = ps, bs_project_cap = pc, bs_user_spent = us, bs_user_cap = uc,
       bs_remaining = remaining_today ps pc us uc\<rparr>)"

definition estimate_phase_cost :: "cost_env \<Rightarrow> int \<Rightarrow> string \<Rightarrow> rat" where
  "estimate_phase_cost E pid phase = quant (spend E (\<lambda>r. co_project_id r = pid \<and> co_phase r = phase))"

definition phase_cap :: "cost_bundle \<Rightarrow> string \<Rightarrow> rat" where
  "phase_cap b phase = dict_get (cb_phase_caps b) phase 0"

definition project_cost :: "model_info \<Rightarrow> int \<Rightarrow> int \<Rightarrow> rat" where
  "project_cost m in_tok out_tok =
     quant (of_int in_tok / 1000 * mi_cost_in m + of_int out_tok / 1000 * mi_cost_out m)"

section \<open>Choosing a model\<close>

definition tier_order :: "tier \<Rightarrow> tier list" where
  "tier_order t = t # filter (\<lambda>u. tier_rank t < tier_rank u) [Tier_medium, Tier_high, Tier_premium] @
     filter (\<lambda>u. tier_rank u < tier_rank t) [Tier_high, Tier_medium, Tier_low]"

text \<open>Python's \<open>min\<close> with a key: the first of the least.\<close>

definition min_by :: "('a \<Rightarrow> 'b :: linorder) \<Rightarrow> 'a list \<Rightarrow> 'a" where
  "min_by key xs = foldl (\<lambda>b y. if key y < key b then y else b) (hd xs) (tl xs)"

definition tier_models :: "model_info list \<Rightarrow> tier \<Rightarrow> model_info list" where
  "tier_models menu t = filter (\<lambda>m. mi_tier m = t) menu"

definition select_for_tier :: "model_info list \<Rightarrow> tier \<Rightarrow> model_info option \<times> tier \<times> bool" where
  "select_for_tier menu t =
     (case find (\<lambda>(i, u). tier_models menu u \<noteq> []) (enumerate 0 (tier_order t)) of
        Some (i, u) \<Rightarrow> (Some (min_by (\<lambda>m. project_cost m 1 1) (tier_models menu u)), u, 0 < i)
      | None \<Rightarrow> (None, t, True))"

record model_override =
  mo_model_id :: string
  mo_justification :: string
  mo_granted_by :: string

record route_request =
  rq_project_id :: int
  rq_phase :: string
  rq_role :: string
  rq_intended_tier :: tier
  rq_input_tokens :: int
  rq_output_tokens :: int
  rq_actor :: string
  rq_override :: "model_override option"

definition make_route_request :: "int \<Rightarrow> string \<Rightarrow> string \<Rightarrow> tier \<Rightarrow> int \<Rightarrow> int \<Rightarrow> string \<Rightarrow> model_override option \<Rightarrow>
    (cost_error, route_request) res" where
  "make_route_request pid phase role t i o' actor ov =
     (if 0 \<le> i \<and> 0 \<le> o' \<and> py_strip phase \<noteq> [] \<and> py_strip role \<noteq> [] \<and> py_strip actor \<noteq> []
      then Inr \<lparr>rq_project_id = pid, rq_phase = py_strip phase, rq_role = py_strip role, rq_intended_tier = t,
                rq_input_tokens = i, rq_output_tokens = o', rq_actor = py_strip actor, rq_override = ov\<rparr>
      else Inl Invalid_request)"

record route_decision =
  rd_selected_model :: string
  rd_selected_tier :: tier
  rd_projected_cost :: rat
  rd_would_exceed :: bool
  rd_blocked :: bool
  rd_fallback_attempted :: bool

definition block_decision :: "route_request \<Rightarrow> string \<Rightarrow> bool \<Rightarrow> route_decision" where
  "block_decision rq model fb = \<lparr>rd_selected_model = model, rd_selected_tier = rq_intended_tier rq,
     rd_projected_cost = 0, rd_would_exceed = False, rd_blocked = True, rd_fallback_attempted = fb\<rparr>"

definition breaches :: "rat \<Rightarrow> rat \<Rightarrow> rat \<Rightarrow> bool" where
  "breaches projected spent cap \<longleftrightarrow> 0 < cap \<and> spent + projected > cap"

definition any_breach :: "cost_env \<Rightarrow> cost_bundle \<Rightarrow> route_request \<Rightarrow> rat \<Rightarrow> bool" where
  "any_breach E b rq projected =
     (let st = get_budget_status E b (rq_project_id rq) (rq_actor rq) in
      breaches projected (bs_project_spent st) (bs_project_cap st) \<or>
      breaches projected (bs_user_spent st) (bs_user_cap st) \<or>
      breaches projected (estimate_phase_cost E (rq_project_id rq) (rq_phase rq)) (phase_cap b (rq_phase rq)))"

definition decide :: "cost_env \<Rightarrow> cost_bundle \<Rightarrow> route_request \<Rightarrow> model_info \<Rightarrow> tier \<Rightarrow> bool \<Rightarrow> route_decision" where
  "decide E b rq m t fb =
     (let projected = project_cost m (rq_input_tokens rq) (rq_output_tokens rq); hit = any_breach E b rq projected in
      \<lparr>rd_selected_model = mi_model_id m, rd_selected_tier = t, rd_projected_cost = projected,
       rd_would_exceed = hit, rd_blocked = hit, rd_fallback_attempted = fb\<rparr>)"

definition route_menu :: "cost_env \<Rightarrow> cost_bundle \<Rightarrow> model_info list \<Rightarrow> route_request \<Rightarrow> route_decision" where
  "route_menu E b menu rq =
     (if menu = [] then block_decision rq [] False
      else case rq_override rq of
        Some ov \<Rightarrow> (case find (\<lambda>m. mi_model_id m = mo_model_id ov) menu of
            None \<Rightarrow> block_decision rq (mo_model_id ov) False
          | Some m \<Rightarrow> decide E b rq m (mi_tier m) False)
      | None \<Rightarrow> (case select_for_tier menu (rq_intended_tier rq) of
            (None, _, _) \<Rightarrow> block_decision rq [] True
          | (Some m, t, fb) \<Rightarrow> decide E b rq m t fb))"

definition route :: "cost_env \<Rightarrow> cost_bundle \<Rightarrow> route_request \<Rightarrow> (cost_error, route_decision) res" where
  "route E b rq = rbind (list_allowed_models E b None) (\<lambda>menu. Inr (route_menu E b menu rq))"

definition would_violate :: "cost_env \<Rightarrow> cost_bundle \<Rightarrow> route_request \<Rightarrow> (cost_error, bool) res" where
  "would_violate E b rq = rbind (route E b rq) (\<lambda>d. Inr (rd_blocked d))"

section \<open>The selection table\<close>

datatype complexity = Trivial | Simple | Moderate | Complex_task | Very_complex

definition ALL_COMPLEXITIES :: "complexity list" where
  "ALL_COMPLEXITIES = [Trivial, Simple, Moderate, Complex_task, Very_complex]"

fun complexity_index :: "complexity \<Rightarrow> int" where
  "complexity_index Trivial = 0"
| "complexity_index Simple = 1"
| "complexity_index Moderate = 2"
| "complexity_index Complex_task = 3"
| "complexity_index Very_complex = 4"

record selection_entry =
  se_role :: string
  se_complexity :: complexity
  se_preferred_tier :: tier
  se_fallback_tier :: "tier option"
  se_cost_ceiling :: rat

definition make_entry :: "string \<Rightarrow> complexity \<Rightarrow> tier \<Rightarrow> tier option \<Rightarrow> rat \<Rightarrow> (cost_error, selection_entry) res" where
  "make_entry role c p f usd =
     (let r = py_lower (py_strip role) in
      if r = [] \<or> usd < 0 then Inl Invalid_request
      else Inr \<lparr>se_role = r, se_complexity = c, se_preferred_tier = p, se_fallback_tier = f, se_cost_ceiling = usd\<rparr>)"

record selection_table =
  st_version :: int
  st_entries :: "selection_entry list"

definition entry_key :: "selection_entry \<Rightarrow> string \<times> complexity" where
  "entry_key e = (se_role e, se_complexity e)"

definition table_index :: "selection_table \<Rightarrow> (string \<times> complexity, selection_entry) dict" where
  "table_index t = fold (\<lambda>e d. AList.update (entry_key e) e d) (st_entries t) []"

text \<open>The buckets around a centre: distance one below, one above, distance two below, and so on.\<close>

definition neighbours :: "complexity \<Rightarrow> complexity list" where
  "neighbours c = concat (map (\<lambda>dist. concat (map (\<lambda>sign.
     let j = complexity_index c + sign * dist in
     if 0 \<le> j \<and> j < 5 then [ALL_COMPLEXITIES ! nat j] else []) [- 1, 1])) [1, 2, 3, 4])"

fun first_hit :: "(string \<times> complexity, selection_entry) dict \<Rightarrow> string \<Rightarrow> complexity list \<Rightarrow> selection_entry option" where
  "first_hit idx role [] = None"
| "first_hit idx role (c # cs) = (case map_of idx (role, c) of Some e \<Rightarrow> Some e | None \<Rightarrow> first_hit idx role cs)"

definition nearest_for_role :: "(string \<times> complexity, selection_entry) dict \<Rightarrow> string \<Rightarrow> complexity \<Rightarrow> selection_entry option" where
  "nearest_for_role idx role c = first_hit idx role (neighbours c)"

definition safe_default :: "string \<Rightarrow> complexity \<Rightarrow> selection_entry" where
  "safe_default r c = \<lparr>se_role = (if r = [] then ''unknown'' else r), se_complexity = c,
     se_preferred_tier = Tier_medium, se_fallback_tier = Some Tier_low, se_cost_ceiling = 1/2\<rparr>"

definition table_lookup :: "selection_table \<Rightarrow> string \<Rightarrow> complexity \<Rightarrow> selection_entry" where
  "table_lookup t role c =
     (let r = py_lower (py_strip role); idx = table_index t in
      case map_of idx (r, c) of Some e \<Rightarrow> e | None \<Rightarrow>
      (case nearest_for_role idx r c of Some e \<Rightarrow> e | None \<Rightarrow>
      (case map_of idx (''*'', c) of Some e \<Rightarrow> e | None \<Rightarrow>
      (case nearest_for_role idx ''*'' c of Some e \<Rightarrow> e | None \<Rightarrow> safe_default r c))))"

definition merge_tables :: "selection_table \<Rightarrow> selection_table option \<Rightarrow> selection_table" where
  "merge_tables base override = (case override of
     None \<Rightarrow> base
   | Some o' \<Rightarrow> if st_entries o' = [] then base
       else \<lparr>st_version = (if st_version o' \<noteq> 0 then st_version o' else st_version base),
             st_entries = map snd (fold (\<lambda>e d. AList.update (entry_key e) e d) (st_entries o') (table_index base))\<rparr>)"

definition tier_higher :: "tier \<Rightarrow> tier \<Rightarrow> tier" where
  "tier_higher a b = (if tier_rank b \<le> tier_rank a then a else b)"

section \<open>Team routing\<close>

text \<open>\<open>bucket\<close> is the complexity bucket the scorer gives the task of a request.\<close>

record team_request =
  tr_role :: string
  tr_phase :: string
  tr_project_id :: int
  tr_actor :: string
  tr_input_tokens :: int
  tr_output_tokens :: int
  tr_user_override_tier :: "tier option"

record team_decision =
  td_selected_tier :: tier
  td_selected_model :: string
  td_entry :: selection_entry
  td_fallback_used :: bool
  td_blocked :: bool
  td_router :: route_decision

definition override_entry :: "tier \<Rightarrow> selection_entry" where
  "override_entry t = \<lparr>se_role = ''override'', se_complexity = Moderate, se_preferred_tier = t,
     se_fallback_tier = None, se_cost_ceiling = 0\<rparr>"

definition delegate :: "cost_env \<Rightarrow> cost_bundle \<Rightarrow> team_request \<Rightarrow> tier \<Rightarrow> (cost_error, route_decision) res" where
  "delegate E b q t =
     rbind (make_route_request (tr_project_id q) (tr_phase q) (tr_role q) t (tr_input_tokens q) (tr_output_tokens q)
              (tr_actor q) None) (route E b)"

definition team_decision_of :: "selection_entry \<Rightarrow> bool \<Rightarrow> route_decision \<Rightarrow> team_decision" where
  "team_decision_of e fb d = \<lparr>td_selected_tier = rd_selected_tier d, td_selected_model = rd_selected_model d,
     td_entry = e, td_fallback_used = fb, td_blocked = rd_blocked d, td_router = d\<rparr>"

definition team_route :: "cost_env \<Rightarrow> cost_bundle \<Rightarrow> selection_table \<Rightarrow> (team_request \<Rightarrow> complexity) \<Rightarrow> team_request \<Rightarrow>
    (cost_error, team_decision) res" where
  "team_route E b table bucket q = (case tr_user_override_tier q of
     Some t \<Rightarrow> rbind (delegate E b q t) (\<lambda>d. Inr (team_decision_of (override_entry t) False d))
   | None \<Rightarrow>
       (let entry = table_lookup table (tr_role q) (bucket q) in
        rbind (delegate E b q (se_preferred_tier entry)) (\<lambda>d.
        if rd_blocked d \<and> se_fallback_tier entry \<noteq> None \<and> se_fallback_tier entry \<noteq> Some (se_preferred_tier entry)
        then rbind (delegate E b q (the (se_fallback_tier entry))) (\<lambda>fd.
          Inr (if rd_blocked fd then team_decision_of entry False d else team_decision_of entry True fd))
        else Inr (team_decision_of entry False d))))"

definition would_block :: "cost_env \<Rightarrow> cost_bundle \<Rightarrow> selection_table \<Rightarrow> (team_request \<Rightarrow> complexity) \<Rightarrow> team_request \<Rightarrow>
    (cost_error, bool) res" where
  "would_block E b table bucket q = rbind (team_route E b table bucket q) (\<lambda>d. Inr (td_blocked d))"

section \<open>Tier overrides\<close>

record tier_override =
  to_override_id :: "int option"
  to_project_id :: int
  to_directive_id :: "string option"
  to_role :: "string option"
  to_forced_tier :: tier
  to_forced_model :: "string option"
  to_justification :: string
  to_granted_by :: string
  to_expires_at :: "time option"
  to_revoked :: bool
  to_revoked_by :: "string option"
  to_revoked_reason :: "string option"

text \<open>
  The rows of a project's metadata: those that read back as an override, and others, which reading skips.
  A write that fails (psql, or no such project) is not reported.
\<close>

datatype stored_override = Stored tier_override | Unreadable

record override_db =
  od_projects :: "(int, stored_override list) dict"
  od_readable :: bool
  od_writable :: bool

definition load_overrides :: "int \<Rightarrow> override_db \<Rightarrow> tier_override list" where
  "load_overrides pid db =
     (if od_readable db
      then concat (map (\<lambda>r. case r of Stored x \<Rightarrow> [x] | Unreadable \<Rightarrow> []) (dict_get (od_projects db) pid []))
      else [])"

definition save_overrides :: "int \<Rightarrow> tier_override list \<Rightarrow> override_db \<Rightarrow> override_db" where
  "save_overrides pid rows db =
     (if od_writable db then db\<lparr>od_projects := AList.map_entry pid (\<lambda>_. map Stored rows) (od_projects db)\<rparr> else db)"

definition max_id :: "tier_override list \<Rightarrow> int" where
  "max_id rows = (case map (\<lambda>x. case to_override_id x of None \<Rightarrow> 0 | Some k \<Rightarrow> k) rows of
     [] \<Rightarrow> 0 | n # ns \<Rightarrow> foldl max n ns)"

definition set_override :: "tier_override \<Rightarrow> override_db \<Rightarrow> int \<times> override_db" where
  "set_override ov db =
     (let rows = filter (\<lambda>x. to_revoked x \<or> \<not> (to_directive_id x = to_directive_id ov \<and> to_role x = to_role ov))
                   (load_overrides (to_project_id ov) db);
          n = max_id rows + 1 in
      (n, save_overrides (to_project_id ov) (rows @ [ov\<lparr>to_override_id := Some n\<rparr>]) db))"

definition ov_active :: "time \<Rightarrow> tier_override \<Rightarrow> bool" where
  "ov_active now x \<longleftrightarrow> \<not> to_revoked x \<and> (case to_expires_at x of None \<Rightarrow> True | Some t \<Rightarrow> now < t)"

definition specificity :: "tier_override \<Rightarrow> nat" where
  "specificity x = (if to_directive_id x \<notin> {None, Some []} then 2 else 0) +
     (if to_role x \<notin> {None, Some []} then 1 else 0)"

definition ov_candidates :: "time \<Rightarrow> string option \<Rightarrow> string option \<Rightarrow> tier_override list \<Rightarrow> tier_override list" where
  "ov_candidates now directive_id role rows = filter (\<lambda>x. ov_active now x \<and>
     to_directive_id x \<in> {None, directive_id} \<and> to_role x \<in> {None, role}) rows"

text \<open>\<open>sort(reverse=True)\<close> keeps the order of rows with equal keys.\<close>

definition lookup_override :: "time \<Rightarrow> int \<Rightarrow> string option \<Rightarrow> string option \<Rightarrow> override_db \<Rightarrow> tier_override option" where
  "lookup_override now pid directive_id role db =
     (case sort_key (\<lambda>x. 3 - specificity x) (ov_candidates now directive_id role (load_overrides pid db)) of
        [] \<Rightarrow> None | x # _ \<Rightarrow> Some x)"

definition apply_to_route_request :: "time \<Rightarrow> int \<Rightarrow> string \<Rightarrow> string option \<Rightarrow> override_db \<Rightarrow> route_request \<Rightarrow> route_request" where
  "apply_to_route_request now pid role directive_id db rq =
     (case lookup_override now pid directive_id (Some role) db of
        None \<Rightarrow> rq
      | Some x \<Rightarrow> rq\<lparr>rq_intended_tier := to_forced_tier x,
          rq_override := (if to_forced_model x \<notin> {None, Some []}
            then Some \<lparr>mo_model_id = the (to_forced_model x), mo_justification = to_justification x,
                       mo_granted_by = to_granted_by x\<rparr>
            else rq_override rq)\<rparr>)"

definition list_active_overrides :: "time \<Rightarrow> int list \<Rightarrow> override_db \<Rightarrow> tier_override list" where
  "list_active_overrides now pids db = concat (map (\<lambda>pid. filter (ov_active now) (load_overrides pid db)) pids)"

definition revoke_row :: "int \<Rightarrow> string \<Rightarrow> string \<Rightarrow> tier_override \<Rightarrow> tier_override" where
  "revoke_row n revoked_by reason x =
     (if to_override_id x = Some n \<and> \<not> to_revoked x
      then x\<lparr>to_revoked := True, to_revoked_by := Some revoked_by, to_revoked_reason := Some reason\<rparr> else x)"

definition revoke_override :: "int \<Rightarrow> int \<Rightarrow> string \<Rightarrow> string \<Rightarrow> override_db \<Rightarrow> bool \<times> override_db" where
  "revoke_override n pid revoked_by reason db =
     (let rows = load_overrides pid db in
      if list_ex (\<lambda>x. to_override_id x = Some n \<and> \<not> to_revoked x) rows
      then (True, save_overrides pid (map (revoke_row n revoked_by reason) rows) db) else (False, db))"

section \<open>What the router guarantees\<close>

lemma min_by_in: "xs \<noteq> [] \<Longrightarrow> min_by key xs \<in> set xs"
proof -
  have "foldl (\<lambda>b y. if key y < key b then y else b) x ys \<in> insert x (set ys)" for x ys
    by (induction ys arbitrary: x) (force split: if_splits)+
  then show "xs \<noteq> [] \<Longrightarrow> min_by key xs \<in> set xs" by (cases xs) (auto simp: min_by_def)
qed

lemma min_by_ties: "\<forall>x \<in> set xs. key x = k \<Longrightarrow> xs \<noteq> [] \<Longrightarrow> min_by key xs = hd xs"
proof -
  have "\<forall>y \<in> set (x # ys). key y = k \<Longrightarrow> foldl (\<lambda>b y. if key y < key b then y else b) x ys = x" for x ys
    by (induction ys) auto
  then show "\<forall>x \<in> set xs. key x = k \<Longrightarrow> xs \<noteq> [] \<Longrightarrow> min_by key xs = hd xs"
    by (cases xs) (auto simp: min_by_def)
qed

lemma tier_order_all: "set (tier_order t) = UNIV"
proof -
  have "u \<in> set (tier_order t)" for u by (cases t; cases u) (simp_all add: tier_order_def)
  then show ?thesis by blast
qed

lemma tier_order_head: "tier_order t = t # tl (tier_order t)"
  by (simp add: tier_order_def)

lemma tier_models_in: "m \<in> set menu \<Longrightarrow> m \<in> set (tier_models menu (mi_tier m))"
  by (simp add: tier_models_def)

lemma select_for_tier_total:
  assumes "menu \<noteq> []"
  shows "\<exists>m u fb. select_for_tier menu t = (Some m, u, fb) \<and> m \<in> set menu \<and> mi_tier m = u \<and>
    (\<exists>pre post. tier_order t = pre @ u # post \<and> (\<forall>v \<in> set pre. tier_models menu v = [])) \<and>
    (fb \<longleftrightarrow> tier_models menu t = [])"
proof -
  let ?P = "\<lambda>(i :: nat, u). tier_models menu u \<noteq> []"
  let ?os = "enumerate 0 (tier_order t)"
  obtain m where m: "m \<in> set menu" using assms by (meson list.set_sel(1))
  have "mi_tier m \<in> set (map snd ?os)" using tier_order_all by simp
  then obtain k where "(k, mi_tier m) \<in> set ?os" by (metis imageE list.set_map prod.collapse)
  moreover have "tier_models menu (mi_tier m) \<noteq> []" using tier_models_in [OF m] by force
  ultimately have "\<exists>x \<in> set ?os. ?P x" by blast
  then obtain i u where f: "find ?P ?os = Some (i, u)"
    by (metis (no_types, lifting) find_None_iff not_Some_eq surj_pair)
  then obtain n where n: "n < length ?os" "?P (?os ! n)" "(i, u) = ?os ! n" "\<forall>j < n. \<not> ?P (?os ! j)"
    by (auto simp: find_Some_iff)
  then have i: "i = n" "u = tier_order t ! n" by (auto simp: nth_enumerate_eq)
  have before: "\<forall>j < n. tier_models menu (tier_order t ! j) = []"
    using n(1,4) by (simp add: nth_enumerate_eq)
  have ne: "tier_models menu u \<noteq> []" using n(2,3) by (metis case_prodD)
  have split: "tier_order t = take n (tier_order t) @ u # drop (Suc n) (tier_order t)"
    using n(1) i(2) by (simp add: id_take_nth_drop)
  have pre: "\<forall>v \<in> set (take n (tier_order t)). tier_models menu v = []"
    using before n(1) by (auto simp: in_set_conv_nth)
  have fb: "0 < i \<longleftrightarrow> tier_models menu t = []"
  proof
    assume "0 < i"
    then have "tier_order t ! 0 = t \<and> 0 < n" using i tier_order_head by (metis nth_Cons_0)
    then show "tier_models menu t = []" using before by metis
  next
    assume e: "tier_models menu t = []"
    show "0 < i"
    proof (rule ccontr)
      assume "\<not> 0 < i"
      then have "u = t" using i tier_order_head by (metis gr0I nth_Cons_0)
      then show False using e ne by simp
    qed
  qed
  let ?m = "min_by (\<lambda>m. project_cost m 1 1) (tier_models menu u)"
  have "?m \<in> set (tier_models menu u)" using min_by_in ne by blast
  then have "?m \<in> set menu" "mi_tier ?m = u" by (simp_all add: tier_models_def)
  then show ?thesis using f split pre fb by (auto simp: select_for_tier_def)
qed

text \<open>
  With a menu that is not empty a model is always found: it is on the menu, of the tier reported, every
  tier that comes before that one in the order (the intended one, then higher, then lower ones) has no model, and
  a fallback is reported exactly when the intended tier has none.
\<close>

theorem tier_selection_total:
  assumes "menu \<noteq> []"
  shows "\<exists>m u fb. select_for_tier menu t = (Some m, u, fb) \<and> m \<in> set menu \<and> mi_tier m = u \<and>
    (\<exists>pre post. tier_order t = pre @ u # post \<and> (\<forall>v \<in> set pre. tier_models menu v = [])) \<and>
    (fb \<longleftrightarrow> tier_models menu t = [])"
  by (rule select_for_tier_total [OF assms])

lemma FB_keys: "map_of FB mid = Some m \<Longrightarrow> mi_model_id m = mid"
  by (auto simp: FB_def fb_row_def split: if_splits)

lemma lookup_model_id: "lookup_model E mid = Inr (Some m) \<Longrightarrow> mi_model_id m = mid"
  by (auto simp: lookup_model_def FB_keys split: option.splits list.splits prod.splits)

lemma rmap_mem: "rmap f xs = Inr ys \<Longrightarrow> y \<in> set ys \<Longrightarrow> \<exists>x \<in> set xs. f x = Inr y"
  by (induction xs arbitrary: ys) (auto simp: rbind_eq_Inr)

lemma menu_allowed:
  assumes "list_allowed_models E b t = Inr menu" "m \<in> set menu"
  shows "mi_model_id m \<in> set (cb_allowed b) - set (cb_disallowed b)"
proof -
  from assms obtain infos where i: "rmap (lookup_model E) (filter (\<lambda>m. m \<notin> set (cb_disallowed b)) (cb_allowed b)) = Inr infos"
    and m: "Some m \<in> set infos"
    by (auto simp: list_allowed_models_def rbind_eq_Inr)
  from rmap_mem [OF this] obtain mid where "mid \<in> set (cb_allowed b) - set (cb_disallowed b)" "lookup_model E mid = Inr (Some m)"
    by auto
  then show ?thesis using lookup_model_id by blast
qed

lemma unblocked_decides:
  assumes "\<not> rd_blocked (route_menu E b menu rq)"
  obtains m t fb where "m \<in> set menu" "route_menu E b menu rq = decide E b rq m t fb"
    "\<not> any_breach E b rq (project_cost m (rq_input_tokens rq) (rq_output_tokens rq))"
proof -
  have ne: "menu \<noteq> []" using assms by (auto simp: route_menu_def block_decision_def)
  have hit: "any_breach E b rq (project_cost m (rq_input_tokens rq) (rq_output_tokens rq)) \<longleftrightarrow> rd_blocked (decide E b rq m t fb)"
    for m t fb by (simp add: decide_def Let_def)
  show ?thesis
  proof (cases "rq_override rq")
    case None
    obtain m u fb where "select_for_tier menu (rq_intended_tier rq) = (Some m, u, fb)" "m \<in> set menu"
      using select_for_tier_total [OF ne] by blast
    then show ?thesis using that [of m u fb] assms ne None hit by (simp add: route_menu_def)
  next
    case (Some ov)
    then obtain m where "find (\<lambda>m. mi_model_id m = mo_model_id ov) menu = Some m"
      using assms ne by (auto simp: route_menu_def block_decision_def split: option.splits)
    moreover from this have "m \<in> set menu" by (auto simp: find_Some_iff)
    ultimately show ?thesis using that [of m "mi_tier m" False] assms ne Some hit by (simp add: route_menu_def)
  qed
qed

lemma within_cap: "\<not> breaches p s c \<Longrightarrow> 0 < c \<Longrightarrow> s + p \<le> c"
  by (simp add: breaches_def)

text \<open>
  Claim C10. When the cost ledger can be read, and all its queries see the same rows of today, a request that is not
  blocked gets a model the bundle allows and does not disallow, pinned or not, and what the project, the user and the
  phase spent today according to these rows, rounded to four decimals, plus the projected cost stays within each cap that
  is set. (An unreadable ledger counts as no spending: \<open>unreachable_ledger_ignores_spending\<close>.)
\<close>

theorem unblocked_route_within_caps:
  assumes "route E b rq = Inr d" "\<not> rd_blocked d" "rt_ledger E = Some rows"
  shows "rd_selected_model d \<in> set (cb_allowed b) - set (cb_disallowed b) \<and>
    (rq_project_id rq \<noteq> 0 \<and> 0 < quant (cb_per_project_cap b) \<longrightarrow>
      quant (\<Sum>r \<leftarrow> filter (\<lambda>r. co_project_id r = rq_project_id rq) rows. co_cost_usd r) + rd_projected_cost d
        \<le> quant (cb_per_project_cap b)) \<and>
    (rq_actor rq \<noteq> [] \<and> 0 < quant (cb_daily_cap b) \<longrightarrow>
      quant (\<Sum>r \<leftarrow> filter (\<lambda>r. co_actor r = rq_actor rq) rows. co_cost_usd r) + rd_projected_cost d
        \<le> quant (cb_daily_cap b)) \<and>
    (0 < phase_cap b (rq_phase rq) \<longrightarrow>
      quant (\<Sum>r \<leftarrow> filter (\<lambda>r. co_project_id r = rq_project_id rq \<and> co_phase r = rq_phase rq) rows. co_cost_usd r) +
        rd_projected_cost d \<le> phase_cap b (rq_phase rq))"
proof -
  obtain menu where menu: "list_allowed_models E b None = Inr menu" and d: "d = route_menu E b menu rq"
    using assms(1) by (auto simp: route_def rbind_eq_Inr)
  obtain m t fb where m: "m \<in> set menu" "d = decide E b rq m t fb"
    "\<not> any_breach E b rq (project_cost m (rq_input_tokens rq) (rq_output_tokens rq))"
    using unblocked_decides assms(2) unfolding d by metis
  have cost: "rd_projected_cost d = project_cost m (rq_input_tokens rq) (rq_output_tokens rq)"
    and sel: "rd_selected_model d = mi_model_id m"
    by (simp_all add: m(2) decide_def Let_def)
  show ?thesis
    using m(3) menu_allowed [OF menu m(1)] unfolding cost sel
    by (auto simp: any_breach_def Let_def get_budget_status_def estimate_phase_cost_def spend_def assms(3)
        intro!: within_cap)
qed

text \<open>When the ledger cannot be read, the router decides as if nothing had been spent.\<close>

lemma unreachable_ledger_ignores_spending:
  assumes "rt_ledger E = None"
  shows "route E b rq = route (E\<lparr>rt_ledger := Some []\<rparr>) b rq"
proof -
  let ?E = "E\<lparr>rt_ledger := Some []\<rparr>"
  have "lookup_model ?E = lookup_model E" 
    by (simp add: lookup_model_def fun_eq_iff cong: option.case_cong list.case_cong)
  then have m: "list_allowed_models ?E b t = list_allowed_models E b t" for t by (simp add: list_allowed_models_def)
  have "spend ?E p = spend E p" for p using assms by (simp add: spend_def)
  then have "any_breach ?E b rq c = any_breach E b rq c" for c
    by (simp add: any_breach_def get_budget_status_def estimate_phase_cost_def)
  then have "decide ?E b rq m t fb = decide E b rq m t fb" for m t fb by (simp add: decide_def)
  then have "route_menu ?E b menu rq = route_menu E b menu rq" for menu
    by (simp add: route_menu_def split: option.split prod.split)
  then show ?thesis using m by (simp add: route_def)
qed

lemma unit_cost_rounds_to_zero:
  assumes "0 \<le> mi_cost_in m + mi_cost_out m" "mi_cost_in m + mi_cost_out m < 1 / 20"
  shows "project_cost m 1 1 = 0"
proof -
  let ?x = "(mi_cost_in m + mi_cost_out m) * 10"
  have x: "(of_int 1 / 1000 * mi_cost_in m + of_int 1 / 1000 * mi_cost_out m) * 10000 = ?x"
    by (simp add: field_simps)
  have "\<lfloor>?x + 1 / 2\<rfloor> = 0" using assms by (simp add: floor_eq_iff)
  moreover have "0 \<le> ?x" using assms(1) by simp
  ultimately show ?thesis unfolding project_cost_def quant_def x Let_def by simp
qed

text \<open>
  The comparison of prices is lost in rounding: models are compared by the cost of one token in and one
  out, rounded to four places, so where all prices of a tier are below five cents per thousand tokens (all of the
  built-in ones below the high tier) the first model of the menu is taken, however much more it costs.
\<close>

theorem cheapest_is_first_of_menu:
  assumes "select_for_tier menu t = (Some m, u, fb)"
    and "\<forall>x \<in> set (tier_models menu u). 0 \<le> mi_cost_in x + mi_cost_out x \<and> mi_cost_in x + mi_cost_out x < 1 / 20"
  shows "m = hd (tier_models menu u)"
proof -
  obtain i where f: "find (\<lambda>(i, u). tier_models menu u \<noteq> []) (enumerate 0 (tier_order t)) = Some (i, u)"
    and m1: "m = min_by (\<lambda>m. project_cost m 1 1) (tier_models menu u)"
    using assms(1) by (auto simp: select_for_tier_def split: option.splits)
  from find_Some_mem [OF f] m1 have m: "m = min_by (\<lambda>m. project_cost m 1 1) (tier_models menu u)" "tier_models menu u \<noteq> []"
    by simp_all
  show ?thesis unfolding m(1)
    by (rule min_by_ties [where k = 0]) (use assms(2) m(2) unit_cost_rounds_to_zero in auto)
qed

section \<open>Tables and team routing\<close>

lemma table_index_lookup:
  "map_of (table_index t) k = find (\<lambda>e. entry_key e = k) (rev (st_entries t))"
  unfolding table_index_def map_of_fold_update by (simp split: option.split)

lemma keyed_values_lookup:
  assumes "dict_ok d" "\<forall>(k, e) \<in> set d. k = entry_key e"
  shows "find (\<lambda>e. entry_key e = k) (rev (map snd d)) = map_of d k"
  using assms
proof (induction d)
  case (Cons x d)
  obtain j e where x: "x = (j, e)" by (cases x)
  have none: "map_of d j = None" using Cons.prems(1) x by (simp add: map_of_None_fst)
  show ?case using Cons none by (auto simp: x find_append split: option.splits)
qed simp

text \<open>
  Merging the organisation's table into the default one is a per-entry override: an entry of the override
  table, the last one given for its role and bucket, replaces the default's, and every other entry is the default's.
\<close>

theorem merged_table_overrides:
  "map_of (table_index (merge_tables base (Some ov))) k =
     (case find (\<lambda>e. entry_key e = k) (rev (st_entries ov)) of Some e \<Rightarrow> Some e | None \<Rightarrow> map_of (table_index base) k)"
proof (cases "st_entries ov = []")
  case False
  let ?d = "fold (\<lambda>e d. AList.update (entry_key e) e d) (st_entries ov) (table_index base)"
  have base: "dict_ok (table_index base)" "\<forall>(k, e) \<in> set (table_index base). k = entry_key e"
    unfolding table_index_def by (rule fold_update_dict_ok, simp, rule fold_update_keyed, simp)
  have "dict_ok ?d" "\<forall>(k, e) \<in> set ?d. k = entry_key e"
    using fold_update_dict_ok [OF base(1)] fold_update_keyed [OF base(2)] by blast+
  then have "find (\<lambda>e. entry_key e = k) (rev (map snd ?d)) = map_of ?d k" by (rule keyed_values_lookup)
  then show ?thesis using False by (simp add: merge_tables_def table_index_lookup [of "\<lparr>st_version = _, st_entries = _\<rparr>"] map_of_fold_update)
qed (simp add: merge_tables_def)

lemma first_hit_role:
  "first_hit idx r cs = Some e \<Longrightarrow> \<exists>c \<in> set cs. map_of idx (r, c) = Some e"
  by (induction cs) (auto split: option.splits)

lemma first_hit_sorted:
  assumes "sorted_wrt (\<lambda>a b. f a \<le> f b) cs" "first_hit idx r cs = Some e" "c' \<in> set cs" "map_of idx (r, c') \<noteq> None"
  shows "\<exists>c \<in> set cs. map_of idx (r, c) = Some e \<and> (f c :: int) \<le> f c'"
  using assms
proof (induction cs)
  case (Cons c cs)
  show ?case
  proof (cases "map_of idx (r, c)")
    case None
    then have "c' \<in> set cs" using Cons.prems by auto
    then show ?thesis using Cons None by fastforce
  next
    case (Some x)
    then show ?thesis using Cons.prems by auto
  qed
qed simp

definition distance :: "complexity \<Rightarrow> complexity \<Rightarrow> int" where
  "distance c d = \<bar>complexity_index c - complexity_index d\<bar>"

lemma neighbours_sorted: "sorted_wrt (\<lambda>a b. distance c a \<le> distance c b) (neighbours c)"
  by (cases c) (simp_all add: neighbours_def ALL_COMPLEXITIES_def distance_def Let_def numeral_nat)

lemma neighbours_all: "d \<noteq> c \<Longrightarrow> d \<in> set (neighbours c)"
  by (cases c; cases d) (simp_all add: neighbours_def ALL_COMPLEXITIES_def Let_def numeral_nat)

lemma first_hit_total: "c \<in> set cs \<Longrightarrow> map_of idx (r, c) \<noteq> None \<Longrightarrow> first_hit idx r cs \<noteq> None"
  by (induction cs) (auto split: option.splits)

lemma table_index_key: "map_of (table_index t) k = Some e \<Longrightarrow> entry_key e = k"
  unfolding table_index_lookup by (drule find_Some_mem) simp

text \<open>
  A role with any entry in the table gets one of its own entries, for a bucket that is nearest to the one
  asked for.
\<close>

theorem table_lookup_nearest:
  assumes "map_of (table_index t) (py_lower (py_strip role), c0) \<noteq> None"
  shows "entry_key (table_lookup t role c) = (py_lower (py_strip role), se_complexity (table_lookup t role c)) \<and>
    table_lookup t role c \<in> set (st_entries t) \<and>
    (\<forall>d. map_of (table_index t) (py_lower (py_strip role), d) \<noteq> None \<longrightarrow>
       distance c (se_complexity (table_lookup t role c)) \<le> distance c d)"
proof -
  let ?r = "py_lower (py_strip role)" and ?idx = "table_index t"
  have "\<exists>e x. table_lookup t role c = e \<and> map_of ?idx (?r, x) = Some e \<and>
      (\<forall>d. map_of ?idx (?r, d) \<noteq> None \<longrightarrow> distance c x \<le> distance c d)"
  proof (cases "map_of ?idx (?r, c)")
    case (Some e)
    then show ?thesis by (auto simp: table_lookup_def Let_def distance_def intro!: exI [of _ c])
  next
    case None
    then have "c0 \<noteq> c" using assms by auto
    then obtain e where e: "first_hit ?idx ?r (neighbours c) = Some e"
      using first_hit_total [OF neighbours_all assms] by blast
    obtain x where x: "map_of ?idx (?r, x) = Some e" using first_hit_role [OF e] by blast
    have "distance c x \<le> distance c d" if "map_of ?idx (?r, d) \<noteq> None" for d
    proof -
      have "d \<noteq> c" using that None by auto
      from first_hit_sorted [OF neighbours_sorted e neighbours_all [OF this] that]
      show ?thesis using table_index_key [OF x] table_index_key by fastforce
    qed
    moreover have "table_lookup t role c = e"
      using None e by (simp add: table_lookup_def nearest_for_role_def Let_def)
    ultimately show ?thesis using x by blast
  qed
  then obtain x where x: "map_of ?idx (?r, x) = Some (table_lookup t role c)"
    and near: "\<forall>d. map_of ?idx (?r, d) \<noteq> None \<longrightarrow> distance c x \<le> distance c d" by auto
  have "table_lookup t role c \<in> set (st_entries t)"
    using x unfolding table_index_lookup by (auto dest: find_Some_mem)
  then show ?thesis using near table_index_key [OF x] by (simp add: entry_key_def)
qed

text \<open>
  Without a pinned tier, a team request is blocked exactly when the preferred tier is blocked and there is
  no other fallback tier or that one is blocked too; a fallback is used only when it is not blocked.
\<close>

theorem team_route_fallback_exact:
  assumes "tr_user_override_tier q = None" "team_route E b table bucket q = Inr d"
    and "e = table_lookup table (tr_role q) (bucket q)"
    and "delegate E b q (se_preferred_tier e) = Inr p"
  shows "(td_blocked d \<longleftrightarrow> rd_blocked p \<and> (\<forall>t f. se_fallback_tier e = Some t \<and> t \<noteq> se_preferred_tier e \<and>
      delegate E b q t = Inr f \<longrightarrow> rd_blocked f)) \<and>
    (td_fallback_used d \<longrightarrow> rd_blocked p \<and> \<not> td_blocked d \<and>
      (\<exists>t. se_fallback_tier e = Some t \<and> delegate E b q t = Inr (td_router d)))"
proof (cases "rd_blocked p \<and> se_fallback_tier e \<noteq> None \<and> se_fallback_tier e \<noteq> Some (se_preferred_tier e)")
  case True
  then obtain t where t: "se_fallback_tier e = Some t" "t \<noteq> se_preferred_tier e" by auto
  then obtain f where f: "delegate E b q t = Inr f"
    using assms True by (auto simp: team_route_def Let_def rbind_eq_Inr)
  then have d: "d = (if rd_blocked f then team_decision_of e False p else team_decision_of e True f)"
    using assms True t by (auto simp: team_route_def Let_def)
  show ?thesis using True t f by (simp add: d team_decision_of_def)
next
  case False
  then have "d = team_decision_of e False p"
    using assms by (auto simp: team_route_def Let_def split: if_splits)
  then show ?thesis using False by (auto simp: team_decision_of_def)
qed

section \<open>Overrides\<close>

definition db_ready :: "int \<Rightarrow> override_db \<Rightarrow> bool" where
  "db_ready pid db \<longleftrightarrow> od_readable db \<and> od_writable db \<and> map_of (od_projects db) pid \<noteq> None"

lemma load_saved: "db_ready pid db \<Longrightarrow> load_overrides pid (save_overrides pid rows db) = rows"
proof -
  assume r: "db_ready pid db"
  have "concat (map (\<lambda>r. case r of Stored x \<Rightarrow> [x] | Unreadable \<Rightarrow> []) (map Stored rows)) = rows"
    by (induction rows) auto
  moreover have "dict_get (AList.map_entry pid (\<lambda>_. map Stored rows) (od_projects db)) pid [] = map Stored rows"
    using r by (auto simp: db_ready_def dict_get_def map_of_map_entry)
  ultimately show ?thesis using r by (simp add: db_ready_def load_overrides_def save_overrides_def)
qed

lemma lookup_override_max:
  assumes "lookup_override now pid d r db = Some x"
  shows "x \<in> set (ov_candidates now d r (load_overrides pid db)) \<and>
    (\<forall>y \<in> set (ov_candidates now d r (load_overrides pid db)). specificity y \<le> specificity x)"
proof -
  let ?cs = "ov_candidates now d r (load_overrides pid db)"
  obtain xs where s: "sort_key (\<lambda>x. 3 - specificity x) ?cs = x # xs"
    using assms by (auto simp: lookup_override_def split: list.splits)
  have "sorted (map (\<lambda>x. 3 - specificity x) (x # xs))" using sorted_sort_key s by metis
  then have "\<forall>y \<in> set (x # xs). 3 - specificity x \<le> 3 - specificity y" by auto
  moreover have "specificity y \<le> 3" for y by (simp add: specificity_def)
  moreover have "set (x # xs) = set ?cs" using s set_sort by metis
  ultimately show ?thesis by (metis diff_le_mono2 diff_diff_cancel list.set_intros(1))
qed

lemma lookup_override_None: "lookup_override now pid d r db = None \<longleftrightarrow> ov_candidates now d r (load_overrides pid db) = []"
  unfolding lookup_override_def by (metis (no_types, lifting) length_sort list.case(1) list.case(2) list.exhaust length_0_conv option.distinct(1))

lemma specific_enough:
  assumes "to_directive_id x \<in> {None, d}" "to_role x \<in> {None, r}" "d \<noteq> Some []" "r \<noteq> Some []"
    "(if d \<notin> {None, Some []} then 2 else 0) + (if r \<notin> {None, Some []} then 1 else 0 :: nat) \<le> specificity x"
  shows "to_directive_id x = d \<and> to_role x = r"
  using assms by (cases d; cases r) (auto simp: specificity_def split: if_splits)

text \<open>
  An override that is set while the database answers is the one a lookup for its own directive and role
  finds, until it expires or is revoked: it replaces the override of the same scope and is more specific than the
  others that apply.
\<close>

theorem set_override_then_lookup:
  assumes "db_ready (to_project_id ov) db" "ov_active now ov" "to_directive_id ov \<noteq> Some []" "to_role ov \<noteq> Some []"
  shows "lookup_override now (to_project_id ov) (to_directive_id ov) (to_role ov) (snd (set_override ov db)) =
    Some (ov\<lparr>to_override_id := Some (fst (set_override ov db))\<rparr>)"
proof -
  let ?d = "to_directive_id ov" and ?r = "to_role ov" and ?pid = "to_project_id ov"
  let ?new = "ov\<lparr>to_override_id := Some (fst (set_override ov db))\<rparr>"
  define rows db' where "rows = filter (\<lambda>x. to_revoked x \<or> \<not> (to_directive_id x = ?d \<and> to_role x = ?r)) (load_overrides ?pid db)"
    and "db' = snd (set_override ov db)"
  have l: "load_overrides ?pid db' = rows @ [?new]"
    by (simp add: rows_def db'_def set_override_def Let_def load_saved [OF assms(1)])
  have cand: "?new \<in> set (ov_candidates now ?d ?r (rows @ [?new]))"
    using assms(2) by (simp add: ov_candidates_def ov_active_def)
  have "lookup_override now ?pid ?d ?r db' \<noteq> None"
    using cand unfolding lookup_override_None l by (metis empty_iff list.set(1))
  then obtain x where x: "lookup_override now ?pid ?d ?r db' = Some x" by blast
  have xc: "x \<in> set (ov_candidates now ?d ?r (rows @ [?new]))"
    and sp: "specificity ?new \<le> specificity x" using lookup_override_max [OF x] cand unfolding l by blast+
  have scope: "ov_active now x" "to_directive_id x \<in> {None, ?d}" "to_role x \<in> {None, ?r}" "x \<in> set rows \<or> x = ?new"
    using xc unfolding ov_candidates_def set_filter by auto
  have "to_directive_id x = ?d \<and> to_role x = ?r"
    by (rule specific_enough [OF scope(2,3) assms(3,4)]) (use sp in \<open>simp add: specificity_def\<close>)
  moreover have "\<not> to_revoked x" using scope(1) by (simp add: ov_active_def)
  ultimately have "x = ?new" using scope(4) by (auto simp: rows_def)
  then show ?thesis using x by (simp add: db'_def)
qed

text \<open>
  Revoking reports success exactly when an override of that number was in force, and afterwards no lookup
  returns it, for any directive, role or time.
\<close>

theorem revoked_override_not_found:
  assumes "db_ready pid db" "revoke_override n pid revoked_by reason db = (ok, db')"
  shows "(ok \<longleftrightarrow> (\<exists>x \<in> set (load_overrides pid db). to_override_id x = Some n \<and> \<not> to_revoked x)) \<and>
    (\<forall>now d r x. lookup_override now pid d r db' = Some x \<longrightarrow> to_override_id x \<noteq> Some n)"
proof -
  let ?hit = "list_ex (\<lambda>x. to_override_id x = Some n \<and> \<not> to_revoked x) (load_overrides pid db)"
  have ok: "ok = ?hit" using assms(2) by (simp add: revoke_override_def Let_def split: if_splits)
  have "\<forall>x \<in> set (load_overrides pid db'). to_override_id x = Some n \<longrightarrow> to_revoked x"
  proof (cases ?hit)
    case True
    then have "load_overrides pid db' = map (revoke_row n revoked_by reason) (load_overrides pid db)"
      using assms by (auto simp: revoke_override_def Let_def load_saved)
    then show ?thesis by (auto simp: revoke_row_def)
  next
    case False
    then have "db' = db" using assms(2) by (simp add: revoke_override_def Let_def)
    then show ?thesis using False by (auto simp: list_ex_iff)
  qed
  then have "to_override_id x \<noteq> Some n" if "lookup_override now pid d r db' = Some x" for now d r x
    using lookup_override_max [OF that] by (auto simp: ov_candidates_def ov_active_def)
  then show ?thesis using ok by (auto simp: list_ex_iff)
qed

text \<open>A revocation that cannot be written is reported as done, and the override stays in force.\<close>

lemma lost_revocation_reported_done:
  assumes "\<not> od_writable db" "x \<in> set (load_overrides pid db)" "to_override_id x = Some n" "\<not> to_revoked x"
  shows "revoke_override n pid revoked_by reason db = (True, db)"
  using assms by (auto simp: revoke_override_def Let_def list_ex_iff save_overrides_def)

section \<open>A routing at work\<close>

definition demo_cost_env :: cost_env where
  "demo_cost_env = \<lparr>rt_model_line = (\<lambda>m. None), rt_decimal = (\<lambda>s. None),
     rt_ledger = Some [\<lparr>co_project_id = 7, co_actor = ''ann'', co_phase = ''build'', co_cost_usd = 2\<rparr>]\<rparr>"

definition demo_cost_bundle :: cost_bundle where
  "demo_cost_bundle = \<lparr>cb_allowed = [''claude-sonnet-4'', ''gpt-4o''], cb_disallowed = [], cb_per_project_cap = 5,
     cb_daily_cap = 0, cb_phase_caps = []\<rparr>"

definition demo_request :: route_request where
  "demo_request = \<lparr>rq_project_id = 7, rq_phase = ''build'', rq_role = ''engineer'', rq_intended_tier = Tier_medium,
     rq_input_tokens = 1000, rq_output_tokens = 1000, rq_actor = ''ann'', rq_override = None\<rparr>"

definition demo_sonnet :: model_info where
  "demo_sonnet = snd (fb_row ''claude-sonnet-4'' ''anthropic'' Tier_medium (3/1000) (15/1000) 200000)"

definition demo_gpt :: model_info where
  "demo_gpt = snd (fb_row ''gpt-4o'' ''openai'' Tier_medium (25/10000) (10/1000) 128000)"

lemma demo_menu: "list_allowed_models demo_cost_env demo_cost_bundle None = Inr [demo_sonnet, demo_gpt]"
  by (simp add: list_allowed_models_def demo_cost_env_def demo_cost_bundle_def lookup_model_def FB_def fb_row_def
      demo_sonnet_def demo_gpt_def)

lemma demo_select: "select_for_tier [demo_sonnet, demo_gpt] Tier_medium = (Some demo_sonnet, Tier_medium, False)"
proof -
  have "project_cost demo_sonnet 1 1 = 0" "project_cost demo_gpt 1 1 = 0"
    by (rule unit_cost_rounds_to_zero; simp add: demo_sonnet_def demo_gpt_def fb_row_def)+
  then show ?thesis
    by (simp add: select_for_tier_def tier_order_def tier_models_def min_by_def)
      (simp add: demo_sonnet_def demo_gpt_def fb_row_def)
qed

theorem tier_selection_total_witness:
  "\<exists>m u fb. select_for_tier [demo_sonnet] Tier_low = (Some m, u, fb) \<and> mi_tier m = u"
  using tier_selection_total [of "[demo_sonnet]" Tier_low] by blast

lemma demo_floors:
  "\<lfloor>361 / 2 :: rat\<rfloor> = 180" "\<lfloor>251 / 2 :: rat\<rfloor> = 125" "\<lfloor>40001 / 2 :: rat\<rfloor> = 20000" "\<lfloor>100001 / 2 :: rat\<rfloor> = 50000"
  "\<lfloor>1 / 2 :: rat\<rfloor> = 0"
  by (simp_all add: floor_eq_iff)

theorem cheapest_is_first_of_menu_witness:
  "hd (tier_models [demo_sonnet, demo_gpt] Tier_medium) = demo_sonnet \<and>
   project_cost demo_gpt 1000 1000 < project_cost demo_sonnet 1000 1000"
proof
  show "hd (tier_models [demo_sonnet, demo_gpt] Tier_medium) = demo_sonnet"
    using cheapest_is_first_of_menu [OF demo_select]
    by (simp add: tier_models_def demo_sonnet_def demo_gpt_def fb_row_def)
  show "project_cost demo_gpt 1000 1000 < project_cost demo_sonnet 1000 1000"
    by (simp add: project_cost_def quant_def demo_sonnet_def demo_gpt_def fb_row_def Let_def demo_floors)
qed

lemma demo_cost: "project_cost demo_sonnet 1000 1000 = 18 / 1000"
  by (simp add: project_cost_def quant_def demo_sonnet_def fb_row_def Let_def demo_floors)

lemma demo_route:
  "route demo_cost_env demo_cost_bundle demo_request =
     Inr \<lparr>rd_selected_model = ''claude-sonnet-4'', rd_selected_tier = Tier_medium, rd_projected_cost = 18 / 1000,
          rd_would_exceed = False, rd_blocked = False, rd_fallback_attempted = False\<rparr>"
proof -
  have q: "quant 2 = 2" "quant 5 = 5" "quant 0 = 0" by (simp_all add: quant_def Let_def demo_floors)
  have "\<not> any_breach demo_cost_env demo_cost_bundle demo_request (18 / 1000)"
    by (simp add: any_breach_def get_budget_status_def spend_def estimate_phase_cost_def phase_cap_def breaches_def
        demo_cost_env_def demo_cost_bundle_def demo_request_def Let_def q dict_get_def)
  moreover have "rq_override demo_request = None" "rq_intended_tier demo_request = Tier_medium"
    "rq_input_tokens demo_request = 1000" "rq_output_tokens demo_request = 1000" by (simp_all add: demo_request_def)
  ultimately show ?thesis
    by (simp add: route_def demo_menu route_menu_def demo_select decide_def Let_def demo_cost)
      (simp add: demo_sonnet_def fb_row_def)
qed

theorem unblocked_route_within_caps_witness:
  "\<exists>d. route demo_cost_env demo_cost_bundle demo_request = Inr d \<and> quant 2 + rd_projected_cost d \<le> quant 5"
proof -
  have q: "quant 2 = 2" "quant 5 = 5" by (simp_all add: quant_def Let_def demo_floors)
  have r: "rt_ledger demo_cost_env = Some [\<lparr>co_project_id = 7, co_actor = ''ann'', co_phase = ''build'', co_cost_usd = 2\<rparr>]"
    "rq_project_id demo_request = 7" "cb_per_project_cap demo_cost_bundle = 5"
    by (simp_all add: demo_cost_env_def demo_request_def demo_cost_bundle_def)
  from unblocked_route_within_caps [OF demo_route _ r(1)] show ?thesis
    unfolding demo_route r by (auto simp: q)
qed

definition demo_table :: selection_table where
  "demo_table = \<lparr>st_version = 1, st_entries = [\<lparr>se_role = ''qa'', se_complexity = Very_complex,
     se_preferred_tier = Tier_high, se_fallback_tier = Some Tier_low, se_cost_ceiling = 1\<rparr>]\<rparr>"

theorem table_lookup_nearest_witness: "table_lookup demo_table '' QA '' Trivial \<in> set (st_entries demo_table)"
proof -
  have "py_lower (py_strip '' QA '') = ''qa''" by code_simp
  then have "map_of (table_index demo_table) (py_lower (py_strip '' QA ''), Very_complex) \<noteq> None"
    by (simp add: table_index_def demo_table_def entry_key_def)
  from table_lookup_nearest [OF this] show ?thesis by blast
qed

definition demo_override :: tier_override where
  "demo_override = \<lparr>to_override_id = None, to_project_id = 7, to_directive_id = Some ''d1'', to_role = None,
     to_forced_tier = Tier_high, to_forced_model = None, to_justification = ''needed'', to_granted_by = ''ann'',
     to_expires_at = Some 100, to_revoked = False, to_revoked_by = None, to_revoked_reason = None\<rparr>"

definition demo_override_db :: override_db where
  "demo_override_db = \<lparr>od_projects = [(7, [Unreadable])], od_readable = True, od_writable = True\<rparr>"

lemma demo_db_ready: "db_ready 7 demo_override_db"
  by (simp add: db_ready_def demo_override_db_def)

theorem set_override_then_lookup_witness:
  "lookup_override 50 7 (Some ''d1'') None (snd (set_override demo_override demo_override_db)) \<noteq> None"
  using set_override_then_lookup [of demo_override demo_override_db 50] demo_db_ready
  by (simp add: demo_override_def ov_active_def)

theorem revoked_override_not_found_witness:
  "\<forall>now d r x. lookup_override now 7 d r (snd (revoke_override 1 7 ''bob'' ''done'' demo_override_db)) = Some x \<longrightarrow>
     to_override_id x \<noteq> Some 1"
  using revoked_override_not_found [OF demo_db_ready prod.collapse [symmetric]] by blast

end
