(* ===== verification/Identity.thy ===== *)
theory Identity
  imports Complex_Main Json Regex "HOL-Library.List_Lexorder" "HOL-Library.Char_ord"
begin

text \<open>
  Who makes a request: \<open>shared/identity\<close>. The state is the client of the realm with its cached signing keys. PyJWT
  (the unverified header, the key made of a JWK, decoding with all its checks at an instant) and pydantic's reading of
  an integer and a boolean are parameters, as is the text of a JSON value that is no string. The tokens, keys and claims are the
  program's. A call that asks the realm for its keys reads the clock before it, in the lock, and after the answer;
  \<open>jwks_env\<close> holds these readings and the answer. Instants are exact numbers. An exception other than the two of this
  package is \<open>Crash\<close>, which the application answers with status 500.
\<close>

section \<open>Claims and users\<close>

record token_claims =
  tc_sub :: string
  tc_email :: "string option"
  tc_name :: "string option"
  tc_preferred_username :: "string option"
  tc_realm_access :: "(string \<times> json) list"
  tc_resource_access :: "(string \<times> json) list"
  tc_groups :: "string list"
  tc_scope :: string
  tc_exp :: int
  tc_iat :: int
  tc_payload :: "(string \<times> json) list"

record user =
  us_id :: string
  us_email :: "string option"
  us_username :: "string option"
  us_name :: "string option"
  us_roles :: "string list"
  us_groups :: "string list"
  us_scopes :: "string list"
  us_raw_claims :: token_claims

datatype identity_error = Jwks_fetch_error | Invalid_token | Crash

record 'key jwt_lib =
  jl_header :: "string \<Rightarrow> (string \<times> json) list option"
  jl_from_jwk :: "json \<Rightarrow> 'key option"
  jl_decode :: "string \<Rightarrow> 'key \<Rightarrow> string \<Rightarrow> string \<Rightarrow> rat \<Rightarrow> rat \<Rightarrow> (string \<times> json) list option"
  jl_int :: "json \<Rightarrow> int option"
  jl_bool :: "json \<Rightarrow> bool option"
  jl_text :: "json \<Rightarrow> string"

text \<open>The fields of \<open>TokenClaims\<close>: \<open>Some\<close> where validation accepts the value. An absent field takes its default.\<close>

definition opt_text :: "(string \<times> json) list \<Rightarrow> string \<Rightarrow> string option option" where
  "opt_text d k = (case map_of d k of None \<Rightarrow> Some None | Some JNull \<Rightarrow> Some None | Some (JStr s) \<Rightarrow> Some (Some s) | _ \<Rightarrow> None)"

definition dict_field :: "(string \<times> json) list \<Rightarrow> string \<Rightarrow> (string \<times> json) list option" where
  "dict_field d k = (case map_of d k of None \<Rightarrow> Some [] | Some (JDict x) \<Rightarrow> Some x | _ \<Rightarrow> None)"

fun all_texts :: "json list \<Rightarrow> string list option" where
  "all_texts [] = Some []"
| "all_texts (JStr s # js) = map_option (Cons s) (all_texts js)"
| "all_texts (_ # js) = None"

definition texts_field :: "(string \<times> json) list \<Rightarrow> string \<Rightarrow> string list option" where
  "texts_field d k = (case map_of d k of None \<Rightarrow> Some [] | Some (JList js) \<Rightarrow> all_texts js | _ \<Rightarrow> None)"

definition need :: "'a option \<Rightarrow> (identity_error, 'a) res" where
  "need x = (case x of None \<Rightarrow> Inl Invalid_token | Some y \<Rightarrow> Inr y)"

text \<open>\<open>email_verified\<close>, the given and family name, \<open>azp\<close>, \<open>aud\<close>, \<open>iss\<close> and \<open>jti\<close> are only checked.\<close>

definition unread_fields_ok :: "'key jwt_lib \<Rightarrow> (string \<times> json) list \<Rightarrow> bool" where
  "unread_fields_ok L d \<longleftrightarrow> (\<forall>k \<in> {''given_name'', ''family_name'', ''azp'', ''iss'', ''jti''}. opt_text d k \<noteq> None) \<and>
     (case map_of d ''aud'' of Some (JList js) \<Rightarrow> all_texts js \<noteq> None | _ \<Rightarrow> opt_text d ''aud'' \<noteq> None) \<and>
     (case map_of d ''email_verified'' of None \<Rightarrow> True | Some j \<Rightarrow> j = JNull \<or> jl_bool L j \<noteq> None)"

definition make_claims :: "'key jwt_lib \<Rightarrow> (string \<times> json) list \<Rightarrow> (identity_error, token_claims) res" where
  "make_claims L d =
     rbind (need (case map_of d ''sub'' of Some (JStr s) \<Rightarrow> Some s | _ \<Rightarrow> None)) (\<lambda>sub.
     rbind (need (opt_text d ''email'')) (\<lambda>email.
     rbind (need (opt_text d ''name'')) (\<lambda>name.
     rbind (need (opt_text d ''preferred_username'')) (\<lambda>username.
     rbind (need (dict_field d ''realm_access'')) (\<lambda>realm.
     rbind (need (dict_field d ''resource_access'')) (\<lambda>resource.
     rbind (need (texts_field d ''groups'')) (\<lambda>groups.
     rbind (need (case map_of d ''scope'' of None \<Rightarrow> Some [] | Some (JStr s) \<Rightarrow> Some s | _ \<Rightarrow> None)) (\<lambda>scope.
     rbind (need (Option.bind (map_of d ''exp'') (jl_int L))) (\<lambda>exp.
     rbind (need (Option.bind (map_of d ''iat'') (jl_int L))) (\<lambda>iat.
     if unread_fields_ok L d
     then Inr \<lparr>tc_sub = sub, tc_email = email, tc_name = name, tc_preferred_username = username, tc_realm_access = realm,
       tc_resource_access = resource, tc_groups = groups, tc_scope = scope, tc_exp = exp, tc_iat = iat, tc_payload = d\<rparr>
     else Inl Invalid_token))))))))))"

text \<open>\<open>list(x or [])\<close> for what stands under \<open>"roles"\<close>: text is a list of its characters, a dictionary of its keys.\<close>

definition as_list :: "json \<Rightarrow> (identity_error, json list) res" where
  "as_list j = (if \<not> truthy j then Inr [] else case j of
     JList js \<Rightarrow> Inr js | JStr s \<Rightarrow> Inr (map (\<lambda>c. JStr [c]) s) | JDict d \<Rightarrow> Inr (map (JStr \<circ> fst) d) | _ \<Rightarrow> Inl Crash)"

definition role_text :: "'key jwt_lib \<Rightarrow> json \<Rightarrow> string" where
  "role_text L j = (case j of JStr s \<Rightarrow> s | _ \<Rightarrow> jl_text L j)"

definition client_roles :: "'key jwt_lib \<Rightarrow> string \<times> json \<Rightarrow> (identity_error, string list) res" where
  "client_roles L e = (case e of (client, access) \<Rightarrow>
     if \<not> truthy access then Inr [] else case access of
       JDict d \<Rightarrow> rbind (as_list (dict_get d ''roles'' (JList []))) (\<lambda>js. Inr (map (\<lambda>j. client @ ''.'' @ role_text L j) js))
     | _ \<Rightarrow> Inl Crash)"

text \<open>The order of first occurrence.\<close>

fun dedupe :: "string list \<Rightarrow> string list \<Rightarrow> string list" where
  "dedupe seen [] = []"
| "dedupe seen (r # rs) = (if r \<in> set seen then dedupe seen rs else r # dedupe (r # seen) rs)"

text \<open>\<open>str.split()\<close>.\<close>

function py_words :: "string \<Rightarrow> string list" where
  "py_words s = (case py_lstrip s of [] \<Rightarrow> []
     | t \<Rightarrow> takeWhile (\<lambda>c. \<not> py_space c) t # py_words (dropWhile (\<lambda>c. \<not> py_space c) t))"
  by pat_completeness auto
termination
proof (relation "measure length")
  fix s t u assume e: "py_lstrip s = t # u"
  then have "\<not> py_space t" unfolding py_lstrip_def by (metis hd_dropWhile list.distinct(1) list.sel(1))
  moreover have "length (t # u) \<le> length s" using e length_dropWhile_le [of py_space s] by (simp add: py_lstrip_def)
  ultimately show "(dropWhile (\<lambda>c. \<not> py_space c) (t # u), s) \<in> measure length"
    using length_dropWhile_le [of "\<lambda>c. \<not> py_space c" u] by simp
qed simp

declare py_words.simps [simp del]

definition from_claims :: "'key jwt_lib \<Rightarrow> token_claims \<Rightarrow> (identity_error, user) res" where
  "from_claims L c =
     rbind (as_list (dict_get (tc_realm_access c) ''roles'' (JList []))) (\<lambda>realm.
     rbind (rmap (client_roles L) (tc_resource_access c)) (\<lambda>clients.
     case all_texts realm of
       None \<Rightarrow> Inl Crash
     | Some realm_roles \<Rightarrow> Inr \<lparr>us_id = tc_sub c, us_email = tc_email c, us_username = tc_preferred_username c, us_name = tc_name c,
         us_roles = dedupe [] (realm_roles @ concat clients), us_groups = tc_groups c, us_scopes = py_words (tc_scope c),
         us_raw_claims = c\<rparr>))"

section \<open>The keys of the realm\<close>

record kc_client =
  kc_audience :: string
  kc_issuer :: string
  kc_jwks_ttl :: rat
  kc_leeway :: rat
  kc_jwks :: "(string \<times> json) list option"
  kc_fetched_at :: rat
  kc_fetches :: nat

text \<open>What the endpoint answers: nothing, or a status and a body; \<open>None\<close> is a body that is no JSON.\<close>

datatype http_reply = Unreachable | Answered nat "json option"

record jwks_env =
  je_now :: rat
  je_locked :: rat
  je_done :: rat
  je_reply :: http_reply

type_synonym 'a kc_eff = "(kc_client, identity_error, 'a) eff"

definition DEFAULT_JWKS_TTL_SECONDS :: rat where
  "DEFAULT_JWKS_TTL_SECONDS = 300"

definition jwks_live :: "rat \<Rightarrow> kc_client \<Rightarrow> (string \<times> json) list option" where
  "jwks_live now k = (case kc_jwks k of Some d \<Rightarrow> if now - kc_fetched_at k < kc_jwks_ttl k then Some d else None | None \<Rightarrow> None)"

definition jwks_payload :: "http_reply \<Rightarrow> (string \<times> json) list option" where
  "jwks_payload r = (case r of Answered st (Some (JDict d)) \<Rightarrow> (if st = 200 \<and> map_of d ''keys'' \<noteq> None then Some d else None) | _ \<Rightarrow> None)"

text \<open>\<open>kc_fetches\<close> counts the requests to the endpoint.\<close>

definition jwks :: "jwks_env \<Rightarrow> bool \<Rightarrow> (string \<times> json) list kc_eff" where
  "jwks E force_refresh k =
     (case if force_refresh then None else jwks_live (je_now E) k of
        Some d \<Rightarrow> (Inr d, k)
      | None \<Rightarrow>
          (case if force_refresh then None else jwks_live (je_locked E) k of
             Some d \<Rightarrow> (Inr d, k)
           | None \<Rightarrow>
               let k1 = k\<lparr>kc_fetches := Suc (kc_fetches k)\<rparr> in
               (case jwks_payload (je_reply E) of
                  None \<Rightarrow> (Inl Jwks_fetch_error, k1)
                | Some d \<Rightarrow> (Inr d, k1\<lparr>kc_jwks := Some d, kc_fetched_at := je_done E\<rparr>))))"

text \<open>\<open>[k for k in keys if not kid or k.get("kid") == kid]\<close>; what is no dictionary has no \<open>get\<close>.\<close>

fun key_candidates :: "string \<Rightarrow> json list \<Rightarrow> (identity_error, json list) res" where
  "key_candidates kid [] = Inr []"
| "key_candidates kid (k # ks) =
     rbind (if kid = [] then Inr True else case k of JDict d \<Rightarrow> Inr (map_of d ''kid'' = Some (JStr kid)) | _ \<Rightarrow> Inl Crash) (\<lambda>ok.
     rbind (key_candidates kid ks) (\<lambda>rest. Inr (if ok then k # rest else rest)))"

definition select_signing_key :: "'key jwt_lib \<Rightarrow> (string \<times> json) list \<Rightarrow> string \<Rightarrow> (identity_error, 'key) res" where
  "select_signing_key L d kid =
     rbind (as_list (dict_get d ''keys'' (JList []))) (\<lambda>keys.
     rbind (key_candidates kid keys) (\<lambda>candidates.
     case candidates of
       [] \<Rightarrow> Inl Invalid_token
     | jwk # _ \<Rightarrow> (case jl_from_jwk L jwk of None \<Rightarrow> Inl Crash | Some key \<Rightarrow> Inr key)))"

text \<open>PyJWT only lets a \<open>kid\<close> through that is text; the empty string stands for none.\<close>

definition kid_of :: "(string \<times> json) list \<Rightarrow> string" where
  "kid_of h = (case map_of h ''kid'' of Some (JStr s) \<Rightarrow> s | _ \<Rightarrow> [])"

record verify_env =
  ve_first :: jwks_env
  ve_again :: jwks_env
  ve_now :: rat

text \<open>The key for a token: a miss asks the realm once more.\<close>

definition signing_key :: "'key jwt_lib \<Rightarrow> verify_env \<Rightarrow> string \<Rightarrow> 'key kc_eff" where
  "signing_key L V kid =
     ebind (jwks (ve_first V) False) (\<lambda>d. case select_signing_key L d kid of
       Inl Invalid_token \<Rightarrow> ebind (jwks (ve_again V) True) (\<lambda>d'. elift (select_signing_key L d' kid))
     | r \<Rightarrow> elift r)"

definition verify_token :: "'key jwt_lib \<Rightarrow> verify_env \<Rightarrow> string \<Rightarrow> token_claims kc_eff" where
  "verify_token L V token k =
     (if token = [] then (Inl Invalid_token, k)
      else case jl_header L token of
        None \<Rightarrow> (Inl Invalid_token, k)
      | Some h \<Rightarrow>
          if map_of h ''alg'' \<noteq> Some (JStr ''RS256'') then (Inl Invalid_token, k)
          else ebind (signing_key L V (kid_of h)) (\<lambda>key.
            case jl_decode L token key (kc_audience k) (kc_issuer k) (kc_leeway k) (ve_now V) of
              None \<Rightarrow> eraise Invalid_token
            | Some payload \<Rightarrow> elift (make_claims L payload)) k)"

text \<open>The two endpoints that answer for a token; their JSON is handed on.\<close>

definition userinfo :: "http_reply \<Rightarrow> (identity_error, json) res" where
  "userinfo r = (case r of
     Unreachable \<Rightarrow> Inl Crash
   | Answered st body \<Rightarrow> if st \<noteq> 200 then Inl Invalid_token else case body of None \<Rightarrow> Inl Crash | Some j \<Rightarrow> Inr j)"

definition introspect :: "string option \<Rightarrow> http_reply \<Rightarrow> (identity_error, json) res" where
  "introspect client_secret r = (if client_secret \<in> {None, Some []} then Inl Crash else userinfo r)"

section \<open>The dependencies of a route\<close>

datatype http_error = Unauthorized | Forbidden | Server_error

definition bearer_token_from_header :: "string option \<Rightarrow> string option" where
  "bearer_token_from_header authorization = (case authorization of
     None \<Rightarrow> None
   | Some a \<Rightarrow>
       let t = py_lstrip a; word = takeWhile (\<lambda>c. \<not> py_space c) t; rest = py_lstrip (dropWhile (\<lambda>c. \<not> py_space c) t) in
       if rest = [] \<or> py_lower word \<noteq> ''bearer'' then None
       else case py_strip rest of [] \<Rightarrow> None | token \<Rightarrow> Some token)"

definition dev_claims :: token_claims where
  "dev_claims = \<lparr>tc_sub = ''dev-user'', tc_email = Some ''dev@spine.local'', tc_name = Some ''Dev User'',
     tc_preferred_username = Some ''dev-user'', tc_realm_access = [(''roles'', JList [JStr ''user'', JStr ''hub-admin''])],
     tc_resource_access = [], tc_groups = [], tc_scope = ''openid profile email'', tc_exp = 9999999999, tc_iat = 1, tc_payload = []\<rparr>"

definition to_http :: "(identity_error, 'a) res \<Rightarrow> (http_error, 'a) res" where
  "to_http r = (case r of Inr x \<Rightarrow> Inr x | Inl Invalid_token \<Rightarrow> Inl Unauthorized | Inl _ \<Rightarrow> Inl Server_error)"

text \<open>A missing client is a 500, and so is what \<open>User.from_claims\<close> raises.\<close>

definition user_of_token :: "'key jwt_lib \<Rightarrow> verify_env \<Rightarrow> string \<Rightarrow> kc_client option \<Rightarrow> (http_error, user) res \<times> kc_client option" where
  "user_of_token L V token client = (case client of
     None \<Rightarrow> (Inl Server_error, None)
   | Some k \<Rightarrow> (case verify_token L V token k of
       (r, k') \<Rightarrow> (rbind (to_http r) (\<lambda>c. to_http (case from_claims L c of Inl _ \<Rightarrow> Inl Crash | Inr u \<Rightarrow> Inr u)), Some k')))"

definition current_user :: "'key jwt_lib \<Rightarrow> verify_env \<Rightarrow> bool \<Rightarrow> string option \<Rightarrow> kc_client option \<Rightarrow>
    (http_error, user) res \<times> kc_client option" where
  "current_user L V hub_dev authorization client =
     (if authorization = None \<and> hub_dev then (to_http (from_claims L dev_claims), client)
      else case bearer_token_from_header authorization of
        None \<Rightarrow> (Inl Unauthorized, client)
      | Some token \<Rightarrow> user_of_token L V token client)"

definition optional_user :: "'key jwt_lib \<Rightarrow> verify_env \<Rightarrow> string option \<Rightarrow> kc_client option \<Rightarrow>
    (http_error, user option) res \<times> kc_client option" where
  "optional_user L V authorization client = (case authorization of
     None \<Rightarrow> (Inr None, client)
   | Some _ \<Rightarrow> (case bearer_token_from_header authorization of
       None \<Rightarrow> (Inl Unauthorized, client)
     | Some token \<Rightarrow> (case user_of_token L V token client of (r, c) \<Rightarrow> (rbind r (\<lambda>u. Inr (Some u)), c))))"

section \<open>Roles\<close>

record policy_resolver =
  pr_roles :: "user \<Rightarrow> string list"
  pr_scopes :: "user \<Rightarrow> string list"

definition BundlePolicyResolver :: policy_resolver where
  "BundlePolicyResolver = \<lparr>pr_roles = us_roles, pr_scopes = us_scopes\<rparr>"

definition has_role :: "policy_resolver \<Rightarrow> user \<Rightarrow> string \<Rightarrow> bool" where
  "has_role P u role = (role \<in> set (pr_roles P u))"

definition has_any_role :: "policy_resolver \<Rightarrow> user \<Rightarrow> string list \<Rightarrow> bool" where
  "has_any_role P u roles = list_ex (has_role P u) roles"

definition has_scope :: "policy_resolver \<Rightarrow> user \<Rightarrow> string \<Rightarrow> bool" where
  "has_scope P u scope = (scope \<in> set (pr_scopes P u))"

definition has_group :: "user \<Rightarrow> string \<Rightarrow> bool" where
  "has_group u path = (path \<in> set (us_groups u))"

definition require :: "(user \<Rightarrow> bool) \<Rightarrow> (http_error, user) res \<times> 's \<Rightarrow> (http_error, user) res \<times> 's" where
  "require allowed = (\<lambda>(r, s). (rbind r (\<lambda>u. if allowed u then Inr u else Inl Forbidden), s))"

definition require_role :: "policy_resolver \<Rightarrow> string \<Rightarrow> (http_error, user) res \<times> 's \<Rightarrow> (http_error, user) res \<times> 's" where
  "require_role P role = require (\<lambda>u. has_role P u role)"

definition require_any_role :: "policy_resolver \<Rightarrow> string list \<Rightarrow> (http_error, user) res \<times> 's \<Rightarrow> (http_error, user) res \<times> 's" where
  "require_any_role P roles = require (\<lambda>u. has_any_role P u roles)"

definition require_scope :: "policy_resolver \<Rightarrow> string \<Rightarrow> (http_error, user) res \<times> 's \<Rightarrow> (http_error, user) res \<times> 's" where
  "require_scope P scope = require (\<lambda>u. has_scope P u scope)"

definition require_group :: "string \<Rightarrow> (http_error, user) res \<times> 's \<Rightarrow> (http_error, user) res \<times> 's" where
  "require_group path = require (\<lambda>u. has_group u path)"


section \<open>What a tier offers\<close>

datatype capability = CBool bool | CInt int | CText string

definition TIER_LADDER :: "string list" where
  "TIER_LADDER = [''free'', ''founder'', ''team'', ''enterprise'']"

definition KNOWN_TIERS :: "string list" where
  "KNOWN_TIERS = TIER_LADDER @ [''airgapped'']"

definition tier_free :: "(string \<times> capability) list" where
  "tier_free =
    [(''realms'', CInt 1), (''clients_per_realm'', CInt 1), (''username_password'', CBool True),
     (''mfa'', CBool False), (''passwordless'', CBool False), (''social_login'', CBool False),
     (''idp_federation'', CBool False), (''saml_inbound'', CBool False), (''scim'', CBool False),
     (''user_self_registration'', CBool True), (''password_policy_advanced'', CBool False),
     (''session_idle_timeout_min'', CInt 30), (''custom_themes'', CBool False),
     (''custom_email_templates'', CBool False), (''audit_export'', CBool False), (''event_streaming'', CBool False),
     (''hub_ui_groups_admin'', CBool False), (''hub_ui_scim_tab'', CBool False),
     (''hub_ui_idp_federation_tab'', CBool False), (''hub_ui_audit_export_tab'', CBool False)]"

definition tier_founder :: "(string \<times> capability) list" where
  "tier_founder =
    [(''realms'', CInt 1), (''clients_per_realm'', CInt 5), (''username_password'', CBool True),
     (''mfa'', CText ''optional''), (''passwordless'', CText ''optional''), (''social_login'', CBool True),
     (''idp_federation'', CText ''single''), (''saml_inbound'', CText ''single''), (''scim'', CBool False),
     (''user_self_registration'', CBool True), (''password_policy_advanced'', CBool True),
     (''session_idle_timeout_min'', CInt 60), (''custom_themes'', CBool False),
     (''custom_email_templates'', CBool True), (''audit_export'', CBool False), (''event_streaming'', CBool False),
     (''hub_ui_groups_admin'', CBool True), (''hub_ui_scim_tab'', CBool False),
     (''hub_ui_idp_federation_tab'', CBool True), (''hub_ui_audit_export_tab'', CBool False)]"

definition tier_team :: "(string \<times> capability) list" where
  "tier_team =
    [(''realms'', CInt 1), (''clients_per_realm'', CInt 25), (''username_password'', CBool True),
     (''mfa'', CText ''required''), (''passwordless'', CText ''optional''), (''social_login'', CBool True),
     (''idp_federation'', CText ''multi''), (''saml_inbound'', CText ''multi''), (''scim'', CText ''basic''),
     (''user_self_registration'', CText ''optional''), (''password_policy_advanced'', CBool True),
     (''session_idle_timeout_min'', CInt 120), (''custom_themes'', CBool True),
     (''custom_email_templates'', CBool True), (''audit_export'', CText ''basic''),
     (''event_streaming'', CBool False), (''hub_ui_groups_admin'', CBool True), (''hub_ui_scim_tab'', CBool True),
     (''hub_ui_idp_federation_tab'', CBool True), (''hub_ui_audit_export_tab'', CBool True)]"

definition tier_enterprise :: "(string \<times> capability) list" where
  "tier_enterprise =
    [(''realms'', CText ''multi''), (''clients_per_realm'', CText ''multi''), (''username_password'', CBool True),
     (''mfa'', CText ''required''), (''passwordless'', CText ''optional''), (''social_login'', CBool True),
     (''idp_federation'', CText ''multi''), (''saml_inbound'', CText ''multi''), (''scim'', CText ''full''),
     (''user_self_registration'', CText ''optional''), (''password_policy_advanced'', CBool True),
     (''session_idle_timeout_min'', CInt 240), (''custom_themes'', CBool True),
     (''custom_email_templates'', CBool True), (''audit_export'', CText ''full''),
     (''event_streaming'', CBool True), (''hub_ui_groups_admin'', CBool True), (''hub_ui_scim_tab'', CBool True),
     (''hub_ui_idp_federation_tab'', CBool True), (''hub_ui_audit_export_tab'', CBool True)]"

definition tier_airgapped :: "(string \<times> capability) list" where
  "tier_airgapped =
    [(''realms'', CInt 1), (''clients_per_realm'', CText ''multi''), (''username_password'', CBool True),
     (''mfa'', CText ''required''), (''passwordless'', CText ''optional''), (''social_login'', CBool False),
     (''idp_federation'', CText ''multi''), (''saml_inbound'', CText ''multi''), (''scim'', CText ''full''),
     (''user_self_registration'', CBool False), (''password_policy_advanced'', CBool True),
     (''session_idle_timeout_min'', CInt 240), (''custom_themes'', CBool True),
     (''custom_email_templates'', CBool True), (''audit_export'', CText ''full''),
     (''event_streaming'', CBool True), (''hub_ui_groups_admin'', CBool True), (''hub_ui_scim_tab'', CBool True),
     (''hub_ui_idp_federation_tab'', CBool True), (''hub_ui_audit_export_tab'', CBool True)]"

definition TIER_CAPABILITIES :: "(string \<times> (string \<times> capability) list) list" where
  "TIER_CAPABILITIES = [(''free'', tier_free), (''founder'', tier_founder), (''team'', tier_team), (''enterprise'', tier_enterprise), (''airgapped'', tier_airgapped)]"

definition capabilities_for_tier :: "string \<Rightarrow> (string \<times> capability) list" where
  "capabilities_for_tier tier = (case map_of TIER_CAPABILITIES tier of None \<Rightarrow> tier_free | Some caps \<Rightarrow> caps)"

definition is_known_tier :: "string \<Rightarrow> bool" where
  "is_known_tier tier = (tier \<in> set KNOWN_TIERS)"

definition capability_level :: "string \<Rightarrow> string \<Rightarrow> capability" where
  "capability_level tier cap = dict_get (capabilities_for_tier tier) cap (CBool False)"

text \<open>\<open>value == 0\<close> also holds of \<open>False\<close>.\<close>

definition supports :: "string \<Rightarrow> string \<Rightarrow> bool" where
  "supports tier cap = (capability_level tier cap \<notin> {CBool False, CInt 0, CText []})"

definition diff_tiers :: "string \<Rightarrow> string \<Rightarrow> (string \<times> capability option \<times> capability option) list" where
  "diff_tiers a b =
     (let ca = capabilities_for_tier a; cb = capabilities_for_tier b in
      map (\<lambda>k. (k, map_of ca k, map_of cb k))
        (filter (\<lambda>k. map_of ca k \<noteq> map_of cb k) (sort (remdups (map fst ca @ map fst cb)))))"


section \<open>Which key signs\<close>

definition keys_of :: "(string \<times> json) list \<Rightarrow> json list" where
  "keys_of d = (case as_list (dict_get d ''keys'' (JList [])) of Inl _ \<Rightarrow> [] | Inr js \<Rightarrow> js)"

definition has_kid :: "string \<Rightarrow> json \<Rightarrow> bool" where
  "has_kid kid j = (case j of JDict d \<Rightarrow> map_of d ''kid'' = Some (JStr kid) | _ \<Rightarrow> False)"

lemma key_candidates_mem:
  "key_candidates kid ks = Inr cs \<Longrightarrow> set cs \<subseteq> {k \<in> set ks. kid = [] \<or> has_kid kid k}"
proof (induction ks arbitrary: cs)
  case (Cons k ks)
  then show ?case by (cases "kid = []"; cases k; cases "key_candidates kid ks") (auto simp: has_kid_def split: if_splits)
qed simp

lemma select_key_mem:
  assumes "select_signing_key L d kid = Inr key"
  shows "\<exists>jwk \<in> set (keys_of d). (kid = [] \<or> has_kid kid jwk) \<and> jl_from_jwk L jwk = Some key"
proof -
  obtain js cs where "as_list (dict_get d ''keys'' (JList [])) = Inr js" "key_candidates kid js = Inr cs"
    and c: "(case cs of [] \<Rightarrow> Inl Invalid_token | jwk # _ \<Rightarrow> (case jl_from_jwk L jwk of None \<Rightarrow> Inl Crash | Some key \<Rightarrow> Inr key)) = Inr key"
    using assms by (auto simp: select_signing_key_def rbind_eq_Inr)
  then show ?thesis using key_candidates_mem [of kid js cs]
    by (auto simp: keys_of_def split: list.splits option.splits)
qed

lemma select_no_key: "kid \<noteq> [] \<Longrightarrow> \<forall>j \<in> set (keys_of d). \<not> has_kid kid j \<Longrightarrow> \<exists>e. select_signing_key L d kid = Inl e"
  using select_key_mem [of L d kid] by (cases "select_signing_key L d kid") auto

lemma jwks_Inr:
  assumes "jwks E f k = (Inr d, k')"
  shows "kc_jwks k' = Some d" "kc_jwks_ttl k' = kc_jwks_ttl k"
    "(k' = k \<and> \<not> f \<and> (je_now E - kc_fetched_at k < kc_jwks_ttl k \<or> je_locked E - kc_fetched_at k < kc_jwks_ttl k)) \<or>
     (kc_fetched_at k' = je_done E \<and> jwks_payload (je_reply E) = Some d)"
  using assms by (auto simp: jwks_def jwks_live_def Let_def split: option.splits if_splits)

lemma jwks_state:
  assumes "jwks E f k = (r, k')"
  shows "k' = k\<lparr>kc_fetches := kc_fetches k'\<rparr> \<or> (\<exists>d. jwks_payload (je_reply E) = Some d \<and> kc_jwks k' = Some d \<and> kc_fetched_at k' = je_done E)"
    "kc_jwks_ttl k' = kc_jwks_ttl k" "kc_audience k' = kc_audience k" "kc_issuer k' = kc_issuer k" "kc_leeway k' = kc_leeway k"
    "kc_fetches k' = kc_fetches k \<or> kc_fetches k' = Suc (kc_fetches k)" "f \<Longrightarrow> kc_fetches k' = Suc (kc_fetches k)"
  using assms by (auto simp: jwks_def jwks_live_def Let_def split: option.splits if_splits)

lemma signing_key_Inr:
  assumes "signing_key L V kid k = (Inr key, k')"
  shows "\<exists>d. kc_jwks k' = Some d \<and> select_signing_key L d kid = Inr key"
proof -
  obtain d k1 where j: "jwks (ve_first V) False k = (Inr d, k1)"
    using assms by (cases "jwks (ve_first V) False k") (auto simp: signing_key_def ebind_apply split: sum.splits)
  show ?thesis
  proof (cases "select_signing_key L d kid")
    case (Inr x)
    then show ?thesis using assms j jwks_Inr(1) [OF j] by (auto simp: signing_key_def eff_simps)
  next
    case (Inl e)
    then have "e = Invalid_token" using assms j by (cases e) (auto simp: signing_key_def eff_simps)
    then obtain d' where "jwks (ve_again V) True k1 = (Inr d', k')" "select_signing_key L d' kid = Inr key"
      using assms j Inl by (auto simp: signing_key_def eff_simps split: prod.splits sum.splits)
    then show ?thesis using jwks_Inr(1) by blast
  qed
qed

lemma verify_token_Inr:
  assumes "verify_token L V token k = (Inr c, k')"
  shows "\<exists>h d key payload. jl_header L token = Some h \<and> map_of h ''alg'' = Some (JStr ''RS256'') \<and> kc_jwks k' = Some d \<and>
    select_signing_key L d (kid_of h) = Inr key \<and>
    jl_decode L token key (kc_audience k) (kc_issuer k) (kc_leeway k) (ve_now V) = Some payload \<and> make_claims L payload = Inr c"
proof -
  obtain h where h: "jl_header L token = Some h" "map_of h ''alg'' = Some (JStr ''RS256'')"
    using assms by (auto simp: verify_token_def split: if_splits option.splits)
  obtain key k1 where s: "signing_key L V (kid_of h) k = (Inr key, k1)"
    using assms h by (cases "signing_key L V (kid_of h) k") (auto simp: verify_token_def eff_simps split: if_splits sum.splits)
  then have "k1 = k'" "\<exists>payload. jl_decode L token key (kc_audience k) (kc_issuer k) (kc_leeway k) (ve_now V) = Some payload \<and> make_claims L payload = Inr c"
    using assms h by (auto simp: verify_token_def eff_simps split: if_splits option.splits)
  then show ?thesis using h signing_key_Inr [OF s] by blast
qed

lemma make_claims_sub: "make_claims L d = Inr c \<Longrightarrow> map_of d ''sub'' = Some (JStr (tc_sub c))"
  by (auto simp: make_claims_def rbind_eq_Inr need_def split: option.splits json.splits if_splits)

lemma from_claims_fields: "from_claims L c = Inr u \<Longrightarrow> us_id u = tc_sub c \<and> us_raw_claims u = c"
  by (auto simp: from_claims_def rbind_eq_Inr split: option.splits)

text \<open>
  Claim C5. Only the realm can name a user: if a request with an \<open>Authorization\<close> header is given a user, the header holds a
  bearer token with algorithm RS256, the keys then cached contain one with the id that the token names (the first key, if
  it names none), the token decodes under it for the audience and issuer of the Hub, and the user is its subject.
\<close>

theorem authenticated_by_realm_key:
  assumes "current_user L V hub_dev (Some a) (Some k) = (Inr u, client)"
  shows "\<exists>token h k' d jwk key payload. bearer_token_from_header (Some a) = Some token \<and> jl_header L token = Some h \<and>
    map_of h ''alg'' = Some (JStr ''RS256'') \<and> client = Some k' \<and> kc_jwks k' = Some d \<and> jwk \<in> set (keys_of d) \<and>
    (kid_of h = [] \<or> has_kid (kid_of h) jwk) \<and> jl_from_jwk L jwk = Some key \<and>
    jl_decode L token key (kc_audience k) (kc_issuer k) (kc_leeway k) (ve_now V) = Some payload \<and>
    map_of payload ''sub'' = Some (JStr (us_id u))"
proof -
  obtain token where t: "bearer_token_from_header (Some a) = Some token" "user_of_token L V token (Some k) = (Inr u, client)"
    using assms by (auto simp: current_user_def split: option.splits)
  obtain r k' where v: "verify_token L V token k = (r, k')" by fastforce
  then obtain c where c: "r = Inr c" "from_claims L c = Inr u" "client = Some k'"
    using t(2) by (auto simp: user_of_token_def rbind_eq_Inr to_http_def split: sum.splits identity_error.splits)
  from verify_token_Inr [OF v [unfolded c(1)]] obtain h d key payload where
    p: "jl_header L token = Some h" "map_of h ''alg'' = Some (JStr ''RS256'')" "kc_jwks k' = Some d"
      "select_signing_key L d (kid_of h) = Inr key"
      "jl_decode L token key (kc_audience k) (kc_issuer k) (kc_leeway k) (ve_now V) = Some payload" "make_claims L payload = Inr c" by blast
  have "us_id u = tc_sub c" using from_claims_fields [OF c(2)] by simp
  then show ?thesis using t(1) c(3) p select_key_mem [OF p(4)] make_claims_sub [OF p(6)] by metis
qed


section \<open>Keys that come and go\<close>

text \<open>The clock does not run backwards within a call, and a request to the endpoint takes less than \<open>slack\<close>.\<close>

definition timed :: "rat \<Rightarrow> jwks_env \<Rightarrow> bool" where
  "timed slack E \<longleftrightarrow> je_now E \<le> je_locked E \<and> je_locked E \<le> je_done E \<and> je_done E < je_locked E + slack"

text \<open>From the instant \<open>T\<close> on, the realm does not publish a key with this id.\<close>

definition withdrawn :: "string \<Rightarrow> rat \<Rightarrow> jwks_env \<Rightarrow> bool" where
  "withdrawn kid T E \<longleftrightarrow> (T \<le> je_locked E \<longrightarrow> (\<forall>d. jwks_payload (je_reply E) = Some d \<longrightarrow> (\<forall>j \<in> set (keys_of d). \<not> has_kid kid j)))"

definition calls_ok :: "(jwks_env \<Rightarrow> bool) \<Rightarrow> verify_env \<Rightarrow> bool" where
  "calls_ok P V \<longleftrightarrow> P (ve_first V) \<and> P (ve_again V)"

text \<open>Where the key is cached, it was fetched before it was withdrawn.\<close>

definition cache_before :: "string \<Rightarrow> rat \<Rightarrow> kc_client \<Rightarrow> bool" where
  "cache_before kid t k \<longleftrightarrow> (\<forall>d. kc_jwks k = Some d \<longrightarrow> (\<exists>j \<in> set (keys_of d). has_kid kid j) \<longrightarrow> kc_fetched_at k < t)"

lemma cache_before_jwks:
  assumes "timed slack E" "withdrawn kid T E" "cache_before kid (T + slack) k" "jwks E f k = (r, k')"
  shows "cache_before kid (T + slack) k'"
  using jwks_state(1) [OF assms(4)]
proof
  assume "k' = k\<lparr>kc_fetches := kc_fetches k'\<rparr>"
  then obtain n where "k' = k\<lparr>kc_fetches := n\<rparr>" by blast
  then show ?thesis using assms(3) by (simp add: cache_before_def)
next
  assume "\<exists>d. jwks_payload (je_reply E) = Some d \<and> kc_jwks k' = Some d \<and> kc_fetched_at k' = je_done E"
  then show ?thesis using assms(1,2) by (auto simp: cache_before_def withdrawn_def timed_def)
qed

lemma signing_key_state:
  assumes "\<And>E f k r k'. E \<in> {ve_first V, ve_again V} \<Longrightarrow> P k \<Longrightarrow> jwks E f k = (r, k') \<Longrightarrow> P k'" "P k"
  shows "P (snd (signing_key L V kid k))"
proof -
  obtain r k1 where j: "jwks (ve_first V) False k = (r, k1)" by fastforce
  then have p: "P k1" using assms by blast
  obtain r2 k2 where j2: "jwks (ve_again V) True k1 = (r2, k2)" by fastforce
  then have "P k2" using assms(1) p by blast
  with p show ?thesis using j j2 by (auto simp: signing_key_def eff_simps split: sum.split identity_error.split)
qed

lemma verify_token_state:
  assumes "\<And>E f k r k'. E \<in> {ve_first V, ve_again V} \<Longrightarrow> P k \<Longrightarrow> jwks E f k = (r, k') \<Longrightarrow> P k'" "P k"
  shows "P (snd (verify_token L V token k))"
proof (cases "jl_header L token")
  case (Some h)
  have "P (snd (signing_key L V (kid_of h) k))" using signing_key_state [of V P] assms by blast
  then show ?thesis using assms(2) Some
    by (cases "signing_key L V (kid_of h) k") (auto simp: verify_token_def eff_simps split: sum.split option.split)
qed (use assms(2) in \<open>simp add: verify_token_def\<close>)

text \<open>Requests one after the other.\<close>

fun verify_all :: "'key jwt_lib \<Rightarrow> (verify_env \<times> string) list \<Rightarrow> kc_client \<Rightarrow> kc_client" where
  "verify_all L [] k = k"
| "verify_all L ((V, token) # ts) k = verify_all L ts (snd (verify_token L V token k))"

lemma verify_all_state:
  assumes "\<And>V token E f k r k'. (V, token) \<in> set ts \<Longrightarrow> E \<in> {ve_first V, ve_again V} \<Longrightarrow> P k \<Longrightarrow> jwks E f k = (r, k') \<Longrightarrow> P k'" "P k"
  shows "P (verify_all L ts k)"
  using assms
proof (induction ts arbitrary: k)
  case (Cons x ts)
  obtain V token where x: "x = (V, token)" by fastforce
  have "P (snd (verify_token L V token k))"
    by (rule verify_token_state [where P = P, OF _ Cons.prems(2)]) (rule Cons.prems(1) [of V token], simp_all add: x)
  then show ?case using Cons.IH Cons.prems(1) x by (metis list.set_intros(2) verify_all.simps(2))
qed simp

lemma ttl_kept: "kc_jwks_ttl (verify_all L ts k) = kc_jwks_ttl k"
  by (rule verify_all_state [where P = "\<lambda>k'. kc_jwks_ttl k' = kc_jwks_ttl k"]) (auto dest: jwks_state(2))

text \<open>
  Claim C6. A key that the realm has withdrawn is worth nothing after the life time of the cache: whatever tokens were
  verified before, a token that names it is refused at every instant from the withdrawal plus the life time plus the
  longest duration of a request.
\<close>

theorem withdrawn_key_refused:
  assumes "\<forall>(V, t) \<in> set ((V0, token) # ts). calls_ok (timed slack) V \<and> calls_ok (withdrawn (kid_of h) T) V"
    "kc_jwks k = None" "kid_of h \<noteq> []" "jl_header L token = Some h" "0 \<le> slack" "0 \<le> kc_jwks_ttl k"
    "T + kc_jwks_ttl k + slack \<le> je_now (ve_first V0)" "T \<le> je_locked (ve_again V0)"
  shows "\<exists>e. fst (verify_token L V0 token (verify_all L ts k)) = Inl e"
proof -
  let ?k = "verify_all L ts k" and ?kid = "kid_of h" and ?E = "ve_first V0"
  have env: "timed slack E \<and> withdrawn ?kid T E" if "(V, t) \<in> set ((V0, token) # ts)" "E \<in> {ve_first V, ve_again V}" for V t E
    using assms(1) that by (auto simp: calls_ok_def)
  have b: "cache_before ?kid (T + slack) ?k"
  proof (rule verify_all_state [where P = "cache_before ?kid (T + slack)"])
    fix V t E f v r v'
    assume s: "(V, t) \<in> set ts" "E \<in> {ve_first V, ve_again V}" "cache_before ?kid (T + slack) v" "jwks E f v = (r, v')"
    then have "timed slack E" "withdrawn ?kid T E" using env [of V t E] by simp_all
    then show "cache_before ?kid (T + slack) v'" by (rule cache_before_jwks) (fact s)+
  qed (simp add: cache_before_def assms(2))
  have no: "\<exists>e. select_signing_key L d ?kid = Inl e" if "jwks E f v = (Inr d, v')" "cache_before ?kid (T + slack) v"
    "T \<le> je_locked E" "E \<in> {ve_first V0, ve_again V0}" "f \<or> (kc_jwks_ttl v = kc_jwks_ttl k \<and> E = ?E)" for E f v d v'
  proof -
    have "\<forall>j \<in> set (keys_of d). \<not> has_kid ?kid j"
      using jwks_Inr(3) [OF that(1)]
    proof
      assume l: "v' = v \<and> \<not> f \<and> (je_now E - kc_fetched_at v < kc_jwks_ttl v \<or> je_locked E - kc_fetched_at v < kc_jwks_ttl v)"
      then have "kc_jwks v = Some d" using jwks_Inr(1) [OF that(1)] by simp
      moreover have "\<not> kc_fetched_at v < T + slack" using l that(4,5) assms(7) env [of V0 token E] by (auto simp: timed_def)
      ultimately show ?thesis using that(2) by (auto simp: cache_before_def)
    next
      assume "kc_fetched_at v' = je_done E \<and> jwks_payload (je_reply E) = Some d"
      then show ?thesis using env [of V0 token E] that(3,4) by (auto simp: withdrawn_def)
    qed
    then show ?thesis using select_no_key [OF assms(3)] by blast
  qed
  have T: "T \<le> je_locked ?E" using assms(5,6,7) env [of V0 token ?E] by (simp add: timed_def)
  obtain r k1 where j: "jwks ?E False ?k = (r, k1)" by fastforce
  have b1: "cache_before ?kid (T + slack) k1" using cache_before_jwks [OF _ _ b j] env [of V0 token ?E] by simp
  obtain r2 k2 where j2: "jwks (ve_again V0) True k1 = (r2, k2)" by fastforce
  have "\<exists>e. fst (signing_key L V0 ?kid ?k) = Inl e"
  proof (cases r)
    case (Inl e)
    then show ?thesis using j by (simp add: signing_key_def eff_simps)
  next
    case (Inr d)
    then obtain e where e: "select_signing_key L d ?kid = Inl e" using no [OF _ b T, of False d k1] j by (auto simp: ttl_kept)
    show ?thesis
    proof (cases r2)
      case Inl
      then show ?thesis using j j2 Inr e by (cases e) (simp_all add: signing_key_def eff_simps)
    next
      case r2: (Inr d2)
      then obtain e2 where "select_signing_key L d2 ?kid = Inl e2" using no [OF _ b1 assms(8), of True d2 k2] j2 by auto
      then show ?thesis using j j2 Inr e r2 by (cases e) (simp_all add: signing_key_def eff_simps)
    qed
  qed
  then show ?thesis using assms(4) by (cases "signing_key L V0 ?kid ?k") (auto simp: verify_token_def eff_simps)
qed

text \<open>
  A new key works at once: where the cached keys lack it, the keys are asked for again in the same request, and a
  token that verifies under the key which the realm now publishes is accepted; the new keys are cached.
\<close>

theorem rotated_key_accepted_at_once:
  assumes "kc_jwks k = Some d" "je_now (ve_first V) - kc_fetched_at k < kc_jwks_ttl k"
    "token \<noteq> []" "jl_header L token = Some h" "map_of h ''alg'' = Some (JStr ''RS256'')"
    "select_signing_key L d (kid_of h) = Inl Invalid_token"
    "jwks_payload (je_reply (ve_again V)) = Some d'" "select_signing_key L d' (kid_of h) = Inr key"
    "jl_decode L token key (kc_audience k) (kc_issuer k) (kc_leeway k) (ve_now V) = Some payload" "make_claims L payload = Inr c"
  shows "verify_token L V token k =
    (Inr c, k\<lparr>kc_fetches := Suc (kc_fetches k), kc_jwks := Some d', kc_fetched_at := je_done (ve_again V)\<rparr>)"
  using assms by (simp add: verify_token_def signing_key_def eff_simps jwks_def jwks_live_def Let_def)

text \<open>The documents that are cached or served, and a token with a key id that none of them has.\<close>

definition served :: "(string \<times> json) list set \<Rightarrow> verify_env \<Rightarrow> bool" where
  "served D V \<longleftrightarrow> calls_ok (\<lambda>E. \<forall>d. jwks_payload (je_reply E) = Some d \<longrightarrow> d \<in> D) V"

definition made_up :: "'key jwt_lib \<Rightarrow> (string \<times> json) list set \<Rightarrow> string \<Rightarrow> bool" where
  "made_up L D t \<longleftrightarrow> t \<noteq> [] \<and> (\<exists>h. jl_header L t = Some h \<and> map_of h ''alg'' = Some (JStr ''RS256'') \<and>
     (\<forall>d \<in> D. select_signing_key L d (kid_of h) = Inl Invalid_token))"

lemma jwks_served:
  assumes "jwks E f k = (r, k')" "kc_jwks k \<in> insert None (Some ` D)" "\<forall>d. jwks_payload (je_reply E) = Some d \<longrightarrow> d \<in> D"
  shows "kc_jwks k' \<in> insert None (Some ` D)" "r = Inr d \<Longrightarrow> d \<in> D"
  using assms by (auto simp: jwks_def jwks_live_def Let_def split: option.splits if_splits)

lemma verify_token_snd:
  assumes "t \<noteq> []" "jl_header L t = Some h" "map_of h ''alg'' = Some (JStr ''RS256'')"
  shows "snd (verify_token L V t k) = snd (signing_key L V (kid_of h) k)"
  using assms by (cases "signing_key L V (kid_of h) k") (simp add: verify_token_def eff_simps split: sum.split option.split)

lemma made_up_fetches:
  assumes "made_up L D t" "served D V" "kc_jwks k \<in> insert None (Some ` D)"
  shows "Suc (kc_fetches k) \<le> kc_fetches (snd (verify_token L V t k))"
proof -
  obtain h where h: "t \<noteq> []" "jl_header L t = Some h" "map_of h ''alg'' = Some (JStr ''RS256'')"
    "\<forall>d \<in> D. select_signing_key L d (kid_of h) = Inl Invalid_token" using assms(1) by (auto simp: made_up_def)
  obtain r k1 where j: "jwks (ve_first V) False k = (r, k1)" by fastforce
  obtain r2 k2 where j2: "jwks (ve_again V) True k1 = (r2, k2)" by fastforce
  have "Suc (kc_fetches k) \<le> kc_fetches (snd (signing_key L V (kid_of h) k))"
  proof (cases r)
    case (Inl e)
    then have "kc_fetches k1 = Suc (kc_fetches k)" using j by (auto simp: jwks_def Let_def split: option.splits)
    then show ?thesis using j Inl by (simp add: signing_key_def eff_simps)
  next
    case (Inr d)
    have "\<forall>d. jwks_payload (je_reply (ve_first V)) = Some d \<longrightarrow> d \<in> D" using assms(2) by (simp add: served_def calls_ok_def)
    then have "d \<in> D" by (rule jwks_served(2) [OF j assms(3) _ Inr])
    then have e: "select_signing_key L d (kid_of h) = Inl Invalid_token" using h(4) by blast
    have "Suc (kc_fetches k) \<le> kc_fetches k2" using jwks_state(6) [OF j] jwks_state(7) [OF j2] by auto
    then show ?thesis using e j j2 Inr by (cases r2) (simp_all add: signing_key_def eff_simps)
  qed
  then show ?thesis by (simp only: verify_token_snd [OF h(1-3)])
qed

text \<open>
  Anyone can make the Hub ask the realm for its keys: each token with a made-up key id leads to at least one request
  to the endpoint, however young the cache is.
\<close>

theorem made_up_kid_always_fetches:
  assumes "\<forall>(V, t) \<in> set ts. served D V \<and> made_up L D t" "kc_jwks k \<in> insert None (Some ` D)"
  shows "kc_fetches k + length ts \<le> kc_fetches (verify_all L ts k)"
  using assms
proof (induction ts arbitrary: k)
  case (Cons x ts)
  obtain V t where x: "x = (V, t)" by fastforce
  have V: "served D V" "made_up L D t" using Cons.prems(1) x by auto
  have "kc_jwks (snd (verify_token L V t k)) \<in> insert None (Some ` D)"
  proof (rule verify_token_state [where P = "\<lambda>k. kc_jwks k \<in> insert None (Some ` D)", OF _ Cons.prems(2)])
    fix E f v r v' assume s: "E \<in> {ve_first V, ve_again V}" "kc_jwks v \<in> insert None (Some ` D)" "jwks E f v = (r, v')"
    have "\<forall>d. jwks_payload (je_reply E) = Some d \<longrightarrow> d \<in> D" using V(1) s(1) by (auto simp: served_def calls_ok_def)
    then show "kc_jwks v' \<in> insert None (Some ` D)" by (rule jwks_served(1) [OF s(3,2)])
  qed
  then have "kc_fetches (snd (verify_token L V t k)) + length ts \<le> kc_fetches (verify_all L ts (snd (verify_token L V t k)))"
    using Cons by simp
  then show ?case using x made_up_fetches [OF V(2,1) Cons.prems(2)] by simp
qed simp


text \<open>
  While the realm cannot be reached and no keys are cached, every request with a bearer token in its header is
  answered with status 500 and not 401, also one whose token is worthless, if only its header names RS256.
\<close>

theorem realm_down_is_server_error:
  assumes "kc_jwks k = None" "jwks_payload (je_reply (ve_first V)) = None" "bearer_token_from_header (Some a) = Some token"
    "jl_header L token = Some h" "map_of h ''alg'' = Some (JStr ''RS256'')" "token \<noteq> []"
  shows "fst (current_user L V hub_dev (Some a) (Some k)) = Inl Server_error"
  using assms by (simp add: current_user_def user_of_token_def verify_token_def signing_key_def eff_simps jwks_def jwks_live_def
      Let_def to_http_def)

section \<open>The roles of a user\<close>

lemma dedupe_props: "set (dedupe seen rs) = set rs - set seen" "distinct (dedupe seen rs)"
proof (induction rs arbitrary: seen)
  case (Cons r rs)
  { case 1 show ?case using Cons(1) by auto }
  { case 2 show ?case using Cons by auto }
qed simp_all

lemma client_roles_texts:
  assumes "client_roles L (client, access) = Inr rs"
  shows "x \<in> set rs \<longleftrightarrow> (\<exists>d js j. access = JDict d \<and> as_list (dict_get d ''roles'' (JList [])) = Inr js \<and> j \<in> set js \<and>
    x = client @ ''.'' @ role_text L j)"
proof (cases "truthy access")
  case True
  then show ?thesis using assms by (cases access) (auto simp: client_roles_def rbind_eq_Inr)
next
  case False
  then have "rs = []" using assms by (simp add: client_roles_def)
  moreover have "d = []" if "access = JDict d" for d using False that by (simp add: truthy_def)
  ultimately show ?thesis by (auto simp: dict_get_def as_list_def truthy_def)
qed

lemma all_client_roles:
  assumes "rmap (client_roles L) es = Inr rss"
  shows "x \<in> set (concat rss) \<longleftrightarrow> (\<exists>client d js j. (client, JDict d) \<in> set es \<and>
    as_list (dict_get d ''roles'' (JList [])) = Inr js \<and> j \<in> set js \<and> x = client @ ''.'' @ role_text L j)"
  using assms
proof (induction es arbitrary: rss)
  case (Cons e es)
  obtain client access where e: "e = (client, access)" by fastforce
  obtain rs rss' where r: "client_roles L (client, access) = Inr rs" "rmap (client_roles L) es = Inr rss'" "rss = rs # rss'"
    using Cons.prems by (auto simp: e rbind_eq_Inr)
  have "x \<in> set (concat rss) \<longleftrightarrow> x \<in> set rs \<or> x \<in> set (concat rss')" by (simp add: r(3))
  then show ?case unfolding client_roles_texts [OF r(1)] Cons.IH [OF r(2)] e list.set insert_iff prod.inject by blast
qed simp

lemma all_texts_set: "all_texts js = Some ts \<Longrightarrow> js = map JStr ts"
  by (induction js arbitrary: ts rule: all_texts.induct) auto

text \<open>
  A user's roles are exactly those that the token gives: the roles of the realm and, for each client, its roles
  with the client's name and a dot before them, each once.
\<close>

theorem roles_exact:
  assumes "from_claims L c = Inr u"
  shows "distinct (us_roles u) \<and>
    (\<exists>realm. as_list (dict_get (tc_realm_access c) ''roles'' (JList [])) = Inr (map JStr realm) \<and>
      (\<forall>x. x \<in> set (us_roles u) \<longleftrightarrow> x \<in> set realm \<or>
        (\<exists>client d js j. (client, JDict d) \<in> set (tc_resource_access c) \<and>
          as_list (dict_get d ''roles'' (JList [])) = Inr js \<and> j \<in> set js \<and> x = client @ ''.'' @ role_text L j)))"
proof -
  obtain js rss ts where r: "as_list (dict_get (tc_realm_access c) ''roles'' (JList [])) = Inr js"
    "rmap (client_roles L) (tc_resource_access c) = Inr rss" "all_texts js = Some ts" "us_roles u = dedupe [] (ts @ concat rss)"
    using assms by (auto simp: from_claims_def rbind_eq_Inr split: option.splits)
  have "distinct (us_roles u)" using r(4) dedupe_props(2) by simp
  moreover have "x \<in> set (us_roles u) \<longleftrightarrow> x \<in> set ts \<or> x \<in> set (concat rss)" for x
    by (simp only: r(4) dedupe_props(1) set_append list.set Diff_empty Un_iff)
  ultimately show ?thesis using r(1) unfolding all_client_roles [OF r(2)] all_texts_set [OF r(3)] by blast
qed

text \<open>
  The dot is no safe separator: a role \<open>c\<close> of a client \<open>a.b\<close>, a role \<open>b.c\<close> of a client \<open>a\<close> and a role \<open>a.b.c\<close> of the
  realm give the same role, so that whoever may name roles in one client can grant the roles of another.
\<close>

theorem dotted_roles_confused:
  assumes "tc_realm_access t = []" "tc_resource_access t = []"
  shows "\<exists>u1 u2 u3. from_claims L (t\<lparr>tc_resource_access := [(a @ ''.'' @ b, JDict [(''roles'', JList [JStr c])])]\<rparr>) = Inr u1 \<and>
    from_claims L (t\<lparr>tc_resource_access := [(a, JDict [(''roles'', JList [JStr (b @ ''.'' @ c)])])]\<rparr>) = Inr u2 \<and>
    from_claims L (t\<lparr>tc_realm_access := [(''roles'', JList [JStr (a @ ''.'' @ b @ ''.'' @ c)])]\<rparr>) = Inr u3 \<and>
    us_roles u1 = [a @ ''.'' @ b @ ''.'' @ c] \<and> us_roles u2 = us_roles u1 \<and> us_roles u3 = us_roles u1"
  using assms by (simp add: from_claims_def client_roles_def dict_get_def as_list_def truthy_def role_text_def)

section \<open>The tiers\<close>

lemma supports_listed: "supports tier cap \<Longrightarrow> cap \<in> set (map fst (capabilities_for_tier tier))"
  by (cases "map_of (capabilities_for_tier tier) cap")
    (auto simp: supports_def capability_level_def dict_get_def dest: map_of_SomeD intro: rev_image_eqI)

lemma ladder_table:
  "\<forall>(a, b) \<in> set (zip TIER_LADDER (tl TIER_LADDER)). \<forall>cap \<in> set (map fst (capabilities_for_tier a)). supports a cap \<longrightarrow> supports b cap"
  by code_simp

text \<open>
  Nothing is lost by moving up the ladder of tiers: what a tier supports, the next one supports too.
\<close>

theorem ladder_grows: "(a, b) \<in> set (zip TIER_LADDER (tl TIER_LADDER)) \<Longrightarrow> supports a cap \<Longrightarrow> supports b cap"
  using ladder_table supports_listed by blast

text \<open>An unknown tier offers what the free one does; an air-gapped Hub is not only without social login.\<close>

lemma unknown_tier_free: "\<not> is_known_tier tier \<Longrightarrow> capabilities_for_tier tier = capabilities_for_tier ''free''"
proof -
  assume "\<not> is_known_tier tier"
  then have "map_of TIER_CAPABILITIES tier = None"
    by (simp add: is_known_tier_def KNOWN_TIERS_def TIER_LADDER_def TIER_CAPABILITIES_def)
  then show ?thesis by (simp add: capabilities_for_tier_def) (simp add: TIER_CAPABILITIES_def)
qed

lemma airgapped_differs:
  "map fst (diff_tiers ''enterprise'' ''airgapped'') = [''realms'', ''social_login'', ''user_self_registration'']"
  by code_simp

section \<open>Tokens at work\<close>

text \<open>A token is the id of its key, which verifies it.\<close>

definition demo_jwt :: "string jwt_lib" where
  "demo_jwt = \<lparr>jl_header = (\<lambda>t. Some [(''alg'', JStr ''RS256''), (''kid'', JStr t)]),
     jl_from_jwk = (\<lambda>j. case j of JDict d \<Rightarrow> (case map_of d ''kid'' of Some (JStr s) \<Rightarrow> Some s | _ \<Rightarrow> None) | _ \<Rightarrow> None),
     jl_decode = (\<lambda>t key _ _ _ _. if key = t then Some [(''sub'', JStr ''u1''), (''exp'', JInt 9), (''iat'', JInt 1)] else None),
     jl_int = (\<lambda>j. case j of JInt n \<Rightarrow> Some n | _ \<Rightarrow> None), jl_bool = (\<lambda>_. None), jl_text = (\<lambda>_. [])\<rparr>"

definition demo_keys :: "string \<Rightarrow> (string \<times> json) list" where
  "demo_keys kid = [(''keys'', JList [JDict [(''kid'', JStr kid)]])]"

definition demo_call :: "string \<Rightarrow> rat \<Rightarrow> jwks_env" where
  "demo_call kid t = \<lparr>je_now = t, je_locked = t, je_done = t, je_reply = Answered 200 (Some (JDict (demo_keys kid)))\<rparr>"

definition demo_verify :: "string \<Rightarrow> rat \<Rightarrow> verify_env" where
  "demo_verify kid t = \<lparr>ve_first = demo_call kid t, ve_again = demo_call kid t, ve_now = t\<rparr>"

definition demo_realm :: kc_client where
  "demo_realm = \<lparr>kc_audience = ''hub'', kc_issuer = ''realm'', kc_jwks_ttl = DEFAULT_JWKS_TTL_SECONDS, kc_leeway = 30,
     kc_jwks = None, kc_fetched_at = 0, kc_fetches = 0\<rparr>"

definition demo_claims :: token_claims where
  "demo_claims = \<lparr>tc_sub = ''u1'', tc_email = None, tc_name = None, tc_preferred_username = None, tc_realm_access = [],
     tc_resource_access = [], tc_groups = [], tc_scope = [], tc_exp = 9, tc_iat = 1,
     tc_payload = [(''sub'', JStr ''u1''), (''exp'', JInt 9), (''iat'', JInt 1)]\<rparr>"

lemma demo_reply [simp]: "jwks_payload (je_reply (demo_call kid t)) = Some (demo_keys kid)"
  by (simp add: demo_call_def jwks_payload_def demo_keys_def)

lemma demo_times [simp]: "je_now (demo_call kid t) = t" "je_locked (demo_call kid t) = t" "je_done (demo_call kid t) = t"
  by (simp_all add: demo_call_def)

lemma demo_verify_parts [simp]: "ve_first (demo_verify kid t) = demo_call kid t" "ve_again (demo_verify kid t) = demo_call kid t"
  "ve_now (demo_verify kid t) = t"
  by (simp_all add: demo_verify_def)

lemma demo_header: "jl_header demo_jwt t = Some [(''alg'', JStr ''RS256''), (''kid'', JStr t)]"
  "kid_of [(''alg'', JStr ''RS256''), (''kid'', JStr t)] = t"
  by (simp_all add: demo_jwt_def kid_of_def)

lemma demo_key_selected: "kid' \<noteq> [] \<Longrightarrow> select_signing_key demo_jwt (demo_keys kid) kid' = (if kid = kid' then Inr kid else Inl Invalid_token)"
  by (simp add: select_signing_key_def demo_keys_def dict_get_def as_list_def truthy_def demo_jwt_def)

lemma demo_keys_of: "keys_of (demo_keys kid) = [JDict [(''kid'', JStr kid)]]"
  by (simp add: keys_of_def demo_keys_def dict_get_def as_list_def truthy_def)

lemma demo_make: "make_claims demo_jwt [(''sub'', JStr ''u1''), (''exp'', JInt 9), (''iat'', JInt 1)] = Inr demo_claims"
  by (simp add: make_claims_def need_def opt_text_def dict_field_def texts_field_def unread_fields_ok_def demo_jwt_def demo_claims_def)

lemma demo_decode: "jl_decode demo_jwt t t aud iss l now = Some [(''sub'', JStr ''u1''), (''exp'', JInt 9), (''iat'', JInt 1)]"
  by (simp add: demo_jwt_def)

lemma demo_user: "\<exists>u. from_claims demo_jwt demo_claims = Inr u \<and> us_id u = ''u1''"
  by (simp add: from_claims_def demo_claims_def dict_get_def as_list_def truthy_def)

lemma demo_verified: "t \<noteq> [] \<Longrightarrow> fst (verify_token demo_jwt (demo_verify t now) t demo_realm) = Inr demo_claims"
  by (simp add: verify_token_def demo_header signing_key_def eff_simps jwks_def jwks_live_def demo_realm_def Let_def
      demo_key_selected demo_decode demo_make)

lemma demo_bearer: "bearer_token_from_header (Some ''Bearer k1'') = Some ''k1''"
  by code_simp

theorem authenticated_by_realm_key_witness:
  "\<exists>u client k' d. current_user demo_jwt (demo_verify ''k1'' 5) False (Some ''Bearer k1'') (Some demo_realm) = (Inr u, client) \<and>
    client = Some k' \<and> kc_jwks k' = Some d \<and> (\<exists>jwk \<in> set (keys_of d). jl_from_jwk demo_jwt jwk \<noteq> None)"
proof -
  obtain k' where v: "verify_token demo_jwt (demo_verify ''k1'' 5) ''k1'' demo_realm = (Inr demo_claims, k')"
    using demo_verified [of "''k1''" 5] by (metis list.distinct(1) prod.collapse)
  obtain u where u: "from_claims demo_jwt demo_claims = Inr u" using demo_user by blast
  have c: "current_user demo_jwt (demo_verify ''k1'' 5) False (Some ''Bearer k1'') (Some demo_realm) = (Inr u, Some k')"
    by (simp add: current_user_def demo_bearer user_of_token_def v u to_http_def)
  from authenticated_by_realm_key [OF c] show ?thesis using c by fastforce
qed

theorem withdrawn_key_refused_witness:
  "\<exists>e. fst (verify_token demo_jwt (demo_verify ''k2'' 400) ''k1''
     (verify_all demo_jwt [(demo_verify ''k1'' 5, ''k1''), (demo_verify ''k2'' 50, ''k1'')] demo_realm)) = Inl e"
proof -
  let ?ts = "[(demo_verify ''k1'' 5, ''k1''), (demo_verify ''k2'' 50, ''k1'')]"
  have h: "\<forall>(V, t) \<in> set ((demo_verify ''k2'' 400, ''k1'') # ?ts). calls_ok (timed 5) V \<and> calls_ok (withdrawn ''k1'' 10) V"
    by (simp add: calls_ok_def timed_def withdrawn_def demo_keys_of has_kid_def)
  show ?thesis
    using withdrawn_key_refused [of "demo_verify ''k2'' 400" "''k1''" ?ts 5 _ 10 demo_realm demo_jwt, OF _ _ _ demo_header(1)] h
    by (simp add: demo_header demo_realm_def DEFAULT_JWKS_TTL_SECONDS_def)
qed

theorem rotated_key_accepted_at_once_witness:
  "fst (verify_token demo_jwt (demo_verify ''k2'' 50) ''k2'' (demo_realm\<lparr>kc_jwks := Some (demo_keys ''k1''), kc_fetched_at := 40\<rparr>)) = Inr demo_claims"
  using rotated_key_accepted_at_once [of "demo_realm\<lparr>kc_jwks := Some (demo_keys ''k1''), kc_fetched_at := 40\<rparr>" "demo_keys ''k1''"
      "demo_verify ''k2'' 50" "''k2''" demo_jwt _ "demo_keys ''k2''" "''k2''", OF _ _ _ demo_header(1) _ _ _ _ demo_decode demo_make]
  by (simp add: demo_header demo_key_selected demo_realm_def DEFAULT_JWKS_TTL_SECONDS_def)

theorem made_up_kid_always_fetches_witness:
  "3 \<le> kc_fetches (verify_all demo_jwt [(demo_verify ''k1'' 5, ''x''), (demo_verify ''k1'' 6, ''y''), (demo_verify ''k1'' 7, ''z'')] demo_realm)"
  using made_up_kid_always_fetches [of "[(demo_verify ''k1'' 5, ''x''), (demo_verify ''k1'' 6, ''y''), (demo_verify ''k1'' 7, ''z'')]"
      "{demo_keys ''k1''}" demo_jwt demo_realm]
  by (simp add: served_def calls_ok_def made_up_def demo_header demo_key_selected demo_realm_def del: verify_all.simps)

theorem realm_down_is_server_error_witness:
  "fst (current_user demo_jwt (demo_verify ''k1'' 5\<lparr>ve_first := (demo_call ''k1'' 5)\<lparr>je_reply := Unreachable\<rparr>\<rparr>) False (Some ''Bearer k1'')
     (Some demo_realm)) = Inl Server_error"
  by (rule realm_down_is_server_error [OF _ _ demo_bearer demo_header(1)]) (simp_all add: demo_realm_def jwks_payload_def)

theorem roles_exact_witness:
  "\<exists>u. from_claims demo_jwt (demo_claims\<lparr>tc_realm_access := [(''roles'', JList [JStr ''user''])],
       tc_resource_access := [(''hub'', JDict [(''roles'', JList [JStr ''admin''])])]\<rparr>) = Inr u \<and> set (us_roles u) = {''user'', ''hub.admin''}"
proof -
  let ?c = "demo_claims\<lparr>tc_realm_access := [(''roles'', JList [JStr ''user''])],
       tc_resource_access := [(''hub'', JDict [(''roles'', JList [JStr ''admin''])])]\<rparr>"
  obtain u where u: "from_claims demo_jwt ?c = Inr u"
    by (simp add: from_claims_def client_roles_def dict_get_def as_list_def truthy_def)
  from roles_exact [OF u] obtain realm where
    r: "as_list (dict_get (tc_realm_access ?c) ''roles'' (JList [])) = Inr (map JStr realm)" and
    m: "\<forall>x. x \<in> set (us_roles u) \<longleftrightarrow> x \<in> set realm \<or> (\<exists>client d js j. (client, JDict d) \<in> set (tc_resource_access ?c) \<and>
      as_list (dict_get d ''roles'' (JList [])) = Inr js \<and> j \<in> set js \<and> x = client @ ''.'' @ role_text demo_jwt j)" by blast
  have "[JStr ''user''] = map JStr realm" using r by (simp add: dict_get_def as_list_def truthy_def)
  then have realm: "realm = [''user'']" by auto
  have "x \<in> set (us_roles u) \<longleftrightarrow> x = ''user'' \<or> x = ''hub.admin''" for x
    using m [rule_format, of x] by (simp add: realm dict_get_def as_list_def truthy_def role_text_def)
  then show ?thesis using u by blast
qed

theorem dotted_roles_confused_witness:
  "\<exists>u. from_claims demo_jwt (demo_claims\<lparr>tc_resource_access := [(''a'', JDict [(''roles'', JList [JStr ''b.admin''])])]\<rparr>) = Inr u \<and>
    us_roles u = [''a.b.admin'']"
  using dotted_roles_confused [of demo_claims demo_jwt "''a''" "''b''" "''admin''"] by (auto simp: demo_claims_def)

theorem ladder_grows_witness: "supports ''team'' ''scim'' \<and> supports ''enterprise'' ''scim''"
proof -
  have "supports ''team'' ''scim''" "(''team'', ''enterprise'') \<in> set (zip TIER_LADDER (tl TIER_LADDER))" by code_simp+
  then show ?thesis using ladder_grows by blast
qed

end
