(* ===== verification/Spec2Isabelle.thy ===== *)
theory Spec2Isabelle
  imports Secrets Cache_Race Decision_Ledger Audit_Record License Quota_Ledger Shamir Federation
    Regex Roadmap Story_Graph Decomposer Pipeline_Manifest Pipeline_Lock
    Approval_Token Lifecycle Learning Anonymizer Instincts
    Decision_Cards Recovery Hub_Dispatch Ack_Hook Pipeline_Runner Notify Rotation Cost_Router Identity
begin

text \<open>
  \<^bold>\<open>Spine: a verification library.\<close>

  Spine (the Python program under \<^verbatim>\<open>src/\<close>) runs a software delivery process: it plans work from
  product documents, drives roles through the phases of a pipeline, and keeps the evidence. Its own
  core logic is in the stores that must not lose or forge anything and in the algorithms that plan.
  This library models those parts.

  \<^bold>\<open>The parts and how they interact.\<close> Secrets are read through an adapter behind a cache
  (\<^verbatim>\<open>shared/secrets\<close>); the licence verifier fetches the vendor key from there, checks the signed
  bundle and answers the feature flags (\<^verbatim>\<open>license\<close>, \<^verbatim>\<open>shared/api/middleware\<close>), whose use is counted in
  an anchored ledger. Every state change of the tools leaves an audit row (\<^verbatim>\<open>shared/audit\<close>), and
  promotions leave a decision ledger; both are hash chains. Hubs of a federation register children,
  exchange consent and cascade updates (\<^verbatim>\<open>federation\<close>). Planning turns a PRD and a TRD into a roadmap
  with sized, ordered stories (\<^verbatim>\<open>plan/decomposer\<close>), under a pipeline manifest that is merged from
  overlays, locked to a project and migrated (\<^verbatim>\<open>plan/pipeline\<close>). The orchestrator moves a project
  through its phases; a gate is passed with a signed approval token (\<^verbatim>\<open>orchestrator\<close>,
  \<^verbatim>\<open>shared/mcp/tools\<close>). A human answers through decision cards (\<^verbatim>\<open>shared/api/routes/decisions.py\<close>):
  the hook on an acknowledged card moves the phase and dispatches the next role (\<^verbatim>\<open>_post_ack.py\<close>), whose
  outcome is the next card; the phase watcher dispatches what is due without a card, the recovery code what
  got stuck, and the autonomous runner acknowledges the cards that the gate policy leaves to it
  (\<^verbatim>\<open>shared/runtime\<close>). The model of a role is chosen under caps on its cost (\<^verbatim>\<open>shared/cost\<close>), and people
  are notified at a limited rate (\<^verbatim>\<open>shared/notify\<close>). Requests to the Hub carry a token of the realm, whose
  claims give the user and the roles (\<^verbatim>\<open>shared/identity\<close>). What a
  hub learns is anonymised and, with consent, contributed upstream; what a project learns is kept as
  instincts that are promoted (\<^verbatim>\<open>learning\<close>, \<^verbatim>\<open>shared/mcp/tools\<close>).

  \<^bold>\<open>Theories.\<close>
  \<^item> \<^verbatim>\<open>Prelude\<close>: results \<open>'e + 'a\<close>, state passing \<open>eff\<close>, dictionaries, Python strings. \<^verbatim>\<open>Json\<close>:
    JSON values. \<^verbatim>\<open>Bytes\<close>: bytes, hexadecimal, base64. \<^verbatim>\<open>Hash_Chain\<close>: the locales of hash-linked
    sequences, interpreted by the ledgers and the audit table. \<^verbatim>\<open>Regex\<close>: the fragment of Python's
    \<^verbatim>\<open>re\<close> the planner uses, keyword search and numerals.
  \<^item> \<^verbatim>\<open>Secrets\<close>: \<^verbatim>\<open>base.py\<close>, \<^verbatim>\<open>memory.py\<close>, \<^verbatim>\<open>cache.py\<close>, \<^verbatim>\<open>__init__.py\<close>. The cache is transparent
    to requests that follow one another, around any adapter that behaves as a map and answers. \<^verbatim>\<open>Cache_Race\<close>: concurrent gets and puts as a step relation,
    the staleness bound, and the run that serves an overwritten value.
  \<^item> \<^verbatim>\<open>Decision_Ledger\<close>: \<^verbatim>\<open>decision_ledger.py\<close>, \<^verbatim>\<open>decision_ledger_io.py\<close>. Appends verify, tampering
    shows, the promotion gate is exact, and an entry longer than the look-back window breaks the chain.
  \<^item> \<^verbatim>\<open>Audit_Record\<close>: \<^verbatim>\<open>audit_record.py\<close>, \<^verbatim>\<open>redactor.py\<close>, the row stream of \<^verbatim>\<open>exporter.py\<close>. Writes
    that follow one another and read the tip keep the chain; one whose query for the tip fails and those that do not
    ask are flagged; stored rows are sound; the export is complete but for rows with a line boundary of Unicode.
  \<^item> \<^verbatim>\<open>License\<close>: \<^verbatim>\<open>bundle_v1.py\<close>, \<^verbatim>\<open>bundle_verifier.py\<close>, \<^verbatim>\<open>feature_flags.py\<close> and the HTTP gate.
    Only vendor-signed payloads become active; flag answers are exact; the gate opens after a failed
    start. \<^verbatim>\<open>Quota_Ledger\<close>: \<^verbatim>\<open>quota_ledger.py\<close> with its read and write steps apart.
  \<^item> \<^verbatim>\<open>Shamir\<close>: \<^verbatim>\<open>shamir.py\<close>. Round trips of shares and share files; what a failure destroys.
  \<^item> \<^verbatim>\<open>Federation\<close>: \<^verbatim>\<open>hub_registry.py\<close>, \<^verbatim>\<open>consent.py\<close>, \<^verbatim>\<open>downstream_router.py\<close>,
    \<^verbatim>\<open>update_cascade.py\<close>. One invariant over all operations, consent for delegated calls, the effect
    of approval and of its failures. The code never calls the verifier of an update's signature, so the theorem on
    approval takes a valid signature as a condition.
  \<^item> \<^verbatim>\<open>Roadmap\<close>: the artifact models with their validators. \<^verbatim>\<open>Story_Graph\<close>: dependency detection,
    the depth-first cycle search, Kahn's order and the sprint plan. The search reports a cycle exactly
    when there is one, every story is planned, acyclic dependencies are respected. \<^verbatim>\<open>Decomposer\<close>:
    sizing, id allocation, clustering, materialisation and \<^verbatim>\<open>decompose\<close>; no candidate is lost, known
    ids are kept and new ones are fresh.
  \<^item> \<^verbatim>\<open>Pipeline_Manifest\<close>: \<^verbatim>\<open>manifest_loader.py\<close>, \<^verbatim>\<open>capability_checker.py\<close>. Overlays never widen a
    grant of the default manifest, so that those of an organisation's bundle are dropped. \<^verbatim>\<open>Pipeline_Lock\<close>: \<^verbatim>\<open>project_lock.py\<close>, \<^verbatim>\<open>phase_evolution.py\<close>, the version hash. The migration of a
    plan that needs no user action is authorised or does nothing, a lock reads back, renames partition the changes. Values
    reach psql through \<open>psql_bound\<close>: one with a line feed breaks the script, with an effect given by a parameter.
  \<^item> \<^verbatim>\<open>Approval_Token\<close>: the token format, signature and expiry of \<^verbatim>\<open>approval.py\<close>. \<^verbatim>\<open>Lifecycle\<close>: the
    project tools of \<^verbatim>\<open>orchestrator.py\<close> and the transition script; \<open>phase_advance\<close> passes a gate only with a token
    for it, and approval is granted from the states that allow it.
  \<^item> \<^verbatim>\<open>Anonymizer\<close>: redaction and the group-size threshold. \<^verbatim>\<open>Learning\<close>: scope resolution, consent
    and contribution; nothing leaves the hub without consent. \<^verbatim>\<open>Instincts\<close>: the instinct store with its
    counters, scores and promotion check.
  \<^item> \<^verbatim>\<open>Decision_Cards\<close>: \<^verbatim>\<open>decisions.py\<close>, \<^verbatim>\<open>hub_scope.py\<close> and the table of the cards. The queue refines
    a map from ids to cards, stated as the locale \<open>decision_queue\<close>; a card answered under an alias stays
    pending; the event stream is bounded. \<^verbatim>\<open>Recovery\<close>: \<^verbatim>\<open>_project_recovery.py\<close> and the rows that
    \<^verbatim>\<open>_post_ack.py\<close> reads and writes: which projects are dispatched and with which role, the exact
    pending count, how a started role keeps later dispatches out and how two requests race, and what reset and resume do. \<^verbatim>\<open>Hub_Dispatch\<close>:
    \<^verbatim>\<open>_role_dispatch_bridge.py\<close>, the phase moves of \<^verbatim>\<open>_pipeline_bridge.py\<close>, the dispatch and gap cards of \<^verbatim>\<open>_post_ack.py\<close> and
    \<^verbatim>\<open>phase_watcher.py\<close>; the outcome of a mapped role becomes one pending card (a remediation is followed by a review, and
    names over 160 characters are excluded), the locale \<open>role_dispatcher\<close> states what its callers rely
    on, and the watcher leaves projects with pending cards alone but overlooks running roles. \<^verbatim>\<open>Ack_Hook\<close>:
    \<^verbatim>\<open>on_decision_acked\<close>; the chain goes on, a refused move is forced, and a step relation over
    acknowledgements, polls and recovery shows that no role they start reaches the branch that moves a project to the phase operate. \<^verbatim>\<open>Pipeline_Runner\<close>:
    \<^verbatim>\<open>gate_policy.py\<close>, \<^verbatim>\<open>pipeline_runner.py\<close>, \<^verbatim>\<open>intake_prompts.py\<close>; the runner acknowledges exactly
    the cards the policy permits, before \<open>operate_started_at\<close> is set, and pauses a project at a stop card.
  \<^item> \<^verbatim>\<open>Notify\<close>: \<^verbatim>\<open>rate_limit.py\<close>, \<^verbatim>\<open>notifier.py\<close>, \<^verbatim>\<open>channels.py\<close>; one delivery of a notifier for a key and window, and what the
    ledger of a window counts. \<^verbatim>\<open>Rotation\<close>: \<^verbatim>\<open>rotation.py\<close> and the route that rotates; leases are renewed in
    time while Vault grants what is asked of it, an expired one is dropped, listeners are all called. \<^verbatim>\<open>Cost_Router\<close>: \<^verbatim>\<open>router.py\<close>, the selection table, the team router and the
    overrides of a project; a route that is not blocked is within the hard caps where the ledger can be read, an override reads back.
    \<^verbatim>\<open>Identity\<close>: \<^verbatim>\<open>shared/identity\<close>: claims and users, the cached keys of the realm, token verification, the
    dependencies of a route, roles and the table of tiers; a user is always the subject of a token that verifies under a
    cached key, and a withdrawn key is refused once the life time of the cache is over.

  \<^bold>\<open>Conventions.\<close> A class of data is a \<open>record\<close>, an enumeration a \<open>datatype\<close>; a method that
  changes state is a function of type \<open>('s, 'e, 'a) eff\<close> that returns the error or value and the
  new state; every \<^verbatim>\<open>raise\<close> is a value of the component's error type. Text is a list of characters;
  characters outside Latin-1 do not occur, except in the rows of the exporter, which are lists of code points, and
  the em dash is written as the character 0x97 where the source has it in a literal. Database tables are lists of records in insertion order.

  \<^bold>\<open>Parameters.\<close> SHA-256, Ed25519, JSON printing and parsing, the pyshamir package, the organisation's
  files, psql, the knowledge graph, HMAC, UUID parsing, the text form of instants, the roles and intake
  turns that call a language model (the tools behind the MCP bridge, with the graph's context they are given), the
  number of files of a workspace, the transports of notifications, how psql reads a quoted value and what a broken script does, whether the query for the tip of
  the audit table answers, the answers of Vault and of rotation listeners, PyJWT with the realm's answers and the clock between them, the complexity score of a task, the grant and advance tools as the hooks of a card
  see them, the local deployment and the text in the body of a card are fields of environment records or arguments. What a theorem
  needs of them (injectivity on the values at hand, a parser that inverts its printer, the round trip
  that pyshamir documents) is a hypothesis of that theorem, shown satisfiable by its witness.

  \<^bold>\<open>Bounds and termination.\<close> All definitions are total. The depth-first search takes the recursion
  limit of the interpreter as a number and the theorem on it says that the number of different nodes is
  enough; Kahn's loop has a measure; the exporter's paging ends because each page advances and a row gives at least one line. The
  recovery pulse calls itself once after a repair, and the lemma \<open>recovery_pulse_fuel\<close> shows that fuel
  two gives the result of every larger fuel; \<open>orchestrate_enough_fuel\<close> shows the same of a remediation, which
  calls for one review. Listeners of a rotation may register others while they run, so \<open>hook_fire\<close> is a partial
  function, and \<open>fire_reaches_all\<close> gives the condition under which it returns. Instants and money are integers or rationals and are not
  rounded; the scores of \<^verbatim>\<open>Instincts\<close> are doubles, modelled as rationals rounded to the nearest double
  after each operation. A handler is one atomic step, except in the theorems on races (\<^verbatim>\<open>Cache_Race\<close>,
  \<^verbatim>\<open>Quota_Ledger\<close>, the concurrent dispatches of \<^verbatim>\<open>Recovery\<close>), where its reads and writes are apart.

  \<^bold>\<open>Not modelled.\<close> Command lines, HTTP transport, cloud SDKs, subprocesses and git; the FastAPI
  routes apart from the licence gate, the rotation of a secret, the decision cards and recovery; the prompts and
  role runners in \<^verbatim>\<open>_post_ack.py\<close>, which render text for a language model and keep what it answers; the MCP
  tools apart from those named above; the language-model clients, the classifier and the complexity scorer, which weigh
  words in floating point; the Tron service; dashboards and migrations. The order in which Python iterates
  over a set is fixed to the order of the older manifest where one is needed.

  \<^bold>\<open>Plan.\<close> Left for later: browser sessions with their cookies, the rate limit of requests, two-party attestation, the retry of language-model
  calls, and the rest of \<^verbatim>\<open>shared/runtime\<close>.
\<close>

end
